(* ===== verification/Prelude.thy ===== *)
theory Prelude
  imports Main
begin

text \<open>
  Shared vocabulary of the development: the exceptions of the program as values of one
  datatype, sequencing of fallible steps, Python's \<open>str(int)\<close>, the key strings that are
  hashed into idempotency keys, and the generic lemmas about key-indexed lists that the
  component theories share.
\<close>

section \<open>Collections of facts\<close>

named_theorems wallet_simps "defining equations and frame rules of the wallet operations"
named_theorems order_frames "fields that an operation leaves alone"

section \<open>Exceptions and fallible steps\<close>

text \<open>
  The exception classes that the modelled code raises. The text is the message; a
  \<open>ProviderError\<close> also carries its \<open>retryable\<close> attribute. \<open>IntegrityError\<close> and
  \<open>InvalidRequestError\<close> are the two SQLAlchemy exceptions that the code can meet: a
  violated unique constraint, and a refresh of a row that is gone. \<open>HTTPException\<close> is FastAPI's,
  with the status code.
\<close>

datatype exn =
    WalletError string
  | InsufficientFunds string
  | OrderError string
  | PermissionError string
  | ValueError string
  | ProviderError string bool
  | DepositError string
  | GatewayError string
  | SignatureError string
  | IntegrityError string
  | InvalidRequestError string
  | HTTPException int string
  | OtherError string

text \<open>
  A call that may raise is a value of \<open>exn + 'a\<close>. An exception leaves the whole
  transaction without effect (\<open>session_scope\<close> in \<open>app/db.py\<close> rolls back), so the
  left summand carries no state.
\<close>

type_synonym 'a res = "exn + 'a"

definition e_bind :: "'e + 'a \<Rightarrow> ('a \<Rightarrow> 'e + 'b) \<Rightarrow> 'e + 'b" where
  "e_bind m f = (case m of Inl e \<Rightarrow> Inl e | Inr x \<Rightarrow> f x)"

lemma e_bind_simps [simp]:
  "e_bind (Inl e) f = Inl e"
  "e_bind (Inr x) f = f x"
  by (simp_all add: e_bind_def)

lemma e_bind_eq_Inr [simp]: "e_bind m f = Inr y \<longleftrightarrow> (\<exists>x. m = Inr x \<and> f x = Inr y)"
  by (cases m) auto

lemma e_bind_eq_Inl: "e_bind m f = Inl e \<longleftrightarrow> m = Inl e \<or> (\<exists>x. m = Inr x \<and> f x = Inl e)"
  by (cases m) auto

definition guard_exn :: "bool \<Rightarrow> exn \<Rightarrow> unit res" where
  "guard_exn ok e = (if ok then Inr () else Inl e)"

lemma guard_exn_Inr [simp]: "guard_exn ok e = Inr x \<longleftrightarrow> ok"
  by (simp add: guard_exn_def)

lemma guard_exn_simps [simp]:
  "guard_exn True e = Inr ()"
  "guard_exn False e = Inl e"
  by (simp_all add: guard_exn_def)

section \<open>Decimal text\<close>

text \<open>Python's \<open>str(n)\<close> of an integer.\<close>

fun digits_nat :: "nat \<Rightarrow> string" where
  "digits_nat n =
     (if n < 10 then [char_of (48 + n)] else digits_nat (n div 10) @ [char_of (48 + n mod 10)])"

declare digits_nat.simps [simp del]

definition str_int :: "int \<Rightarrow> string" where
  "str_int i = (if i < 0 then CHR ''-'' # digits_nat (nat (- i)) else digits_nat (nat i))"

definition val_digits :: "string \<Rightarrow> nat" where
  "val_digits s = foldl (\<lambda>n c. 10 * n + (of_char c - 48)) 0 s"

lemma of_char_digit [simp]: "d < 10 \<Longrightarrow> (of_char (char_of (48 + d) :: char) :: nat) = 48 + d"
  by (simp add: of_char_of)

lemma val_digits_nat [simp]: "val_digits (digits_nat n) = n"
proof (induction n rule: digits_nat.induct)
  case (1 n)
  show ?case
  proof (cases "n < 10")
    case True
    then show ?thesis by (subst digits_nat.simps) (simp add: val_digits_def)
  next
    case False
    with 1 have ih: "val_digits (digits_nat (n div 10)) = n div 10" by simp
    have "val_digits (digits_nat n) = 10 * val_digits (digits_nat (n div 10)) + n mod 10"
      using False by (subst digits_nat.simps) (simp add: val_digits_def)
    with ih show ?thesis by simp
  qed
qed

lemma digits_nat_chars: "c \<in> set (digits_nat n) \<Longrightarrow> \<exists>d<10. c = char_of (48 + d :: nat)"
proof (induction n rule: digits_nat.induct)
  case (1 n)
  show ?case
  proof (cases "n < 10")
    case True
    with "1.prems" show ?thesis by (subst (asm) digits_nat.simps) auto
  next
    case False
    with "1.prems" have "c \<in> set (digits_nat (n div 10)) \<or> c = char_of (48 + n mod 10)"
      by (subst (asm) digits_nat.simps) auto
    then show ?thesis
    proof
      assume "c \<in> set (digits_nat (n div 10))"
      with "1.IH" False show ?thesis by simp
    next
      assume "c = char_of (48 + n mod 10)"
      moreover have "n mod 10 < 10" by simp
      ultimately show ?thesis by blast
    qed
  qed
qed

lemma char_of_digit_neq: "d < 10 \<Longrightarrow> of_char c \<notin> {48..57::nat} \<Longrightarrow> char_of (48 + d :: nat) \<noteq> c"
  by auto

lemma digits_nat_no_char: "of_char c \<notin> {48..57::nat} \<Longrightarrow> c \<notin> set (digits_nat n)"
  using digits_nat_chars char_of_digit_neq by blast

lemma digits_nat_minus: "CHR ''-'' \<notin> set (digits_nat n)"
  by (rule digits_nat_no_char) simp

lemma inj_str_int: "str_int i = str_int j \<longleftrightarrow> i = j"
proof
  assume eq: "str_int i = str_int j"
  have minus: "CHR ''-'' # xs = digits_nat n \<longleftrightarrow> False" for xs n
    using digits_nat_minus [of n] by (metis list.set_intros(1))
  have digits: "digits_nat m = digits_nat n \<Longrightarrow> m = n" for m n
    by (metis val_digits_nat)
  show "i = j"
  proof (cases "i < 0"; cases "j < 0")
    assume "i < 0" and "j < 0"
    with eq have "nat (- i) = nat (- j)" by (auto simp: str_int_def dest: digits)
    with \<open>i < 0\<close> \<open>j < 0\<close> show ?thesis by simp
  next
    assume "i < 0" and "\<not> j < 0"
    with eq show ?thesis by (simp add: str_int_def minus)
  next
    assume "\<not> i < 0" and "j < 0"
    with eq [symmetric] show ?thesis by (simp add: str_int_def minus)
  next
    assume "\<not> i < 0" and "\<not> j < 0"
    with eq have "nat i = nat j" by (auto simp: str_int_def dest: digits)
    with \<open>\<not> i < 0\<close> \<open>\<not> j < 0\<close> show ?thesis by simp
  qed
qed simp

section \<open>Idempotency keys\<close>

text \<open>
  \<open>new_idempotency_key(*parts)\<close> of \<open>app/security.py\<close> is the SHA-256 hex digest of the
  parts joined by a bar. The digest \<open>H\<close> (\<open>hashlib\<close>) is a parameter of the model; a
  theorem that needs two keys to differ assumes that \<open>H\<close> has no collision, and the
  distinctness of the joined texts is proved. The call without parts (a random
  \<open>uuid4\<close>) is not used by the modelled code.
\<close>

fun join :: "string \<Rightarrow> string list \<Rightarrow> string" where
  "join sep [] = []"
| "join sep [x] = x"
| "join sep (x # y # ys) = x @ sep @ join sep (y # ys)"

type_synonym digest = "string \<Rightarrow> string"

definition new_idempotency_key :: "digest \<Rightarrow> string list \<Rightarrow> string" where
  "new_idempotency_key H parts = H (join ''|'' parts)"

definition no_bar :: "string \<Rightarrow> bool" where
  "no_bar s = (CHR ''|'' \<notin> set s)"

lemma append_bar_eq:
  "no_bar a \<Longrightarrow> no_bar b \<Longrightarrow> a @ CHR ''|'' # xs = b @ CHR ''|'' # ys \<longleftrightarrow> a = b \<and> xs = ys"
proof (induction a arbitrary: b)
  case Nil
  then show ?case by (cases b) (auto simp: no_bar_def)
next
  case (Cons c a)
  then show ?case by (cases b) (auto simp: no_bar_def)
qed

lemma join_Cons2 [simp]: "join ''|'' (x # y # ys) = x @ CHR ''|'' # join ''|'' (y # ys)"
  by simp

lemma no_bar_append_eq: "no_bar a \<Longrightarrow> a = b @ CHR ''|'' # ys \<longleftrightarrow> False"
  by (auto simp: no_bar_def)

lemma no_bar_str_int [simp]: "no_bar (str_int i)"
proof -
  have "CHR ''|'' \<notin> set (digits_nat n)" for n
    by (rule digits_nat_no_char) simp
  then show ?thesis by (auto simp: no_bar_def str_int_def)
qed

lemma new_key_inj:
  "inj H \<Longrightarrow> new_idempotency_key H ps = new_idempotency_key H qs \<longleftrightarrow> join ''|'' ps = join ''|'' qs"
  by (simp add: new_idempotency_key_def inj_eq)

text \<open>
  What the idempotency keys rely on: the digest has no collision and is never the empty text.
\<close>

definition good_digest :: "digest \<Rightarrow> bool" where
  "good_digest H \<longleftrightarrow> inj H \<and> [] \<notin> range H"

lemma good_digest_key [simp]: "good_digest H \<Longrightarrow> new_idempotency_key H ps \<noteq> []"
  unfolding good_digest_def new_idempotency_key_def by (metis rangeI)

lemma good_digest_inj:
  "good_digest H \<Longrightarrow> new_idempotency_key H ps = new_idempotency_key H qs \<longleftrightarrow> join ''|'' ps = join ''|'' qs"
  by (simp add: good_digest_def new_key_inj)

text \<open>A digest for the witnesses.\<close>

definition sample_digest :: digest where
  "sample_digest x = CHR ''#'' # x"

lemma good_sample_digest [simp]: "good_digest sample_digest"
  by (auto simp: good_digest_def sample_digest_def inj_def)

section \<open>Rows in a list, addressed by a key\<close>

definition upd_by :: "('r \<Rightarrow> 'k) \<Rightarrow> 'k \<Rightarrow> ('r \<Rightarrow> 'r) \<Rightarrow> 'r list \<Rightarrow> 'r list" where
  "upd_by key k f = map (\<lambda>r. if key r = k then f r else r)"

definition find_by :: "('r \<Rightarrow> 'k) \<Rightarrow> 'k \<Rightarrow> 'r list \<Rightarrow> 'r option" where
  "find_by key k rs = find (\<lambda>r. key r = k) rs"

lemma find_by_Some: "find_by key k rs = Some r \<Longrightarrow> r \<in> set rs \<and> key r = k"
  by (auto simp: find_by_def find_Some_iff)

lemma find_by_None: "find_by key k rs = None \<longleftrightarrow> k \<notin> key ` set rs"
  by (auto simp: find_by_def find_None_iff)

lemma find_by_simps [simp]:
  "find_by key k [] = None"
  "find_by key k (r # rs) = (if key r = k then Some r else find_by key k rs)"
  by (simp_all add: find_by_def)

lemma find_by_append:
  "find_by key k (rs @ ss) = (case find_by key k rs of None \<Rightarrow> find_by key k ss | Some r \<Rightarrow> Some r)"
  by (induction rs) auto

lemma upd_by_simps [simp]:
  "upd_by key k f [] = []"
  "upd_by key k f (r # rs) = (if key r = k then f r else r) # upd_by key k f rs"
  by (simp_all add: upd_by_def)

lemma map_key_upd_by [simp]: "(\<And>r. key' (f r) = key' r) \<Longrightarrow> map key' (upd_by key k f rs) = map key' rs"
  by (induction rs) auto

lemma find_by_upd_by:
  assumes "\<And>r. key (f r) = key r"
  shows "find_by key j (upd_by key k f rs)
    = (if j = k then map_option f (find_by key j rs) else find_by key j rs)"
  using assms by (induction rs) auto

lemma upd_by_idle: "k \<notin> key ` set rs \<Longrightarrow> upd_by key k f rs = rs"
  by (induction rs) auto

lemma set_upd_by: "x \<in> set (upd_by key k f rs) \<Longrightarrow> x \<in> set rs \<or> (\<exists>r \<in> set rs. key r = k \<and> x = f r)"
  by (auto simp: upd_by_def)

lemma find_by_in: "distinct (map key rs) \<Longrightarrow> r \<in> set rs \<Longrightarrow> find_by key (key r) rs = Some r"
  by (induction rs) (auto simp: image_iff)

text \<open>A sum over the rows moves by the change of the one row that was updated.\<close>

lemma sum_upd_by:
  fixes g :: "'r \<Rightarrow> int"
  assumes "distinct (map key rs)" and "find_by key k rs = Some r"
  shows "sum_list (map g (upd_by key k f rs)) = sum_list (map g rs) - g r + g (f r)"
  using assms
proof (induction rs)
  case Nil
  then show ?case by simp
next
  case (Cons x xs)
  show ?case
  proof (cases "key x = k")
    case True
    with Cons.prems have "k \<notin> key ` set xs" by auto
    with True Cons.prems show ?thesis by (simp add: upd_by_idle)
  next
    case False
    with Cons show ?thesis by simp
  qed
qed

lemma sum_list_filter_append:
  "sum_list (map g (filter P (xs @ [x]))) = sum_list (map g (filter P xs)) + (if P x then g x else (0::int))"
  by simp

lemma sum_list_nonneg_int: "(\<And>x. x \<in> set xs \<Longrightarrow> 0 \<le> g x) \<Longrightarrow> 0 \<le> sum_list (map g xs :: int list)"
  by (induction xs) auto

lemma sum_list_member_le:
  "(\<And>x. x \<in> set xs \<Longrightarrow> 0 \<le> g x) \<Longrightarrow> y \<in> set xs \<Longrightarrow> g y \<le> sum_list (map g xs :: int list)"
proof (induction xs)
  case (Cons x xs)
  then show ?case
    using sum_list_nonneg_int [of xs g] by fastforce
qed simp

end
