(* ===== verification/PyFloat.thy ===== *)
theory PyFloat
  imports Complex_Main "HOL-Library.Log_Nat" Prelude
begin

text \<open>
  Python's \<open>float\<close> as used by the price arithmetic. A finite double is the rational number
  it denotes; every arithmetic operation computes the exact rational result and rounds it
  with \<open>fl64\<close>, the IEEE 754 binary64 rounding (53 significant bits, nearest, ties to even,
  gradual underflow). Magnitudes of \<open>2 ^ 1024\<close> and more (where a double becomes infinite)
  and the non-finite values are outside the model.

  What the price theories need of a rounding is the locale \<open>rounding\<close>; \<open>fl64\<close> interprets it.
\<close>

section \<open>Rounding to an integer, ties to even\<close>

definition round_half_even :: "rat \<Rightarrow> int" where
  "round_half_even x =
     (let f = \<lfloor>x\<rfloor>; d = x - of_int f
      in if d < 1 / 2 then f else if 1 / 2 < d then f + 1 else if even f then f else f + 1)"

lemma round_half_even_range: "\<lfloor>x\<rfloor> \<le> round_half_even x \<and> round_half_even x \<le> \<lfloor>x\<rfloor> + 1"
  by (simp add: round_half_even_def Let_def)

lemma round_half_even_of_int [simp]: "round_half_even (of_int n) = n"
  by (simp add: round_half_even_def)

lemma round_half_even_err: "\<bar>of_int (round_half_even x) - x\<bar> \<le> 1 / 2"
proof -
  have "of_int \<lfloor>x\<rfloor> \<le> x" and "x < of_int \<lfloor>x\<rfloor> + 1"
    by linarith+
  then show ?thesis
    by (auto simp: round_half_even_def Let_def abs_le_iff)
qed

lemma round_half_even_mono: "x \<le> y \<Longrightarrow> round_half_even x \<le> round_half_even y"
proof (cases "\<lfloor>x\<rfloor> = \<lfloor>y\<rfloor>")
  case True
  assume "x \<le> y"
  with True show ?thesis by (auto simp: round_half_even_def Let_def)
next
  case False
  assume "x \<le> y"
  with False have "\<lfloor>x\<rfloor> + 1 \<le> \<lfloor>y\<rfloor>" using floor_mono [of x y] by linarith
  then show ?thesis using round_half_even_range [of x] round_half_even_range [of y] by linarith
qed

lemma round_half_even_le_int: "x \<le> of_int n \<Longrightarrow> round_half_even x \<le> n"
  using round_half_even_mono [of x "of_int n"] by simp

lemma int_le_round_half_even: "of_int n \<le> x \<Longrightarrow> n \<le> round_half_even x"
  using round_half_even_mono [of "of_int n" x] by simp

lemma round_half_even_minus: "round_half_even (- x) = - round_half_even x"
proof (cases "x = of_int \<lfloor>x\<rfloor>")
  case True
  then show ?thesis
    by (metis of_int_minus round_half_even_of_int)
next
  case False
  let ?f = "\<lfloor>x\<rfloor>"
  have lo: "of_int ?f < x" and hi: "x < of_int ?f + 1"
    using False by linarith+
  have fm: "\<lfloor>- x\<rfloor> = - ?f - 1"
    using lo hi by (intro floor_unique) auto
  show ?thesis
    using lo hi by (auto simp: round_half_even_def Let_def field_simps fm)
qed

section \<open>Binary exponent\<close>

definition flog2 :: "rat \<Rightarrow> int" where
  "flog2 x =
     (let (p, q) = quotient_of x; e = bitlen p - bitlen q
      in if 2 powi e \<le> x then e else e - 1)"

lemma flog2_bounds:
  assumes "0 < x"
  shows "2 powi flog2 x \<le> x \<and> x < 2 powi (flog2 x + 1)"
proof -
  obtain p q where pq: "quotient_of x = (p, q)" by fastforce
  then have q: "0 < q" and x: "x = of_int p / of_int q"
    using quotient_of_denom_pos quotient_of_div by blast+
  with assms have p: "0 < p" by (simp add: zero_less_divide_iff)
  let ?e = "bitlen p - bitlen q"
  have bits: "2 powi (bitlen n - 1) \<le> (of_int n :: rat) \<and> of_int n < (2 powi bitlen n :: rat)"
    if "0 < n" for n
  proof -
    have b: "0 < bitlen n" using that bitlen_nonneg [of n] bitlen_eq_zero_iff [of n] by auto
    have "2 ^ nat (bitlen n - 1) \<le> n \<and> n < 2 ^ nat (bitlen n)"
      using bitlen_bounds [OF that] .
    then have "(of_int (2 ^ nat (bitlen n - 1)) :: rat) \<le> of_int n \<and>
        (of_int n :: rat) < of_int (2 ^ nat (bitlen n))"
      by (simp only: of_int_le_iff of_int_less_iff)
    with b show ?thesis by (simp add: power_int_def)
  qed
  have bp: "2 powi (bitlen p - 1) \<le> (of_int p :: rat)" "(of_int p :: rat) < 2 powi bitlen p"
    using bits [OF p] by auto
  have bq: "2 powi (bitlen q - 1) \<le> (of_int q :: rat)" "(of_int q :: rat) < 2 powi bitlen q"
    using bits [OF q] by auto
  have up: "x < 2 powi (?e + 1)"
  proof -
    have "x \<le> of_int p / 2 powi (bitlen q - 1)"
      unfolding x using p q bq(1) by (intro divide_left_mono) auto
    also have "\<dots> < 2 powi bitlen p / 2 powi (bitlen q - 1)"
      using bp(2) by (intro divide_strict_right_mono) auto
    also have "\<dots> = 2 powi (?e + 1)"
      by (simp flip: power_int_diff add: algebra_simps)
    finally show ?thesis .
  qed
  have low: "2 powi (?e - 1) \<le> x"
  proof -
    have "2 powi (?e - 1) = (2 powi (bitlen p - 1) / 2 powi bitlen q :: rat)"
      by (simp flip: power_int_diff add: algebra_simps)
    also have "\<dots> \<le> of_int p / 2 powi bitlen q"
      using bp(1) by (intro divide_right_mono) auto
    also have "\<dots> \<le> x"
      unfolding x using p q bq(2) by (intro divide_left_mono) auto
    finally show ?thesis .
  qed
  show ?thesis
    using up low by (auto simp: flog2_def pq Let_def)
qed

lemma powi2_mono: "a \<le> b \<Longrightarrow> (2::rat) powi a \<le> 2 powi b"
  by (rule power_int_increasing) auto

lemma powi2_less_D: "(2::rat) powi a < 2 powi b \<Longrightarrow> a < b"
  using powi2_mono [of b a] by linarith

lemma flog2_mono:
  assumes "0 < x" and "x \<le> y"
  shows "flog2 x \<le> flog2 y"
proof -
  have "2 powi flog2 x < (2::rat) powi (flog2 y + 1)"
    using flog2_bounds [of x] flog2_bounds [of y] assms by linarith
  then show ?thesis using powi2_less_D by fastforce
qed

section \<open>Binary64\<close>

text \<open>The exponent of the unit in the last place, and the rounding.\<close>

definition ulp_exp :: "rat \<Rightarrow> int" where
  "ulp_exp x = max (flog2 x - 52) (- 1074)"

definition fl64 :: "rat \<Rightarrow> rat" where
  "fl64 x =
     (if x = 0 then 0
      else let u = 2 powi ulp_exp \<bar>x\<bar> in of_int (round_half_even (x / u)) * u)"

lemma fl64_zero [simp]: "fl64 0 = 0"
  by (simp add: fl64_def)

lemma fl64_minus: "fl64 (- x) = - fl64 x"
  by (simp add: fl64_def Let_def round_half_even_minus)

lemma fl64_nonneg: "0 \<le> x \<Longrightarrow> 0 \<le> fl64 x"
  using int_le_round_half_even [of 0]
  by (auto simp: fl64_def Let_def intro!: mult_nonneg_nonneg)

lemma round_scaled_le:
  assumes "x \<le> 2 powi b" and "e \<le> b"
  shows "of_int (round_half_even (x / 2 powi e)) * 2 powi e \<le> (2 powi b :: rat)"
proof -
  have eq: "(2::rat) powi b = of_int (2 ^ nat (b - e)) * 2 powi e"
    using assms(2) by (simp flip: power_int_of_nat power_int_add)
  have "x / 2 powi e \<le> of_int (2 ^ nat (b - e))"
    using assms(1) by (simp add: eq divide_le_eq)
  then have "of_int (round_half_even (x / 2 powi e)) \<le> (of_int (2 ^ nat (b - e)) :: rat)"
    by (simp only: of_int_le_iff round_half_even_le_int)
  then show ?thesis unfolding eq by (intro mult_right_mono) auto
qed

lemma le_round_scaled:
  assumes "2 powi b \<le> x" and "e \<le> b"
  shows "(2 powi b :: rat) \<le> of_int (round_half_even (x / 2 powi e)) * 2 powi e"
proof -
  have eq: "(2::rat) powi b = of_int (2 ^ nat (b - e)) * 2 powi e"
    using assms(2) by (simp flip: power_int_of_nat power_int_add)
  have "of_int (2 ^ nat (b - e)) \<le> x / 2 powi e"
    using assms(1) by (simp add: eq le_divide_eq)
  then have "(of_int (2 ^ nat (b - e)) :: rat) \<le> of_int (round_half_even (x / 2 powi e))"
    by (simp only: of_int_le_iff int_le_round_half_even)
  then show ?thesis unfolding eq by (intro mult_right_mono) auto
qed

lemma fl64_mono_pos:
  assumes "0 < x" and "x \<le> y"
  shows "fl64 x \<le> fl64 y"
proof -
  let ?a = "flog2 x" and ?b = "flog2 y"
  have y: "0 < y" using assms by linarith
  have ab: "?a \<le> ?b" using flog2_mono [OF assms] .
  have fx: "fl64 x = of_int (round_half_even (x / 2 powi ulp_exp x)) * 2 powi ulp_exp x"
    and fy: "fl64 y = of_int (round_half_even (y / 2 powi ulp_exp y)) * 2 powi ulp_exp y"
    using assms y by (simp_all add: fl64_def Let_def)
  show ?thesis
  proof (cases "ulp_exp x = ulp_exp y")
    case True
    have "x / 2 powi ulp_exp y \<le> y / 2 powi ulp_exp y"
      using assms by (intro divide_right_mono) auto
    then show ?thesis
      unfolding fx fy True by (intro mult_right_mono) (auto intro: round_half_even_mono)
  next
    case False
    with ab have uy: "ulp_exp y = ?b - 52" and ux: "ulp_exp x \<le> ?b" and lt: "?a + 1 \<le> ?b"
      by (auto simp: ulp_exp_def)
    have "x \<le> 2 powi ?b"
      using flog2_bounds [OF assms(1)] powi2_mono [OF lt] by linarith
    then have "fl64 x \<le> 2 powi ?b"
      unfolding fx using ux by (rule round_scaled_le)
    also have "\<dots> \<le> fl64 y"
      unfolding fy using flog2_bounds [OF y] uy by (intro le_round_scaled) auto
    finally show ?thesis .
  qed
qed

lemma fl64_mono: "x \<le> y \<Longrightarrow> fl64 x \<le> fl64 y"
proof -
  assume le: "x \<le> y"
  consider "0 < x" | "y < 0" | "x \<le> 0" "0 \<le> y" by linarith
  then show ?thesis
  proof cases
    case 1
    then show ?thesis using le by (rule fl64_mono_pos)
  next
    case 2
    then have "fl64 (- y) \<le> fl64 (- x)" using le by (intro fl64_mono_pos) auto
    then show ?thesis by (simp add: fl64_minus)
  next
    case 3
    then have "0 \<le> fl64 (- x)" and "0 \<le> fl64 y" by (auto intro: fl64_nonneg)
    then show ?thesis by (simp add: fl64_minus)
  qed
qed

text \<open>Integers of fewer than 53 bits are doubles.\<close>

lemma fl64_int:
  assumes "\<bar>n\<bar> < 2 ^ 53"
  shows "fl64 (of_int n) = of_int n"
proof (cases "n = 0")
  case False
  let ?x = "of_int n :: rat"
  have pos: "0 < \<bar>?x\<bar>" using False by simp
  have "2 powi flog2 \<bar>?x\<bar> \<le> \<bar>?x\<bar>" using flog2_bounds [OF pos] by simp
  also have "\<dots> = of_int \<bar>n\<bar>" by simp
  also have "\<dots> < (of_int (2 ^ 53) :: rat)" using assms by (simp only: of_int_less_iff)
  also have "\<dots> = 2 powi 53" by simp
  finally have "flog2 \<bar>?x\<bar> < 53" by (rule powi2_less_D)
  then have e: "ulp_exp \<bar>?x\<bar> \<le> 0" by (simp add: ulp_exp_def)
  have "?x / 2 powi ulp_exp \<bar>?x\<bar> = of_int (n * 2 ^ nat (- ulp_exp \<bar>?x\<bar>))"
    using e by (cases "ulp_exp \<bar>?x\<bar> = 0") (auto simp: power_int_def field_simps)
  then have "round_half_even (?x / 2 powi ulp_exp \<bar>?x\<bar>) = n * 2 ^ nat (- ulp_exp \<bar>?x\<bar>)"
    by (metis round_half_even_of_int)
  then show ?thesis
    using False e by (cases "ulp_exp \<bar>?x\<bar> = 0")
      (auto simp: fl64_def Let_def power_int_def simp flip: power_mult_distrib)
qed simp

text \<open>Half of the smallest subnormal: the error of a result that underflows.\<close>

definition tiny :: rat where "tiny = 2 powi (- 1075)"

lemma tiny_pos: "0 < tiny"
  unfolding tiny_def by (rule zero_less_power_int) simp

lemma tiny_le: "tiny \<le> 1 / 2 ^ 100"
proof -
  have "tiny \<le> 2 powi (- 100)" unfolding tiny_def by (rule powi2_mono) simp
  also have "(2::rat) powi (- 100) = 1 / 2 ^ 100" by (simp add: power_int_def field_simps)
  finally show ?thesis .
qed

lemma fl64_err: "\<bar>fl64 x - x\<bar> \<le> max (\<bar>x\<bar> / 2 ^ 53) tiny"
proof (cases "x = 0")
  case True
  then show ?thesis using tiny_pos by simp
next
  case False
  then have pos: "0 < \<bar>x\<bar>" by simp
  let ?u = "(2::rat) powi ulp_exp \<bar>x\<bar>"
  have u: "0 < ?u" by (rule zero_less_power_int) simp
  have "fl64 x - x = (of_int (round_half_even (x / ?u)) - x / ?u) * ?u"
    using pos u by (auto simp: fl64_def Let_def algebra_simps)
  then have "\<bar>fl64 x - x\<bar> = \<bar>of_int (round_half_even (x / ?u)) - x / ?u\<bar> * ?u"
    using u by (simp add: abs_mult)
  also have "\<dots> \<le> 1 / 2 * ?u"
    using u by (intro mult_right_mono round_half_even_err) auto
  finally have err: "\<bar>fl64 x - x\<bar> \<le> ?u / 2" by simp
  show ?thesis
  proof (cases "- 1074 \<le> flog2 \<bar>x\<bar> - 52")
    case True
    then have "ulp_exp \<bar>x\<bar> = flog2 \<bar>x\<bar> - 52" by (simp add: ulp_exp_def)
    then have "?u / 2 = 2 powi flog2 \<bar>x\<bar> / 2 ^ 53" by (simp add: power_int_diff)
    also have "\<dots> \<le> \<bar>x\<bar> / 2 ^ 53"
      using flog2_bounds [OF pos] by (intro divide_right_mono) auto
    finally show ?thesis using err by linarith
  next
    case False
    then have "ulp_exp \<bar>x\<bar> = - 1075 + 1" by (simp add: ulp_exp_def)
    then have "?u = tiny * 2" unfolding tiny_def by (simp only: power_int_add) simp
    then have "?u / 2 = tiny" by simp
    with err show ?thesis by simp
  qed
qed

section \<open>The contract of a rounding\<close>

text \<open>
  The price arithmetic relies on three laws only: rounding is monotone, exact on integers of
  fewer than 53 bits, and has a relative error of at most \<open>2 ^ -53\<close> unless it underflows.
  From them follows that a division of such an integer, rounded and then taken to the next
  integer above (\<open>math.ceil\<close>) or below (\<open>int\<close> of a non-negative value), is exact.
\<close>

locale rounding =
  fixes fl :: "rat \<Rightarrow> rat"
  assumes fl_mono: "x \<le> y \<Longrightarrow> fl x \<le> fl y"
    and fl_int: "\<bar>n\<bar> < 2 ^ 53 \<Longrightarrow> fl (of_int n) = of_int n"
    and fl_err: "\<bar>fl x - x\<bar> \<le> max (\<bar>x\<bar> / 2 ^ 53) tiny"
begin

lemma fl_zero: "fl 0 = 0"
  using fl_int [of 0] by simp

lemma fl_nonneg: "0 \<le> x \<Longrightarrow> 0 \<le> fl x"
  using fl_mono [of 0 x] by (simp add: fl_zero)

lemma fl_ge_int: "\<bar>n\<bar> < 2 ^ 53 \<Longrightarrow> of_int n \<le> x \<Longrightarrow> of_int n \<le> fl x"
  using fl_mono [of "of_int n" x] by (simp add: fl_int)

lemma fl_le_int: "\<bar>n\<bar> < 2 ^ 53 \<Longrightarrow> x \<le> of_int n \<Longrightarrow> fl x \<le> of_int n"
  using fl_mono [of x "of_int n"] by (simp add: fl_int)

lemma ceiling_mono_fl: "x \<le> y \<Longrightarrow> \<lceil>fl x\<rceil> \<le> \<lceil>fl y\<rceil>"
  by (intro ceiling_mono fl_mono)

lemma quotient_err:
  assumes "0 \<le> n" and "n < 2 ^ 53" and "0 < d" and "d < 2 ^ 53"
  shows "\<bar>fl (of_int n / of_int d) - of_int n / of_int d\<bar> < 1 / of_int d"
proof (cases "n = 0")
  case True
  with assms show ?thesis by (simp add: fl_zero)
next
  case False
  let ?x = "of_int n / of_int d :: rat"
  have "tiny < 1 / 2 ^ 53" using tiny_le by simp
  also have "\<dots> \<le> 1 / of_int d"
    using assms by (intro divide_left_mono) (auto simp: of_int_le_numeral_power_cancel_iff)
  finally have t: "tiny < 1 / of_int d" .
  have "\<bar>?x\<bar> / 2 ^ 53 = of_int n / 2 ^ 53 / of_int d" using assms by simp
  also have "\<dots> < 1 / of_int d"
    using assms by (intro divide_strict_right_mono) (auto simp: of_int_less_numeral_power_cancel_iff)
  finally have "\<bar>?x\<bar> / 2 ^ 53 < 1 / of_int d" .
  with t show ?thesis using fl_err [of ?x] by linarith
qed

lemma ceiling_quotient:
  assumes "0 \<le> n" and "n < 2 ^ 53" and "0 < d" and "d < 2 ^ 53"
  shows "\<lceil>fl (of_int n / of_int d)\<rceil> = - ((- n) div d)"
proof -
  let ?x = "of_int n / of_int d :: rat" and ?k = "- ((- n) div d)"
  have kd: "n \<le> ?k * d" and kd': "(?k - 1) * d + 1 \<le> n"
  proof -
    have a: "d * ((- n) div d) = - n - (- n) mod d"
      using mult_div_mod_eq [of d "- n"] by linarith
    have "?k * d = - (d * ((- n) div d))" by simp
    then show "n \<le> ?k * d" and "(?k - 1) * d + 1 \<le> n"
      unfolding a left_diff_distrib
      using pos_mod_bound [OF assms(3), of "- n"] pos_mod_sign [OF assms(3), of "- n"] by linarith+
  qed
  have k: "0 \<le> ?k" "?k \<le> n"
  proof -
    show "0 \<le> ?k" using assms by (simp add: div_nonpos_pos_le0)
    show "?k \<le> n"
    proof (rule ccontr)
      assume "\<not> ?k \<le> n"
      then have "n \<le> ?k - 1" by simp
      then have "n * 1 \<le> (?k - 1) * d" using assms by (intro mult_mono) auto
      with kd' show False by simp
    qed
  qed
  have "?x \<le> of_int ?k"
    using kd assms(3) by (simp add: divide_le_eq flip: of_int_mult)
  then have up: "fl ?x \<le> of_int ?k" using k assms by (intro fl_le_int) auto
  have "(of_int ((?k - 1) * d + 1) :: rat) \<le> of_int n" using kd' by (simp only: of_int_le_iff)
  then have "(of_int ((?k - 1) * d + 1) :: rat) / of_int d \<le> ?x"
    using assms(3) by (intro divide_right_mono) auto
  then have "of_int (?k - 1) + 1 / of_int d \<le> ?x"
    using assms(3) by (simp add: add_divide_distrib del: of_int_diff of_int_minus)
  then have "of_int (?k - 1) < fl ?x" using quotient_err [OF assms] by linarith
  with up show ?thesis by (intro ceiling_unique) auto
qed

lemma floor_quotient:
  assumes "0 \<le> n" and "n < 2 ^ 53" and "0 < d" and "d < 2 ^ 53"
  shows "\<lfloor>fl (of_int n / of_int d)\<rfloor> = n div d"
proof -
  let ?x = "of_int n / of_int d :: rat" and ?k = "n div d"
  have kd: "?k * d \<le> n" and kd': "n + 1 \<le> (?k + 1) * d"
  proof -
    have a: "d * (n div d) = n - n mod d"
      using mult_div_mod_eq [of d n] by linarith
    have "?k * d = d * (n div d)" by simp
    then show "?k * d \<le> n" and "n + 1 \<le> (?k + 1) * d"
      unfolding a distrib_right
      using pos_mod_bound [OF assms(3), of n] pos_mod_sign [OF assms(3), of n] by linarith+
  qed
  have k: "0 \<le> ?k" using assms by (simp add: pos_imp_zdiv_nonneg_iff)
  moreover from k have "?k * 1 \<le> ?k * d" using assms by (intro mult_left_mono) auto
  ultimately have k: "0 \<le> ?k" "?k \<le> n" using kd by auto
  have "of_int ?k \<le> ?x"
    using kd assms(3) by (simp add: le_divide_eq flip: of_int_mult)
  then have lo: "of_int ?k \<le> fl ?x" using k assms by (intro fl_ge_int) auto
  have "(of_int (n + 1) :: rat) \<le> of_int ((?k + 1) * d)" using kd' by (simp only: of_int_le_iff)
  then have "?x + 1 / of_int d \<le> of_int (?k + 1)"
    using assms(3) by (simp add: field_simps)
  then have "fl ?x < of_int ?k + 1" using quotient_err [OF assms] by (auto simp: abs_less_iff)
  with lo show ?thesis by (intro floor_unique) auto
qed

end

interpretation double: rounding fl64
  by unfold_locales (erule fl64_mono fl64_int | rule fl64_err)+

section \<open>Operations on doubles\<close>

text \<open>
  \<open>f_of_int\<close> is the conversion that Python applies to an integer operand of a mixed
  operation. \<open>py_ceil\<close> is \<open>math.ceil\<close>, \<open>py_trunc\<close> is \<open>int(x)\<close>,
  \<open>py_round\<close> is \<open>round(x)\<close>.
\<close>

definition f_of_int :: "int \<Rightarrow> rat" where "f_of_int n = fl64 (of_int n)"
definition f_add :: "rat \<Rightarrow> rat \<Rightarrow> rat" where "f_add x y = fl64 (x + y)"
definition f_mul :: "rat \<Rightarrow> rat \<Rightarrow> rat" where "f_mul x y = fl64 (x * y)"
definition f_div :: "rat \<Rightarrow> rat \<Rightarrow> rat" where "f_div x y = fl64 (x / y)"
definition py_ceil :: "rat \<Rightarrow> int" where "py_ceil x = \<lceil>x\<rceil>"
definition py_floor :: "rat \<Rightarrow> int" where "py_floor x = \<lfloor>x\<rfloor>"
definition py_trunc :: "rat \<Rightarrow> int" where "py_trunc x = (if x < 0 then - \<lfloor>- x\<rfloor> else \<lfloor>x\<rfloor>)"
definition py_round :: "rat \<Rightarrow> int" where "py_round x = round_half_even x"

lemmas float_ops = f_of_int_def f_add_def f_mul_def f_div_def py_ceil_def py_floor_def
  py_trunc_def py_round_def

end
