(* ===== verification/PriceMath.thy ===== *)
theory PriceMath
  imports PyFloat
begin

text \<open>
  \<open>app/pricemath.py\<close> and the pure arithmetic of \<open>app/pricing.py\<close>: the margin floor,
  scaling of a rate per thousand to a quantity, the cap on a coupon discount, markups and the
  reseller rate. Amounts are integers of paise; percentages are doubles. The lemmas show
  monotonicity, exactness of the scaling against integer division, how close the margin floor
  is to the exact one, and that the discount cap is the largest admissible discount.
\<close>

section \<open>pricemath.py\<close>

definition margin_floor_per_1000 :: "int \<Rightarrow> rat \<Rightarrow> int" where
  "margin_floor_per_1000 cost_per_1000 min_margin_percent =
     (let lo =
        py_ceil (f_mul (f_of_int cost_per_1000) (f_add 1 (f_div (max min_margin_percent 0) 100)))
      in max lo cost_per_1000)"

definition scale_to_qty :: "int \<Rightarrow> int \<Rightarrow> int" where
  "scale_to_qty per_1000_paise quantity =
     (if quantity \<le> 0 then 0
      else py_ceil (f_div (f_of_int (per_1000_paise * quantity)) 1000))"

definition cap_discount_to_floor :: "int \<Rightarrow> int \<Rightarrow> int \<Rightarrow> int" where
  "cap_discount_to_floor subtotal_paise discount_paise floor_paise =
     (if discount_paise \<le> 0 \<or> subtotal_paise \<le> 0 then 0
      else let headroom = subtotal_paise - max floor_paise 0
           in if headroom \<le> 0 then 0 else min (min discount_paise headroom) subtotal_paise)"

section \<open>The arithmetic of pricing.py\<close>

definition DEFAULT_RESELLER_DISCOUNT_BP :: int where "DEFAULT_RESELLER_DISCOUNT_BP = 1200"
definition RESELLER_MIN_MARGIN_PERCENT :: rat where "RESELLER_MIN_MARGIN_PERCENT = 10"

definition apply_markup :: "int \<Rightarrow> rat option \<Rightarrow> int option \<Rightarrow> int" where
  "apply_markup cost_per_1000 percent fixed =
     (let pct = (case percent of None \<Rightarrow> 0 | Some p \<Rightarrow> p);
          fix_paise = (case fixed of None \<Rightarrow> 0 | Some f \<Rightarrow> f)
      in py_ceil (f_add (f_mul (f_of_int cost_per_1000) (f_add 1 (f_div pct 100)))
           (f_of_int fix_paise)))"

definition enforce_min_margin :: "int \<Rightarrow> int \<Rightarrow> rat \<Rightarrow> int" where
  "enforce_min_margin cost_per_1000 sell_per_1000 min_margin_percent =
     max sell_per_1000 (margin_floor_per_1000 cost_per_1000 min_margin_percent)"

text \<open>\<open>discount_bp or DEFAULT\<close>: a stored discount of zero is falsy and takes the default.\<close>

definition apply_reseller_rate :: "int \<Rightarrow> int \<Rightarrow> int \<Rightarrow> int" where
  "apply_reseller_rate cost_per_1000 retail_per_1000 discount_bp =
     (let bp = (if discount_bp = 0 then DEFAULT_RESELLER_DISCOUNT_BP else discount_bp);
          bp = max 0 (min bp 9000);
          discounted = py_ceil (f_div (f_of_int (retail_per_1000 * (10000 - bp))) 10000)
      in enforce_min_margin cost_per_1000 discounted RESELLER_MIN_MARGIN_PERCENT)"

text \<open>\<open>rupees_to_paise\<close>: \<open>int(round(amount * 100))\<close>.\<close>

definition rupees_to_paise :: "rat \<Rightarrow> int" where
  "rupees_to_paise amount = py_round (f_mul amount 100)"

text \<open>
  \<open>_commission_paise\<close> of \<open>app/referrals.py\<close>, where the percentage is a positive constant.
\<close>

definition commission_paise :: "int \<Rightarrow> rat \<Rightarrow> int" where
  "commission_paise amount percent =
     (if amount \<le> 0 \<or> percent \<le> 0 then 0
      else py_trunc (f_div (f_mul (f_of_int amount) percent) 100))"

section \<open>Scaling to a quantity\<close>

lemma scale_to_qty_mono:
  assumes "a \<le> b"
  shows "scale_to_qty a q \<le> scale_to_qty b q"
proof (cases "q \<le> 0")
  case True
  then show ?thesis by (simp add: scale_to_qty_def)
next
  case False
  then have "a * q \<le> b * q" using assms by (intro mult_right_mono) auto
  then have "fl64 (of_int (a * q)) / 1000 \<le> fl64 (of_int (b * q)) / 1000"
    by (intro divide_right_mono double.fl_mono) (auto simp del: of_int_mult)
  then show ?thesis
    using False by (simp add: scale_to_qty_def float_ops double.ceiling_mono_fl del: of_int_mult)
qed

lemma scale_to_qty_zero [simp]: "scale_to_qty 0 q = 0"
  by (simp add: scale_to_qty_def float_ops)

lemma scale_to_qty_nonneg: "0 \<le> a \<Longrightarrow> 0 \<le> scale_to_qty a q"
  using scale_to_qty_mono [of 0 a q] by simp

text \<open>The reference: exact division by a thousand, rounded up.\<close>

definition scale_exact :: "int \<Rightarrow> int \<Rightarrow> int" where
  "scale_exact per_1000 q = (per_1000 * q + 999) div 1000"

lemma ceil_div_1000: "- ((- n) div 1000) = (n + 999) div (1000::int)"
proof -
  have "- n = 1000 * ((- n) div 1000) + (- n) mod 1000" by simp
  moreover have "0 \<le> (- n) mod 1000" and "(- n) mod 1000 < 1000" by simp_all
  ultimately show ?thesis
    by (intro int_div_pos_eq [symmetric, where r = "999 - (- n) mod 1000"]) linarith+
qed

lemma scale_to_qty_eq_exact:
  assumes "0 \<le> a" and "0 < q" and "a * q < 2 ^ 53"
  shows "scale_to_qty a q = scale_exact a q"
proof -
  have n: "0 \<le> a * q" using assms by simp
  have "scale_to_qty a q = \<lceil>fl64 (of_int (a * q) / of_int 1000)\<rceil>"
    using assms n double.fl_int [of "a * q"] by (simp add: scale_to_qty_def float_ops)
  also have "\<dots> = - ((- (a * q)) div 1000)"
    using n assms by (intro double.ceiling_quotient) auto
  finally show ?thesis by (simp only: scale_exact_def ceil_div_1000)
qed

section \<open>The margin floor\<close>

lemma margin_floor_ge_cost: "cost \<le> margin_floor_per_1000 cost m"
  by (simp add: margin_floor_per_1000_def Let_def)

lemma margin_floor_mono_margin:
  assumes "0 \<le> cost" and "m \<le> m'"
  shows "margin_floor_per_1000 cost m \<le> margin_floor_per_1000 cost m'"
proof -
  have "fl64 (max m 0 / 100) \<le> fl64 (max m' 0 / 100)"
    using assms by (intro double.fl_mono divide_right_mono) auto
  then have "fl64 (1 + fl64 (max m 0 / 100)) \<le> fl64 (1 + fl64 (max m' 0 / 100))"
    by (intro double.fl_mono) simp
  then have "fl64 (of_int cost) * fl64 (1 + fl64 (max m 0 / 100))
      \<le> fl64 (of_int cost) * fl64 (1 + fl64 (max m' 0 / 100))"
    using assms double.fl_nonneg [of "of_int cost"] by (simp add: mult_left_mono)
  then have "\<lceil>fl64 (fl64 (of_int cost) * fl64 (1 + fl64 (max m 0 / 100)))\<rceil>
      \<le> \<lceil>fl64 (fl64 (of_int cost) * fl64 (1 + fl64 (max m' 0 / 100)))\<rceil>"
    by (rule double.ceiling_mono_fl)
  then show ?thesis
    unfolding margin_floor_per_1000_def Let_def float_ops by linarith
qed

lemma enforce_min_margin_ge: "margin_floor_per_1000 cost m \<le> enforce_min_margin cost sell m"
  by (simp add: enforce_min_margin_def)

lemma enforce_min_margin_ge_cost: "cost \<le> enforce_min_margin cost sell m"
  using margin_floor_ge_cost [of cost m] by (simp add: enforce_min_margin_def)

lemma enforce_min_margin_ge_sell: "sell \<le> enforce_min_margin cost sell m"
  by (simp add: enforce_min_margin_def)

lemma apply_reseller_rate_ge_floor:
  "margin_floor_per_1000 cost RESELLER_MIN_MARGIN_PERCENT \<le> apply_reseller_rate cost retail bp"
  by (simp add: apply_reseller_rate_def Let_def enforce_min_margin_ge)

lemma apply_reseller_rate_ge_cost: "cost \<le> apply_reseller_rate cost retail bp"
  using apply_reseller_rate_ge_floor margin_floor_ge_cost order_trans by blast

text \<open>
  The float error of the margin computation: with a cost below \<open>2 ^ 40\<close> paise and a margin of
  at most a thousand percent, the three roundings together move the floor by less than a
  hundredth of a paisa before it is rounded up.
\<close>

lemma fl64_near:
  assumes "\<bar>x\<bar> \<le> b" and "1 \<le> b"
  shows "\<bar>fl64 x - x\<bar> \<le> b / 2 ^ 53"
proof -
  have "tiny \<le> 1 / 2 ^ 53" using tiny_le by simp
  also have "\<dots> \<le> b / 2 ^ 53" using assms by (intro divide_right_mono) auto
  finally have "tiny \<le> b / 2 ^ 53" .
  moreover have "\<bar>x\<bar> / 2 ^ 53 \<le> b / 2 ^ 53" using assms by (intro divide_right_mono) auto
  ultimately show ?thesis using double.fl_err [of x] by linarith
qed

lemma margin_factor_near:
  assumes "0 \<le> m" and "m \<le> 1000"
  shows "\<bar>fl64 (1 + fl64 (m / 100)) - (1 + m / 100)\<bar> \<le> 22 / 2 ^ 53"
proof -
  have a: "\<bar>fl64 (m / 100) - m / 100\<bar> \<le> 10 / 2 ^ 53"
    using assms by (intro fl64_near) auto
  have "\<bar>fl64 (1 + fl64 (m / 100)) - (1 + fl64 (m / 100))\<bar> \<le> 12 / 2 ^ 53"
  proof (rule fl64_near)
    have "0 \<le> m / 100" and "m / 100 \<le> 10" and "(10::rat) / 2 ^ 53 \<le> 1" using assms by auto
    with a show "\<bar>1 + fl64 (m / 100)\<bar> \<le> 12" by linarith
  qed simp
  moreover have "(12::rat) / 2 ^ 53 + 10 / 2 ^ 53 = 22 / 2 ^ 53" by simp
  ultimately show ?thesis using a by linarith
qed

lemma near_bound:
  fixes p q e b c :: rat
  assumes "\<bar>p - q\<bar> \<le> e" and "0 \<le> q" and "q \<le> b" and "b + e \<le> c"
  shows "\<bar>p\<bar> \<le> c"
  using assms by linarith

lemma near_trans:
  fixes p q r e d c :: rat
  assumes "\<bar>p - q\<bar> \<le> e" and "\<bar>q - r\<bar> \<le> d" and "e + d \<le> c"
  shows "\<bar>p - r\<bar> \<le> c"
  using assms by linarith

lemma margin_product_near:
  assumes "0 \<le> cost" and "cost \<le> 2 ^ 40" and "0 \<le> m" and "m \<le> 1000"
  shows "\<bar>f_mul (f_of_int cost) (f_add 1 (f_div m 100)) - of_int cost * (1 + m / 100)\<bar> \<le> 1 / 100"
proof -
  let ?c = "of_int cost :: rat" and ?g = "fl64 (1 + fl64 (m / 100))" and ?f = "1 + m / 100"
  have c: "0 \<le> ?c" "?c \<le> 2 ^ 40"
    using assms by (auto simp: of_int_le_numeral_power_cancel_iff)
  have fc: "fl64 ?c = ?c" using assms by (intro double.fl_int) auto
  have g: "\<bar>?g - ?f\<bar> \<le> 22 / 2 ^ 53" using assms margin_factor_near by simp
  have "\<bar>?c * ?g - ?c * ?f\<bar> = ?c * \<bar>?g - ?f\<bar>"
    using c by (simp add: abs_mult flip: right_diff_distrib)
  also have "\<dots> \<le> 2 ^ 40 * (22 / 2 ^ 53)" using g c by (intro mult_mono) auto
  finally have a: "\<bar>?c * ?g - ?c * ?f\<bar> \<le> 22 / 2 ^ 13" by simp
  have "?c * ?f \<le> 2 ^ 40 * 11" using c assms by (intro mult_mono) auto
  moreover have "0 \<le> ?c * ?f" using c assms by simp
  ultimately have "\<bar>?c * ?g\<bar> \<le> 12 * 2 ^ 40" using near_bound [OF a] by simp
  then have "\<bar>fl64 (?c * ?g) - ?c * ?g\<bar> \<le> (12 * 2 ^ 40) / 2 ^ 53"
    by (rule fl64_near) simp
  then have "\<bar>fl64 (?c * ?g) - ?c * ?f\<bar> \<le> 1 / 100" using a by (rule near_trans) simp
  then show ?thesis by (simp only: float_ops fc)
qed

lemma margin_floor_near:
  assumes "0 \<le> cost" and "cost \<le> 2 ^ 40" and "0 \<le> m" and "m \<le> 1000"
  shows "of_int cost * (1 + m / 100) - 1 / 100 \<le> of_int (margin_floor_per_1000 cost m)"
    and "of_int (margin_floor_per_1000 cost m) < of_int cost * (1 + m / 100) + 1 + 1 / 100"
proof -
  let ?x = "f_mul (f_of_int cost) (f_add 1 (f_div m 100))" and ?y = "of_int cost * (1 + m / 100)"
  have near: "\<bar>?x - ?y\<bar> \<le> 1 / 100" using assms by (rule margin_product_near)
  have eq: "margin_floor_per_1000 cost m = max \<lceil>?x\<rceil> cost"
    using assms by (simp add: margin_floor_per_1000_def py_ceil_def Let_def)
  show "?y - 1 / 100 \<le> of_int (margin_floor_per_1000 cost m)"
  proof -
    have "of_int \<lceil>?x\<rceil> \<le> (of_int (max \<lceil>?x\<rceil> cost) :: rat)" by (simp only: of_int_le_iff max.cobounded1)
    then show ?thesis unfolding eq using near le_of_int_ceiling [of ?x] by linarith
  qed
  have "(of_int cost :: rat) * 1 \<le> ?y" using assms by (intro mult_left_mono) auto
  moreover have "of_int \<lceil>?x\<rceil> < ?y + 1 + 1 / 100"
    using near ceiling_correct [of ?x] by linarith
  ultimately show "of_int (margin_floor_per_1000 cost m) < ?y + 1 + 1 / 100"
    unfolding eq by (simp add: max_def)
qed

section \<open>The discount cap and commissions\<close>

text \<open>What a discount must satisfy so that the charge stays at or above the floor.\<close>

definition discount_ok :: "int \<Rightarrow> int \<Rightarrow> int \<Rightarrow> int \<Rightarrow> bool" where
  "discount_ok subtotal requested lo d =
     (0 \<le> d \<and> d \<le> requested \<and> d \<le> subtotal \<and> max lo 0 \<le> subtotal - d)"

lemma cap_discount_greatest:
  assumes "0 \<le> requested" and "max lo 0 \<le> subtotal"
  shows "discount_ok subtotal requested lo (cap_discount_to_floor subtotal requested lo)"
    and "discount_ok subtotal requested lo d \<Longrightarrow> d \<le> cap_discount_to_floor subtotal requested lo"
  using assms by (auto simp: discount_ok_def cap_discount_to_floor_def Let_def)

lemma cap_discount_no_headroom:
  "subtotal \<le> max lo 0 \<Longrightarrow> cap_discount_to_floor subtotal requested lo = 0"
  by (simp add: cap_discount_to_floor_def Let_def)

lemma cap_discount_bounds:
  "0 \<le> cap_discount_to_floor subtotal requested lo"
  "cap_discount_to_floor subtotal requested lo \<le> max requested 0"
  "0 < cap_discount_to_floor subtotal requested lo
     \<Longrightarrow> max lo 0 \<le> subtotal - cap_discount_to_floor subtotal requested lo"
  by (auto simp: cap_discount_to_floor_def Let_def split: if_splits)

lemma commission_exact:
  assumes "0 < amount" and "0 < k" and "amount * k < 2 ^ 53"
  shows "commission_paise amount (of_int k) = amount * k div 100"
proof -
  have "amount * 1 \<le> amount * k" using assms by (intro mult_left_mono) auto
  then have am: "amount < 2 ^ 53" using assms by linarith
  have fa: "fl64 (of_int amount) = of_int amount" using assms am by (intro double.fl_int) auto
  have fk: "fl64 (of_int amount * of_int k) = of_int (amount * k)"
    using assms double.fl_int [of "amount * k"] by simp
  have nn: "0 \<le> fl64 (of_int (amount * k) / of_int 100)"
    using assms by (intro double.fl_nonneg) auto
  have "commission_paise amount (of_int k) = \<lfloor>fl64 (of_int (amount * k) / of_int 100)\<rfloor>"
    using assms nn by (simp add: commission_paise_def float_ops fa fk)
  also have "\<dots> = amount * k div 100" using assms by (intro double.floor_quotient) auto
  finally show ?thesis .
qed

end
