(* ===== verification/Store.thy ===== *)
theory Store
  imports PriceMath
begin

text \<open>
  The tables of \<open>app/models.py\<close>. A row is a record with the columns of the model class (the
  \<open>created_at\<close> and \<open>updated_at\<close> columns that no modelled code reads are left out), the
  database is the record \<open>db\<close>: tables with a natural primary key are maps, tables with an
  autoincrement key are lists in the order of their ids. Times are microseconds since the
  epoch; text is a \<open>string\<close>, one character per code point. JSON columns hold the structure
  that the code serialises into them.
\<close>

section \<open>Statuses and constants\<close>

text \<open>
  The canonical order statuses: the keys of \<open>ORDER_STATUS_LABELS\<close>, which are also the only
  values that the code ever stores.
\<close>

datatype order_status =
    Pending | Awaiting_provider | Processing | In_progress | Completed | Partial
  | Canceled | Cancelled | Failed | Refunded | Refilling | Review

fun ORDER_STATUS_LABELS :: "order_status \<Rightarrow> string" where
  "ORDER_STATUS_LABELS Pending = ''Pending''"
| "ORDER_STATUS_LABELS Awaiting_provider = ''Submitting''"
| "ORDER_STATUS_LABELS Processing = ''Processing''"
| "ORDER_STATUS_LABELS In_progress = ''In progress''"
| "ORDER_STATUS_LABELS Completed = ''Completed''"
| "ORDER_STATUS_LABELS Partial = ''Partial''"
| "ORDER_STATUS_LABELS Canceled = ''Canceled''"
| "ORDER_STATUS_LABELS Cancelled = ''Canceled''"
| "ORDER_STATUS_LABELS Failed = ''Failed''"
| "ORDER_STATUS_LABELS Refunded = ''Refunded''"
| "ORDER_STATUS_LABELS Refilling = ''Refilling''"
| "ORDER_STATUS_LABELS Review = ''Under review''"

definition REVIEW_STATUS :: order_status where "REVIEW_STATUS = Review"

definition TERMINAL_STATUSES :: "order_status list" where
  "TERMINAL_STATUSES = [Completed, Canceled, Cancelled, Failed, Refunded]"

definition ACTIVE_STATUSES :: "order_status list" where
  "ACTIVE_STATUSES = [Pending, Awaiting_provider, Processing, In_progress, Partial, Refilling]"

definition REFILLABLE_STATUSES :: "order_status list" where
  "REFILLABLE_STATUSES = [Completed, Partial]"

definition CANCELABLE_STATUSES :: "order_status list" where
  "CANCELABLE_STATUSES = [Pending, Awaiting_provider, Processing, In_progress]"

lemmas status_sets = REVIEW_STATUS_def TERMINAL_STATUSES_def ACTIVE_STATUSES_def
  REFILLABLE_STATUSES_def CANCELABLE_STATUSES_def

definition REFERRAL_ORDER_COMMISSION_PERCENT :: rat where "REFERRAL_ORDER_COMMISSION_PERCENT = 8"
definition REFERRAL_DEPOSIT_COMMISSION_PERCENT :: rat where "REFERRAL_DEPOSIT_COMMISSION_PERCENT = 5"
definition REFERRAL_ORDER_CAP :: nat where "REFERRAL_ORDER_CAP = 3"
definition MIN_PAYOUT_PAISE :: int where "MIN_PAYOUT_PAISE = 10000"

datatype payment_status = PENDING | PAID | EXPIRED | FAILED | REVIEW

datatype entry_type = Credit | Debit | Reserve | Release | Capture

text \<open>Values inside the JSON columns: order extras and ledger metadata.\<close>

datatype json_value = JStr string | JInt int | JNum rat

type_synonym json_object = "(string \<times> json_value) list"

section \<open>Rows\<close>

record user_row =
  telegram_id :: int
  u_username :: "string option"
  u_first_name :: "string option"
  u_last_name :: "string option"
  u_language_code :: string
  u_role :: string
  u_is_banned :: bool
  u_terms_accepted_at :: "int option"
  u_privacy_accepted_at :: "int option"
  u_welcome_bonus_granted :: bool
  u_notify_orders :: bool
  cached_balance_paise :: int
  cached_reserved_paise :: int
  u_notes :: "string option"
  u_referral_code :: "string option"
  u_referred_by :: "int option"

definition available_paise :: "user_row \<Rightarrow> int" where
  "available_paise u = cached_balance_paise u - cached_reserved_paise u"

record ledger_entry =
  e_user_id :: int
  e_amount_paise :: int
  e_entry_type :: entry_type
  e_reason :: string
  e_reference_type :: "string option"
  e_reference_id :: "string option"
  e_key :: string
  e_balance_after_paise :: int
  e_reserved_after_paise :: int
  e_meta :: "json_object option"
  e_created_by :: "int option"

record provider_row =
  p_id :: string
  p_name :: string
  p_adapter_type :: "string option"
  p_base_url :: "string option"
  p_encrypted_api_key :: "string option"
  p_is_active :: bool
  p_markup_percent :: "rat option"
  p_markup_fixed_paise :: "int option"
  p_fx_to_inr :: rat
  p_auto_activate_new :: bool
  p_last_sync_at :: "int option"
  p_last_sync_status :: "string option"

record category_row =
  c_id :: string
  c_name :: string
  c_sort_order :: int
  c_is_active :: bool
  c_markup_percent :: "rat option"
  c_markup_fixed_paise :: "int option"

record service_row =
  s_id :: string
  s_category_id :: string
  s_provider_id :: string
  s_provider_service_id :: string
  s_name :: string
  s_description :: "string option"
  s_service_type :: string
  s_min_qty :: int
  s_max_qty :: int
  rate_per_1000_paise :: int
  s_markup_percent :: "rat option"
  s_markup_fixed_paise :: "int option"
  s_is_active :: bool
  s_is_refillable :: bool
  s_is_cancelable :: bool
  s_average_time :: "string option"
  s_external_name :: "string option"
  s_external_category :: "string option"
  s_is_removed_upstream :: bool
  s_last_synced_at :: "int option"

record star_price =
  star_id :: string
  star_service_id :: string
  star_user_id :: "int option"
  custom_rate_per_1000_paise :: int
  star_is_active :: bool

text \<open>The JSON object that \<open>snapshot_service\<close> freezes into an order.\<close>

record service_snapshot =
  snap_id :: string
  snap_name :: string
  snap_category_id :: string
  snap_provider_id :: string
  snap_provider_service_id :: string
  snap_service_type :: string
  snap_min_qty :: int
  snap_max_qty :: int
  snap_rate_per_1000_paise :: int
  snap_sell_per_1000_paise :: int
  snap_pricing_layer :: string
  snap_markup_percent :: rat
  snap_is_refillable :: bool
  snap_is_cancelable :: bool
  snap_average_time :: "string option"
  snap_quoted_at :: int
  snap_reseller_discount_paise :: int
  snap_retail_per_1000_paise :: int

record order_row =
  o_id :: int
  o_public_id :: string
  o_user_id :: int
  o_service_id :: string
  o_provider_id :: string
  o_provider_order_id :: "string option"
  o_status :: order_status
  o_link :: string
  o_quantity :: int
  o_extra :: json_object
  o_charge_paise :: int
  o_cost_paise :: int
  o_start_count :: "int option"
  o_remains :: "int option"
  o_snapshot :: "service_snapshot option"
  o_key :: string
  o_coupon_code :: "string option"
  o_fail_reason :: "string option"
  o_refill_count :: int
  o_last_synced_at :: "int option"
  o_updated_at :: int

record order_event =
  ev_order_id :: int
  ev_from_status :: order_status
  ev_to_status :: order_status
  ev_note :: "string option"

record coupon_row =
  cp_code :: string
  cp_discount_type :: string
  cp_value :: rat
  cp_max_uses :: "int option"
  cp_used_count :: int
  cp_per_user_limit :: int
  cp_min_order_paise :: int
  cp_is_active :: bool
  cp_expires_at :: "int option"

record coupon_redemption =
  r_coupon_code :: string
  r_user_id :: int
  r_order_id :: int

record payment_row =
  pay_id :: int
  pay_public_id :: string
  pay_user_id :: int
  pay_amount_paise :: int
  pay_method :: string
  pay_status :: payment_status
  pay_provider_ref :: "string option"
  pay_currency :: string
  pay_checkout_url :: "string option"
  pay_failure_reason :: "string option"
  pay_key :: string
  pay_paid_at :: "int option"
  pay_created_at :: int

text \<open>\<open>response_json\<close> of an idempotency record holds one of two objects.\<close>

datatype idem_response = RespOrder int string | RespRefund int

record idempotency_record =
  idem_scope :: string
  idem_response :: idem_response

record reseller_row =
  rs_tier :: string
  rs_discount_bp :: int
  rs_status :: string

record reseller_order =
  ro_reseller_id :: int
  ro_order_id :: int
  ro_charge_paise :: int
  ro_retail_paise :: int

record referral_click =
  click_code :: string
  click_referrer_id :: "int option"
  click_visitor_id :: int
  click_is_signup :: bool

record role_application =
  app_id :: int
  app_user_id :: int
  app_kind :: string
  app_pitch :: string
  app_status :: string

record payout_request =
  po_public_id :: string
  po_user_id :: int
  po_kind :: string
  po_amount_paise :: int
  po_status :: string

record payment_event =
  pe_gateway :: string
  pe_event_id :: string
  pe_event_type :: string
  pe_payment_public_id :: "string option"
  pe_amount_paise :: "int option"
  pe_currency :: "string option"
  pe_outcome :: string
  pe_detail :: "string option"

record audit_log =
  audit_actor :: string
  audit_action :: string
  audit_target :: "string option"
  audit_reason :: "string option"

record sync_run =
  run_provider_id :: string
  run_status :: string
  run_added :: int
  run_updated :: int
  run_removed :: int
  run_skipped_invalid :: int
  run_detail :: "string option"

section \<open>The database\<close>

text \<open>
  \<open>user_ids\<close>, \<open>service_ids\<close> and \<open>category_ids\<close> list the primary keys of the maps beside them in the
  order of insertion, for the queries that scan a table.
\<close>

record db =
  users :: "int \<Rightarrow> user_row option"
  user_ids :: "int list"
  ledger :: "ledger_entry list"
  providers :: "string \<Rightarrow> provider_row option"
  categories :: "string \<Rightarrow> category_row option"
  services :: "string \<Rightarrow> service_row option"
  service_ids :: "string list"
  category_ids :: "string list"
  star_prices :: "star_price list"
  app_settings :: "string \<Rightarrow> string option"
  orders :: "order_row list"
  next_order_id :: int
  order_events :: "order_event list"
  coupons :: "string \<Rightarrow> coupon_row option"
  redemptions :: "coupon_redemption list"
  payments :: "payment_row list"
  next_payment_id :: int
  payment_events :: "payment_event list"
  idempotency_records :: "string \<Rightarrow> idempotency_record option"
  resellers :: "int \<Rightarrow> reseller_row option"
  reseller_orders :: "reseller_order list"
  promoters :: "int \<Rightarrow> string option"
  referral_clicks :: "referral_click list"
  role_applications :: "role_application list"
  payout_requests :: "payout_request list"
  audit_logs :: "audit_log list"
  sync_runs :: "sync_run list"

definition empty_db :: db where
  "empty_db =
     \<lparr>users = Map.empty, user_ids = [], ledger = [], providers = Map.empty, categories = Map.empty,
      services = Map.empty, service_ids = [], category_ids = [], star_prices = [], app_settings = Map.empty, orders = [],
      next_order_id = 1, order_events = [], coupons = Map.empty, redemptions = [],
      payments = [], next_payment_id = 1, payment_events = [],
      idempotency_records = Map.empty, resellers = Map.empty, reseller_orders = [],
      promoters = Map.empty, referral_clicks = [], role_applications = [],
      payout_requests = [], audit_logs = [], sync_runs = []\<rparr>"

text \<open>A row of \<open>users\<close> as the model class creates it, defaults included.\<close>

definition new_user :: "int \<Rightarrow> user_row" where
  "new_user tid =
     \<lparr>telegram_id = tid, u_username = None, u_first_name = None, u_last_name = None,
      u_language_code = ''en'', u_role = ''user'', u_is_banned = False,
      u_terms_accepted_at = None, u_privacy_accepted_at = None,
      u_welcome_bonus_granted = False, u_notify_orders = True,
      cached_balance_paise = 0, cached_reserved_paise = 0, u_notes = None,
      u_referral_code = None, u_referred_by = None\<rparr>"

section \<open>Access by key\<close>

definition all_users :: "db \<Rightarrow> user_row list" where
  "all_users s = List.map_filter (users s) (user_ids s)"

definition all_services :: "db \<Rightarrow> service_row list" where
  "all_services s = List.map_filter (services s) (service_ids s)"

definition all_categories :: "db \<Rightarrow> category_row list" where
  "all_categories s = List.map_filter (categories s) (category_ids s)"

definition order_by_id :: "int \<Rightarrow> db \<Rightarrow> order_row option" where
  "order_by_id oid s = find_by o_id oid (orders s)"

definition update_order :: "int \<Rightarrow> (order_row \<Rightarrow> order_row) \<Rightarrow> db \<Rightarrow> db" where
  "update_order oid f s = s\<lparr>orders := upd_by o_id oid f (orders s)\<rparr>"

definition payment_by_public_id :: "string \<Rightarrow> db \<Rightarrow> payment_row option" where
  "payment_by_public_id pid s = find_by pay_public_id pid (payments s)"

definition update_payment :: "string \<Rightarrow> (payment_row \<Rightarrow> payment_row) \<Rightarrow> db \<Rightarrow> db" where
  "update_payment pid f s = s\<lparr>payments := upd_by pay_public_id pid f (payments s)\<rparr>"

definition update_user :: "int \<Rightarrow> (user_row \<Rightarrow> user_row) \<Rightarrow> db \<Rightarrow> db" where
  "update_user uid f s = s\<lparr>users := (users s)(uid := map_option f (users s uid))\<rparr>"

text \<open>\<open>audit()\<close> of \<open>app/audit.py\<close>: one appended row; the JSON of old and new is not kept.\<close>

definition audit ::
  "string \<Rightarrow> string \<Rightarrow> string option \<Rightarrow> string option \<Rightarrow> db \<Rightarrow> db" where
  "audit who what target why s =
     s\<lparr>audit_logs := audit_logs s
        @ [\<lparr>audit_actor = take 48 who, audit_action = take 64 what,
            audit_target = (case target of None \<Rightarrow> None
               | Some t \<Rightarrow> if t = [] then None else Some (take 80 t)),
            audit_reason = (case why of None \<Rightarrow> None
               | Some r \<Rightarrow> if r = [] then None else Some (take 255 r))\<rparr>]\<rparr>"

end
