(* ===== verification/Contracts.thy ===== *)
theory Contracts
  imports Prelude
begin

text \<open>
  The two interfaces on which the clients of the wallet rely, as locales.

  \<open>keyed_posting\<close> is the contract of an idempotent operation: the caller names a key, the
  first success with that key stores a result under it, and every later call with it
  returns that result and changes nothing. \<open>session_steps\<close> is the contract between an operation
  and \<open>session_scope\<close> of \<open>app/db.py\<close>: an operation that raises is rolled back, one that
  succeeds keeps the invariant. The facts proved here once hold for every component that
  interprets the locale on its own operations.
\<close>

section \<open>Runs\<close>

text \<open>
  \<open>session_run\<close>: a sequence of transactions. One that raises leaves the committed state as it
  was (\<open>rollback\<close>), one that returns commits its state.
\<close>

fun session_run :: "('i \<Rightarrow> 's \<Rightarrow> 'e + ('r \<times> 's)) \<Rightarrow> 'i list \<Rightarrow> 's \<Rightarrow> 's" where
  "session_run step [] s = s"
| "session_run step (i # is) s =
     session_run step is (case step i s of Inl e \<Rightarrow> s | Inr (r, t) \<Rightarrow> t)"

lemma session_run_append:
  "session_run step (is @ js) s = session_run step js (session_run step is s)"
  by (induction "is" arbitrary: s) auto

text \<open>A posting request is a key and the arguments.\<close>

definition post_step :: "('k \<Rightarrow> 'a \<Rightarrow> 's \<Rightarrow> 'e + ('r \<times> 's)) \<Rightarrow> 'k \<times> 'a \<Rightarrow> 's \<Rightarrow> 'e + ('r \<times> 's)" where
  "post_step post = (\<lambda>(k, a). post k a)"

section \<open>Idempotent operations\<close>

locale keyed_posting =
  fixes post :: "'k \<Rightarrow> 'a \<Rightarrow> 's \<Rightarrow> 'e + ('r \<times> 's)"
    and lookup :: "'k \<Rightarrow> 's \<Rightarrow> 'r option"
    and usable :: "'k \<Rightarrow> bool"
  assumes post_replay: "usable k \<Longrightarrow> lookup k s = Some r \<Longrightarrow> post k a s = Inr (r', s')
      \<Longrightarrow> r' = r \<and> s' = s"
    and post_fresh: "usable k \<Longrightarrow> lookup k s = None \<Longrightarrow> post k a s = Inr (r, s')
      \<Longrightarrow> lookup k s' = Some r"
    and post_keeps: "lookup j s = Some q \<Longrightarrow> post k a s = Inr (r, s') \<Longrightarrow> lookup j s' = Some q"
begin

lemma post_stores: "usable k \<Longrightarrow> post k a s = Inr (r, s') \<Longrightarrow> lookup k s' = Some r"
  by (cases "lookup k s") (auto dest: post_replay post_fresh)

lemma run_keeps:
  "lookup j s = Some q \<Longrightarrow> lookup j (session_run (post_step post) ps s) = Some q"
proof (induction ps arbitrary: s)
  case Nil
  then show ?case by simp
next
  case (Cons p ps)
  obtain k a where p: "p = (k, a)" by fastforce
  show ?case
    using Cons by (auto simp: p post_step_def split: sum.splits prod.splits dest: post_keeps)
qed

text \<open>Whatever happens in between, a repeated call is a replay of the first success.\<close>

lemma retry_is_replay:
  assumes "usable k" and "post k a s = Inr (r, s1)"
    and "post k b (session_run (post_step post) ps s1) = Inr (r', s2)"
  shows "r' = r \<and> s2 = session_run (post_step post) ps s1"
  using post_replay [OF assms(1) run_keeps [OF post_stores [OF assms(1,2)]] assms(3)] .

text \<open>A batch in which every key is already stored has no effect at all.\<close>

lemma run_of_stored:
  assumes "\<forall>(k, a) \<in> set ps. usable k \<and> lookup k s \<noteq> None"
  shows "session_run (post_step post) ps s = s"
  using assms
proof (induction ps)
  case Nil
  then show ?case by simp
next
  case (Cons p ps)
  obtain k a where p: "p = (k, a)" by fastforce
  with Cons.prems obtain r where "usable k" and "lookup k s = Some r" by auto
  then have "(case post k a s of Inl e \<Rightarrow> s | Inr (r', t) \<Rightarrow> t) = s"
    by (auto split: sum.splits prod.splits dest: post_replay)
  with Cons show ?case by (simp add: p post_step_def)
qed

end

section \<open>Transactions that keep an invariant\<close>

locale session_steps =
  fixes step :: "'i \<Rightarrow> 's \<Rightarrow> 'e + ('r \<times> 's)"
    and inv :: "'s \<Rightarrow> bool"
    and ok :: "'i \<Rightarrow> bool"
  assumes step_inv: "inv s \<Longrightarrow> ok i \<Longrightarrow> step i s = Inr (r, t) \<Longrightarrow> inv t"
begin

lemma run_inv: "inv s \<Longrightarrow> \<forall>i \<in> set is. ok i \<Longrightarrow> inv (session_run step is s)"
proof (induction "is" arbitrary: s)
  case Nil
  then show ?case by simp
next
  case (Cons i "is")
  then show ?case by (auto split: sum.splits prod.splits dest: step_inv)
qed

end

end
