(* ===== verification/Wallet.thy ===== *)
theory Wallet
  imports Store Contracts
begin

text \<open>
  \<open>app/wallet.py\<close>: the ledger and the cached balances. Every operation locks the user row
  (\<open>lock_user\<close>), looks its idempotency key up in the ledger, and appends one entry while it
  rewrites the cached columns. The theory shows the wallet invariant (the cached columns are
  what the ledger says, and nothing is reserved that is not there), that an operation with a
  key already in the ledger changes nothing, and that with a fresh key it does what the
  abstract account machine \<open>acct_step\<close> does.
\<close>

section \<open>Snapshots\<close>

record wallet_snapshot =
  ws_balance_paise :: int
  ws_reserved_paise :: int
  ws_available_paise :: int

definition snapshot_of :: "user_row \<Rightarrow> wallet_snapshot" where
  "snapshot_of u =
     \<lparr>ws_balance_paise = cached_balance_paise u, ws_reserved_paise = cached_reserved_paise u,
      ws_available_paise = available_paise u\<rparr>"

section \<open>Locking and appending\<close>

text \<open>
  \<open>lock_user\<close> flushes and re-reads the row under its lock; a transaction therefore sees the
  committed row. A row that is gone makes \<open>refresh\<close> raise.
\<close>

definition lock_user :: "int \<Rightarrow> db \<Rightarrow> user_row res" where
  "lock_user uid s =
     (case users s uid of None \<Rightarrow> Inl (InvalidRequestError ''Could not refresh instance'')
      | Some u \<Rightarrow> Inr u)"

text \<open>\<open>_existing\<close>: the entry with this idempotency key, if there is one.\<close>

definition existing :: "string \<Rightarrow> db \<Rightarrow> ledger_entry option" where
  "existing key s = find_by e_key key (ledger s)"

text \<open>The optional arguments that an operation passes through to the entry.\<close>

record entry_refs =
  ref_type :: "string option"
  ref_id :: "string option"
  ref_by :: "int option"
  ref_meta :: "json_object option"

definition order_ref :: "string \<Rightarrow> entry_refs" where
  "order_ref pid =
     \<lparr>ref_type = Some ''order'', ref_id = Some pid, ref_by = None, ref_meta = None\<rparr>"

definition append_entry ::
  "int \<Rightarrow> int \<Rightarrow> entry_type \<Rightarrow> string \<Rightarrow> string \<Rightarrow> entry_refs \<Rightarrow> int \<Rightarrow> int \<Rightarrow> db
    \<Rightarrow> (ledger_entry \<times> db) res" where
  "append_entry uid amount etype reason key refs new_balance new_reserved s =
     (if new_balance < 0 \<or> new_reserved < 0 then Inl (WalletError ''Wallet invariant violated'')
      else if new_balance < new_reserved
      then Inl (InsufficientFunds ''Reserved amount exceeds balance'')
      else if existing key s \<noteq> None
      then Inl (IntegrityError ''ledger_entries.idempotency_key'')
      else
        let entry =
              \<lparr>e_user_id = uid, e_amount_paise = amount, e_entry_type = etype,
               e_reason = take 255 reason, e_reference_type = ref_type refs,
               e_reference_id = ref_id refs, e_key = key,
               e_balance_after_paise = new_balance, e_reserved_after_paise = new_reserved,
               e_meta = (case ref_meta refs of None \<Rightarrow> None
                  | Some m \<Rightarrow> if m = [] then None else Some m),
               e_created_by = ref_by refs\<rparr>;
            s = update_user uid
                  (\<lambda>u. u\<lparr>cached_balance_paise := new_balance, cached_reserved_paise := new_reserved\<rparr>) s
        in Inr (entry, s\<lparr>ledger := ledger s @ [entry]\<rparr>))"

definition need_paise :: "int \<Rightarrow> int \<Rightarrow> exn" where
  "need_paise amount avail =
     InsufficientFunds (''Need '' @ str_int amount @ '' paise, available '' @ str_int avail)"

section \<open>The five operations\<close>

text \<open>\<open>idempotency_key or new_idempotency_key(...)\<close>: no key and the empty key are the same.\<close>

definition default_key :: "string option \<Rightarrow> string \<Rightarrow> string" where
  "default_key key derived = (case key of None \<Rightarrow> derived | Some k \<Rightarrow> if k = [] then derived else k)"

definition credit ::
  "digest \<Rightarrow> int \<Rightarrow> int \<Rightarrow> string \<Rightarrow> string option \<Rightarrow> entry_refs \<Rightarrow> db \<Rightarrow> (ledger_entry \<times> db) res" where
  "credit H uid amount reason key refs s =
     (if amount \<le> 0 then Inl (WalletError ''Credit amount must be positive'')
      else e_bind (lock_user uid s) (\<lambda>user.
        let k = default_key key
                  (new_idempotency_key H [''credit'', str_int uid, reason, str_int amount])
        in case existing k s of
             Some entry \<Rightarrow> Inr (entry, s)
           | None \<Rightarrow> append_entry uid amount Credit reason k refs
                       (cached_balance_paise user + amount) (cached_reserved_paise user) s))"

definition debit ::
  "digest \<Rightarrow> int \<Rightarrow> int \<Rightarrow> string \<Rightarrow> string option \<Rightarrow> entry_refs \<Rightarrow> db \<Rightarrow> (ledger_entry \<times> db) res" where
  "debit H uid amount reason key refs s =
     (if amount \<le> 0 then Inl (WalletError ''Debit amount must be positive'')
      else e_bind (lock_user uid s) (\<lambda>user.
        let k = default_key key
                  (new_idempotency_key H [''debit'', str_int uid, reason, str_int amount])
        in case existing k s of
             Some entry \<Rightarrow> Inr (entry, s)
           | None \<Rightarrow>
               if available_paise user < amount then Inl (need_paise amount (available_paise user))
               else append_entry uid (- amount) Debit reason k refs
                      (cached_balance_paise user - amount) (cached_reserved_paise user) s))"

definition reserve ::
  "int \<Rightarrow> int \<Rightarrow> string \<Rightarrow> string \<Rightarrow> entry_refs \<Rightarrow> db \<Rightarrow> (ledger_entry \<times> db) res" where
  "reserve uid amount reason key refs s =
     (if amount \<le> 0 then Inl (WalletError ''Reserve amount must be positive'')
      else e_bind (lock_user uid s) (\<lambda>user.
        case existing key s of
          Some entry \<Rightarrow> Inr (entry, s)
        | None \<Rightarrow>
            if available_paise user < amount then Inl (need_paise amount (available_paise user))
            else append_entry uid 0 Reserve reason key refs
                   (cached_balance_paise user) (cached_reserved_paise user + amount) s))"

text \<open>A release of more than is reserved releases what there is.\<close>

definition release ::
  "int \<Rightarrow> int \<Rightarrow> string \<Rightarrow> string \<Rightarrow> entry_refs \<Rightarrow> db \<Rightarrow> (ledger_entry \<times> db) res" where
  "release uid amount reason key refs s =
     (if amount \<le> 0 then Inl (WalletError ''Release amount must be positive'')
      else e_bind (lock_user uid s) (\<lambda>user.
        case existing key s of
          Some entry \<Rightarrow> Inr (entry, s)
        | None \<Rightarrow>
            let reserved = cached_reserved_paise user
            in if reserved < amount
               then if reserved \<le> 0
                    then append_entry uid 0 Release reason key refs (cached_balance_paise user) 0 s
                    else append_entry uid 0 Release reason key refs
                           (cached_balance_paise user) (reserved - reserved) s
               else append_entry uid 0 Release reason key refs
                      (cached_balance_paise user) (reserved - amount) s))"

definition capture ::
  "int \<Rightarrow> int \<Rightarrow> string \<Rightarrow> string \<Rightarrow> entry_refs \<Rightarrow> db \<Rightarrow> (ledger_entry \<times> db) res" where
  "capture uid amount reason key refs s =
     (if amount \<le> 0 then Inl (WalletError ''Capture amount must be positive'')
      else e_bind (lock_user uid s) (\<lambda>user.
        case existing key s of
          Some entry \<Rightarrow> Inr (entry, s)
        | None \<Rightarrow>
            let reserved = cached_reserved_paise user
            in if reserved < amount
               then Inl (WalletError ''Cannot capture more than the reserved amount'')
               else append_entry uid (- amount) Capture reason key refs
                      (cached_balance_paise user - amount) (reserved - amount) s))"

text \<open>\<open>list_entries\<close>: newest first, a page of it.\<close>

definition list_entries :: "int \<Rightarrow> nat \<Rightarrow> nat \<Rightarrow> db \<Rightarrow> ledger_entry list" where
  "list_entries uid limit offset s =
     take limit (drop offset (rev (filter (\<lambda>e. e_user_id e = uid) (ledger s))))"

section \<open>What a wallet operation leaves alone\<close>

text \<open>
  The frame of every operation: all tables but \<open>users\<close> and \<open>ledger\<close>. \<open>same_tables\<close> also
  says which users exist and that nothing but the two cached columns of a row can differ.
\<close>

definition forget_wallet :: "user_row \<Rightarrow> user_row" where
  "forget_wallet u = u\<lparr>cached_balance_paise := 0, cached_reserved_paise := 0\<rparr>"

definition same_tables :: "db \<Rightarrow> db \<Rightarrow> bool" where
  "same_tables s t \<longleftrightarrow>
     t\<lparr>users := users s, ledger := ledger s\<rparr> = s \<and>
     (\<forall>uid. map_option forget_wallet (users t uid) = map_option forget_wallet (users s uid))"

lemma same_tables_refl [simp]: "same_tables s s"
  by (simp add: same_tables_def)

lemma same_tables_trans: "same_tables s t \<Longrightarrow> same_tables t r \<Longrightarrow> same_tables s r"
  by (cases s; cases t; cases r) (simp add: same_tables_def)

lemma same_tables_fields:
  assumes "same_tables s t"
  shows "orders t = orders s" "next_order_id t = next_order_id s" "order_events t = order_events s"
    "coupons t = coupons s" "redemptions t = redemptions s" "payments t = payments s"
    "next_payment_id t = next_payment_id s" "payment_events t = payment_events s"
    "idempotency_records t = idempotency_records s" "resellers t = resellers s"
    "reseller_orders t = reseller_orders s" "services t = services s" "providers t = providers s"
    "categories t = categories s" "app_settings t = app_settings s" "star_prices t = star_prices s"
    "audit_logs t = audit_logs s" "promoters t = promoters s"
    "payout_requests t = payout_requests s" "user_ids t = user_ids s"
    "referral_clicks t = referral_clicks s" "role_applications t = role_applications s"
    "sync_runs t = sync_runs s" "service_ids t = service_ids s" "category_ids t = category_ids s"
  using assms by (cases s; cases t; simp add: same_tables_def)+

lemma same_tables_user:
  assumes "same_tables s t" and "users s uid = Some u"
  obtains u' where "users t uid = Some u'" "forget_wallet u' = forget_wallet u"
  using assms by (auto simp: same_tables_def dest!: spec [of _ uid])

lemma same_tables_user_fields:
  assumes "forget_wallet u' = forget_wallet u"
  shows "telegram_id u' = telegram_id u" "u_referred_by u' = u_referred_by u"
    "u_role u' = u_role u" "u_is_banned u' = u_is_banned u"
  using assms by (cases u; cases u'; simp add: forget_wallet_def)+

lemma same_tables_no_user: "same_tables s t \<Longrightarrow> users t uid = None \<longleftrightarrow> users s uid = None"
  by (auto simp: same_tables_def dest!: spec [of _ uid])

section \<open>One appended entry\<close>

text \<open>
  \<open>posted uid amount t key b r s e s'\<close>: the step from \<open>s\<close> to \<open>s'\<close> appended the entry \<open>e\<close> for
  \<open>uid\<close> with a key that was not there, and set the cached columns to \<open>b\<close> and \<open>r\<close>.
\<close>

definition posted ::
  "int \<Rightarrow> int \<Rightarrow> entry_type \<Rightarrow> string \<Rightarrow> entry_refs \<Rightarrow> int \<Rightarrow> int \<Rightarrow> db \<Rightarrow> ledger_entry \<Rightarrow> db \<Rightarrow> bool"
where
  "posted uid amount t key refs b r s e s' \<longleftrightarrow>
     0 \<le> r \<and> r \<le> b \<and> existing key s = None \<and>
     e_user_id e = uid \<and> e_amount_paise e = amount \<and> e_entry_type e = t \<and> e_key e = key \<and>
     e_reference_type e = ref_type refs \<and> e_reference_id e = ref_id refs \<and>
     e_balance_after_paise e = b \<and> e_reserved_after_paise e = r \<and>
     ledger s' = ledger s @ [e] \<and>
     users s' = (users s)(uid := map_option
       (\<lambda>u. u\<lparr>cached_balance_paise := b, cached_reserved_paise := r\<rparr>) (users s uid)) \<and>
     same_tables s s'"

lemma append_entry_Inr:
  "append_entry uid amount t why key refs b r s = Inr (e, s') \<Longrightarrow>
   posted uid amount t key refs b r s e s'"
  by (auto simp: append_entry_def posted_def Let_def update_user_def same_tables_def
      forget_wallet_def [abs_def] option.map_comp comp_def split: if_splits)

lemma append_entry_ok:
  "0 \<le> r \<Longrightarrow> r \<le> b \<Longrightarrow> existing key s = None \<Longrightarrow>
   \<exists>e s'. append_entry uid amount t why key refs b r s = Inr (e, s')"
  by (auto simp: append_entry_def Let_def)

text \<open>
  The account that an operation leads to, as one function of the entry type: the abstract
  machine that the five operations implement.
\<close>

type_synonym account = "int \<times> int"

fun acct_step :: "entry_type \<Rightarrow> int \<Rightarrow> account \<Rightarrow> account option" where
  "acct_step Credit a (b, r) = (if a \<le> 0 then None else Some (b + a, r))"
| "acct_step Debit a (b, r) = (if a \<le> 0 \<or> b - r < a then None else Some (b - a, r))"
| "acct_step Reserve a (b, r) = (if a \<le> 0 \<or> b - r < a then None else Some (b, r + a))"
| "acct_step Release a (b, r) = (if a \<le> 0 then None else Some (b, max 0 (r - a)))"
| "acct_step Capture a (b, r) = (if a \<le> 0 \<or> r < a then None else Some (b - a, r - a))"

definition account_of :: "db \<Rightarrow> int \<Rightarrow> account option" where
  "account_of s uid =
     map_option (\<lambda>u. (cached_balance_paise u, cached_reserved_paise u)) (users s uid)"

definition acct_ok :: "account \<Rightarrow> bool" where
  "acct_ok = (\<lambda>(b, r). 0 \<le> r \<and> r \<le> b)"

lemma acct_step_ok: "acct_ok x \<Longrightarrow> acct_step t a x = Some y \<Longrightarrow> acct_ok y"
  by (cases t; cases x) (auto simp: acct_ok_def split: if_splits)

text \<open>All five operations behind one interface, keyed by the entry type they write.\<close>

fun wallet_op ::
  "digest \<Rightarrow> entry_type \<Rightarrow> int \<Rightarrow> int \<Rightarrow> string \<Rightarrow> string \<Rightarrow> entry_refs \<Rightarrow> db
    \<Rightarrow> (ledger_entry \<times> db) res" where
  "wallet_op H Credit uid a why key refs s = credit H uid a why (Some key) refs s"
| "wallet_op H Debit uid a why key refs s = debit H uid a why (Some key) refs s"
| "wallet_op H Reserve uid a why key refs s = reserve uid a why key refs s"
| "wallet_op H Release uid a why key refs s = release uid a why key refs s"
| "wallet_op H Capture uid a why key refs s = capture uid a why key refs s"

lemmas wallet_defs = credit_def debit_def reserve_def release_def capture_def lock_user_def
  default_key_def

text \<open>The signed amount that the entry records.\<close>

fun entry_amount :: "entry_type \<Rightarrow> int \<Rightarrow> int" where
  "entry_amount Credit a = a"
| "entry_amount Debit a = - a"
| "entry_amount Reserve a = 0"
| "entry_amount Release a = 0"
| "entry_amount Capture a = - a"

text \<open>
  What a successful operation did: it replayed an entry, or it posted a new one and moved the
  account by the abstract step.
\<close>

lemma wallet_op_replay:
  assumes "existing key s = Some e" and "key \<noteq> []"
  shows "wallet_op H t uid a why key refs s =
    (if 0 < a \<and> users s uid \<noteq> None then Inr (e, s)
     else wallet_op H t uid a why key refs s)"
  using assms by (cases t) (auto simp: wallet_defs)

lemma wallet_op_replay_unchanged:
  "existing key s = Some e \<Longrightarrow> key \<noteq> [] \<Longrightarrow> wallet_op H t uid a why key refs s = Inr (e', s')
    \<Longrightarrow> e' = e \<and> s' = s"
  by (cases t) (auto simp: wallet_defs split: if_splits option.splits)

lemma wallet_op_posted:
  assumes "wallet_op H t uid a why key refs s = Inr (e, s')" and "existing key s = None"
    and "key \<noteq> []" and "account_of s uid = Some x" and "acct_ok x"
  shows "\<exists>b r. acct_step t a x = Some (b, r) \<and>
    posted uid (entry_amount t a) t key refs b r s e s'"
proof -
  obtain u where u: "users s uid = Some u"
    and x: "x = (cached_balance_paise u, cached_reserved_paise u)"
    using assms(4) by (auto simp: account_of_def)
  show ?thesis
    using assms(1,2,3,5) u
    by (cases t) (auto simp: wallet_defs Let_def x acct_ok_def available_paise_def max_def
        split: if_splits dest!: append_entry_Inr)
qed

lemma existing_None: "existing key s = None \<longleftrightarrow> key \<notin> e_key ` set (ledger s)"
  by (simp add: existing_def find_by_None)

lemma existing_append:
  "ledger s' = ledger s @ [e] \<Longrightarrow>
   existing k s' = (case existing k s of None \<Rightarrow> if e_key e = k then Some e else None | Some q \<Rightarrow> Some q)"
  by (simp add: existing_def find_by_append split: option.splits)

text \<open>
  The effect of a success, without assumptions on the key or the account: a replay, or a
  posting that changes the balance by the recorded amount and agrees with \<open>acct_step\<close>.
\<close>

definition wallet_effect ::
  "entry_type \<Rightarrow> int \<Rightarrow> int \<Rightarrow> entry_refs \<Rightarrow> db \<Rightarrow> ledger_entry \<Rightarrow> db \<Rightarrow> bool" where
  "wallet_effect t uid a refs s e s' \<longleftrightarrow>
     ((\<exists>k. existing k s = Some e) \<and> s' = s) \<or>
     (\<exists>k u b r. users s uid = Some u \<and> b = cached_balance_paise u + entry_amount t a \<and>
        (acct_ok (cached_balance_paise u, cached_reserved_paise u) \<longrightarrow>
          acct_step t a (cached_balance_paise u, cached_reserved_paise u) = Some (b, r)) \<and>
        posted uid (entry_amount t a) t k refs b r s e s')"

lemma effect_replay: "existing k s = Some e \<Longrightarrow> wallet_effect t uid a refs s e s"
  by (auto simp: wallet_effect_def)

lemma effect_post:
  assumes "append_entry uid m t why k refs b r s = Inr (e, s')" and "users s uid = Some u"
    and "m = entry_amount t a" and "b = cached_balance_paise u + entry_amount t a"
    and "acct_ok (cached_balance_paise u, cached_reserved_paise u) \<Longrightarrow>
      acct_step t a (cached_balance_paise u, cached_reserved_paise u) = Some (b, r)"
  shows "wallet_effect t uid a refs s e s'"
  unfolding wallet_effect_def
  using assms append_entry_Inr [OF assms(1)] by blast

lemmas op_splits = if_split_asm option.split_asm sum.split_asm

lemma credit_effect: "credit H uid a why key refs s = Inr (e, s') \<Longrightarrow> wallet_effect Credit uid a refs s e s'"
  by (auto simp: credit_def lock_user_def Let_def split: op_splits intro: effect_replay elim!: effect_post)

lemma debit_effect: "debit H uid a why key refs s = Inr (e, s') \<Longrightarrow> wallet_effect Debit uid a refs s e s'"
  by (auto simp: debit_def lock_user_def Let_def available_paise_def split: op_splits
      intro: effect_replay elim!: effect_post)

lemma reserve_effect: "reserve uid a why key refs s = Inr (e, s') \<Longrightarrow> wallet_effect Reserve uid a refs s e s'"
  by (auto simp: reserve_def lock_user_def Let_def available_paise_def split: op_splits
      intro: effect_replay elim!: effect_post)

lemma release_effect: "release uid a why key refs s = Inr (e, s') \<Longrightarrow> wallet_effect Release uid a refs s e s'"
  by (auto simp: release_def lock_user_def Let_def acct_ok_def split: op_splits
      intro: effect_replay elim!: effect_post)

lemma capture_effect: "capture uid a why key refs s = Inr (e, s') \<Longrightarrow> wallet_effect Capture uid a refs s e s'"
  by (auto simp: capture_def lock_user_def Let_def split: op_splits
      intro: effect_replay elim!: effect_post)

lemma wallet_op_effect:
  "wallet_op H t uid a why key refs s = Inr (e, s') \<Longrightarrow> wallet_effect t uid a refs s e s'"
  by (cases t) (simp_all add: credit_effect debit_effect reserve_effect release_effect capture_effect)

lemma effect_cases:
  assumes "wallet_effect t uid a refs s e s'"
  obtains (replay) k where "existing k s = Some e" "s' = s"
  | (post) k u r where "users s uid = Some u"
      "acct_ok (cached_balance_paise u, cached_reserved_paise u) \<Longrightarrow>
        acct_step t a (cached_balance_paise u, cached_reserved_paise u)
          = Some (cached_balance_paise u + entry_amount t a, r)"
      "posted uid (entry_amount t a) t k refs (cached_balance_paise u + entry_amount t a) r s e s'"
  using assms unfolding wallet_effect_def by blast

lemma effect_same_tables: "wallet_effect t uid a refs s e s' \<Longrightarrow> same_tables s s'"
  by (erule effect_cases) (simp_all add: posted_def)

text \<open>A credit with a key of its own: the only operation that takes an optional key.\<close>

lemma credit_eq_op: "credit H uid a why (Some key) refs s = wallet_op H Credit uid a why key refs s"
  by simp

section \<open>The wallet invariant\<close>

definition ledger_sum :: "int \<Rightarrow> ledger_entry list \<Rightarrow> int" where
  "ledger_sum uid es = sum_list (map e_amount_paise (filter (\<lambda>e. e_user_id e = uid) es))"

definition last_after :: "int \<Rightarrow> ledger_entry list \<Rightarrow> account" where
  "last_after uid es =
     (case rev (filter (\<lambda>e. e_user_id e = uid) es) of
        [] \<Rightarrow> (0, 0)
      | e # _ \<Rightarrow> (e_balance_after_paise e, e_reserved_after_paise e))"

definition user_matches_ledger :: "db \<Rightarrow> int \<Rightarrow> user_row \<Rightarrow> bool" where
  "user_matches_ledger s uid u \<longleftrightarrow>
     cached_balance_paise u = ledger_sum uid (ledger s) \<and>
     (cached_balance_paise u, cached_reserved_paise u) = last_after uid (ledger s) \<and>
     0 \<le> cached_reserved_paise u \<and> cached_reserved_paise u \<le> cached_balance_paise u"

definition wallet_inv :: "db \<Rightarrow> bool" where
  "wallet_inv s \<longleftrightarrow>
     distinct (map e_key (ledger s)) \<and>
     (\<forall>e \<in> set (ledger s). users s (e_user_id e) \<noteq> None) \<and>
     (\<forall>uid u. users s uid = Some u \<longrightarrow> user_matches_ledger s uid u)"

lemma wallet_inv_user: "wallet_inv s \<Longrightarrow> users s uid = Some u \<Longrightarrow> user_matches_ledger s uid u"
  by (simp add: wallet_inv_def)

lemma user_matches_acct_ok:
  "user_matches_ledger s uid u \<Longrightarrow> acct_ok (cached_balance_paise u, cached_reserved_paise u)"
  unfolding user_matches_ledger_def acct_ok_def by simp

lemmas wallet_inv_acct_ok = user_matches_acct_ok [OF wallet_inv_user]

lemma user_matches_other:
  assumes "ledger t = ledger s @ [e]" and "e_user_id e \<noteq> v"
  shows "user_matches_ledger t v = user_matches_ledger s v"
  using assms by (simp add: user_matches_ledger_def ledger_sum_def last_after_def fun_eq_iff)

lemma wallet_inv_posted:
  assumes "wallet_inv s" and "users s uid = Some u"
    and "posted uid amount t k refs (cached_balance_paise u + amount) r s e s'"
  shows "wallet_inv s'"
proof -
  have led: "ledger s' = ledger s @ [e]" and e: "e_user_id e = uid" "e_amount_paise e = amount"
    "e_key e = k" "e_balance_after_paise e = cached_balance_paise u + amount"
    "e_reserved_after_paise e = r" and fresh: "existing k s = None"
    and r: "0 \<le> r" "r \<le> cached_balance_paise u + amount"
    and us: "users s' = (users s)(uid \<mapsto> u\<lparr>cached_balance_paise := cached_balance_paise u + amount,
        cached_reserved_paise := r\<rparr>)"
    using assms(2,3) by (auto simp: posted_def)
  have "user_matches_ledger s' v w" if "users s' v = Some w" for v w
  proof (cases "v = uid")
    case True
    with that us have w: "w = u\<lparr>cached_balance_paise := cached_balance_paise u + amount,
        cached_reserved_paise := r\<rparr>" by simp
    have "cached_balance_paise u = ledger_sum uid (ledger s)"
      using wallet_inv_user [OF assms(1,2)] unfolding user_matches_ledger_def by simp
    then show ?thesis
      using True r e by (simp add: user_matches_ledger_def led w ledger_sum_def last_after_def)
  next
    case False
    with that us have "users s v = Some w" by simp
    with assms(1) have "user_matches_ledger s v w" by (rule wallet_inv_user)
    with led False e show ?thesis using user_matches_other [OF led, of v] by simp
  qed
  with assms(1,2) fresh show ?thesis
    by (auto simp: wallet_inv_def led us e existing_None)
qed

lemma wallet_inv_effect:
  assumes "wallet_inv s" and "wallet_effect t uid a refs s e s'"
  shows "wallet_inv s'"
  using assms(2)
proof (cases rule: effect_cases)
  case replay
  with assms(1) show ?thesis by simp
next
  case post
  with assms(1) show ?thesis by (blast intro: wallet_inv_posted)
qed

lemmas wallet_inv_op = wallet_inv_effect [OF _ wallet_op_effect]

text \<open>The invariant reads two tables only.\<close>

lemma wallet_inv_cong:
  "users t = users s \<Longrightarrow> ledger t = ledger s \<Longrightarrow> wallet_inv t \<longleftrightarrow> wallet_inv s"
  by (simp add: wallet_inv_def user_matches_ledger_def)

section \<open>Interfaces\<close>

text \<open>A request to the wallet, and the step that serves it.\<close>

record wallet_request =
  w_type :: entry_type
  w_user :: int
  w_amount :: int
  w_reason :: string
  w_key :: string
  w_refs :: entry_refs

definition wallet_step :: "digest \<Rightarrow> wallet_request \<Rightarrow> db \<Rightarrow> (ledger_entry \<times> db) res" where
  "wallet_step H q s =
     wallet_op H (w_type q) (w_user q) (w_amount q) (w_reason q) (w_key q) (w_refs q) s"

interpretation wallet_runs: session_steps "wallet_step H" wallet_inv "\<lambda>_. True" for H
  by unfold_locales (auto simp: wallet_step_def dest: wallet_inv_op)

definition wallet_post ::
  "digest \<Rightarrow> string \<Rightarrow> entry_type \<times> int \<times> int \<times> string \<times> entry_refs \<Rightarrow> db \<Rightarrow> (ledger_entry \<times> db) res" where
  "wallet_post H key = (\<lambda>(t, uid, a, why, refs) s. wallet_op H t uid a why key refs s)"

lemma effect_keeps_keys:
  "wallet_effect t uid a refs s e s' \<Longrightarrow> existing j s = Some q \<Longrightarrow> existing j s' = Some q"
  by (erule effect_cases) (auto simp: posted_def existing_append)

lemmas wallet_op_keeps_keys = effect_keeps_keys [OF wallet_op_effect]

lemma wallet_op_stores_key:
  assumes "key \<noteq> []" and "existing key s = None"
    and "wallet_op H t uid a why key refs s = Inr (e, s')"
  shows "existing key s' = Some e"
  using assms
  by (cases t) (auto simp: wallet_defs Let_def posted_def existing_append
      split: if_splits option.splits dest!: append_entry_Inr)

interpretation wallet_keys: keyed_posting "wallet_post H" existing "\<lambda>k. k \<noteq> []" for H
  by unfold_locales (auto simp: wallet_post_def
      dest: wallet_op_replay_unchanged wallet_op_stores_key wallet_op_keeps_keys)

section \<open>Correctness\<close>

lemma posted_account:
  assumes "posted uid m t k refs b r s e s'" and "users s uid = Some u"
  shows "account_of s' uid = Some (b, r)" and "v \<noteq> uid \<Longrightarrow> account_of s' v = account_of s v"
    and "users s' uid = Some (u\<lparr>cached_balance_paise := b, cached_reserved_paise := r\<rparr>)"
  using assms by (auto simp: posted_def account_of_def)

lemma posted_existing:
  "posted uid m t k refs b r s e s' \<Longrightarrow> existing j s' = (if j = k then Some e else existing j s)"
  by (auto simp: posted_def existing_append split: option.splits)

lemma append_entry_posted:
  assumes "0 \<le> r" and "r \<le> b" and "existing key s = None"
  shows "\<exists>e s'. append_entry uid m t why key refs b r s = Inr (e, s') \<and> posted uid m t key refs b r s e s'"
  using append_entry_ok [OF assms] append_entry_Inr by blast

lemma wallet_op_succeeds:
  assumes "users s uid = Some u" and "acct_ok (cached_balance_paise u, cached_reserved_paise u)"
    and "existing key s = None" and "key \<noteq> []"
    and "acct_step t a (cached_balance_paise u, cached_reserved_paise u) = Some (b, r)"
  shows "\<exists>e s'. wallet_op H t uid a why key refs s = Inr (e, s') \<and>
    posted uid (entry_amount t a) t key refs b r s e s'"
proof -
  have br: "0 \<le> r" "r \<le> b"
    using acct_step_ok [OF assms(2,5)] by (auto simp: acct_ok_def)
  obtain e s' where "append_entry uid (entry_amount t a) t why key refs b r s = Inr (e, s')"
    and "posted uid (entry_amount t a) t key refs b r s e s'"
    using append_entry_posted [OF br assms(3)] by blast
  moreover from this(1) have "wallet_op H t uid a why key refs s = Inr (e, s')"
    using assms by (cases t) (auto simp: wallet_defs available_paise_def Let_def acct_ok_def
        split: if_split_asm)
  ultimately show ?thesis by blast
qed

lemma wallet_op_raises:
  assumes "users s uid = Some u" and "acct_ok (cached_balance_paise u, cached_reserved_paise u)"
    and "existing key s = None" and "key \<noteq> []"
    and "acct_step t a (cached_balance_paise u, cached_reserved_paise u) = None"
  shows "\<exists>err. wallet_op H t uid a why key refs s = Inl err"
  using assms by (cases t) (auto simp: wallet_defs available_paise_def Let_def acct_ok_def
      split: if_split_asm)

text \<open>
  C9: Refinement. In a state of the invariant, an operation of the wallet with an unused key
  does to the account of its user exactly what the abstract account machine does: it raises
  where the machine refuses, otherwise the account becomes the machine's next account, no
  other account changes, no other table changes, and the new entry is stored under the key.
\<close>

theorem wallet_refines_account:
  assumes "wallet_inv s" and "users s uid = Some u"
    and "existing key s = None" and "key \<noteq> []"
  shows "case acct_step t a (cached_balance_paise u, cached_reserved_paise u) of
      None \<Rightarrow> \<exists>err. wallet_op H t uid a why key refs s = Inl err
    | Some acct \<Rightarrow> \<exists>e s'. wallet_op H t uid a why key refs s = Inr (e, s') \<and>
        account_of s' uid = Some acct \<and> (\<forall>v. v \<noteq> uid \<longrightarrow> account_of s' v = account_of s v) \<and>
        existing key s' = Some e \<and> ledger s' = ledger s @ [e] \<and> same_tables s s'"
proof (cases "acct_step t a (cached_balance_paise u, cached_reserved_paise u)")
  case None
  then show ?thesis
    using wallet_op_raises [OF assms(2) wallet_inv_acct_ok [OF assms(1,2)] assms(3,4)] by simp
next
  case (Some acct)
  obtain b r where acct: "acct = (b, r)" by fastforce
  obtain e s' where op: "wallet_op H t uid a why key refs s = Inr (e, s')"
    and p: "posted uid (entry_amount t a) t key refs b r s e s'"
    using wallet_op_succeeds [OF assms(2) wallet_inv_acct_ok [OF assms(1,2)] assms(3,4)]
      Some acct by blast
  then show ?thesis
    using posted_account [OF p assms(2)] posted_existing [OF p] p
    by (auto simp: Some acct posted_def)
qed

text \<open>A database with one user and an empty wallet, for the witnesses.\<close>

definition one_user :: "int \<Rightarrow> db" where
  "one_user uid = empty_db\<lparr>users := [uid \<mapsto> new_user uid], user_ids := [uid]\<rparr>"

lemma wallet_inv_one_user: "wallet_inv (one_user uid)"
  by (simp add: wallet_inv_def one_user_def empty_db_def user_matches_ledger_def new_user_def
      ledger_sum_def last_after_def)

lemma one_user_simps [simp]:
  "users (one_user uid) v = (if v = uid then Some (new_user uid) else None)"
  "existing key (one_user uid) = None"
  by (simp_all add: one_user_def empty_db_def existing_def)

lemma new_user_simps [simp]:
  "cached_balance_paise (new_user uid) = 0" "cached_reserved_paise (new_user uid) = 0"
  by (simp_all add: new_user_def)

theorem wallet_refines_account_witness:
  "\<exists>e s'. wallet_op id Credit 7 500 ''topup'' ''k1'' (order_ref ''FL-1'') (one_user 7) = Inr (e, s') \<and>
     account_of s' 7 = Some (500, 0)"
  using wallet_refines_account [OF wallet_inv_one_user [of 7], where uid = 7 and u = "new_user 7"
      and key = "''k1''" and t = Credit and a = 500 and H = id and why = "''topup''"
      and refs = "order_ref ''FL-1''"]
  by auto

text \<open>
  C8: Invariant. Whatever requests arrive in whatever order, served one transaction at a time
  and rolled back where they raise, every cached wallet can be recomputed from the ledger alone
  (as the sum of its amounts and as the state its last entry records), nothing is reserved that
  the user does not have, and no idempotency key occurs twice.
\<close>

theorem wallet_history_invariant:
  assumes "wallet_inv s" and "users (session_run (wallet_step H) qs s) uid = Some u"
  shows "cached_balance_paise u = ledger_sum uid (ledger (session_run (wallet_step H) qs s)) \<and>
    (cached_balance_paise u, cached_reserved_paise u)
      = last_after uid (ledger (session_run (wallet_step H) qs s)) \<and>
    0 \<le> cached_reserved_paise u \<and> 0 \<le> available_paise u \<and>
    distinct (map e_key (ledger (session_run (wallet_step H) qs s)))"
proof -
  have inv: "wallet_inv (session_run (wallet_step H) qs s)"
    using assms(1) by (rule wallet_runs.run_inv) simp
  then have "distinct (map e_key (ledger (session_run (wallet_step H) qs s)))"
    unfolding wallet_inv_def by blast
  moreover have "0 \<le> available_paise u"
    using wallet_inv_acct_ok [OF inv assms(2)] by (simp add: available_paise_def acct_ok_def)
  ultimately show ?thesis
    using wallet_inv_user [OF inv assms(2)] unfolding user_matches_ledger_def by blast
qed

definition sample_request :: "entry_type \<Rightarrow> int \<Rightarrow> string \<Rightarrow> wallet_request" where
  "sample_request t a key =
     \<lparr>w_type = t, w_user = 7, w_amount = a, w_reason = ''r'', w_key = key, w_refs = order_ref ''FL-1''\<rparr>"

definition sample_requests :: "wallet_request list" where
  "sample_requests =
     [sample_request Credit 500 ''a'', sample_request Reserve 200 ''b'',
      sample_request Debit 400 ''c'', sample_request Capture 200 ''d'', sample_request Capture 200 ''d'']"

lemma sample_run:
  "account_of (session_run (wallet_step id) sample_requests (one_user 7)) 7 = Some (300, 0)"
  by (simp add: sample_requests_def sample_request_def wallet_step_def wallet_defs one_user_def
      empty_db_def existing_def append_entry_def update_user_def Let_def available_paise_def
      account_of_def need_paise_def new_user_def order_ref_def)

theorem wallet_history_invariant_witness:
  "\<exists>u. users (session_run (wallet_step id) sample_requests (one_user 7)) 7 = Some u \<and>
     available_paise u = 300 \<and>
     ledger_sum 7 (ledger (session_run (wallet_step id) sample_requests (one_user 7))) = 300"
proof -
  obtain u where u: "users (session_run (wallet_step id) sample_requests (one_user 7)) 7 = Some u"
    and "cached_balance_paise u = 300" "cached_reserved_paise u = 0"
    using sample_run by (auto simp: account_of_def)
  then show ?thesis
    using wallet_history_invariant [OF wallet_inv_one_user u] by (auto simp: available_paise_def)
qed

text \<open>
  Idempotence. Once an operation has succeeded under a key, a later call with that key
  (with any arguments, after any other operations in between) that returns, returns the
  entry of the first call and changes nothing.
\<close>

theorem wallet_retry_is_replay:
  assumes "key \<noteq> []" and "wallet_post H key args s = Inr (e, s1)"
    and "wallet_post H key args' (session_run (post_step (wallet_post H)) between s1) = Inr (e', s2)"
  shows "e' = e \<and> s2 = session_run (post_step (wallet_post H)) between s1"
  using assms by (rule wallet_keys.retry_is_replay)

definition credited_once :: db where
  "credited_once = (case credit id 7 500 ''topup'' (Some ''k1'') (order_ref ''FL-1'') (one_user 7) of
     Inl err \<Rightarrow> empty_db | Inr (e, s) \<Rightarrow> s)"

theorem wallet_retry_is_replay_witness:
  "\<exists>e'. wallet_post id ''k1'' (Credit, 7, 900, ''again'', order_ref ''FL-2'') credited_once
      = Inr (e', credited_once) \<and> e_amount_paise e' = 500"
proof -
  obtain e s1 where first: "credit id 7 500 ''topup'' (Some ''k1'') (order_ref ''FL-1'') (one_user 7)
      = Inr (e, s1)" and e: "e_amount_paise e = 500"
    by (simp add: wallet_defs append_entry_def Let_def)
  have ex: "existing ''k1'' s1 = Some e"
    by (rule wallet_op_stores_key [where H = id and t = Credit and uid = 7 and a = 500
          and why = "''topup''" and refs = "order_ref ''FL-1''" and s = "one_user 7"])
      (use first in auto)
  have us: "users s1 7 \<noteq> None"
    using first by (auto simp: wallet_defs append_entry_def Let_def update_user_def)
  have second: "wallet_post id ''k1'' (Credit, 7, 900, ''again'', order_ref ''FL-2'')
      (session_run (post_step (wallet_post id)) [] s1) = Inr (e, s1)"
    using ex us by (auto simp: wallet_post_def wallet_defs)
  have "wallet_post id ''k1'' (Credit, 7, 500, ''topup'', order_ref ''FL-1'') (one_user 7) = Inr (e, s1)"
    using first by (simp add: wallet_post_def)
  from wallet_retry_is_replay [OF _ this second] second first e show ?thesis
    by (simp add: credited_once_def)
qed

text \<open>
  A hold settles exactly. After a successful reserve of an amount, capturing it always
  succeeds and takes exactly that amount from the balance and from the hold, and releasing it
  always succeeds and restores the account that was there before the reserve.
\<close>

theorem hold_settles_exactly:
  assumes "wallet_inv s" and "account_of s uid = Some (b, r)"
    and "reserve uid a why1 k1 refs1 s = Inr (e1, s1)"
    and "existing k1 s = None" and "k1 \<noteq> []" and "existing k2 s = None" and "k2 \<noteq> []" and "k1 \<noteq> k2"
  shows "(\<exists>e2 s2. capture uid a why2 k2 refs2 s1 = Inr (e2, s2) \<and> account_of s2 uid = Some (b - a, r)) \<and>
    (\<exists>e2 s2. release uid a why2 k2 refs2 s1 = Inr (e2, s2) \<and> account_of s2 uid = Some (b, r))"
proof -
  obtain u where u: "users s uid = Some u" and bu: "b = cached_balance_paise u"
    and ru: "r = cached_reserved_paise u"
    using assms(2) by (auto simp: account_of_def)
  have op: "wallet_op id Reserve uid a why1 k1 refs1 s = Inr (e1, s1)" using assms(3) by simp
  obtain b' r' where st: "acct_step Reserve a (b, r) = Some (b', r')"
    and p: "posted uid 0 Reserve k1 refs1 b' r' s e1 s1"
    using wallet_op_posted [OF op assms(4,5,2)] wallet_inv_acct_ok [OF assms(1) u] bu ru by auto
  have a: "0 < a" and b': "b' = b" and r': "r' = r + a" using st by (auto split: if_splits)
  have inv1: "wallet_inv s1" using assms(1) op by (rule wallet_inv_op)
  let ?u1 = "u\<lparr>cached_balance_paise := b', cached_reserved_paise := r'\<rparr>"
  have u1: "users s1 uid = Some ?u1" using posted_account [OF p u] by simp
  have fresh: "existing k2 s1 = None" using posted_existing [OF p] assms(6,8) by simp
  have ok: "acct_ok (cached_balance_paise ?u1, cached_reserved_paise ?u1)"
    using wallet_inv_acct_ok [OF inv1 u1] .
  have r0: "0 \<le> r" using wallet_inv_acct_ok [OF assms(1) u] ru by (simp add: acct_ok_def)
  have "\<exists>e2 s2. capture uid a why2 k2 refs2 s1 = Inr (e2, s2) \<and> account_of s2 uid = Some (b - a, r)"
    using wallet_op_succeeds [OF u1 ok fresh assms(7), of Capture a "b - a" r id why2 refs2] a b' r' r0
      posted_account(1) u1 by fastforce
  moreover have "\<exists>e2 s2. release uid a why2 k2 refs2 s1 = Inr (e2, s2) \<and> account_of s2 uid = Some (b, r)"
    using wallet_op_succeeds [OF u1 ok fresh assms(7), of Release a b r id why2 refs2] a b' r' r0
      posted_account(1) u1 by fastforce
  ultimately show ?thesis by blast
qed

definition funded_user :: "int \<Rightarrow> int \<Rightarrow> db" where
  "funded_user uid amount = session_run (wallet_step id)
     [\<lparr>w_type = Credit, w_user = uid, w_amount = amount, w_reason = ''topup'', w_key = ''k0'',
       w_refs = \<lparr>ref_type = Some ''payment'', ref_id = Some ''PAY-1'', ref_by = None, ref_meta = None\<rparr>\<rparr>]
     (one_user uid)"

lemma wallet_inv_funded_user: "wallet_inv (funded_user uid amount)"
  unfolding funded_user_def by (rule wallet_runs.run_inv) (simp_all add: wallet_inv_one_user)

lemmas funded_user_simps = funded_user_def wallet_step_def wallet_defs append_entry_def Let_def
  update_user_def account_of_def one_user_def empty_db_def existing_def available_paise_def

theorem hold_settles_exactly_witness:
  "\<exists>e1 s1 e2 s2. reserve 7 200 ''hold'' ''k1'' (order_ref ''FL-1'') (funded_user 7 500) = Inr (e1, s1) \<and>
     capture 7 200 ''charge'' ''k2'' (order_ref ''FL-1'') s1 = Inr (e2, s2) \<and>
     account_of s2 7 = Some (300, 0)"
proof -
  have acct: "account_of (funded_user 7 500) 7 = Some (500, 0)"
    and fresh: "existing ''k1'' (funded_user 7 500) = None" "existing ''k2'' (funded_user 7 500) = None"
    by (simp_all add: funded_user_simps)
  obtain e1 s1 where r: "reserve 7 200 ''hold'' ''k1'' (order_ref ''FL-1'') (funded_user 7 500) = Inr (e1, s1)"
    by (simp add: funded_user_simps)
  show ?thesis
    using hold_settles_exactly [OF wallet_inv_funded_user acct r fresh(1) _ fresh(2), of "''charge''"
        "order_ref ''FL-1''"] r by auto
qed

end
