(* ===== verification/PyText.thy ===== *)
theory PyText
  imports PyFloat
begin

text \<open>
  The string methods of Python that the modelled code uses, on strings with one character per
  code point. Case conversion is that of the ASCII letters; other characters are left alone.
\<close>

section \<open>Whitespace\<close>

definition py_space :: "char \<Rightarrow> bool" where
  "py_space c \<longleftrightarrow> (of_char c :: nat) \<in> set ([9..<14] @ [28..<33] @ [133, 160])"

definition lstrip :: "string \<Rightarrow> string" where "lstrip = dropWhile py_space"
definition rstrip :: "string \<Rightarrow> string" where "rstrip s = rev (dropWhile py_space (rev s))"
definition strip :: "string \<Rightarrow> string" where "strip s = rstrip (lstrip s)"

lemma set_rstrip: "set (rstrip s) \<subseteq> set s"
  by (auto simp: rstrip_def dest: set_dropWhileD)

lemma set_strip: "set (strip s) \<subseteq> set s"
  using set_rstrip [of "lstrip s"] set_dropWhileD by (fastforce simp: strip_def lstrip_def)

lemma last_rstrip: "rstrip s \<noteq> [] \<Longrightarrow> \<not> py_space (last (rstrip s))"
  by (simp add: rstrip_def last_rev hd_dropWhile)

lemma rstrip_prefix: "\<exists>w. s = rstrip s @ w \<and> (\<forall>c \<in> set w. py_space c)"
proof
  show "s = rstrip s @ rev (takeWhile py_space (rev s)) \<and>
      (\<forall>c \<in> set (rev (takeWhile py_space (rev s))). py_space c)"
    by (metis rev_append rev_rev_ident rstrip_def set_rev set_takeWhileD takeWhile_dropWhile_id)
qed

lemma hd_strip: "strip s \<noteq> [] \<Longrightarrow> \<not> py_space (hd (strip s))"
proof -
  assume ne: "strip s \<noteq> []"
  obtain w where "lstrip s = strip s @ w" using rstrip_prefix [of "lstrip s"] by (auto simp: strip_def)
  with ne have "hd (strip s) = hd (lstrip s)" and "lstrip s \<noteq> []" by auto
  then show ?thesis by (simp add: lstrip_def hd_dropWhile)
qed

lemma rstrip_id: "s = [] \<or> \<not> py_space (last s) \<Longrightarrow> rstrip s = s"
  by (cases s rule: rev_cases) (auto simp: rstrip_def)

lemma lstrip_id: "s = [] \<or> \<not> py_space (hd s) \<Longrightarrow> lstrip s = s"
  by (cases s) (auto simp: lstrip_def)

lemma strip_idem [simp]: "strip (strip s) = strip s"
proof -
  have "lstrip (strip s) = strip s" using hd_strip [of s] by (intro lstrip_id) blast
  moreover have "rstrip (strip s) = strip s"
    using last_rstrip [of "lstrip s"] unfolding strip_def by (intro rstrip_id) blast
  ultimately show ?thesis by (simp add: strip_def)
qed

section \<open>Case\<close>

definition upper_char :: "char \<Rightarrow> char" where
  "upper_char c = (if (of_char c :: nat) \<in> {97..122} then char_of (of_char c - (32::nat)) else c)"

definition lower_char :: "char \<Rightarrow> char" where
  "lower_char c = (if (of_char c :: nat) \<in> {65..90} then char_of (of_char c + (32::nat)) else c)"

definition upper :: "string \<Rightarrow> string" where "upper = map upper_char"
definition lower :: "string \<Rightarrow> string" where "lower = map lower_char"

lemma upper_char_idem: "upper_char (upper_char c) = upper_char c"
  by (auto simp: upper_char_def of_char_of)

lemma upper_idem [simp]: "upper (upper s) = upper s"
  by (simp add: upper_def upper_char_idem)

section \<open>Splitting\<close>

definition starts_with :: "string \<Rightarrow> string \<Rightarrow> bool" where
  "starts_with p s \<longleftrightarrow> take (length p) s = p"

text \<open>\<open>re.split\<close> at maximal runs of separators.\<close>

function split_runs :: "(char \<Rightarrow> bool) \<Rightarrow> string \<Rightarrow> string list" where
  "split_runs P s =
     (let w = takeWhile (\<lambda>c. \<not> P c) s; r = dropWhile (\<lambda>c. \<not> P c) s
      in if r = [] then [w] else w # split_runs P (dropWhile P r))"
  by pat_completeness auto
termination
proof (relation "measure (\<lambda>(P, s). length s)", goal_cases)
  case (2 P s w r)
  then have ne: "r \<noteq> []" by simp
  with 2 have "P (hd r)" using hd_dropWhile [of "\<lambda>c. \<not> P c" s] by simp
  with ne have "length (dropWhile P r) < length r"
    by (cases r) (auto intro: le_imp_less_Suc length_dropWhile_le)
  also have "length r \<le> length s" using 2 by (simp add: length_dropWhile_le)
  finally show ?case by simp
qed simp

declare split_runs.simps [simp del]

text \<open>\<open>str.splitlines\<close>: a line break ends a line, and there is no empty last line.\<close>

definition line_break :: "char \<Rightarrow> bool" where
  "line_break c \<longleftrightarrow> (of_char c :: nat) \<in> set ([10..<14] @ [28, 29, 30, 133])"

fun lines_from :: "string \<Rightarrow> string \<Rightarrow> string list" where
  "lines_from acc [] = (if acc = [] then [] else [rev acc])"
| "lines_from acc [c] = (if line_break c then [rev acc] else [rev (c # acc)])"
| "lines_from acc (c # d # s) =
     (if c = char_of (13::nat) \<and> d = char_of (10::nat) then rev acc # lines_from [] s
      else if line_break c then rev acc # lines_from [] (d # s)
      else lines_from (c # acc) (d # s))"

definition splitlines :: "string \<Rightarrow> string list" where "splitlines s = lines_from [] s"

text \<open>\<open>str.split(c)\<close>: at every separator, empty pieces kept.\<close>

fun split_on :: "char \<Rightarrow> string \<Rightarrow> string list" where
  "split_on c [] = [[]]"
| "split_on c (d # s) =
     (if d = c then [] # split_on c s
      else case split_on c s of [] \<Rightarrow> [[d]] | w # ws \<Rightarrow> (d # w) # ws)"

text \<open>A regular expression that ends in \<open>$\<close> also matches before a final newline.\<close>

definition newline :: string where "newline = [char_of (10::nat)]"

definition to_dollar :: "(string \<Rightarrow> bool) \<Rightarrow> string \<Rightarrow> bool" where
  "to_dollar P s \<longleftrightarrow> P s \<or> (\<exists>t \<in> set [butlast s]. s = t @ newline \<and> P t)"

section \<open>Dictionaries\<close>

text \<open>\<open>d[k] = v\<close> on a dict: in place, or at the end.\<close>

fun dict_set :: "string \<Rightarrow> 'v \<Rightarrow> (string \<times> 'v) list \<Rightarrow> (string \<times> 'v) list" where
  "dict_set k v [] = [(k, v)]"
| "dict_set k v ((j, w) # kvs) = (if j = k then (k, v) # kvs else (j, w) # dict_set k v kvs)"

lemma map_of_dict_set [simp]: "map_of (dict_set k v kvs) j = (if j = k then Some v else map_of kvs j)"
  by (induction kvs) auto

lemma dict_set_keys: "fst ` set (dict_set k v kvs) = insert k (fst ` set kvs)"
  by (induction k v kvs rule: dict_set.induct) auto

lemma distinct_dict_set: "distinct (map fst kvs) \<Longrightarrow> distinct (map fst (dict_set k v kvs))"
  by (induction kvs) (auto simp: dict_set_keys)

lemma set_dict_set: "(j, w) \<in> set (dict_set k v kvs) \<Longrightarrow> (j, w) \<in> set kvs \<or> j = k \<and> w = v"
  by (induction kvs) (auto split: if_split_asm)

section \<open>Numbers in text\<close>

definition is_digit :: "char \<Rightarrow> bool" where
  "is_digit c \<longleftrightarrow> (of_char c :: nat) \<in> {48..57}"

text \<open>
  Python's number literals may have underscores between digits. They are dropped; text with an
  underscore anywhere else stays, and is no number.
\<close>

fun digit_separators :: "bool \<Rightarrow> string \<Rightarrow> bool" where
  "digit_separators prev [] = True"
| "digit_separators prev (c # cs) =
     (if c = CHR ''_'' then prev \<and> cs \<noteq> [] \<and> is_digit (hd cs) \<and> digit_separators False cs
      else digit_separators (is_digit c) cs)"

definition ungroup :: "string \<Rightarrow> string" where
  "ungroup s = (if digit_separators False s then filter (\<lambda>c. c \<noteq> CHR ''_'') s else s)"

lemma ungroup_plain: "CHR ''_'' \<notin> set s \<Longrightarrow> ungroup s = s"
  by (auto simp: ungroup_def filter_id_conv)

text \<open>
  \<open>float(text)\<close> of decimal text: an optional sign, digits with an
  optional point, an optional exponent, or one of the names of the non-finite values. The
  result is rounded once and overflows to an infinity. \<open>None\<close> is the \<open>ValueError\<close>.
\<close>

datatype py_float = Fin rat | Inf | Neg_inf | NaN

definition signed :: "string \<Rightarrow> bool \<times> string" where
  "signed s = (case s of
      c # r \<Rightarrow> if c = CHR ''-'' then (True, r) else if c = CHR ''+'' then (False, r) else (False, s)
    | [] \<Rightarrow> (False, []))"

definition parse_exponent :: "string \<Rightarrow> int option" where
  "parse_exponent s = (case s of
      [] \<Rightarrow> Some 0
    | c # r \<Rightarrow>
        if c = CHR ''e'' \<or> c = CHR ''E''
        then let (neg, ds) = signed r
             in if ds \<noteq> [] \<and> list_all is_digit ds
                then Some (if neg then - int (val_digits ds) else int (val_digits ds)) else None
        else None)"

definition parse_decimal :: "bool \<Rightarrow> string \<Rightarrow> rat option" where
  "parse_decimal neg s =
     (let ip = takeWhile is_digit s; r = dropWhile is_digit s;
          (fp, r) = (case r of c # q \<Rightarrow> if c = CHR ''.'' then (takeWhile is_digit q, dropWhile is_digit q)
                         else ([], r) | [] \<Rightarrow> ([], []))
      in if ip @ fp = [] then None
         else case parse_exponent r of
           None \<Rightarrow> None
         | Some e \<Rightarrow>
             let x = of_nat (val_digits (ip @ fp)) * 10 powi (e - int (length fp))
             in Some (fl64 (if neg then - x else x)))"

definition overflow :: "rat \<Rightarrow> py_float" where
  "overflow x = (if 2 ^ 1024 \<le> x then Inf else if x \<le> - (2 ^ 1024) then Neg_inf else Fin x)"

definition parse_float :: "string \<Rightarrow> py_float option" where
  "parse_float text =
     (let (neg, s) = signed (ungroup (strip text)); l = lower s
      in if l = ''inf'' \<or> l = ''infinity'' then Some (if neg then Neg_inf else Inf)
         else if l = ''nan'' then Some NaN
         else map_option overflow (parse_decimal neg s))"

lemma parse_float_finite:
  assumes "signed (ungroup (strip text)) = (neg, s)" and "lower s \<notin> set [''inf'', ''infinity'', ''nan'']"
    and "parse_decimal neg s = Some x" and "\<bar>x\<bar> < 2 ^ 1024"
  shows "parse_float text = Some (Fin x)"
  using assms by (auto simp: parse_float_def overflow_def)

text \<open>\<open>int(text)\<close> of decimal text.\<close>

definition parse_int :: "string \<Rightarrow> int option" where
  "parse_int text =
     (let (neg, ds) = signed (ungroup (strip text))
      in if ds \<noteq> [] \<and> list_all is_digit ds
         then Some (if neg then - int (val_digits ds) else int (val_digits ds)) else None)"

end
