(* ===== verification/Catalog.thy ===== *)
theory Catalog
  imports Store PyText
begin

text \<open>
  \<open>app/catalog.py\<close>: runtime settings, the kill switches and the catalog queries, with the
  setting command of \<open>app/cli.py\<close>. The lemmas say which switches close which operation and
  that a setting reads back what was written.
\<close>

section \<open>Settings\<close>

definition KILL_NEW_ORDERS :: string where "KILL_NEW_ORDERS = ''kill_new_orders''"
definition KILL_PAYMENTS :: string where "KILL_PAYMENTS = ''kill_payments''"
definition KILL_REFILLS :: string where "KILL_REFILLS = ''kill_refills''"
definition KILL_READ_ONLY :: string where "KILL_READ_ONLY = ''read_only''"
definition KILL_MAINTENANCE :: string where "KILL_MAINTENANCE = ''global_maintenance''"
definition SETTING_GLOBAL_MARKUP :: string where "SETTING_GLOBAL_MARKUP = ''global_markup_percent''"
definition SETTING_MIN_MARGIN :: string where "SETTING_MIN_MARGIN = ''min_margin_percent''"

lemmas setting_keys = KILL_NEW_ORDERS_def KILL_PAYMENTS_def KILL_REFILLS_def KILL_READ_ONLY_def
  KILL_MAINTENANCE_def SETTING_GLOBAL_MARKUP_def SETTING_MIN_MARGIN_def

definition get_setting :: "db \<Rightarrow> string \<Rightarrow> string \<Rightarrow> string" where
  "get_setting s key dflt = (case app_settings s key of None \<Rightarrow> dflt | Some v \<Rightarrow> v)"

definition set_setting :: "string \<Rightarrow> string \<Rightarrow> db \<Rightarrow> db" where
  "set_setting key val s = s\<lparr>app_settings := (app_settings s)(key \<mapsto> val)\<rparr>"

lemma get_set_setting:
  "get_setting (set_setting k v s) j d = (if j = k then v else get_setting s j d)"
  by (simp add: get_setting_def set_setting_def)

text \<open>
  \<open>_setting_float\<close> of \<open>app/pricing.py\<close>: the default stands in for a missing or
  unreadable value.
\<close>

definition setting_float :: "db \<Rightarrow> string \<Rightarrow> rat \<Rightarrow> py_float" where
  "setting_float s key dflt =
     (case app_settings s key of
        None \<Rightarrow> Fin dflt
      | Some v \<Rightarrow> (case parse_float v of None \<Rightarrow> Fin dflt | Some x \<Rightarrow> x))"

text \<open>
  \<open>cmd_set_setting\<close> of \<open>app/cli.py\<close>: the key must be settable, and a percentage must be a
  number that is neither below 0 nor above 1000 (comparisons with NaN are false).
\<close>

definition SETTABLE :: "string list" where
  "SETTABLE = [''payment_instructions'', ''support_url'', ''brand_name'', SETTING_GLOBAL_MARKUP,
     SETTING_MIN_MARGIN]"

fun below_0_or_above_1000 :: "py_float \<Rightarrow> bool" where
  "below_0_or_above_1000 (Fin x) = (x < 0 \<or> 1000 < x)"
| "below_0_or_above_1000 Inf = True"
| "below_0_or_above_1000 Neg_inf = True"
| "below_0_or_above_1000 NaN = False"

definition cmd_set_setting :: "string \<Rightarrow> string \<Rightarrow> db \<Rightarrow> db res" where
  "cmd_set_setting key val s =
     (if key \<notin> set SETTABLE then Inl (OtherError ''Settable keys'')
      else if key \<in> {SETTING_GLOBAL_MARKUP, SETTING_MIN_MARGIN} \<and>
        (case parse_float val of None \<Rightarrow> True | Some x \<Rightarrow> below_0_or_above_1000 x)
      then Inl (OtherError ''Value must be a number between 0 and 1000'')
      else Inr (audit ''cli'' ''setting.set'' (Some key) None
        (s\<lparr>app_settings := (app_settings s)(key \<mapsto> val)\<rparr>)))"

section \<open>Kill switches\<close>

definition is_kill_on :: "db \<Rightarrow> string \<Rightarrow> bool" where
  "is_kill_on s key \<longleftrightarrow> strip (get_setting s key ''0'') \<in> set [''1'', ''true'', ''True'', ''yes'']"

definition kill_switches :: "db \<Rightarrow> (string \<times> bool) list" where
  "kill_switches s =
     map (\<lambda>key. (key, is_kill_on s key))
       [KILL_NEW_ORDERS, KILL_PAYMENTS, KILL_REFILLS, KILL_READ_ONLY, KILL_MAINTENANCE]"

definition assert_orders_open :: "db \<Rightarrow> unit res" where
  "assert_orders_open s =
     (if is_kill_on s KILL_MAINTENANCE
      then Inl (PermissionError ''FALARON is in maintenance. Please try again later.'')
      else if is_kill_on s KILL_READ_ONLY
      then Inl (PermissionError ''The platform is in read-only mode.'')
      else if is_kill_on s KILL_NEW_ORDERS
      then Inl (PermissionError ''New orders are temporarily paused.'')
      else Inr ())"

definition assert_payments_open :: "db \<Rightarrow> unit res" where
  "assert_payments_open s =
     (if is_kill_on s KILL_MAINTENANCE \<or> is_kill_on s KILL_READ_ONLY \<or> is_kill_on s KILL_PAYMENTS
      then Inl (PermissionError ''Deposits are temporarily paused.'') else Inr ())"

definition assert_refills_open :: "db \<Rightarrow> unit res" where
  "assert_refills_open s =
     (if is_kill_on s KILL_MAINTENANCE \<or> is_kill_on s KILL_READ_ONLY \<or> is_kill_on s KILL_REFILLS
      then Inl (PermissionError ''Refills are temporarily paused.'') else Inr ())"

lemma orders_open_iff:
  "assert_orders_open s = Inr () \<longleftrightarrow>
     \<not> is_kill_on s KILL_MAINTENANCE \<and> \<not> is_kill_on s KILL_READ_ONLY \<and> \<not> is_kill_on s KILL_NEW_ORDERS"
  by (simp add: assert_orders_open_def)

lemma payments_open_iff:
  "assert_payments_open s = Inr () \<longleftrightarrow>
     \<not> is_kill_on s KILL_MAINTENANCE \<and> \<not> is_kill_on s KILL_READ_ONLY \<and> \<not> is_kill_on s KILL_PAYMENTS"
  by (simp add: assert_payments_open_def)

lemma refills_open_iff:
  "assert_refills_open s = Inr () \<longleftrightarrow>
     \<not> is_kill_on s KILL_MAINTENANCE \<and> \<not> is_kill_on s KILL_READ_ONLY \<and> \<not> is_kill_on s KILL_REFILLS"
  by (simp add: assert_refills_open_def)

section \<open>Catalog queries\<close>

definition get_service :: "db \<Rightarrow> string \<Rightarrow> service_row option" where
  "get_service s sid = services s sid"

text \<open>The \<open>provider\<close> relationship of a service.\<close>

definition service_provider :: "db \<Rightarrow> service_row \<Rightarrow> provider_row option" where
  "service_provider s svc = providers s (s_provider_id svc)"

definition service_category :: "db \<Rightarrow> service_row \<Rightarrow> category_row option" where
  "service_category s svc = categories s (s_category_id svc)"

text \<open>
  \<open>featured_stars\<close>: the active global stars whose service is active, with the service.
\<close>

definition featured_stars :: "db \<Rightarrow> (star_price \<times> service_row) list" where
  "featured_stars s =
     List.map_filter (\<lambda>st. case services s (star_service_id st) of
         None \<Rightarrow> None
       | Some svc \<Rightarrow> if star_is_active st \<and> star_user_id st = None \<and> s_is_active svc
           then Some (st, svc) else None) (star_prices s)"

end
