(* ===== verification/Pricing.thy ===== *)
theory Pricing
  imports Catalog
begin

text \<open>
  \<open>app/pricing.py\<close>: the sell-rate hierarchy, coupons and the quote. The theory shows that no
  quote is below the provider cost, that the configured margin survives a coupon, and how the
  parts of a quote add up.
\<close>

section \<open>Sell rate\<close>

text \<open>\<open>scalar_one_or_none\<close> raises when a query has more than one row.\<close>

definition one_or_none :: "'a list \<Rightarrow> 'a option res" where
  "one_or_none rows = (case rows of [] \<Rightarrow> Inr None | [r] \<Rightarrow> Inr (Some r)
     | _ \<Rightarrow> Inl (OtherError ''MultipleResultsFound''))"

text \<open>
  A percentage from the settings meets \<open>math.ceil\<close>, which raises on a non-finite value: for
  the global markup always, for the minimum margin (first raised to at least zero) unless it
  is minus infinity.
\<close>

fun finite_markup :: "py_float \<Rightarrow> rat res" where
  "finite_markup (Fin x) = Inr x"
| "finite_markup NaN = Inl (ValueError ''cannot convert float NaN to integer'')"
| "finite_markup _ = Inl (OtherError ''OverflowError'')"

fun finite_margin :: "py_float \<Rightarrow> rat res" where
  "finite_margin (Fin x) = Inr x"
| "finite_margin Neg_inf = Inr 0"
| "finite_margin NaN = Inl (ValueError ''cannot convert float NaN to integer'')"
| "finite_margin Inf = Inl (OtherError ''OverflowError'')"

definition find_star :: "db \<Rightarrow> string \<Rightarrow> int option \<Rightarrow> star_price option res" where
  "find_star s sid uid =
     one_or_none (filter (\<lambda>st. star_service_id st = sid \<and> star_user_id st = uid \<and> star_is_active st)
       (star_prices s))"

type_synonym sell_rate = "int \<times> string \<times> rat \<times> int"

text \<open>One markup layer: it applies when either of its two columns is set.\<close>

definition layer_rate ::
  "int \<Rightarrow> rat \<Rightarrow> string \<Rightarrow> rat option \<Rightarrow> int option \<Rightarrow> sell_rate option" where
  "layer_rate cost min_margin layer percent fixed =
     (if percent = None \<and> fixed = None then None
      else Some (enforce_min_margin cost (apply_markup cost percent fixed) min_margin, layer,
             case percent of None \<Rightarrow> 0 | Some p \<Rightarrow> p, case fixed of None \<Rightarrow> 0 | Some f \<Rightarrow> f))"

text \<open>Layers two to five: service, category, provider, global.\<close>

definition layered_rate :: "db \<Rightarrow> service_row \<Rightarrow> rat \<Rightarrow> sell_rate res" where
  "layered_rate s svc min_margin =
     (let cost = rate_per_1000_paise svc
      in case layer_rate cost min_margin ''service'' (s_markup_percent svc) (s_markup_fixed_paise svc) of
           Some r \<Rightarrow> Inr r
         | None \<Rightarrow>
         (case Option.bind (service_category s svc) (\<lambda>c.
             layer_rate cost min_margin ''category'' (c_markup_percent c) (c_markup_fixed_paise c)) of
           Some r \<Rightarrow> Inr r
         | None \<Rightarrow>
         (case Option.bind (service_provider s svc) (\<lambda>p.
             layer_rate cost min_margin ''provider'' (p_markup_percent p) (p_markup_fixed_paise p)) of
           Some r \<Rightarrow> Inr r
         | None \<Rightarrow>
             e_bind (finite_markup (setting_float s SETTING_GLOBAL_MARKUP 25)) (\<lambda>g.
               Inr (enforce_min_margin cost (apply_markup cost (Some g) (Some 0)) min_margin,
                    ''global'', g, 0)))))"

text \<open>The star price of a service for a user: the user's own, else the global one.\<close>

definition star_for :: "db \<Rightarrow> string \<Rightarrow> int option \<Rightarrow> star_price option res" where
  "star_for s sid user_id =
     e_bind (case user_id of None \<Rightarrow> Inr None | Some u \<Rightarrow> find_star s sid (Some u)) (\<lambda>own.
       case own of Some st \<Rightarrow> Inr (Some st) | None \<Rightarrow> find_star s sid None)"

definition resolve_sell_rate :: "db \<Rightarrow> service_row \<Rightarrow> int option \<Rightarrow> sell_rate res" where
  "resolve_sell_rate s svc user_id =
     e_bind (star_for s (s_id svc) user_id) (\<lambda>star.
     e_bind (finite_margin (setting_float s SETTING_MIN_MARGIN 5)) (\<lambda>min_margin.
       case star of
         Some st \<Rightarrow>
           Inr (enforce_min_margin (rate_per_1000_paise svc) (custom_rate_per_1000_paise st) min_margin,
             ''star'', 0, 0)
       | None \<Rightarrow> layered_rate s svc min_margin))"

section \<open>Coupons\<close>

text \<open>
  \<open>apply_coupon\<close>, at time \<open>now\<close>. The text of the minimum-order message is cut before the
  formatted amount.
\<close>

definition apply_coupon ::
  "db \<Rightarrow> int \<Rightarrow> string option \<Rightarrow> int \<Rightarrow> int \<Rightarrow> (int \<times> string option) res" where
  "apply_coupon s now coupon user_id subtotal =
     (case coupon of None \<Rightarrow> Inr (0, None) | Some text \<Rightarrow>
      if text = [] then Inr (0, None)
      else (case coupons s (upper (strip text)) of
        None \<Rightarrow> Inl (ValueError ''Unknown or inactive coupon'')
      | Some c \<Rightarrow>
        if \<not> cp_is_active c then Inl (ValueError ''Unknown or inactive coupon'')
        else if (case cp_expires_at c of None \<Rightarrow> False | Some t \<Rightarrow> t < now)
        then Inl (ValueError ''Coupon has expired'')
        else if cp_min_order_paise c \<noteq> 0 \<and> subtotal < cp_min_order_paise c
        then Inl (ValueError ''Coupon requires a minimum order'')
        else if (case cp_max_uses c of None \<Rightarrow> False | Some m \<Rightarrow> m \<le> cp_used_count c)
        then Inl (ValueError ''Coupon has reached its usage limit'')
        else if cp_per_user_limit c \<noteq> 0 \<and>
          cp_per_user_limit c \<le> int (length (filter
            (\<lambda>r. r_coupon_code r = cp_code c \<and> r_user_id r = user_id) (redemptions s)))
        then Inl (ValueError ''You have already used this coupon'')
        else
          let discount =
                (if cp_discount_type c = ''percent''
                 then py_floor (f_div (f_mul (f_of_int subtotal) (cp_value c)) 100)
                 else py_trunc (cp_value c))
          in Inr (max 0 (min discount subtotal), Some (cp_code c))))"

section \<open>The quote\<close>

record price_quote =
  q_service_id :: string
  q_quantity :: int
  q_cost_per_1000_paise :: int
  q_sell_per_1000_paise :: int
  q_cost_paise :: int
  q_subtotal_paise :: int
  q_discount_paise :: int
  q_charge_paise :: int
  q_layer :: string
  q_markup_percent :: rat
  q_markup_fixed_paise :: int
  q_coupon_code :: "string option"
  q_min_qty :: int
  q_max_qty :: int
  q_retail_per_1000_paise :: int
  q_reseller_discount_paise :: int

definition active_reseller :: "db \<Rightarrow> int \<Rightarrow> reseller_row option" where
  "active_reseller s uid =
     (case resellers s uid of None \<Rightarrow> None
      | Some r \<Rightarrow> if rs_status r = ''active'' then Some r else None)"

text \<open>
  The margin that the coupon must respect: the setting, and for a reseller at least ten
  percent.
\<close>

definition coupon_margin :: "db \<Rightarrow> bool \<Rightarrow> rat res" where
  "coupon_margin s is_reseller =
     e_bind (finite_margin (setting_float s SETTING_MIN_MARGIN 5)) (\<lambda>m.
       Inr (if is_reseller then max m RESELLER_MIN_MARGIN_PERCENT else m))"

text \<open>The coupon part of the quote: the discount after the cap, and the code to record.\<close>

definition quote_discount ::
  "db \<Rightarrow> int \<Rightarrow> int \<Rightarrow> int \<Rightarrow> int option \<Rightarrow> string option \<Rightarrow> bool \<Rightarrow> int \<Rightarrow> (int \<times> string option) res"
where
  "quote_discount s now cost qty user_id coupon is_reseller subtotal =
     (case user_id of
        None \<Rightarrow> Inr (0, None)
      | Some uid \<Rightarrow>
        if coupon = None \<or> coupon = Some [] then Inr (0, None)
        else e_bind (apply_coupon s now coupon uid subtotal) (\<lambda>(d, applied).
             e_bind (coupon_margin s is_reseller) (\<lambda>m.
               let d = cap_discount_to_floor subtotal d
                         (scale_to_qty (margin_floor_per_1000 cost m) qty)
               in Inr (d, if d \<le> 0 then None else applied))))"

definition quote_order ::
  "db \<Rightarrow> int \<Rightarrow> string \<Rightarrow> int \<Rightarrow> int option \<Rightarrow> string option \<Rightarrow> price_quote res" where
  "quote_order s now service_id qty user_id coupon =
     (case services s service_id of
        None \<Rightarrow> Inl (ValueError ''Service is not available'')
      | Some svc \<Rightarrow>
      if \<not> s_is_active svc then Inl (ValueError ''Service is not available'')
      else if qty < s_min_qty svc \<or> s_max_qty svc < qty
      then Inl (ValueError (''Quantity must be between '' @ str_int (s_min_qty svc) @ '' and ''
             @ str_int (s_max_qty svc)))
      else e_bind (resolve_sell_rate s svc user_id) (\<lambda>(retail, layer, pct, fixed).
        let cost = rate_per_1000_paise svc;
            reseller = Option.bind user_id (active_reseller s);
            sell = (case reseller of None \<Rightarrow> retail
              | Some r \<Rightarrow> apply_reseller_rate cost retail (rs_discount_bp r));
            layer = (if reseller = None then layer else layer @ ''+reseller'');
            cost_paise = scale_to_qty cost qty;
            retail_subtotal = scale_to_qty retail qty;
            subtotal = scale_to_qty sell qty;
            reseller_discount = max 0 (retail_subtotal - subtotal)
        in e_bind
          (quote_discount s now cost qty user_id coupon (reseller \<noteq> None) subtotal)
          (\<lambda>(discount, applied). Inr
            \<lparr>q_service_id = s_id svc, q_quantity = qty, q_cost_per_1000_paise = cost,
             q_sell_per_1000_paise = sell, q_cost_paise = cost_paise,
             q_subtotal_paise = subtotal, q_discount_paise = discount,
             q_charge_paise = max 0 (subtotal - discount), q_layer = layer,
             q_markup_percent = pct, q_markup_fixed_paise = fixed, q_coupon_code = applied,
             q_min_qty = s_min_qty svc, q_max_qty = s_max_qty svc,
             q_retail_per_1000_paise = retail, q_reseller_discount_paise = reseller_discount\<rparr>)))"

section \<open>Facts about the parts\<close>

lemma layer_rate_ge_floor:
  "layer_rate cost m l p f = Some (sell, x) \<Longrightarrow> margin_floor_per_1000 cost m \<le> sell"
  by (auto simp: layer_rate_def enforce_min_margin_ge split: if_splits)

lemma layered_rate_ge_floor:
  "layered_rate s svc m = Inr (sell, x) \<Longrightarrow> margin_floor_per_1000 (rate_per_1000_paise svc) m \<le> sell"
  by (auto simp: layered_rate_def Let_def enforce_min_margin_ge bind_eq_Some_conv
      split: option.split_asm intro: layer_rate_ge_floor)

lemma resolve_sell_rate_ge_floor:
  "resolve_sell_rate s svc uid = Inr (sell, x) \<Longrightarrow>
     \<exists>m. finite_margin (setting_float s SETTING_MIN_MARGIN 5) = Inr m \<and>
       margin_floor_per_1000 (rate_per_1000_paise svc) m \<le> sell"
  by (auto simp: resolve_sell_rate_def enforce_min_margin_ge
      split: option.split_asm intro: layered_rate_ge_floor)

lemma apply_coupon_range:
  "apply_coupon s now c uid sub = Inr (d, applied) \<Longrightarrow> 0 \<le> d \<and> d \<le> max 0 sub"
  by (auto simp: apply_coupon_def Let_def split: option.splits if_splits)

lemma quote_discount_props:
  assumes "quote_discount s now cost qty uid coupon resel sub = Inr (d, applied)"
  shows "0 \<le> d" and "applied \<noteq> None \<Longrightarrow> 0 < d"
    and "d = 0 \<or> (\<exists>m. coupon_margin s resel = Inr m \<and>
      max (scale_to_qty (margin_floor_per_1000 cost m) qty) 0 \<le> sub - d)"
proof -
  have "d = 0 \<and> applied = None \<or>
    (\<exists>m r a. coupon_margin s resel = Inr m \<and> applied = (if d \<le> 0 then None else a) \<and>
      d = cap_discount_to_floor sub r (scale_to_qty (margin_floor_per_1000 cost m) qty))"
    using assms by (auto simp: quote_discount_def Let_def split: option.split_asm if_split_asm)
  then show "0 \<le> d" and "applied \<noteq> None \<Longrightarrow> 0 < d"
    and "d = 0 \<or> (\<exists>m. coupon_margin s resel = Inr m \<and>
      max (scale_to_qty (margin_floor_per_1000 cost m) qty) 0 \<le> sub - d)"
    using cap_discount_bounds(1) cap_discount_bounds(3)
    by (auto simp: not_le split: if_split_asm) (metis antisym_conv2)+
qed

text \<open>The arithmetic of a successful quote, taken apart once for all theorems.\<close>

definition is_reseller :: "db \<Rightarrow> int option \<Rightarrow> bool" where
  "is_reseller s uid \<longleftrightarrow> Option.bind uid (active_reseller s) \<noteq> None"

definition quoted :: "db \<Rightarrow> int \<Rightarrow> string \<Rightarrow> int \<Rightarrow> int option \<Rightarrow> string option \<Rightarrow> price_quote \<Rightarrow>
    service_row \<Rightarrow> bool" where
  "quoted s now sid qty uid coupon q svc \<longleftrightarrow>
     services s sid = Some svc \<and> s_is_active svc \<and> s_min_qty svc \<le> qty \<and> qty \<le> s_max_qty svc \<and>
     q_cost_per_1000_paise q = rate_per_1000_paise svc \<and> q_quantity q = qty \<and>
     q_cost_paise q = scale_to_qty (rate_per_1000_paise svc) qty \<and>
     (\<exists>x. resolve_sell_rate s svc uid = Inr (q_retail_per_1000_paise q, x)) \<and>
     q_sell_per_1000_paise q = (case Option.bind uid (active_reseller s) of
         None \<Rightarrow> q_retail_per_1000_paise q
       | Some r \<Rightarrow> apply_reseller_rate (rate_per_1000_paise svc) (q_retail_per_1000_paise q)
           (rs_discount_bp r)) \<and>
     q_subtotal_paise q = scale_to_qty (q_sell_per_1000_paise q) qty \<and>
     q_charge_paise q = max 0 (q_subtotal_paise q - q_discount_paise q) \<and>
     q_reseller_discount_paise q =
       max 0 (scale_to_qty (q_retail_per_1000_paise q) qty - q_subtotal_paise q) \<and>
     quote_discount s now (rate_per_1000_paise svc) qty uid coupon (is_reseller s uid)
       (q_subtotal_paise q) = Inr (q_discount_paise q, q_coupon_code q)"

lemma quote_order_quoted:
  assumes "quote_order s now sid qty uid coupon = Inr q"
  shows "\<exists>svc. quoted s now sid qty uid coupon q svc"
  using assms unfolding quote_order_def
  by (auto simp: Let_def is_reseller_def quoted_def split: option.split_asm if_split_asm)

lemma quote_discount_no_coupon: "quote_discount s now c qty uid None r sub = Inr (0, None)"
  by (simp add: quote_discount_def split: option.split)

section \<open>Properties of a quote\<close>

text \<open>The margin the shop promises on a quote to a user: the setting, or ten for a reseller.\<close>

definition promised_margin :: "db \<Rightarrow> int option \<Rightarrow> rat \<Rightarrow> rat" where
  "promised_margin s uid m = (if is_reseller s uid then RESELLER_MIN_MARGIN_PERCENT else m)"

lemma quoted_sell_ge_floor:
  assumes "quoted s now sid qty uid coupon q svc"
    and "finite_margin (setting_float s SETTING_MIN_MARGIN 5) = Inr m"
  shows "margin_floor_per_1000 (q_cost_per_1000_paise q) (promised_margin s uid m)
    \<le> q_sell_per_1000_paise q"
  using assms resolve_sell_rate_ge_floor [of s svc uid "q_retail_per_1000_paise q"]
  by (auto simp: quoted_def promised_margin_def is_reseller_def apply_reseller_rate_ge_floor
      split: option.splits)

lemma quoted_charge_ge_floor:
  assumes q: "quoted s now sid qty uid coupon q svc"
    and m: "finite_margin (setting_float s SETTING_MIN_MARGIN 5) = Inr m"
    and cost: "0 \<le> q_cost_per_1000_paise q"
  shows "scale_to_qty
      (margin_floor_per_1000 (q_cost_per_1000_paise q) (promised_margin s uid m)) qty
    \<le> q_charge_paise q"
proof (cases "q_discount_paise q = 0")
  case True
  then show ?thesis
    using scale_to_qty_mono [OF quoted_sell_ge_floor [OF q m], of qty] q
    by (simp add: quoted_def)
next
  case False
  let ?c = "q_cost_per_1000_paise q"
  obtain m' where "coupon_margin s (is_reseller s uid) = Inr m'"
    and le: "scale_to_qty (margin_floor_per_1000 ?c m') qty
      \<le> q_subtotal_paise q - q_discount_paise q"
    using False q quote_discount_props(3) [of s now ?c qty uid coupon]
    by (fastforce simp: quoted_def)
  then have "promised_margin s uid m \<le> m'"
    using m by (auto simp: coupon_margin_def promised_margin_def split: if_splits)
  then have "scale_to_qty (margin_floor_per_1000 ?c (promised_margin s uid m)) qty
      \<le> scale_to_qty (margin_floor_per_1000 ?c m') qty"
    by (intro scale_to_qty_mono margin_floor_mono_margin cost)
  with le q show ?thesis by (simp add: quoted_def)
qed

text \<open>
  C10: A quote never loses money and keeps the promised margin. Whatever the catalogue, the
  settings, the star prices, the coupon and the reseller discount are, a quote that is given
  charges at least what the provider will take for it, and at least the margin floor: the
  minimum margin of the settings for a customer, ten percent for an active reseller.
\<close>

theorem quote_keeps_margin:
  assumes "quote_order s now sid qty uid coupon = Inr q"
    and "finite_margin (setting_float s SETTING_MIN_MARGIN 5) = Inr m"
    and "0 \<le> q_cost_per_1000_paise q"
  shows "q_cost_paise q \<le> q_charge_paise q \<and>
    scale_to_qty
        (margin_floor_per_1000 (q_cost_per_1000_paise q) (promised_margin s uid m)) qty
      \<le> q_charge_paise q"
proof -
  obtain svc where q: "quoted s now sid qty uid coupon q svc"
    using quote_order_quoted [OF assms(1)] by blast
  have floor: "scale_to_qty
      (margin_floor_per_1000 (q_cost_per_1000_paise q) (promised_margin s uid m)) qty
    \<le> q_charge_paise q"
    using q assms by (intro quoted_charge_ge_floor)
  have "scale_to_qty (q_cost_per_1000_paise q) qty \<le> q_charge_paise q"
    using scale_to_qty_mono [OF margin_floor_ge_cost] floor by (rule order_trans)
  with q floor show ?thesis by (simp add: quoted_def)
qed

section \<open>A sample shop\<close>

definition sample_service :: service_row where
  "sample_service =
     \<lparr>s_id = ''s1'', s_category_id = ''c1'', s_provider_id = ''p1'', s_provider_service_id = ''7'',
      s_name = ''Likes'', s_description = None, s_service_type = ''default'', s_min_qty = 10,
      s_max_qty = 10000, rate_per_1000_paise = 1000, s_markup_percent = Some 50,
      s_markup_fixed_paise = None, s_is_active = True, s_is_refillable = True,
      s_is_cancelable = True, s_average_time = None, s_external_name = None,
      s_external_category = None, s_is_removed_upstream = False, s_last_synced_at = None\<rparr>"

definition sample_coupon :: coupon_row where
  "sample_coupon =
     \<lparr>cp_code = ''HALF'', cp_discount_type = ''percent'', cp_value = 50, cp_max_uses = Some 3,
      cp_used_count = 0, cp_per_user_limit = 1, cp_min_order_paise = 0, cp_is_active = True,
      cp_expires_at = None\<rparr>"

definition sample_shop :: db where
  "sample_shop = empty_db\<lparr>services := [''s1'' \<mapsto> sample_service],
     coupons := [''HALF'' \<mapsto> sample_coupon], users := [7 \<mapsto> new_user 7]\<rparr>"

lemma sample_arith:
  "margin_floor_per_1000 1000 5 = 1050" "margin_floor_per_1000 1000 10 = 1100"
  "apply_markup 1000 (Some 50) None = 1500" "scale_to_qty 1000 2000 = 2000"
  "scale_to_qty 1050 2000 = 2100" "scale_to_qty 1500 2000 = 3000"
  "py_floor (f_div (f_mul (f_of_int 3000) 50) 100) = 1500"
  "upper (strip ''half'') = ''HALF''"
  by code_simp+

lemma sample_shop_fields [simp]:
  "services sample_shop = [''s1'' \<mapsto> sample_service]"
  "coupons sample_shop = [''HALF'' \<mapsto> sample_coupon]"
  "star_prices sample_shop = []" "resellers sample_shop = Map.empty"
  "redemptions sample_shop = []" "app_settings sample_shop = Map.empty"
  by (simp_all add: sample_shop_def empty_db_def)

lemma sample_rate: "resolve_sell_rate sample_shop sample_service (Some 7) = Inr (1500, ''service'', 50, 0)"
proof -
  have st: "find_star sample_shop sid u = Inr None" for sid u
    by (simp add: find_star_def one_or_none_def)
  show ?thesis
    by (simp add: resolve_sell_rate_def star_for_def st setting_float_def sample_service_def
      layered_rate_def layer_rate_def enforce_min_margin_def sample_arith)
qed

lemma sample_discount:
  "quote_discount sample_shop 0 1000 2000 (Some 7) (Some ''half'') False 3000 =
     Inr (900, Some ''HALF'')"
proof -
  have "apply_coupon sample_shop 0 (Some ''half'') 7 3000 = Inr (1500, Some ''HALF'')"
    by (simp add: apply_coupon_def sample_coupon_def sample_arith)
  moreover have "coupon_margin sample_shop False = Inr 5"
    by (simp add: coupon_margin_def setting_float_def)
  ultimately show ?thesis
    by (simp add: quote_discount_def cap_discount_to_floor_def sample_arith)
qed

lemma sample_quote:
  "quote_order sample_shop 0 ''s1'' 2000 (Some 7) (Some ''half'') =
     Inr \<lparr>q_service_id = ''s1'', q_quantity = 2000, q_cost_per_1000_paise = 1000,
       q_sell_per_1000_paise = 1500, q_cost_paise = 2000, q_subtotal_paise = 3000,
       q_discount_paise = 900, q_charge_paise = 2100, q_layer = ''service'',
       q_markup_percent = 50, q_markup_fixed_paise = 0, q_coupon_code = Some ''HALF'',
       q_min_qty = 10, q_max_qty = 10000, q_retail_per_1000_paise = 1500,
       q_reseller_discount_paise = 0\<rparr>"
proof -
  have "services sample_shop ''s1'' = Some sample_service" by simp
  moreover have "s_is_active sample_service" "s_min_qty sample_service = 10"
    "s_max_qty sample_service = 10000" "rate_per_1000_paise sample_service = 1000"
    "s_id sample_service = ''s1''"
    by (simp_all add: sample_service_def)
  ultimately show ?thesis
    by (simp add: quote_order_def sample_rate sample_discount sample_arith active_reseller_def)
qed
theorem quote_keeps_margin_witness:
  "\<exists>q. quote_order sample_shop 0 ''s1'' 2000 (Some 7) (Some ''half'') = Inr q \<and>
     q_coupon_code q = Some ''HALF'' \<and> q_cost_paise q \<le> q_charge_paise q \<and> q_charge_paise q = 2100"
proof -
  have "finite_margin (setting_float sample_shop SETTING_MIN_MARGIN 5) = Inr 5"
    by (simp add: setting_float_def)
  then show ?thesis using quote_keeps_margin [OF sample_quote, of 5] sample_quote by auto
qed

section \<open>Further properties\<close>

text \<open>
  The parts of a quote add up. The charge is the subtotal less the discount, both are exact
  scalings as long as the product of rate and quantity stays below \<open>2 ^ 53\<close>, the discount never
  exceeds the subtotal, and a coupon is recorded only if it took something off the price.
\<close>

theorem quote_adds_up:
  assumes "quote_order s now sid qty uid coupon = Inr q"
    and "0 \<le> q_cost_per_1000_paise q" and "0 < qty" and "q_sell_per_1000_paise q * qty < 2 ^ 53"
  shows "q_charge_paise q = q_subtotal_paise q - q_discount_paise q \<and>
    q_subtotal_paise q = (q_sell_per_1000_paise q * qty + 999) div 1000 \<and>
    0 \<le> q_discount_paise q \<and> q_discount_paise q \<le> q_subtotal_paise q \<and>
    (q_coupon_code q \<noteq> None \<longrightarrow> 0 < q_discount_paise q)"
proof -
  obtain svc where q: "quoted s now sid qty uid coupon q svc"
    using quote_order_quoted [OF assms(1)] by blast
  obtain x where x: "resolve_sell_rate s svc uid = Inr (q_retail_per_1000_paise q, x)"
    and c: "q_cost_per_1000_paise q = rate_per_1000_paise svc"
    using q by (auto simp: quoted_def)
  obtain m where "margin_floor_per_1000 (rate_per_1000_paise svc) m \<le> q_retail_per_1000_paise q"
    using resolve_sell_rate_ge_floor [OF x] by blast
  then have retail: "q_cost_per_1000_paise q \<le> q_retail_per_1000_paise q"
    using margin_floor_ge_cost [of "rate_per_1000_paise svc" m] c by linarith
  have "q_cost_per_1000_paise q \<le> q_sell_per_1000_paise q"
    using q retail by (auto simp: quoted_def apply_reseller_rate_ge_cost split: option.splits)
  then have sell: "0 \<le> q_sell_per_1000_paise q" using assms(2) by simp
  have exact: "q_subtotal_paise q = scale_exact (q_sell_per_1000_paise q) qty"
    using q scale_to_qty_eq_exact [OF sell assms(3,4)] by (simp add: quoted_def)
  have sub: "0 \<le> q_subtotal_paise q"
    using q scale_to_qty_nonneg [OF sell] by (simp add: quoted_def)
  have d: "quote_discount s now (rate_per_1000_paise svc) qty uid coupon (is_reseller s uid)
      (q_subtotal_paise q) = Inr (q_discount_paise q, q_coupon_code q)"
    and charge: "q_charge_paise q = max 0 (q_subtotal_paise q - q_discount_paise q)"
    using q by (auto simp: quoted_def)
  have "q_discount_paise q \<le> q_subtotal_paise q"
    using quote_discount_props(3) [OF d] sub by auto
  then show ?thesis
    using quote_discount_props(1,2) [OF d] exact charge by (auto simp: scale_exact_def)
qed

theorem quote_adds_up_witness:
  "\<exists>q. quote_order sample_shop 0 ''s1'' 2000 (Some 7) (Some ''half'') = Inr q \<and>
     q_charge_paise q = q_subtotal_paise q - q_discount_paise q \<and> q_discount_paise q = 900"
  using quote_adds_up [OF sample_quote] sample_quote by auto

text \<open>The markup hierarchy as a list of candidates, nearest first.\<close>

definition markup_columns ::
  "db \<Rightarrow> service_row \<Rightarrow> (string \<times> rat option \<times> int option) list" where
  "markup_columns s svc =
     (''service'', s_markup_percent svc, s_markup_fixed_paise svc) #
     (case service_category s svc of None \<Rightarrow> []
      | Some c \<Rightarrow> [(''category'', c_markup_percent c, c_markup_fixed_paise c)]) @
     (case service_provider s svc of None \<Rightarrow> []
      | Some p \<Rightarrow> [(''provider'', p_markup_percent p, p_markup_fixed_paise p)])"

text \<open>
  The price hierarchy of the module's documentation. An active star price of the user, else
  the global one, decides the rate; without a star the first of service, category and provider
  that sets a markup decides, else the global markup. Whichever applies is raised to the
  minimum margin.
\<close>

theorem sell_rate_hierarchy:
  assumes "star_for s (s_id svc) uid = Inr star"
    and "finite_margin (setting_float s SETTING_MIN_MARGIN 5) = Inr m"
    and "finite_markup (setting_float s SETTING_GLOBAL_MARKUP 25) = Inr g"
  shows "resolve_sell_rate s svc uid = Inr
    (case star of
       Some st \<Rightarrow> (max (custom_rate_per_1000_paise st)
           (margin_floor_per_1000 (rate_per_1000_paise svc) m), ''star'', 0, 0)
     | None \<Rightarrow>
        (case find (\<lambda>(l, p, f). p \<noteq> None \<or> f \<noteq> None) (markup_columns s svc @ [(''global'', Some g, Some 0)]) of
           Some (l, p, f) \<Rightarrow>
             (max (apply_markup (rate_per_1000_paise svc) p f)
               (margin_floor_per_1000 (rate_per_1000_paise svc) m), l,
              case p of None \<Rightarrow> 0 | Some x \<Rightarrow> x, case f of None \<Rightarrow> 0 | Some x \<Rightarrow> x)
         | None \<Rightarrow> undefined))"
  using assms
  by (auto simp: resolve_sell_rate_def layered_rate_def layer_rate_def enforce_min_margin_def
      markup_columns_def Let_def split: option.splits)

theorem sell_rate_hierarchy_witness:
  "\<exists>r. resolve_sell_rate sample_shop sample_service (Some 7) = Inr (r, ''service'', 50, 0) \<and> r = 1500"
proof -
  have st: "star_for sample_shop (s_id sample_service) (Some 7) = Inr None"
    by (simp add: star_for_def find_star_def one_or_none_def)
  have m: "finite_margin (setting_float sample_shop SETTING_MIN_MARGIN 5) = Inr 5"
    and g: "finite_markup (setting_float sample_shop SETTING_GLOBAL_MARKUP 25) = Inr 25"
    by (simp_all add: setting_float_def)
  have "resolve_sell_rate sample_shop sample_service (Some 7) =
    Inr (max (apply_markup 1000 (Some 50) None) (margin_floor_per_1000 1000 5), ''service'', 50, 0)"
    using sell_rate_hierarchy [OF st m g] by (simp add: markup_columns_def sample_service_def)
  then show ?thesis by (simp add: sample_arith)
qed

text \<open>
  An unusable setting closes the shop. \<open>set-setting\<close> accepts the text of a NaN for the
  minimum margin, and from then on every quote raises, whatever is asked for.
\<close>

theorem nan_margin_blocks_quotes:
  "\<exists>s'. cmd_set_setting SETTING_MIN_MARGIN ''nan'' s = Inr s' \<and>
     (\<exists>e. quote_order s' now sid qty uid coupon = Inl e)"
proof -
  let ?s = "audit ''cli'' ''setting.set'' (Some SETTING_MIN_MARGIN) None
    (s\<lparr>app_settings := (app_settings s)(SETTING_MIN_MARGIN \<mapsto> ''nan'')\<rparr>)"
  have nan: "parse_float ''nan'' = Some NaN" by code_simp
  then have set: "cmd_set_setting SETTING_MIN_MARGIN ''nan'' s = Inr ?s"
    by (simp add: cmd_set_setting_def SETTABLE_def)
  have "finite_margin (setting_float ?s SETTING_MIN_MARGIN 5)
      = Inl (ValueError ''cannot convert float NaN to integer'')"
    by (simp add: setting_float_def audit_def nan)
  then have "resolve_sell_rate ?s svc uid \<noteq> Inr r" for svc r
    by (auto simp: resolve_sell_rate_def)
  then have "quote_order ?s now sid qty uid coupon \<noteq> Inr q" for q
    by (auto simp: quote_order_def split: option.split_asm if_split_asm)
  then show ?thesis using set by (cases "quote_order ?s now sid qty uid coupon") auto
qed

definition reseller_shop :: db where
  "reseller_shop = sample_shop\<lparr>app_settings := [SETTING_MIN_MARGIN \<mapsto> ''20''],
     services := [''s1'' \<mapsto> sample_service\<lparr>s_markup_percent := Some 20\<rparr>],
     resellers := [7 \<mapsto> \<lparr>rs_tier = ''bronze'', rs_discount_bp = 1200, rs_status = ''active''\<rparr>]\<rparr>"

lemma reseller_arith:
  "apply_markup 1000 (Some 20) None = 1200" "margin_floor_per_1000 1000 20 = 1200"
  "apply_reseller_rate 1000 1200 1200 = 1100" "scale_to_qty 1200 1000 = 1200"
  "scale_to_qty 1100 1000 = 1100" "scale_to_qty 1000 1000 = 1000"
  by code_simp+

lemma parse_float_20: "parse_float ''20'' = Some (Fin 20)"
proof (rule parse_float_finite)
  show "signed (ungroup (strip ''20'')) = (False, ''20'')" by code_simp
  show "parse_decimal False ''20'' = Some 20" by code_simp
  show "lower ''20'' \<notin> set [''inf'', ''infinity'', ''nan'']" by code_simp
qed simp

text \<open>
  The floor of a reseller is ten percent even where the shop's minimum margin is higher: with a
  minimum margin of twenty percent, a reseller's quote lies below the floor that the settings ask for.
\<close>

theorem reseller_below_shop_margin:
  "finite_margin (setting_float reseller_shop SETTING_MIN_MARGIN 5) = Inr 20 \<and>
   (\<exists>q. quote_order reseller_shop 0 ''s1'' 1000 (Some 7) None = Inr q \<and>
     q_charge_paise q = 1100 \<and>
     scale_to_qty (margin_floor_per_1000 (q_cost_per_1000_paise q) 20) 1000 = 1200)"
proof -
  let ?svc = "sample_service\<lparr>s_markup_percent := Some 20\<rparr>"
  have fields: "services reseller_shop = [''s1'' \<mapsto> ?svc]" "star_prices reseller_shop = []"
    "resellers reseller_shop =
       [7 \<mapsto> \<lparr>rs_tier = ''bronze'', rs_discount_bp = 1200, rs_status = ''active''\<rparr>]"
    "app_settings reseller_shop = [SETTING_MIN_MARGIN \<mapsto> ''20'']"
    by (simp_all add: reseller_shop_def)
  have margin: "setting_float reseller_shop SETTING_MIN_MARGIN 5 = Fin 20"
    by (simp add: setting_float_def fields parse_float_20)
  have star: "find_star reseller_shop sid u = Inr None" for sid u
    by (simp add: find_star_def one_or_none_def fields)
  have rate: "resolve_sell_rate reseller_shop ?svc (Some 7) = Inr (1200, ''service'', 20, 0)"
    by (simp add: resolve_sell_rate_def star_for_def star margin layered_rate_def layer_rate_def
        enforce_min_margin_def sample_service_def reseller_arith)
  have svc: "s_is_active ?svc" "s_min_qty ?svc = 10" "s_max_qty ?svc = 10000"
    "rate_per_1000_paise ?svc = 1000" "s_id ?svc = ''s1''"
    by (simp_all add: sample_service_def)
  have lookup: "services reseller_shop ''s1'' = Some ?svc" by (simp add: fields)
  show ?thesis
    using margin by (simp add: quote_order_def lookup rate svc quote_discount_no_coupon
        active_reseller_def fields reseller_arith)
qed

end
