(* ===== verification/Referrals.thy ===== *)
theory Referrals
  imports Wallet Pricing
begin

text \<open>
  \<open>app/referrals.py\<close>: referral codes and attribution, the partner rows of resellers and
  promoters, the two commissions, applications and payouts. A function of the code that takes a
  \<open>User\<close> takes its key here and reads the row of the session. Queries see what has been flushed
  (the sessions run with \<open>autoflush=False\<close>). The lemmas show that attribution is given once and
  never to oneself, that each commission is paid at most once and what its amount is, and what a
  payout takes from the wallet.
\<close>

section \<open>Referral codes\<close>

definition REF_ALPHABET :: string where
  "REF_ALPHABET = ''ABCDEFGHJKLMNPQRSTUVWXYZ23456789''"

text \<open>\<open>D\<close> is the raw SHA-256 digest of a text, a list of 32 byte values.\<close>

definition make_referral_code :: "(string \<Rightarrow> nat list) \<Rightarrow> int \<Rightarrow> string" where
  "make_referral_code D tid =
     map (\<lambda>b. REF_ALPHABET ! (b mod length REF_ALPHABET))
       (take 6 (D (''falaron-ref:'' @ str_int tid)))"

definition ensure_referral_code ::
  "(string \<Rightarrow> nat list) \<Rightarrow> int \<Rightarrow> db \<Rightarrow> (string \<times> db) res" where
  "ensure_referral_code D uid s =
     e_bind (lock_user uid s) (\<lambda>user.
       case u_referral_code user of
         Some (c # cs) \<Rightarrow> Inr (c # cs, s)
       | _ \<Rightarrow>
         let code = make_referral_code D uid;
             others = filter (\<lambda>v. telegram_id v \<noteq> uid) (all_users s)
         in e_bind (one_or_none (filter (\<lambda>v. u_referral_code v = Some code) others)) (\<lambda>clash.
              let code = (case clash of None \<Rightarrow> code | Some _ \<Rightarrow> code @ str_int (uid mod 9))
              in if \<exists>v \<in> set others. u_referral_code v = Some code
                 then Inl (IntegrityError ''users.referral_code'')
                 else Inr (code, update_user uid (\<lambda>u. u\<lparr>u_referral_code := Some code\<rparr>) s)))"

definition user_by_referral_code :: "string \<Rightarrow> db \<Rightarrow> user_row option res" where
  "user_by_referral_code code s =
     (let normalized = upper (strip code)
      in if normalized = [] then Inr None
         else one_or_none (filter (\<lambda>v. u_referral_code v = Some normalized) (all_users s)))"

definition record_start_hit :: "string \<Rightarrow> int \<Rightarrow> db \<Rightarrow> (user_row option \<times> db) res" where
  "record_start_hit code visitor s =
     (let code = upper (strip code)
      in if code = [] then Inr (None, s)
         else e_bind (lock_user visitor s) (\<lambda>v.
           e_bind (user_by_referral_code code s) (\<lambda>referrer.
             if (case referrer of None \<Rightarrow> False | Some r \<Rightarrow> telegram_id r = visitor)
             then Inr (None, s)
             else
               let is_new = (u_referred_by v = None \<and> referrer \<noteq> None);
                   s = (if is_new then update_user visitor
                          (\<lambda>u. u\<lparr>u_referred_by := map_option telegram_id referrer\<rparr>) s else s)
               in Inr (referrer, s\<lparr>referral_clicks := referral_clicks s
                    @ [\<lparr>click_code = take 16 code, click_referrer_id = map_option telegram_id referrer,
                        click_visitor_id = visitor, click_is_signup = is_new\<rparr>]\<rparr>))))"

section \<open>Partners\<close>

definition owner_role :: "string \<Rightarrow> bool" where
  "owner_role r \<longleftrightarrow> r \<in> set [''owner'', ''admin'']"

definition ensure_owner_partners :: "int \<Rightarrow> db \<Rightarrow> db res" where
  "ensure_owner_partners uid s =
     e_bind (lock_user uid s) (\<lambda>user.
       if \<not> owner_role (u_role user) then Inr s
       else
         let res = (case resellers s uid of
                 None \<Rightarrow> \<lparr>rs_tier = ''gold'', rs_discount_bp = DEFAULT_RESELLER_DISCOUNT_BP,
                           rs_status = ''active''\<rparr>
               | Some r \<Rightarrow> r\<lparr>rs_status := ''active'',
                   rs_discount_bp := (if rs_discount_bp r = 0 then DEFAULT_RESELLER_DISCOUNT_BP
                                      else rs_discount_bp r)\<rparr>)
         in Inr (s\<lparr>resellers := (resellers s)(uid \<mapsto> res),
                   promoters := (promoters s)(uid \<mapsto> ''active'')\<rparr>))"

definition active_promoter :: "db \<Rightarrow> int \<Rightarrow> bool" where
  "active_promoter s uid \<longleftrightarrow> promoters s uid = Some ''active''"

definition is_reseller_user :: "int \<Rightarrow> int \<Rightarrow> db \<Rightarrow> (bool \<times> db) res" where
  "is_reseller_user owner_id uid s =
     e_bind (lock_user uid s) (\<lambda>user.
       if uid = owner_id \<or> owner_role (u_role user)
       then e_bind (ensure_owner_partners uid s) (\<lambda>s. Inr (True, s))
       else if u_role user = ''reseller'' then Inr (True, s)
       else Inr (active_reseller s uid \<noteq> None, s))"

definition is_promoter_user :: "int \<Rightarrow> int \<Rightarrow> db \<Rightarrow> (bool \<times> db) res" where
  "is_promoter_user owner_id uid s =
     e_bind (lock_user uid s) (\<lambda>user.
       if uid = owner_id \<or> owner_role (u_role user)
       then e_bind (ensure_owner_partners uid s) (\<lambda>s. Inr (True, s))
       else if u_role user = ''promoter'' then Inr (True, s)
       else Inr (active_promoter s uid, s))"

definition partner_flags :: "int \<Rightarrow> int \<Rightarrow> db \<Rightarrow> ((bool \<times> bool) \<times> db) res" where
  "partner_flags owner_id uid s =
     e_bind (is_reseller_user owner_id uid s) (\<lambda>(r, s).
     e_bind (is_promoter_user owner_id uid s) (\<lambda>(p, s). Inr ((r, p), s)))"

section \<open>Commissions\<close>

definition referral_ref :: "string \<Rightarrow> json_object \<Rightarrow> entry_refs" where
  "referral_ref pid meta =
     \<lparr>ref_type = Some ''referral'', ref_id = Some pid, ref_by = None, ref_meta = Some meta\<rparr>"

definition completed_ids :: "db \<Rightarrow> int \<Rightarrow> int list" where
  "completed_ids s uid =
     map o_id (filter (\<lambda>r. o_user_id r = uid \<and> o_status r = Completed) (orders s))"

definition credit_order_commission ::
  "digest \<Rightarrow> order_row \<Rightarrow> db \<Rightarrow> (ledger_entry option \<times> db) res" where
  "credit_order_commission H order s =
     (if o_status order \<noteq> Completed \<or> o_charge_paise order \<le> 0 then Inr (None, s)
      else case Option.bind (users s (o_user_id order)) u_referred_by of
        None \<Rightarrow> Inr (None, s)
      | Some ref_uid \<Rightarrow>
        if o_id order \<notin> set (take REFERRAL_ORDER_CAP (completed_ids s (o_user_id order)))
        then Inr (None, s)
        else if users s ref_uid = None \<or> ref_uid = o_user_id order then Inr (None, s)
        else
          let amount = commission_paise (o_charge_paise order) REFERRAL_ORDER_COMMISSION_PERCENT
          in if amount \<le> 0 then Inr (None, s)
             else e_bind (credit H ref_uid amount (''Referral 8% '' @ o_public_id order)
                 (Some (new_idempotency_key H [''reford'', o_public_id order]))
                 (referral_ref (o_public_id order)
                   [(''kind'', JStr ''order''), (''buyer_id'', JInt (o_user_id order)),
                    (''pct'', JNum REFERRAL_ORDER_COMMISSION_PERCENT)]) s)
               (\<lambda>(entry, s). Inr (Some entry, s)))"

definition paid_count :: "db \<Rightarrow> int \<Rightarrow> nat" where
  "paid_count s uid =
     length (filter (\<lambda>p. pay_user_id p = uid \<and> pay_status p = PAID) (payments s))"

text \<open>
  The query of the deposit commission runs before the payment at hand is flushed as paid:
  \<open>s\<close> is the state in which its row still has the earlier status.
\<close>

definition credit_deposit_commission ::
  "digest \<Rightarrow> int \<Rightarrow> payment_row \<Rightarrow> db \<Rightarrow> (ledger_entry option \<times> db) res" where
  "credit_deposit_commission H buyer payment s =
     (case Option.bind (users s buyer) u_referred_by of
        None \<Rightarrow> Inr (None, s)
      | Some ref_uid \<Rightarrow>
        if pay_amount_paise payment \<le> 0 then Inr (None, s)
        else if 1 < paid_count s buyer then Inr (None, s)
        else if users s ref_uid = None \<or> ref_uid = buyer then Inr (None, s)
        else
          let amount = commission_paise (pay_amount_paise payment) REFERRAL_DEPOSIT_COMMISSION_PERCENT
          in if amount \<le> 0 then Inr (None, s)
             else e_bind (credit H ref_uid amount
                 (''Referral 5% first deposit '' @ pay_public_id payment)
                 (Some (new_idempotency_key H [''refdep'', str_int buyer]))
                 (referral_ref (pay_public_id payment)
                   [(''kind'', JStr ''deposit''), (''buyer_id'', JInt buyer),
                    (''pct'', JNum REFERRAL_DEPOSIT_COMMISSION_PERCENT)]) s)
               (\<lambda>(entry, s). Inr (Some entry, s)))"

section \<open>Snapshots\<close>

record referral_snapshot =
  rsnap_code :: string
  rsnap_invited :: int
  rsnap_earnings_paise :: int
  rsnap_pending_paise :: int
  rsnap_converting :: int

definition downline :: "db \<Rightarrow> int \<Rightarrow> int list" where
  "downline s uid = map telegram_id (filter (\<lambda>v. u_referred_by v = Some uid) (all_users s))"

definition referral_earnings :: "db \<Rightarrow> int \<Rightarrow> int" where
  "referral_earnings s uid =
     sum_list (map e_amount_paise (filter (\<lambda>e. e_user_id e = uid \<and>
       e_reference_type e = Some ''referral'' \<and> e_entry_type e = Credit) (ledger s)))"

definition converting_users :: "db \<Rightarrow> int \<Rightarrow> int" where
  "converting_users s uid = int (length (remdups (map o_user_id
     (filter (\<lambda>r. o_user_id r \<in> set (downline s uid) \<and> o_status r = Completed) (orders s)))))"

text \<open>The loop over the open orders: \<open>used\<close> counts the slots taken per user.\<close>

fun pending_loop :: "(int \<Rightarrow> nat) \<Rightarrow> (int \<Rightarrow> nat) \<Rightarrow> int \<Rightarrow> order_row list \<Rightarrow> int" where
  "pending_loop slots used acc [] = acc"
| "pending_loop slots used acc (r # rs) =
     (if slots (o_user_id r) \<le> used (o_user_id r) then pending_loop slots used acc rs
      else pending_loop slots (used(o_user_id r := used (o_user_id r) + 1))
             (acc + commission_paise (o_charge_paise r) REFERRAL_ORDER_COMMISSION_PERCENT) rs)"

definition pending_commission :: "db \<Rightarrow> int \<Rightarrow> int" where
  "pending_commission s uid =
     pending_loop (\<lambda>v. REFERRAL_ORDER_CAP - length (completed_ids s v)) (\<lambda>_. 0) 0
       (filter (\<lambda>r. o_user_id r \<in> set (downline s uid) \<and> o_status r \<in> set ACTIVE_STATUSES)
         (orders s))"

definition referral_snapshot ::
  "(string \<Rightarrow> nat list) \<Rightarrow> int \<Rightarrow> db \<Rightarrow> (referral_snapshot \<times> db) res" where
  "referral_snapshot D uid s =
     e_bind (ensure_referral_code D uid s) (\<lambda>(code, s). Inr
       (\<lparr>rsnap_code = code, rsnap_invited = int (length (downline s uid)),
         rsnap_earnings_paise = referral_earnings s uid,
         rsnap_pending_paise = pending_commission s uid,
         rsnap_converting = converting_users s uid\<rparr>, s))"

record promoter_snapshot =
  psnap_clicks :: int
  psnap_signups :: int
  psnap_converting :: int
  psnap_commission_paise :: int
  psnap_available_paise :: int
  psnap_code :: string

definition promoter_snapshot ::
  "(string \<Rightarrow> nat list) \<Rightarrow> int \<Rightarrow> db \<Rightarrow> (promoter_snapshot \<times> db) res" where
  "promoter_snapshot D uid s =
     e_bind (ensure_referral_code D uid s) (\<lambda>(code, s).
     e_bind (referral_snapshot D uid s) (\<lambda>(ref, s).
     e_bind (lock_user uid s) (\<lambda>user.
       let clicks = filter (\<lambda>c. click_referrer_id c = Some uid \<or> click_code c = code) (referral_clicks s);
           signups = filter (\<lambda>c. click_referrer_id c = Some uid \<and> click_is_signup c) (referral_clicks s)
       in Inr (\<lparr>psnap_clicks = int (length clicks),
              psnap_signups = max (int (length signups)) (rsnap_invited ref),
              psnap_converting = rsnap_converting ref,
              psnap_commission_paise = rsnap_earnings_paise ref,
              psnap_available_paise = available_paise user, psnap_code = code\<rparr>, s))))"

record reseller_snapshot =
  xsnap_tier :: string
  xsnap_discount_bp :: int
  xsnap_orders :: int
  xsnap_gmv_paise :: int
  xsnap_wallet_paise :: int
  xsnap_downline :: int
  xsnap_status :: string

definition reseller_snapshot :: "int \<Rightarrow> db \<Rightarrow> reseller_snapshot res" where
  "reseller_snapshot uid s =
     e_bind (lock_user uid s) (\<lambda>user.
       let row = resellers s uid;
           mine = filter (\<lambda>r. o_user_id r = uid) (orders s)
       in Inr \<lparr>xsnap_tier = (case row of None \<Rightarrow> ''bronze'' | Some r \<Rightarrow> rs_tier r),
            xsnap_discount_bp =
              (case row of None \<Rightarrow> DEFAULT_RESELLER_DISCOUNT_BP | Some r \<Rightarrow> rs_discount_bp r),
            xsnap_orders = int (length mine),
            xsnap_gmv_paise = sum_list (map o_charge_paise
              (filter (\<lambda>r. o_status r \<notin> set [Failed, Canceled, Cancelled]) mine)),
            xsnap_wallet_paise = available_paise user,
            xsnap_downline = int (length (downline s uid)),
            xsnap_status = (case row of None \<Rightarrow> ''none'' | Some r \<Rightarrow> rs_status r)\<rparr>)"

section \<open>Applications\<close>

definition pending_application :: "int \<Rightarrow> string \<Rightarrow> db \<Rightarrow> role_application option" where
  "pending_application uid kind s =
     find (\<lambda>a. app_user_id a = uid \<and> app_kind a = kind \<and> app_status a = ''pending'')
       (rev (role_applications s))"

definition submit_application ::
  "int \<Rightarrow> string \<Rightarrow> string \<Rightarrow> db \<Rightarrow> role_application \<times> db" where
  "submit_application uid kind pitch s =
     (case pending_application uid kind s of
        Some a \<Rightarrow>
          (a\<lparr>app_pitch := take 2000 pitch\<rparr>,
           s\<lparr>role_applications := upd_by app_id (app_id a) (\<lambda>a. a\<lparr>app_pitch := take 2000 pitch\<rparr>)
               (role_applications s)\<rparr>)
      | None \<Rightarrow>
          let row = \<lparr>app_id = int (length (role_applications s)) + 1, app_user_id = uid,
                app_kind = kind, app_pitch = take 2000 pitch, app_status = ''pending''\<rparr>
          in (row, s\<lparr>role_applications := role_applications s @ [row]\<rparr>))"

definition set_application_status :: "int \<Rightarrow> string \<Rightarrow> db \<Rightarrow> db" where
  "set_application_status aid st s =
     s\<lparr>role_applications := upd_by app_id aid (\<lambda>a. a\<lparr>app_status := st\<rparr>) (role_applications s)\<rparr>"

definition promote_role :: "string \<Rightarrow> user_row \<Rightarrow> user_row" where
  "promote_role r u = (if u_role u = ''user'' then u\<lparr>u_role := r\<rparr> else u)"

definition approve_application :: "role_application \<Rightarrow> db \<Rightarrow> db" where
  "approve_application a s =
     (let uid = app_user_id a;
          s = set_application_status (app_id a) ''approved'' s
      in if users s uid = None then s
         else if app_kind a = ''reseller'' then
           let row = (case resellers s uid of
                   None \<Rightarrow> \<lparr>rs_tier = ''bronze'', rs_discount_bp = DEFAULT_RESELLER_DISCOUNT_BP,
                             rs_status = ''active''\<rparr>
                 | Some r \<Rightarrow> r\<lparr>rs_status := ''active''\<rparr>)
           in update_user uid (promote_role ''reseller'')
                (s\<lparr>resellers := (resellers s)(uid \<mapsto> row)\<rparr>)
         else if app_kind a = ''promoter'' then
           update_user uid (promote_role ''promoter'')
             (s\<lparr>promoters := (promoters s)(uid \<mapsto> ''active'')\<rparr>)
         else s)"

definition reject_application :: "role_application \<Rightarrow> db \<Rightarrow> db" where
  "reject_application a s = set_application_status (app_id a) ''rejected'' s"

section \<open>Payouts\<close>

text \<open>
  \<open>pid\<close> is the random public id. The text of the minimum message is cut before the formatted
  amount.
\<close>

definition request_payout ::
  "digest \<Rightarrow> string \<Rightarrow> int \<Rightarrow> string \<Rightarrow> int \<Rightarrow> db \<Rightarrow> ((string \<times> int) \<times> db) res" where
  "request_payout H pid uid kind amount s =
     (if amount < MIN_PAYOUT_PAISE then Inl (WalletError ''Minimum payout'')
      else e_bind (lock_user uid s) (\<lambda>user.
        if available_paise user < amount
        then Inl (WalletError ''Insufficient available balance for this payout'')
        else e_bind (debit H uid amount (''Payout request '' @ pid)
              (Some (new_idempotency_key H [''payout'', pid]))
              \<lparr>ref_type = Some ''payout'', ref_id = Some pid, ref_by = None,
               ref_meta = Some [(''kind'', JStr kind)]\<rparr> s) (\<lambda>(entry, s).
            if \<exists>p \<in> set (payout_requests s). po_public_id p = pid
            then Inl (IntegrityError ''payout_requests.public_id'')
            else Inr ((pid, amount), s\<lparr>payout_requests := payout_requests s
              @ [\<lparr>po_public_id = pid, po_user_id = uid, po_kind = kind, po_amount_paise = amount,
                  po_status = ''pending''\<rparr>]\<rparr>))))"

section \<open>Attribution\<close>

definition referral_inv :: "db \<Rightarrow> bool" where
  "referral_inv s \<longleftrightarrow>
     (\<forall>uid u. users s uid = Some u \<longrightarrow> telegram_id u = uid \<and> u_referred_by u \<noteq> Some uid)"

definition attributed :: "int \<Rightarrow> int \<Rightarrow> db \<Rightarrow> bool" where
  "attributed uid r s \<longleftrightarrow> Option.bind (users s uid) u_referred_by = Some r"

definition start_step :: "string \<times> int \<Rightarrow> db \<Rightarrow> (user_row option \<times> db) res" where
  "start_step = (\<lambda>(code, visitor). record_start_hit code visitor)"

text \<open>What a hit does to the users: nothing, or one attribution to somebody else.\<close>

lemma record_start_hit_users:
  assumes "record_start_hit code v s = Inr (ref, t)"
  shows "users t = users s \<or>
    (\<exists>u r. users s v = Some u \<and> u_referred_by u = None \<and> r \<noteq> v \<and>
      users t = (users s)(v \<mapsto> u\<lparr>u_referred_by := Some r\<rparr>))"
  using assms
  by (auto simp: record_start_hit_def Let_def lock_user_def update_user_def
      split: if_split_asm option.split_asm)

interpretation start_hits: session_steps start_step referral_inv "\<lambda>_. True"
  by unfold_locales
    (auto simp: start_step_def referral_inv_def dest!: record_start_hit_users split: if_splits)

interpretation attribution: session_steps start_step "attributed uid r" "\<lambda>_. True" for uid r
  by unfold_locales
    (auto simp: start_step_def attributed_def dest!: record_start_hit_users split: if_splits)

text \<open>
  Attribution is permanent and never to oneself. Whatever start links are opened by whom, a
  user who has a referrer keeps that referrer, and nobody becomes their own referrer.
\<close>

theorem attribution_is_permanent:
  assumes "referral_inv s" and "users (session_run start_step hits s) uid = Some u"
  shows "u_referred_by u \<noteq> Some uid \<and>
    (\<forall>r. attributed uid r s \<longrightarrow> u_referred_by u = Some r)"
proof -
  have "referral_inv (session_run start_step hits s)"
    using assms(1) by (rule start_hits.run_inv) simp
  moreover have "u_referred_by u = Some r" if "attributed uid r s" for r
    using attribution.run_inv [OF that, of hits] assms(2) by (simp add: attributed_def)
  ultimately show ?thesis using assms(2) by (auto simp: referral_inv_def)
qed

definition two_users :: db where
  "two_users = empty_db\<lparr>user_ids := [7, 8], users := [7 \<mapsto> (new_user 7)\<lparr>u_referral_code := Some ''ABC''\<rparr>,
     8 \<mapsto> (new_user 8)\<lparr>u_referral_code := Some ''XYZ''\<rparr>]\<rparr>"

lemma two_users_simps [simp]:
  "user_ids two_users = [7, 8]"
  "users two_users = [7 \<mapsto> (new_user 7)\<lparr>u_referral_code := Some ''ABC''\<rparr>,
     8 \<mapsto> (new_user 8)\<lparr>u_referral_code := Some ''XYZ''\<rparr>]"
  "referral_clicks two_users = []"
  by (simp_all add: two_users_def empty_db_def)

lemma upper_ABC: "upper (strip ''abc'') = ''ABC''" "upper (strip ''xyz'') = ''XYZ''"
  "upper (strip ''ABC'') = ''ABC''"
  by code_simp+

theorem attribution_is_permanent_witness:
  "\<exists>u. users (session_run start_step [(''abc'', 8), (''xyz'', 8)] two_users) 8 = Some u \<and>
     u_referred_by u = Some 7 \<and> u_referred_by u \<noteq> Some 8"
proof -
  have inv: "referral_inv two_users"
    by (simp add: referral_inv_def new_user_def)
  have "\<exists>u. users (session_run start_step [(''abc'', 8), (''xyz'', 8)] two_users) 8 = Some u \<and>
     u_referred_by u = Some 7"
    by (simp add: start_step_def record_start_hit_def user_by_referral_code_def upper_ABC
        all_users_def map_filter_simps lock_user_def one_or_none_def new_user_def update_user_def Let_def)
  then show ?thesis using attribution_is_permanent [OF inv] by blast
qed

section \<open>Commissions are paid once\<close>

definition order_commission_key :: "digest \<Rightarrow> string \<Rightarrow> string" where
  "order_commission_key H pid = new_idempotency_key H [''reford'', pid]"

definition deposit_commission_key :: "digest \<Rightarrow> int \<Rightarrow> string" where
  "deposit_commission_key H buyer = new_idempotency_key H [''refdep'', str_int buyer]"

text \<open>A commission is nothing, or one credit of the wallet under its key.\<close>

lemma order_commission_cases:
  assumes "credit_order_commission H r s = Inr (x, s')"
  obtains (none) "x = None" "s' = s"
  | (paid) ref e refs why where "x = Some e"
      "Option.bind (users s (o_user_id r)) u_referred_by = Some ref" "ref \<noteq> o_user_id r"
      "o_status r = Completed" "o_id r \<in> set (take REFERRAL_ORDER_CAP (completed_ids s (o_user_id r)))"
      "0 < o_charge_paise r" "refs = referral_ref (o_public_id r)
         [(''kind'', JStr ''order''), (''buyer_id'', JInt (o_user_id r)),
          (''pct'', JNum REFERRAL_ORDER_COMMISSION_PERCENT)]"
      "wallet_op H Credit ref (commission_paise (o_charge_paise r) REFERRAL_ORDER_COMMISSION_PERCENT)
         why (order_commission_key H (o_public_id r)) refs s = Inr (e, s')"
  using assms
  by (auto simp: credit_order_commission_def Let_def order_commission_key_def
      split: if_split_asm option.split_asm)

lemma deposit_commission_cases:
  assumes "credit_deposit_commission H buyer p s = Inr (x, s')"
  obtains (none) "x = None" "s' = s"
  | (paid) ref e refs why where "x = Some e"
      "Option.bind (users s buyer) u_referred_by = Some ref" "ref \<noteq> buyer"
      "paid_count s buyer \<le> 1" "refs = referral_ref (pay_public_id p)
         [(''kind'', JStr ''deposit''), (''buyer_id'', JInt buyer),
          (''pct'', JNum REFERRAL_DEPOSIT_COMMISSION_PERCENT)]"
      "wallet_op H Credit ref (commission_paise (pay_amount_paise p) REFERRAL_DEPOSIT_COMMISSION_PERCENT)
         why (deposit_commission_key H buyer) refs s = Inr (e, s')"
  using assms
  by (auto simp: credit_deposit_commission_def Let_def deposit_commission_key_def
      split: if_split_asm option.split_asm)

lemma order_commission_same_tables:
  "credit_order_commission H r s = Inr (x, s') \<Longrightarrow> same_tables s s'"
  by (erule order_commission_cases) (auto simp del: wallet_op.simps dest: wallet_op_effect effect_same_tables)

lemma deposit_commission_same_tables:
  "credit_deposit_commission H b p s = Inr (x, s') \<Longrightarrow> same_tables s s'"
  by (erule deposit_commission_cases) (auto simp del: wallet_op.simps dest: wallet_op_effect effect_same_tables)

lemma order_commission_wallet_inv:
  "wallet_inv s \<Longrightarrow> credit_order_commission H r s = Inr (x, s') \<Longrightarrow> wallet_inv s'"
  by (erule order_commission_cases) (auto simp del: wallet_op.simps dest: wallet_inv_op)

lemma deposit_commission_wallet_inv:
  "wallet_inv s \<Longrightarrow> credit_deposit_commission H b p s = Inr (x, s') \<Longrightarrow> wallet_inv s'"
  by (erule deposit_commission_cases) (auto simp del: wallet_op.simps dest: wallet_inv_op)

lemma commission_8: "0 < a \<Longrightarrow> a * 8 < 2 ^ 53 \<Longrightarrow>
    commission_paise a REFERRAL_ORDER_COMMISSION_PERCENT = a * 8 div 100"
  using commission_exact [of a 8] by (simp add: REFERRAL_ORDER_COMMISSION_PERCENT_def)

text \<open>
  The order commission. A commission that is paid for an order not yet rewarded gives the
  buyer's recorded referrer, who is not the buyer, exactly eight percent of the charge rounded
  down; the order is completed and among the buyer's first three completed ones; and no other
  account moves.
\<close>

theorem order_commission_exact:
  assumes "wallet_inv s" and "good_digest H" and "o_charge_paise r * 8 < 2 ^ 53"
    and "credit_order_commission H r s = Inr (Some e, s')"
    and "existing (order_commission_key H (o_public_id r)) s = None"
  shows "\<exists>ref b q. Option.bind (users s (o_user_id r)) u_referred_by = Some ref \<and>
    ref \<noteq> o_user_id r \<and> o_status r = Completed \<and>
    o_id r \<in> set (take 3 (completed_ids s (o_user_id r))) \<and>
    account_of s ref = Some (b, q) \<and>
    account_of s' ref = Some (b + o_charge_paise r * 8 div 100, q) \<and>
    (\<forall>v. v \<noteq> ref \<longrightarrow> account_of s' v = account_of s v)"
  using assms(4)
proof (cases rule: order_commission_cases)
  case none
  then show ?thesis by simp
next
  case (paid ref e' refs why)
  have key: "order_commission_key H (o_public_id r) \<noteq> []"
    using assms(2) by (simp add: order_commission_key_def)
  obtain u where u: "users s ref = Some u"
    using paid(8) by (auto simp: wallet_defs split: if_split_asm option.split_asm)
  let ?a = "(cached_balance_paise u, cached_reserved_paise u)"
  have acct: "account_of s ref = Some ?a" by (simp add: account_of_def u)
  obtain b q where st: "acct_step Credit (o_charge_paise r * 8 div 100) ?a = Some (b, q)"
    and p: "posted ref (entry_amount Credit (o_charge_paise r * 8 div 100)) Credit
      (order_commission_key H (o_public_id r)) refs b q s e' s'"
    using wallet_op_posted [OF paid(8) assms(5) key acct wallet_inv_acct_ok [OF assms(1) u]]
      commission_8 [OF paid(6) assms(3)] by auto
  show ?thesis
    using paid acct posted_account [OF p u] st
    by (auto simp: REFERRAL_ORDER_CAP_def split: if_splits)
qed

definition sample_order :: "int \<Rightarrow> order_status \<Rightarrow> int \<Rightarrow> order_row" where
  "sample_order uid st charge =
     \<lparr>o_id = 1, o_public_id = ''FL-1'', o_user_id = uid, o_service_id = ''s1'', o_provider_id = ''p1'',
      o_provider_order_id = Some ''77'', o_status = st, o_link = ''@x'', o_quantity = 1000,
      o_extra = [], o_charge_paise = charge, o_cost_paise = 0, o_start_count = None,
      o_remains = None, o_snapshot = None, o_key = ''k'', o_coupon_code = None,
      o_fail_reason = None, o_refill_count = 0, o_last_synced_at = None, o_updated_at = 0\<rparr>"

definition referred_shop :: db where
  "referred_shop = empty_db\<lparr>user_ids := [7, 8],
     users := [7 \<mapsto> new_user 7, 8 \<mapsto> (new_user 8)\<lparr>u_referred_by := Some 7\<rparr>],
     orders := [sample_order 8 Completed 1000]\<rparr>"

lemma referred_shop_simps [simp]:
  "users referred_shop = [7 \<mapsto> new_user 7, 8 \<mapsto> (new_user 8)\<lparr>u_referred_by := Some 7\<rparr>]"
  "orders referred_shop = [sample_order 8 Completed 1000]" "ledger referred_shop = []"
  "payments referred_shop = []" "existing k referred_shop = None"
  by (simp_all add: referred_shop_def empty_db_def existing_def)

lemma wallet_inv_referred_shop: "wallet_inv referred_shop"
  by (simp add: wallet_inv_def user_matches_ledger_def ledger_sum_def last_after_def new_user_def)

lemma referred_commission:
  "\<exists>e s'. credit_order_commission sample_digest (sample_order 8 Completed 1000) referred_shop
     = Inr (Some e, s')"
proof -
  have "commission_paise 1000 REFERRAL_ORDER_COMMISSION_PERCENT = 80" using commission_8 [of 1000] by simp
  then show ?thesis
    by (simp add: credit_order_commission_def sample_order_def completed_ids_def wallet_defs
        REFERRAL_ORDER_CAP_def new_user_def append_entry_def Let_def)
qed

theorem order_commission_exact_witness:
  "\<exists>e s'. credit_order_commission sample_digest (sample_order 8 Completed 1000) referred_shop
     = Inr (Some e, s') \<and> account_of s' 7 = Some (80, 0)"
proof -
  obtain e s' where c: "credit_order_commission sample_digest (sample_order 8 Completed 1000)
    referred_shop = Inr (Some e, s')"
    using referred_commission by blast
  have "o_charge_paise (sample_order 8 Completed 1000) * 8 < 2 ^ 53" by (simp add: sample_order_def)
  from order_commission_exact [OF wallet_inv_referred_shop good_sample_digest this c]
  have "account_of s' 7 = Some (80, 0)" by (auto simp: sample_order_def account_of_def new_user_def)
  with c show ?thesis by blast
qed

text \<open>
  At most once. After a commission has been paid for an order, or for the deposits of a
  buyer, later attempts, in any state that extends the ledger, pay nothing more.
\<close>

theorem commissions_paid_once:
  assumes "good_digest H"
  shows "(existing (order_commission_key H (o_public_id r)) s = Some e \<longrightarrow>
      credit_order_commission H r s = Inr (x, s') \<longrightarrow> s' = s) \<and>
    (existing (deposit_commission_key H buyer) s = Some e \<longrightarrow>
      credit_deposit_commission H buyer p s = Inr (y, s'') \<longrightarrow> s'' = s)"
proof (intro conjI impI)
  have keys: "order_commission_key H pid \<noteq> []" "deposit_commission_key H b \<noteq> []" for pid b
    using assms by (simp_all add: order_commission_key_def deposit_commission_key_def)
  assume ex: "existing (order_commission_key H (o_public_id r)) s = Some e"
    and "credit_order_commission H r s = Inr (x, s')"
  from this(2) show "s' = s"
    by (cases rule: order_commission_cases)
      (simp_all only: wallet_op_replay_unchanged [OF ex keys(1), THEN conjunct2])
next
  have keys: "deposit_commission_key H b \<noteq> []" for b
    using assms by (simp add: deposit_commission_key_def)
  assume ex: "existing (deposit_commission_key H buyer) s = Some e"
    and "credit_deposit_commission H buyer p s = Inr (y, s'')"
  from this(2) show "s'' = s"
    by (cases rule: deposit_commission_cases)
      (simp_all only: wallet_op_replay_unchanged [OF ex keys, THEN conjunct2])
qed

theorem commissions_paid_once_witness:
  "\<exists>e s'. credit_order_commission sample_digest (sample_order 8 Completed 1000) referred_shop
     = Inr (Some e, s') \<and>
     (\<forall>x t. credit_order_commission sample_digest (sample_order 8 Completed 1000) s' = Inr (x, t)
        \<longrightarrow> t = s')"
proof -
  let ?r = "sample_order 8 Completed 1000" and ?k = "order_commission_key sample_digest ''FL-1''"
  obtain e s' where c: "credit_order_commission sample_digest ?r referred_shop = Inr (Some e, s')"
    using referred_commission by blast
  have ne: "?k \<noteq> []" by (simp add: order_commission_key_def)
  have pid: "o_public_id ?r = ''FL-1''" by (simp add: sample_order_def)
  from c have "existing ?k s' = Some e"
    by (cases rule: order_commission_cases)
      (auto simp del: wallet_op.simps simp: pid ne elim!: wallet_op_stores_key [rotated 2])
  then have "t = s'" if "credit_order_commission sample_digest ?r s' = Inr (x, t)" for x t
    using commissions_paid_once [OF good_sample_digest, of ?r s' e x t] that pid by simp
  with c show ?thesis by blast
qed

text \<open>
  The deposit commission is not restricted to the first deposit. A buyer with one paid deposit
  that earned nothing (the query counts before the deposit at hand is flushed) still earns the
  referrer a commission on the second one, contrary to the documentation of the function.
\<close>

theorem second_deposit_can_earn:
  assumes "wallet_inv s" and "good_digest H"
    and "Option.bind (users s buyer) u_referred_by = Some ref" and "users s ref = Some u"
    and "ref \<noteq> buyer" and "paid_count s buyer = 1"
    and "existing (deposit_commission_key H buyer) s = None"
    and "20 \<le> pay_amount_paise p" and "pay_amount_paise p * 5 < 2 ^ 53"
  shows "\<exists>e s'. credit_deposit_commission H buyer p s = Inr (Some e, s') \<and>
    account_of s' ref = Some (cached_balance_paise u + pay_amount_paise p * 5 div 100,
      cached_reserved_paise u)"
proof -
  let ?a = "pay_amount_paise p * 5 div 100" and ?k = "deposit_commission_key H buyer"
  let ?refs = "referral_ref (pay_public_id p)
    [(''kind'', JStr ''deposit''), (''buyer_id'', JInt buyer),
     (''pct'', JNum REFERRAL_DEPOSIT_COMMISSION_PERCENT)]"
  let ?why = "''Referral 5% first deposit '' @ pay_public_id p"
  have amount: "commission_paise (pay_amount_paise p) REFERRAL_DEPOSIT_COMMISSION_PERCENT = ?a"
    using commission_exact [of "pay_amount_paise p" 5] assms(8,9)
    by (simp add: REFERRAL_DEPOSIT_COMMISSION_PERCENT_def)
  have pos: "0 < ?a" using assms(8) by linarith
  have ne: "?k \<noteq> []" using assms(2) by (simp add: deposit_commission_key_def)
  have st: "acct_step Credit ?a (cached_balance_paise u, cached_reserved_paise u)
      = Some (cached_balance_paise u + ?a, cached_reserved_paise u)" using pos by simp
  obtain e s' where op: "wallet_op H Credit ref ?a ?why ?k ?refs s = Inr (e, s')"
    and p: "posted ref (entry_amount Credit ?a) Credit ?k ?refs (cached_balance_paise u + ?a)
      (cached_reserved_paise u) s e s'"
    using wallet_op_succeeds [OF assms(4) wallet_inv_acct_ok [OF assms(1,4)] assms(7) ne st] by blast
  have "credit_deposit_commission H buyer p s = Inr (Some e, s')"
    using assms(3-6,8) pos op amount
    by (simp add: credit_deposit_commission_def deposit_commission_key_def)
  then show ?thesis using posted_account(1) [OF p assms(4)] by blast
qed

definition sample_payment :: "string \<Rightarrow> int \<Rightarrow> int \<Rightarrow> payment_status \<Rightarrow> payment_row" where
  "sample_payment pid uid amount st =
     \<lparr>pay_id = 1, pay_public_id = pid, pay_user_id = uid, pay_amount_paise = amount,
      pay_method = ''razorpay'', pay_status = st, pay_provider_ref = None, pay_currency = ''INR'',
      pay_checkout_url = None, pay_failure_reason = None, pay_key = pid, pay_paid_at = None,
      pay_created_at = 0\<rparr>"

theorem second_deposit_can_earn_witness:
  "\<exists>e s'. credit_deposit_commission sample_digest 8 (sample_payment ''PAY-2'' 8 10000 PENDING)
      (referred_shop\<lparr>payments := [sample_payment ''PAY-1'' 8 10 PAID]\<rparr>) = Inr (Some e, s') \<and>
     account_of s' 7 = Some (500, 0)"
proof -
  let ?s = "referred_shop\<lparr>payments := [sample_payment ''PAY-1'' 8 10 PAID]\<rparr>"
  have inv: "wallet_inv ?s"
    by (subst wallet_inv_cong [of _ referred_shop]) (simp_all add: wallet_inv_referred_shop)
  have fresh: "existing k ?s = None" for k by (simp add: existing_def)
  have count: "paid_count ?s 8 = 1" by (simp add: paid_count_def sample_payment_def)
  from second_deposit_can_earn [OF inv good_sample_digest _ _ _ count fresh, of 7 "new_user 7"
      "sample_payment ''PAY-2'' 8 10000 PENDING"]
  show ?thesis by (simp add: sample_payment_def)
qed

text \<open>
  A payout. A request that succeeds asks for at least the minimum, takes exactly its amount
  from the balance of the user while the holds stay covered, records one pending payout, and
  keeps the wallet invariant.
\<close>

theorem payout_takes_exactly:
  assumes "wallet_inv s" and "good_digest H" and "users s uid = Some u"
    and "existing (new_idempotency_key H [''payout'', pid]) s = None"
    and "request_payout H pid uid kind amount s = Inr (r, s')"
  shows "10000 \<le> amount \<and> amount \<le> available_paise u \<and>
    account_of s' uid = Some (cached_balance_paise u - amount, cached_reserved_paise u) \<and>
    (\<exists>p. payout_requests s' = payout_requests s @ [p] \<and> po_user_id p = uid \<and>
       po_amount_paise p = amount \<and> po_status p = ''pending'') \<and> wallet_inv s'"
proof -
  let ?k = "new_idempotency_key H [''payout'', pid]"
  let ?refs = "\<lparr>ref_type = Some ''payout'', ref_id = Some pid, ref_by = None,
    ref_meta = Some [(''kind'', JStr kind)]\<rparr>"
  let ?row = "\<lparr>po_public_id = pid, po_user_id = uid, po_kind = kind, po_amount_paise = amount,
    po_status = ''pending''\<rparr>"
  obtain e t where op: "wallet_op H Debit uid amount (''Payout request '' @ pid) ?k ?refs s = Inr (e, t)"
    and s': "s' = t\<lparr>payout_requests := payout_requests t @ [?row]\<rparr>"
    and least: "10000 \<le> amount" "amount \<le> available_paise u"
    using assms(3,5) by (auto simp: request_payout_def lock_user_def MIN_PAYOUT_PAISE_def
        split: if_split_asm)
  have ne: "?k \<noteq> []" using assms(2) by simp
  have acct: "account_of s uid = Some (cached_balance_paise u, cached_reserved_paise u)"
    by (simp add: account_of_def assms(3))
  obtain b q where st: "acct_step Debit amount (cached_balance_paise u, cached_reserved_paise u) = Some (b, q)"
    and p: "posted uid (entry_amount Debit amount) Debit ?k ?refs b q s e t"
    using wallet_op_posted [OF op assms(4) ne acct wallet_inv_acct_ok [OF assms(1,3)]] by blast
  have "wallet_inv t" using assms(1) op by (rule wallet_inv_op)
  then have "wallet_inv s'" by (subst wallet_inv_cong [of _ t]) (simp_all add: s')
  moreover have "payout_requests t = payout_requests s"
    using p by (auto simp: posted_def same_tables_fields)
  moreover have "account_of s' uid = account_of t uid" by (simp add: s' account_of_def)
  ultimately show ?thesis
    using least st posted_account(1) [OF p assms(3)] by (auto simp: s' split: if_splits)
qed

theorem payout_takes_exactly_witness:
  "\<exists>r s'. request_payout sample_digest ''PO-1'' 7 ''reseller'' 20000 (funded_user 7 50000) = Inr (r, s') \<and>
     account_of s' 7 = Some (30000, 0)"
proof -
  obtain u where u: "users (funded_user 7 50000) 7 = Some u" "cached_balance_paise u = 50000"
    "cached_reserved_paise u = 0" by (simp add: funded_user_simps)
  have fresh: "existing (new_idempotency_key sample_digest [''payout'', ''PO-1'']) (funded_user 7 50000)
      = None" by (simp add: funded_user_simps new_idempotency_key_def sample_digest_def)
  obtain r s' where r: "request_payout sample_digest ''PO-1'' 7 ''reseller'' 20000 (funded_user 7 50000)
      = Inr (r, s')"
    by (simp add: request_payout_def MIN_PAYOUT_PAISE_def funded_user_simps
        new_idempotency_key_def sample_digest_def)
  show ?thesis
    using payout_takes_exactly [OF wallet_inv_funded_user good_sample_digest u(1) fresh r] r u by auto
qed

end
