(* ===== verification/Panel.thy ===== *)
theory Panel
  imports Store PyText "HOL-Library.Char_ord" "HOL-Library.List_Lexorder"
begin

text \<open>
  \<open>app/adapters/base.py\<close> and \<open>app/adapters/perfectpanel.py\<close>: what the shop makes of a panel's
  answers. The HTTP client is a parameter: an operation takes the answer that came back and
  returns the adapter's result or the exception it raises. The lemmas show which failures count
  as retryable, that a cancellation is confirmed for every order or refused, and how status
  words are normalised.
\<close>

section \<open>JSON\<close>

datatype json =
    Jnull | Jbool bool | Jint int | Jfloat py_float | Jtext string
  | Jarray "json list" | Jobj "(string \<times> json) list"

text \<open>An object is a Python dict: its entries in the order of insertion, the keys distinct.\<close>

definition obj_get :: "string \<Rightarrow> (string \<times> json) list \<Rightarrow> json option" where
  "obj_get k kvs = map_of kvs k"

text \<open>\<open>body.get(k)\<close>: the default is \<open>None\<close>.\<close>

definition dict_get :: "string \<Rightarrow> (string \<times> json) list \<Rightarrow> json" where
  "dict_get k kvs = (case obj_get k kvs of None \<Rightarrow> Jnull | Some v \<Rightarrow> v)"

fun truthy :: "json \<Rightarrow> bool" where
  "truthy Jnull = False"
| "truthy (Jbool b) = b"
| "truthy (Jint i) = (i \<noteq> 0)"
| "truthy (Jfloat x) = (x \<noteq> Fin 0)"
| "truthy (Jtext t) = (t \<noteq> [])"
| "truthy (Jarray xs) = (xs \<noteq> [])"
| "truthy (Jobj kvs) = (kvs \<noteq> [])"

definition or_else :: "json \<Rightarrow> json \<Rightarrow> json" where
  "or_else a b = (if truthy a then a else b)"

text \<open>
  \<open>str(value)\<close>. The text of a float or of a container is that of the parameter \<open>R\<close>, which
  stands for Python's \<open>repr\<close> of such values.
\<close>

fun py_str :: "(json \<Rightarrow> string) \<Rightarrow> json \<Rightarrow> string" where
  "py_str R Jnull = ''None''"
| "py_str R (Jbool b) = (if b then ''True'' else ''False'')"
| "py_str R (Jint i) = str_int i"
| "py_str R (Jtext t) = t"
| "py_str R j = R j"

definition TypeError :: exn where "TypeError = OtherError ''TypeError''"
definition OverflowError :: exn where "OverflowError = OtherError ''OverflowError''"

text \<open>What \<open>except (TypeError, ValueError)\<close> catches.\<close>

fun type_or_value :: "exn \<Rightarrow> bool" where
  "type_or_value (ValueError m) = True"
| "type_or_value e = (e = TypeError)"

fun py_float_of :: "json \<Rightarrow> py_float res" where
  "py_float_of (Jint i) = (if 2 ^ 1024 \<le> \<bar>i\<bar> then Inl OverflowError else Inr (Fin (f_of_int i)))"
| "py_float_of (Jbool b) = Inr (Fin (if b then 1 else 0))"
| "py_float_of (Jfloat x) = Inr x"
| "py_float_of (Jtext t) = (case parse_float t of
     None \<Rightarrow> Inl (ValueError ''could not convert string to float'') | Some x \<Rightarrow> Inr x)"
| "py_float_of _ = Inl TypeError"

fun int_of_float :: "py_float \<Rightarrow> int res" where
  "int_of_float (Fin x) = Inr (py_trunc x)"
| "int_of_float NaN = Inl (ValueError ''cannot convert float NaN to integer'')"
| "int_of_float _ = Inl OverflowError"

fun py_int_of :: "json \<Rightarrow> int res" where
  "py_int_of (Jint i) = Inr i"
| "py_int_of (Jbool b) = Inr (if b then 1 else 0)"
| "py_int_of (Jfloat x) = int_of_float x"
| "py_int_of (Jtext t) = (case parse_int t of
     None \<Rightarrow> Inl (ValueError ''invalid literal for int()'') | Some i \<Rightarrow> Inr i)"
| "py_int_of _ = Inl TypeError"

section \<open>The adapter's data\<close>

record provider_service =
  ps_external_id :: string
  ps_name :: string
  ps_category :: string
  ps_rate :: py_float
  ps_min_qty :: int
  ps_max_qty :: int
  ps_service_type :: string
  ps_refill :: bool
  ps_cancel :: bool
  ps_extra :: "(string \<times> json) list"

record provider_status =
  st_external_id :: string
  st_status :: order_status
  st_start_count :: "int option"
  st_remains :: "int option"
  st_charge :: "py_float option"

section \<open>Status words\<close>

definition panel_status_map :: "(string \<times> order_status) list" where
  "panel_status_map =
     [(''pending'', Pending), (''in progress'', In_progress), (''in_progress'', In_progress),
      (''processing'', Processing), (''completed'', Completed), (''complete'', Completed),
      (''partial'', Partial), (''canceled'', Canceled), (''cancelled'', Canceled),
      (''refunded'', Refunded), (''fail'', Failed), (''failed'', Failed), (''error'', Failed)]"

definition normalize_panel_status :: "string \<Rightarrow> order_status" where
  "normalize_panel_status raw =
     (if raw = [] then Processing
      else case map_of panel_status_map (lower (strip raw)) of
        None \<Rightarrow> Processing | Some st \<Rightarrow> st)"

section \<open>One request\<close>

text \<open>
  What \<open>httpx\<close> gives back: a response that is not a success, a transport error, or a body, which
  is JSON or not.
\<close>

datatype http_answer = Http_status int | Network_error | Body "json option"

definition panel_post :: "(json \<Rightarrow> string) \<Rightarrow> http_answer \<Rightarrow> json res" where
  "panel_post R answer =
     (case answer of
        Http_status c \<Rightarrow> Inl (ProviderError (''Panel HTTP '' @ str_int c) (500 \<le> c))
      | Network_error \<Rightarrow> Inl (ProviderError ''Panel network error'' True)
      | Body None \<Rightarrow> Inl (ProviderError ''Panel returned non-JSON'' False)
      | Body (Some body) \<Rightarrow>
          (case body of
             Jobj kvs \<Rightarrow>
               if truthy (dict_get ''error'' kvs)
               then Inl (ProviderError (py_str R (dict_get ''error'' kvs)) False) else Inr body
           | _ \<Rightarrow> Inr body))"

section \<open>Operations\<close>

definition panel_service :: "(json \<Rightarrow> string) \<Rightarrow> (string \<times> json) list \<Rightarrow> provider_service res" where
  "panel_service R kvs =
     (let text_of = (\<lambda>k d. py_str R (or_else (dict_get k kvs) (Jtext d)))
      in e_bind (py_float_of (or_else (dict_get ''rate'' kvs) (Jint 0))) (\<lambda>rate.
         e_bind (py_int_of (or_else (dict_get ''min'' kvs) (Jint 1))) (\<lambda>min_qty.
         e_bind (py_int_of (or_else (dict_get ''max'' kvs) (Jint 1))) (\<lambda>max_qty. Inr
           \<lparr>ps_external_id = py_str R (or_else (dict_get ''service'' kvs) (dict_get ''id'' kvs)),
            ps_name = text_of ''name'' ''Unnamed'', ps_category = text_of ''category'' ''Other'',
            ps_rate = rate, ps_min_qty = min_qty, ps_max_qty = max_qty,
            ps_service_type = text_of ''type'' ''default'',
            ps_refill = truthy (dict_get ''refill'' kvs), ps_cancel = truthy (dict_get ''cancel'' kvs),
            ps_extra = List.map_filter (\<lambda>k. map_option (Pair k) (obj_get k kvs))
              [''dripfeed'', ''description'']\<rparr>))))"

fun panel_services :: "(json \<Rightarrow> string) \<Rightarrow> json list \<Rightarrow> provider_service list res" where
  "panel_services R [] = Inr []"
| "panel_services R (Jobj kvs # items) =
     (case panel_service R kvs of
        Inl e \<Rightarrow> if type_or_value e then panel_services R items else Inl e
      | Inr svc \<Rightarrow> e_bind (panel_services R items) (\<lambda>rest. Inr (svc # rest)))"
| "panel_services R (_ # items) = panel_services R items"

definition panel_get_services :: "(json \<Rightarrow> string) \<Rightarrow> http_answer \<Rightarrow> provider_service list res" where
  "panel_get_services R answer =
     e_bind (panel_post R answer) (\<lambda>body.
       case body of Jarray items \<Rightarrow> panel_services R items
       | _ \<Rightarrow> Inl (ProviderError ''Unexpected services payload'' False))"

definition panel_get_balance :: "(json \<Rightarrow> string) \<Rightarrow> http_answer \<Rightarrow> py_float res" where
  "panel_get_balance R answer =
     e_bind (panel_post R answer) (\<lambda>body.
       case body of
         Jobj kvs \<Rightarrow>
           (case py_float_of (or_else (dict_get ''balance'' kvs) (Jint 0)) of
              Inl e \<Rightarrow> Inl (if type_or_value e then ProviderError ''Invalid balance value'' False else e)
            | Inr x \<Rightarrow> Inr x)
       | _ \<Rightarrow> Inl (ProviderError ''Unexpected balance payload'' False))"

text \<open>The form fields of an \<open>add\<close> request, beside the key and the action.\<close>

fun json_value_truthy :: "json_value \<Rightarrow> bool" where
  "json_value_truthy (JStr t) = (t \<noteq> [])"
| "json_value_truthy (JInt i) = (i \<noteq> 0)"
| "json_value_truthy (JNum x) = (x \<noteq> 0)"

definition create_order_payload :: "string \<Rightarrow> string \<Rightarrow> int \<Rightarrow> json_object \<Rightarrow> json_object" where
  "create_order_payload service link qty extra =
     [(''service'', JStr service), (''link'', JStr link), (''quantity'', JInt qty)] @
     List.map_filter (\<lambda>k. case map_of extra k of None \<Rightarrow> None
         | Some v \<Rightarrow> if json_value_truthy v then Some (k, v) else None)
       [''comments'', ''usernames'', ''runs'', ''interval'']"

definition panel_create_order :: "(json \<Rightarrow> string) \<Rightarrow> http_answer \<Rightarrow> string res" where
  "panel_create_order R answer =
     e_bind (panel_post R answer) (\<lambda>body.
       case body of
         Jobj kvs \<Rightarrow>
           (case obj_get ''order'' kvs of
              None \<Rightarrow> Inl (ProviderError ''Panel did not return an order id'' False)
            | Some v \<Rightarrow> Inr (py_str R v))
       | _ \<Rightarrow> Inl (ProviderError ''Panel did not return an order id'' False))"

definition maybe_int :: "json \<Rightarrow> int option res" where
  "maybe_int v =
     (if v = Jnull \<or> v = Jtext [] then Inr None
      else case e_bind (py_float_of v) int_of_float of
        Inl e \<Rightarrow> if type_or_value e then Inr None else Inl e
      | Inr i \<Rightarrow> Inr (Some i))"

definition to_status ::
  "(json \<Rightarrow> string) \<Rightarrow> string \<Rightarrow> (string \<times> json) list \<Rightarrow> provider_status res" where
  "to_status R ext kvs =
     (let charge = (case dict_get ''charge'' kvs of
            Jnull \<Rightarrow> Inr None
          | v \<Rightarrow> (case py_float_of v of
                Inl e \<Rightarrow> if type_or_value e then Inr None else Inl e
              | Inr x \<Rightarrow> Inr (Some x)))
      in e_bind charge (\<lambda>charge.
         e_bind (maybe_int (dict_get ''start_count'' kvs)) (\<lambda>start.
         e_bind (maybe_int (dict_get ''remains'' kvs)) (\<lambda>remains. Inr
           \<lparr>st_external_id = ext,
            st_status = normalize_panel_status (py_str R (or_else (dict_get ''status'' kvs) (Jtext []))),
            st_start_count = start, st_remains = remains, st_charge = charge\<rparr>))))"

definition panel_get_order_status ::
  "(json \<Rightarrow> string) \<Rightarrow> string \<Rightarrow> http_answer \<Rightarrow> provider_status res" where
  "panel_get_order_status R ext answer =
     e_bind (panel_post R answer) (\<lambda>body.
       case body of Jobj kvs \<Rightarrow> to_status R ext kvs
       | _ \<Rightarrow> Inl (ProviderError ''Unexpected status payload'' False))"

fun statuses_of :: "(json \<Rightarrow> string) \<Rightarrow> (string \<times> json) list \<Rightarrow> provider_status list res" where
  "statuses_of R [] = Inr []"
| "statuses_of R ((oid, Jobj kvs) # items) =
     e_bind (to_status R oid kvs) (\<lambda>st. e_bind (statuses_of R items) (\<lambda>rest. Inr (st # rest)))"
| "statuses_of R (_ # items) = statuses_of R items"

definition panel_get_multiple_status ::
  "(json \<Rightarrow> string) \<Rightarrow> string list \<Rightarrow> http_answer \<Rightarrow> provider_status list res" where
  "panel_get_multiple_status R exts answer =
     (if exts = [] then Inr []
      else e_bind (panel_post R answer) (\<lambda>body.
        case body of
          Jobj kvs \<Rightarrow>
            if obj_get ''status'' kvs \<noteq> None \<and> length exts = 1
            then e_bind (to_status R (hd exts) kvs) (\<lambda>st. Inr [st])
            else statuses_of R kvs
        | _ \<Rightarrow> Inr []))"

definition panel_refill :: "(json \<Rightarrow> string) \<Rightarrow> http_answer \<Rightarrow> string res" where
  "panel_refill R answer =
     e_bind (panel_post R answer) (\<lambda>body.
       case body of
         Jobj kvs \<Rightarrow>
           (case obj_get ''refill'' kvs of
              None \<Rightarrow> Inl (ProviderError ''Panel did not accept refill'' False)
            | Some v \<Rightarrow> Inr (py_str R v))
       | _ \<Rightarrow> Inl (ProviderError ''Panel did not accept refill'' False))"

definition panel_refill_status ::
  "(json \<Rightarrow> string) \<Rightarrow> string \<Rightarrow> http_answer \<Rightarrow> provider_status res" where
  "panel_refill_status R refill answer =
     e_bind (panel_post R answer) (\<lambda>body.
       case body of Jobj kvs \<Rightarrow> to_status R refill kvs
       | _ \<Rightarrow> Inl (ProviderError ''Unexpected refill status payload'' False))"

text \<open>An entry confirms a cancellation when its \<open>cancel\<close> field reads 1 or true.\<close>

definition cancel_yes :: "(json \<Rightarrow> string) \<Rightarrow> (string \<times> json) list \<Rightarrow> bool" where
  "cancel_yes R kvs \<longleftrightarrow>
     lower (strip (py_str R (dict_get ''cancel'' kvs))) \<in> set [''1'', ''true'']"

fun confirmed_item :: "(json \<Rightarrow> string) \<Rightarrow> json \<Rightarrow> string option" where
  "confirmed_item R (Jobj kvs) =
     (if cancel_yes R kvs then Some (py_str R (dict_get ''order'' kvs)) else None)"
| "confirmed_item R _ = None"

definition confirmed_ids :: "(json \<Rightarrow> string) \<Rightarrow> string list \<Rightarrow> json \<Rightarrow> string list" where
  "confirmed_ids R exts body =
     (case body of
        Jarray items \<Rightarrow> List.map_filter (confirmed_item R) items
      | Jobj kvs \<Rightarrow> if length exts = 1 \<and> cancel_yes R kvs then [hd exts] else []
      | _ \<Rightarrow> [])"

definition panel_cancel ::
  "(json \<Rightarrow> string) \<Rightarrow> string list \<Rightarrow> http_answer \<Rightarrow> string list res" where
  "panel_cancel R exts answer =
     e_bind (panel_post R answer) (\<lambda>body.
       let confirmed = confirmed_ids R exts body
       in if filter (\<lambda>oid. oid \<notin> set confirmed) exts \<noteq> []
          then Inl (ProviderError ''The provider did not confirm the cancellation'' False)
          else Inr (sort (remdups confirmed)))"

definition panel_health_check ::
  "(json \<Rightarrow> string) \<Rightarrow> http_answer \<Rightarrow> (bool \<times> string \<times> py_float option) res" where
  "panel_health_check R answer =
     (case panel_get_balance R answer of
        Inr x \<Rightarrow> Inr (True, ''panel reachable'', Some x)
      | Inl (ProviderError m _) \<Rightarrow> Inr (False, take 200 m, None)
      | Inl e \<Rightarrow> Inl e)"

section \<open>Properties\<close>

lemma confirmed_item_Some:
  "confirmed_item R item = Some ext \<longleftrightarrow>
     (\<exists>kvs. item = Jobj kvs \<and> cancel_yes R kvs \<and> py_str R (dict_get ''order'' kvs) = ext)"
  by (cases item) auto

lemma set_map_filter_iff: "x \<in> set (List.map_filter f xs) \<longleftrightarrow> (\<exists>y \<in> set xs. f y = Some x)"
  by (auto simp: map_filter_def image_iff)

lemma panel_post_ProviderError:
  "panel_post R answer = Inl e \<Longrightarrow> \<exists>m r. e = ProviderError m r \<and>
     (r \<longleftrightarrow> answer = Network_error \<or> (\<exists>c. answer = Http_status c \<and> 500 \<le> c))"
  by (auto simp: panel_post_def split: http_answer.split_asm option.split_asm json.split_asm if_split_asm)

lemma panel_post_body: "panel_post R answer = Inr body \<Longrightarrow> answer = Body (Some body)"
  by (auto simp: panel_post_def split: http_answer.split_asm option.split_asm json.split_asm if_split_asm)

text \<open>
  Failures of a submission. Every failure is a \<open>ProviderError\<close>, and it counts as retryable
  (the order is then held for review instead of being released) exactly when the panel could
  have accepted the order unseen: a transport error or a server error.
\<close>

theorem create_order_errors:
  assumes "panel_create_order R answer = Inl e"
  shows "\<exists>m r. e = ProviderError m r \<and>
    (r \<longleftrightarrow> answer = Network_error \<or> (\<exists>c. answer = Http_status c \<and> 500 \<le> c))"
proof (cases "panel_post R answer")
  case (Inl e')
  then show ?thesis using assms panel_post_ProviderError [OF Inl] by (simp add: panel_create_order_def)
next
  case (Inr body)
  then have "\<exists>m. e = ProviderError m False"
    using assms by (auto simp: panel_create_order_def split: json.split_asm option.split_asm)
  then show ?thesis using panel_post_body [OF Inr] by auto
qed

theorem create_order_errors_witness:
  "panel_create_order (\<lambda>_. []) (Http_status 503) = Inl (ProviderError ''Panel HTTP 503'' True) \<and>
   (\<exists>m r. ProviderError ''Panel HTTP 503'' True = ProviderError m r \<and> r)"
proof -
  have "panel_create_order (\<lambda>_. []) (Http_status 503) = Inl (ProviderError ''Panel HTTP 503'' True)"
    by code_simp
  then show ?thesis using create_order_errors by fastforce
qed

text \<open>
  A cancellation is confirmed for every order or refused. When \<open>cancel\<close> returns, the panel's
  body names every requested order with a positive \<open>cancel\<close> field, or is itself the positive
  answer to a single request; a missing or failed entry raises.
\<close>

theorem cancel_confirms_every_order:
  assumes "panel_cancel R exts answer = Inr ids"
  shows "\<exists>body. answer = Body (Some body) \<and>
    (\<forall>ext \<in> set exts. ext \<in> set ids \<and>
       ((\<exists>items kvs. body = Jarray items \<and> Jobj kvs \<in> set items \<and> cancel_yes R kvs \<and>
           py_str R (dict_get ''order'' kvs) = ext) \<or>
        (\<exists>kvs. body = Jobj kvs \<and> exts = [ext] \<and> cancel_yes R kvs)))"
proof -
  obtain body where post: "panel_post R answer = Inr body"
    and all: "set exts \<subseteq> set (confirmed_ids R exts body)"
    and d: "set ids = set (confirmed_ids R exts body)"
    using assms by (auto simp: panel_cancel_def Let_def filter_empty_conv subset_iff split: if_split_asm)
  have "(\<exists>items kvs. body = Jarray items \<and> Jobj kvs \<in> set items \<and> cancel_yes R kvs \<and>
        py_str R (dict_get ''order'' kvs) = ext) \<or>
      (\<exists>kvs. body = Jobj kvs \<and> exts = [ext] \<and> cancel_yes R kvs)" if "ext \<in> set exts" for ext
  proof -
    have c: "ext \<in> set (confirmed_ids R exts body)" using that all by blast
    have one: "length exts = 1 \<Longrightarrow> exts = [ext]" using that by (cases exts) auto
    show ?thesis
      using c one
      by (cases body) (auto simp: confirmed_ids_def set_map_filter_iff confirmed_item_Some
          split: if_split_asm)
  qed
  then show ?thesis using panel_post_body [OF post] all d by blast
qed

theorem cancel_confirms_every_order_witness:
  "\<exists>kvs. panel_cancel (\<lambda>_. []) [''9''] (Body (Some (Jarray [Jobj [(''order'', Jint 9), (''cancel'', Jint 1)]])))
     = Inr [''9''] \<and> Jobj kvs \<in> set [Jobj [(''order'', Jint 9), (''cancel'', Jint 1)]] \<and>
     cancel_yes (\<lambda>_. []) kvs"
proof -
  have "panel_cancel (\<lambda>_. []) [''9''] (Body (Some (Jarray [Jobj [(''order'', Jint 9), (''cancel'', Jint 1)]])))
     = Inr [''9'']" by code_simp
  then show ?thesis using cancel_confirms_every_order by fastforce
qed

lemma panel_words:
  "list_all (\<lambda>w. lower (strip w) = w) (map fst panel_status_map)"
  "distinct (map fst panel_status_map)"
  by (simp_all add: panel_status_map_def lower_def strip_def rstrip_def lstrip_def py_space_def
      lower_char_def)

text \<open>
  Status words. Normalisation ignores case and surrounding blanks, maps every word of the table
  to its status, and everything else, the empty word included, to processing; no answer of a panel
  can put an order under review, back to submission or into a refill.
\<close>

theorem panel_status_normalised:
  "normalize_panel_status raw =
     (case map_of panel_status_map (lower (strip raw)) of None \<Rightarrow> Processing | Some st \<Rightarrow> st) \<and>
   list_all (\<lambda>(w, st). normalize_panel_status w = st) panel_status_map \<and>
   normalize_panel_status raw \<notin> set [Review, Awaiting_provider, Refilling, Cancelled]"
proof (intro conjI)
  have eq: "normalize_panel_status raw =
      (case map_of panel_status_map (lower (strip raw)) of None \<Rightarrow> Processing | Some st \<Rightarrow> st)" for raw
    by (auto simp: normalize_panel_status_def strip_def rstrip_def lstrip_def lower_def
        panel_status_map_def)
  then show "normalize_panel_status raw =
      (case map_of panel_status_map (lower (strip raw)) of None \<Rightarrow> Processing | Some st \<Rightarrow> st)" .
  show "list_all (\<lambda>(w, st). normalize_panel_status w = st) panel_status_map"
    using panel_words by (auto simp: list_all_iff eq)
  have "st \<notin> set [Review, Awaiting_provider, Refilling, Cancelled]"
    if "map_of panel_status_map w = Some st" for w st
    using map_of_SomeD [OF that] by (auto simp: panel_status_map_def)
  then show "normalize_panel_status raw \<notin> set [Review, Awaiting_provider, Refilling, Cancelled]"
    by (auto simp: eq split: option.split)
qed

text \<open>
  A status answer can raise something that is not a \<open>ProviderError\<close>: a panel that reports an
  infinite number of remaining units makes the parser raise an overflow, which the order sync
  does not catch.
\<close>

theorem infinite_remains_overflows:
  "panel_get_order_status R ext (Body (Some (Jobj [(''status'', Jtext w), (''remains'', Jtext ''inf'')])))
     = Inl (OtherError ''OverflowError'')"
proof -
  have "maybe_int (Jtext ''inf'') = Inl OverflowError" by code_simp
  then show ?thesis
    by (simp add: panel_get_order_status_def panel_post_def to_status_def dict_get_def obj_get_def
        maybe_int_def OverflowError_def TypeError_def)
qed

end
