(* ===== verification/Orders.thy ===== *)
theory Orders
  imports Referrals Panel
begin

text \<open>
  \<open>app/orders.py\<close>: the order engine. An operation of the code that takes an \<open>Order\<close> takes its id
  here and reads the row of the session; a provider call is the answer that came back. The
  operations are those of the module, every write included; log lines and the notification of
  the administrators are left out.
\<close>

section \<open>Statuses\<close>

text \<open>The stored text of a status.\<close>

fun status_value :: "order_status \<Rightarrow> string" where
  "status_value Pending = ''pending''"
| "status_value Awaiting_provider = ''awaiting_provider''"
| "status_value Processing = ''processing''"
| "status_value In_progress = ''in_progress''"
| "status_value Completed = ''completed''"
| "status_value Partial = ''partial''"
| "status_value Canceled = ''canceled''"
| "status_value Cancelled = ''cancelled''"
| "status_value Failed = ''failed''"
| "status_value Refunded = ''refunded''"
| "status_value Refilling = ''refilling''"
| "status_value Review = ''review''"

definition status_label :: "order_status \<Rightarrow> string" where
  "status_label st = ORDER_STATUS_LABELS st"

section \<open>Validation\<close>

definition has_scheme :: "string \<Rightarrow> bool" where
  "has_scheme s \<longleftrightarrow> starts_with ''http://'' (lower s) \<or> starts_with ''https://'' (lower s)"

definition validate_link :: "string \<Rightarrow> string res" where
  "validate_link link =
     (let cleaned = strip link
      in if cleaned = [] then Inl (OrderError ''A target link is required'')
         else if 1024 < length cleaned then Inl (OrderError ''Link is too long'')
         else if \<not> has_scheme cleaned then
           (if starts_with ''@'' cleaned then Inr cleaned
            else if CHR '' '' \<in> set cleaned then Inl (OrderError ''Link must not contain spaces'')
            else if CHR ''.'' \<in> set cleaned then Inr cleaned
            else Inl (OrderError ''Enter a valid URL or @username''))
         else Inr cleaned)"

text \<open>\<open>str(extra.get(k) or "")\<close>; \<open>R\<close> is Python's text of a float.\<close>

definition extra_text :: "(rat \<Rightarrow> string) \<Rightarrow> json_object \<Rightarrow> string \<Rightarrow> string" where
  "extra_text R extra k =
     (case map_of extra k of
        None \<Rightarrow> []
      | Some v \<Rightarrow> if \<not> json_value_truthy v then []
          else (case v of JStr t \<Rightarrow> t | JInt i \<Rightarrow> str_int i | JNum x \<Rightarrow> R x))"

definition validate_comments :: "(rat \<Rightarrow> string) \<Rightarrow> json_object \<Rightarrow> json_object res" where
  "validate_comments R extra =
     (let comments = strip (extra_text R extra ''comments'')
      in if comments = [] then Inl (OrderError ''This service requires comments (one per line)'')
         else let ls = filter (\<lambda>l. l \<noteq> []) (map strip (splitlines comments))
              in Inr (dict_set ''comment_count'' (JInt (int (length ls)))
                   (dict_set ''comments'' (JStr (join newline ls)) extra)))"

definition validate_mentions :: "(rat \<Rightarrow> string) \<Rightarrow> json_object \<Rightarrow> json_object res" where
  "validate_mentions R extra =
     (let m = extra_text R extra ''mentions'';
          mentions = strip (if m \<noteq> [] then m else extra_text R extra ''usernames'')
      in if mentions = [] then Inl (OrderError ''This service requires usernames to mention'')
         else let names = map (dropWhile (\<lambda>c. c = CHR ''@''))
                    (filter (\<lambda>n. n \<noteq> []) (map strip (split_runs (\<lambda>c. py_space c \<or> c = CHR '','') mentions)))
              in Inr (dict_set ''usernames'' (JStr (join newline names))
                   (dict_set ''mentions'' (JStr (join '' '' (map (\<lambda>n. ''@'' @ n) names))) extra)))"

definition validate_extra ::
  "(rat \<Rightarrow> string) \<Rightarrow> service_row \<Rightarrow> json_object \<Rightarrow> json_object res" where
  "validate_extra R svc extra =
     (let stype = lower (if s_service_type svc = [] then ''default'' else s_service_type svc)
      in e_bind (if stype \<in> set [''comments'', ''custom_comments''] then validate_comments R extra
                 else Inr extra) (\<lambda>extra.
         if stype \<in> set [''mentions'', ''comment_mentions''] then validate_mentions R extra
         else Inr extra))"

section \<open>Building blocks\<close>

definition snapshot_service :: "int \<Rightarrow> service_row \<Rightarrow> price_quote \<Rightarrow> service_snapshot" where
  "snapshot_service now svc q =
     \<lparr>snap_id = s_id svc, snap_name = s_name svc, snap_category_id = s_category_id svc,
      snap_provider_id = s_provider_id svc, snap_provider_service_id = s_provider_service_id svc,
      snap_service_type = s_service_type svc, snap_min_qty = s_min_qty svc,
      snap_max_qty = s_max_qty svc, snap_rate_per_1000_paise = rate_per_1000_paise svc,
      snap_sell_per_1000_paise = q_sell_per_1000_paise q, snap_pricing_layer = q_layer q,
      snap_markup_percent = q_markup_percent q, snap_is_refillable = s_is_refillable svc,
      snap_is_cancelable = s_is_cancelable svc, snap_average_time = s_average_time svc,
      snap_quoted_at = now, snap_reseller_discount_paise = q_reseller_discount_paise q,
      snap_retail_per_1000_paise = q_retail_per_1000_paise q\<rparr>"

definition scale_retail :: "price_quote \<Rightarrow> int" where
  "scale_retail q = max (q_charge_paise q + q_reseller_discount_paise q) (q_charge_paise q)"

text \<open>\<open>_record_event\<close>: the log line of a transition and the transition itself.\<close>

definition record_event :: "int \<Rightarrow> int \<Rightarrow> order_status \<Rightarrow> string option \<Rightarrow> db \<Rightarrow> db" where
  "record_event now oid new_st note s =
     (case order_by_id oid s of
        None \<Rightarrow> s
      | Some r \<Rightarrow>
          update_order oid (\<lambda>r. r\<lparr>o_status := new_st, o_updated_at := now\<rparr>)
            (s\<lparr>order_events := order_events s
               @ [\<lparr>ev_order_id = oid, ev_from_status = o_status r, ev_to_status = new_st,
                   ev_note = note\<rparr>]\<rparr>))"

definition order_by_key :: "string \<Rightarrow> db \<Rightarrow> order_row option" where
  "order_by_key key s = find_by o_key key (orders s)"

definition load_idempotent_order :: "string \<Rightarrow> db \<Rightarrow> order_row option" where
  "load_idempotent_order key s =
     (case idempotency_records s key of
        None \<Rightarrow> order_by_key key s
      | Some rec \<Rightarrow>
          (case idem_response rec of
             RespOrder oid pid \<Rightarrow> if oid \<noteq> 0 then order_by_id oid s else order_by_key key s
           | RespRefund paise \<Rightarrow> order_by_key key s))"

definition release_coupon_use :: "order_row \<Rightarrow> db \<Rightarrow> db res" where
  "release_coupon_use r s =
     (case o_coupon_code r of
        None \<Rightarrow> Inr s
      | Some code \<Rightarrow>
        if code = [] then Inr s
        else
          let mine = (\<lambda>d. r_coupon_code d = code \<and> r_order_id d = o_id r)
          in e_bind (one_or_none (filter mine (redemptions s))) (\<lambda>redemption.
               case redemption of
                 None \<Rightarrow> Inr s
               | Some d \<Rightarrow>
                   Inr (s\<lparr>redemptions := filter (\<lambda>d. \<not> mine d) (redemptions s),
                     coupons := (coupons s)(code := map_option
                       (\<lambda>c. if 0 < cp_used_count c then c\<lparr>cp_used_count := cp_used_count c - 1\<rparr> else c)
                       (coupons s code))\<rparr>)))"

definition fail_and_release ::
  "digest \<Rightarrow> int \<Rightarrow> order_row \<Rightarrow> int \<Rightarrow> string \<Rightarrow> string \<Rightarrow> db \<Rightarrow> db res" where
  "fail_and_release H now r charge why tag s =
     e_bind (release (o_user_id r) charge (''Release '' @ o_public_id r @ '' ('' @ tag @ '')'')
       (new_idempotency_key H [''release'', o_public_id r, tag]) (order_ref (o_public_id r)) s) (\<lambda>(e, s).
     e_bind (release_coupon_use r s) (\<lambda>s.
       Inr (record_event now (o_id r) Failed (Some (take 255 why))
         (update_order (o_id r) (\<lambda>r. r\<lparr>o_fail_reason := Some (take 255 why)\<rparr>) s))))"

definition refunded_so_far :: "order_row \<Rightarrow> db \<Rightarrow> int" where
  "refunded_so_far r s =
     sum_list (map e_amount_paise (filter (\<lambda>e. e_reference_type e = Some ''order'' \<and>
       e_reference_id e = Some (o_public_id r) \<and> e_entry_type e = Credit \<and>
       e_user_id e = o_user_id r) (ledger s)))"

section \<open>Placing an order\<close>

text \<open>
  What an operation takes from outside the database: the digest, the clock (one reading per
  operation) with its ISO text, and the text that \<open>json.dumps\<close> and \<open>str\<close> give for values.
\<close>

record order_env =
  env_digest :: digest
  env_now :: int
  env_iso :: string
  env_dumps :: "json_object \<Rightarrow> string"
  env_float_text :: "rat \<Rightarrow> string"

record place_request =
  pr_user :: int
  pr_service :: string
  pr_link :: string
  pr_quantity :: int
  pr_extra :: json_object
  pr_coupon :: "string option"
  pr_client_key :: "string option"
  pr_public_id :: string

text \<open>The derived key is bucketed by 45 seconds; times are microseconds.\<close>

definition IDEMPOTENCY_BUCKET_SECONDS :: int where "IDEMPOTENCY_BUCKET_SECONDS = 45"

definition order_key ::
  "order_env \<Rightarrow> place_request \<Rightarrow> string \<Rightarrow> string \<Rightarrow> json_object \<Rightarrow> price_quote \<Rightarrow> string" where
  "order_key env q sid link extra quote =
     (case pr_client_key q of
        Some (c # cs) \<Rightarrow>
          new_idempotency_key (env_digest env) [''order-key'', str_int (pr_user q), take 128 (c # cs)]
      | _ \<Rightarrow>
          new_idempotency_key (env_digest env)
            [''order'', str_int (pr_user q), sid, link, str_int (pr_quantity q), env_dumps env extra,
             (case q_coupon_code quote of None \<Rightarrow> [] | Some c \<Rightarrow> c),
             str_int (env_now env div (IDEMPOTENCY_BUCKET_SECONDS * 1000000))])"

definition new_order ::
  "order_env \<Rightarrow> place_request \<Rightarrow> service_row \<Rightarrow> string \<Rightarrow> json_object \<Rightarrow> price_quote \<Rightarrow> string \<Rightarrow> int
    \<Rightarrow> order_row" where
  "new_order env q svc link extra quote key oid =
     \<lparr>o_id = oid, o_public_id = pr_public_id q, o_user_id = pr_user q, o_service_id = s_id svc,
      o_provider_id = s_provider_id svc, o_provider_order_id = None, o_status = Pending,
      o_link = link, o_quantity = pr_quantity q, o_extra = extra,
      o_charge_paise = q_charge_paise quote, o_cost_paise = q_cost_paise quote,
      o_start_count = None, o_remains = Some (pr_quantity q),
      o_snapshot = Some (snapshot_service (env_now env) svc quote), o_key = key,
      o_coupon_code = q_coupon_code quote, o_fail_reason = None, o_refill_count = 0,
      o_last_synced_at = None, o_updated_at = env_now env\<rparr>"

text \<open>The insertion of the order and its idempotency record, with their unique constraints.\<close>

definition insert_order :: "order_row \<Rightarrow> db \<Rightarrow> db res" where
  "insert_order r s =
     (if o_public_id r \<in> set (map o_public_id (orders s))
      then Inl (IntegrityError ''orders.public_id'')
      else if o_key r \<in> set (map o_key (orders s))
      then Inl (IntegrityError ''orders.idempotency_key'')
      else if idempotency_records s (o_key r) \<noteq> None
      then Inl (IntegrityError ''idempotency_records.key'')
      else Inr (s\<lparr>orders := orders s @ [r], next_order_id := o_id r + 1,
             idempotency_records := (idempotency_records s)(o_key r \<mapsto>
               \<lparr>idem_scope = ''order'', idem_response = RespOrder (o_id r) (o_public_id r)\<rparr>)\<rparr>))"

definition add_reseller_order :: "order_row \<Rightarrow> price_quote \<Rightarrow> db \<Rightarrow> db" where
  "add_reseller_order r quote s =
     (if active_reseller s (o_user_id r) = None then s
      else s\<lparr>reseller_orders := reseller_orders s
        @ [\<lparr>ro_reseller_id = o_user_id r, ro_order_id = o_id r,
            ro_charge_paise = q_charge_paise quote, ro_retail_paise = scale_retail quote\<rparr>]\<rparr>)"

definition use_coupon :: "order_row \<Rightarrow> db \<Rightarrow> db" where
  "use_coupon r s =
     (case o_coupon_code r of
        None \<Rightarrow> s
      | Some code \<Rightarrow>
        if code = [] then s
        else s\<lparr>coupons := (coupons s)(code := map_option
                 (\<lambda>c. c\<lparr>cp_used_count := cp_used_count c + 1\<rparr>) (coupons s code)),
               redemptions := redemptions s
                 @ [\<lparr>r_coupon_code = code, r_user_id = o_user_id r, r_order_id = o_id r\<rparr>]\<rparr>)"

text \<open>\<open>_capture\<close> of an accepted order, as \<open>place_order\<close> and \<open>resolve_review_order\<close> do it.\<close>

definition capture_order :: "digest \<Rightarrow> order_row \<Rightarrow> db \<Rightarrow> (ledger_entry \<times> db) res" where
  "capture_order H r s =
     capture (o_user_id r) (o_charge_paise r) (''Charge '' @ o_public_id r)
       (new_idempotency_key H [''capture'', o_public_id r]) (order_ref (o_public_id r)) s"

text \<open>
  The submission: \<open>answer\<close> is what \<open>adapter_for\<close> and \<open>create_order\<close> gave, the provider's order id
  or an exception.
\<close>

definition submit_order :: "order_env \<Rightarrow> order_row \<Rightarrow> string res \<Rightarrow> db \<Rightarrow> db res" where
  "submit_order env r answer s =
     (let H = env_digest env; now = env_now env in
      case answer of
        Inl (ProviderError msg retryable) \<Rightarrow>
          if retryable then
            Inr (audit ''system'' ''order.review'' (Some (o_public_id r))
                  (Some ''ambiguous provider response'')
                  (record_event now (o_id r) REVIEW_STATUS (Some (take 255 msg))
                    (update_order (o_id r)
                      (\<lambda>r. r\<lparr>o_fail_reason := Some ''Waiting for provider confirmation''\<rparr>) s)))
          else fail_and_release H now r (o_charge_paise r) (take 255 msg) ''provider'' s
      | Inl _ \<Rightarrow>
          fail_and_release H now r (o_charge_paise r) ''Internal error submitting to provider''
            ''internal'' s
      | Inr ext \<Rightarrow>
          e_bind (capture_order H r (update_order (o_id r) (\<lambda>r. r\<lparr>o_provider_order_id := Some ext\<rparr>) s))
            (\<lambda>(e, s). Inr (record_event now (o_id r) Processing (Some (''Provider order '' @ ext)) s)))"

text \<open>From the quote on: insert, reserve, submit.\<close>

definition commit_order ::
  "order_env \<Rightarrow> order_row \<Rightarrow> price_quote \<Rightarrow> string res \<Rightarrow> db \<Rightarrow> (int \<times> db) res" where
  "commit_order env r quote answer s =
     e_bind (insert_order r s) (\<lambda>s.
     e_bind (reserve (o_user_id r) (o_charge_paise r) (''Reserve for '' @ o_public_id r)
       (new_idempotency_key (env_digest env) [''reserve'', o_public_id r]) (order_ref (o_public_id r))
       (add_reseller_order r quote s)) (\<lambda>(e, s).
     e_bind (submit_order env r answer
       (use_coupon r (record_event (env_now env) (o_id r) Awaiting_provider (Some ''Funds reserved'') s)))
       (\<lambda>s. Inr (o_id r, s))))"

definition place_order ::
  "order_env \<Rightarrow> place_request \<Rightarrow> string res \<Rightarrow> db \<Rightarrow> (int \<times> db) res" where
  "place_order env q answer s =
     e_bind (lock_user (pr_user q) s) (\<lambda>user.
     if u_is_banned user then Inl (OrderError ''This account is suspended'')
     else if u_terms_accepted_at user = None
     then Inl (OrderError ''Please accept the Terms of Service and Privacy Policy first'')
     else e_bind (assert_orders_open s) (\<lambda>_.
     case get_service s (pr_service q) of
       None \<Rightarrow> Inl (OrderError ''Service is not available'')
     | Some svc \<Rightarrow>
     if \<not> s_is_active svc then Inl (OrderError ''Service is not available'')
     else if (case service_provider s svc of None \<Rightarrow> True | Some p \<Rightarrow> \<not> p_is_active p)
     then Inl (OrderError ''Provider is offline'')
     else e_bind (validate_link (pr_link q)) (\<lambda>link.
     e_bind (validate_extra (env_float_text env) svc (pr_extra q)) (\<lambda>extra.
     e_bind (quote_order s (env_now env) (s_id svc) (pr_quantity q) (Some (pr_user q)) (pr_coupon q)) (\<lambda>quote.
     if q_charge_paise quote \<le> 0 then Inl (OrderError ''Quoted charge is invalid'')
     else
       let key = order_key env q (s_id svc) link extra quote;
           fresh = (\<lambda>key.
             if available_paise user < q_charge_paise quote
             then Inl (need_paise (q_charge_paise quote) (available_paise user))
             else commit_order env (new_order env q svc link extra quote key (next_order_id s)) quote answer s)
       in case load_idempotent_order key s of
            Some old \<Rightarrow>
              if o_status old \<noteq> Failed then Inr (o_id old, s)
              else fresh (new_idempotency_key (env_digest env) [key, ''retry'', env_iso env])
          | None \<Rightarrow> fresh key)))))"

section \<open>Queries\<close>

definition get_order_for_user :: "string \<Rightarrow> int option \<Rightarrow> db \<Rightarrow> order_row option" where
  "get_order_for_user pid uid s =
     find (\<lambda>r. o_public_id r = pid \<and> (case uid of None \<Rightarrow> True | Some u \<Rightarrow> o_user_id r = u)) (orders s)"

definition list_orders :: "int \<Rightarrow> nat \<Rightarrow> nat \<Rightarrow> order_status option \<Rightarrow> db \<Rightarrow> order_row list" where
  "list_orders uid limit offset st s =
     take limit (drop offset (rev (filter (\<lambda>r. o_user_id r = uid \<and>
       (case st of None \<Rightarrow> True | Some x \<Rightarrow> o_status r = x)) (orders s))))"

definition list_open_orders :: "nat \<Rightarrow> db \<Rightarrow> order_row list" where
  "list_open_orders limit s =
     take limit (sort_key o_updated_at (filter (\<lambda>r. o_status r \<in> set ACTIVE_STATUSES \<and>
       o_provider_order_id r \<noteq> None) (orders s)))"

definition list_review_orders :: "nat \<Rightarrow> db \<Rightarrow> order_row list" where
  "list_review_orders limit s = take limit (filter (\<lambda>r. o_status r = REVIEW_STATUS) (orders s))"

section \<open>Following an order\<close>

definition with_order :: "int \<Rightarrow> db \<Rightarrow> (order_row \<Rightarrow> 'a res) \<Rightarrow> 'a res" where
  "with_order oid s f =
     (case order_by_id oid s of None \<Rightarrow> Inl (InvalidRequestError ''Could not refresh instance'')
      | Some r \<Rightarrow> f r)"

definition has_provider_id :: "order_row \<Rightarrow> bool" where
  "has_provider_id r \<longleftrightarrow> o_provider_order_id r \<noteq> None \<and> o_provider_order_id r \<noteq> Some []"

definition refund_record :: "string \<Rightarrow> int \<Rightarrow> db \<Rightarrow> db" where
  "refund_record key paise s =
     s\<lparr>idempotency_records := (idempotency_records s)(key \<mapsto>
         \<lparr>idem_scope = ''refund'', idem_response = RespRefund paise\<rparr>)\<rparr>"

definition credit_order :: "digest \<Rightarrow> order_row \<Rightarrow> int \<Rightarrow> string \<Rightarrow> string \<Rightarrow> db \<Rightarrow> (ledger_entry \<times> db) res" where
  "credit_order H r amount why key s =
     credit H (o_user_id r) amount why (Some key) (order_ref (o_public_id r)) s"

definition owed_on :: "order_row \<Rightarrow> db \<Rightarrow> int" where
  "owed_on r s = max 0 (o_charge_paise r - refunded_so_far r s)"

definition partial_amount :: "order_row \<Rightarrow> int \<Rightarrow> int" where
  "partial_amount r remains =
     py_round (f_mul (f_of_int (o_charge_paise r))
       (min 1 (max 0 (f_div (f_of_int remains) (f_of_int (o_quantity r))))))"

definition maybe_partial_refund :: "digest \<Rightarrow> order_row \<Rightarrow> int \<Rightarrow> db \<Rightarrow> db res" where
  "maybe_partial_refund H r remains s =
     (let key = new_idempotency_key H [''partial'', o_public_id r] in
      if remains \<le> 0 \<or> o_quantity r \<le> 0 then Inr s
      else if idempotency_records s key \<noteq> None then Inr s
      else
        let refund = min (partial_amount r remains) (owed_on r s)
        in if refund \<le> 0 then Inr s
           else if users s (o_user_id r) = None then Inr s
           else e_bind (credit_order H r refund (''Partial refund '' @ o_public_id r) key s) (\<lambda>(e, s).
                  Inr (refund_record key refund s)))"

definition refund_if_needed :: "digest \<Rightarrow> int \<Rightarrow> order_row \<Rightarrow> order_status \<Rightarrow> db \<Rightarrow> db res" where
  "refund_if_needed H now r mapped s =
     (let key = new_idempotency_key H [''refund'', o_public_id r, status_value mapped] in
      if idempotency_records s key \<noteq> None then Inr s
      else if users s (o_user_id r) = None \<or> o_charge_paise r \<le> 0 then Inr s
      else
        let owed = owed_on r s
        in if owed \<le> 0 then Inr s
           else e_bind (credit_order H r owed
               (''Refund '' @ o_public_id r @ '' ('' @ status_value mapped @ '')'') key s) (\<lambda>(e, s).
             let s = refund_record key owed s
             in Inr (if mapped \<noteq> Refunded
                  then record_event now (o_id r) Refunded (Some (''auto-refund after '' @ status_value mapped)) s
                  else s)))"

text \<open>
  \<open>sync_order_status\<close>. The counters move first; the transition, its money and its commission
  follow in the order of the code. After the transition \<open>order.status\<close> is the mapped status.
\<close>

definition sync_counters :: "provider_status \<Rightarrow> order_row \<Rightarrow> order_row" where
  "sync_counters st r =
     r\<lparr>o_start_count := (case st_start_count st of None \<Rightarrow> o_start_count r | Some n \<Rightarrow> Some n),
       o_remains := (case st_remains st of None \<Rightarrow> o_remains r | Some n \<Rightarrow> Some n)\<rparr>"

definition sync_transition ::
  "order_env \<Rightarrow> int \<Rightarrow> order_status \<Rightarrow> int option \<Rightarrow> db \<Rightarrow> db res" where
  "sync_transition env oid mapped remains s =
     (let H = env_digest env; now = env_now env;
          s = record_event now oid mapped (Some ''provider sync'') s in
      with_order oid s (\<lambda>r.
        e_bind (if mapped = Partial then
                  (case remains of None \<Rightarrow> Inr s | Some n \<Rightarrow> maybe_partial_refund H r n s)
                else Inr s) (\<lambda>s.
        e_bind (if mapped \<in> set [Canceled, Refunded, Failed] \<and> o_status r \<noteq> Refunded
                then refund_if_needed H now r mapped s else Inr s) (\<lambda>s.
        if mapped = Completed
        then e_bind (credit_order_commission H r s) (\<lambda>(e, s). Inr s) else Inr s))))"

text \<open>
  The column \<open>updated_at\<close> is declared with \<open>onupdate\<close>: every update of the row stamps it, so that
  writing \<open>last_synced_at\<close> stamps it even when nothing else has changed.
\<close>

definition stamp_sync :: "int \<Rightarrow> order_row \<Rightarrow> order_row" where
  "stamp_sync now r = r\<lparr>o_last_synced_at := Some now, o_updated_at := now\<rparr>"

definition sync_order_status ::
  "order_env \<Rightarrow> int \<Rightarrow> provider_status res \<Rightarrow> db \<Rightarrow> (int \<times> db) res" where
  "sync_order_status env oid answer s =
     with_order oid s (\<lambda>r.
       if o_status r \<in> set TERMINAL_STATUSES \<or> \<not> has_provider_id r then Inr (oid, s)
       else
         let synced = update_order oid (stamp_sync (env_now env))
         in case answer of
              Inl (ProviderError m b) \<Rightarrow> Inr (oid, synced s)
            | Inl e \<Rightarrow> Inl e
            | Inr st \<Rightarrow>
                let mapped = (if st_status st = Cancelled then Canceled else st_status st);
                    s = update_order oid (sync_counters st) s
                in e_bind (if mapped \<noteq> o_status r then sync_transition env oid mapped (st_remains st) s
                           else Inr s) (\<lambda>s. Inr (oid, synced s)))"

section \<open>Refill and cancel\<close>

text \<open>
  \<open>adapter\<close> is the outcome of \<open>adapter_for\<close>, \<open>answer\<close> that of the adapter's call; only a
  \<open>ProviderError\<close> of the call becomes an \<open>OrderError\<close>.
\<close>

definition provider_call :: "unit res \<Rightarrow> 'a res \<Rightarrow> 'a res" where
  "provider_call adapter answer =
     e_bind adapter (\<lambda>_. case answer of
        Inl (ProviderError m b) \<Rightarrow> Inl (OrderError m) | Inl e \<Rightarrow> Inl e | Inr x \<Rightarrow> Inr x)"

definition may_act_on :: "user_row \<Rightarrow> order_row \<Rightarrow> bool" where
  "may_act_on u r \<longleftrightarrow> o_user_id r = telegram_id u \<or> u_role u \<in> set [''admin'', ''owner'']"

definition request_refill ::
  "order_env \<Rightarrow> int \<Rightarrow> int \<Rightarrow> unit res \<Rightarrow> string res \<Rightarrow> db \<Rightarrow> (int \<times> db) res" where
  "request_refill env oid uid adapter answer s =
     e_bind (assert_refills_open s) (\<lambda>_.
     e_bind (lock_user uid s) (\<lambda>user.
     with_order oid s (\<lambda>r.
       if \<not> may_act_on user r then Inl (OrderError ''Not your order'')
       else if \<not> (case o_snapshot r of None \<Rightarrow> True | Some sn \<Rightarrow> snap_is_refillable sn)
       then Inl (OrderError ''This service does not support refill'')
       else if o_status r \<notin> set REFILLABLE_STATUSES
       then Inl (OrderError ''Refill is only available after completion'')
       else if \<not> has_provider_id r then Inl (OrderError ''No provider order to refill'')
       else e_bind (provider_call adapter answer) (\<lambda>refill_id.
         Inr (oid, record_event (env_now env) oid Refilling (Some (''refill '' @ refill_id))
           (update_order oid (\<lambda>r. r\<lparr>o_refill_count := o_refill_count r + 1,
              o_extra := dict_set ''last_refill_id'' (JStr refill_id) (o_extra r)\<rparr>) s))))))"

definition cancel_money :: "order_env \<Rightarrow> order_row \<Rightarrow> db \<Rightarrow> db res" where
  "cancel_money env r s =
     (let H = env_digest env in
      if users s (o_user_id r) = None \<or> o_charge_paise r \<le> 0 \<or> o_status r = REVIEW_STATUS then Inr s
      else if o_status r \<in> set [Pending, Awaiting_provider] then
        e_bind (release (o_user_id r) (o_charge_paise r) (''Release '' @ o_public_id r @ '' (cancel)'')
          (new_idempotency_key H [''release'', o_public_id r, ''cancel'']) (order_ref (o_public_id r)) s)
          (\<lambda>(e, s). Inr s)
      else if owed_on r s \<le> 0 then Inr s
      else e_bind (credit_order H r (owed_on r s) (''Refund '' @ o_public_id r @ '' (cancel)'')
          (new_idempotency_key H [''refund'', o_public_id r, ''cancel'']) s) (\<lambda>(e, s). Inr s))"

definition request_cancel ::
  "order_env \<Rightarrow> int \<Rightarrow> int \<Rightarrow> unit res \<Rightarrow> unit res \<Rightarrow> db \<Rightarrow> (int \<times> db) res" where
  "request_cancel env oid uid adapter answer s =
     e_bind (lock_user uid s) (\<lambda>user.
     with_order oid s (\<lambda>r.
       if \<not> may_act_on user r then Inl (OrderError ''Not your order'')
       else if \<not> (case o_snapshot r of None \<Rightarrow> True | Some sn \<Rightarrow> snap_is_cancelable sn)
       then Inl (OrderError ''This service cannot be canceled'')
       else if o_status r \<notin> set CANCELABLE_STATUSES
       then Inl (OrderError ''This order can no longer be canceled'')
       else e_bind (if has_provider_id r then provider_call adapter answer else Inr ()) (\<lambda>_.
         e_bind (cancel_money env r s) (\<lambda>s.
           Inr (oid, record_event (env_now env) oid Canceled (Some ''user cancel'') s)))))"

section \<open>Review\<close>

definition resolve_review_order ::
  "order_env \<Rightarrow> int \<Rightarrow> bool \<Rightarrow> string option \<Rightarrow> string \<Rightarrow> db \<Rightarrow> (int \<times> db) res" where
  "resolve_review_order env oid release_funds attach actor s =
     (let H = env_digest env; now = env_now env; attached = (attach \<noteq> None \<and> attach \<noteq> Some []) in
      with_order oid s (\<lambda>r.
        if o_status r \<noteq> REVIEW_STATUS then Inl (OrderError ''Order is not under review'')
        else if release_funds = attached
        then Inl (OrderError ''Choose exactly one: release the funds or attach a provider order id'')
        else if users s (o_user_id r) = None then Inl (OrderError ''Order owner not found'')
        else if release_funds then
          e_bind (fail_and_release H now r (o_charge_paise r) ''Not accepted by provider'' ''review'' s)
            (\<lambda>s. Inr (oid, audit actor ''order.review.release'' (Some (o_public_id r)) None s))
        else
          let ext = take 64 (case attach of None \<Rightarrow> [] | Some x \<Rightarrow> x)
          in e_bind (capture_order H r (update_order oid (\<lambda>r. r\<lparr>o_provider_order_id := Some ext\<rparr>) s))
               (\<lambda>(e, s). Inr (oid, audit actor ''order.review.attach'' (Some (o_public_id r)) None
                 (record_event now oid Processing (Some (''Provider order '' @ ext @ '' (manual)''))
                   (update_order oid (\<lambda>r. r\<lparr>o_fail_reason := None\<rparr>) s))))))"

definition flag_order :: "order_env \<Rightarrow> db \<Rightarrow> order_row \<Rightarrow> db" where
  "flag_order env s r =
     audit ''system'' ''order.review'' (Some (o_public_id r)) (Some ''stuck before provider outcome'')
       (record_event (env_now env) (o_id r) REVIEW_STATUS
          (Some ''stuck after reserve; needs operator review'')
          (update_order (o_id r)
            (\<lambda>r. r\<lparr>o_fail_reason := Some ''Waiting for provider confirmation''\<rparr>) s))"

definition stuck_orders :: "order_env \<Rightarrow> int \<Rightarrow> nat \<Rightarrow> db \<Rightarrow> order_row list" where
  "stuck_orders env older_than_seconds limit s =
     take limit (filter (\<lambda>r. o_status r \<in> set [Pending, Awaiting_provider] \<and>
       o_provider_order_id r = None \<and>
       o_updated_at r \<le> env_now env - older_than_seconds * 1000000) (orders s))"

definition flag_stuck_orders :: "order_env \<Rightarrow> int \<Rightarrow> nat \<Rightarrow> db \<Rightarrow> int list \<times> db" where
  "flag_stuck_orders env older_than_seconds limit s =
     (let rows = stuck_orders env older_than_seconds limit s
      in (map o_id rows, foldl (flag_order env) s rows))"

end
