(* ===== verification/OrderMoney.thy ===== *)
theory OrderMoney
  imports Orders
begin

text \<open>
  The money of the order engine. The invariant \<open>book_inv\<close> says that the wallets agree with the
  ledger, that order ids and public ids are unique, and that no order has been refunded beyond
  its charge; every operation of \<open>Orders\<close> keeps it.
\<close>

section \<open>Frames\<close>

definition order_ident :: "order_row \<Rightarrow> int \<times> string \<times> int \<times> int" where
  "order_ident r = (o_id r, o_public_id r, o_user_id r, o_charge_paise r)"

definition idents :: "db \<Rightarrow> (int \<times> string \<times> int \<times> int) list" where
  "idents s = map order_ident (orders s)"

lemma idents_update_order:
  "(\<And>r. order_ident (f r) = order_ident r) \<Longrightarrow> idents (update_order oid f s) = idents s"
  unfolding idents_def update_order_def by simp

text \<open>The four tables that the invariants read.\<close>

definition books :: "db \<Rightarrow> (int \<Rightarrow> user_row option) \<times> ledger_entry list \<times>
    (int \<times> string \<times> int \<times> int) list \<times> int" where
  "books s = (users s, ledger s, idents s, next_order_id s)"

lemma books_eq:
  "books t = books s \<longleftrightarrow> users t = users s \<and> ledger t = ledger s \<and> idents t = idents s \<and>
     next_order_id t = next_order_id s"
  by (simp add: books_def)

lemma books_update_order [order_frames]:
  "(\<And>r. order_ident (f r) = order_ident r) \<Longrightarrow> books (update_order oid f s) = books s"
  by (simp add: books_eq idents_update_order) (simp add: update_order_def)

lemma books_record_event [order_frames]: "books (record_event now oid st note s) = books s"
proof (cases "order_by_id oid s")
  case None
  then show ?thesis by (simp add: record_event_def)
next
  case (Some r)
  let ?f = "\<lambda>r. r\<lparr>o_status := st, o_updated_at := now\<rparr>"
  have "books (update_order oid ?f (s\<lparr>order_events := es\<rparr>)) = books (s\<lparr>order_events := es\<rparr>)" for es
    by (intro books_update_order) (simp add: order_ident_def)
  then show ?thesis by (simp add: record_event_def Some books_def idents_def)
qed

lemma books_audit [order_frames]: "books (audit who what target why s) = books s"
  by (simp add: audit_def books_def idents_def)

lemma books_use_coupon [order_frames]: "books (use_coupon r s) = books s"
  by (simp add: use_coupon_def books_def idents_def split: option.split)

lemma books_add_reseller_order [order_frames]: "books (add_reseller_order r q s) = books s"
  by (simp add: add_reseller_order_def books_def idents_def)

lemma books_refund_record [order_frames]: "books (refund_record k p s) = books s"
  by (simp add: refund_record_def books_def idents_def)

lemma books_release_coupon_use [order_frames]: "release_coupon_use r s = Inr t \<Longrightarrow> books t = books s"
  by (auto simp: release_coupon_use_def Let_def books_def idents_def
      split: option.split_asm if_split_asm)

lemma order_ident_fields:
  assumes "order_ident r = order_ident r'"
  shows "o_id r = o_id r'" "o_public_id r = o_public_id r'" "o_user_id r = o_user_id r'"
    "o_charge_paise r = o_charge_paise r'"
  using assms by (simp_all add: order_ident_def)

lemma order_by_id_ident:
  "order_by_id oid s = Some r \<Longrightarrow> order_ident r \<in> set (idents s) \<and> o_id r = oid"
  by (auto simp: order_by_id_def idents_def dest!: find_by_Some)

section \<open>The invariant\<close>

definition ref_sum :: "string \<Rightarrow> int \<Rightarrow> ledger_entry list \<Rightarrow> int" where
  "ref_sum pid uid es =
     sum_list (map e_amount_paise (filter (\<lambda>e. e_reference_type e = Some ''order'' \<and>
       e_reference_id e = Some pid \<and> e_entry_type e = Credit \<and> e_user_id e = uid) es))"

lemma refunded_so_far_ref_sum: "refunded_so_far r s = ref_sum (o_public_id r) (o_user_id r) (ledger s)"
  by (simp add: refunded_so_far_def ref_sum_def)

lemma ref_sum_append:
  "ref_sum pid uid (es @ [e]) = ref_sum pid uid es +
     (if e_reference_type e = Some ''order'' \<and> e_reference_id e = Some pid \<and>
         e_entry_type e = Credit \<and> e_user_id e = uid then e_amount_paise e else 0)"
  by (simp add: ref_sum_def)

definition book_inv :: "db \<Rightarrow> bool" where
  "book_inv s \<longleftrightarrow>
     wallet_inv s \<and> distinct (map fst (idents s)) \<and> distinct (map (fst \<circ> snd) (idents s)) \<and>
     (\<forall>(i, pid, uid, c) \<in> set (idents s). i < next_order_id s \<and> 0 < c \<and>
        ref_sum pid uid (ledger s) \<le> c) \<and>
     (\<forall>e \<in> set (ledger s). e_reference_type e = Some ''order'' \<longrightarrow>
        e_reference_id e \<in> Some ` (fst \<circ> snd) ` set (idents s))"

lemma book_inv_frame:
  assumes "books t = books s"
  shows "book_inv t \<longleftrightarrow> book_inv s"
proof -
  have "users t = users s" "ledger t = ledger s" "idents t = idents s" "next_order_id t = next_order_id s"
    using assms by (simp_all add: books_eq)
  then show ?thesis using wallet_inv_cong [of t s] by (simp add: book_inv_def)
qed

lemma book_inv_wallet: "book_inv s \<Longrightarrow> wallet_inv s"
  by (simp add: book_inv_def)

lemma book_inv_ident:
  assumes "book_inv s" and "order_ident r \<in> set (idents s)"
  shows "0 < o_charge_paise r" and "refunded_so_far r s \<le> o_charge_paise r"
    and "o_id r < next_order_id s"
  using assms by (auto simp: book_inv_def order_ident_def refunded_so_far_ref_sum)

lemma book_inv_parts:
  assumes "book_inv s"
  shows "wallet_inv s" and "distinct (map fst (idents s))" and "distinct (map (fst \<circ> snd) (idents s))"
    and "(i, pid, uid, c) \<in> set (idents s) \<Longrightarrow> i < next_order_id s \<and> 0 < c \<and> ref_sum pid uid (ledger s) \<le> c"
    and "e \<in> set (ledger s) \<Longrightarrow> e_reference_type e = Some ''order'' \<Longrightarrow>
      e_reference_id e \<in> Some ` (fst \<circ> snd) ` set (idents s)"
  using assms unfolding book_inv_def by blast+

text \<open>
  What a money step may be: a posting that has nothing to do with orders, one that is no credit,
  or a credit to the owner of an order of at most what is still owed on it.
\<close>

definition fair_posting :: "db \<Rightarrow> entry_type \<Rightarrow> int \<Rightarrow> int \<Rightarrow> entry_refs \<Rightarrow> bool" where
  "fair_posting s t uid a refs \<longleftrightarrow>
     ref_type refs \<noteq> Some ''order'' \<or>
     (\<exists>r. order_ident r \<in> set (idents s) \<and> ref_id refs = Some (o_public_id r) \<and>
        (t \<noteq> Credit \<or> (uid = o_user_id r \<and> refunded_so_far r s + a \<le> o_charge_paise r)))"

lemma fair_posting_bound:
  assumes inv: "book_inv s" and fair: "fair_posting s t uid a refs"
    and p: "posted uid (entry_amount t a) t k refs b q s e s'"
    and mem: "(i, pid, v, c) \<in> set (idents s)"
  shows "ref_sum pid v (ledger s') \<le> c"
proof -
  have old: "ref_sum pid v (ledger s) \<le> c" using inv mem by (auto simp: book_inv_def)
  have led: "ledger s' = ledger s @ [e]" and e: "e_reference_type e = ref_type refs"
    "e_reference_id e = ref_id refs" "e_entry_type e = t" "e_user_id e = uid"
    "e_amount_paise e = entry_amount t a"
    using p by (auto simp: posted_def)
  show ?thesis
  proof (cases "ref_type refs = Some ''order'' \<and> ref_id refs = Some pid \<and> t = Credit \<and> uid = v")
    case False
    then show ?thesis using old by (auto simp: led ref_sum_append e)
  next
    case True
    then obtain r where r: "order_ident r \<in> set (idents s)" "o_public_id r = pid"
      "uid = o_user_id r" "refunded_so_far r s + a \<le> o_charge_paise r"
      using fair by (auto simp: fair_posting_def)
    have "(i, pid, v, c) = order_ident r"
    proof (rule inj_onD)
      show "inj_on (fst \<circ> snd) (set (idents s))" using inv by (simp add: book_inv_def distinct_map)
      show "(fst \<circ> snd) (i, pid, v, c) = (fst \<circ> snd) (order_ident r)"
        using r(2) by (simp add: order_ident_def)
    qed (use mem r(1) in simp_all)
    then show ?thesis
      using True r by (simp add: led ref_sum_append e refunded_so_far_ref_sum order_ident_def)
  qed
qed

lemma same_tables_idents: "same_tables s t \<Longrightarrow> idents t = idents s \<and> next_order_id t = next_order_id s"
  by (simp add: idents_def same_tables_fields)

lemma book_inv_effect:
  assumes inv: "book_inv s" and eff: "wallet_effect t uid a refs s e s'"
    and fair: "fair_posting s t uid a refs"
  shows "book_inv s'"
  using eff
proof (cases rule: effect_cases)
  case replay
  with inv show ?thesis by simp
next
  case (post k u q)
  have "wallet_inv s'" using book_inv_wallet [OF inv] eff by (rule wallet_inv_effect)
  moreover have tabs: "idents s' = idents s" "next_order_id s' = next_order_id s"
    using effect_same_tables [OF eff] same_tables_idents by auto
  moreover have "ref_sum pid v (ledger s') \<le> c" if "(i, pid, v, c) \<in> set (idents s)" for i pid v c
    using fair_posting_bound [OF inv fair post(3) that] .
  moreover have "e_reference_id x \<in> Some ` (fst \<circ> snd) ` set (idents s)"
    if "x \<in> set (ledger s')" and "e_reference_type x = Some ''order''" for x
  proof (cases "x = e")
    case True
    with that post(3) have "ref_type refs = Some ''order''" "e_reference_id x = ref_id refs"
      by (auto simp: posted_def)
    with fair show ?thesis by (force simp: fair_posting_def order_ident_def)
  next
    case False
    with that post(3) have "x \<in> set (ledger s)" by (auto simp: posted_def)
    with that inv show ?thesis by (auto simp: book_inv_def)
  qed
  ultimately show ?thesis
    using inv unfolding book_inv_def by (fastforce simp: tabs)
qed

section \<open>The building blocks keep it\<close>

lemma order_ref_simps [simp]: "ref_type (order_ref pid) = Some ''order''" "ref_id (order_ref pid) = Some pid"
  by (simp_all add: order_ref_def)

lemma fair_hold:
  "order_ident r \<in> set (idents s) \<Longrightarrow> t \<noteq> Credit \<Longrightarrow> fair_posting s t uid a (order_ref (o_public_id r))"
  by (auto simp: fair_posting_def)

lemma effect_idents: "wallet_effect t uid a refs s e s' \<Longrightarrow> idents s' = idents s"
  using effect_same_tables same_tables_idents by blast

lemma book_inv_hold:
  assumes "book_inv s" and "order_ident r \<in> set (idents s)" and "t \<noteq> Credit"
    and "wallet_effect t uid a (order_ref (o_public_id r)) s e s'"
  shows "book_inv s' \<and> idents s' = idents s"
  using book_inv_effect [OF assms(1,4) fair_hold [OF assms(2,3)]] effect_idents [OF assms(4)] by simp

lemma idents_of_books: "books t = books s \<Longrightarrow> idents t = idents s"
  by (simp add: books_eq)

lemmas frame_rules = books_record_event books_audit books_use_coupon books_add_reseller_order
  books_refund_record

lemma fail_and_release_book:
  assumes "fail_and_release H now r c why tag s = Inr t" and "book_inv s"
    and "order_ident r \<in> set (idents s)"
  shows "book_inv t \<and> idents t = idents s"
proof -
  let ?f = "\<lambda>r. r\<lparr>o_fail_reason := Some (take 255 why)\<rparr>"
  obtain e s1 s2 where rel: "release (o_user_id r) c (''Release '' @ o_public_id r @ '' ('' @ tag @ '')'')
       (new_idempotency_key H [''release'', o_public_id r, tag]) (order_ref (o_public_id r)) s = Inr (e, s1)"
    and cpn: "release_coupon_use r s1 = Inr s2"
    and t: "t = record_event now (o_id r) Failed (Some (take 255 why)) (update_order (o_id r) ?f s2)"
    using assms(1) by (auto simp: fail_and_release_def)
  have "book_inv s1" "idents s1 = idents s"
    using book_inv_hold [OF assms(2,3) _ release_effect [OF rel]] by auto
  moreover have "books t = books s1"
    using books_release_coupon_use [OF cpn] books_update_order [of ?f "o_id r" s2]
    by (simp add: t books_record_event order_ident_def)
  ultimately show ?thesis using book_inv_frame idents_of_books by metis
qed

lemma capture_order_book:
  assumes "capture_order H r s = Inr (e, t)" and "book_inv s" and "order_ident r \<in> set (idents s)"
  shows "book_inv t \<and> idents t = idents s"
  using book_inv_hold [OF assms(2,3) _ capture_effect [OF assms(1) [unfolded capture_order_def]]] by simp

lemma credit_order_book:
  assumes "credit_order H r a why key s = Inr (e, t)" and "book_inv s"
    and "order_ident r \<in> set (idents s)" and "refunded_so_far r s + a \<le> o_charge_paise r"
  shows "book_inv t \<and> idents t = idents s"
proof -
  have eff: "wallet_effect Credit (o_user_id r) a (order_ref (o_public_id r)) s e t"
    using assms(1) unfolding credit_order_def by (rule credit_effect)
  have "fair_posting s Credit (o_user_id r) a (order_ref (o_public_id r))"
    using assms(3,4) by (auto simp: fair_posting_def)
  then show ?thesis using book_inv_effect [OF assms(2) eff] effect_idents [OF eff] by simp
qed

lemma owed_fair: "a \<le> owed_on r s \<Longrightarrow> 0 < a \<Longrightarrow> refunded_so_far r s + a \<le> o_charge_paise r"
  by (auto simp: owed_on_def)

lemma maybe_partial_refund_book:
  assumes "maybe_partial_refund H r n s = Inr t" and "book_inv s" and "order_ident r \<in> set (idents s)"
  shows "book_inv t \<and> idents t = idents s"
proof (cases "t = s")
  case False
  let ?key = "new_idempotency_key H [''partial'', o_public_id r]"
  let ?a = "min (partial_amount r n) (owed_on r s)"
  obtain e u where c: "credit_order H r ?a (''Partial refund '' @ o_public_id r) ?key s = Inr (e, u)"
    and t: "t = refund_record ?key ?a u" and pos: "0 < ?a"
    using assms(1) False by (auto simp: maybe_partial_refund_def Let_def not_le split: if_split_asm)
  have "refunded_so_far r s + ?a \<le> o_charge_paise r" using pos by (intro owed_fair) auto
  from credit_order_book [OF c assms(2,3) this] show ?thesis
    using book_inv_frame [OF books_refund_record] idents_of_books [OF books_refund_record] t by metis
qed (use assms in simp)

lemma refund_if_needed_book:
  assumes "refund_if_needed H now r m s = Inr t" and "book_inv s" and "order_ident r \<in> set (idents s)"
  shows "book_inv t \<and> idents t = idents s"
proof (cases "t = s")
  case False
  let ?key = "new_idempotency_key H [''refund'', o_public_id r, status_value m]"
  obtain e u why where c: "credit_order H r (owed_on r s) why ?key s = Inr (e, u)"
    and b: "books t = books u" and pos: "0 < owed_on r s"
    using assms(1) False
    by (auto simp: refund_if_needed_def Let_def not_le frame_rules split: if_split_asm)
  have "refunded_so_far r s + owed_on r s \<le> o_charge_paise r" using pos by (intro owed_fair) auto
  from credit_order_book [OF c assms(2,3) this] show ?thesis
    using book_inv_frame [OF b] idents_of_books [OF b] by simp
qed (use assms in simp)

lemma order_commission_book:
  assumes "credit_order_commission H r s = Inr (x, t)" and "book_inv s"
  shows "book_inv t \<and> idents t = idents s"
  using assms(1)
proof (cases rule: order_commission_cases)
  case none
  with assms(2) show ?thesis by simp
next
  case (paid ref e refs why)
  then have eff: "wallet_effect Credit ref
      (commission_paise (o_charge_paise r) REFERRAL_ORDER_COMMISSION_PERCENT) refs s e t"
    by (blast dest: wallet_op_effect)
  have "ref_type refs \<noteq> Some ''order''" using paid by (simp add: referral_ref_def)
  then show ?thesis
    using book_inv_effect [OF assms(2) eff] effect_idents [OF eff] by (simp add: fair_posting_def)
qed

section \<open>The operations keep it\<close>

lemma insert_order_book:
  assumes "insert_order r s = Inr t" and "book_inv s" and "o_id r = next_order_id s"
    and "0 < o_charge_paise r"
  shows "book_inv t \<and> idents t = idents s @ [order_ident r]"
proof -
  have new: "o_public_id r \<notin> (fst \<circ> snd) ` set (idents s)"
    and t: "idents t = idents s @ [order_ident r]" "users t = users s" "ledger t = ledger s"
      "next_order_id t = o_id r + 1"
    using assms(1) by (auto simp: insert_order_def idents_def order_ident_def image_iff split: if_split_asm)
  have "ref_sum (o_public_id r) uid (ledger s) = 0" for uid
  proof -
    have "e_reference_id e \<noteq> Some (o_public_id r)"
      if "e \<in> set (ledger s)" "e_reference_type e = Some ''order''" for e
      using book_inv_parts(5) [OF assms(2) that] new by (auto simp del: comp_apply)
    then have "filter (\<lambda>e. e_reference_type e = Some ''order'' \<and> e_reference_id e = Some (o_public_id r) \<and>
        e_entry_type e = Credit \<and> e_user_id e = uid) (ledger s) = []"
      by (auto simp: filter_empty_conv)
    then show ?thesis by (simp add: ref_sum_def)
  qed
  then have fresh: "ref_sum (o_public_id r) (o_user_id r) (ledger s) = 0" .
  have "wallet_inv t" using assms(2) wallet_inv_cong [of t s] t by (simp add: book_inv_def)
  moreover have "o_id r \<notin> fst ` set (idents s)"
    using book_inv_parts(4) [OF assms(2)] assms(3) by force
  then have "distinct (map fst (idents t))"
    using book_inv_parts(2) [OF assms(2)] by (simp add: t order_ident_def)
  moreover have "distinct (map (fst \<circ> snd) (idents t))"
    using assms(2) new by (simp add: book_inv_def t order_ident_def)
  moreover have "\<forall>(i, pid, uid, c) \<in> set (idents t). i < next_order_id t \<and> 0 < c \<and>
      ref_sum pid uid (ledger t) \<le> c"
  proof -
    have "\<forall>(i, pid, uid, c) \<in> set (idents s). i < next_order_id t \<and> 0 < c \<and>
        ref_sum pid uid (ledger t) \<le> c"
      using assms(2,3) unfolding book_inv_def t by force
    moreover have "case order_ident r of (i, pid, uid, c) \<Rightarrow> i < next_order_id t \<and> 0 < c \<and>
        ref_sum pid uid (ledger t) \<le> c"
      using assms(4) fresh by (simp add: t order_ident_def)
    ultimately show ?thesis by (simp add: t)
  qed
  moreover have "\<forall>e \<in> set (ledger t). e_reference_type e = Some ''order'' \<longrightarrow>
      e_reference_id e \<in> Some ` (fst \<circ> snd) ` set (idents t)"
    using assms(2) by (auto simp: book_inv_def t)
  ultimately show ?thesis unfolding book_inv_def t by simp
qed

lemma submit_order_book:
  assumes "submit_order env r answer s = Inr t" and "book_inv s" and "order_ident r \<in> set (idents s)"
  shows "book_inv t \<and> idents t = idents s"
proof (cases answer)
  case (Inr ext)
  let ?f = "\<lambda>r. r\<lparr>o_provider_order_id := Some ext\<rparr>"
  let ?s = "update_order (o_id r) ?f s"
  have b: "books ?s = books s" by (intro books_update_order) (simp add: order_ident_def)
  obtain e u where c: "capture_order (env_digest env) r ?s = Inr (e, u)"
    and t: "t = record_event (env_now env) (o_id r) Processing (Some (''Provider order '' @ ext)) u"
    using assms(1) Inr by (auto simp: submit_order_def)
  have "book_inv u \<and> idents u = idents s"
    using capture_order_book [OF c] assms(2,3) book_inv_frame [OF b] idents_of_books [OF b] by simp
  then show ?thesis
    using book_inv_frame [OF books_record_event] idents_of_books [OF books_record_event] by (simp add: t)
next
  case (Inl err)
  have "(\<exists>why tag. fail_and_release (env_digest env) (env_now env) r (o_charge_paise r) why tag s = Inr t)
      \<or> books t = books s"
    using assms(1) Inl
    by (auto simp: submit_order_def Let_def frame_rules books_update_order order_ident_def
        split: exn.split_asm if_split_asm)
  then show ?thesis
    using fail_and_release_book [OF _ assms(2,3)] book_inv_frame idents_of_books assms(2) by blast
qed

lemma commit_order_book:
  assumes "commit_order env r quote answer s = Inr (oid, t)" and "book_inv s"
    and "o_id r = next_order_id s" and "0 < o_charge_paise r"
  shows "book_inv t \<and> idents t = idents s @ [order_ident r] \<and> oid = o_id r"
proof -
  let ?why = "''Reserve for '' @ o_public_id r"
  let ?key = "new_idempotency_key (env_digest env) [''reserve'', o_public_id r]"
  obtain s1 e s2 where ins: "insert_order r s = Inr s1"
    and res: "reserve (o_user_id r) (o_charge_paise r) ?why ?key (order_ref (o_public_id r))
      (add_reseller_order r quote s1) = Inr (e, s2)"
    and sub: "submit_order env r answer (use_coupon r
      (record_event (env_now env) (o_id r) Awaiting_provider (Some ''Funds reserved'') s2)) = Inr t"
    and oid: "oid = o_id r"
    using assms(1) by (auto simp: commit_order_def)
  let ?s1 = "add_reseller_order r quote s1"
  let ?s2 = "use_coupon r
    (record_event (env_now env) (o_id r) Awaiting_provider (Some ''Funds reserved'') s2)"
  have s1: "book_inv ?s1" "idents ?s1 = idents s @ [order_ident r]"
    using insert_order_book [OF ins assms(2-4)] book_inv_frame [OF books_add_reseller_order]
      idents_of_books [OF books_add_reseller_order] by auto
  then have mem: "order_ident r \<in> set (idents ?s1)" by simp
  have s2: "book_inv s2" "idents s2 = idents s @ [order_ident r]"
    using book_inv_hold [OF s1(1) mem _ reserve_effect [OF res]] s1(2) by auto
  have b: "books ?s2 = books s2" by (simp add: frame_rules)
  have inv2: "book_inv ?s2" and ids: "idents ?s2 = idents s @ [order_ident r]"
    using s2 book_inv_frame [OF b] idents_of_books [OF b] by simp_all
  have "order_ident r \<in> set (idents ?s2)" unfolding ids by simp
  from submit_order_book [OF sub inv2 this] show ?thesis using oid ids by simp
qed

lemma place_order_cases:
  assumes "place_order env q answer s = Inr (oid, t)"
  obtains (replay) old key where "t = s" "oid = o_id old" "load_idempotent_order key s = Some old"
      "o_status old \<noteq> Failed"
  | (fresh) svc link extra quote key u where
      "users s (pr_user q) = Some u" "q_charge_paise quote \<le> available_paise u" "0 < q_charge_paise quote"
      "quote_order s (env_now env) (s_id svc) (pr_quantity q) (Some (pr_user q)) (pr_coupon q) = Inr quote"
      "commit_order env (new_order env q svc link extra quote key (next_order_id s)) quote answer s
         = Inr (oid, t)"
proof -
  have "(\<exists>old key. t = s \<and> oid = o_id old \<and> load_idempotent_order key s = Some old \<and> o_status old \<noteq> Failed) \<or>
    (\<exists>svc link extra quote key u. users s (pr_user q) = Some u \<and>
      q_charge_paise quote \<le> available_paise u \<and> 0 < q_charge_paise quote \<and>
      quote_order s (env_now env) (s_id svc) (pr_quantity q) (Some (pr_user q)) (pr_coupon q) = Inr quote \<and>
      commit_order env (new_order env q svc link extra quote key (next_order_id s)) quote answer s
         = Inr (oid, t))"
    using assms unfolding place_order_def lock_user_def Let_def
    by (fastforce simp: not_le not_less split: option.split_asm if_split_asm)
  with replay fresh show thesis by blast
qed

lemma place_order_book:
  assumes "place_order env q answer s = Inr (oid, t)" and "book_inv s"
  shows "book_inv t"
  using assms(1)
proof (cases rule: place_order_cases)
  case replay
  with assms(2) show ?thesis by simp
next
  case (fresh svc link extra quote key u)
  show ?thesis
    using commit_order_book [OF fresh(5) assms(2)] fresh(3) by (simp add: new_order_def)
qed

lemma with_order_Inr: "with_order oid s f = Inr y \<longleftrightarrow> (\<exists>r. order_by_id oid s = Some r \<and> f r = Inr y)"
  by (auto simp: with_order_def split: option.splits)

lemma sync_transition_book:
  assumes "sync_transition env oid mapped remains s = Inr t" and "book_inv s"
  shows "book_inv t \<and> idents t = idents s"
proof -
  let ?H = "env_digest env" and ?now = "env_now env"
  let ?s = "record_event ?now oid mapped (Some ''provider sync'') s"
  have b: "books ?s = books s" by (simp add: frame_rules)
  then have s: "book_inv ?s" "idents ?s = idents s"
    using book_inv_frame [OF b] idents_of_books [OF b] assms(2) by auto
  obtain r s1 s2 where r: "order_by_id oid ?s = Some r"
    and one: "s1 = ?s \<or> (\<exists>n. maybe_partial_refund ?H r n ?s = Inr s1)"
    and two: "s2 = s1 \<or> refund_if_needed ?H ?now r mapped s1 = Inr s2"
    and three: "t = s2 \<or> (\<exists>e. credit_order_commission ?H r s2 = Inr (e, t))"
    using assms(1)
    by (auto simp: sync_transition_def Let_def with_order_Inr split: if_split_asm option.split_asm)
  have mem: "order_ident r \<in> set (idents s)" using order_by_id_ident [OF r] s(2) by simp
  have s1: "book_inv s1 \<and> idents s1 = idents s"
    using one maybe_partial_refund_book [of ?H r _ ?s s1] s mem by metis
  then have s2: "book_inv s2 \<and> idents s2 = idents s"
    using two refund_if_needed_book [of ?H ?now r mapped s1 s2] mem by metis
  then show ?thesis using three order_commission_book [of ?H r s2 _ t] by metis
qed

lemma sync_counters_ident [simp]: "order_ident (sync_counters st r) = order_ident r"
  by (simp add: sync_counters_def order_ident_def)

lemma books_sync_counters [simp]: "books (update_order oid (sync_counters st) s) = books s"
  by (intro books_update_order) simp

lemma books_stamps [simp]:
  "books (update_order oid (stamp_sync now) s) = books s"
  by (intro books_update_order) (simp add: order_ident_def stamp_sync_def)

lemma sync_order_status_book:
  assumes "sync_order_status env oid answer s = Inr (i, t)" and "book_inv s"
  shows "book_inv t \<and> idents t = idents s"
proof -
  have "books t = books s \<or> (\<exists>st m u. books t = books u \<and>
      sync_transition env oid m (st_remains st) (update_order oid (sync_counters st) s) = Inr u)"
  proof (cases answer)
    case (Inl e)
    then show ?thesis
      using assms(1)
      by (cases e) (auto simp: sync_order_status_def Let_def with_order_Inr split: if_split_asm)
  next
    case (Inr st)
    then show ?thesis
      using assms(1)
      by (auto simp: sync_order_status_def Let_def with_order_Inr split: if_split_asm)
  qed
  then obtain u where u: "books t = books u" and step: "books u = books s \<or>
    (\<exists>st m. sync_transition env oid m (st_remains st) (update_order oid (sync_counters st) s) = Inr u)"
    by blast
  have "book_inv u \<and> idents u = idents s"
    using step
  proof
    assume "books u = books s"
    then show ?thesis using assms(2) book_inv_frame idents_of_books by blast
  next
    assume "\<exists>st m. sync_transition env oid m (st_remains st) (update_order oid (sync_counters st) s) = Inr u"
    then show ?thesis
      using sync_transition_book assms(2) book_inv_frame [OF books_sync_counters]
        idents_of_books [OF books_sync_counters] by metis
  qed
  then show ?thesis using book_inv_frame [OF u] idents_of_books [OF u] by simp
qed

lemma request_refill_book:
  assumes "request_refill env oid uid adapter answer s = Inr (i, t)"
  shows "books t = books s"
  using assms
  by (auto simp: request_refill_def with_order_Inr frame_rules books_update_order order_ident_def
      split: if_split_asm)

lemma cancel_money_book:
  assumes "cancel_money env r s = Inr t" and "book_inv s" and "order_ident r \<in> set (idents s)"
  shows "book_inv t \<and> idents t = idents s"
proof -
  let ?H = "env_digest env"
  have cases: "t = s \<or>
    (\<exists>e why key. release (o_user_id r) (o_charge_paise r) why key (order_ref (o_public_id r)) s = Inr (e, t)) \<or>
    (\<exists>e why key. 0 < owed_on r s \<and> credit_order ?H r (owed_on r s) why key s = Inr (e, t))"
    using assms(1) by (auto simp: cancel_money_def Let_def not_le split: if_split_asm)
  then show ?thesis
  proof (elim disjE exE conjE)
    fix e why key
    assume "release (o_user_id r) (o_charge_paise r) why key (order_ref (o_public_id r)) s = Inr (e, t)"
    then show ?thesis using book_inv_hold [OF assms(2,3) _ release_effect] by blast
  next
    fix e why key
    assume pos: "0 < owed_on r s" and c: "credit_order ?H r (owed_on r s) why key s = Inr (e, t)"
    have "refunded_so_far r s + owed_on r s \<le> o_charge_paise r" using pos by (intro owed_fair) auto
    then show ?thesis using credit_order_book [OF c assms(2,3)] by blast
  qed (use assms in simp)
qed

lemma request_cancel_book:
  assumes "request_cancel env oid uid adapter answer s = Inr (i, t)" and "book_inv s"
  shows "book_inv t \<and> idents t = idents s"
proof -
  obtain r u where r: "order_by_id oid s = Some r" and m: "cancel_money env r s = Inr u"
    and t: "t = record_event (env_now env) oid Canceled (Some ''user cancel'') u"
    using assms(1) by (auto simp: request_cancel_def with_order_Inr split: if_split_asm)
  have "book_inv u \<and> idents u = idents s"
    using cancel_money_book [OF m assms(2)] order_by_id_ident [OF r] by blast
  then show ?thesis
    using book_inv_frame [OF books_record_event] idents_of_books [OF books_record_event] by (simp add: t)
qed

lemma resolve_review_order_book:
  assumes "resolve_review_order env oid rel attach actor s = Inr (i, t)" and "book_inv s"
  shows "book_inv t \<and> idents t = idents s"
proof -
  let ?H = "env_digest env"
  obtain r where r: "order_by_id oid s = Some r"
    using assms(1) by (auto simp: resolve_review_order_def with_order_Inr Let_def)
  have mem: "order_ident r \<in> set (idents s)" using order_by_id_ident [OF r] by simp
  have "\<exists>u. books t = books u \<and>
    ((\<exists>why tag. fail_and_release ?H (env_now env) r (o_charge_paise r) why tag s = Inr u) \<or>
     (\<exists>e ext. capture_order ?H r (update_order oid (\<lambda>r. r\<lparr>o_provider_order_id := Some ext\<rparr>) s) = Inr (e, u)))"
    using assms(1) r
    by (fastforce simp: resolve_review_order_def with_order_Inr Let_def frame_rules books_update_order
        order_ident_def split: if_split_asm)
  then obtain u where u: "books t = books u"
    and step: "(\<exists>why tag. fail_and_release ?H (env_now env) r (o_charge_paise r) why tag s = Inr u) \<or>
     (\<exists>e ext. capture_order ?H r (update_order oid (\<lambda>r. r\<lparr>o_provider_order_id := Some ext\<rparr>) s) = Inr (e, u))"
    by blast
  have b: "books (update_order oid (\<lambda>r. r\<lparr>o_provider_order_id := Some ext\<rparr>) s) = books s" for ext
    by (intro books_update_order) (simp add: order_ident_def)
  have "book_inv u \<and> idents u = idents s"
    using step
  proof (elim disjE exE)
    fix why tag
    assume "fail_and_release ?H (env_now env) r (o_charge_paise r) why tag s = Inr u"
    then show ?thesis using fail_and_release_book assms(2) mem by blast
  next
    fix e ext
    assume c: "capture_order ?H r (update_order oid (\<lambda>r. r\<lparr>o_provider_order_id := Some ext\<rparr>) s) = Inr (e, u)"
    show ?thesis
      using capture_order_book [OF c] assms(2) mem book_inv_frame [OF b] idents_of_books [OF b] by simp
  qed
  then show ?thesis using book_inv_frame [OF u] idents_of_books [OF u] by simp
qed

lemma flag_order_books: "books (flag_order env s r) = books s"
  unfolding flag_order_def
  by (simp add: frame_rules) (intro books_update_order, simp add: order_ident_def)

lemma flag_stuck_orders_books: "books (snd (flag_stuck_orders env age limit s)) = books s"
proof -
  have "books (foldl (flag_order env) s rs) = books s" for rs
    by (induction rs arbitrary: s) (simp_all add: flag_order_books)
  then show ?thesis by (simp add: flag_stuck_orders_def Let_def)
qed

section \<open>Histories\<close>

text \<open>Everything that the bot, the API, the workers and the operators ask of the order engine.\<close>

datatype order_request =
    Place place_request "string res"
  | Sync int "provider_status res"
  | Refill int int "unit res" "string res"
  | Cancel int int "unit res" "unit res"
  | Resolve int bool "string option" string
  | Flag int nat

fun order_op :: "order_env \<Rightarrow> order_request \<Rightarrow> db \<Rightarrow> (int list \<times> db) res" where
  "order_op env (Place q answer) s = e_bind (place_order env q answer s) (\<lambda>(i, t). Inr ([i], t))"
| "order_op env (Sync oid answer) s = e_bind (sync_order_status env oid answer s) (\<lambda>(i, t). Inr ([i], t))"
| "order_op env (Refill oid uid ad answer) s =
     e_bind (request_refill env oid uid ad answer s) (\<lambda>(i, t). Inr ([i], t))"
| "order_op env (Cancel oid uid ad answer) s =
     e_bind (request_cancel env oid uid ad answer s) (\<lambda>(i, t). Inr ([i], t))"
| "order_op env (Resolve oid rel attach actor) s =
     e_bind (resolve_review_order env oid rel attach actor s) (\<lambda>(i, t). Inr ([i], t))"
| "order_op env (Flag age limit) s = Inr (flag_stuck_orders env age limit s)"

text \<open>A request with its reading of the clock.\<close>

definition order_step :: "order_env \<times> order_request \<Rightarrow> db \<Rightarrow> (int list \<times> db) res" where
  "order_step = (\<lambda>(env, q). order_op env q)"

lemma books_keep:
  assumes "books t = books s" and "book_inv s"
  shows "book_inv t \<and> (\<exists>new. idents t = idents s @ new)"
  using book_inv_frame [OF assms(1)] idents_of_books [OF assms(1)] assms(2) by simp

lemma order_op_book:
  assumes "order_op env q s = Inr (ids, t)" and "book_inv s"
  shows "book_inv t \<and> (\<exists>new. idents t = idents s @ new)"
proof (cases q)
  case (Place q answer)
  then have p: "place_order env q answer s = Inr (hd ids, t)" using assms(1) by auto
  then show ?thesis
  proof (cases rule: place_order_cases)
    case (fresh svc link extra quote key u)
    then show ?thesis
      using commit_order_book [OF fresh(5) assms(2)] by (simp add: new_order_def)
  qed (use assms(2) in simp)
next
  case (Flag age limit)
  then have "books t = books s" using assms(1) flag_stuck_orders_books [of env age limit s] by simp
  then show ?thesis using assms(2) by (rule books_keep)
next
  case (Refill oid uid ad answer)
  then have "books t = books s" using assms(1) request_refill_book by auto
  then show ?thesis using assms(2) by (rule books_keep)
qed (use assms in \<open>auto dest: sync_order_status_book request_cancel_book resolve_review_order_book\<close>)

interpretation order_books: session_steps order_step book_inv "\<lambda>_. True"
  by unfold_locales (auto simp: order_step_def dest: order_op_book)

text \<open>A longer table of orders is still there after any step.\<close>

interpretation order_rows: session_steps order_step
    "\<lambda>t. book_inv t \<and> (\<exists>new. idents t = known @ new)" "\<lambda>_. True" for known
proof (unfold_locales, elim conjE exE)
  fix s i r t new
  assume "book_inv s" and "idents s = known @ new" and "order_step i s = Inr (r, t)"
  then show "book_inv t \<and> (\<exists>new. idents t = known @ new)"
    using order_op_book [of "fst i" "snd i" s r t] by (auto simp: order_step_def split: prod.splits)
qed

text \<open>
  C2: No order is refunded beyond its charge. In every history of placing, syncing, refilling,
  cancelling, resolving and flagging orders, with whatever answers the providers give, orders and
  their charges stay what they were, each order's refunds sum up to at most its charge, and the
  wallets agree with the ledger.
\<close>

theorem refunds_bounded_by_charge:
  assumes "book_inv s" and "t = session_run order_step qs s"
  shows "wallet_inv t \<and> (\<exists>new. idents t = idents s @ new) \<and>
    (\<forall>r \<in> set (orders t). 0 < o_charge_paise r \<and> refunded_so_far r t \<le> o_charge_paise r)"
proof -
  have inv: "book_inv t \<and> (\<exists>new. idents t = idents s @ new)"
    unfolding assms(2) by (rule order_rows.run_inv) (use assms(1) in auto)
  have "0 < o_charge_paise r \<and> refunded_so_far r t \<le> o_charge_paise r" if "r \<in> set (orders t)" for r
  proof -
    have "order_ident r \<in> set (idents t)" using that by (simp add: idents_def)
    then show ?thesis using inv book_inv_ident(1,2) by blast
  qed
  then show ?thesis using inv book_inv_wallet by blast
qed

definition sample_env :: order_env where
  "sample_env =
     \<lparr>env_digest = sample_digest, env_now = 5000000000, env_iso = ''now'', env_dumps = (\<lambda>_. ''{}''),
      env_float_text = (\<lambda>_. [])\<rparr>"

definition shop_with :: "order_row list \<Rightarrow> db" where
  "shop_with rs = (funded_user 7 500)\<lparr>orders := rs, next_order_id := 2\<rparr>"

lemma shop_with_simps [simp]:
  "orders (shop_with rs) = rs" "ledger (shop_with rs) = ledger (funded_user 7 500)"
  "users (shop_with rs) = users (funded_user 7 500)" "next_order_id (shop_with rs) = 2"
  "idempotency_records (shop_with rs) = Map.empty" "order_events (shop_with rs) = []"
  by (simp_all add: shop_with_def funded_user_simps)

lemma funded_user_tables:
  "users (funded_user 7 500) = [7 \<mapsto> (new_user 7)\<lparr>cached_balance_paise := 500\<rparr>]"
  "\<exists>e. ledger (funded_user 7 500) = [e] \<and> e_reference_type e = Some ''payment'' \<and> e_key e = ''k0''"
  by (simp_all add: funded_user_simps new_user_def)

lemma book_inv_shop_with:
  assumes "o_id r = 1" and "0 < o_charge_paise r"
  shows "book_inv (shop_with [r])"
proof -
  have "wallet_inv (shop_with [r])"
    using wallet_inv_funded_user [of 7 500] wallet_inv_cong [of "shop_with [r]" "funded_user 7 500"] by simp
  moreover obtain e where "ledger (funded_user 7 500) = [e]" "e_reference_type e = Some ''payment''"
    using funded_user_tables(2) by blast
  ultimately show ?thesis
    using assms by (simp add: book_inv_def idents_def order_ident_def ref_sum_def)
qed

definition sample_status :: "order_status \<Rightarrow> int option \<Rightarrow> provider_status" where
  "sample_status st remains =
     \<lparr>st_external_id = ''77'', st_status = st, st_start_count = None, st_remains = remains, st_charge = None\<rparr>"

lemma existing_shop_with:
  "existing k (shop_with rs) = (if k = ''k0'' then existing k (shop_with rs) else None)"
  using funded_user_tables(2) by (auto simp: existing_def)

text \<open>A provider that cancels an accepted order of 300 paise: the charge comes back once.\<close>

lemma sample_cancel_sync:
  "\<exists>t. order_step (sample_env, Sync 1 (Inr (sample_status Canceled None)))
      (shop_with [sample_order 7 Processing 300]) = Inr ([1], t) \<and>
     account_of t 7 = Some (800, 0) \<and> map o_status (orders t) = [Refunded] \<and>
     refunded_so_far (sample_order 7 Refunded 300) t = 300"
proof -
  have key: "new_idempotency_key sample_digest [''refund'', ''FL-1'', ''canceled''] \<noteq> ''k0''"
    by (simp add: new_idempotency_key_def sample_digest_def)
  have led: "filter (\<lambda>e. e_reference_type e = Some ''order'' \<and> e_reference_id e = Some ''FL-1'' \<and>
      e_entry_type e = Credit \<and> e_user_id e = 7) (ledger (funded_user 7 500)) = []"
    using funded_user_tables(2) by auto
  have ex: "find_by e_key (new_idempotency_key sample_digest [''refund'', ''FL-1'', ''canceled''])
      (ledger (funded_user 7 500)) = None"
    using funded_user_tables(2) key by auto
  show ?thesis
    by (simp add: order_step_def sync_order_status_def with_order_def order_by_id_def sample_order_def
        status_sets has_provider_id_def sample_status_def sample_env_def sync_counters_def stamp_sync_def Let_def
        update_order_def sync_transition_def record_event_def refund_if_needed_def owed_on_def
        refunded_so_far_def led credit_order_def credit_def lock_user_def funded_user_tables(1)
        existing_def ex default_key_def append_entry_def update_user_def refund_record_def account_of_def
        new_user_def)
qed

theorem refunds_bounded_by_charge_witness:
  "\<exists>t. session_run order_step [(sample_env, Sync 1 (Inr (sample_status Canceled None)))]
      (shop_with [sample_order 7 Processing 300]) = t \<and> account_of t 7 = Some (800, 0) \<and> wallet_inv t \<and>
     (\<forall>r \<in> set (orders t). refunded_so_far r t \<le> o_charge_paise r)"
proof -
  let ?qs = "[(sample_env, Sync 1 (Inr (sample_status Canceled None)))]"
  let ?s = "shop_with [sample_order 7 Processing 300]"
  obtain t where step: "order_step (hd ?qs) ?s = Inr ([1], t)" and "account_of t 7 = Some (800, 0)"
    using sample_cancel_sync by auto
  then have t: "session_run order_step ?qs ?s = t" by simp
  have "book_inv ?s" by (rule book_inv_shop_with) (simp_all add: sample_order_def)
  from refunds_bounded_by_charge [OF this refl, of ?qs] \<open>account_of t 7 = Some (800, 0)\<close> t
  show ?thesis by blast
qed

section \<open>No order is left without an outcome\<close>

text \<open>
  \<open>settled_row r\<close>: an order that is pending or being submitted has a provider order id. While an
  order is placed its own row is an exception, \<open>settled_but oid\<close>.
\<close>

definition settled_row :: "order_row \<Rightarrow> bool" where
  "settled_row r \<longleftrightarrow> (o_status r \<in> {Pending, Awaiting_provider} \<longrightarrow> o_provider_order_id r \<noteq> None)"

definition settled_but :: "int option \<Rightarrow> db \<Rightarrow> bool" where
  "settled_but x s \<longleftrightarrow> (\<forall>r \<in> set (orders s). Some (o_id r) \<noteq> x \<longrightarrow> settled_row r)"

lemma settled_same_orders: "orders t = orders s \<Longrightarrow> settled_but x s \<Longrightarrow> settled_but x t"
  by (simp add: settled_but_def)

lemma settled_weaken: "settled_but None s \<Longrightarrow> settled_but x s"
  by (simp add: settled_but_def)

lemma orders_record_event:
  "orders (record_event now oid st note s) =
     upd_by o_id oid (\<lambda>r. r\<lparr>o_status := st, o_updated_at := now\<rparr>) (orders s)"
  by (auto simp: record_event_def update_order_def order_by_id_def find_by_None upd_by_idle
      split: option.split)

lemma orders_update_order [simp]: "orders (update_order oid f s) = upd_by o_id oid f (orders s)"
  by (simp add: update_order_def)

lemma settled_upd_by:
  assumes t: "orders t = upd_by o_id oid f (orders s)" and id: "\<And>r. o_id (f r) = o_id r"
    and old: "\<And>r. r \<in> set (orders s) \<Longrightarrow> o_id r \<noteq> oid \<Longrightarrow> Some (o_id r) \<noteq> x \<Longrightarrow> settled_row r"
    and new: "\<And>r. r \<in> set (orders s) \<Longrightarrow> o_id r = oid \<Longrightarrow> Some oid \<noteq> x \<Longrightarrow> settled_row (f r)"
  shows "settled_but x t"
  using old new id by (auto simp: settled_but_def t upd_by_def)

lemma settled_update:
  assumes "settled_but x s" and "\<And>r. o_id (f r) = o_id r"
    and "\<And>r. settled_row r \<Longrightarrow> settled_row (f r)"
  shows "settled_but x (update_order oid f s)"
proof (rule settled_upd_by [OF orders_update_order])
  show "o_id (f r) = o_id r" for r by (rule assms(2))
  show "settled_row r" if "r \<in> set (orders s)" "o_id r \<noteq> oid" "Some (o_id r) \<noteq> x" for r
    using that assms(1) by (simp add: settled_but_def)
  show "settled_row (f r)" if "r \<in> set (orders s)" "o_id r = oid" "Some oid \<noteq> x" for r
    using that assms(1) by (intro assms(3)) (auto simp: settled_but_def)
qed

text \<open>A transition to another status settles the row of the order.\<close>

lemma settled_record_event:
  assumes "settled_but (Some oid) s" and "st \<notin> {Pending, Awaiting_provider}"
  shows "settled_but None (record_event now oid st note s)"
proof (rule settled_upd_by [OF orders_record_event])
  show "settled_row r" if "r \<in> set (orders s)" "o_id r \<noteq> oid" for r
    using that assms(1) by (simp add: settled_but_def)
qed (use assms(2) in \<open>simp_all add: settled_row_def\<close>)

lemma settled_record_event_other:
  assumes "settled_but x s" and "\<forall>r \<in> set (orders s). o_id r = oid \<longrightarrow> o_provider_order_id r \<noteq> None"
  shows "settled_but x (record_event now oid st note s)"
proof (rule settled_upd_by [OF orders_record_event])
  show "settled_row r" if "r \<in> set (orders s)" "Some (o_id r) \<noteq> x" for r
    using that assms(1) by (simp add: settled_but_def)
qed (use assms(2) in \<open>simp_all add: settled_row_def\<close>)

lemma settled_record_event_excepted:
  assumes "settled_but (Some oid) s"
  shows "settled_but (Some oid) (record_event now oid st note s)"
proof (rule settled_upd_by [OF orders_record_event])
  show "settled_row r" if "r \<in> set (orders s)" "Some (o_id r) \<noteq> Some oid" for r
    using that assms by (simp add: settled_but_def)
qed simp_all

lemma effect_orders: "wallet_effect t uid a refs s e s' \<Longrightarrow> orders s' = orders s"
  using effect_same_tables same_tables_fields by blast

lemma orders_simps [simp]:
  "orders (audit who what target why s) = orders s" "orders (use_coupon r s) = orders s"
  "orders (add_reseller_order r q s) = orders s" "orders (refund_record k p s) = orders s"
  by (simp_all add: audit_def use_coupon_def add_reseller_order_def refund_record_def split: option.split)

lemma orders_release_coupon_use: "release_coupon_use r s = Inr t \<Longrightarrow> orders t = orders s"
  by (auto simp: release_coupon_use_def Let_def split: option.split_asm if_split_asm)

lemma fail_and_release_settled:
  assumes "fail_and_release H now r c why tag s = Inr t" and "settled_but (Some (o_id r)) s"
  shows "settled_but None t"
proof -
  let ?f = "\<lambda>r. r\<lparr>o_fail_reason := Some (take 255 why)\<rparr>"
  obtain e s1 s2 where rel: "release (o_user_id r) c (''Release '' @ o_public_id r @ '' ('' @ tag @ '')'')
       (new_idempotency_key H [''release'', o_public_id r, tag]) (order_ref (o_public_id r)) s = Inr (e, s1)"
    and cpn: "release_coupon_use r s1 = Inr s2"
    and t: "t = record_event now (o_id r) Failed (Some (take 255 why)) (update_order (o_id r) ?f s2)"
    using assms(1) by (auto simp: fail_and_release_def)
  have "orders s2 = orders s"
    using effect_orders [OF release_effect [OF rel]] orders_release_coupon_use [OF cpn] by simp
  then have "settled_but (Some (o_id r)) s2" using assms(2) by (rule settled_same_orders)
  then have "settled_but (Some (o_id r)) (update_order (o_id r) ?f s2)"
    by (rule settled_update) (simp_all add: settled_row_def)
  then show ?thesis unfolding t by (rule settled_record_event) simp
qed

lemma submit_order_settled:
  assumes "submit_order env r answer s = Inr t" and "settled_but (Some (o_id r)) s"
  shows "settled_but None t"
proof (cases answer)
  case (Inr ext)
  let ?s = "update_order (o_id r) (\<lambda>r. r\<lparr>o_provider_order_id := Some ext\<rparr>) s"
  obtain e u where c: "capture_order (env_digest env) r ?s = Inr (e, u)"
    and t: "t = record_event (env_now env) (o_id r) Processing (Some (''Provider order '' @ ext)) u"
    using assms(1) Inr by (auto simp: submit_order_def)
  have "settled_but (Some (o_id r)) ?s"
    using assms(2) by (intro settled_update) (simp_all add: settled_row_def)
  moreover have "orders u = orders ?s"
    using c unfolding capture_order_def by (intro effect_orders [OF capture_effect])
  ultimately have "settled_but (Some (o_id r)) u" using settled_same_orders by blast
  then show ?thesis unfolding t by (rule settled_record_event) simp
next
  case (Inl err)
  show ?thesis
  proof (cases "\<exists>why tag. fail_and_release (env_digest env) (env_now env) r (o_charge_paise r) why tag s = Inr t")
    case True
    then show ?thesis using fail_and_release_settled assms(2) by blast
  next
    case False
    then obtain nt where "orders t = orders (record_event (env_now env) (o_id r) REVIEW_STATUS nt
        (update_order (o_id r) (\<lambda>r. r\<lparr>o_fail_reason := Some ''Waiting for provider confirmation''\<rparr>) s))"
      using assms(1) Inl
      by (auto simp: submit_order_def Let_def split: exn.split_asm if_split_asm)
    moreover have "settled_but None (record_event (env_now env) (o_id r) REVIEW_STATUS nt
        (update_order (o_id r) (\<lambda>r. r\<lparr>o_fail_reason := Some ''Waiting for provider confirmation''\<rparr>) s))"
      using assms(2)
      by (intro settled_record_event settled_update) (simp_all add: settled_row_def REVIEW_STATUS_def)
    ultimately show ?thesis by (rule settled_same_orders)
  qed
qed

lemma place_order_settled:
  assumes "place_order env q answer s = Inr (oid, t)" and "settled_but None s"
  shows "settled_but None t"
  using assms(1)
proof (cases rule: place_order_cases)
  case replay
  with assms(2) show ?thesis by simp
next
  case (fresh svc link extra quote key u)
  let ?r = "new_order env q svc link extra quote key (next_order_id s)"
  obtain s1 e s2 where ins: "insert_order ?r s = Inr s1"
    and res: "reserve (o_user_id ?r) (o_charge_paise ?r) (''Reserve for '' @ o_public_id ?r)
      (new_idempotency_key (env_digest env) [''reserve'', o_public_id ?r]) (order_ref (o_public_id ?r))
      (add_reseller_order ?r quote s1) = Inr (e, s2)"
    and sub: "submit_order env ?r answer (use_coupon ?r
      (record_event (env_now env) (o_id ?r) Awaiting_provider (Some ''Funds reserved'') s2)) = Inr t"
    using fresh(5) by (auto simp: commit_order_def)
  let ?s2 = "record_event (env_now env) (o_id ?r) Awaiting_provider (Some ''Funds reserved'') s2"
  have "orders s1 = orders s @ [?r]" using ins by (auto simp: insert_order_def split: if_split_asm)
  moreover have "orders s2 = orders s1" using effect_orders [OF reserve_effect [OF res]] by simp
  ultimately have "settled_but (Some (o_id ?r)) s2"
    using assms(2) by (auto simp: settled_but_def)
  then have "settled_but (Some (o_id ?r)) ?s2" by (rule settled_record_event_excepted)
  then have "settled_but (Some (o_id ?r)) (use_coupon ?r ?s2)"
    by (rule settled_same_orders [rotated]) simp
  with sub show ?thesis by (rule submit_order_settled)
qed

text \<open>A provider order id, once there, stays: \<open>placed_at oid s\<close>.\<close>

definition placed_at :: "int \<Rightarrow> db \<Rightarrow> bool" where
  "placed_at oid s \<longleftrightarrow> (\<forall>r \<in> set (orders s). o_id r = oid \<longrightarrow> o_provider_order_id r \<noteq> None)"

lemma placed_at_same: "orders t = orders s \<Longrightarrow> placed_at oid s \<Longrightarrow> placed_at oid t"
  by (simp add: placed_at_def)

lemma placed_at_upd:
  assumes "placed_at oid s" and "orders t = upd_by o_id oid f (orders s)"
    and "\<And>r. o_id (f r) = o_id r" and "\<And>r. o_provider_order_id (f r) = o_provider_order_id r"
  shows "placed_at oid t"
proof -
  have "o_provider_order_id (if o_id r = oid then f r else r) \<noteq> None"
    if "r \<in> set (orders s)" "o_id (if o_id r = oid then f r else r) = oid" for r
    using that assms(1,3,4) by (simp add: placed_at_def split: if_split_asm)
  then show ?thesis unfolding placed_at_def assms(2) upd_by_def set_map by (simp only: ball_simps) blast
qed

lemma placed_at_record_event: "placed_at oid s \<Longrightarrow> placed_at oid (record_event now oid st note s)"
  by (rule placed_at_upd [OF _ orders_record_event]) simp_all

lemma settled_event_placed:
  "settled_but None s \<Longrightarrow> placed_at oid s \<Longrightarrow> settled_but None (record_event now oid st note s)"
  by (rule settled_record_event_other) (simp_all add: placed_at_def)

lemma maybe_partial_refund_orders: "maybe_partial_refund H r n s = Inr t \<Longrightarrow> orders t = orders s"
  by (auto simp: maybe_partial_refund_def credit_order_def Let_def split: if_split_asm
      dest!: effect_orders [OF credit_effect])

lemma refund_if_needed_cases:
  assumes "refund_if_needed H now r m s = Inr t"
  obtains (none) "t = s"
  | (paid) key why nt e u where "0 < owed_on r s" "credit_order H r (owed_on r s) why key s = Inr (e, u)"
      "key = new_idempotency_key H [''refund'', o_public_id r, status_value m]"
      "t = (if m \<noteq> Refunded then record_event now (o_id r) Refunded nt (refund_record key (owed_on r s) u)
         else refund_record key (owed_on r s) u)"
proof (cases "idempotency_records s (new_idempotency_key H [''refund'', o_public_id r, status_value m]) \<noteq> None \<or>
    users s (o_user_id r) = None \<or> o_charge_paise r \<le> 0 \<or> owed_on r s \<le> 0")
  case True
  then have "t = s" using assms by (auto simp: refund_if_needed_def Let_def split: if_split_asm)
  then show ?thesis by (rule none)
next
  case False
  let ?key = "new_idempotency_key H [''refund'', o_public_id r, status_value m]"
  obtain e u where c: "credit_order H r (owed_on r s)
      (''Refund '' @ o_public_id r @ '' ('' @ status_value m @ '')'') ?key s = Inr (e, u)"
    and t: "t = (if m \<noteq> Refunded
        then record_event now (o_id r) Refunded (Some (''auto-refund after '' @ status_value m))
          (refund_record ?key (owed_on r s) u)
        else refund_record ?key (owed_on r s) u)"
    using assms False by (auto simp: refund_if_needed_def Let_def)
  show ?thesis using paid [OF _ c refl t] False by simp
qed

lemma refund_if_needed_orders:
  assumes "refund_if_needed H now r m s = Inr t"
  shows "orders t = orders s \<or> (\<exists>nt u. t = record_event now (o_id r) Refunded nt u \<and> orders u = orders s)"
  using assms
proof (cases rule: refund_if_needed_cases)
  case (paid key why nt e u)
  have "orders u = orders s"
    using paid(2) unfolding credit_order_def by (rule effect_orders [OF credit_effect])
  then have "orders (refund_record key (owed_on r s) u) = orders s" by simp
  with paid(4) show ?thesis by (cases "m = Refunded") (simp, metis)
qed simp

lemma order_commission_orders: "credit_order_commission H r s = Inr (x, t) \<Longrightarrow> orders t = orders s"
  by (drule order_commission_same_tables) (rule same_tables_fields)

lemma sync_transition_settled:
  assumes "sync_transition env oid mapped remains s = Inr t" and "settled_but None s" and "placed_at oid s"
  shows "settled_but None t"
proof -
  let ?H = "env_digest env" and ?now = "env_now env"
  let ?s = "record_event ?now oid mapped (Some ''provider sync'') s"
  obtain r s1 s2 where r: "order_by_id oid ?s = Some r"
    and one: "s1 = ?s \<or> (\<exists>n. maybe_partial_refund ?H r n ?s = Inr s1)"
    and two: "s2 = s1 \<or> refund_if_needed ?H ?now r mapped s1 = Inr s2"
    and three: "t = s2 \<or> (\<exists>e. credit_order_commission ?H r s2 = Inr (e, t))"
    using assms(1)
    by (auto simp: sync_transition_def Let_def with_order_Inr split: if_split_asm option.split_asm)
  have id: "o_id r = oid" using order_by_id_ident [OF r] by simp
  have "orders s1 = orders ?s" using one maybe_partial_refund_orders by blast
  then have s1: "settled_but None s1" "placed_at oid s1"
    using settled_same_orders [OF _ settled_event_placed [OF assms(2,3)]]
      placed_at_same [OF _ placed_at_record_event [OF assms(3)]] by auto
  have "settled_but None s2"
    using two
  proof
    assume "refund_if_needed ?H ?now r mapped s1 = Inr s2"
    then consider "orders s2 = orders s1"
      | nt u where "s2 = record_event ?now oid Refunded nt u" "orders u = orders s1"
      using refund_if_needed_orders [of ?H ?now r mapped s1 s2] unfolding id by blast
    then show ?thesis
    proof cases
      case 1
      then show ?thesis using s1 settled_same_orders by blast
    next
      case 2
      then show ?thesis
        using settled_event_placed settled_same_orders [OF 2(2) s1(1)] placed_at_same [OF 2(2) s1(2)] by simp
    qed
  qed (use s1 in simp)
  then show ?thesis using three order_commission_orders settled_same_orders by metis
qed

lemma distinct_order_ids: "book_inv s \<Longrightarrow> distinct (map o_id (orders s))"
  using book_inv_parts(2) [of s] by (simp add: idents_def order_ident_def comp_def)

lemma placed_at_found:
  assumes "book_inv s" and "order_by_id oid s = Some r" and "o_provider_order_id r \<noteq> None"
  shows "placed_at oid s"
proof -
  have "order_by_id oid s = Some q" if "q \<in> set (orders s)" "o_id q = oid" for q
    using find_by_in [OF distinct_order_ids [OF assms(1)] that(1)] that(2) by (simp add: order_by_id_def)
  then show ?thesis using assms(2,3) by (auto simp: placed_at_def)
qed

lemma sync_order_status_settled:
  assumes "sync_order_status env oid answer s = Inr (i, t)" and "settled_but None s" and "book_inv s"
  shows "settled_but None t"
proof -
  obtain r where r: "order_by_id oid s = Some r" using assms(1)
    by (auto simp: sync_order_status_def with_order_Inr)
  let ?upd = "\<lambda>f s. update_order oid f s"
  have keep: "settled_but None (?upd (stamp_sync now) u)"
    "settled_but None (?upd (sync_counters st) u)" if "settled_but None u" for now st u
    by (rule settled_update [OF that]; simp add: settled_row_def sync_counters_def stamp_sync_def)+
  show ?thesis
  proof (cases "o_status r \<in> set TERMINAL_STATUSES \<or> \<not> has_provider_id r")
    case True
    then show ?thesis using assms(1,2) r by (auto simp: sync_order_status_def with_order_Inr)
  next
    case live: False
    then have placed: "placed_at oid s"
      using placed_at_found [OF assms(3) r] by (simp add: has_provider_id_def)
    show ?thesis
    proof (cases answer)
      case (Inl e)
      then show ?thesis
        using assms(1,2) r live keep
        by (cases e) (auto simp: sync_order_status_def Let_def with_order_Inr simp del: orders_update_order)
    next
      case (Inr st)
      let ?s = "?upd (sync_counters st) s"
      have p: "placed_at oid ?s"
        by (rule placed_at_upd [OF placed orders_update_order]) (simp_all add: sync_counters_def)
      obtain u where u: "u = ?s \<or> (\<exists>m. sync_transition env oid m (st_remains st) ?s = Inr u)"
        and t: "t = ?upd (stamp_sync (env_now env)) u"
        using assms(1) r live Inr
        by (auto simp: sync_order_status_def Let_def with_order_Inr split: if_split_asm)
      have "settled_but None u"
        using u sync_transition_settled [OF _ keep(2) [OF assms(2)] p] keep(2) [OF assms(2)] by blast
      then show ?thesis using t keep by blast
    qed
  qed
qed

lemma request_refill_settled:
  assumes "request_refill env oid uid adapter answer s = Inr (i, t)" and "settled_but None s"
  shows "settled_but None t"
proof -
  obtain x where t: "t = record_event (env_now env) oid Refilling (Some (''refill '' @ x))
      (update_order oid (\<lambda>r. r\<lparr>o_refill_count := o_refill_count r + 1,
        o_extra := dict_set ''last_refill_id'' (JStr x) (o_extra r)\<rparr>) s)"
    using assms(1) by (auto simp: request_refill_def with_order_Inr split: if_split_asm)
  show ?thesis
    unfolding t
    by (rule settled_record_event [OF settled_weaken [OF settled_update [OF assms(2)]]])
      (simp_all add: settled_row_def)
qed

lemma cancel_money_orders: "cancel_money env r s = Inr t \<Longrightarrow> orders t = orders s"
  by (auto simp: cancel_money_def credit_order_def Let_def split: if_split_asm
      dest!: effect_orders [OF credit_effect] effect_orders [OF release_effect])

lemma request_cancel_settled:
  assumes "request_cancel env oid uid adapter answer s = Inr (i, t)" and "settled_but None s"
  shows "settled_but None t"
proof -
  obtain r u where m: "cancel_money env r s = Inr u"
    and t: "t = record_event (env_now env) oid Canceled (Some ''user cancel'') u"
    using assms(1) by (auto simp: request_cancel_def with_order_Inr split: if_split_asm)
  have "settled_but (Some oid) u"
    using settled_same_orders [OF cancel_money_orders [OF m] assms(2)] by (rule settled_weaken)
  then show ?thesis unfolding t by (rule settled_record_event) simp
qed

lemma resolve_review_order_settled:
  assumes "resolve_review_order env oid rel attach actor s = Inr (i, t)" and "settled_but None s"
  shows "settled_but None t"
proof -
  let ?H = "env_digest env" and ?now = "env_now env"
  obtain r where r: "order_by_id oid s = Some r"
    using assms(1) by (auto simp: resolve_review_order_def with_order_Inr Let_def)
  then have id: "o_id r = oid" using order_by_id_ident by blast
  let ?s = "\<lambda>ext. update_order oid (\<lambda>r. r\<lparr>o_provider_order_id := Some ext\<rparr>) s"
  let ?clear = "update_order oid (\<lambda>r. r\<lparr>o_fail_reason := None\<rparr>)"
  consider (rel) u why tag where "fail_and_release ?H ?now r (o_charge_paise r) why tag s = Inr u"
      "orders t = orders u"
    | (att) u e ext nt where "capture_order ?H r (?s ext) = Inr (e, u)"
      "orders t = orders (record_event ?now oid Processing nt (?clear u))"
    using assms(1) r
    by (fastforce simp: resolve_review_order_def with_order_Inr Let_def simp del: orders_update_order
        split: if_split_asm)
  then show ?thesis
  proof cases
    case rel
    then show ?thesis
      using fail_and_release_settled [OF rel(1)] settled_weaken [OF assms(2)] settled_same_orders by blast
  next
    case att
    have "settled_but None (?s ext)"
      using assms(2) by (intro settled_update) (simp_all add: settled_row_def)
    moreover have "orders u = orders (?s ext)"
      using att(1) unfolding capture_order_def by (intro effect_orders [OF capture_effect])
    ultimately have "settled_but None u" using settled_same_orders by blast
    then have "settled_but None (?clear u)"
      by (rule settled_update) (simp_all add: settled_row_def)
    then have "settled_but None (record_event ?now oid Processing nt (?clear u))"
      by (rule settled_record_event [OF settled_weaken]) simp
    with att(2) show ?thesis by (rule settled_same_orders)
  qed
qed

text \<open>In a settled state there is nothing to flag.\<close>

lemma flag_stuck_settled:
  assumes "settled_but None s"
  shows "flag_stuck_orders env age limit s = ([], s)"
proof -
  have none: "filter (\<lambda>r. o_status r \<in> set [Pending, Awaiting_provider] \<and> o_provider_order_id r = None \<and>
      o_updated_at r \<le> env_now env - age * 1000000) (orders s) = []"
    using assms by (auto simp: filter_empty_conv settled_but_def settled_row_def)
  show ?thesis by (simp add: flag_stuck_orders_def stuck_orders_def none del: set_simps)
qed

interpretation settled_orders: session_steps order_step "\<lambda>s. book_inv s \<and> settled_but None s" "\<lambda>_. True"
proof (unfold_locales, elim conjE)
  fix s i ids t
  assume inv: "book_inv s" "settled_but None s" and step: "order_step i s = Inr (ids, t)"
  obtain env q where i: "i = (env, q)" by fastforce
  have op: "order_op env q s = Inr (ids, t)" using step by (simp add: order_step_def i)
  have "settled_but None t"
    using op inv
    by (cases q) (auto dest: place_order_settled sync_order_status_settled request_refill_settled
        request_cancel_settled resolve_review_order_settled simp: flag_stuck_settled)
  then show "book_inv t \<and> settled_but None t" using order_op_book [OF op inv(1)] by blast
qed

text \<open>
  C11: No order is ever stuck. An order is submitted and settled in one transaction, so a
  history started without stuck orders never has a committed order that waits for the provider
  without a provider order id, and the pass that looks for such orders finds none: a crash in
  the middle of a submission leaves no row at all, not one held for review.
\<close>

theorem no_order_is_stuck:
  assumes "book_inv s" and "settled_but None s"
  shows "flag_stuck_orders env age limit (session_run order_step qs s) = ([], session_run order_step qs s)"
proof -
  have "book_inv (session_run order_step qs s) \<and> settled_but None (session_run order_step qs s)"
    by (rule settled_orders.run_inv) (use assms in auto)
  then show ?thesis by (intro flag_stuck_settled) simp
qed

theorem no_order_is_stuck_witness:
  "flag_stuck_orders sample_env 600 50 (session_run order_step
      [(sample_env, Sync 1 (Inr (sample_status Canceled None)))] (shop_with [sample_order 7 Processing 300]))
    = ([], session_run order_step [(sample_env, Sync 1 (Inr (sample_status Canceled None)))]
        (shop_with [sample_order 7 Processing 300]))"
proof (rule no_order_is_stuck)
  show "book_inv (shop_with [sample_order 7 Processing 300])"
    by (rule book_inv_shop_with) (simp_all add: sample_order_def)
  show "settled_but None (shop_with [sample_order 7 Processing 300])"
    by (simp add: settled_but_def settled_row_def sample_order_def)
qed

end
