(* ===== verification/Config.thy ===== *)
theory Config
  imports Store PyText
begin

text \<open>
  \<open>app/config.py\<close>: the settings, their validators, and the checks that a production process
  must pass before it boots. Only the settings that the modelled code reads are fields; a secret
  is the text inside its \<open>SecretStr\<close>.
\<close>

section \<open>Settings\<close>

datatype app_env = Development | Production

record settings =
  app_env :: app_env
  bot_token :: string
  owner_telegram_id :: int
  database_url :: string
  public_base_url :: "string option"
  webapp_url :: "string option"
  bot_username :: "string option"
  support_url :: "string option"
  terms_url :: "string option"
  privacy_url :: "string option"
  secret_key :: "string option"
  bot_polling :: bool
  cors_origins :: string
  trust_proxy :: bool
  smm_api_url :: "string option"
  smm_api_key :: "string option"
  payment_gateway :: string
  enable_mock_payments :: bool
  razorpay_key_id :: "string option"
  razorpay_key_secret :: "string option"
  razorpay_webhook_secret :: "string option"
  min_deposit_paise :: int
  max_deposit_paise :: int
  rate_limit_per_minute :: int
  ip_rate_limit_per_minute :: int
  order_rate_limit_per_minute :: int
  welcome_bonus_paise :: int
  currency_code :: string

section \<open>Validators\<close>

definition empty_str_to_none :: "string option \<Rightarrow> string option" where
  "empty_str_to_none v = (case v of None \<Rightarrow> None | Some t \<Rightarrow> if strip t = [] then None else Some t)"

definition bot_token_shape :: "string \<Rightarrow> string res" where
  "bot_token_shape t =
     (let raw = strip t
      in if CHR '':'' \<notin> set raw \<or> length raw < 20
         then Inl (ValueError ''BOT_TOKEN is missing or malformed (expected 123456:ABC... from @BotFather)'')
         else Inr raw)"

text \<open>\<open>value.rstrip("/")\<close>.\<close>

definition rstrip_slash :: "string \<Rightarrow> string" where
  "rstrip_slash t = rev (dropWhile (\<lambda>c. c = CHR ''/'') (rev t))"

definition strip_trailing_slash :: "string option \<Rightarrow> string option" where
  "strip_trailing_slash = map_option rstrip_slash"

text \<open>\<open>not value\<close> of an optional text.\<close>

definition no_text :: "string option \<Rightarrow> bool" where
  "no_text v \<longleftrightarrow> v = None \<or> v = Some []"

definition is_production :: "settings \<Rightarrow> bool" where
  "is_production st \<longleftrightarrow> app_env st = Production"

text \<open>\<open>bonus_set\<close>: whether the operator set \<open>welcome_bonus_paise\<close> explicitly.\<close>

definition default_webapp_url :: "bool \<Rightarrow> settings \<Rightarrow> settings" where
  "default_webapp_url bonus_set st =
     (let st = (if no_text (webapp_url st) \<and> \<not> no_text (public_base_url st)
                then st\<lparr>webapp_url := map_option (\<lambda>b. b @ ''/app/'') (public_base_url st)\<rparr> else st)
      in if is_production st \<and> \<not> bonus_set then st\<lparr>welcome_bonus_paise := 0\<rparr> else st)"

text \<open>The validators in the order in which they run on the environment's values.\<close>

definition validated :: "bool \<Rightarrow> settings \<Rightarrow> settings res" where
  "validated bonus_set st =
     e_bind (bot_token_shape (bot_token st)) (\<lambda>token. Inr (default_webapp_url bonus_set
       (st\<lparr>bot_token := token,
           public_base_url := strip_trailing_slash (empty_str_to_none (public_base_url st)),
           webapp_url := empty_str_to_none (webapp_url st),
           bot_username := empty_str_to_none (bot_username st),
           support_url := empty_str_to_none (support_url st),
           terms_url := empty_str_to_none (terms_url st),
           privacy_url := empty_str_to_none (privacy_url st),
           smm_api_url := empty_str_to_none (smm_api_url st),
           razorpay_key_id := empty_str_to_none (razorpay_key_id st)\<rparr>)))"

section \<open>Derived values\<close>

definition is_sqlite :: "settings \<Rightarrow> bool" where
  "is_sqlite st \<longleftrightarrow> starts_with ''sqlite'' (database_url st)"

definition has_real_smm_panel :: "settings \<Rightarrow> bool" where
  "has_real_smm_panel st \<longleftrightarrow> \<not> no_text (smm_api_url st) \<and> \<not> no_text (smm_api_key st)"

definition mock_payments_allowed :: "settings \<Rightarrow> bool" where
  "mock_payments_allowed st \<longleftrightarrow>
     \<not> is_production st \<and> enable_mock_payments st \<and> payment_gateway st = ''mock''"

definition cors_origin_list :: "settings \<Rightarrow> string list" where
  "cors_origin_list st =
     (let raw = filter (\<lambda>p. p \<noteq> []) (map strip (split_on (CHR '','') (cors_origins st)));
          raw = (case public_base_url st of
              None \<Rightarrow> raw
            | Some b \<Rightarrow> if b = [] \<or> rstrip_slash b \<in> set raw then raw else raw @ [rstrip_slash b])
      in if raw = [] then [''*''] else raw)"

text \<open>A secret: its text without surrounding space, or nothing when none is left.\<close>

definition secret_value :: "string option \<Rightarrow> string option" where
  "secret_value v = (case v of None \<Rightarrow> None
     | Some t \<Rightarrow> if strip t = [] then None else Some (strip t))"

definition smm_api_key_value :: "settings \<Rightarrow> string option" where
  "smm_api_key_value st = secret_value (smm_api_key st)"

definition razorpay_secret_value :: "settings \<Rightarrow> string option" where
  "razorpay_secret_value st = secret_value (razorpay_key_secret st)"

definition razorpay_webhook_secret_value :: "settings \<Rightarrow> string option" where
  "razorpay_webhook_secret_value st = secret_value (razorpay_webhook_secret st)"

section \<open>Production checks\<close>

definition problem_if :: "bool \<Rightarrow> string \<Rightarrow> string list" where
  "problem_if b m = (if b then [m] else [])"

lemma problem_if_Nil [simp]: "problem_if b m = [] \<longleftrightarrow> \<not> b"
  by (simp add: problem_if_def)

definition secret_key_problems :: "settings \<Rightarrow> string list" where
  "secret_key_problems st =
     (let key = (case secret_key st of None \<Rightarrow> [] | Some t \<Rightarrow> strip t)
      in if key = []
         then [''SECRET_KEY is not set. Generate one with: python -c \"from cryptography.fernet import Fernet; print(Fernet.generate_key().decode())\"'']
         else problem_if (length key < 32)
           ''SECRET_KEY is too short (need a 44-char Fernet key or 32+ random chars).'')"

definition razorpay_problems :: "settings \<Rightarrow> string list" where
  "razorpay_problems st =
     (if payment_gateway st = ''razorpay'' then
        problem_if (no_text (razorpay_key_id st))
          ''RAZORPAY_KEY_ID is required when PAYMENT_GATEWAY=razorpay.'' @
        problem_if (razorpay_secret_value st = None)
          ''RAZORPAY_KEY_SECRET is required when PAYMENT_GATEWAY=razorpay.'' @
        problem_if (razorpay_webhook_secret_value st = None)
          ''RAZORPAY_WEBHOOK_SECRET is required when PAYMENT_GATEWAY=razorpay.''
      else [])"

definition production_problems :: "settings \<Rightarrow> string list" where
  "production_problems st =
     (if \<not> is_production st then []
      else
        secret_key_problems st @
        problem_if (is_sqlite st)
          ''DATABASE_URL must be PostgreSQL in production (postgresql+asyncpg://...).'' @
        problem_if (case public_base_url st of None \<Rightarrow> True
            | Some b \<Rightarrow> b = [] \<or> \<not> starts_with ''https://'' b)
          ''PUBLIC_BASE_URL must be set and start with https:// (Telegram Mini Apps require HTTPS).'' @
        problem_if (payment_gateway st = ''mock'' \<or> enable_mock_payments st)
          ''Mock payments must be off in production: set ENABLE_MOCK_PAYMENTS=false and PAYMENT_GATEWAY=razorpay (or manual).'' @
        razorpay_problems st @
        problem_if (cors_origin_list st = [''*''])
          ''CORS is wide open; set PUBLIC_BASE_URL or CORS_ORIGINS.'' @
        problem_if (no_text (terms_url st) \<or> no_text (privacy_url st))
          ''TERMS_URL and PRIVACY_URL must be set (users must accept real documents).'' @
        problem_if (\<not> bot_polling st)
          ''BOT_POLLING=false leaves the bot without an update source (webhook mode is not built in).'')"

text \<open>\<open>host_of\<close> is \<open>urlparse(url).hostname\<close>.\<close>

definition production_warnings :: "(string \<Rightarrow> string option) \<Rightarrow> settings \<Rightarrow> string list" where
  "production_warnings host_of st =
     (if \<not> is_production st then []
      else
        problem_if (0 < welcome_bonus_paise st)
          ''WELCOME_BONUS_PAISE is > 0: every new Telegram account receives spendable credit (abusable with throw-away accounts). Set it to 0 unless this is intentional.'' @
        problem_if (payment_gateway st = ''manual'')
          ''PAYMENT_GATEWAY=manual: deposits are credited by an admin, not automatically.'' @
        problem_if (\<not> trust_proxy st)
          ''TRUST_PROXY=false: rate limits will key on the proxy IP when behind Caddy.'' @
        problem_if (\<not> has_real_smm_panel st)
          ''No SMM_API_URL/SMM_API_KEY set: add a provider with `python -m app.cli add-provider` before taking orders.'' @
        problem_if (case public_base_url st of None \<Rightarrow> False
            | Some b \<Rightarrow> b \<noteq> [] \<and> (case host_of b of None \<Rightarrow> False
                | Some h \<Rightarrow> h \<in> set [''localhost'', ''127.0.0.1'']))
          ''PUBLIC_BASE_URL points at localhost.'')"

end
