(* ===== verification/Razorpay.thy ===== *)
theory Razorpay
  imports Panel Config
begin

text \<open>
  \<open>app/payments/base.py\<close>, \<open>signing.py\<close> and \<open>razorpay.py\<close>: the payment gateway. HMAC-SHA256,
  SHA-256 of a body and the JSON parser are arguments; the HTTP client is the answer that came
  back. The lemmas say that nothing of an unsigned body is used, what a \<open>paid\<close> event guarantees
  about its amounts, and that only well-formed references reach the gateway's URLs.
\<close>

section \<open>Gateway-neutral types\<close>

record checkout =
  co_url :: string
  co_gateway_ref :: string

datatype event_kind = Kind_paid | Kind_expired | Kind_attention | Kind_ignored

record gateway_event =
  ge_event_id :: string
  ge_event_type :: string
  ge_kind :: event_kind
  ge_reference :: "string option"
  ge_gateway_ref :: "string option"
  ge_amount_paise :: "int option"
  ge_currency :: "string option"
  ge_detail :: string

datatype gateway_state = State_paid | State_expired | State_pending

record gateway_status =
  gs_state :: gateway_state
  gs_amount_paise :: "int option"
  gs_currency :: "string option"

section \<open>Signatures\<close>

text \<open>
  \<open>hm secret body\<close> is the hex HMAC-SHA256. \<open>hmac.compare_digest\<close> of two texts raises on a
  character that is not ASCII.
\<close>

definition is_ascii :: "string \<Rightarrow> bool" where
  "is_ascii t = list_all (\<lambda>c. (of_char c :: nat) < 128) t"

definition compare_digest :: "string \<Rightarrow> string \<Rightarrow> bool res" where
  "compare_digest a b =
     (if is_ascii a \<and> is_ascii b then Inr (a = b) else Inl (OtherError ''TypeError''))"

definition verify_hmac_sha256_hex ::
  "(string \<Rightarrow> string \<Rightarrow> string) \<Rightarrow> string \<Rightarrow> string \<Rightarrow> string option \<Rightarrow> bool res" where
  "verify_hmac_sha256_hex hm secret body provided =
     (if secret = [] \<or> no_text provided then Inr False
      else compare_digest (hm secret body) (lower (strip (the provided))))"

section \<open>Reading values\<close>

definition digit_or :: "(char \<Rightarrow> bool) \<Rightarrow> char \<Rightarrow> bool" where
  "digit_or P c \<longleftrightarrow> is_digit c \<or> P c"

definition upper_letter :: "char \<Rightarrow> bool" where
  "upper_letter c \<longleftrightarrow> (of_char c :: nat) \<in> {65..90}"

definition letter :: "char \<Rightarrow> bool" where
  "letter c \<longleftrightarrow> upper_letter c \<or> (of_char c :: nat) \<in> {97..122}"

text \<open>A fixed prefix, then between \<open>lo\<close> and \<open>hi\<close> characters of a class.\<close>

definition prefixed :: "string \<Rightarrow> (char \<Rightarrow> bool) \<Rightarrow> nat \<Rightarrow> nat \<Rightarrow> string \<Rightarrow> bool" where
  "prefixed p P lo hi s \<longleftrightarrow>
     starts_with p s \<and> (let r = drop (length p) s
       in lo \<le> length r \<and> length r \<le> hi \<and> list_all P r)"

definition PLINK_RE :: "string \<Rightarrow> bool" where
  "PLINK_RE = to_dollar (prefixed ''plink_'' (digit_or letter) 6 40)"

definition REF_RE :: "string \<Rightarrow> bool" where
  "REF_RE = to_dollar (prefixed ''PAY-'' (digit_or upper_letter) 4 16)"

definition as_int :: "json \<Rightarrow> int option res" where
  "as_int v =
     (case v of
        Jnull \<Rightarrow> Inr None
      | Jbool b \<Rightarrow> Inr None
      | _ \<Rightarrow> (case py_int_of v of
            Inl e \<Rightarrow> if type_or_value e then Inr None else Inl e
          | Inr i \<Rightarrow> Inr (Some i)))"

text \<open>\<open>str(d.get(k) or "")\<close>, and the same with \<open>or None\<close> at the end.\<close>

definition text_at :: "(json \<Rightarrow> string) \<Rightarrow> string \<Rightarrow> (string \<times> json) list \<Rightarrow> string" where
  "text_at R k kvs = py_str R (or_else (dict_get k kvs) (Jtext []))"

definition some_text :: "string \<Rightarrow> string option" where
  "some_text t = (if t = [] then None else Some t)"

lemma some_text_simps [simp]:
  "some_text t = None \<longleftrightarrow> t = []"
  "some_text t = Some u \<longleftrightarrow> u = t \<and> t \<noteq> []"
  by (auto simp: some_text_def)

text \<open>\<open>value.get(k)\<close> on a value that need not be an object.\<close>

definition get_attr :: "string \<Rightarrow> json \<Rightarrow> json res" where
  "get_attr k v = (case v of Jobj kvs \<Rightarrow> Inr (dict_get k kvs) | _ \<Rightarrow> Inl (OtherError ''AttributeError''))"

definition obj_of :: "json \<Rightarrow> (string \<times> json) list" where
  "obj_of v = (case v of Jobj kvs \<Rightarrow> kvs | _ \<Rightarrow> [])"

section \<open>Requests\<close>

record razorpay_gateway =
  rz_key_id :: string
  rz_key_secret :: string
  rz_webhook_secret :: string

definition new_razorpay :: "string \<Rightarrow> string \<Rightarrow> string \<Rightarrow> razorpay_gateway res" where
  "new_razorpay key_id key_secret webhook_secret =
     (if key_id = [] \<or> key_secret = [] \<or> webhook_secret = []
      then Inl (ValueError ''Razorpay key id, key secret and webhook secret are all required'')
      else Inr \<lparr>rz_key_id = key_id, rz_key_secret = key_secret, rz_webhook_secret = webhook_secret\<rparr>)"

text \<open>What the HTTP client gives back: a network error, or a status code with a body that is
  JSON or not.\<close>

datatype rz_answer = Rz_network_error | Rz_response int "json option"

definition rz_error_text :: "(json \<Rightarrow> string) \<Rightarrow> json \<Rightarrow> string" where
  "rz_error_text R body =
     (case dict_get ''error'' (obj_of body) of
        Jobj err \<Rightarrow> take 160 (text_at R ''description'' err) | _ \<Rightarrow> [])"

definition rz_request :: "(json \<Rightarrow> string) \<Rightarrow> rz_answer \<Rightarrow> (string \<times> json) list res" where
  "rz_request R answer =
     (case answer of
        Rz_network_error \<Rightarrow> Inl (GatewayError ''Razorpay network error'')
      | Rz_response code parsed \<Rightarrow>
          let body = (case parsed of None \<Rightarrow> Jobj [] | Some b \<Rightarrow> b)
          in if 400 \<le> code
             then Inl (GatewayError (strip (''Razorpay HTTP '' @ str_int code @ '' '' @ rz_error_text R body)))
             else (case body of Jobj kvs \<Rightarrow> Inr kvs
                 | _ \<Rightarrow> Inl (GatewayError ''Razorpay returned an unexpected payload'')))"

text \<open>The body of the request; \<open>now\<close> is the clock in microseconds.\<close>

definition checkout_notes :: "(string \<times> string) list \<Rightarrow> (string \<times> json) list" where
  "checkout_notes kvs = foldl (\<lambda>d (k, v). dict_set (take 40 k) (Jtext (take 250 v)) d) [] kvs"

definition checkout_payload ::
  "int \<Rightarrow> string \<Rightarrow> int \<Rightarrow> string \<Rightarrow> string \<Rightarrow> (string \<times> string) list \<Rightarrow> string option
    \<Rightarrow> (string \<times> json) list" where
  "checkout_payload now ref amount currency descr kvs callback =
     [(''amount'', Jint amount), (''currency'', Jtext currency), (''accept_partial'', Jbool False),
      (''reference_id'', Jtext ref), (''description'', Jtext (take 255 descr)),
      (''notify'', Jobj [(''sms'', Jbool False), (''email'', Jbool False)]),
      (''reminder_enable'', Jbool False), (''notes'', Jobj (checkout_notes kvs)),
      (''expire_by'', Jint (now div 1000000 + 24 * 3600))] @
     (case callback of None \<Rightarrow> []
      | Some url \<Rightarrow> if url = [] then []
          else [(''callback_url'', Jtext url), (''callback_method'', Jtext ''get'')])"

text \<open>\<open>post\<close> answers a request body.\<close>

definition rz_create_checkout ::
  "(json \<Rightarrow> string) \<Rightarrow> ((string \<times> json) list \<Rightarrow> rz_answer) \<Rightarrow> int \<Rightarrow> string \<Rightarrow> int \<Rightarrow> string \<Rightarrow> string
    \<Rightarrow> (string \<times> string) list \<Rightarrow> string option \<Rightarrow> checkout res" where
  "rz_create_checkout R post now ref amount currency descr kvs callback =
     (if \<not> REF_RE ref then Inl (GatewayError ''Invalid payment reference'')
      else e_bind (rz_request R (post (checkout_payload now ref amount currency descr kvs callback))) (\<lambda>body.
        let link = text_at R ''id'' body; url = text_at R ''short_url'' body
        in if \<not> PLINK_RE link \<or> \<not> starts_with ''https://'' url
           then Inl (GatewayError ''Razorpay did not return a usable payment link'')
           else Inr \<lparr>co_url = url, co_gateway_ref = link\<rparr>))"

definition rz_fetch_status ::
  "(json \<Rightarrow> string) \<Rightarrow> (string \<Rightarrow> rz_answer) \<Rightarrow> string \<Rightarrow> gateway_status res" where
  "rz_fetch_status R get link =
     (if \<not> PLINK_RE link then Inl (GatewayError ''Invalid gateway reference'')
      else e_bind (rz_request R (get (''/payment_links/'' @ link))) (\<lambda>body.
        let st = lower (text_at R ''status'' body)
        in if st = ''paid'' then
             e_bind (as_int (dict_get ''amount_paid'' body)) (\<lambda>paid. Inr
               \<lparr>gs_state = State_paid, gs_amount_paise = paid,
                gs_currency = some_text (upper (text_at R ''currency'' body))\<rparr>)
           else Inr \<lparr>gs_state = (if st \<in> set [''expired'', ''cancelled'', ''canceled'']
                then State_expired else State_pending), gs_amount_paise = None, gs_currency = None\<rparr>))"

section \<open>Webhooks\<close>

text \<open>
  What the parsing of a webhook takes from outside: the HMAC, the SHA-256 hex digest of a body,
  the JSON parser and the text of floats and containers.
\<close>

record rz_env =
  rz_hmac :: "string \<Rightarrow> string \<Rightarrow> string"
  rz_sha256 :: "string \<Rightarrow> string"
  rz_loads :: "string \<Rightarrow> json option"
  rz_str :: "json \<Rightarrow> string"

text \<open>\<open>{k.lower(): v for k, v in headers.items()}\<close>: of equal names the last one counts.\<close>

definition header :: "string \<Rightarrow> (string \<times> string) list \<Rightarrow> string option" where
  "header k hs = map_of (rev (map (\<lambda>(n, v). (lower n, v)) hs)) k"

text \<open>\<open>(payload.get(k) or {}).get("entity") or {}\<close>, and an object in any case.\<close>

definition entity :: "string \<Rightarrow> (string \<times> json) list \<Rightarrow> (string \<times> json) list res" where
  "entity k kvs =
     e_bind (get_attr ''entity'' (or_else (dict_get k kvs) (Jobj []))) (\<lambda>v. Inr (obj_of v))"

definition paid_event ::
  "(json \<Rightarrow> string) \<Rightarrow> gateway_event \<Rightarrow> (string \<times> json) list \<Rightarrow> (string \<times> json) list
    \<Rightarrow> gateway_event res" where
  "paid_event R base link pay =
     e_bind (as_int (dict_get ''amount_paid'' link)) (\<lambda>paid.
     e_bind (as_int (dict_get ''amount'' pay)) (\<lambda>pay_amount. Inr
       (if (case ge_reference base of None \<Rightarrow> True | Some r \<Rightarrow> \<not> REF_RE r)
        then base\<lparr>ge_kind := Kind_ignored, ge_reference := None, ge_amount_paise := paid,
          ge_detail := ''no reference id (not one of our links)''\<rparr>
        else if lower (text_at R ''status'' link) \<noteq> ''paid'' \<or>
          (case paid of None \<Rightarrow> True | Some a \<Rightarrow> a \<le> 0 \<or> (pay_amount \<noteq> None \<and> pay_amount \<noteq> Some a))
        then base\<lparr>ge_kind := Kind_attention, ge_amount_paise := paid,
          ge_detail := ''paid event with inconsistent status/amount''\<rparr>
        else base\<lparr>ge_kind := Kind_paid, ge_amount_paise := paid\<rparr>)))"

definition event_of ::
  "(json \<Rightarrow> string) \<Rightarrow> gateway_event \<Rightarrow> (string \<times> json) list \<Rightarrow> (string \<times> json) list
    \<Rightarrow> gateway_event res" where
  "event_of R base link pay =
     (let t = ge_event_type base
      in if t = ''payment_link.paid'' then paid_event R base link pay
         else if t \<in> set [''payment_link.expired'', ''payment_link.cancelled'']
         then Inr (base\<lparr>ge_kind := Kind_expired\<rparr>)
         else if list_ex (\<lambda>p. starts_with p t) [''refund.'', ''payment.dispute'', ''payment.refunded'']
         then e_bind (as_int (dict_get ''amount'' pay)) (\<lambda>a. Inr
           (base\<lparr>ge_kind := Kind_attention, ge_amount_paise := a,
                 ge_detail := ''refund/dispute needs manual handling''\<rparr>))
         else Inr (base\<lparr>ge_kind := Kind_ignored\<rparr>))"

definition webhook_event_id :: "rz_env \<Rightarrow> (string \<times> string) list \<Rightarrow> string \<Rightarrow> string" where
  "webhook_event_id env hs body =
     (let eid = take 80 (strip (case header ''x-razorpay-event-id'' hs of None \<Rightarrow> [] | Some t \<Rightarrow> t))
      in if eid = [] then ''sha256:'' @ take 40 (rz_sha256 env body) else eid)"

definition base_event ::
  "rz_env \<Rightarrow> (string \<times> string) list \<Rightarrow> string \<Rightarrow> (string \<times> json) list \<Rightarrow> (string \<times> json) list
    \<Rightarrow> (string \<times> json) list \<Rightarrow> gateway_event" where
  "base_event env hs body kvs link pay =
     (let R = rz_str env in
      \<lparr>ge_event_id = webhook_event_id env hs body,
       ge_event_type = take 64 (text_at R ''event'' kvs), ge_kind = Kind_ignored,
       ge_reference = some_text (text_at R ''reference_id'' link),
       ge_gateway_ref = some_text (text_at R ''id'' link), ge_amount_paise = None,
       ge_currency = some_text (upper (py_str R (or_else (dict_get ''currency'' link)
         (or_else (dict_get ''currency'' pay) (Jtext []))))),
       ge_detail = []\<rparr>)"

definition event_from_object ::
  "rz_env \<Rightarrow> (string \<times> string) list \<Rightarrow> string \<Rightarrow> (string \<times> json) list \<Rightarrow> gateway_event res" where
  "event_from_object env hs body kvs =
     (let payload = obj_of (dict_get ''payload'' kvs)
      in e_bind (entity ''payment_link'' payload) (\<lambda>link.
         e_bind (entity ''payment'' payload) (\<lambda>pay.
           event_of (rz_str env) (base_event env hs body kvs link pay) link pay)))"

definition parse_webhook ::
  "rz_env \<Rightarrow> razorpay_gateway \<Rightarrow> (string \<times> string) list \<Rightarrow> string \<Rightarrow> gateway_event res" where
  "parse_webhook env gw hs body =
     e_bind (verify_hmac_sha256_hex (rz_hmac env) (rz_webhook_secret gw) body
       (header ''x-razorpay-signature'' hs)) (\<lambda>ok.
     if \<not> ok then Inl (SignatureError ''invalid webhook signature'')
     else case rz_loads env body of
       None \<Rightarrow> Inl (GatewayError ''webhook body is not JSON'')
     | Some (Jobj kvs) \<Rightarrow> event_from_object env hs body kvs
     | Some _ \<Rightarrow> Inl (GatewayError ''webhook body is not an object''))"

section \<open>What an event guarantees\<close>

lemma verify_True:
  "verify_hmac_sha256_hex hm secret body provided = Inr True \<Longrightarrow>
   secret \<noteq> [] \<and> (\<exists>sig. provided = Some sig \<and> hm secret body = lower (strip sig))"
  by (auto simp: verify_hmac_sha256_hex_def compare_digest_def no_text_def split: if_split_asm)

lemma parse_webhook_signed:
  assumes "parse_webhook env gw hs body = Inr ev"
  obtains sig kvs where "header ''x-razorpay-signature'' hs = Some sig"
    "rz_hmac env (rz_webhook_secret gw) body = lower (strip sig)"
    "rz_loads env body = Some (Jobj kvs)" "event_from_object env hs body kvs = Inr ev"
proof -
  have ok: "verify_hmac_sha256_hex (rz_hmac env) (rz_webhook_secret gw) body
      (header ''x-razorpay-signature'' hs) = Inr True"
    using assms by (auto simp: parse_webhook_def split: if_split_asm)
  with assms have "\<exists>kvs. rz_loads env body = Some (Jobj kvs) \<and> event_from_object env hs body kvs = Inr ev"
    by (auto simp: parse_webhook_def split: option.split_asm json.split_asm)
  with verify_True [OF ok] that show thesis by blast
qed

lemma paid_event_kind:
  assumes "paid_event R base link pay = Inr ev" and "ge_kind ev = Kind_paid"
  shows "\<exists>ref a. ge_reference ev = Some ref \<and> ge_reference base = Some ref \<and> REF_RE ref \<and>
    ge_amount_paise ev = Some a \<and> 0 < a \<and> as_int (dict_get ''amount_paid'' link) = Inr (Some a) \<and>
    as_int (dict_get ''amount'' pay) \<in> {Inr None, Inr (Some a)} \<and>
    lower (text_at R ''status'' link) = ''paid''"
proof -
  obtain paid pay_amount where p: "as_int (dict_get ''amount_paid'' link) = Inr paid"
    and q: "as_int (dict_get ''amount'' pay) = Inr pay_amount"
    using assms(1) by (auto simp: paid_event_def)
  obtain a where a: "paid = Some a" "0 < a" "pay_amount \<in> {None, Some a}"
    and st: "lower (text_at R ''status'' link) = ''paid''"
    and ref: "ge_reference base \<noteq> None" "REF_RE (the (ge_reference base))"
    and ev: "ev = base\<lparr>ge_kind := Kind_paid, ge_amount_paise := paid\<rparr>"
    using assms p q by (auto simp: paid_event_def split: if_split_asm option.split_asm)
  then show ?thesis using p q by auto
qed

text \<open>
  C6: Signed and consistent. A webhook yields a \<open>paid\<close> event only if the signature header is the
  HMAC of the raw body under the webhook secret, the body is an object of the event type
  \<open>payment_link.paid\<close>, the reference has the shape of our payment ids, and the amount is a
  positive amount that the link reports as paid and the payment, when it reports one, confirms.
\<close>

theorem paid_event_is_signed_and_consistent:
  assumes "parse_webhook env gw hs body = Inr ev" and "ge_kind ev = Kind_paid"
  shows "\<exists>sig ref a kvs link pay. header ''x-razorpay-signature'' hs = Some sig \<and>
    rz_hmac env (rz_webhook_secret gw) body = lower (strip sig) \<and>
    rz_loads env body = Some (Jobj kvs) \<and>
    take 64 (text_at (rz_str env) ''event'' kvs) = ''payment_link.paid'' \<and>
    entity ''payment_link'' (obj_of (dict_get ''payload'' kvs)) = Inr link \<and>
    entity ''payment'' (obj_of (dict_get ''payload'' kvs)) = Inr pay \<and>
    ge_reference ev = Some ref \<and> REF_RE ref \<and> ref = text_at (rz_str env) ''reference_id'' link \<and>
    ge_amount_paise ev = Some a \<and> 0 < a \<and> as_int (dict_get ''amount_paid'' link) = Inr (Some a) \<and>
    as_int (dict_get ''amount'' pay) \<in> {Inr None, Inr (Some a)} \<and>
    lower (text_at (rz_str env) ''status'' link) = ''paid''"
proof -
  obtain sig kvs where sig: "header ''x-razorpay-signature'' hs = Some sig"
    "rz_hmac env (rz_webhook_secret gw) body = lower (strip sig)"
    and body: "rz_loads env body = Some (Jobj kvs)" and ev: "event_from_object env hs body kvs = Inr ev"
    using assms(1) by (rule parse_webhook_signed)
  obtain link pay where link: "entity ''payment_link'' (obj_of (dict_get ''payload'' kvs)) = Inr link"
    and pay: "entity ''payment'' (obj_of (dict_get ''payload'' kvs)) = Inr pay"
    and eo: "event_of (rz_str env) (base_event env hs body kvs link pay) link pay = Inr ev"
    using ev by (auto simp: event_from_object_def Let_def)
  define base where "base = base_event env hs body kvs link pay"
  have base: "ge_event_type base = take 64 (text_at (rz_str env) ''event'' kvs)"
      "ge_reference base = some_text (text_at (rz_str env) ''reference_id'' link)"
    by (simp_all add: base_def base_event_def Let_def)
  have t: "ge_event_type base = ''payment_link.paid''"
    and pe: "paid_event (rz_str env) base link pay = Inr ev"
    using eo assms(2) by (auto simp: event_of_def Let_def base_def [symmetric] split: if_split_asm)
  obtain ref a where ref: "ge_reference ev = Some ref" "ge_reference base = Some ref" "REF_RE ref"
    and a: "ge_amount_paise ev = Some a" "0 < a" "as_int (dict_get ''amount_paid'' link) = Inr (Some a)"
      "as_int (dict_get ''amount'' pay) \<in> {Inr None, Inr (Some a)}"
      "lower (text_at (rz_str env) ''status'' link) = ''paid''"
    using paid_event_kind [OF pe assms(2)] by blast
  moreover have "ref = text_at (rz_str env) ''reference_id'' link" using ref(2) base(2) by simp
  moreover have "take 64 (text_at (rz_str env) ''event'' kvs) = ''payment_link.paid''" using base(1) t by simp
  ultimately show ?thesis using sig body link pay by blast
qed

text \<open>A paid event for the witnesses: a body that parses to one object, and a constant HMAC.\<close>

definition sample_body :: "string \<Rightarrow> int \<Rightarrow> json" where
  "sample_body ref amount =
     Jobj [(''event'', Jtext ''payment_link.paid''), (''payload'', Jobj
       [(''payment_link'', Jobj [(''entity'', Jobj [(''id'', Jtext ''plink_ABCDEF''),
           (''reference_id'', Jtext ref), (''status'', Jtext ''paid''), (''currency'', Jtext ''INR''),
           (''amount_paid'', Jint amount)])]),
        (''payment'', Jobj [(''entity'', Jobj [(''amount'', Jint amount)])])])]"

definition sample_rz :: "json \<Rightarrow> rz_env" where
  "sample_rz body = \<lparr>rz_hmac = \<lambda>secret text. ''c0ffee'', rz_sha256 = id, rz_loads = \<lambda>text. Some body,
     rz_str = \<lambda>_. []\<rparr>"

definition sample_gateway :: razorpay_gateway where
  "sample_gateway = \<lparr>rz_key_id = ''k'', rz_key_secret = ''s'', rz_webhook_secret = ''w''\<rparr>"

definition sample_headers :: "(string \<times> string) list" where
  "sample_headers = [(''X-Razorpay-Signature'', ''C0FFEE ''), (''X-Razorpay-Event-Id'', ''ev1'')]"

lemma sample_event:
  "parse_webhook (sample_rz (sample_body ''PAY-0001'' 50000)) sample_gateway sample_headers ''{}''
   = Inr \<lparr>ge_event_id = ''ev1'', ge_event_type = ''payment_link.paid'', ge_kind = Kind_paid,
       ge_reference = Some ''PAY-0001'', ge_gateway_ref = Some ''plink_ABCDEF'',
       ge_amount_paise = Some 50000, ge_currency = Some ''INR'', ge_detail = []\<rparr>"
  by code_simp

theorem paid_event_is_signed_and_consistent_witness:
  "\<exists>ev. parse_webhook (sample_rz (sample_body ''PAY-0001'' 50000)) sample_gateway sample_headers ''{}''
     = Inr ev \<and> ge_kind ev = Kind_paid \<and> (\<exists>a. ge_amount_paise ev = Some a \<and> 0 < a)"
proof -
  obtain ev where ev: "parse_webhook (sample_rz (sample_body ''PAY-0001'' 50000)) sample_gateway
      sample_headers ''{}'' = Inr ev" and k: "ge_kind ev = Kind_paid"
    using sample_event by simp
  obtain a where "ge_amount_paise ev = Some a" "0 < a"
    using paid_event_is_signed_and_consistent [OF ev k] by blast
  with ev k show ?thesis by blast
qed

end
