(* ===== verification/Payments.thy ===== *)
theory Payments
  imports Referrals Razorpay
begin

text \<open>
  \<open>app/payments/service.py\<close>, the webhook route of \<open>app/api/webhooks.py\<close> and the deposit routes of
  \<open>app/api/routes.py\<close>: a deposit from its invoice to the credit of the wallet. The gateway is
  Razorpay's, with the HTTP client as an argument. A payment row is addressed by its public id.
  The lemmas show that a payment is credited exactly when its row says paid, once and with the
  invoiced amount, whatever events arrive, and that nothing else than a matching event credits.
\<close>

section \<open>Creating a deposit\<close>

definition get_gateway :: "settings \<Rightarrow> razorpay_gateway option res" where
  "get_gateway st =
     (if payment_gateway st \<noteq> ''razorpay'' then Inr None
      else case (razorpay_key_id st, razorpay_secret_value st, razorpay_webhook_secret_value st) of
          (Some (c # cs), Some secret, Some hook) \<Rightarrow>
            e_bind (new_razorpay (c # cs) secret hook) (\<lambda>gw. Inr (Some gw))
        | _ \<Rightarrow> Inl (DepositError ''Online payments are not configured''))"

record deposit_request =
  dr_user :: int
  dr_amount :: int
  dr_key :: "string option"
  dr_public_id :: string

definition DEPOSIT_BUCKET_SECONDS :: int where "DEPOSIT_BUCKET_SECONDS = 45"

definition deposit_key :: "digest \<Rightarrow> int \<Rightarrow> deposit_request \<Rightarrow> string" where
  "deposit_key H now q =
     (case dr_key q of
        Some (c # cs) \<Rightarrow> new_idempotency_key H [''pay-key'', str_int (dr_user q), take 128 (c # cs)]
      | _ \<Rightarrow> new_idempotency_key H [''pay'', str_int (dr_user q), str_int (dr_amount q),
          str_int (now div (DEPOSIT_BUCKET_SECONDS * 1000000))])"

definition new_payment :: "digest \<Rightarrow> int \<Rightarrow> settings \<Rightarrow> deposit_request \<Rightarrow> int \<Rightarrow> payment_row" where
  "new_payment H now st q pid =
     \<lparr>pay_id = pid, pay_public_id = dr_public_id q, pay_user_id = dr_user q,
      pay_amount_paise = dr_amount q, pay_method = payment_gateway st, pay_status = PENDING,
      pay_provider_ref = None, pay_currency = currency_code st, pay_checkout_url = None,
      pay_failure_reason = None, pay_key = deposit_key H now q, pay_paid_at = None,
      pay_created_at = now\<rparr>"

definition insert_payment :: "payment_row \<Rightarrow> db \<Rightarrow> db res" where
  "insert_payment p s =
     (if pay_public_id p \<in> set (map pay_public_id (payments s))
      then Inl (IntegrityError ''payments.public_id'')
      else if pay_key p \<in> set (map pay_key (payments s))
      then Inl (IntegrityError ''payments.idempotency_key'')
      else Inr (s\<lparr>payments := payments s @ [p], next_payment_id := pay_id p + 1\<rparr>))"

definition callback_url :: "settings \<Rightarrow> string option" where
  "callback_url st =
     (if no_text (public_base_url st) then None
      else map_option (\<lambda>b. b @ ''/pay/return'') (public_base_url st))"

text \<open>
  The checkout of a Razorpay invoice. A gateway error deletes the invoice again and becomes a
  \<open>DepositError\<close>; both leave no trace.
\<close>

definition open_checkout ::
  "(json \<Rightarrow> string) \<Rightarrow> int \<Rightarrow> settings \<Rightarrow> ((string \<times> json) list \<Rightarrow> rz_answer) \<Rightarrow> payment_row
    \<Rightarrow> checkout res" where
  "open_checkout R now st post p =
     e_bind (get_gateway st) (\<lambda>gw. case gw of
       None \<Rightarrow> Inl (DepositError ''Online payments are not configured'')
     | Some _ \<Rightarrow>
         (case rz_create_checkout R post now (pay_public_id p) (pay_amount_paise p) (currency_code st)
             ''Wallet top-up'' [(''telegram_id'', str_int (pay_user_id p)), (''payment'', pay_public_id p)]
             (callback_url st) of
            Inl (GatewayError m) \<Rightarrow>
              Inl (DepositError ''The payment provider is unavailable. Please try again shortly.'')
          | Inl e \<Rightarrow> Inl e
          | Inr co \<Rightarrow> Inr co))"

definition with_checkout :: "checkout \<Rightarrow> payment_row \<Rightarrow> payment_row" where
  "with_checkout co p =
     p\<lparr>pay_provider_ref := Some (co_gateway_ref co), pay_checkout_url := Some (co_url co)\<rparr>"

definition create_deposit ::
  "(json \<Rightarrow> string) \<Rightarrow> digest \<Rightarrow> int \<Rightarrow> settings \<Rightarrow> ((string \<times> json) list \<Rightarrow> rz_answer)
    \<Rightarrow> deposit_request \<Rightarrow> db \<Rightarrow> (payment_row \<times> db) res" where
  "create_deposit R H now st post q s =
     e_bind (lock_user (dr_user q) s) (\<lambda>user.
     if u_is_banned user then Inl (DepositError ''This account is suspended'')
     else if u_terms_accepted_at user = None
     then Inl (DepositError ''Please accept the Terms of Service and Privacy Policy first'')
     else case assert_payments_open s of
       Inl (PermissionError m) \<Rightarrow> Inl (DepositError m)
     | Inl e \<Rightarrow> Inl e
     | Inr _ \<Rightarrow>
     if dr_amount q < min_deposit_paise st \<or> max_deposit_paise st < dr_amount q
     then Inl (DepositError ''Deposit must be between'')
     else
       let p = new_payment H now st q (next_payment_id s)
       in case find_by pay_key (pay_key p) (payments s) of
            Some old \<Rightarrow>
              if pay_user_id old = dr_user q then Inr (old, s)
              else Inl (IntegrityError ''payments.idempotency_key'')
          | None \<Rightarrow>
              e_bind (insert_payment p s) (\<lambda>s.
              if pay_method p = ''razorpay'' then
                e_bind (open_checkout R now st post p) (\<lambda>co.
                  Inr (with_checkout co p, update_payment (pay_public_id p) (with_checkout co) s))
              else Inr (p, s)))"

section \<open>Settling\<close>

record settle_request =
  sr_payment :: string
  sr_gateway :: string
  sr_gateway_ref :: "string option"
  sr_amount :: "int option"
  sr_currency :: "string option"
  sr_source :: string
  sr_actor :: string

record settle_outcome =
  so_outcome :: string
  so_payment :: "string option"
  so_user :: "int option"
  so_amount :: "int option"

definition settled_as :: "string \<Rightarrow> payment_row \<Rightarrow> int option \<Rightarrow> settle_outcome" where
  "settled_as w p a =
     \<lparr>so_outcome = w, so_payment = Some (pay_public_id p), so_user = Some (pay_user_id p), so_amount = a\<rparr>"

definition int_or_none :: "int option \<Rightarrow> string" where
  "int_or_none a = (case a of None \<Rightarrow> ''None'' | Some i \<Rightarrow> str_int i)"

text \<open>\<open>(currency or payment.currency or "").upper()\<close>.\<close>

definition settle_currency :: "settle_request \<Rightarrow> payment_row \<Rightarrow> string" where
  "settle_currency q p = upper (if no_text (sr_currency q) then pay_currency p else the (sr_currency q))"

definition hold_payment :: "settle_request \<Rightarrow> payment_row \<Rightarrow> db \<Rightarrow> db" where
  "hold_payment q p s =
     audit (sr_actor q) ''payment.mismatch'' (Some (pay_public_id p)) (Some (sr_source q))
       (update_payment (pay_public_id p) (\<lambda>p. p\<lparr>pay_status := REVIEW, pay_failure_reason := Some (take 255
          (''mismatch: expected '' @ str_int (pay_amount_paise p) @ '' '' @ pay_currency p @ '', got '' @
           int_or_none (sr_amount q) @ '' '' @ settle_currency q p))\<rparr>) s)"

definition deposit_ledger_key :: "digest \<Rightarrow> string \<Rightarrow> string" where
  "deposit_ledger_key H pid = new_idempotency_key H [''deposit'', pid]"

definition payment_ref :: "settle_request \<Rightarrow> string \<Rightarrow> entry_refs" where
  "payment_ref q pid =
     \<lparr>ref_type = Some ''payment'', ref_id = Some pid, ref_by = None,
      ref_meta = Some [(''gateway'', JStr (sr_gateway q)), (''source'', JStr (sr_source q))]\<rparr>"

definition mark_paid :: "int \<Rightarrow> settle_request \<Rightarrow> payment_row \<Rightarrow> payment_row" where
  "mark_paid now q p =
     p\<lparr>pay_status := PAID, pay_paid_at := Some now, pay_failure_reason := None,
       pay_provider_ref :=
         (if \<not> no_text (sr_gateway_ref q) \<and> no_text (pay_provider_ref p)
          then map_option (take 64) (sr_gateway_ref q) else pay_provider_ref p)\<rparr>"

definition credit_payment ::
  "digest \<Rightarrow> int \<Rightarrow> settle_request \<Rightarrow> payment_row \<Rightarrow> db \<Rightarrow> (settle_outcome \<times> db) res" where
  "credit_payment H now q p s =
     e_bind (credit H (pay_user_id p) (pay_amount_paise p) (''Deposit '' @ pay_public_id p)
       (Some (deposit_ledger_key H (pay_public_id p))) (payment_ref q (pay_public_id p)) s) (\<lambda>(e, s).
     e_bind (credit_deposit_commission H (pay_user_id p) p s) (\<lambda>(x, s).
       Inr (settled_as ''credited'' p (Some (pay_amount_paise p)),
         audit (sr_actor q) ''payment.credited'' (Some (pay_public_id p)) None
           (update_payment (pay_public_id p) (mark_paid now q) s))))"

definition settle_payment ::
  "digest \<Rightarrow> int \<Rightarrow> settle_request \<Rightarrow> db \<Rightarrow> (settle_outcome \<times> db) res" where
  "settle_payment H now q s =
     (case payment_by_public_id (sr_payment q) s of
        None \<Rightarrow> Inr (\<lparr>so_outcome = ''unknown_payment'', so_payment = Some (sr_payment q),
            so_user = None, so_amount = None\<rparr>, s)
      | Some p \<Rightarrow>
        if pay_method p \<noteq> sr_gateway q \<and> sr_source q \<noteq> ''manual''
        then Inr (settled_as ''gateway_mismatch'' p None, s)
        else if \<not> no_text (pay_provider_ref p) \<and> \<not> no_text (sr_gateway_ref q) \<and>
          pay_provider_ref p \<noteq> sr_gateway_ref q
        then Inr (settled_as ''ref_mismatch'' p None, s)
        else if pay_status p = PAID
        then Inr (settled_as ''already_paid'' p (Some (pay_amount_paise p)), s)
        else if sr_amount q \<noteq> Some (pay_amount_paise p) \<or>
          settle_currency q p \<noteq> upper (pay_currency p)
        then Inr (settled_as ''amount_mismatch'' p (sr_amount q), hold_payment q p s)
        else if users s (pay_user_id p) = None
        then Inr (settled_as ''unknown_payment'' p None,
          update_payment (pay_public_id p)
            (\<lambda>p. p\<lparr>pay_status := REVIEW, pay_failure_reason := Some ''owner not found''\<rparr>) s)
        else credit_payment H now q p s)"

section \<open>Webhook events\<close>

definition event_row :: "string \<Rightarrow> gateway_event \<Rightarrow> payment_event" where
  "event_row gw ev =
     \<lparr>pe_gateway = gw, pe_event_id = ge_event_id ev, pe_event_type = ge_event_type ev,
      pe_payment_public_id = ge_reference ev, pe_amount_paise = ge_amount_paise ev,
      pe_currency = ge_currency ev, pe_outcome = ''processing'', pe_detail = None\<rparr>"

definition event_key :: "payment_event \<Rightarrow> string \<times> string" where
  "event_key r = (pe_gateway r, pe_event_id r)"

definition simple_outcome :: "string \<Rightarrow> string option \<Rightarrow> int option \<Rightarrow> settle_outcome" where
  "simple_outcome w ref a = \<lparr>so_outcome = w, so_payment = ref, so_user = None, so_amount = a\<rparr>"

definition expire_payment :: "string \<Rightarrow> db \<Rightarrow> db" where
  "expire_payment pid s = update_payment pid (\<lambda>p. p\<lparr>pay_status := EXPIRED\<rparr>) s"

definition event_request :: "string \<Rightarrow> gateway_event \<Rightarrow> string \<Rightarrow> settle_request" where
  "event_request gw ev ref =
     \<lparr>sr_payment = ref, sr_gateway = gw, sr_gateway_ref = ge_gateway_ref ev,
      sr_amount = ge_amount_paise ev, sr_currency = ge_currency ev, sr_source = ''webhook'',
      sr_actor = ''system''\<rparr>"

definition dispatch_event ::
  "digest \<Rightarrow> int \<Rightarrow> string \<Rightarrow> gateway_event \<Rightarrow> db \<Rightarrow> (settle_outcome \<times> db) res" where
  "dispatch_event H now gw ev s =
     (let ref = (if no_text (ge_reference ev) then [] else the (ge_reference ev)) in
      if ge_kind ev = Kind_paid \<and> ref \<noteq> [] then settle_payment H now (event_request gw ev ref) s
      else if ge_kind ev = Kind_expired \<and> ref \<noteq> [] then
        (case payment_by_public_id ref s of
           None \<Rightarrow> Inr (simple_outcome ''ignored'' (Some ref) None, s)
         | Some p \<Rightarrow>
             if pay_status p = PENDING then Inr (settled_as ''expired'' p None, expire_payment ref s)
             else Inr (simple_outcome ''ignored'' (Some ref) None, s))
      else if ge_kind ev = Kind_attention then
        Inr (simple_outcome ''manual_review'' (ge_reference ev) (ge_amount_paise ev),
          audit ''system'' ''payment.attention'' (ge_reference ev) None s)
      else Inr (simple_outcome ''ignored'' (ge_reference ev) None, s))"

text \<open>The row of the event is the replay guard: inserting it twice violates its constraint.\<close>

definition handle_webhook_event ::
  "digest \<Rightarrow> int \<Rightarrow> string \<Rightarrow> gateway_event \<Rightarrow> db \<Rightarrow> (settle_outcome \<times> db) res" where
  "handle_webhook_event H now gw ev s =
     (if (gw, ge_event_id ev) \<in> event_key ` set (payment_events s)
      then Inr (simple_outcome ''duplicate'' (ge_reference ev) None, s)
      else e_bind (dispatch_event H now gw ev (s\<lparr>payment_events := payment_events s @ [event_row gw ev]\<rparr>))
        (\<lambda>(out, s). Inr (out, s\<lparr>payment_events := upd_by event_key (gw, ge_event_id ev)
          (\<lambda>r. r\<lparr>pe_outcome := take 32 (so_outcome out),
                 pe_detail := (if ge_detail ev = [] then None else Some (take 255 (ge_detail ev)))\<rparr>)
          (payment_events s)\<rparr>)))"

text \<open>The route: the size of the body, the signature, then one transaction.\<close>

definition MAX_WEBHOOK_BYTES :: nat where "MAX_WEBHOOK_BYTES = 256 * 1024"

definition razorpay_webhook ::
  "rz_env \<Rightarrow> digest \<Rightarrow> int \<Rightarrow> settings \<Rightarrow> (string \<times> string) list \<Rightarrow> string \<Rightarrow> db
    \<Rightarrow> (settle_outcome \<times> db) res" where
  "razorpay_webhook env H now st hs body s =
     e_bind (get_gateway st) (\<lambda>gw. case gw of
       None \<Rightarrow> Inl (HTTPException 404 ''Not found'')
     | Some gw \<Rightarrow>
       if (case header ''content-length'' hs of None \<Rightarrow> False
           | Some d \<Rightarrow> d \<noteq> [] \<and> list_all is_digit d \<and> MAX_WEBHOOK_BYTES < val_digits d)
         \<or> MAX_WEBHOOK_BYTES < length body
       then Inl (HTTPException 413 ''Payload too large'')
       else case parse_webhook env gw hs body of
         Inl (SignatureError m) \<Rightarrow> Inl (HTTPException 400 ''Invalid signature'')
       | Inl (GatewayError m) \<Rightarrow> Inl (HTTPException 400 ''Bad request'')
       | Inl e \<Rightarrow> Inl e
       | Inr ev \<Rightarrow> handle_webhook_event H now ''razorpay'' ev s)"

section \<open>Asking the gateway\<close>

definition status_request ::
  "payment_row \<Rightarrow> gateway_status \<Rightarrow> string \<Rightarrow> settle_request" where
  "status_request p st source =
     \<lparr>sr_payment = pay_public_id p, sr_gateway = ''razorpay'', sr_gateway_ref = pay_provider_ref p,
      sr_amount = gs_amount_paise st, sr_currency = gs_currency st, sr_source = source,
      sr_actor = ''system''\<rparr>"

definition provider_ref_or_empty :: "payment_row \<Rightarrow> string" where
  "provider_ref_or_empty p = (case pay_provider_ref p of None \<Rightarrow> [] | Some r \<Rightarrow> r)"

definition reconcile_rows :: "int \<Rightarrow> int \<Rightarrow> int \<Rightarrow> nat \<Rightarrow> db \<Rightarrow> payment_row list" where
  "reconcile_rows now min_age_seconds max_age_hours limit s =
     take limit (filter (\<lambda>p. pay_method p = ''razorpay'' \<and> pay_status p \<in> {PENDING, EXPIRED} \<and>
       pay_provider_ref p \<noteq> None \<and>
       pay_created_at p \<le> now - min_age_seconds * 1000000 \<and>
       now - max_age_hours * 3600 * 1000000 \<le> pay_created_at p) (payments s))"

definition reconcile_one ::
  "digest \<Rightarrow> int \<Rightarrow> (string \<Rightarrow> gateway_status res) \<Rightarrow> string \<Rightarrow> db
    \<Rightarrow> (settle_outcome list \<times> db) res" where
  "reconcile_one H now fetch pid s =
     (case payment_by_public_id pid s of
        None \<Rightarrow> Inr ([], s)
      | Some p \<Rightarrow>
        (case fetch (provider_ref_or_empty p) of
           Inl (GatewayError m) \<Rightarrow> Inr ([], s)
         | Inl e \<Rightarrow> Inl e
         | Inr st \<Rightarrow>
             if gs_state st = State_paid then
               e_bind (settle_payment H now (status_request p st ''reconcile'') s) (\<lambda>(out, s). Inr ([out], s))
             else if gs_state st = State_expired \<and> pay_status p = PENDING then
               Inr ([settled_as ''expired'' p None], expire_payment pid s)
             else Inr ([], s)))"

fun reconcile_loop ::
  "digest \<Rightarrow> int \<Rightarrow> (string \<Rightarrow> gateway_status res) \<Rightarrow> string list \<Rightarrow> db
    \<Rightarrow> (settle_outcome list \<times> db) res" where
  "reconcile_loop H now fetch [] s = Inr ([], s)"
| "reconcile_loop H now fetch (pid # pids) s =
     e_bind (reconcile_one H now fetch pid s) (\<lambda>(outs, s).
     e_bind (reconcile_loop H now fetch pids s) (\<lambda>(rest, s). Inr (outs @ rest, s)))"

definition reconcile_pending ::
  "digest \<Rightarrow> int \<Rightarrow> (string \<Rightarrow> gateway_status res) \<Rightarrow> int \<Rightarrow> int \<Rightarrow> nat \<Rightarrow> db
    \<Rightarrow> (settle_outcome list \<times> db) res" where
  "reconcile_pending H now fetch min_age max_age limit s =
     reconcile_loop H now fetch (map pay_public_id (reconcile_rows now min_age max_age limit s)) s"

definition manual_confirm ::
  "digest \<Rightarrow> int \<Rightarrow> string \<Rightarrow> string \<Rightarrow> db \<Rightarrow> (settle_outcome \<times> db) res" where
  "manual_confirm H now pid who s =
     (case payment_by_public_id pid s of
        None \<Rightarrow> Inr (\<lparr>so_outcome = ''unknown_payment'', so_payment = Some pid,
            so_user = None, so_amount = None\<rparr>, s)
      | Some p \<Rightarrow> settle_payment H now
          \<lparr>sr_payment = pay_public_id p, sr_gateway = pay_method p, sr_gateway_ref = pay_provider_ref p,
           sr_amount = Some (pay_amount_paise p), sr_currency = Some (pay_currency p),
           sr_source = ''manual'', sr_actor = who\<rparr> s)"

text \<open>\<open>check_payment\<close>: the payment, up to date, or \<open>None\<close> when it is not the user's.\<close>

definition check_payment ::
  "digest \<Rightarrow> int \<Rightarrow> settings \<Rightarrow> (string \<Rightarrow> gateway_status res) \<Rightarrow> string \<Rightarrow> int \<Rightarrow> db
    \<Rightarrow> (payment_row option \<times> db) res" where
  "check_payment H now st fetch pid uid s =
     (case payment_by_public_id pid s of
        None \<Rightarrow> Inr (None, s)
      | Some p \<Rightarrow>
        if pay_user_id p \<noteq> uid then Inr (None, s)
        else if pay_status p = PAID \<or> pay_method p \<noteq> ''razorpay'' \<or> no_text (pay_provider_ref p)
        then Inr (Some p, s)
        else e_bind (get_gateway st) (\<lambda>gw. case gw of
            None \<Rightarrow> Inr (Some p, s)
          | Some _ \<Rightarrow>
            e_bind (case fetch (provider_ref_or_empty p) of
                Inl (GatewayError m) \<Rightarrow> Inr s
              | Inl e \<Rightarrow> Inl e
              | Inr gst \<Rightarrow>
                  if gs_state gst = State_paid then
                    e_bind (settle_payment H now (status_request p gst ''user-check'') s) (\<lambda>(out, s). Inr s)
                  else if gs_state gst = State_expired \<and> pay_status p = PENDING
                  then Inr (expire_payment pid s)
                  else Inr s) (\<lambda>s. Inr (payment_by_public_id pid s, s))))"

definition payment_instructions :: "db \<Rightarrow> string" where
  "payment_instructions s = get_setting s ''payment_instructions'' []"

definition describe_outcome :: "settle_outcome \<Rightarrow> string" where
  "describe_outcome out =
     strip (so_outcome out @ '' '' @ (case so_payment out of None \<Rightarrow> [] | Some p \<Rightarrow> p))"

section \<open>Routes\<close>

definition mock_pay ::
  "digest \<Rightarrow> int \<Rightarrow> settings \<Rightarrow> string \<Rightarrow> int \<Rightarrow> db \<Rightarrow> (settle_outcome \<times> db) res" where
  "mock_pay H now st pid uid s =
     (if \<not> mock_payments_allowed st then Inl (HTTPException 404 ''Not found'')
      else case payment_by_public_id pid s of
        None \<Rightarrow> Inl (HTTPException 404 ''Invoice not found'')
      | Some p \<Rightarrow>
        if pay_user_id p \<noteq> uid \<or> pay_method p \<noteq> ''mock''
        then Inl (HTTPException 404 ''Invoice not found'')
        else settle_payment H now
          \<lparr>sr_payment = pay_public_id p, sr_gateway = ''mock'', sr_gateway_ref = None,
           sr_amount = Some (pay_amount_paise p), sr_currency = Some (pay_currency p),
           sr_source = ''mock'', sr_actor = str_int uid\<rparr> s)"

definition deposit ::
  "(json \<Rightarrow> string) \<Rightarrow> digest \<Rightarrow> int \<Rightarrow> settings \<Rightarrow> ((string \<times> json) list \<Rightarrow> rz_answer)
    \<Rightarrow> deposit_request \<Rightarrow> db \<Rightarrow> ((payment_row \<times> string option) \<times> db) res" where
  "deposit R H now st post q s =
     (case create_deposit R H now st post q s of
        Inl (DepositError m) \<Rightarrow> Inl (HTTPException 400 m)
      | Inl e \<Rightarrow> Inl e
      | Inr (p, s) \<Rightarrow> Inr ((p, if pay_method p = ''manual'' then Some (payment_instructions s) else None), s))"

definition deposit_status ::
  "digest \<Rightarrow> int \<Rightarrow> settings \<Rightarrow> (string \<Rightarrow> gateway_status res) \<Rightarrow> string \<Rightarrow> int \<Rightarrow> db
    \<Rightarrow> ((payment_row \<times> wallet_snapshot) \<times> db) res" where
  "deposit_status H now st fetch pid uid s =
     e_bind (check_payment H now st fetch pid uid s) (\<lambda>(p, s). case p of
       None \<Rightarrow> Inl (HTTPException 404 ''Invoice not found'')
     | Some p \<Rightarrow> e_bind (lock_user uid s) (\<lambda>user. Inr ((p, snapshot_of user), s)))"

end
