(* ===== verification/PaymentBooks.thy ===== *)
theory PaymentBooks
  imports Payments
begin

text \<open>
  The books of the deposits: for every payment, the ledger holds exactly one credit, of the
  invoiced amount and to the invoice's owner, when the row says paid, and no entry otherwise.
  Every operation of \<open>app/payments/service.py\<close> keeps the books, so that they hold after any
  sequence of events; the properties of single operations follow.
\<close>

section \<open>The books\<close>

definition deposit_entries :: "string \<Rightarrow> db \<Rightarrow> ledger_entry list" where
  "deposit_entries pid s =
     filter (\<lambda>e. e_reference_type e = Some ''payment'' \<and> e_reference_id e = Some pid) (ledger s)"

definition entry_face :: "ledger_entry \<Rightarrow> int \<times> int \<times> entry_type" where
  "entry_face e = (e_user_id e, e_amount_paise e, e_entry_type e)"

text \<open>What the ledger must hold for a payment.\<close>

definition due_entries :: "payment_row \<Rightarrow> (int \<times> int \<times> entry_type) list" where
  "due_entries p = (if pay_status p = PAID then [(pay_user_id p, pay_amount_paise p, Credit)] else [])"

definition deposit_books :: "digest \<Rightarrow> db \<Rightarrow> bool" where
  "deposit_books H s \<longleftrightarrow>
     distinct (map pay_public_id (payments s)) \<and>
     (\<forall>p \<in> set (payments s). map entry_face (deposit_entries (pay_public_id p) s) = due_entries p) \<and>
     (\<forall>pid. pid \<notin> pay_public_id ` set (payments s) \<longrightarrow> deposit_entries pid s = []) \<and>
     (\<forall>pid. existing (deposit_ledger_key H pid) s \<noteq> None \<longrightarrow> deposit_entries pid s \<noteq> [])"

text \<open>The part of a payment that the books read.\<close>

definition pay_face :: "payment_row \<Rightarrow> string \<times> int \<times> int \<times> bool" where
  "pay_face p = (pay_public_id p, pay_user_id p, pay_amount_paise p, pay_status p = PAID)"

lemma pay_face_due: "pay_face p = pay_face q \<Longrightarrow> due_entries p = due_entries q"
  by (simp add: pay_face_def due_entries_def)

definition pay_faces :: "db \<Rightarrow> (string \<times> int \<times> int \<times> bool) list" where
  "pay_faces s = map pay_face (payments s)"

lemma pay_ids_faces: "map pay_public_id (payments s) = map fst (pay_faces s)"
  by (simp add: pay_faces_def pay_face_def comp_def)

lemma deposit_entries_cong: "ledger t = ledger s \<Longrightarrow> deposit_entries pid t = deposit_entries pid s"
  by (simp add: deposit_entries_def)

lemma deposit_books_cong:
  assumes "deposit_books H s" and "ledger t = ledger s" and "pay_faces t = pay_faces s"
  shows "deposit_books H t"
proof -
  have ids: "map pay_public_id (payments t) = map pay_public_id (payments s)"
    using assms(3) by (simp add: pay_ids_faces)
  then have dom: "pay_public_id ` set (payments t) = pay_public_id ` set (payments s)"
    by (metis list.set_map)
  have row: "map entry_face (deposit_entries (pay_public_id p) t) = due_entries p"
    if p: "p \<in> set (payments t)" for p
  proof -
    have "pay_face p \<in> set (map pay_face (payments t))" using p by simp
    with assms(3) obtain q where q: "q \<in> set (payments s)" "pay_face p = pay_face q"
      by (auto simp: pay_faces_def)
    then have "map entry_face (deposit_entries (pay_public_id q) s) = due_entries q"
      using assms(1) by (simp add: deposit_books_def)
    with q(2) show ?thesis
      using pay_face_due [OF q(2)] deposit_entries_cong [OF assms(2)] by (simp add: pay_face_def)
  qed
  have "existing k t = existing k s" for k using assms(2) by (simp add: existing_def)
  with assms row show ?thesis
    unfolding deposit_books_def ids dom by (simp add: deposit_entries_cong [OF assms(2)])
qed

lemma payment_by_Some:
  "payment_by_public_id pid s = Some p \<Longrightarrow> p \<in> set (payments s) \<and> pay_public_id p = pid"
  unfolding payment_by_public_id_def by (rule find_by_Some)

lemma payment_by_in: "deposit_books H s \<Longrightarrow> p \<in> set (payments s) \<Longrightarrow>
    payment_by_public_id (pay_public_id p) s = Some p"
  unfolding payment_by_public_id_def deposit_books_def by (blast intro: find_by_in)

text \<open>An update that does not touch the face of the one row it changes.\<close>

lemma faces_upd_by:
  assumes "distinct (map pay_public_id ps)" and "find_by pay_public_id pid ps = Some p"
    and "pay_face (f p) = pay_face p"
  shows "map pay_face (upd_by pay_public_id pid f ps) = map pay_face ps"
  using assms
proof (induction ps)
  case (Cons x xs)
  show ?case
  proof (cases "pay_public_id x = pid")
    case True
    with Cons.prems have "pid \<notin> pay_public_id ` set xs" by auto
    with True Cons.prems show ?thesis by (simp add: upd_by_idle)
  next
    case False
    with Cons show ?thesis by simp
  qed
qed simp

lemma pay_faces_update_payment:
  assumes "deposit_books H s" and "payment_by_public_id pid s = Some p"
    and "pay_face (f p) = pay_face p"
  shows "pay_faces (update_payment pid f s) = pay_faces s"
  using faces_upd_by assms
  by (simp add: pay_faces_def update_payment_def payment_by_public_id_def deposit_books_def)

text \<open>
  A step that leaves users and ledger alone and no payment changes its face: nothing was
  credited and nothing became paid.
\<close>

definition quiet :: "db \<Rightarrow> db \<Rightarrow> bool" where
  "quiet s t \<longleftrightarrow> users t = users s \<and> ledger t = ledger s \<and> pay_faces t = pay_faces s"

lemma quiet_refl [simp]: "quiet s s" by (simp add: quiet_def)

lemma quiet_trans: "quiet s t \<Longrightarrow> quiet t r \<Longrightarrow> quiet s r" by (simp add: quiet_def)

lemma quiet_books: "quiet s t \<Longrightarrow> deposit_books H s \<Longrightarrow> deposit_books H t"
  by (auto simp: quiet_def intro: deposit_books_cong)

lemma quiet_audit [simp]: "quiet s (audit who what target why t) \<longleftrightarrow> quiet s t"
  by (simp add: quiet_def audit_def pay_faces_def)

lemma quiet_events [simp]: "quiet s (t\<lparr>payment_events := evs\<rparr>) \<longleftrightarrow> quiet s t"
  by (simp add: quiet_def pay_faces_def)

lemma quiet_update:
  assumes "deposit_books H s" and "payment_by_public_id pid s = Some p" and "pay_face (f p) = pay_face p"
  shows "quiet s (update_payment pid f s)"
  using pay_faces_update_payment [where f = f, OF assms]
  by (simp add: quiet_def update_payment_def)

section \<open>Settling\<close>

lemma settle_cases:
  assumes "settle_payment H now q s = Inr (out, t)" and "deposit_books H s"
  obtains (quiet) "quiet s t" "so_outcome out \<noteq> ''credited''" "payment_events t = payment_events s"
  | (credited) p where "payment_by_public_id (sr_payment q) s = Some p" "pay_status p \<noteq> PAID"
      "pay_method p = sr_gateway q \<or> sr_source q = ''manual''"
      "sr_amount q = Some (pay_amount_paise p)" "settle_currency q p = upper (pay_currency p)"
      "credit_payment H now q p s = Inr (out, t)"
proof (cases "payment_by_public_id (sr_payment q) s")
  case None
  with assms(1) that(1) show ?thesis by (auto simp: settle_payment_def)
next
  case (Some p)
  have pid: "pay_public_id p = sr_payment q" using payment_by_Some [OF Some] by simp
  show ?thesis
  proof (cases "pay_method p \<noteq> sr_gateway q \<and> sr_source q \<noteq> ''manual'' \<or>
      (\<not> no_text (pay_provider_ref p) \<and> \<not> no_text (sr_gateway_ref q) \<and>
        pay_provider_ref p \<noteq> sr_gateway_ref q) \<or> pay_status p = PAID")
    case True
    then have "t = s \<and> so_outcome out \<noteq> ''credited''"
      using assms(1) Some by (auto simp: settle_payment_def settled_as_def split: if_split_asm)
    with that(1) show ?thesis by simp
  next
    case open_: False
    have q: "quiet s (update_payment (pay_public_id p) f s)"
      if "\<And>p. pay_status p \<noteq> PAID \<Longrightarrow> pay_face (f p) = pay_face p" for f
      using quiet_update [OF assms(2) Some, of f] that open_ pid by simp
    have ev: "payment_events (update_payment pid f s) = payment_events s"
      "payment_events (audit w x y z s') = payment_events s'" for pid f w x y z s'
      by (simp_all add: update_payment_def audit_def)
    show ?thesis
    proof (cases "sr_amount q \<noteq> Some (pay_amount_paise p) \<or> settle_currency q p \<noteq> upper (pay_currency p)")
      case True
      then have "t = hold_payment q p s \<and> so_outcome out \<noteq> ''credited''"
        using assms(1) Some open_ by (auto simp: settle_payment_def settled_as_def split: if_split_asm)
      with that(1) q show ?thesis by (simp add: hold_payment_def pay_face_def ev)
    next
      case agree: False
      show ?thesis
      proof (cases "users s (pay_user_id p)")
        case None
        then have "so_outcome out \<noteq> ''credited'' \<and> t = update_payment (pay_public_id p)
            (\<lambda>p. p\<lparr>pay_status := REVIEW, pay_failure_reason := Some ''owner not found''\<rparr>) s"
          using assms(1) Some open_ agree
          by (auto simp: settle_payment_def settled_as_def split: if_split_asm)
        with that(1) q show ?thesis by (simp add: pay_face_def ev)
      next
        case (Some u)
        with assms(1) \<open>payment_by_public_id (sr_payment q) s = Some p\<close> open_ agree
        have "credit_payment H now q p s = Inr (out, t)"
          by (simp add: settle_payment_def split: if_split_asm)
        then show ?thesis using that(2) \<open>payment_by_public_id (sr_payment q) s = Some p\<close> open_ agree by blast
      qed
    qed
  qed
qed

text \<open>The keys of deposits and of deposit commissions differ.\<close>

lemma deposit_key_neq:
  "good_digest H \<Longrightarrow> deposit_ledger_key H pid \<noteq> deposit_commission_key H b"
  by (simp add: deposit_ledger_key_def deposit_commission_key_def good_digest_inj)

lemma deposit_key_inj:
  "good_digest H \<Longrightarrow> deposit_ledger_key H p = deposit_ledger_key H q \<longleftrightarrow> p = q"
  by (simp add: deposit_ledger_key_def good_digest_inj)

lemma deposit_key_ne [simp]: "good_digest H \<Longrightarrow> deposit_ledger_key H pid \<noteq> []"
  by (simp add: deposit_ledger_key_def)

lemma commission_key_ne [simp]: "good_digest H \<Longrightarrow> deposit_commission_key H b \<noteq> []"
  by (simp add: deposit_commission_key_def)

lemma deposit_entries_append:
  "ledger t = ledger s @ [e] \<Longrightarrow> deposit_entries pid t = deposit_entries pid s @
     (if e_reference_type e = Some ''payment'' \<and> e_reference_id e = Some pid then [e] else [])"
  by (simp add: deposit_entries_def)

text \<open>A commission writes no deposit entry and uses no deposit key.\<close>

lemma commission_deposit_entries:
  assumes "credit_deposit_commission H b p s = Inr (x, t)"
  shows "deposit_entries pid t = deposit_entries pid s"
  using assms
proof (cases rule: deposit_commission_cases)
  case none
  then show ?thesis by simp
next
  case (paid ref e refs why)
  from wallet_op_effect [OF paid(6)] show ?thesis
  proof (cases rule: effect_cases)
    case replay
    then show ?thesis by simp
  next
    case (post k u r)
    then have "ledger t = ledger s @ [e]" "e_reference_type e = Some ''referral''"
      by (simp_all add: posted_def paid(5) referral_ref_def)
    then show ?thesis by (simp add: deposit_entries_append)
  qed
qed

lemma credit_only_key:
  assumes "wallet_op H Credit uid a why k refs s = Inr (e, t)" and "k \<noteq> []" and "j \<noteq> k"
  shows "existing j t = existing j s"
proof -
  consider "existing k s = Some e" "t = s" | b r where "posted uid a Credit k refs b r s e t"
    using assms(1,2) by (auto simp: wallet_defs Let_def split: op_splits dest: append_entry_Inr)
  then show ?thesis
    by cases (use assms(3) in \<open>auto simp: posted_existing\<close>)
qed

lemma commission_deposit_keys:
  assumes "credit_deposit_commission H b p s = Inr (x, t)" and "good_digest H"
  shows "existing (deposit_ledger_key H pid) t = existing (deposit_ledger_key H pid) s"
  using assms(1)
proof (cases rule: deposit_commission_cases)
  case none
  then show ?thesis by simp
next
  case (paid ref e refs why)
  then show ?thesis
    using credit_only_key [OF paid(6) commission_key_ne [OF assms(2)] deposit_key_neq [OF assms(2)]] by simp
qed

text \<open>The credit of a payment that is not paid yet.\<close>

lemma credit_payment_posts:
  assumes "credit_payment H now q p s = Inr (out, t)" and "deposit_books H s" and "good_digest H"
    and "payment_by_public_id pid s = Some p" and "pay_status p \<noteq> PAID"
  obtains u e s1 x s2 where "users s (pay_user_id p) = Some u"
    "posted (pay_user_id p) (pay_amount_paise p) Credit (deposit_ledger_key H pid) (payment_ref q pid)
      (cached_balance_paise u + pay_amount_paise p) (cached_reserved_paise u) s e s1"
    "credit_deposit_commission H (pay_user_id p) p s1 = Inr (x, s2)"
    "t = audit (sr_actor q) ''payment.credited'' (Some pid) None (update_payment pid (mark_paid now q) s2)"
    "out = settled_as ''credited'' p (Some (pay_amount_paise p))" "0 < pay_amount_paise p"
proof -
  have pid: "pay_public_id p = pid" "p \<in> set (payments s)" using payment_by_Some [OF assms(4)] by simp_all
  have "map entry_face (deposit_entries pid s) = []"
    using assms(2,5) pid by (auto simp: deposit_books_def due_entries_def)
  then have fresh: "existing (deposit_ledger_key H pid) s = None"
    using assms(2) by (auto simp: deposit_books_def)
  obtain e s1 x s2 where c: "credit H (pay_user_id p) (pay_amount_paise p) (''Deposit '' @ pid)
      (Some (deposit_ledger_key H pid)) (payment_ref q pid) s = Inr (e, s1)"
    and rest: "credit_deposit_commission H (pay_user_id p) p s1 = Inr (x, s2)"
      "t = audit (sr_actor q) ''payment.credited'' (Some pid) None (update_payment pid (mark_paid now q) s2)"
      "out = settled_as ''credited'' p (Some (pay_amount_paise p))"
    using assms(1) by (auto simp: credit_payment_def pid)
  have pos: "0 < pay_amount_paise p" using c by (auto simp: credit_def split: if_split_asm)
  obtain u where "users s (pay_user_id p) = Some u"
    "posted (pay_user_id p) (pay_amount_paise p) Credit (deposit_ledger_key H pid)
      (payment_ref q pid) (cached_balance_paise u + pay_amount_paise p) (cached_reserved_paise u) s e s1"
    using c fresh by (auto simp: wallet_defs deposit_key_ne [OF assms(3)] split: op_splits dest: append_entry_Inr)
  with rest pos that show thesis by blast
qed

lemma update_payment_ledger [simp]:
  "ledger (update_payment pid f s) = ledger s" "users (update_payment pid f s) = users s"
  "payments (update_payment pid f s) = upd_by pay_public_id pid f (payments s)"
  by (simp_all add: update_payment_def)

lemma audit_tables [simp]:
  "ledger (audit w x y z s) = ledger s" "users (audit w x y z s) = users s"
  "payments (audit w x y z s) = payments s" "payment_events (audit w x y z s) = payment_events s"
  by (simp_all add: audit_def)

lemma mark_paid_face [simp]:
  "pay_public_id (mark_paid now q p) = pay_public_id p" "pay_user_id (mark_paid now q p) = pay_user_id p"
  "pay_amount_paise (mark_paid now q p) = pay_amount_paise p" "pay_status (mark_paid now q p) = PAID"
  by (simp_all add: mark_paid_def)

lemma credit_payment_books:
  assumes "credit_payment H now q p s = Inr (out, t)" and "deposit_books H s" and "good_digest H"
    and "payment_by_public_id pid s = Some p" and "pay_status p \<noteq> PAID"
  shows "deposit_books H t"
  using assms
proof (rule credit_payment_posts)
  fix u e s1 x s2
  assume p: "posted (pay_user_id p) (pay_amount_paise p) Credit (deposit_ledger_key H pid)
      (payment_ref q pid) (cached_balance_paise u + pay_amount_paise p) (cached_reserved_paise u) s e s1"
    and c: "credit_deposit_commission H (pay_user_id p) p s1 = Inr (x, s2)"
    and t: "t = audit (sr_actor q) ''payment.credited'' (Some pid) None (update_payment pid (mark_paid now q) s2)"
  have pid: "pay_public_id p = pid" "p \<in> set (payments s)" using payment_by_Some [OF assms(4)] by simp_all
  have e: "entry_face e = (pay_user_id p, pay_amount_paise p, Credit)"
    "e_reference_type e = Some ''payment''" "e_reference_id e = Some pid" "ledger s1 = ledger s @ [e]"
    using p by (simp_all add: posted_def entry_face_def payment_ref_def)
  have pays: "payments t = upd_by pay_public_id pid (mark_paid now q) (payments s)"
    using same_tables_fields(6) [OF deposit_commission_same_tables [OF c]]
      same_tables_fields(6) [of s s1] p by (simp add: t posted_def)
  have ents: "deposit_entries j t = deposit_entries j s @ (if j = pid then [e] else [])" for j
    using deposit_entries_append [OF e(4), of j] commission_deposit_entries [OF c, of j] e(2,3)
      deposit_entries_cong [of t s2 j] by (auto simp: t)
  have keys: "existing (deposit_ledger_key H j) t = (if j = pid then Some e else existing (deposit_ledger_key H j) s)" for j
    using posted_existing [OF p] commission_deposit_keys [OF c assms(3)] t deposit_key_inj [OF assms(3)]
    by (auto simp: existing_def)
  have unpaid: "map entry_face (deposit_entries pid s) = []"
    using assms(2,5) pid by (auto simp: deposit_books_def due_entries_def)
  have ids: "map pay_public_id (payments t) = map pay_public_id (payments s)" by (simp add: pays)
  have row: "map entry_face (deposit_entries (pay_public_id y) t) = due_entries y" if y: "y \<in> set (payments t)" for y
  proof (cases "pay_public_id y = pid")
    case True
    have "y = mark_paid now q p"
    proof -
      have "find_by pay_public_id pid (payments t) = Some (mark_paid now q p)"
        using assms(4) by (simp add: pays find_by_upd_by payment_by_public_id_def)
      moreover have "find_by pay_public_id (pay_public_id y) (payments t) = Some y"
        using y assms(2) by (intro find_by_in) (simp_all add: ids deposit_books_def)
      ultimately show ?thesis using True by simp
    qed
    then show ?thesis using ents [of pid] unpaid e(1) pid by (simp add: due_entries_def)
  next
    case False
    with y have "y \<in> set (payments s)" unfolding pays by (auto dest: set_upd_by)
    with False show ?thesis using assms(2) ents by (simp add: deposit_books_def)
  qed
  have dom: "pay_public_id ` set (payments t) = pay_public_id ` set (payments s)"
    using ids by (metis list.set_map)
  show "deposit_books H t"
    using assms(2) row ents keys pid unfolding deposit_books_def ids dom by auto
qed

lemma settle_books:
  assumes "settle_payment H now q s = Inr (out, t)" and "deposit_books H s" and "good_digest H"
  shows "deposit_books H t"
  using assms(1,2)
  by (cases rule: settle_cases) (auto intro: quiet_books credit_payment_books assms)

section \<open>Every operation keeps the books\<close>

definition pay_inv :: "digest \<Rightarrow> db \<Rightarrow> bool" where
  "pay_inv H s \<longleftrightarrow> good_digest H \<and> wallet_inv s \<and> deposit_books H s"

lemma quiet_inv: "quiet s t \<Longrightarrow> pay_inv H s \<Longrightarrow> pay_inv H t"
  using wallet_inv_cong [of t s] by (auto simp: pay_inv_def quiet_books) (simp add: quiet_def)

lemma credit_payment_wallet_inv:
  "credit_payment H now q p s = Inr (out, t) \<Longrightarrow> wallet_inv s \<Longrightarrow> wallet_inv t"
  by (auto simp: credit_payment_def dest!: credit_effect deposit_commission_wallet_inv [rotated]
      intro: wallet_inv_effect wallet_inv_cong [THEN iffD2, rotated 2])

lemma settle_inv:
  assumes "settle_payment H now q s = Inr (out, t)" and "pay_inv H s"
  shows "pay_inv H t"
proof -
  have b: "deposit_books H s" and w: "wallet_inv s" and g: "good_digest H"
    using assms(2) by (simp_all add: pay_inv_def)
  from assms(1) b have "wallet_inv t"
  proof (cases rule: settle_cases)
    case quiet
    then show ?thesis using quiet_inv [OF quiet(1) assms(2)] by (simp add: pay_inv_def)
  next
    case (credited p)
    then show ?thesis using credit_payment_wallet_inv w by blast
  qed
  then show ?thesis using settle_books [OF assms(1) b g] g by (simp add: pay_inv_def)
qed

lemma expire_inv:
  assumes "pay_inv H s" and "payment_by_public_id pid s = Some p" and "pay_status p = PENDING"
  shows "pay_inv H (expire_payment pid s)"
proof -
  have "quiet s (expire_payment pid s)"
    using assms quiet_update [of H s pid p "\<lambda>p. p\<lparr>pay_status := EXPIRED\<rparr>"]
    by (simp add: expire_payment_def pay_inv_def pay_face_def)
  then show ?thesis using assms(1) by (rule quiet_inv)
qed

lemma dispatch_inv:
  assumes "dispatch_event H now gw ev s = Inr (out, t)" and "pay_inv H s"
  shows "pay_inv H t"
  using assms
  by (auto simp: dispatch_event_def Let_def split: if_split_asm option.split_asm
      intro: settle_inv expire_inv quiet_inv [of s "audit w x y z s" for w x y z])

lemma events_inv [simp]: "pay_inv H (s\<lparr>payment_events := evs\<rparr>) \<longleftrightarrow> pay_inv H s"
  using quiet_inv [of s "s\<lparr>payment_events := evs\<rparr>" H]
    quiet_inv [of "s\<lparr>payment_events := evs\<rparr>" s H]
  by (auto simp: quiet_def pay_faces_def)

lemma handle_inv:
  "handle_webhook_event H now gw ev s = Inr (out, t) \<Longrightarrow> pay_inv H s \<Longrightarrow> pay_inv H t"
  by (auto simp: handle_webhook_event_def split: if_split_asm dest: dispatch_inv)

lemma razorpay_webhook_handled:
  assumes "razorpay_webhook env H now st hs body s = Inr (out, t)"
  shows "\<exists>gw ev. get_gateway st = Inr (Some gw) \<and> parse_webhook env gw hs body = Inr ev \<and>
     handle_webhook_event H now ''razorpay'' ev s = Inr (out, t)"
proof -
  obtain g where g: "get_gateway st = Inr g" using assms by (auto simp: razorpay_webhook_def)
  with assms obtain gw where gw: "g = Some gw" by (cases g) (auto simp: razorpay_webhook_def)
  obtain ev where ev: "parse_webhook env gw hs body = Inr ev"
  proof (cases "parse_webhook env gw hs body")
    case (Inl e)
    with assms g gw show ?thesis by (cases e) (simp_all add: razorpay_webhook_def split: if_split_asm)
  qed
  with assms g gw show ?thesis by (simp add: razorpay_webhook_def split: if_split_asm)
qed

lemma reconcile_one_inv:
  "reconcile_one H now fetch pid s = Inr (outs, t) \<Longrightarrow> pay_inv H s \<Longrightarrow> pay_inv H t"
  by (auto simp: reconcile_one_def split: option.split_asm sum.split_asm exn.split_asm if_split_asm
      intro: settle_inv expire_inv)

lemma reconcile_loop_inv:
  "reconcile_loop H now fetch pids s = Inr (outs, t) \<Longrightarrow> pay_inv H s \<Longrightarrow> pay_inv H t"
  by (induction pids arbitrary: s outs t) (auto dest: reconcile_one_inv)

lemma manual_inv: "manual_confirm H now pid who s = Inr (out, t) \<Longrightarrow> pay_inv H s \<Longrightarrow> pay_inv H t"
  by (auto simp: manual_confirm_def split: option.split_asm intro: settle_inv)

lemma check_inv:
  "check_payment H now st fetch pid uid s = Inr (p, t) \<Longrightarrow> pay_inv H s \<Longrightarrow> pay_inv H t"
  by (auto simp: check_payment_def split: option.split_asm if_split_asm sum.split_asm exn.split_asm
      intro: settle_inv expire_inv)

lemma mock_inv: "mock_pay H now st pid uid s = Inr (out, t) \<Longrightarrow> pay_inv H s \<Longrightarrow> pay_inv H t"
  by (auto simp: mock_pay_def split: option.split_asm if_split_asm intro: settle_inv)

text \<open>A new invoice: its public id is new, so the ledger holds no entry for it.\<close>

lemma insert_payment_inv:
  assumes "insert_payment p s = Inr t" and "pay_inv H s" and "pay_status p \<noteq> PAID"
  shows "pay_inv H t"
proof -
  have fresh: "pay_public_id p \<notin> pay_public_id ` set (payments s)"
    and t: "t = s\<lparr>payments := payments s @ [p], next_payment_id := pay_id p + 1\<rparr>"
    using assms(1) by (auto simp: insert_payment_def split: if_split_asm)
  have b: "deposit_books H s" using assms(2) by (simp add: pay_inv_def)
  have "deposit_entries pid t = deposit_entries pid s" "existing k t = existing k s" for pid k
    by (simp_all add: t deposit_entries_def existing_def)
  then have "deposit_books H t"
    using b fresh assms(3) unfolding deposit_books_def by (auto simp: t due_entries_def)
  then show ?thesis
    using assms(2) wallet_inv_cong [of t s] by (simp add: pay_inv_def t)
qed

lemma new_payment_simps [simp]:
  "pay_key (new_payment H now st q n) = deposit_key H now q"
  "pay_public_id (new_payment H now st q n) = dr_public_id q"
  "pay_status (new_payment H now st q n) = PENDING"
  "pay_user_id (new_payment H now st q n) = dr_user q"
  "pay_amount_paise (new_payment H now st q n) = dr_amount q"
  by (simp_all add: new_payment_def)

text \<open>The three ways in which a deposit request succeeds.\<close>

lemma create_deposit_cases:
  assumes "create_deposit R H now st post q s = Inr (p, t)"
  obtains (replay) "find_by pay_key (deposit_key H now q) (payments s) = Some p" "t = s"
      "pay_user_id p = dr_user q"
  | (plain) "find_by pay_key (deposit_key H now q) (payments s) = None"
      "insert_payment (new_payment H now st q (next_payment_id s)) s = Inr t"
      "p = new_payment H now st q (next_payment_id s)"
  | (checkout) s1 co where "find_by pay_key (deposit_key H now q) (payments s) = None"
      "insert_payment (new_payment H now st q (next_payment_id s)) s = Inr s1"
      "t = update_payment (dr_public_id q) (with_checkout co) s1"
      "p = with_checkout co (new_payment H now st q (next_payment_id s))"
  using assms
  by (auto simp: create_deposit_def Let_def split: if_split_asm sum.split_asm exn.split_asm option.split_asm)

lemma with_checkout_face [simp]: "pay_face (with_checkout co p) = pay_face p"
  by (simp add: pay_face_def with_checkout_def)

lemma faces_upd_all: "(\<And>p. pay_face (f p) = pay_face p) \<Longrightarrow> quiet s (update_payment pid f s)"
  by (simp add: quiet_def pay_faces_def)

lemma create_inv:
  assumes "create_deposit R H now st post q s = Inr (p, t)" and "pay_inv H s"
  shows "pay_inv H t"
  using assms(1)
proof (cases rule: create_deposit_cases)
  case replay
  with assms(2) show ?thesis by simp
next
  case plain
  then show ?thesis using insert_payment_inv [OF plain(2) assms(2)] by simp
next
  case (checkout s1 co)
  then have "pay_inv H s1" using insert_payment_inv [OF checkout(2) assms(2)] by simp
  then show ?thesis using quiet_inv [OF faces_upd_all] checkout(3) by simp
qed

section \<open>Histories of events\<close>

text \<open>
  Everything that can happen to the deposits: each request is one transaction at a time \<open>now\<close>,
  with the settings and the gateway's answers of that moment.
\<close>

datatype payment_request =
    Pay_create settings "(string \<times> json) list \<Rightarrow> rz_answer" deposit_request
  | Pay_webhook rz_env settings "(string \<times> string) list" string
  | Pay_reconcile "string \<Rightarrow> gateway_status res" int int nat
  | Pay_manual string string
  | Pay_check settings "string \<Rightarrow> gateway_status res" string int
  | Pay_mock settings string int

text \<open>The result is dropped, the state is kept.\<close>

definition no_result :: "('a \<times> db) res \<Rightarrow> (unit \<times> db) res" where
  "no_result m = e_bind m (\<lambda>(x, s). Inr ((), s))"

lemma no_result_Inr: "no_result m = Inr (y, t) \<longleftrightarrow> (\<exists>x. m = Inr (x, t))"
  by (auto simp: no_result_def)

fun payment_op ::
  "(json \<Rightarrow> string) \<Rightarrow> digest \<Rightarrow> int \<Rightarrow> payment_request \<Rightarrow> db \<Rightarrow> (unit \<times> db) res" where
  "payment_op R H now (Pay_create st post q) s = no_result (create_deposit R H now st post q s)"
| "payment_op R H now (Pay_webhook env st hs body) s = no_result (razorpay_webhook env H now st hs body s)"
| "payment_op R H now (Pay_reconcile fetch age hours limit) s =
     no_result (reconcile_pending H now fetch age hours limit s)"
| "payment_op R H now (Pay_manual pid who) s = no_result (manual_confirm H now pid who s)"
| "payment_op R H now (Pay_check st fetch pid uid) s = no_result (check_payment H now st fetch pid uid s)"
| "payment_op R H now (Pay_mock st pid uid) s = no_result (mock_pay H now st pid uid s)"

definition payment_step ::
  "(json \<Rightarrow> string) \<Rightarrow> digest \<Rightarrow> int \<times> payment_request \<Rightarrow> db \<Rightarrow> (unit \<times> db) res" where
  "payment_step R H = (\<lambda>(now, q). payment_op R H now q)"

lemma payment_op_inv: "payment_op R H now q s = Inr (x, t) \<Longrightarrow> pay_inv H s \<Longrightarrow> pay_inv H t"
  by (cases q) (auto simp: no_result_Inr reconcile_pending_def dest!: razorpay_webhook_handled
      intro: create_inv handle_inv reconcile_loop_inv manual_inv check_inv mock_inv)

interpretation payment_books: session_steps "payment_step R H" "pay_inv H" "\<lambda>_. True" for R H
  by unfold_locales (auto simp: payment_step_def dest: payment_op_inv)

text \<open>
  C3: Credited exactly once. After any sequence of deposit requests, webhook deliveries in any
  order and number, reconciliations, manual confirmations and polls, from a state with clean
  books: a payment marked paid has exactly one entry in the ledger, the credit of the invoiced
  amount to the invoice's owner; a payment not marked paid has none; and every wallet agrees
  with the ledger.
\<close>

theorem deposits_credited_exactly_once:
  assumes "pay_inv H s" and "p \<in> set (payments (session_run (payment_step R H) qs s))"
  shows "map entry_face (deposit_entries (pay_public_id p) (session_run (payment_step R H) qs s))
      = (if pay_status p = PAID then [(pay_user_id p, pay_amount_paise p, Credit)] else []) \<and>
    wallet_inv (session_run (payment_step R H) qs s)"
proof -
  have "pay_inv H (session_run (payment_step R H) qs s)"
    using assms(1) by (rule payment_books.run_inv) simp
  then show ?thesis using assms(2) by (simp add: pay_inv_def deposit_books_def due_entries_def)
qed

section \<open>What credits\<close>

lemma posted_other_account:
  "posted uid m t k refs b r s e s' \<Longrightarrow> v \<noteq> uid \<Longrightarrow> account_of s' v = account_of s v"
  by (simp add: posted_def account_of_def)

lemma commission_accounts:
  assumes "credit_deposit_commission H b p s = Inr (x, t)"
    and "Option.bind (users s b) u_referred_by \<noteq> Some v \<or> v = b"
  shows "account_of t v = account_of s v"
  using assms(1)
proof (cases rule: deposit_commission_cases)
  case none
  then show ?thesis by simp
next
  case (paid ref e refs why)
  then have "v \<noteq> ref" using assms(2) by auto
  from wallet_op_effect [OF paid(6)] show ?thesis
    by (cases rule: effect_cases) (use \<open>v \<noteq> ref\<close> in \<open>auto dest: posted_other_account\<close>)
qed

lemma credit_payment_accounts:
  assumes "credit_payment H now q p s = Inr (out, t)" and "pay_inv H s"
    and "payment_by_public_id pid s = Some p" and "pay_status p \<noteq> PAID"
  obtains u where "users s (pay_user_id p) = Some u" "0 < pay_amount_paise p"
    "account_of t (pay_user_id p)
      = Some (cached_balance_paise u + pay_amount_paise p, cached_reserved_paise u)"
    "\<And>v. v \<noteq> pay_user_id p \<Longrightarrow> u_referred_by u \<noteq> Some v \<Longrightarrow> account_of t v = account_of s v"
    "out = settled_as ''credited'' p (Some (pay_amount_paise p))"
proof -
  have g: "good_digest H" and b: "deposit_books H s" and w: "wallet_inv s"
    using assms(2) by (simp_all add: pay_inv_def)
  obtain u e s1 x s2 where u: "users s (pay_user_id p) = Some u"
    and p: "posted (pay_user_id p) (pay_amount_paise p) Credit (deposit_ledger_key H pid) (payment_ref q pid)
      (cached_balance_paise u + pay_amount_paise p) (cached_reserved_paise u) s e s1"
    and c: "credit_deposit_commission H (pay_user_id p) p s1 = Inr (x, s2)"
    and t: "t = audit (sr_actor q) ''payment.credited'' (Some pid) None (update_payment pid (mark_paid now q) s2)"
    and out: "out = settled_as ''credited'' p (Some (pay_amount_paise p))" and pos: "0 < pay_amount_paise p"
    using credit_payment_posts [OF assms(1) b g assms(3,4)] .
  have acct: "account_of t v = account_of s2 v" for v by (simp add: t account_of_def)
  have ref: "Option.bind (users s1 (pay_user_id p)) u_referred_by = u_referred_by u"
    using posted_account(3) [OF p u] by simp
  have "account_of t (pay_user_id p)
      = Some (cached_balance_paise u + pay_amount_paise p, cached_reserved_paise u)"
    using commission_accounts [OF c, of "pay_user_id p"] posted_account(1) [OF p u] by (simp add: acct)
  moreover have "account_of t v = account_of s v"
    if "v \<noteq> pay_user_id p" "u_referred_by u \<noteq> Some v" for v
    using commission_accounts [OF c, of v] ref that posted_other_account [OF p] by (simp add: acct)
  ultimately show thesis using that u pos out by blast
qed

text \<open>
  C4: Only a match credits. Settling a payment either credits or changes no wallet and no ledger
  entry. It credits only a payment that was not paid before, asked for by its own gateway (or by
  an operator), with exactly the invoiced amount and currency; the owner then gets exactly that
  amount, and nobody else than the owner's referrer gets anything.
\<close>

theorem only_matching_payments_credit:
  assumes "pay_inv H s" and "settle_payment H now q s = Inr (out, t)"
  shows "if so_outcome out = ''credited'' then
      \<exists>p b r. payment_by_public_id (sr_payment q) s = Some p \<and> pay_status p \<noteq> PAID \<and>
        (pay_method p = sr_gateway q \<or> sr_source q = ''manual'') \<and>
        sr_amount q = Some (pay_amount_paise p) \<and> settle_currency q p = upper (pay_currency p) \<and>
        account_of s (pay_user_id p) = Some (b, r) \<and>
        account_of t (pay_user_id p) = Some (b + pay_amount_paise p, r) \<and>
        (\<forall>v. v \<noteq> pay_user_id p \<longrightarrow> Option.bind (users s (pay_user_id p)) u_referred_by \<noteq> Some v \<longrightarrow>
          account_of t v = account_of s v)
    else users t = users s \<and> ledger t = ledger s"
proof -
  have "deposit_books H s" using assms(1) by (simp add: pay_inv_def)
  with assms(2) show ?thesis
  proof (cases rule: settle_cases)
    case quiet
    then show ?thesis by (simp add: quiet_def)
  next
    case (credited p)
    obtain u where u: "users s (pay_user_id p) = Some u"
      and acct: "account_of t (pay_user_id p)
        = Some (cached_balance_paise u + pay_amount_paise p, cached_reserved_paise u)"
      and rest: "\<And>v. v \<noteq> pay_user_id p \<Longrightarrow> u_referred_by u \<noteq> Some v \<Longrightarrow> account_of t v = account_of s v"
      and out: "out = settled_as ''credited'' p (Some (pay_amount_paise p))"
      by (rule credit_payment_accounts [OF credited(6) assms(1) credited(1,2)]) blast
    have "so_outcome out = ''credited''" by (simp add: out settled_as_def)
    moreover have "account_of s (pay_user_id p) = Some (cached_balance_paise u, cached_reserved_paise u)"
      by (simp add: account_of_def u)
    ultimately show ?thesis using credited(1-5) acct rest u by auto
  qed
qed

section \<open>Rows and events are kept\<close>

definition pay_ident :: "payment_row \<Rightarrow> string \<times> int \<times> int \<times> string" where
  "pay_ident p = (pay_public_id p, pay_user_id p, pay_amount_paise p, pay_key p)"

text \<open>No payment disappears or changes its identity, and no event is forgotten.\<close>

definition rows_kept :: "db \<Rightarrow> db \<Rightarrow> bool" where
  "rows_kept s t \<longleftrightarrow>
     (\<exists>new. map pay_ident (payments t) = map pay_ident (payments s) @ new) \<and>
     event_key ` set (payment_events s) \<subseteq> event_key ` set (payment_events t)"

lemma rows_kept_refl [simp]: "rows_kept s s" by (simp add: rows_kept_def)

lemma rows_kept_trans: "rows_kept s t \<Longrightarrow> rows_kept t r \<Longrightarrow> rows_kept s r"
  by (auto simp: rows_kept_def)

lemma rows_kept_update:
  "(\<And>p. pay_ident (f p) = pay_ident p) \<Longrightarrow> rows_kept s (update_payment pid f s)"
  by (simp add: rows_kept_def) (simp add: update_payment_def)

lemma rows_kept_audit [simp]: "rows_kept s (audit w x y z t) \<longleftrightarrow> rows_kept s t"
  by (simp add: rows_kept_def)

lemma rows_kept_same: "same_tables s t \<Longrightarrow> rows_kept s t"
  by (simp add: rows_kept_def same_tables_fields)

lemma credit_payment_kept:
  assumes "credit_payment H now q p s = Inr (out, t)"
  shows "rows_kept s t"
proof -
  obtain e s1 x s2 where c: "credit H (pay_user_id p) (pay_amount_paise p) (''Deposit '' @ pay_public_id p)
      (Some (deposit_ledger_key H (pay_public_id p))) (payment_ref q (pay_public_id p)) s = Inr (e, s1)"
    and d: "credit_deposit_commission H (pay_user_id p) p s1 = Inr (x, s2)"
    and t: "t = audit (sr_actor q) ''payment.credited'' (Some (pay_public_id p)) None
      (update_payment (pay_public_id p) (mark_paid now q) s2)"
    using assms by (auto simp: credit_payment_def)
  have "rows_kept s s2"
    using rows_kept_same [OF effect_same_tables [OF credit_effect [OF c]]]
      rows_kept_same [OF deposit_commission_same_tables [OF d]] by (rule rows_kept_trans)
  moreover have "rows_kept s2 t"
    unfolding t rows_kept_audit by (rule rows_kept_update) (simp add: pay_ident_def mark_paid_def)
  ultimately show ?thesis by (rule rows_kept_trans)
qed

lemma settle_kept: "settle_payment H now q s = Inr (out, t) \<Longrightarrow> rows_kept s t"
  by (auto simp: settle_payment_def hold_payment_def pay_ident_def split: option.split_asm if_split_asm
      intro!: rows_kept_update dest: credit_payment_kept)

lemma expire_kept: "rows_kept s (expire_payment pid s)"
  unfolding expire_payment_def by (rule rows_kept_update) (simp add: pay_ident_def)

lemma handle_kept:
  assumes "handle_webhook_event H now gw ev s = Inr (out, t)"
  shows "rows_kept s t \<and> (gw, ge_event_id ev) \<in> event_key ` set (payment_events t)"
proof (cases "(gw, ge_event_id ev) \<in> event_key ` set (payment_events s)")
  case True
  with assms show ?thesis by (auto simp: handle_webhook_event_def)
next
  case False
  let ?s = "s\<lparr>payment_events := payment_events s @ [event_row gw ev]\<rparr>"
  let ?f = "\<lambda>out r. r\<lparr>pe_outcome := take 32 (so_outcome out),
      pe_detail := (if ge_detail ev = [] then None else Some (take 255 (ge_detail ev)))\<rparr>"
  obtain s1 where d: "dispatch_event H now gw ev ?s = Inr (out, s1)"
    and t: "t = s1\<lparr>payment_events := upd_by event_key (gw, ge_event_id ev) (?f out) (payment_events s1)\<rparr>"
    using assms False by (auto simp: handle_webhook_event_def)
  have "rows_kept ?s s1"
    using d by (auto simp: dispatch_event_def Let_def split: if_split_asm option.split_asm
        intro: settle_kept expire_kept)
  moreover have "event_key ` set (payment_events t) = event_key ` set (payment_events s1)"
  proof -
    have "map event_key (payment_events t) = map event_key (payment_events s1)"
      by (simp add: t event_key_def)
    then show ?thesis by (metis list.set_map)
  qed
  moreover have "event_key (event_row gw ev) = (gw, ge_event_id ev)"
    by (simp add: event_key_def event_row_def)
  ultimately show ?thesis by (simp add: rows_kept_def t)
qed

lemma reconcile_one_kept: "reconcile_one H now fetch pid s = Inr (outs, t) \<Longrightarrow> rows_kept s t"
  by (auto simp: reconcile_one_def split: option.split_asm sum.split_asm exn.split_asm if_split_asm
      intro: settle_kept expire_kept)

lemma reconcile_loop_kept: "reconcile_loop H now fetch pids s = Inr (outs, t) \<Longrightarrow> rows_kept s t"
  by (induction pids arbitrary: s outs t) (auto dest: reconcile_one_kept intro: rows_kept_trans)

lemma check_kept: "check_payment H now st fetch pid uid s = Inr (p, t) \<Longrightarrow> rows_kept s t"
  by (auto simp: check_payment_def split: option.split_asm if_split_asm sum.split_asm exn.split_asm
      intro: settle_kept expire_kept)

lemma insert_kept: "insert_payment p s = Inr t \<Longrightarrow> rows_kept s t"
  by (auto simp: insert_payment_def rows_kept_def split: if_split_asm)

lemma create_kept:
  assumes "create_deposit R H now st post q s = Inr (p, t)"
  shows "rows_kept s t"
  using assms
proof (cases rule: create_deposit_cases)
  case (checkout s1 co)
  have "rows_kept s1 t"
    unfolding checkout(3) by (rule rows_kept_update) (simp add: pay_ident_def with_checkout_def)
  with insert_kept [OF checkout(2)] show ?thesis by (rule rows_kept_trans)
qed (auto intro: insert_kept)

lemma payment_op_kept: "payment_op R H now q s = Inr (x, t) \<Longrightarrow> rows_kept s t"
  by (cases q) (auto simp: no_result_Inr reconcile_pending_def manual_confirm_def mock_pay_def
      split: option.split_asm if_split_asm dest!: razorpay_webhook_handled
      intro: create_kept handle_kept [THEN conjunct1] reconcile_loop_kept check_kept settle_kept)

interpretation payment_rows: session_steps "payment_step R H" "rows_kept s0" "\<lambda>_. True" for R H s0
  by unfold_locales (auto simp: payment_step_def dest: payment_op_kept intro: rows_kept_trans)

text \<open>
  C7: Redelivery. Once an event has been processed, delivering it again (the same event id from the
  same gateway, whatever its content now says), after anything else that happened to the deposits
  in between, is answered as a duplicate and changes nothing.
\<close>

theorem webhook_redelivery_is_duplicate:
  assumes "handle_webhook_event H now gw ev s = Inr (out, s1)" and "ge_event_id ev' = ge_event_id ev"
  shows "handle_webhook_event H later gw ev' (session_run (payment_step R H) qs s1)
    = Inr (simple_outcome ''duplicate'' (ge_reference ev') None, session_run (payment_step R H) qs s1)"
proof -
  have "(gw, ge_event_id ev') \<in> event_key ` set (payment_events s1)"
    using handle_kept [OF assms(1)] assms(2) by simp
  moreover have "rows_kept s1 (session_run (payment_step R H) qs s1)"
    by (rule payment_rows.run_inv) simp_all
  ultimately show ?thesis by (auto simp: handle_webhook_event_def rows_kept_def)
qed

section \<open>Retried deposit requests\<close>

lemma find_by_ident:
  assumes "map pay_ident ps' = map pay_ident ps @ new" and "find_by pay_key k ps = Some p"
  shows "\<exists>p'. find_by pay_key k ps' = Some p' \<and> pay_ident p' = pay_ident p"
  using assms
proof (induction ps arbitrary: ps')
  case (Cons x xs)
  then obtain x' xs' where ps': "ps' = x' # xs'" "pay_ident x' = pay_ident x"
    "map pay_ident xs' = map pay_ident xs @ new" by (cases ps') auto
  then have "pay_key x' = pay_key x" by (simp add: pay_ident_def)
  with Cons ps' show ?case by auto
qed simp

lemma create_deposit_found:
  assumes "create_deposit R H now st post q s = Inr (p, t)"
  shows "\<exists>p'. find_by pay_key (deposit_key H now q) (payments t) = Some p' \<and> pay_ident p' = pay_ident p"
proof -
  let ?n = "new_payment H now st q (next_payment_id s)"
  have pays: "find_by pay_key (deposit_key H now q) (payments s1) = Some ?n"
    if "insert_payment ?n s = Inr s1" "find_by pay_key (deposit_key H now q) (payments s) = None" for s1
    using that by (auto simp: insert_payment_def find_by_append split: if_split_asm)
  have upd: "find_by pay_key k (upd_by pay_public_id pid (with_checkout co) ps)
      = map_option (\<lambda>p. if pay_public_id p = pid then with_checkout co p else p) (find_by pay_key k ps)" for k pid co ps
    by (induction ps) (auto simp: with_checkout_def)
  from assms show ?thesis
  proof (cases rule: create_deposit_cases)
    case (checkout s1 co)
    then show ?thesis using pays [OF checkout(2,1)] upd by (simp add: pay_ident_def)
  qed (use pays in auto)
qed

text \<open>
  A retried deposit request. A request with a client key that returned an invoice, sent again
  with that key (with any amount, at any time, after anything else that happened to the deposits)
  returns the same invoice with the same amount, or an error, and changes nothing.
\<close>

theorem deposit_retry_is_replay:
  assumes "create_deposit R H now st post q s = Inr (p, s1)"
    and "dr_key q = Some c" "c \<noteq> []" and "dr_key q' = dr_key q" and "dr_user q' = dr_user q"
    and "create_deposit R H later st' post' q' (session_run (payment_step R H) qs s1) = Inr (p', s2)"
  shows "pay_public_id p' = pay_public_id p \<and> pay_amount_paise p' = pay_amount_paise p \<and>
    s2 = session_run (payment_step R H) qs s1"
proof -
  let ?run = "session_run (payment_step R H) qs s1"
  have key: "deposit_key H later q' = deposit_key H now q"
    using assms(2-5) by (cases c) (simp_all add: deposit_key_def)
  have "rows_kept s1 ?run" by (rule payment_rows.run_inv) simp_all
  then obtain new where new: "map pay_ident (payments ?run) = map pay_ident (payments s1) @ new"
    by (auto simp: rows_kept_def)
  obtain p1 where p1: "find_by pay_key (deposit_key H now q) (payments s1) = Some p1"
    and i1: "pay_ident p1 = pay_ident p"
    using create_deposit_found [OF assms(1)] by blast
  obtain p2 where p2: "find_by pay_key (deposit_key H later q') (payments ?run) = Some p2"
    and i2: "pay_ident p2 = pay_ident p"
    using find_by_ident [OF new p1] i1 key by auto
  from assms(6) p2 have "p' = p2 \<and> s2 = ?run"
    by (cases rule: create_deposit_cases) simp_all
  with i2 show ?thesis by (simp add: pay_ident_def)
qed

section \<open>A lost webhook\<close>

definition amounts_pos :: "db \<Rightarrow> bool" where
  "amounts_pos s \<longleftrightarrow> (\<forall>p \<in> set (payments s). 0 < pay_amount_paise p)"

text \<open>Settling touches one row, and only its status and notes.\<close>

lemma settle_payments:
  assumes "settle_payment H now q s = Inr (out, t)"
  shows "\<exists>f. payments t = upd_by pay_public_id (sr_payment q) f (payments s) \<and>
    (\<forall>p. pay_ident (f p) = pay_ident p)"
proof -
  have idle: "upd_by pay_public_id k (\<lambda>p. p) ps = ps" for k ps by (induction ps) auto
  show ?thesis
  proof (cases "payment_by_public_id (sr_payment q) s")
    case None
    with assms have "t = s" by (simp add: settle_payment_def)
    then show ?thesis by (intro exI [of _ "\<lambda>p. p"]) (simp add: idle)
  next
    case (Some p)
    have pid: "pay_public_id p = sr_payment q" using payment_by_Some [OF Some] by simp
    consider "t = s" | f where "payments t = upd_by pay_public_id (sr_payment q) f (payments s)"
        "\<forall>p. pay_ident (f p) = pay_ident p"
      | "credit_payment H now q p s = Inr (out, t)"
      using assms Some pid
      by (auto simp: settle_payment_def hold_payment_def pay_ident_def split: if_split_asm)
    then show ?thesis
    proof cases
      case 1
      then show ?thesis by (intro exI [of _ "\<lambda>p. p"]) (simp add: idle)
    next
      case (2 f)
      then show ?thesis by blast
    next
      case 3
      then obtain e s1 x s2 where "credit H (pay_user_id p) (pay_amount_paise p) (''Deposit '' @ pay_public_id p)
          (Some (deposit_ledger_key H (pay_public_id p))) (payment_ref q (pay_public_id p)) s = Inr (e, s1)"
        and "credit_deposit_commission H (pay_user_id p) p s1 = Inr (x, s2)"
        and "payments t = upd_by pay_public_id (pay_public_id p) (mark_paid now q) (payments s2)"
        by (auto simp: credit_payment_def)
      then have "payments t = upd_by pay_public_id (sr_payment q) (mark_paid now q) (payments s)"
        by (simp add: pid deposit_commission_same_tables [THEN same_tables_fields(6)]
            credit_effect [THEN effect_same_tables, THEN same_tables_fields(6)])
      then show ?thesis by (intro exI [of _ "mark_paid now q"]) (simp add: pay_ident_def mark_paid_def)
    qed
  qed
qed

lemma credit_returns:
  assumes "wallet_inv s" and "users s uid = Some u" and "0 < a" and "k \<noteq> []"
  shows "\<exists>e t. credit H uid a why (Some k) refs s = Inr (e, t)"
proof (cases "existing k s")
  case None
  have "acct_step Credit a (cached_balance_paise u, cached_reserved_paise u)
      = Some (cached_balance_paise u + a, cached_reserved_paise u)" using assms(3) by simp
  from wallet_op_succeeds [OF assms(2) wallet_inv_acct_ok [OF assms(1,2)] None assms(4) this,
      where H = H and why = why and refs = refs]
  show ?thesis by auto
next
  case (Some e)
  with assms show ?thesis by (simp add: wallet_defs)
qed

lemma commission_returns:
  assumes "wallet_inv s" and "good_digest H"
  shows "\<exists>x t. credit_deposit_commission H b p s = Inr (x, t)"
proof (cases "\<exists>ref u. Option.bind (users s b) u_referred_by = Some ref \<and> users s ref = Some u \<and>
    0 < commission_paise (pay_amount_paise p) REFERRAL_DEPOSIT_COMMISSION_PERCENT")
  case False
  then show ?thesis
    by (auto simp: credit_deposit_commission_def Let_def not_less split: option.split)
next
  case True
  then obtain ref u where ref: "Option.bind (users s b) u_referred_by = Some ref" and u: "users s ref = Some u"
    and pos: "0 < commission_paise (pay_amount_paise p) REFERRAL_DEPOSIT_COMMISSION_PERCENT" (is "0 < ?c")
    by blast
  have c: "\<exists>e t. credit H ref ?c why (Some (deposit_commission_key H b)) refs s = Inr (e, t)" for why refs
    by (rule credit_returns [OF assms(1) u pos commission_key_ne [OF assms(2)]])
  show ?thesis
    using ref u pos c [of "''Referral 5% first deposit '' @ pay_public_id p" "referral_ref (pay_public_id p)
      [(''kind'', JStr ''deposit''), (''buyer_id'', JInt b), (''pct'', JNum REFERRAL_DEPOSIT_COMMISSION_PERCENT)]"]
    by (auto simp: credit_deposit_commission_def Let_def deposit_commission_key_def)
qed

lemma credit_payment_returns:
  assumes "pay_inv H s" and "payment_by_public_id pid s = Some p" and "pay_status p \<noteq> PAID"
    and "0 < pay_amount_paise p" and "users s (pay_user_id p) = Some u"
  shows "\<exists>out t. credit_payment H now q p s = Inr (out, t)"
proof -
  have g: "good_digest H" and b: "deposit_books H s" and w: "wallet_inv s"
    using assms(1) by (simp_all add: pay_inv_def)
  have pid: "pay_public_id p = pid" "p \<in> set (payments s)" using payment_by_Some [OF assms(2)] by simp_all
  obtain e s1 where c: "credit H (pay_user_id p) (pay_amount_paise p) (''Deposit '' @ pid)
      (Some (deposit_ledger_key H pid)) (payment_ref q pid) s = Inr (e, s1)"
    using credit_returns [OF w assms(5,4) deposit_key_ne [OF g]] by blast
  then have "wallet_inv s1" using wallet_inv_effect [OF w credit_effect] by blast
  from commission_returns [OF this g] c show ?thesis by (auto simp: credit_payment_def pid)
qed

lemma settle_returns:
  assumes "pay_inv H s" and "amounts_pos s"
  shows "\<exists>out t. settle_payment H now q s = Inr (out, t)"
proof (cases "payment_by_public_id (sr_payment q) s")
  case None
  then show ?thesis by (simp add: settle_payment_def)
next
  case (Some p)
  have "0 < pay_amount_paise p" using assms(2) payment_by_Some [OF Some] by (simp add: amounts_pos_def)
  with credit_payment_returns [OF assms(1) Some] Some show ?thesis
    by (auto simp: settle_payment_def)
qed

lemma lookup_upd_other:
  assumes "\<And>p. pay_ident (f p) = pay_ident p" and "pid \<noteq> k"
  shows "find_by pay_public_id pid (upd_by pay_public_id k f ps) = find_by pay_public_id pid ps"
proof -
  have "pay_public_id (f p) = pay_public_id p" for p using assms(1) [of p] by (simp add: pay_ident_def)
  then show ?thesis using assms(2) by (simp add: find_by_upd_by)
qed

lemma amounts_pos_upd:
  "amounts_pos s \<Longrightarrow> payments t = upd_by pay_public_id k f (payments s) \<Longrightarrow>
   (\<And>p. pay_ident (f p) = pay_ident p) \<Longrightarrow> amounts_pos t"
  by (auto simp: amounts_pos_def pay_ident_def dest!: set_upd_by)

lemma credit_payment_no_user:
  "credit_payment H now q p s = Inr (out, t) \<Longrightarrow> users t v = None \<longleftrightarrow> users s v = None"
  by (auto simp: credit_payment_def dest!: credit_effect effect_same_tables deposit_commission_same_tables)
    (metis same_tables_no_user)+

text \<open>What a step of the reconciliation keeps for the rows still to come.\<close>

definition others_kept :: "string \<Rightarrow> db \<Rightarrow> db \<Rightarrow> bool" where
  "others_kept k s t \<longleftrightarrow>
     (\<forall>pid. pid \<noteq> k \<longrightarrow> payment_by_public_id pid t = payment_by_public_id pid s) \<and>
     (\<forall>v. users t v = None \<longleftrightarrow> users s v = None) \<and> (amounts_pos s \<longrightarrow> amounts_pos t)"

lemma settle_others_kept:
  assumes "settle_payment H now q s = Inr (out, t)" and "pay_inv H s"
  shows "others_kept (sr_payment q) s t"
proof -
  obtain f where f: "payments t = upd_by pay_public_id (sr_payment q) f (payments s)"
    "\<And>p. pay_ident (f p) = pay_ident p"
    using settle_payments [OF assms(1)] by blast
  have "deposit_books H s" using assms(2) by (simp add: pay_inv_def)
  with assms(1) have "users t v = None \<longleftrightarrow> users s v = None" for v
  proof (cases rule: settle_cases)
    case quiet
    then show ?thesis by (simp add: quiet_def)
  next
    case (credited p)
    then show ?thesis using credit_payment_no_user by blast
  qed
  then show ?thesis
    using f lookup_upd_other [OF f(2)] amounts_pos_upd [OF _ f]
    by (simp add: others_kept_def payment_by_public_id_def)
qed

lemma expire_others_kept: "others_kept pid s (expire_payment pid s)"
  using amounts_pos_upd [of s "expire_payment pid s" pid "\<lambda>p. p\<lparr>pay_status := EXPIRED\<rparr>"]
  by (simp add: others_kept_def expire_payment_def payment_by_public_id_def lookup_upd_other pay_ident_def)

lemma others_kept_refl [simp]: "others_kept pid s s" by (simp add: others_kept_def)

definition gateway_answers :: "(string \<Rightarrow> gateway_status res) \<Rightarrow> bool" where
  "gateway_answers fetch \<longleftrightarrow> (\<forall>r. case fetch r of Inl (GatewayError m) \<Rightarrow> True | Inl e \<Rightarrow> False | Inr st \<Rightarrow> True)"

lemma reconcile_one_returns:
  assumes "pay_inv H s" and "amounts_pos s" and "gateway_answers fetch"
  shows "\<exists>outs t. reconcile_one H now fetch pid s = Inr (outs, t) \<and> pay_inv H t \<and> others_kept pid s t"
proof (cases "payment_by_public_id pid s")
  case None
  then show ?thesis using assms(1) by (simp add: reconcile_one_def)
next
  case (Some p)
  have pid: "pay_public_id p = pid" using payment_by_Some [OF Some] by simp
  have "case fetch (provider_ref_or_empty p) of Inl (GatewayError m) \<Rightarrow> True | Inl e \<Rightarrow> False | Inr st \<Rightarrow> True"
    using assms(3) by (simp add: gateway_answers_def)
  then consider m where "fetch (provider_ref_or_empty p) = Inl (GatewayError m)"
    | st where "fetch (provider_ref_or_empty p) = Inr st" "gs_state st = State_paid"
    | st where "fetch (provider_ref_or_empty p) = Inr st" "gs_state st \<noteq> State_paid"
    by (auto split: sum.split_asm exn.split_asm)
  then show ?thesis
  proof cases
    case 1
    then show ?thesis using Some assms(1) by (simp add: reconcile_one_def)
  next
    case (2 st)
    obtain out t where t: "settle_payment H now (status_request p st ''reconcile'') s = Inr (out, t)"
      using settle_returns [OF assms(1,2)] by blast
    then have "reconcile_one H now fetch pid s = Inr ([out], t)" using 2 Some by (simp add: reconcile_one_def)
    then show ?thesis
      using settle_inv [OF t assms(1)] settle_others_kept [OF t assms(1)] by (simp add: status_request_def pid)
  next
    case (3 st)
    then show ?thesis using Some assms(1) expire_others_kept expire_inv by (auto simp: reconcile_one_def)
  qed
qed

lemma reconcile_loop_returns:
  assumes "pay_inv H s" and "amounts_pos s" and "gateway_answers fetch"
  shows "\<exists>outs t. reconcile_loop H now fetch pids s = Inr (outs, t) \<and>
    (\<forall>pid. pid \<notin> set pids \<longrightarrow> payment_by_public_id pid t = payment_by_public_id pid s)"
  using assms(1,2)
proof (induction pids arbitrary: s)
  case Nil
  then show ?case by simp
next
  case (Cons k pids)
  obtain outs s1 where one: "reconcile_one H now fetch k s = Inr (outs, s1)" "pay_inv H s1" "others_kept k s s1"
    using reconcile_one_returns [OF Cons.prems assms(3)] by blast
  then have "amounts_pos s1" using Cons.prems(2) by (simp add: others_kept_def)
  from Cons.IH [OF one(2) this] one(1,3) show ?case by (auto simp: others_kept_def)
qed

text \<open>The gateway reports the invoice paid, in full and in its currency.\<close>

definition reports_paid :: "(string \<Rightarrow> gateway_status res) \<Rightarrow> payment_row \<Rightarrow> bool" where
  "reports_paid fetch p \<longleftrightarrow>
     fetch (provider_ref_or_empty p) = Inr \<lparr>gs_state = State_paid,
       gs_amount_paise = Some (pay_amount_paise p), gs_currency = Some (upper (pay_currency p))\<rparr>"

lemma reconcile_one_pays:
  assumes "pay_inv H s" and "amounts_pos s" and "payment_by_public_id pid s = Some p"
    and "pay_status p \<noteq> PAID" and "pay_method p = ''razorpay''"
    and "reports_paid fetch p" and "users s (pay_user_id p) \<noteq> None"
  shows "\<exists>outs t. reconcile_one H now fetch pid s = Inr (outs, t) \<and> pay_inv H t \<and> others_kept pid s t \<and>
    (\<exists>p'. payment_by_public_id pid t = Some p' \<and> pay_status p' = PAID \<and> pay_user_id p' = pay_user_id p \<and>
      pay_amount_paise p' = pay_amount_paise p)"
proof -
  let ?st = "\<lparr>gs_state = State_paid, gs_amount_paise = Some (pay_amount_paise p),
    gs_currency = Some (upper (pay_currency p))\<rparr>"
  define q where "q = status_request p ?st ''reconcile''"
  have pid: "pay_public_id p = pid" "p \<in> set (payments s)" using payment_by_Some [OF assms(3)] by simp_all
  have cur: "settle_currency q p = upper (pay_currency p)"
    by (simp add: q_def settle_currency_def status_request_def)
  obtain u where u: "users s (pay_user_id p) = Some u" using assms(7) by blast
  have g: "good_digest H" and b: "deposit_books H s" using assms(1) by (simp_all add: pay_inv_def)
  have pos: "0 < pay_amount_paise p" using assms(2) pid by (simp add: amounts_pos_def)
  obtain out t where t: "credit_payment H now q p s = Inr (out, t)"
    using credit_payment_returns [OF assms(1,3,4) pos u] by blast
  then have settle: "settle_payment H now q s = Inr (out, t)"
    using assms(3-5) u cur by (simp add: settle_payment_def) (simp add: q_def status_request_def pid)
  then have one: "reconcile_one H now fetch pid s = Inr ([out], t)"
    using assms(3,6) by (simp add: reconcile_one_def reports_paid_def q_def)
  obtain uu e s1 x s2 where "users s (pay_user_id p) = Some uu"
    and p: "posted (pay_user_id p) (pay_amount_paise p) Credit (deposit_ledger_key H pid)
      (payment_ref q pid) (cached_balance_paise uu + pay_amount_paise p) (cached_reserved_paise uu) s e s1"
    and c: "credit_deposit_commission H (pay_user_id p) p s1 = Inr (x, s2)"
    and t': "t = audit (sr_actor q) ''payment.credited'' (Some pid) None (update_payment pid (mark_paid now q) s2)"
    and "out = settled_as ''credited'' p (Some (pay_amount_paise p))" and "0 < pay_amount_paise p"
    using credit_payment_posts [OF t b g assms(3,4)] .
  have "payments s2 = payments s"
    using same_tables_fields(6) [OF deposit_commission_same_tables [OF c]] same_tables_fields(6) [of s s1] p
    by (simp add: posted_def)
  then have "payment_by_public_id pid t = Some (mark_paid now q p)"
    using assms(3) by (simp add: t' payment_by_public_id_def find_by_upd_by)
  then show ?thesis
    using one settle_inv [OF settle assms(1)] settle_others_kept [OF settle assms(1)]
    by (simp add: q_def status_request_def pid)
qed

lemma reconcile_loop_pays:
  assumes "pay_inv H s" and "amounts_pos s" and "gateway_answers fetch" and "distinct pids"
    and "pid \<in> set pids" and "payment_by_public_id pid s = Some p" and "pay_status p \<noteq> PAID"
    and "pay_method p = ''razorpay''" and "reports_paid fetch p" and "users s (pay_user_id p) \<noteq> None"
  shows "\<exists>outs t p'. reconcile_loop H now fetch pids s = Inr (outs, t) \<and>
    payment_by_public_id pid t = Some p' \<and> pay_status p' = PAID \<and> pay_user_id p' = pay_user_id p \<and>
    pay_amount_paise p' = pay_amount_paise p"
  using assms(1,2,4-6,10)
proof (induction pids arbitrary: s)
  case Nil
  then show ?case by simp
next
  case (Cons k pids)
  show ?case
  proof (cases "k = pid")
    case True
    obtain outs s1 p' where one: "reconcile_one H now fetch pid s = Inr (outs, s1)" "pay_inv H s1" "others_kept pid s s1"
      and p': "payment_by_public_id pid s1 = Some p'" "pay_status p' = PAID" "pay_user_id p' = pay_user_id p"
        "pay_amount_paise p' = pay_amount_paise p"
      using reconcile_one_pays [OF Cons.prems(1,2,5) assms(7,8,9) Cons.prems(6)] by blast
    have "amounts_pos s1" using one(3) Cons.prems(2) by (simp add: others_kept_def)
    then obtain rest t where "reconcile_loop H now fetch pids s1 = Inr (rest, t)"
      and "payment_by_public_id pid t = payment_by_public_id pid s1"
      using reconcile_loop_returns [OF one(2) _ assms(3)] Cons.prems(3) True by fastforce
    then show ?thesis using one(1) p' True by auto
  next
    case False
    obtain outs s1 where one: "reconcile_one H now fetch k s = Inr (outs, s1)" "pay_inv H s1" "others_kept k s s1"
      using reconcile_one_returns [OF Cons.prems(1,2) assms(3)] by blast
    have "amounts_pos s1" "payment_by_public_id pid s1 = Some p" "users s1 (pay_user_id p) \<noteq> None"
      using one(3) Cons.prems False by (simp_all add: others_kept_def)
    with Cons.IH [OF one(2)] Cons.prems False one(1) show ?thesis by auto
  qed
qed

text \<open>
  C5: A lost webhook loses no money. Take a payment whose webhook never arrived, pending or already
  marked expired, that is among the rows that the reconciliation picks (the oldest ones up to the limit,
  50 in the code, older than the least age and younger than the greatest, two minutes and 72 hours),
  that the gateway reports as paid in full and whose user exists. If the gateway's adapter raises nothing
  but gateway errors, one run of the reconciliation returns, whatever it answers for the other payments,
  and the payment is paid and credited with exactly its amount.
\<close>

theorem reconciliation_recovers_payment:
  assumes "pay_inv H s" and "amounts_pos s" and "gateway_answers fetch"
    and "p \<in> set (reconcile_rows now age hours limit s)" and "reports_paid fetch p"
    and "users s (pay_user_id p) \<noteq> None"
  shows "\<exists>outs t p'. reconcile_pending H now fetch age hours limit s = Inr (outs, t) \<and>
    payment_by_public_id (pay_public_id p) t = Some p' \<and> pay_status p' = PAID \<and>
    map entry_face (deposit_entries (pay_public_id p) t) = [(pay_user_id p, pay_amount_paise p, Credit)]"
proof -
  let ?rows = "reconcile_rows now age hours limit s"
  have rows: "p \<in> set (payments s)" "pay_method p = ''razorpay''" "pay_status p \<noteq> PAID"
    using assms(4) by (auto simp: reconcile_rows_def dest!: in_set_takeD)
  have b: "deposit_books H s" using assms(1) by (simp add: pay_inv_def)
  then have "distinct (map pay_public_id ?rows)"
    unfolding reconcile_rows_def take_map [symmetric]
    by (intro distinct_take) (simp add: deposit_books_def distinct_map_filter)
  then obtain outs t p' where t: "reconcile_loop H now fetch (map pay_public_id ?rows) s = Inr (outs, t)"
    and p': "payment_by_public_id (pay_public_id p) t = Some p'" "pay_status p' = PAID"
      "pay_user_id p' = pay_user_id p" "pay_amount_paise p' = pay_amount_paise p"
    using reconcile_loop_pays [OF assms(1-3) _ _ payment_by_in [OF b rows(1)] rows(3,2) assms(5,6),
        of "map pay_public_id ?rows" now] assms(4) by (auto simp del: distinct_map)
  have "deposit_books H t" using reconcile_loop_inv [OF t assms(1)] by (simp add: pay_inv_def)
  then have "map entry_face (deposit_entries (pay_public_id p) t) = due_entries p'"
    using payment_by_Some [OF p'(1)] by (auto simp: deposit_books_def)
  then show ?thesis using t p' by (auto simp: reconcile_pending_def due_entries_def)
qed

section \<open>The checks before booting\<close>

text \<open>
  A process that passed the production checks. With no blocking problem reported, the payment
  gateway is usable (asking for it never raises) or the mode is manual, and the route that pays
  mock invoices answers 404 to every request.
\<close>

theorem booted_production_has_no_mock_payments:
  assumes "is_production st" and "production_problems st = []"
  shows "(if payment_gateway st = ''razorpay'' then \<exists>gw. get_gateway st = Inr (Some gw) \<and>
        rz_webhook_secret gw \<noteq> [] else get_gateway st = Inr None) \<and>
    mock_pay H now st pid uid s = Inl (HTTPException 404 ''Not found'')"
proof -
  have r: "razorpay_problems st = []" using assms by (auto simp: production_problems_def)
  have ne: "secret_value v = Some t \<Longrightarrow> t \<noteq> []" for v t
    by (auto simp: secret_value_def split: option.split_asm if_split_asm)
  show ?thesis
  proof (cases "payment_gateway st = ''razorpay''")
    case False
    with assms(1) show ?thesis by (simp add: get_gateway_def mock_pay_def mock_payments_allowed_def)
  next
    case True
    with r obtain c cs secret hook where "razorpay_key_id st = Some (c # cs)"
      "razorpay_secret_value st = Some secret" "razorpay_webhook_secret_value st = Some hook"
      by (cases "razorpay_key_id st"; cases "the (razorpay_key_id st)")
        (auto simp: razorpay_problems_def no_text_def)
    moreover from this ne have "secret \<noteq> []" "hook \<noteq> []"
      by (auto simp: razorpay_secret_value_def razorpay_webhook_secret_value_def)
    ultimately show ?thesis using True assms(1)
      by (simp add: get_gateway_def new_razorpay_def mock_pay_def mock_payments_allowed_def)
  qed
qed

section \<open>Witnesses\<close>

definition sample_settings :: "app_env \<Rightarrow> string \<Rightarrow> settings" where
  "sample_settings env gw =
     \<lparr>app_env = env, bot_token = ''123456:ABCDEFGHIJKLMN'', owner_telegram_id = 1,
      database_url = ''postgresql+asyncpg://db'', public_base_url = Some ''https://shop.example.com'',
      webapp_url = None, bot_username = None, support_url = None, terms_url = Some ''https://t'',
      privacy_url = Some ''https://p'', secret_key = Some ''0123456789012345678901234567890123456789'',
      bot_polling = True, cors_origins = [], trust_proxy = True, smm_api_url = None, smm_api_key = None,
      payment_gateway = gw, enable_mock_payments = False, razorpay_key_id = Some ''rzp'',
      razorpay_key_secret = Some ''s'', razorpay_webhook_secret = Some ''w'',
      min_deposit_paise = 10000, max_deposit_paise = 5000000, rate_limit_per_minute = 90,
      ip_rate_limit_per_minute = 240, order_rate_limit_per_minute = 12, welcome_bonus_paise = 0,
      currency_code = ''INR''\<rparr>"

lemma sample_settings_boot: "production_problems (sample_settings Production ''razorpay'') = []"
  by code_simp

theorem booted_production_has_no_mock_payments_witness:
  "mock_pay sample_digest 0 (sample_settings Production ''razorpay'') ''PAY-0001'' 7 empty_db
     = Inl (HTTPException 404 ''Not found'')"
  using booted_production_has_no_mock_payments [OF _ sample_settings_boot]
  by (simp add: is_production_def sample_settings_def)

definition sample_invoice :: payment_row where
  "sample_invoice = (sample_payment ''PAY-0001'' 7 50000 PENDING)\<lparr>pay_provider_ref := Some ''plink_ABCDEF''\<rparr>"

definition invoiced :: db where
  "invoiced = (one_user 7)\<lparr>payments := [sample_invoice], next_payment_id := 2\<rparr>"

lemma sample_invoice_simps [simp]:
  "pay_public_id sample_invoice = ''PAY-0001''" "pay_user_id sample_invoice = 7"
  "pay_amount_paise sample_invoice = 50000" "pay_method sample_invoice = ''razorpay''"
  "pay_status sample_invoice = PENDING" "pay_provider_ref sample_invoice = Some ''plink_ABCDEF''"
  "pay_currency sample_invoice = ''INR''" "pay_created_at sample_invoice = 0"
  "pay_key sample_invoice = ''PAY-0001''"
  by (simp_all add: sample_invoice_def sample_payment_def)

lemma invoiced_simps [simp]:
  "payments invoiced = [sample_invoice]" "users invoiced = users (one_user 7)" "ledger invoiced = []"
  "payment_events invoiced = []" "existing k invoiced = None" "app_settings invoiced = Map.empty"
  by (simp_all add: invoiced_def one_user_def empty_db_def existing_def)

lemma pay_inv_invoiced: "pay_inv sample_digest invoiced"
proof -
  have "wallet_inv invoiced"
    using wallet_inv_one_user [of 7] wallet_inv_cong [of invoiced "one_user 7"]
    by (simp add: one_user_def empty_db_def)
  then show ?thesis
    by (auto simp: pay_inv_def deposit_books_def deposit_entries_def due_entries_def)
qed

lemma credit_payment_credited:
  "credit_payment H now q p s = Inr (out, t) \<Longrightarrow> so_outcome out = ''credited''"
  by (auto simp: credit_payment_def settled_as_def)

definition sample_settle_request :: "string \<Rightarrow> settle_request" where
  "sample_settle_request source =
     \<lparr>sr_payment = ''PAY-0001'', sr_gateway = ''razorpay'', sr_gateway_ref = Some ''plink_ABCDEF'',
      sr_amount = Some 50000, sr_currency = Some ''INR'', sr_source = source, sr_actor = ''system''\<rparr>"

lemma sample_settle_request_simps [simp]:
  "sr_payment (sample_settle_request x) = ''PAY-0001''" "sr_gateway (sample_settle_request x) = ''razorpay''"
  "sr_gateway_ref (sample_settle_request x) = Some ''plink_ABCDEF''"
  "sr_amount (sample_settle_request x) = Some 50000" "sr_currency (sample_settle_request x) = Some ''INR''"
  by (simp_all add: sample_settle_request_def)

lemma sample_settle:
  "\<exists>out t. settle_payment sample_digest now (sample_settle_request source) invoiced = Inr (out, t) \<and>
     so_outcome out = ''credited''"
proof -
  let ?q = "sample_settle_request source"
  obtain out t where c: "credit_payment sample_digest now ?q sample_invoice invoiced = Inr (out, t)"
    using credit_payment_returns [OF pay_inv_invoiced, of "''PAY-0001''" sample_invoice "new_user 7" now ?q]
    by (auto simp: payment_by_public_id_def)
  moreover have "settle_payment sample_digest now ?q invoiced = credit_payment sample_digest now ?q sample_invoice invoiced"
    by (simp add: settle_payment_def payment_by_public_id_def settle_currency_def no_text_def)
  ultimately show ?thesis using credit_payment_credited [OF c] by auto
qed

theorem only_matching_payments_credit_witness:
  "\<exists>out t. settle_payment sample_digest 0 (sample_settle_request ''webhook'') invoiced = Inr (out, t) \<and>
     account_of t 7 = Some (50000, 0)"
proof -
  obtain out t where st: "settle_payment sample_digest 0 (sample_settle_request ''webhook'') invoiced = Inr (out, t)"
    and c: "so_outcome out = ''credited''" using sample_settle by blast
  have "payment_by_public_id (sr_payment (sample_settle_request ''webhook'')) invoiced = Some sample_invoice"
    by (simp add: payment_by_public_id_def)
  then have "account_of t 7 = Some (50000, 0)"
    using only_matching_payments_credit [OF pay_inv_invoiced st] c by (auto simp: account_of_def)
  with st show ?thesis by blast
qed

definition sample_event :: "string \<Rightarrow> gateway_event" where
  "sample_event eid =
     \<lparr>ge_event_id = eid, ge_event_type = ''payment_link.paid'', ge_kind = Kind_paid,
      ge_reference = Some ''PAY-0001'', ge_gateway_ref = Some ''plink_ABCDEF'',
      ge_amount_paise = Some 50000, ge_currency = Some ''INR'', ge_detail = []\<rparr>"

lemma sample_handled:
  "\<exists>out t. handle_webhook_event sample_digest now ''razorpay'' (sample_event eid) invoiced = Inr (out, t) \<and>
     (\<exists>p. payments t = [p] \<and> pay_status p = PAID)"
proof -
  let ?s = "invoiced\<lparr>payment_events := [event_row ''razorpay'' (sample_event eid)]\<rparr>"
  let ?q = "sample_settle_request ''webhook''"
  have q: "event_request ''razorpay'' (sample_event eid) ''PAY-0001'' = ?q"
    by (simp add: event_request_def sample_event_def sample_settle_request_def)
  have inv: "pay_inv sample_digest ?s" using pay_inv_invoiced by simp
  have p: "payment_by_public_id ''PAY-0001'' ?s = Some sample_invoice" by (simp add: payment_by_public_id_def)
  obtain out t where c: "credit_payment sample_digest now ?q sample_invoice ?s = Inr (out, t)"
    using credit_payment_returns [OF inv p, of "new_user 7" now ?q] by auto
  have st: "settle_payment sample_digest now ?q ?s = Inr (out, t)"
    using c p by (simp add: settle_payment_def settle_currency_def no_text_def)
  have pays: "payments t = [mark_paid now ?q sample_invoice]"
  proof -
    obtain e s1 x s2 where "credit sample_digest 7 50000 (''Deposit '' @ ''PAY-0001'')
        (Some (deposit_ledger_key sample_digest ''PAY-0001'')) (payment_ref ?q ''PAY-0001'') ?s = Inr (e, s1)"
      and "credit_deposit_commission sample_digest 7 sample_invoice s1 = Inr (x, s2)"
      and "payments t = upd_by pay_public_id ''PAY-0001'' (mark_paid now ?q) (payments s2)"
      using c by (auto simp: credit_payment_def)
    then show ?thesis
      by (simp add: deposit_commission_same_tables [THEN same_tables_fields(6)]
          credit_effect [THEN effect_same_tables, THEN same_tables_fields(6)])
  qed
  have "dispatch_event sample_digest now ''razorpay'' (sample_event eid) ?s = Inr (out, t)"
    using st q by (simp add: dispatch_event_def Let_def no_text_def) (simp add: sample_event_def)
  then show ?thesis using pays by (simp add: handle_webhook_event_def)
qed

theorem webhook_redelivery_is_duplicate_witness:
  "\<exists>out t. handle_webhook_event sample_digest 0 ''razorpay'' (sample_event ''ev1'') invoiced = Inr (out, t) \<and>
     handle_webhook_event sample_digest 9 ''razorpay'' (sample_event ''ev1'') t
       = Inr (simple_outcome ''duplicate'' (Some ''PAY-0001'') None, t)"
proof -
  obtain out t where h: "handle_webhook_event sample_digest 0 ''razorpay'' (sample_event ''ev1'') invoiced
      = Inr (out, t)" using sample_handled by blast
  have "ge_reference (sample_event ''ev1'') = Some ''PAY-0001''" by (simp add: sample_event_def)
  with h show ?thesis using webhook_redelivery_is_duplicate [OF h refl, of 9 _ "[]"] by auto
qed

theorem deposits_credited_exactly_once_witness:
  "\<exists>p t. p \<in> set (payments t) \<and> pay_status p = PAID \<and> pay_amount_paise p = 50000 \<and>
     map entry_face (deposit_entries (pay_public_id p) t) = [(7, 50000, Credit)]"
proof -
  obtain out t p where h: "handle_webhook_event sample_digest 0 ''razorpay'' (sample_event ''ev1'') invoiced
      = Inr (out, t)" and p: "payments t = [p]" "pay_status p = PAID" using sample_handled by blast
  have k: "map pay_ident (payments t) = map pay_ident [sample_invoice] @ new \<Longrightarrow> pay_ident p = pay_ident sample_invoice" for new
    using p by simp
  have i: "pay_ident p = pay_ident sample_invoice"
    using handle_kept [OF h] k by (auto simp: rows_kept_def)
  have "p \<in> set (payments (session_run (payment_step R sample_digest) [] t))" for R using p by simp
  from deposits_credited_exactly_once [OF handle_inv [OF h pay_inv_invoiced] this] p i
  show ?thesis by (intro exI [of _ p] exI [of _ t]) (simp add: pay_ident_def)
qed

definition sample_deposit :: "int \<Rightarrow> string \<Rightarrow> deposit_request" where
  "sample_deposit amount pid = \<lparr>dr_user = 7, dr_amount = amount, dr_key = Some ''c1'', dr_public_id = pid\<rparr>"

definition depositor :: db where
  "depositor = empty_db\<lparr>users := [7 \<mapsto> (new_user 7)\<lparr>u_terms_accepted_at := Some 0\<rparr>], user_ids := [7]\<rparr>"

lemma kill_off: "app_settings s k = None \<Longrightarrow> \<not> is_kill_on s k"
  by (simp add: is_kill_on_def get_setting_def) code_simp

lemma payments_open_sample: "app_settings s = Map.empty \<Longrightarrow> assert_payments_open s = Inr ()"
  by (simp add: payments_open_iff kill_off)

theorem deposit_retry_is_replay_witness:
  "\<exists>p t p'. create_deposit (\<lambda>_. []) sample_digest 0 (sample_settings Development ''manual'') (\<lambda>_. Rz_network_error)
       (sample_deposit 50000 ''PAY-1'') depositor = Inr (p, t) \<and>
     create_deposit (\<lambda>_. []) sample_digest 90000000 (sample_settings Development ''manual'') (\<lambda>_. Rz_network_error)
       (sample_deposit 90000 ''PAY-2'') t = Inr (p', t) \<and> pay_amount_paise p' = 50000"
proof -
  let ?st = "sample_settings Development ''manual''"
  let ?q = "sample_deposit 50000 ''PAY-1''" and ?q' = "sample_deposit 90000 ''PAY-2''"
  let ?p = "new_payment sample_digest 0 ?st ?q 1"
  let ?t = "depositor\<lparr>payments := [?p], next_payment_id := pay_id ?p + 1\<rparr>"
  have us: "users depositor 7 = Some ((new_user 7)\<lparr>u_terms_accepted_at := Some 0\<rparr>)" "u_is_banned (new_user 7) = False"
    "app_settings depositor = Map.empty" "payments depositor = []" "next_payment_id depositor = 1"
    by (simp_all add: depositor_def empty_db_def new_user_def)
  have st: "min_deposit_paise ?st = 10000" "max_deposit_paise ?st = 5000000" "payment_gateway ?st = ''manual''"
    by (simp_all add: sample_settings_def)
  have q: "dr_user ?q = 7" "dr_amount ?q = 50000" "dr_key ?q = Some ''c1''" "dr_public_id ?q = ''PAY-1''"
    "dr_user ?q' = 7" "dr_amount ?q' = 90000" "dr_key ?q' = Some ''c1''"
    by (simp_all add: sample_deposit_def)
  have meth: "pay_method ?p = ''manual''" by (simp add: new_payment_def st)
  have first: "create_deposit (\<lambda>_. []) sample_digest 0 ?st (\<lambda>_. Rz_network_error) ?q depositor = Inr (?p, ?t)"
    using us st q meth by (simp add: create_deposit_def lock_user_def payments_open_sample insert_payment_def Let_def)
  have key: "deposit_key sample_digest 90000000 ?q' = deposit_key sample_digest 0 ?q"
    by (simp add: deposit_key_def q)
  have second: "create_deposit (\<lambda>_. []) sample_digest 90000000 ?st (\<lambda>_. Rz_network_error) ?q' ?t = Inr (?p, ?t)"
    using us st q key by (simp add: create_deposit_def lock_user_def payments_open_sample Let_def)
  have "create_deposit (\<lambda>_. []) sample_digest 90000000 ?st (\<lambda>_. Rz_network_error) ?q'
      (session_run (payment_step (\<lambda>_. []) sample_digest) [] ?t) = Inr (?p, ?t)"
    using second by simp
  from deposit_retry_is_replay [OF first q(3) _ _ _ this]
  show ?thesis using first second by (auto simp: q)
qed

theorem reconciliation_recovers_payment_witness:
  "\<exists>outs t p'. reconcile_pending sample_digest 300000000 (\<lambda>r. Inr \<lparr>gs_state = State_paid,
       gs_amount_paise = Some 50000, gs_currency = Some ''INR''\<rparr>) 120 72 50 invoiced = Inr (outs, t) \<and>
     payment_by_public_id ''PAY-0001'' t = Some p' \<and> pay_status p' = PAID"
proof -
  let ?fetch = "\<lambda>r :: string. Inr \<lparr>gs_state = State_paid, gs_amount_paise = Some (50000 :: int),
      gs_currency = Some ''INR''\<rparr> :: gateway_status res"
  have inr: "upper ''INR'' = ''INR''" by code_simp
  have "sample_invoice \<in> set (reconcile_rows 300000000 120 72 50 invoiced)"
    by (simp add: reconcile_rows_def)
  from reconciliation_recovers_payment [OF pay_inv_invoiced _ _ this, of ?fetch] show ?thesis
    by (auto simp: amounts_pos_def gateway_answers_def reports_paid_def inr)
qed

end
