(* ===== verification/SyncNormalize.thy ===== *)
theory SyncNormalize
  imports Panel
begin

text \<open>
  \<open>app/sync_normalize.py\<close>: the validation of a provider's service rows. A row is untrusted JSON;
  what is accepted is a record with bounded, cleaned fields. SHA-1 is an argument. The lemmas give
  the bounds of an accepted row, and show that the float comparisons of \<open>looks_malformed\<close> decide
  the exact fractions.
\<close>

section \<open>Cleaning text\<close>

definition MAX_EXTERNAL_ID_LEN :: nat where "MAX_EXTERNAL_ID_LEN = 24"
definition MAX_NAME_LEN :: nat where "MAX_NAME_LEN = 160"
definition MAX_CATEGORY_LEN :: nat where "MAX_CATEGORY_LEN = 120"
definition MAX_RATE_PER_1000 :: rat where "MAX_RATE_PER_1000 = 10000000"

definition control_char :: "char \<Rightarrow> bool" where
  "control_char c \<longleftrightarrow> (of_char c :: nat) < 32 \<or> (of_char c :: nat) = 127"

text \<open>\<open>re.sub(r"\s+", " ", s)\<close>: a maximal run of space becomes one blank.\<close>

function squeeze :: "string \<Rightarrow> string" where
  "squeeze [] = []"
| "squeeze (c # s) = (if py_space c then CHR '' '' # squeeze (dropWhile py_space s) else c # squeeze s)"
  by pat_completeness auto
termination
  by (relation "measure length") (auto intro: le_imp_less_Suc length_dropWhile_le)

definition clean_text :: "(json \<Rightarrow> string) \<Rightarrow> json \<Rightarrow> nat \<Rightarrow> string" where
  "clean_text R v max_len =
     take max_len (strip (squeeze (map (\<lambda>c. if control_char c then CHR '' '' else c)
       (case v of Jnull \<Rightarrow> [] | _ \<Rightarrow> py_str R v))))"

lemma length_clean_text: "length (clean_text R v n) \<le> n"
  by (simp add: clean_text_def)

lemma set_squeeze: "set (squeeze s) \<subseteq> insert CHR '' '' (set s)"
  by (induction s rule: squeeze.induct) (auto dest!: set_dropWhileD)

text \<open>A cleaned text has no control characters.\<close>

lemma clean_text_printable: "c \<in> set (clean_text R v n) \<Longrightarrow> \<not> control_char c"
proof -
  let ?m = "map (\<lambda>c. if control_char c then CHR '' '' else c) (case v of Jnull \<Rightarrow> [] | _ \<Rightarrow> py_str R v)"
  assume "c \<in> set (clean_text R v n)"
  then have "c \<in> set (strip (squeeze ?m))" unfolding clean_text_def by (rule in_set_takeD)
  then have "c \<in> insert CHR '' '' (set ?m)" using set_strip set_squeeze by blast
  moreover have "\<not> control_char (CHR '' '')" by (simp add: control_char_def)
  ultimately show ?thesis by (auto split: if_split_asm)
qed

text \<open>
  What cleaning leaves: no control characters, no space but the blank, none in front, and never two in
  a row.
\<close>

definition cleaned :: "string \<Rightarrow> bool" where
  "cleaned s \<longleftrightarrow> (\<forall>c \<in> set s. \<not> control_char c \<and> (py_space c \<longrightarrow> c = CHR '' '')) \<and>
     (s \<noteq> [] \<longrightarrow> hd s \<noteq> CHR '' '') \<and> successively (\<lambda>c d. \<not> (c = CHR '' '' \<and> d = CHR '' '')) s"

lemma squeeze_spaces: "c \<in> set (squeeze s) \<Longrightarrow> py_space c \<Longrightarrow> c = CHR '' ''"
  by (induction s rule: squeeze.induct) (auto split: if_split_asm)

lemma py_space_blank: "py_space (CHR '' '')" by code_simp

lemma hd_squeeze: "\<not> py_space (hd s) \<Longrightarrow> squeeze s \<noteq> [] \<Longrightarrow> hd (squeeze s) \<noteq> CHR '' ''"
  using py_space_blank by (cases s) auto

lemma squeeze_single: "successively (\<lambda>c d. \<not> (c = CHR '' '' \<and> d = CHR '' '')) (squeeze s)"
proof (induction s rule: squeeze.induct)
  case (2 c s)
  show ?case
  proof (cases "py_space c")
    case True
    have "\<not> py_space (hd (dropWhile py_space s))" if "squeeze (dropWhile py_space s) \<noteq> []"
    proof -
      have "dropWhile py_space s \<noteq> []" using that by (metis squeeze.simps(1))
      then show ?thesis by (rule hd_dropWhile)
    qed
    then show ?thesis using 2 True hd_squeeze [of "dropWhile py_space s"] by (auto simp: successively_Cons)
  next
    case False
    then show ?thesis using 2 py_space_blank by (auto simp: successively_Cons)
  qed
qed simp

lemma strip_infix: "\<exists>a b. s = a @ strip s @ b"
proof -
  obtain w where "lstrip s = strip s @ w" using rstrip_prefix [of "lstrip s"] by (auto simp: strip_def)
  then have "s = takeWhile py_space s @ strip s @ w" by (metis lstrip_def takeWhile_dropWhile_id)
  then show ?thesis by blast
qed

lemma cleaned_infix:
  assumes "s = a @ t @ b" and "\<And>c. c \<in> set s \<Longrightarrow> \<not> control_char c \<and> (py_space c \<longrightarrow> c = CHR '' '')"
    and "successively (\<lambda>c d. \<not> (c = CHR '' '' \<and> d = CHR '' '')) s" and "t \<noteq> [] \<Longrightarrow> hd t \<noteq> CHR '' ''"
  shows "cleaned t"
  using assms by (simp add: cleaned_def successively_append_iff)

lemma cleaned_clean_text: "cleaned (clean_text R v n)"
proof -
  define m where "m = map (\<lambda>c. if control_char c then CHR '' '' else c) (case v of Jnull \<Rightarrow> [] | _ \<Rightarrow> py_str R v)"
  have ct: "clean_text R v n = take n (strip (squeeze m))" by (simp add: clean_text_def m_def)
  obtain a b where ab: "squeeze m = a @ strip (squeeze m) @ b" using strip_infix by blast
  show ?thesis
  proof (rule cleaned_infix)
    show "squeeze m = a @ clean_text R v n @ (drop n (strip (squeeze m)) @ b)"
      using ab by (simp add: ct flip: append_assoc)
    show "successively (\<lambda>c d. \<not> (c = CHR '' '' \<and> d = CHR '' '')) (squeeze m)" by (rule squeeze_single)
    show "\<not> control_char c \<and> (py_space c \<longrightarrow> c = CHR '' '')" if "c \<in> set (squeeze m)" for c
    proof -
      have "\<not> control_char d" if "d \<in> set m" for d
        using that by (auto simp: m_def control_char_def split: if_split_asm)
      moreover have "\<not> control_char (CHR '' '')" by (simp add: control_char_def)
      ultimately have "\<not> control_char c" using that set_squeeze by blast
      then show ?thesis using that squeeze_spaces by blast
    qed
    show "hd (clean_text R v n) \<noteq> CHR '' ''" if "clean_text R v n \<noteq> []"
    proof -
      have "0 < n" "strip (squeeze m) \<noteq> []" using that by (auto simp: ct)
      then have "\<not> py_space (hd (clean_text R v n))" using hd_strip by (simp add: ct hd_take)
      then show ?thesis using py_space_blank by auto
    qed
  qed
qed

section \<open>Types, ids\<close>

datatype service_form = Form_default | Form_comments | Form_mentions | Form_unsupported

fun form_value :: "service_form \<Rightarrow> string" where
  "form_value Form_default = ''default''"
| "form_value Form_comments = ''comments''"
| "form_value Form_mentions = ''mentions''"
| "form_value Form_unsupported = ''unsupported''"

definition map_service_type :: "(json \<Rightarrow> string) \<Rightarrow> json \<Rightarrow> service_form" where
  "map_service_type R raw =
     (let label = map (\<lambda>c. if c = CHR ''_'' then CHR '' '' else c) (lower (clean_text R raw 64))
      in if label = [] \<or> label = ''default'' then Form_default
         else if label = ''custom comments'' then Form_comments
         else if label \<in> set [''mentions custom list'', ''custom mentions''] then Form_mentions
         else Form_unsupported)"

definition slug_char :: "char \<Rightarrow> bool" where
  "slug_char c \<longleftrightarrow> is_digit c \<or> (of_char c :: nat) \<in> {97..122}"

text \<open>\<open>re.sub(r"[^a-z0-9]+", "_", s)\<close>.\<close>

function slugify :: "string \<Rightarrow> string" where
  "slugify [] = []"
| "slugify (c # s) =
     (if slug_char c then c # slugify s else CHR ''_'' # slugify (dropWhile (\<lambda>d. \<not> slug_char d) s))"
  by pat_completeness auto
termination
  by (relation "measure length") (auto intro: le_imp_less_Suc length_dropWhile_le)

definition strip_underscores :: "string \<Rightarrow> string" where
  "strip_underscores s =
     rev (dropWhile (\<lambda>c. c = CHR ''_'') (rev (dropWhile (\<lambda>c. c = CHR ''_'') s)))"

text \<open>\<open>D1\<close> is the SHA-1 hex digest.\<close>

definition category_id_for :: "(string \<Rightarrow> string) \<Rightarrow> string \<Rightarrow> string" where
  "category_id_for D1 category =
     (let slug = take 18 (strip_underscores (slugify (lower category)))
      in ''cat_'' @ (if slug = [] then ''other'' else slug) @ ''_'' @
         take 6 (D1 (lower (strip category))))"

definition service_id_for :: "string \<Rightarrow> string \<Rightarrow> string" where
  "service_id_for pid ext = take 64 (pid @ ''-'' @ ext)"

definition as_bool :: "json \<Rightarrow> bool" where
  "as_bool v = (case v of
     Jtext t \<Rightarrow> lower (strip t) \<in> set [''1'', ''true'', ''yes'', ''y''] | _ \<Rightarrow> truthy v)"

section \<open>Rows\<close>

record raw_service =
  raw_external_id :: json
  raw_name :: json
  raw_category :: json
  raw_rate :: json
  raw_min_qty :: json
  raw_max_qty :: json
  raw_service_type :: json
  raw_refill :: json
  raw_cancel :: json

record normalized_service =
  ns_external_id :: string
  ns_name :: string
  ns_category :: string
  ns_rate_per_1000_paise :: int
  ns_min_qty :: int
  ns_max_qty :: int
  ns_service_type :: service_form
  ns_raw_type :: string
  ns_refill :: bool
  ns_cancel :: bool

definition supported :: "normalized_service \<Rightarrow> bool" where
  "supported n \<longleftrightarrow> ns_service_type n \<noteq> Form_unsupported"

definition id_char :: "char \<Rightarrow> bool" where
  "id_char c \<longleftrightarrow> is_digit c \<or> (of_char c :: nat) \<in> {65..90} \<or> (of_char c :: nat) \<in> {97..122} \<or>
     c \<in> set ''_.-''"

definition ID_OK :: "string \<Rightarrow> bool" where
  "ID_OK = to_dollar (\<lambda>s. s \<noteq> [] \<and> list_all id_char s)"

text \<open>
  The numbers of a row: rate, bounds and exchange rate. A value that \<open>float\<close> or \<open>int\<close> rejects,
  with whatever exception, or a rate that is not finite, rejects the row.
\<close>

definition float_or_none :: "json \<Rightarrow> py_float option" where
  "float_or_none v = (case py_float_of v of Inl e \<Rightarrow> None | Inr x \<Rightarrow> Some x)"

definition int_or_reject :: "json \<Rightarrow> int option" where
  "int_or_reject v =
     Option.bind (float_or_none v) (\<lambda>x. case int_of_float x of Inl e \<Rightarrow> None | Inr i \<Rightarrow> Some i)"

definition finite_float :: "py_float \<Rightarrow> rat option" where
  "finite_float x = (case x of Fin r \<Rightarrow> Some r | _ \<Rightarrow> None)"

definition row_paise :: "rat \<Rightarrow> int \<Rightarrow> int \<Rightarrow> rat \<Rightarrow> int option" where
  "row_paise rate lo hi fx =
     (if rate < 0 \<or> MAX_RATE_PER_1000 < rate \<or> fx \<le> 0 \<or> 10000 < fx then None
      else if lo < 1 \<or> hi < lo \<or> 1000000000 < hi then None
      else let paise = py_round (f_mul (f_mul rate fx) 100)
           in if paise \<le> 0 then None else Some paise)"

definition normalize_service ::
  "(json \<Rightarrow> string) \<Rightarrow> rat \<Rightarrow> raw_service \<Rightarrow> normalized_service option" where
  "normalize_service R fx raw =
     (let ext = clean_text R (raw_external_id raw) 64; nm = clean_text R (raw_name raw) MAX_NAME_LEN;
          cat = clean_text R (raw_category raw) MAX_CATEGORY_LEN
      in if ext = [] \<or> MAX_EXTERNAL_ID_LEN < length ext \<or> \<not> ID_OK ext then None
         else if nm = [] then None
         else Option.bind (float_or_none (raw_rate raw)) (\<lambda>rate.
           Option.bind (int_or_reject (raw_min_qty raw)) (\<lambda>lo.
           Option.bind (int_or_reject (raw_max_qty raw)) (\<lambda>hi.
           Option.bind (finite_float rate) (\<lambda>rate.
           Option.bind (row_paise rate lo hi fx) (\<lambda>paise.
             let raw_type = clean_text R (raw_service_type raw) 64
             in Some \<lparr>ns_external_id = ext, ns_name = nm,
                  ns_category = (if cat = [] then ''Other'' else cat),
                  ns_rate_per_1000_paise = paise, ns_min_qty = lo, ns_max_qty = hi,
                  ns_service_type = map_service_type R (Jtext raw_type), ns_raw_type = raw_type,
                  ns_refill = as_bool (raw_refill raw), ns_cancel = as_bool (raw_cancel raw)\<rparr>))))))"

section \<open>Suspicious responses\<close>

definition looks_malformed :: "nat \<Rightarrow> nat \<Rightarrow> nat \<Rightarrow> string option" where
  "looks_malformed previous valid invalid =
     (let total = valid + invalid
      in if valid = 0 then Some ''provider returned no valid services''
         else if 10 \<le> total \<and> fl64 (3 / 10) < fl64 (of_nat invalid / of_nat total)
         then Some (str_int (int invalid) @ ''/'' @ str_int (int total) @ '' provider rows failed validation'')
         else if 20 \<le> previous \<and> of_nat valid < f_mul (f_of_int (int previous)) (1 / 2)
         then Some (''service count dropped from '' @ str_int (int previous) @ '' to '' @ str_int (int valid))
         else None)"

section \<open>Accepted rows\<close>

lemma row_paise_Some:
  "row_paise rate lo hi fx = Some paise \<Longrightarrow>
   0 \<le> rate \<and> rate \<le> MAX_RATE_PER_1000 \<and> 0 < fx \<and> fx \<le> 10000 \<and>
   1 \<le> lo \<and> lo \<le> hi \<and> hi \<le> 1000000000 \<and> paise = py_round (f_mul (f_mul rate fx) 100) \<and> 0 < paise"
  by (auto simp: row_paise_def Let_def split: if_split_asm)

lemma cleaned_other: "cleaned ''Other''" by code_simp

lemma normalize_service_Some:
  assumes "normalize_service R fx raw = Some n"
  obtains rate where "ns_external_id n = clean_text R (raw_external_id raw) 64"
    "ns_external_id n \<noteq> []" "length (ns_external_id n) \<le> 24" "ID_OK (ns_external_id n)"
    "ns_name n = clean_text R (raw_name raw) 160" "ns_name n \<noteq> []" "ns_category n \<noteq> []"
    "length (ns_category n) \<le> 120" "cleaned (ns_category n)"
    "ns_raw_type n = clean_text R (raw_service_type raw) 64"
    "row_paise rate (ns_min_qty n) (ns_max_qty n) fx = Some (ns_rate_per_1000_paise n)"
  using assms length_clean_text [of R "raw_category raw" 120] cleaned_clean_text [of R "raw_category raw" 120] cleaned_other
  by (auto simp: normalize_service_def Let_def MAX_EXTERNAL_ID_LEN_def MAX_NAME_LEN_def
      MAX_CATEGORY_LEN_def bind_eq_Some_conv not_less split: if_split_asm)

text \<open>The largest price of an accepted row: the top rate at the top exchange rate.\<close>

lemma row_paise_le:
  assumes "row_paise rate lo hi fx = Some paise"
  shows "paise \<le> 10000000000000"
proof -
  have r: "0 \<le> rate" "rate \<le> 10000000" "0 < fx" "fx \<le> 10000" and p: "paise = py_round (f_mul (f_mul rate fx) 100)"
    using row_paise_Some [OF assms] by (simp_all add: MAX_RATE_PER_1000_def)
  have "rate * fx \<le> 10000000 * 10000" using r by (intro mult_mono) auto
  then have "fl64 (rate * fx) \<le> of_int 100000000000"
    using double.fl_le_int [of 100000000000 "rate * fx"] by simp
  then have "fl64 (rate * fx) * 100 \<le> of_int 10000000000000" by simp
  then have "fl64 (fl64 (rate * fx) * 100) \<le> of_int 10000000000000"
    by (intro double.fl_le_int) simp_all
  then show ?thesis
    using round_half_even_le_int by (simp add: p float_ops)
qed

text \<open>
  C18: What an accepted row guarantees. Whatever JSON a provider sends for a service, a row that is
  accepted has a non-empty external id of at most 24 characters, a non-empty name of at most 160, a
  non-empty category of at most 120 and a type of at most 64 characters, all of them cleaned: without
  control characters, without space other than single blanks, and without space in front; the
  external id consists of letters, digits and \<open>_.-\<close>. The quantity limits satisfy
  \<open>1 \<le> min \<le> max \<le> 10\<^sup>9\<close>, and the price is positive and at most 10^13 paise.
\<close>

theorem normalized_service_bounds:
  assumes "normalize_service R fx raw = Some n"
  shows "ns_external_id n \<noteq> [] \<and> length (ns_external_id n) \<le> 24 \<and> ns_name n \<noteq> [] \<and>
    length (ns_name n) \<le> 160 \<and> ns_category n \<noteq> [] \<and> length (ns_category n) \<le> 120 \<and> length (ns_raw_type n) \<le> 64 \<and>
    (\<forall>t \<in> {ns_external_id n, ns_name n, ns_category n, ns_raw_type n}. cleaned t) \<and>
    (\<forall>c \<in> set (ns_external_id n @ ns_name n). \<not> control_char c \<and> (c \<in> set (ns_external_id n) \<longrightarrow> id_char c)) \<and>
    1 \<le> ns_min_qty n \<and> ns_min_qty n \<le> ns_max_qty n \<and> ns_max_qty n \<le> 1000000000 \<and>
    0 < ns_rate_per_1000_paise n \<and> ns_rate_per_1000_paise n \<le> 10000000000000"
proof -
  obtain rate where e: "ns_external_id n = clean_text R (raw_external_id raw) 64"
    "ns_external_id n \<noteq> []" "length (ns_external_id n) \<le> 24" and ok: "ID_OK (ns_external_id n)"
    and nm: "ns_name n = clean_text R (raw_name raw) 160" "ns_name n \<noteq> []"
    and cat: "ns_category n \<noteq> []" "length (ns_category n) \<le> 120" "cleaned (ns_category n)"
    and ty: "ns_raw_type n = clean_text R (raw_service_type raw) 64"
    and p: "row_paise rate (ns_min_qty n) (ns_max_qty n) fx = Some (ns_rate_per_1000_paise n)"
    using assms by (rule normalize_service_Some) blast
  have all_clean: "\<forall>t \<in> {ns_external_id n, ns_name n, ns_category n, ns_raw_type n}. cleaned t"
    using cat(3) cleaned_clean_text by (auto simp: e(1) nm(1) ty)
  have clean: "\<not> control_char c" if "c \<in> set (ns_external_id n @ ns_name n)" for c
    using that clean_text_printable by (auto simp: e(1) nm(1))
  have "list_all id_char (ns_external_id n)"
  proof -
    have "newline \<noteq> drop k (ns_external_id n)" for k
    proof
      assume "newline = drop k (ns_external_id n)"
      then have "char_of (10::nat) \<in> set (ns_external_id n)"
        by (metis in_set_dropD list.set_intros(1) newline_def)
      with clean have "\<not> control_char (char_of (10::nat))" by simp
      then show False by (simp add: control_char_def)
    qed
    then have "ns_external_id n \<noteq> t @ newline" for t
      by (metis append_eq_conv_conj)
    with ok show ?thesis by (auto simp: ID_OK_def to_dollar_def)
  qed
  then show ?thesis
    using e nm cat ty clean all_clean row_paise_Some [OF p] row_paise_le [OF p] length_clean_text
    by (auto simp: list_all_iff)
qed

section \<open>The thresholds are exact\<close>

lemma fl64_err_small: "0 \<le> x \<Longrightarrow> x \<le> 1 \<Longrightarrow> \<bar>fl64 x - x\<bar> \<le> 1 / 2 ^ 53"
proof -
  assume "0 \<le> x" and "x \<le> 1"
  then have "\<bar>x\<bar> / 2 ^ 53 \<le> 1 / 2 ^ 53" by (simp add: divide_right_mono)
  moreover have "tiny \<le> 1 / 2 ^ 53" using tiny_le by (simp add: field_simps)
  ultimately show ?thesis using fl64_err [of x] by linarith
qed

lemma invalid_share_exact:
  fixes i t :: nat
  assumes "i \<le> t" and "0 < t" and "t < 2 ^ 40"
  shows "fl64 (3 / 10) < fl64 (of_nat i / of_nat t) \<longleftrightarrow> 3 * t < 10 * i"
proof
  assume "fl64 (3 / 10) < fl64 (of_nat i / of_nat t)"
  then have "\<not> (of_nat i / of_nat t \<le> (3 / 10 :: rat))" using fl64_mono leD by blast
  then have "3 * of_nat t < (10 * of_nat i :: rat)" using assms(2) by (simp add: field_simps)
  then have "of_nat (3 * t) < (of_nat (10 * i) :: rat)" by simp
  then show "3 * t < 10 * i" by (simp only: of_nat_less_iff)
next
  assume "3 * t < 10 * i"
  then have "of_nat (3 * t + 1) \<le> (of_nat (10 * i) :: rat)" by (simp only: of_nat_le_iff)
  then have "3 * of_nat t + 1 \<le> (10 * of_nat i :: rat)" by simp
  moreover have t: "0 < (of_nat t :: rat)" using assms(2) by simp
  ultimately have "(3 * of_nat t + 1) / (10 * of_nat t) \<le> (10 * of_nat i / (10 * of_nat t) :: rat)"
    by (intro divide_right_mono) simp_all
  with t have gap: "3 / 10 + 1 / (10 * of_nat t) \<le> (of_nat i / of_nat t :: rat)"
    by (simp add: add_divide_distrib)
  have "(of_nat t :: rat) < of_nat (2 ^ 40)" using assms(3) by (simp only: of_nat_less_iff)
  then have "1 / (10 * 2 ^ 40) < (1 / (10 * of_nat t) :: rat)"
    using t by (intro divide_strict_left_mono) auto
  moreover have "2 / 2 ^ 53 \<le> (1 / (10 * 2 ^ 40) :: rat)" by simp
  moreover have "of_nat i / of_nat t \<le> (1 :: rat)" "0 \<le> (of_nat i / of_nat t :: rat)"
    using assms(1) t by (simp_all add: divide_le_eq_1)
  ultimately show "fl64 (3 / 10) < fl64 (of_nat i / of_nat t)"
    using gap fl64_err_small [of "3 / 10"] fl64_err_small [of "of_nat i / of_nat t"] by linarith
qed

lemma half_drop_exact:
  assumes "p < 2 ^ 50"
  shows "of_nat v < f_mul (f_of_int (int p)) (1 / 2) \<longleftrightarrow> 2 * v < p"
proof -
  have "fl64 (of_int (int p)) = of_int (int p)" using assms by (intro fl64_int) simp
  then have m: "f_mul (f_of_int (int p)) (1 / 2) = fl64 (of_nat p / 2)" by (simp add: float_ops)
  have "of_nat v < fl64 (of_nat p / 2) \<longleftrightarrow> 2 * v < p"
  proof
    assume *: "of_nat v < fl64 (of_nat p / 2)"
    show "2 * v < p"
    proof (rule ccontr)
      assume le: "\<not> 2 * v < p"
      show False
      proof (cases "v < 2 ^ 50")
        case True
        have "of_nat p \<le> (of_nat (2 * v) :: rat)" using le by (simp only: of_nat_le_iff)
        then have "fl64 (of_nat p / 2) \<le> of_int (int v)"
          using True by (intro double.fl_le_int) simp_all
        with * show False by simp
      next
        case False
        then have "of_nat p \<le> (of_nat v :: rat)" using assms by simp
        moreover have "of_nat p / 2 \<le> (of_nat p :: rat)" by simp
        moreover have "fl64 (of_nat p / 2) \<le> of_int (int p)"
          using assms by (intro double.fl_le_int) simp_all
        ultimately show False using * by simp
      qed
    qed
  next
    assume "2 * v < p"
    then have "of_nat (2 * v + 1) \<le> (of_nat p :: rat)" by (simp only: of_nat_le_iff)
    then have "of_nat v + 1 / 2 \<le> (of_nat p / 2 :: rat)" by simp
    moreover have "(of_nat p :: rat) < of_nat (2 ^ 50)" using assms by (simp only: of_nat_less_iff)
    then have "\<bar>of_nat p / 2 :: rat\<bar> / 2 ^ 53 < 1 / 4" by simp
    moreover have "tiny < 1 / 4" using tiny_le by (simp add: field_simps)
    ultimately show "of_nat v < fl64 (of_nat p / 2)"
      using fl64_err [of "of_nat p / 2"] by linarith
  qed
  then show ?thesis by (simp add: m)
qed

text \<open>
  The guard against a bad response decides exact fractions. For catalogs of any realistic size
  a response is let through exactly when it has a valid row, not (ten rows or more with over three
  tenths of them invalid), and not (twenty or more services before and fewer than half of them
  now): the floating-point comparisons never differ from the exact ones.
\<close>

theorem looks_malformed_exact:
  assumes "valid + invalid < 2 ^ 40" and "previous < 2 ^ 50"
  shows "looks_malformed previous valid invalid = None \<longleftrightarrow>
    0 < valid \<and> \<not> (10 \<le> valid + invalid \<and> 3 * (valid + invalid) < 10 * invalid) \<and>
    \<not> (20 \<le> previous \<and> 2 * valid < previous)"
proof (cases "valid = 0")
  case True
  then show ?thesis by (simp add: looks_malformed_def)
next
  case False
  then show ?thesis
    using invalid_share_exact [of invalid "valid + invalid"] half_drop_exact [OF assms(2), of valid] assms(1)
    by (simp add: looks_malformed_def Let_def)
qed

theorem looks_malformed_exact_witness:
  "looks_malformed 100 60 20 = None \<and> looks_malformed 100 7 3 \<noteq> None"
  using looks_malformed_exact [of 60 20 100] looks_malformed_exact [of 7 3 100] by simp

definition sample_raw :: raw_service where
  "sample_raw = \<lparr>raw_external_id = Jtext '' 42 '', raw_name = Jtext ''Likes'', raw_category = Jtext (''For  '' @ newline @ ''fun''),
     raw_rate = Jint 12, raw_min_qty = Jint 10, raw_max_qty = Jint 1000, raw_service_type = Jtext ''Default'',
     raw_refill = Jbool True, raw_cancel = Jtext ''no''\<rparr>"

lemma sample_normalized:
  "\<exists>n. normalize_service (\<lambda>_. []) 1 sample_raw = Some n \<and> ns_external_id n = ''42'' \<and> ns_category n = ''For fun'' \<and>
     ns_rate_per_1000_paise n = 1200 \<and> \<not> ns_cancel n"
proof -
  have texts: "clean_text (\<lambda>_. []) (Jtext '' 42 '') 64 = ''42''" "clean_text (\<lambda>_. []) (Jtext ''Likes'') 160 = ''Likes''"
    "clean_text (\<lambda>_. []) (Jtext (''For  '' @ newline @ ''fun'')) 120 = ''For fun''" "ID_OK ''42''" "as_bool (Jtext ''no'') = False"
    by code_simp+
  have "float_or_none (Jint 12) = Some (Fin 12)" "int_or_reject (Jint 10) = Some 10" "int_or_reject (Jint 1000) = Some 1000"
    "finite_float (Fin 12) = Some 12" "row_paise 12 10 1000 1 = Some 1200"
    by code_simp+
  with texts(4,5) show ?thesis
    unfolding normalize_service_def sample_raw_def Let_def raw_service.simps MAX_EXTERNAL_ID_LEN_def MAX_NAME_LEN_def
      MAX_CATEGORY_LEN_def texts
    by simp
qed

theorem normalized_service_bounds_witness:
  "\<exists>n. normalize_service (\<lambda>_. []) 1 sample_raw = Some n \<and> ns_category n = ''For fun'' \<and> cleaned (ns_category n) \<and>
     0 < ns_rate_per_1000_paise n \<and> ns_min_qty n \<le> ns_max_qty n"
proof -
  obtain n where n: "normalize_service (\<lambda>_. []) 1 sample_raw = Some n" "ns_category n = ''For fun''"
    using sample_normalized by blast
  from normalized_service_bounds [OF n(1)] n show ?thesis by auto
qed

end
