(* ===== verification/Sync.thy ===== *)
theory Sync
  imports SyncNormalize Catalog
begin

text \<open>
  \<open>app/sync.py\<close>: the synchronisation of a provider's catalogue. The provider's answer (what
  \<open>adapter_for\<close> and \<open>get_services\<close> gave) is an argument, and so are SHA-1 and the text \<open>G\<close> of the
  few symbols outside Latin-1 that the messages contain. The lemmas prove the guarantees that the
  module's documentation lists.
\<close>

section \<open>Reports\<close>

datatype change_kind = Ch_new | Ch_rate | Ch_limits | Ch_removed | Ch_restored | Ch_name | Ch_capabilities

fun kind_value :: "change_kind \<Rightarrow> string" where
  "kind_value Ch_new = ''new''"
| "kind_value Ch_rate = ''rate''"
| "kind_value Ch_limits = ''limits''"
| "kind_value Ch_removed = ''removed''"
| "kind_value Ch_restored = ''restored''"
| "kind_value Ch_name = ''name''"
| "kind_value Ch_capabilities = ''capabilities''"

record change =
  ch_service_id :: string
  ch_name :: string
  ch_kind :: change_kind
  ch_old :: string
  ch_new :: string

record sync_report =
  rep_provider_id :: string
  rep_status :: string
  rep_detail :: string
  rep_added :: int
  rep_updated :: int
  rep_removed :: int
  rep_restored :: int
  rep_unchanged :: int
  rep_skipped_invalid :: int
  rep_unsupported_new :: int
  rep_changes :: "change list"

definition new_report :: "string \<Rightarrow> sync_report" where
  "new_report pid =
     \<lparr>rep_provider_id = pid, rep_status = ''ok'', rep_detail = [], rep_added = 0, rep_updated = 0,
      rep_removed = 0, rep_restored = 0, rep_unchanged = 0, rep_skipped_invalid = 0,
      rep_unsupported_new = 0, rep_changes = []\<rparr>"

text \<open>The symbols of the messages: each name stands for one character or emoji.\<close>

datatype glyph = Em_dash | Arrow | Rupee | Warning_sign | Cycle_sign | Bullet | Ellipsis

definition change_line :: "(glyph \<Rightarrow> string) \<Rightarrow> change \<Rightarrow> string" where
  "change_line G c =
     ''['' @ kind_value (ch_kind c) @ ''] '' @ take 48 (ch_name c) @ '' ('' @ ch_service_id c @ '')'' @
     (if ch_old c \<noteq> [] \<or> ch_new c \<noteq> [] then '' '' @ ch_old c @ '' '' @ G Arrow @ '' '' @ ch_new c else [])"

definition material :: "sync_report \<Rightarrow> change list" where
  "material rep = filter (\<lambda>c. ch_kind c \<in> set [Ch_rate, Ch_limits, Ch_removed, Ch_restored]) (rep_changes rep)"

definition summary :: "(glyph \<Rightarrow> string) \<Rightarrow> sync_report \<Rightarrow> string" where
  "summary G rep =
     rep_provider_id rep @ '': '' @ rep_status rep @ '' '' @ G Em_dash @ '' +'' @ str_int (rep_added rep) @
     '' new, ~'' @ str_int (rep_updated rep) @ '' changed, -'' @ str_int (rep_removed rep) @ '' removed, '' @
     str_int (rep_restored rep) @ '' restored, '' @ str_int (rep_skipped_invalid rep) @ '' invalid'' @
     (if rep_detail rep = [] then [] else '' ('' @ rep_detail rep @ '')'')"

text \<open>\<open>f"{paise / 100:,.2f}"\<close>: the quotient is a double, printed with its exact second decimal.\<close>

fun commas_rev :: "string \<Rightarrow> string" where
  "commas_rev (a # b # c # d # s) = a # b # c # CHR '','' # commas_rev (d # s)"
| "commas_rev s = s"

definition two_digits :: "nat \<Rightarrow> string" where
  "two_digits n = [char_of (48 + n div 10), char_of (48 + n mod 10)]"

definition money_text :: "int \<Rightarrow> string" where
  "money_text paise =
     (let c = round_half_even (fl64 (of_int paise / 100) * 100); a = nat \<bar>c\<bar>
      in (if c < 0 then ''-'' else []) @ rev (commas_rev (rev (digits_nat (a div 100)))) @ ''.'' @
         two_digits (a mod 100))"

definition fmt_rate :: "(glyph \<Rightarrow> string) \<Rightarrow> int \<Rightarrow> string" where
  "fmt_rate G paise = G Rupee @ money_text paise @ ''/1k''"

section \<open>Rows\<close>

text \<open>What the adapter reports, as the raw row that is validated.\<close>

definition raw_of :: "provider_service \<Rightarrow> raw_service" where
  "raw_of item =
     \<lparr>raw_external_id = Jtext (ps_external_id item), raw_name = Jtext (ps_name item),
      raw_category = Jtext (ps_category item), raw_rate = Jfloat (ps_rate item),
      raw_min_qty = Jint (ps_min_qty item), raw_max_qty = Jint (ps_max_qty item),
      raw_service_type = Jtext (ps_service_type item), raw_refill = Jbool (ps_refill item),
      raw_cancel = Jbool (ps_cancel item)\<rparr>"

text \<open>The valid rows by external id (the last of equal ids counts) and the number of invalid ones.\<close>

fun valid_rows ::
  "(json \<Rightarrow> string) \<Rightarrow> rat \<Rightarrow> provider_service list \<Rightarrow> (string \<times> normalized_service) list \<Rightarrow> nat
    \<Rightarrow> (string \<times> normalized_service) list \<times> nat" where
  "valid_rows R fx [] rows invalid = (rows, invalid)"
| "valid_rows R fx (item # items) rows invalid =
     (case normalize_service R fx (raw_of item) of
        None \<Rightarrow> valid_rows R fx items rows (invalid + 1)
      | Some n \<Rightarrow> valid_rows R fx items (dict_set (ns_external_id n) n rows) invalid)"

definition provider_services :: "db \<Rightarrow> string \<Rightarrow> service_row list" where
  "provider_services s pid = filter (\<lambda>svc. s_provider_id svc = pid) (all_services s)"

text \<open>\<open>by_external\<close>: the id of the provider's service with an external id, the last one of equals.\<close>

definition by_external :: "service_row list \<Rightarrow> (string \<times> string) list" where
  "by_external rows = foldl (\<lambda>d svc. dict_set (s_provider_service_id svc) (s_id svc) d) [] rows"

definition update_service :: "string \<Rightarrow> (service_row \<Rightarrow> service_row) \<Rightarrow> db \<Rightarrow> db" where
  "update_service sid f s = s\<lparr>services := (services s)(sid := map_option f (services s sid))\<rparr>"

section \<open>Categories\<close>

definition ensure_category :: "(string \<Rightarrow> string) \<Rightarrow> string \<Rightarrow> bool \<Rightarrow> db \<Rightarrow> string \<times> db" where
  "ensure_category D1 nm active s =
     (let cid = category_id_for D1 nm
      in case categories s cid of
           None \<Rightarrow> (cid, s\<lparr>categories := (categories s)(cid \<mapsto>
               \<lparr>c_id = cid, c_name = take 80 nm, c_sort_order = 1000, c_is_active = active,
                c_markup_percent = None, c_markup_fixed_paise = None\<rparr>),
             category_ids := category_ids s @ [cid]\<rparr>)
         | Some cat \<Rightarrow> (cid, if active \<and> \<not> c_is_active cat
             then s\<lparr>categories := (categories s)(cid \<mapsto> cat\<lparr>c_is_active := True\<rparr>)\<rparr> else s))"

section \<open>A new service\<close>

definition new_service ::
  "string \<Rightarrow> int \<Rightarrow> string \<Rightarrow> bool \<Rightarrow> string \<Rightarrow> normalized_service \<Rightarrow> service_row" where
  "new_service pid now cid activate ext n =
     \<lparr>s_id = service_id_for pid ext, s_category_id = cid, s_provider_id = pid,
      s_provider_service_id = ext, s_name = ns_name n, s_description = None,
      s_service_type = form_value (ns_service_type n), s_min_qty = ns_min_qty n,
      s_max_qty = ns_max_qty n, rate_per_1000_paise = ns_rate_per_1000_paise n,
      s_markup_percent = None, s_markup_fixed_paise = None, s_is_active = activate,
      s_is_refillable = ns_refill n, s_is_cancelable = ns_cancel n, s_average_time = None,
      s_external_name = Some (ns_name n), s_external_category = Some (ns_category n),
      s_is_removed_upstream = False, s_last_synced_at = Some now\<rparr>"

definition insert_service :: "service_row \<Rightarrow> db \<Rightarrow> db res" where
  "insert_service svc s =
     (if services s (s_id svc) \<noteq> None then Inl (IntegrityError ''services.id'')
      else Inr (s\<lparr>services := (services s)(s_id svc \<mapsto> svc), service_ids := service_ids s @ [s_id svc]\<rparr>))"

definition add_service ::
  "(glyph \<Rightarrow> string) \<Rightarrow> (string \<Rightarrow> string) \<Rightarrow> int \<Rightarrow> bool \<Rightarrow> string \<Rightarrow> string \<Rightarrow> normalized_service
    \<Rightarrow> sync_report \<times> db \<Rightarrow> (sync_report \<times> db) res" where
  "add_service G D1 now auto pid ext n = (\<lambda>(rep, s).
     let activate = (auto \<and> supported n);
         (cid, s) = ensure_category D1 (ns_category n) activate s
     in e_bind (insert_service (new_service pid now cid activate ext n) s) (\<lambda>s. Inr
          (rep\<lparr>rep_added := rep_added rep + 1,
               rep_unsupported_new := rep_unsupported_new rep + (if supported n then 0 else 1),
               rep_changes := rep_changes rep @ [\<lparr>ch_service_id = service_id_for pid ext,
                 ch_name = ns_name n, ch_kind = Ch_new, ch_old = [],
                 ch_new = fmt_rate G (ns_rate_per_1000_paise n)\<rparr>]\<rparr>, s)))"

section \<open>A known service\<close>

definition rate_differs :: "normalized_service \<Rightarrow> service_row \<Rightarrow> bool" where
  "rate_differs n svc \<longleftrightarrow> rate_per_1000_paise svc \<noteq> ns_rate_per_1000_paise n"

definition limits_differ :: "normalized_service \<Rightarrow> service_row \<Rightarrow> bool" where
  "limits_differ n svc \<longleftrightarrow> s_min_qty svc \<noteq> ns_min_qty n \<or> s_max_qty svc \<noteq> ns_max_qty n"

definition capabilities_differ :: "normalized_service \<Rightarrow> service_row \<Rightarrow> bool" where
  "capabilities_differ n svc \<longleftrightarrow> s_is_refillable svc \<noteq> ns_refill n \<or> s_is_cancelable svc \<noteq> ns_cancel n"

definition type_differs :: "normalized_service \<Rightarrow> service_row \<Rightarrow> bool" where
  "type_differs n svc \<longleftrightarrow> s_service_type svc \<noteq> form_value (ns_service_type n)"

definition name_differs :: "normalized_service \<Rightarrow> service_row \<Rightarrow> bool" where
  "name_differs n svc \<longleftrightarrow> s_external_name svc \<noteq> Some (ns_name n)"

text \<open>The name follows upstream while no administrator has edited it.\<close>

definition followed_name :: "normalized_service \<Rightarrow> service_row \<Rightarrow> string" where
  "followed_name n svc =
     (if name_differs n svc \<and> (s_external_name svc = None \<or> s_external_name svc = Some (s_name svc))
      then ns_name n else s_name svc)"

definition merge_service :: "int \<Rightarrow> normalized_service \<Rightarrow> service_row \<Rightarrow> service_row" where
  "merge_service now n svc =
     svc\<lparr>s_is_removed_upstream := False, rate_per_1000_paise := ns_rate_per_1000_paise n,
         s_min_qty := ns_min_qty n, s_max_qty := ns_max_qty n, s_is_refillable := ns_refill n,
         s_is_cancelable := ns_cancel n, s_service_type := form_value (ns_service_type n),
         s_is_active := (if type_differs n svc \<and> \<not> supported n then False else s_is_active svc),
         s_name := followed_name n svc, s_external_name := Some (ns_name n),
         s_external_category := Some (ns_category n), s_last_synced_at := Some now\<rparr>"

definition change_if :: "bool \<Rightarrow> string \<Rightarrow> string \<Rightarrow> change_kind \<Rightarrow> string \<Rightarrow> string \<Rightarrow> change list" where
  "change_if b sid nm k old new =
     (if b then [\<lparr>ch_service_id = sid, ch_name = nm, ch_kind = k, ch_old = old, ch_new = new\<rparr>] else [])"

definition limits_text :: "int \<Rightarrow> int \<Rightarrow> string" where
  "limits_text lo hi = str_int lo @ ''-'' @ str_int hi"

definition merge_changes :: "(glyph \<Rightarrow> string) \<Rightarrow> normalized_service \<Rightarrow> service_row \<Rightarrow> change list" where
  "merge_changes G n svc =
     change_if (s_is_removed_upstream svc) (s_id svc) (s_name svc) Ch_restored [] [] @
     change_if (rate_differs n svc) (s_id svc) (s_name svc) Ch_rate
       (fmt_rate G (rate_per_1000_paise svc)) (fmt_rate G (ns_rate_per_1000_paise n)) @
     change_if (limits_differ n svc) (s_id svc) (s_name svc) Ch_limits
       (limits_text (s_min_qty svc) (s_max_qty svc)) (limits_text (ns_min_qty n) (ns_max_qty n)) @
     change_if (capabilities_differ n svc) (s_id svc) (s_name svc) Ch_capabilities [] [] @
     change_if (name_differs n svc) (s_id svc) (followed_name n svc) Ch_name
       (case s_external_name svc of None \<Rightarrow> [] | Some x \<Rightarrow> x) (ns_name n)"

definition merge_changed :: "normalized_service \<Rightarrow> service_row \<Rightarrow> bool" where
  "merge_changed n svc \<longleftrightarrow>
     s_is_removed_upstream svc \<or> rate_differs n svc \<or> limits_differ n svc \<or>
     capabilities_differ n svc \<or> type_differs n svc \<or> name_differs n svc"

definition merge_report ::
  "(glyph \<Rightarrow> string) \<Rightarrow> normalized_service \<Rightarrow> service_row \<Rightarrow> sync_report \<Rightarrow> sync_report" where
  "merge_report G n svc rep =
     rep\<lparr>rep_restored := rep_restored rep + (if s_is_removed_upstream svc then 1 else 0),
         rep_updated := rep_updated rep + (if merge_changed n svc then 1 else 0),
         rep_unchanged := rep_unchanged rep + (if merge_changed n svc then 0 else 1),
         rep_changes := rep_changes rep @ merge_changes G n svc\<rparr>"

section \<open>The synchronisation\<close>

record sync_env =
  se_glyph :: "glyph \<Rightarrow> string"
  se_sha1 :: "string \<Rightarrow> string"
  se_str :: "json \<Rightarrow> string"
  se_now :: int

definition sync_row ::
  "sync_env \<Rightarrow> bool \<Rightarrow> string \<Rightarrow> (string \<times> string) list \<Rightarrow> string \<times> normalized_service
    \<Rightarrow> sync_report \<times> db \<Rightarrow> (sync_report \<times> db) res" where
  "sync_row env auto pid known = (\<lambda>(ext, n) (rep, s).
     case Option.bind (map_of known ext) (services s) of
       None \<Rightarrow> add_service (se_glyph env) (se_sha1 env) (se_now env) auto pid ext n (rep, s)
     | Some svc \<Rightarrow> Inr (merge_report (se_glyph env) n svc rep,
         update_service (s_id svc) (merge_service (se_now env) n) s))"

fun sync_rows ::
  "sync_env \<Rightarrow> bool \<Rightarrow> string \<Rightarrow> (string \<times> string) list \<Rightarrow> (string \<times> normalized_service) list
    \<Rightarrow> sync_report \<times> db \<Rightarrow> (sync_report \<times> db) res" where
  "sync_rows env auto pid known [] st = Inr st"
| "sync_rows env auto pid known (row # rows) st =
     e_bind (sync_row env auto pid known row st) (\<lambda>st. sync_rows env auto pid known rows st)"

text \<open>A known service that is no longer listed is deactivated, never deleted.\<close>

definition retire_service :: "service_row \<Rightarrow> service_row" where
  "retire_service svc = svc\<lparr>s_is_removed_upstream := True, s_is_active := False\<rparr>"

fun retire_missing ::
  "(string \<times> normalized_service) list \<Rightarrow> (string \<times> string) list \<Rightarrow> sync_report \<times> db
    \<Rightarrow> sync_report \<times> db" where
  "retire_missing rows [] st = st"
| "retire_missing rows ((ext, sid) # known) (rep, s) =
     (case services s sid of
        None \<Rightarrow> retire_missing rows known (rep, s)
      | Some svc \<Rightarrow>
        if map_of rows ext \<noteq> None \<or> s_is_removed_upstream svc then retire_missing rows known (rep, s)
        else retire_missing rows known
          (rep\<lparr>rep_changes := rep_changes rep @
                 change_if (s_is_active svc) (s_id svc) (s_name svc) Ch_removed [] [],
               rep_removed := rep_removed rep + 1\<rparr>,
           update_service sid retire_service s))"

definition start_run :: "string \<Rightarrow> db \<Rightarrow> db" where
  "start_run pid s = s\<lparr>sync_runs := sync_runs s @
     [\<lparr>run_provider_id = pid, run_status = ''ok'', run_added = 0, run_updated = 0, run_removed = 0,
       run_skipped_invalid = 0, run_detail = None\<rparr>]\<rparr>"

definition finish_run :: "sync_report \<Rightarrow> sync_run \<Rightarrow> sync_run" where
  "finish_run rep r =
     r\<lparr>run_status := rep_status rep, run_added := rep_added rep, run_updated := rep_updated rep,
       run_removed := rep_removed rep, run_skipped_invalid := rep_skipped_invalid rep,
       run_detail := (if rep_detail rep = [] then None else Some (take 255 (rep_detail rep)))\<rparr>"

text \<open>The run at hand is the last row of its table.\<close>

definition finish_sync :: "sync_env \<Rightarrow> string \<Rightarrow> sync_report \<Rightarrow> db \<Rightarrow> sync_report \<times> db" where
  "finish_sync env pid rep s =
     (let s = s\<lparr>sync_runs := butlast (sync_runs s) @ [finish_run rep (last (sync_runs s))],
                providers := (providers s)(pid := map_option (\<lambda>p. p\<lparr>p_last_sync_at := Some (se_now env),
                  p_last_sync_status := Some (take 160 (summary (se_glyph env) rep))\<rparr>) (providers s pid))\<rparr>
      in (rep, if rep_status rep = ''ok'' \<and> (rep_added rep \<noteq> 0 \<or> rep_updated rep \<noteq> 0 \<or> rep_removed rep \<noteq> 0)
          then audit ''system'' ''provider.sync'' (Some pid) None s else s))"

definition provider_fx :: "provider_row \<Rightarrow> rat" where
  "provider_fx p = (if p_fx_to_inr p = 0 then 1 else p_fx_to_inr p)"

text \<open>What follows once the provider has answered.\<close>

definition sync_answer ::
  "sync_env \<Rightarrow> provider_row \<Rightarrow> provider_service list \<Rightarrow> db \<Rightarrow> (sync_report \<times> db) res" where
  "sync_answer env p upstream s =
     (let (rows, invalid) = valid_rows (se_str env) (provider_fx p) upstream [] 0;
          rep = (new_report (p_id p))\<lparr>rep_skipped_invalid := int invalid\<rparr>;
          existing_rows = provider_services s (p_id p);
          known = by_external existing_rows;
          previous_live = length (filter (\<lambda>svc. \<not> s_is_removed_upstream svc) existing_rows)
      in case looks_malformed previous_live (length rows) invalid of
           Some why \<Rightarrow> Inr (finish_sync env (p_id p)
             (rep\<lparr>rep_status := ''aborted'', rep_detail := ''kept last trusted snapshot: '' @ why\<rparr>) s)
         | None \<Rightarrow> e_bind (sync_rows env (p_auto_activate_new p) (p_id p) known rows (rep, s)) (\<lambda>st.
             let (rep, s) = retire_missing rows known st in Inr (finish_sync env (p_id p) rep s)))"

definition sync_provider ::
  "sync_env \<Rightarrow> provider_row \<Rightarrow> provider_service list res \<Rightarrow> db \<Rightarrow> (sync_report \<times> db) res" where
  "sync_provider env p answer s =
     (let s = start_run (p_id p) s;
          failed = (\<lambda>m. Inr (finish_sync env (p_id p) ((new_report (p_id p))\<lparr>rep_status := ''error'',
            rep_detail := ''provider request failed: '' @ take 120 m\<rparr>) s))
      in case answer of
           Inl (ProviderError m b) \<Rightarrow> failed m
         | Inl (ValueError m) \<Rightarrow> failed m
         | Inl e \<Rightarrow> Inl e
         | Inr upstream \<Rightarrow> sync_answer env p upstream s)"

fun exn_name :: "exn \<Rightarrow> string" where
  "exn_name (WalletError m) = ''WalletError''"
| "exn_name (InsufficientFunds m) = ''InsufficientFunds''"
| "exn_name (OrderError m) = ''OrderError''"
| "exn_name (PermissionError m) = ''PermissionError''"
| "exn_name (ValueError m) = ''ValueError''"
| "exn_name (ProviderError m b) = ''ProviderError''"
| "exn_name (DepositError m) = ''DepositError''"
| "exn_name (GatewayError m) = ''GatewayError''"
| "exn_name (SignatureError m) = ''SignatureError''"
| "exn_name (IntegrityError m) = ''IntegrityError''"
| "exn_name (InvalidRequestError m) = ''InvalidRequestError''"
| "exn_name (HTTPException c m) = ''HTTPException''"
| "exn_name (OtherError m) = m"

text \<open>
  \<open>sync_all\<close> over the scanned providers. An exception of the adapter becomes an error report, and the
  run row that was started stays; a violated constraint leaves the session unusable, so that the
  whole transaction fails in the end.
\<close>

fun sync_all ::
  "sync_env \<Rightarrow> (string \<Rightarrow> provider_service list res) \<Rightarrow> string list \<Rightarrow> db
    \<Rightarrow> (sync_report list \<times> db) res" where
  "sync_all env answers [] s = Inr ([], s)"
| "sync_all env answers (pid # pids) s =
     (case providers s pid of
        None \<Rightarrow> sync_all env answers pids s
      | Some p \<Rightarrow>
        if \<not> p_is_active p \<or> p_adapter_type p = None \<or> p_adapter_type p = Some ''mock''
        then sync_all env answers pids s
        else case sync_provider env p (answers pid) s of
            Inl (IntegrityError m) \<Rightarrow> Inl (IntegrityError m)
          | Inl e \<Rightarrow> e_bind (sync_all env answers pids (start_run pid s)) (\<lambda>(reps, s). Inr
              ((new_report pid)\<lparr>rep_status := ''error'', rep_detail := exn_name e\<rparr> # reps, s))
          | Inr (rep, s) \<Rightarrow> e_bind (sync_all env answers pids s) (\<lambda>(reps, s). Inr (rep # reps, s)))"

section \<open>The digest for the operator\<close>

fun html_escape :: "string \<Rightarrow> string" where
  "html_escape [] = []"
| "html_escape (c # s) =
     (if c = CHR ''&'' then ''&amp;'' else if c = CHR ''<'' then ''&lt;'' else if c = CHR ''>'' then ''&gt;''
      else if c = char_of (34::nat) then ''&quot;'' else if c = char_of (39::nat) then ''&#x27;'' else [c]) @
     html_escape s"

definition report_lines :: "(glyph \<Rightarrow> string) \<Rightarrow> nat \<Rightarrow> sync_report \<Rightarrow> string list" where
  "report_lines G limit rep =
     (if rep_status rep \<noteq> ''ok''
      then [G Warning_sign @ '' <b>'' @ html_escape (rep_provider_id rep) @ ''</b> sync '' @
            html_escape (rep_status rep) @ '': '' @ html_escape (rep_detail rep)]
      else
        let ms = material rep
        in if ms = [] \<and> rep_added rep = 0 then []
           else [G Cycle_sign @ '' <b>'' @ html_escape (rep_provider_id rep) @ ''</b>: +'' @
                 str_int (rep_added rep) @ '' new (inactive), '' @ str_int (int (length ms)) @
                 '' material changes''] @
                map (\<lambda>c. G Bullet @ '' '' @ html_escape (change_line G c)) (take limit ms) @
                (if limit < length ms
                 then [G Ellipsis @ ''and '' @ str_int (int (length ms) - int limit) @ '' more''] else []))"

definition render_alert :: "(glyph \<Rightarrow> string) \<Rightarrow> nat \<Rightarrow> sync_report list \<Rightarrow> string option" where
  "render_alert G limit reps =
     (let ls = concat (map (report_lines G limit) reps)
      in if ls = [] then None else Some (join newline ls))"

definition count_services :: "db \<Rightarrow> string \<Rightarrow> int \<times> int" where
  "count_services s pid =
     (let rows = provider_services s pid
      in (int (length rows), int (length (filter s_is_active rows))))"

end
