(* ===== verification/SyncSpec.thy ===== *)
theory SyncSpec
  imports Sync
begin

text \<open>
  The specification of a synchronisation: what becomes of every service, stated for one service at
  a time, and the proof that the loops of \<open>app/sync.py\<close> compute it. The guarantees of the module's
  documentation follow from the specification.
\<close>

section \<open>Dictionaries\<close>

lemma by_external_snoc:
  "by_external (rows @ [svc]) = dict_set (s_provider_service_id svc) (s_id svc) (by_external rows)"
  by (simp add: by_external_def)

lemma by_external_sound:
  "map_of (by_external rows) ext = Some sid \<Longrightarrow>
   \<exists>svc \<in> set rows. s_id svc = sid \<and> s_provider_service_id svc = ext"
proof (induction rows rule: rev_induct)
  case Nil
  then show ?case by (simp add: by_external_def)
next
  case (snoc svc rows)
  then show ?case by (auto simp: by_external_snoc split: if_split_asm)
qed

lemma by_external_distinct: "distinct (map fst (by_external rows))"
proof (induction rows rule: rev_induct)
  case Nil
  then show ?case by (simp add: by_external_def)
next
  case (snoc svc rows)
  then show ?case by (simp add: by_external_snoc distinct_dict_set)
qed

lemma by_external_complete:
  "distinct (map s_provider_service_id rows) \<Longrightarrow> svc \<in> set rows \<Longrightarrow>
   map_of (by_external rows) (s_provider_service_id svc) = Some (s_id svc)"
proof (induction rows rule: rev_induct)
  case Nil
  then show ?case by simp
next
  case (snoc x rows)
  have "s_provider_service_id x \<notin> s_provider_service_id ` set rows" using snoc.prems(1) by simp
  then have "svc = x \<or> svc \<in> set rows \<and> s_provider_service_id svc \<noteq> s_provider_service_id x"
    using snoc.prems(2) by (auto intro: rev_image_eqI)
  with snoc show ?case by (auto simp: by_external_snoc)
qed

lemma valid_rows_distinct:
  "distinct (map fst rows) \<Longrightarrow> valid_rows R fx items rows k = (rows', k') \<Longrightarrow> distinct (map fst rows')"
  by (induction R fx items rows k arbitrary: rows' k' rule: valid_rows.induct)
    (auto split: option.split_asm intro: distinct_dict_set)

text \<open>Every valid row was accepted by the validation, under its own external id.\<close>

lemma valid_rows_accepted:
  assumes "valid_rows R fx items rows k = (rows', k')" and "(ext, n) \<in> set rows'"
  shows "(ext, n) \<in> set rows \<or>
    (\<exists>item \<in> set items. normalize_service R fx (raw_of item) = Some n \<and> ns_external_id n = ext)"
proof -
  have in_set: "(e, m) \<in> set (dict_set j v kvs) \<Longrightarrow> (e, m) \<in> set kvs \<or> (e = j \<and> m = v)" for e m j v kvs
    by (induction kvs) (auto split: if_split_asm)
  show ?thesis
    using assms
    by (induction R fx items rows k arbitrary: rows' k' rule: valid_rows.induct)
      (auto split: option.split_asm dest!: in_set)
qed

section \<open>The tables of services\<close>

definition services_indexed :: "db \<Rightarrow> bool" where
  "services_indexed s \<longleftrightarrow>
     (\<forall>sid svc. services s sid = Some svc \<longrightarrow> s_id svc = sid \<and> sid \<in> set (service_ids s))"

definition known_of :: "db \<Rightarrow> string \<Rightarrow> (string \<times> string) list" where
  "known_of s pid = by_external (provider_services s pid)"

text \<open>\<open>known\<close> leads to services of the state, by their external ids.\<close>

definition leads_to :: "(string \<times> string) list \<Rightarrow> db \<Rightarrow> bool" where
  "leads_to known s \<longleftrightarrow>
     (\<forall>ext sid. map_of known ext = Some sid \<longrightarrow>
       (\<exists>svc. services s sid = Some svc \<and> s_id svc = sid \<and> s_provider_service_id svc = ext))"

lemma leads_toD:
  assumes "leads_to known s" and "map_of known ext = Some sid"
  obtains svc where "services s sid = Some svc" "s_id svc = sid" "s_provider_service_id svc = ext"
  using assms unfolding leads_to_def by blast

lemma leads_toI:
  "(\<And>ext sid. map_of known ext = Some sid \<Longrightarrow>
     \<exists>svc. services s sid = Some svc \<and> s_id svc = sid \<and> s_provider_service_id svc = ext) \<Longrightarrow> leads_to known s"
  unfolding leads_to_def by blast

lemma all_services_Some: "svc \<in> set (all_services s) \<Longrightarrow> \<exists>sid. services s sid = Some svc"
  by (auto simp: all_services_def List.map_filter_def)

lemma known_leads_to: "services_indexed s \<Longrightarrow> leads_to (known_of s pid) s"
  by (auto simp: leads_to_def known_of_def provider_services_def services_indexed_def
      dest!: by_external_sound all_services_Some)

lemma known_provider:
  assumes "services_indexed s" and "map_of (known_of s pid) ext = Some sid" and "services s sid = Some svc"
  shows "s_provider_id svc = pid"
  using assms by (auto simp: known_of_def provider_services_def services_indexed_def
      dest!: by_external_sound all_services_Some)

section \<open>What becomes of a service\<close>

definition merged :: "int \<Rightarrow> (string \<times> normalized_service) list \<Rightarrow> service_row \<Rightarrow> service_row" where
  "merged now rows svc =
     (case map_of rows (s_provider_service_id svc) of None \<Rightarrow> svc | Some n \<Rightarrow> merge_service now n svc)"

lemma merge_service_fields [simp]:
  "s_id (merge_service now n svc) = s_id svc"
  "s_provider_service_id (merge_service now n svc) = s_provider_service_id svc"
  "s_provider_id (merge_service now n svc) = s_provider_id svc"
  "s_category_id (merge_service now n svc) = s_category_id svc"
  "s_description (merge_service now n svc) = s_description svc"
  "s_markup_percent (merge_service now n svc) = s_markup_percent svc"
  "s_markup_fixed_paise (merge_service now n svc) = s_markup_fixed_paise svc"
  "s_average_time (merge_service now n svc) = s_average_time svc"
  "s_name (merge_service now n svc) = followed_name n svc"
  "rate_per_1000_paise (merge_service now n svc) = ns_rate_per_1000_paise n"
  "s_min_qty (merge_service now n svc) = ns_min_qty n"
  "s_max_qty (merge_service now n svc) = ns_max_qty n"
  by (simp_all add: merge_service_def)

text \<open>A service that was not there before the synchronisation.\<close>

definition fresh_service :: "bool \<Rightarrow> string \<Rightarrow> (string \<times> normalized_service) list \<Rightarrow> service_row \<Rightarrow> bool" where
  "fresh_service auto pid rows svc \<longleftrightarrow>
     s_provider_id svc = pid \<and>
     (\<exists>n. map_of rows (s_provider_service_id svc) = Some n \<and>
       s_is_active svc = (auto \<and> supported n) \<and> rate_per_1000_paise svc = ns_rate_per_1000_paise n \<and>
       s_min_qty svc = ns_min_qty n \<and> s_max_qty svc = ns_max_qty n \<and>
       s_service_type svc = form_value (ns_service_type n))"

lemma ensure_category_services [simp]: "services (snd (ensure_category D1 nm a s)) = services s"
  by (simp add: ensure_category_def Let_def split: option.split)

lemma add_service_services:
  assumes "add_service G D1 now auto pid ext n (rep, s) = Inr (rep', t)"
  obtains svc where "services s (s_id svc) = None" "services t = (services s)(s_id svc \<mapsto> svc)"
    "s_provider_id svc = pid" "s_provider_service_id svc = ext" "s_is_active svc = (auto \<and> supported n)"
    "rate_per_1000_paise svc = ns_rate_per_1000_paise n" "s_min_qty svc = ns_min_qty n"
    "s_max_qty svc = ns_max_qty n" "s_service_type svc = form_value (ns_service_type n)"
proof -
  let ?a = "auto \<and> supported n"
  obtain cid s1 where c: "ensure_category D1 (ns_category n) ?a s = (cid, s1)" by fastforce
  then have s1: "services s1 = services s" using ensure_category_services [of D1 "ns_category n" ?a s] by simp
  let ?svc = "new_service pid now cid ?a ext n"
  have "services s (s_id ?svc) = None" "services t = (services s)(s_id ?svc \<mapsto> ?svc)"
    using assms c s1 by (auto simp: add_service_def insert_service_def Let_def split: if_split_asm)
  then show thesis by (rule that) (simp_all add: new_service_def)
qed

lemma sync_row_services:
  assumes "sync_row env auto pid known (ext, n) (rep, s) = Inr (rep', t)" and "leads_to known s"
  shows "leads_to known t \<and>
    (\<forall>sid svc. services s sid = Some svc \<longrightarrow> services t sid =
      Some (if map_of known ext = Some sid then merge_service (se_now env) n svc else svc)) \<and>
    (\<forall>sid svc. services s sid = None \<longrightarrow> services t sid = Some svc \<longrightarrow> s_id svc = sid \<and>
      s_provider_service_id svc = ext \<and> fresh_service auto pid [(ext, n)] svc)"
proof (cases "map_of known ext")
  case None
  then have add: "add_service (se_glyph env) (se_sha1 env) (se_now env) auto pid ext n (rep, s) = Inr (rep', t)"
    using assms(1) by (simp add: sync_row_def)
  from add obtain svc where svc: "services s (s_id svc) = None" "services t = (services s)(s_id svc \<mapsto> svc)"
    "s_provider_id svc = pid" "s_provider_service_id svc = ext" "s_is_active svc = (auto \<and> supported n)"
    "rate_per_1000_paise svc = ns_rate_per_1000_paise n" "s_min_qty svc = ns_min_qty n"
    "s_max_qty svc = ns_max_qty n" "s_service_type svc = form_value (ns_service_type n)"
    by (rule add_service_services)
  have "leads_to known t" using assms(2) svc(1,2) by (fastforce simp: leads_to_def)
  with svc None show ?thesis by (auto simp: fresh_service_def)
next
  case (Some sid)
  then obtain svc where svc: "services s sid = Some svc" "s_id svc = sid" "s_provider_service_id svc = ext"
    using assms(2) by (auto simp: leads_to_def)
  then have t: "t = update_service sid (merge_service (se_now env) n) s"
    using assms(1) Some by (auto simp: sync_row_def)
  have "leads_to known t" using assms(2) svc by (fastforce simp: leads_to_def t update_service_def)
  with svc Some show ?thesis by (auto simp: t update_service_def)
qed

lemma sync_rows_services:
  assumes "sync_rows env auto pid known rows (rep, s) = Inr (rep', t)" and "leads_to known s"
    and "distinct (map fst rows)"
  shows "leads_to known t \<and>
    (\<forall>sid svc. services s sid = Some svc \<longrightarrow> services t sid =
      Some (if map_of known (s_provider_service_id svc) = Some sid then merged (se_now env) rows svc else svc)) \<and>
    (\<forall>sid svc. services s sid = None \<longrightarrow> services t sid = Some svc \<longrightarrow> s_id svc = sid \<and> fresh_service auto pid rows svc)"
  using assms
proof (induction rows arbitrary: rep s)
  case Nil
  then show ?case by (simp add: merged_def)
next
  case (Cons row rows)
  obtain ext n where row: "row = (ext, n)" by fastforce
  obtain rep1 s1 where one: "sync_row env auto pid known (ext, n) (rep, s) = Inr (rep1, s1)"
    and rest: "sync_rows env auto pid known rows (rep1, s1) = Inr (rep', t)"
    using Cons.prems(1) by (auto simp: row)
  have s1: "leads_to known s1"
    "\<And>sid svc. services s sid = Some svc \<Longrightarrow> services s1 sid =
      Some (if map_of known ext = Some sid then merge_service (se_now env) n svc else svc)"
    "\<And>sid svc. services s sid = None \<Longrightarrow> services s1 sid = Some svc \<Longrightarrow> s_id svc = sid \<and>
      s_provider_service_id svc = ext \<and> fresh_service auto pid [(ext, n)] svc"
    using sync_row_services [OF one Cons.prems(2)] by blast+
  have dist: "ext \<notin> fst ` set rows" "distinct (map fst rows)" using Cons.prems(3) row by auto
  then have nokey: "map_of rows ext = None" by (simp add: map_of_eq_None_iff)
  note ih = Cons.IH [OF rest s1(1) dist(2)]
  have known_ext: "s_provider_service_id svc = ext" if "map_of known ext = Some sid" "services s sid = Some svc" for sid svc
    using Cons.prems(2) [unfolded leads_to_def, rule_format, OF that(1)] that(2) by auto
  have old: "services t sid = Some (if map_of known (s_provider_service_id svc) = Some sid
      then merged (se_now env) (row # rows) svc else svc)" if svc: "services s sid = Some svc" for sid svc
  proof (cases "map_of known ext = Some sid")
    case True
    then have e: "s_provider_service_id svc = ext" using known_ext svc by blast
    then show ?thesis
      using ih s1(2) [OF svc] True nokey by (simp add: merged_def row)
  next
    case False
    show ?thesis
    proof (cases "s_provider_service_id svc = ext")
      case True
      then show ?thesis using ih s1(2) [OF svc] False by simp
    next
      case ne: False
      then have "merged (se_now env) (row # rows) svc = merged (se_now env) rows svc"
        by (simp add: merged_def row)
      then show ?thesis using ih s1(2) [OF svc] False by simp
    qed
  qed
  have new: "s_id svc = sid \<and> fresh_service auto pid (row # rows) svc"
    if none: "services s sid = None" and svc: "services t sid = Some svc" for sid svc
  proof (cases "services s1 sid")
    case None
    then have i: "s_id svc = sid" and f: "fresh_service auto pid rows svc" using ih svc by blast+
    then have "s_provider_service_id svc \<noteq> ext" using nokey by (auto simp: fresh_service_def)
    with i f show ?thesis by (simp add: fresh_service_def row)
  next
    case (Some svc1)
    then have one: "s_id svc1 = sid" "s_provider_service_id svc1 = ext" "fresh_service auto pid [(ext, n)] svc1"
      using s1(3) [OF none] by blast+
    have "map_of known ext' \<noteq> Some sid" for ext'
      using none by (auto elim: leads_toD [OF Cons.prems(2)])
    then have "services t sid = Some svc1" using ih Some by simp
    with svc one show ?thesis by (simp add: fresh_service_def row)
  qed
  show ?case using ih old new by blast
qed

lemma retire_missing_services:
  assumes "retire_missing rows known (rep, s) = (rep', t)" and "leads_to known s" and "distinct (map fst known)"
  shows "services t sid = (case services s sid of None \<Rightarrow> None
    | Some svc \<Rightarrow> Some (if map_of known (s_provider_service_id svc) = Some sid \<and>
        map_of rows (s_provider_service_id svc) = None \<and> \<not> s_is_removed_upstream svc
      then retire_service svc else svc))"
  using assms
proof (induction known arbitrary: rep s)
  case Nil
  then show ?case by (simp split: option.split)
next
  case (Cons k known)
  obtain ext i where k: "k = (ext, i)" by fastforce
  have dist: "ext \<notin> fst ` set known" "distinct (map fst known)" using Cons.prems(3) k by auto
  then have nokey: "map_of known ext = None" by (simp add: map_of_eq_None_iff)
  obtain svc where svc: "services s i = Some svc" "s_id svc = i" "s_provider_service_id svc = ext"
    using Cons.prems(2) [unfolded leads_to_def, rule_format, of ext i] by (auto simp: k)
  have lt: "leads_to known s"
  proof (rule leads_toI)
    fix e j assume "map_of known e = Some j"
    with nokey have "map_of (k # known) e = Some j" by (auto simp: k)
    then show "\<exists>svc. services s j = Some svc \<and> s_id svc = j \<and> s_provider_service_id svc = e"
      using Cons.prems(2) unfolding leads_to_def by blast
  qed
  show ?case
  proof (cases "map_of rows ext \<noteq> None \<or> s_is_removed_upstream svc")
    case True
    then have "retire_missing rows known (rep, s) = (rep', t)" using Cons.prems(1) svc by (simp add: k)
    from Cons.IH [OF this lt dist(2)] True svc nokey show ?thesis
      by (auto simp: k split: option.split)
  next
    case False
    let ?s = "update_service i retire_service s"
    obtain rep1 where rest: "retire_missing rows known (rep1, ?s) = (rep', t)"
      using Cons.prems(1) svc False by (simp add: k)
    have lt': "leads_to known ?s"
    proof -
      have "sid' \<noteq> i" if "map_of known ext' = Some sid'" for ext' sid'
      proof
        assume "sid' = i"
        then have "ext' = ext" using that svc by (auto elim: leads_toD [OF lt])
        with that nokey show False by simp
      qed
      then show ?thesis using lt by (fastforce simp: leads_to_def update_service_def)
    qed
    have r: "s_provider_service_id (retire_service svc) = ext" by (simp add: retire_service_def svc)
    show ?thesis
    proof (cases "sid = i")
      case True
      then show ?thesis using Cons.IH [OF rest lt' dist(2)] svc False r nokey
        by (simp add: k update_service_def)
    next
      case ne: False
      then show ?thesis using Cons.IH [OF rest lt' dist(2)] svc False nokey
        by (auto simp: k update_service_def split: option.split)
    qed
  qed
qed

section \<open>The whole synchronisation\<close>

lemma finish_sync_tables [simp]:
  "services (snd (finish_sync env pid rep s)) = services s"
  "categories (snd (finish_sync env pid rep s)) = categories s"
  "service_ids (snd (finish_sync env pid rep s)) = service_ids s"
  "category_ids (snd (finish_sync env pid rep s)) = category_ids s"
  "fst (finish_sync env pid rep s) = rep"
  by (simp_all add: finish_sync_def Let_def audit_def)

lemma start_run_tables [simp]:
  "services (start_run pid s) = services s" "categories (start_run pid s) = categories s"
  "service_ids (start_run pid s) = service_ids s" "category_ids (start_run pid s) = category_ids s"
  "provider_services (start_run pid s) = provider_services s"
  by (simp_all add: start_run_def provider_services_def all_services_def fun_eq_iff)

text \<open>The status of a report is changed only where a synchronisation is given up.\<close>

lemma sync_rows_status:
  "sync_rows env auto pid known rows (rep, s) = Inr (rep', t) \<Longrightarrow> rep_status rep' = rep_status rep"
  by (induction rows arbitrary: rep s)
    (fastforce simp: sync_row_def add_service_def merge_report_def Let_def split: option.split_asm prod.split_asm)+

lemma retire_missing_status:
  "retire_missing rows known (rep, s) = (rep', t) \<Longrightarrow> rep_status rep' = rep_status rep"
  by (induction rows known "(rep, s)" arbitrary: rep s rule: retire_missing.induct)
    (auto split: option.split_asm if_split_asm)

text \<open>The three ways in which a synchronisation returns.\<close>

lemma sync_provider_cases:
  assumes "sync_provider env p answer s = Inr (rep, t)"
  obtains (kept) "rep_status rep \<noteq> ''ok''" "services t = services s" "categories t = categories s"
      "service_ids t = service_ids s" "category_ids t = category_ids s"
  | (through) upstream rows invalid rep1 s1 rep2 s2 where "answer = Inr upstream"
      "valid_rows (se_str env) (provider_fx p) upstream [] 0 = (rows, invalid)"
      "sync_rows env (p_auto_activate_new p) (p_id p) (known_of s (p_id p)) rows
        ((new_report (p_id p))\<lparr>rep_skipped_invalid := int invalid\<rparr>, start_run (p_id p) s) = Inr (rep1, s1)"
      "retire_missing rows (known_of s (p_id p)) (rep1, s1) = (rep2, s2)"
      "rep_status rep = ''ok''" "rep = rep2" "services t = services s2" "categories t = categories s2"
      "service_ids t = service_ids s2"
proof -
  let ?s = "start_run (p_id p) s"
  have fin: "services t' = services s'" "categories t' = categories s'" "service_ids t' = service_ids s'"
    "category_ids t' = category_ids s'" "rep' = r"
    if "finish_sync env (p_id p) r s' = (rep', t')" for r s' rep' t'
    using finish_sync_tables [of env "p_id p" r s'] that by simp_all
  consider (err) m where "finish_sync env (p_id p) ((new_report (p_id p))\<lparr>rep_status := ''error'',
      rep_detail := m\<rparr>) ?s = (rep, t)"
    | (answered) upstream where "answer = Inr upstream" "sync_answer env p upstream ?s = Inr (rep, t)"
    using assms by (auto simp: sync_provider_def Let_def split: sum.split_asm exn.split_asm)
  then show thesis
  proof cases
    case err
    from fin [OF err] show thesis by (intro that(1)) simp_all
  next
    case answered
    obtain rows invalid where v: "valid_rows (se_str env) (provider_fx p) upstream [] 0 = (rows, invalid)"
      by fastforce
    let ?r = "(new_report (p_id p))\<lparr>rep_skipped_invalid := int invalid\<rparr>"
    have known: "by_external (provider_services ?s (p_id p)) = known_of s (p_id p)" by (simp add: known_of_def)
    show thesis
    proof (cases "looks_malformed (length (filter (\<lambda>svc. \<not> s_is_removed_upstream svc)
        (provider_services ?s (p_id p)))) (length rows) invalid")
      case (Some why)
      then have "finish_sync env (p_id p) (?r\<lparr>rep_status := ''aborted'',
          rep_detail := ''kept last trusted snapshot: '' @ why\<rparr>) ?s = (rep, t)"
        using answered(2) v by (simp add: sync_answer_def Let_def)
      from fin [OF this] show thesis by (intro that(1)) simp_all
    next
      case None
      obtain rep1 s1 where r: "sync_rows env (p_auto_activate_new p) (p_id p) (known_of s (p_id p)) rows
          (?r, ?s) = Inr (rep1, s1)"
        using answered(2) v None known by (auto simp: sync_answer_def Let_def)
      obtain rep2 s2 where m: "retire_missing rows (known_of s (p_id p)) (rep1, s1) = (rep2, s2)" by fastforce
      have f: "finish_sync env (p_id p) rep2 s2 = (rep, t)"
        using answered(2) v None known r m by (auto simp: sync_answer_def Let_def)
      have "rep_status rep2 = ''ok''"
        using sync_rows_status [OF r] retire_missing_status [OF m] by (simp add: new_report_def)
      with fin [OF f] show thesis by (intro that(2) [OF answered(1) v r m]) simp_all
    qed
  qed
qed

text \<open>What the specification says of one service, known to be tracked or not.\<close>

definition synced_service ::
  "int \<Rightarrow> (string \<times> normalized_service) list \<Rightarrow> bool \<Rightarrow> service_row \<Rightarrow> service_row" where
  "synced_service now rows tracked svc =
     (if \<not> tracked then svc
      else case map_of rows (s_provider_service_id svc) of
        Some n \<Rightarrow> merge_service now n svc
      | None \<Rightarrow> if s_is_removed_upstream svc then svc else retire_service svc)"

definition tracked :: "db \<Rightarrow> string \<Rightarrow> service_row \<Rightarrow> bool" where
  "tracked s pid svc \<longleftrightarrow> map_of (known_of s pid) (s_provider_service_id svc) = Some (s_id svc)"

lemma synced_services:
  assumes "sync_provider env p (Inr upstream) s = Inr (rep, t)" and "rep_status rep = ''ok''"
    and "services_indexed s" and "valid_rows (se_str env) (provider_fx p) upstream [] 0 = (rows, invalid)"
  shows "case services s sid of
      Some svc \<Rightarrow> services t sid = Some (synced_service (se_now env) rows (tracked s (p_id p) svc) svc)
    | None \<Rightarrow> (\<forall>svc. services t sid = Some svc \<longrightarrow> s_id svc = sid \<and>
        fresh_service (p_auto_activate_new p) (p_id p) rows svc)"
  using assms(1)
proof (cases rule: sync_provider_cases)
  case kept
  with assms(2) show ?thesis by simp
next
  case (through upstream' rows' invalid' rep1 s1 rep2 s2)
  have rows: "rows' = rows" using through(1,2) assms(4) by simp
  have dist: "distinct (map fst rows)" using valid_rows_distinct [OF _ assms(4)] by simp
  have lt: "leads_to (known_of s (p_id p)) (start_run (p_id p) s)"
    using known_leads_to [OF assms(3)] by (simp add: leads_to_def)
  note r = sync_rows_services [OF through(3) [unfolded rows] lt dist]
  then have lt1: "leads_to (known_of s (p_id p)) s1" by blast
  note m = retire_missing_services [OF through(4) [unfolded rows] lt1, of sid]
  have kd: "distinct (map fst (known_of s (p_id p)))" unfolding known_of_def by (rule by_external_distinct)
  show ?thesis
  proof (cases "services s sid")
    case (Some svc)
    then have i: "s_id svc = sid" using assms(3) by (simp add: services_indexed_def)
    have s1: "services s1 sid = Some (if tracked s (p_id p) svc then merged (se_now env) rows svc else svc)"
      using r Some i by (simp add: tracked_def)
    have ext: "s_provider_service_id (merged (se_now env) rows svc) = s_provider_service_id svc"
      by (simp add: merged_def split: option.split)
    show ?thesis
      using m [OF kd] s1 ext i Some
      by (auto simp: through(7) synced_service_def tracked_def merged_def split: option.split_asm option.split)
  next
    case None
    have "map_of (known_of s (p_id p)) e \<noteq> Some sid" for e
      using None by (auto elim: leads_toD [OF lt])
    then have "services t sid = services s1 sid" using m [OF kd] by (simp add: through(7) split: option.split)
    then show ?thesis using None r by simp
  qed
qed

section \<open>The specification\<close>

text \<open>
  The specification mentions none of the code's loops and none of its dictionaries. \<open>listed\<close> is the last
  valid row of an answer with an external id, \<open>newest_under\<close> the last of the provider's services with it.
\<close>

definition listed ::
  "(json \<Rightarrow> string) \<Rightarrow> rat \<Rightarrow> provider_service list \<Rightarrow> string \<Rightarrow> normalized_service option" where
  "listed R fx upstream ext = map_of (rev (List.map_filter (\<lambda>item.
     map_option (\<lambda>n. (ns_external_id n, n)) (normalize_service R fx (raw_of item))) upstream)) ext"

definition newest_under :: "string \<Rightarrow> service_row list \<Rightarrow> string \<Rightarrow> string option" where
  "newest_under pid svcs ext = map_of (rev (map (\<lambda>svc. (s_provider_service_id svc, s_id svc))
     (filter (\<lambda>svc. s_provider_id svc = pid) svcs))) ext"

text \<open>What an administrator may have set, and what identifies the row, stays.\<close>

definition same_edits :: "service_row \<Rightarrow> service_row \<Rightarrow> bool" where
  "same_edits old svc \<longleftrightarrow>
     s_id svc = s_id old \<and> s_provider_id svc = s_provider_id old \<and>
     s_provider_service_id svc = s_provider_service_id old \<and> s_category_id svc = s_category_id old \<and>
     s_description svc = s_description old \<and> s_markup_percent svc = s_markup_percent old \<and>
     s_markup_fixed_paise svc = s_markup_fixed_paise old \<and> s_average_time svc = s_average_time old"

text \<open>What the provider tells is taken over; the raw name and category are kept beside the shop's own.\<close>

definition as_listed :: "int \<Rightarrow> normalized_service \<Rightarrow> service_row \<Rightarrow> bool" where
  "as_listed now n svc \<longleftrightarrow>
     rate_per_1000_paise svc = ns_rate_per_1000_paise n \<and> s_min_qty svc = ns_min_qty n \<and>
     s_max_qty svc = ns_max_qty n \<and> s_service_type svc = form_value (ns_service_type n) \<and>
     (s_is_refillable svc \<longleftrightarrow> ns_refill n) \<and> (s_is_cancelable svc \<longleftrightarrow> ns_cancel n) \<and>
     s_external_name svc = Some (ns_name n) \<and> s_external_category svc = Some (ns_category n) \<and>
     \<not> s_is_removed_upstream svc \<and> s_last_synced_at svc = Some now"

text \<open>
  A service that is listed: the name follows the provider's unless an administrator edited it, and it
  is deactivated if its type has become one that the shop cannot sell.
\<close>

definition refreshed :: "int \<Rightarrow> normalized_service \<Rightarrow> service_row \<Rightarrow> service_row \<Rightarrow> bool" where
  "refreshed now n old svc \<longleftrightarrow> same_edits old svc \<and> as_listed now n svc \<and>
     s_name svc = (if \<exists>x. s_external_name old = Some x \<and> x \<noteq> s_name old then s_name old else ns_name n) \<and>
     (s_is_active svc \<longleftrightarrow> s_is_active old \<and>
        (ns_service_type n \<noteq> Form_unsupported \<or> s_service_type old = ''unsupported''))"

definition created :: "sync_env \<Rightarrow> provider_row \<Rightarrow> string \<Rightarrow> normalized_service \<Rightarrow> service_row \<Rightarrow> bool" where
  "created env p ext n svc \<longleftrightarrow> as_listed (se_now env) n svc \<and>
     s_id svc = service_id_for (p_id p) ext \<and> s_provider_id svc = p_id p \<and> s_provider_service_id svc = ext \<and>
     s_category_id svc = category_id_for (se_sha1 env) (ns_category n) \<and> s_name svc = ns_name n \<and>
     s_description svc = None \<and> s_markup_percent svc = None \<and> s_markup_fixed_paise svc = None \<and>
     s_average_time svc = None \<and>
     (s_is_active svc \<longleftrightarrow> p_auto_activate_new p \<and> ns_service_type n \<noteq> Form_unsupported)"

text \<open>Categories are only added and switched on.\<close>

definition cats_grow :: "db \<Rightarrow> db \<Rightarrow> bool" where
  "cats_grow s t \<longleftrightarrow> (\<forall>cid c. categories s cid = Some c \<longrightarrow>
     (\<exists>b. categories t cid = Some (c\<lparr>c_is_active := b\<rparr>) \<and> (c_is_active c \<longrightarrow> b)))"

definition sync_spec :: "sync_env \<Rightarrow> provider_row \<Rightarrow> provider_service list \<Rightarrow> db \<Rightarrow> db \<Rightarrow> bool" where
  "sync_spec env p upstream s t \<longleftrightarrow>
     (let lists = listed (se_str env) (provider_fx p) upstream; known = newest_under (p_id p) (all_services s) in
      (\<forall>sid old. services s sid = Some old \<longrightarrow> (\<exists>svc. services t sid = Some svc \<and>
         (if known (s_provider_service_id old) \<noteq> Some sid then svc = old
          else case lists (s_provider_service_id old) of
              Some n \<Rightarrow> refreshed (se_now env) n old svc
            | None \<Rightarrow> svc = (if s_is_removed_upstream old then old
                else old\<lparr>s_is_removed_upstream := True, s_is_active := False\<rparr>)))) \<and>
      (\<forall>ext n. lists ext = Some n \<longrightarrow> known ext = None \<longrightarrow> services s (service_id_for (p_id p) ext) = None \<and>
         (\<exists>svc. services t (service_id_for (p_id p) ext) = Some svc \<and> created env p ext n svc \<and>
            categories t (s_category_id svc) \<noteq> None)) \<and>
      (\<forall>sid. services s sid = None \<longrightarrow> services t sid \<noteq> None \<longrightarrow>
         (\<exists>ext. lists ext \<noteq> None \<and> known ext = None \<and> sid = service_id_for (p_id p) ext)) \<and>
      cats_grow s t)"

lemma newest_under_by_external: "map_of (known_of s pid) ext = newest_under pid (all_services s) ext"
proof -
  have "map_of (by_external rows) ext = map_of (rev (map (\<lambda>svc. (s_provider_service_id svc, s_id svc)) rows)) ext" for rows
    by (induction rows rule: rev_induct) (simp_all add: by_external_snoc, simp add: by_external_def)
  then show ?thesis by (simp add: known_of_def newest_under_def provider_services_def)
qed

lemma valid_rows_listed:
  "valid_rows R fx items rows k = (rows', k') \<Longrightarrow>
   map_of rows' ext = (case listed R fx items ext of None \<Rightarrow> map_of rows ext | Some n \<Rightarrow> Some n)"
proof (induction R fx items rows k arbitrary: rows' k' rule: valid_rows.induct)
  case (1 R fx rows invalid)
  then show ?case by (simp add: listed_def List.map_filter_def)
next
  case (2 R fx item items rows invalid)
  then show ?case
    by (auto simp: listed_def List.map_filter_def map_add_def split: option.splits)
qed

lemma merge_refreshed: "refreshed now n old (merge_service now n old)"
proof -
  have t: "s_service_type old \<noteq> form_value (ns_service_type n) \<and> ns_service_type n = Form_unsupported \<longleftrightarrow>
      \<not> (ns_service_type n \<noteq> Form_unsupported \<or> s_service_type old = ''unsupported'')"
    by (cases "ns_service_type n") auto
  show ?thesis
    using t unfolding refreshed_def same_edits_def as_listed_def
    by (auto simp: merge_service_def followed_name_def name_differs_def type_differs_def supported_def)
qed

definition new_of :: "sync_env \<Rightarrow> bool \<Rightarrow> string \<Rightarrow> string \<Rightarrow> normalized_service \<Rightarrow> service_row" where
  "new_of env auto pid ext n =
     new_service pid (se_now env) (category_id_for (se_sha1 env) (ns_category n)) (auto \<and> supported n) ext n"

lemma new_of_created: "created env p ext n (new_of env (p_auto_activate_new p) (p_id p) ext n)"
  by (simp add: created_def as_listed_def new_of_def new_service_def supported_def)

lemma new_of_fields [simp]:
  "s_id (new_of env auto pid ext n) = service_id_for pid ext"
  "s_category_id (new_of env auto pid ext n) = category_id_for (se_sha1 env) (ns_category n)"
  by (simp_all add: new_of_def new_service_def)

section \<open>The implementation\<close>

lemma same_category [simp]: "\<exists>b. (c :: category_row) = c\<lparr>c_is_active := b\<rparr> \<and> (c_is_active c \<longrightarrow> b)"
  by (intro exI [of _ "c_is_active c"]) simp

lemma cats_grow_refl: "categories t = categories s \<Longrightarrow> cats_grow s t"
  by (simp add: cats_grow_def)

lemma cats_grow_trans: "cats_grow s t \<Longrightarrow> cats_grow t r \<Longrightarrow> cats_grow s r"
  unfolding cats_grow_def by fastforce

lemma cats_grow_some: "cats_grow s t \<Longrightarrow> categories s cid \<noteq> None \<Longrightarrow> categories t cid \<noteq> None"
  unfolding cats_grow_def by fastforce

lemma ensure_category_grows:
  "fst (ensure_category D1 nm a s) = category_id_for D1 nm"
  "cats_grow s (snd (ensure_category D1 nm a s))"
  "categories (snd (ensure_category D1 nm a s)) (category_id_for D1 nm) \<noteq> None"
  "service_ids (snd (ensure_category D1 nm a s)) = service_ids s"
proof -
  show "cats_grow s (snd (ensure_category D1 nm a s))"
    unfolding cats_grow_def ensure_category_def Let_def
    by (auto split: option.split intro: exI [of _ True])
qed (simp_all add: ensure_category_def Let_def split: option.split)

lemma add_service_row:
  assumes "add_service (se_glyph env) (se_sha1 env) (se_now env) auto pid ext n (rep, s) = Inr (rep', t)"
  shows "services s (service_id_for pid ext) = None"
    and "services t = (services s)(service_id_for pid ext \<mapsto> new_of env auto pid ext n)"
    and "service_ids t = service_ids s @ [service_id_for pid ext]"
    and "cats_grow s t" and "categories t (category_id_for (se_sha1 env) (ns_category n)) \<noteq> None"
proof -
  let ?a = "auto \<and> supported n"
  obtain cid s1 where c: "ensure_category (se_sha1 env) (ns_category n) ?a s = (cid, s1)" by fastforce
  note grows = ensure_category_grows [where ?D1.0 = "se_sha1 env" and nm = "ns_category n" and a = ?a and s = s, unfolded c fst_conv snd_conv]
  have s1: "services s1 = services s"
    using ensure_category_services [of "se_sha1 env" "ns_category n" ?a s] by (simp add: c)
  let ?new = "new_service pid (se_now env) cid ?a ext n"
  have new: "?new = new_of env auto pid ext n" using grows(1) by (simp add: new_of_def)
  have "insert_service ?new s1 = Inr t"
    using assms c by (auto simp: add_service_def Let_def)
  then have none: "services s (service_id_for pid ext) = None"
    and t: "t = s1\<lparr>services := (services s1)(service_id_for pid ext \<mapsto> ?new), service_ids := service_ids s1 @ [service_id_for pid ext]\<rparr>"
    by (auto simp: insert_service_def new s1 split: if_split_asm)
  show "services s (service_id_for pid ext) = None" by (rule none)
  show "services t = (services s)(service_id_for pid ext \<mapsto> new_of env auto pid ext n)" by (simp add: t s1 new)
  show "service_ids t = service_ids s @ [service_id_for pid ext]" by (simp add: t grows(4))
  show "cats_grow s t" using grows(2) by (simp add: t cats_grow_def)
  show "categories t (category_id_for (se_sha1 env) (ns_category n)) \<noteq> None" using grows(3) by (simp add: t)
qed

text \<open>Rows that are not known become services, and nothing else does.\<close>

definition rows_added ::
  "sync_env \<Rightarrow> bool \<Rightarrow> string \<Rightarrow> (string \<times> string) list \<Rightarrow> (string \<times> normalized_service) list \<Rightarrow> db \<Rightarrow> db \<Rightarrow> bool" where
  "rows_added env auto pid known rows s t \<longleftrightarrow> cats_grow s t \<and> (services_indexed s \<longrightarrow> services_indexed t) \<and>
     (\<forall>ext n. (ext, n) \<in> set rows \<longrightarrow> map_of known ext = None \<longrightarrow> services s (service_id_for pid ext) = None \<and>
        services t (service_id_for pid ext) = Some (new_of env auto pid ext n) \<and>
        categories t (category_id_for (se_sha1 env) (ns_category n)) \<noteq> None) \<and>
     (\<forall>sid. services s sid = None \<longrightarrow> services t sid \<noteq> None \<longrightarrow>
        (\<exists>ext n. (ext, n) \<in> set rows \<and> map_of known ext = None \<and> sid = service_id_for pid ext)) \<and>
     (\<forall>sid svc. services s sid = Some svc \<longrightarrow> services t sid \<noteq> None \<and>
        ((\<forall>ext. map_of known ext \<noteq> Some sid) \<longrightarrow> services t sid = Some svc))"

lemma update_service_indexed:
  "services_indexed s \<Longrightarrow> (\<And>svc. s_id (f svc) = s_id svc) \<Longrightarrow> services_indexed (update_service i f s)"
  by (auto simp: services_indexed_def update_service_def)

lemma sync_row_added:
  assumes "sync_row env auto pid known (ext, n) (rep, s) = Inr (rep', t)" and "leads_to known s"
  shows "rows_added env auto pid known [(ext, n)] s t"
proof (cases "map_of known ext")
  case None
  then have "add_service (se_glyph env) (se_sha1 env) (se_now env) auto pid ext n (rep, s) = Inr (rep', t)"
    using assms(1) by (simp add: sync_row_def)
  note row = add_service_row [OF this]
  have "services_indexed s \<Longrightarrow> services_indexed t" using row(1-3) by (auto simp: services_indexed_def)
  with row None show ?thesis by (auto simp: rows_added_def)
next
  case (Some sid)
  then obtain svc where svc: "services s sid = Some svc" "s_id svc = sid"
    using assms(2) by (auto simp: leads_to_def)
  then have t: "t = update_service sid (merge_service (se_now env) n) s"
    using assms(1) Some by (auto simp: sync_row_def)
  have "services_indexed s \<Longrightarrow> services_indexed t" unfolding t by (rule update_service_indexed) simp_all
  moreover have "cats_grow s t" by (rule cats_grow_refl) (simp add: t update_service_def)
  ultimately show ?thesis using Some svc by (auto simp: rows_added_def t update_service_def)
qed

lemma rows_added_Cons:
  assumes one: "rows_added env auto pid known [row] s s1" and rest: "rows_added env auto pid known rows s1 t" and lt: "leads_to known s"
  shows "rows_added env auto pid known (row # rows) s t"
proof -
  have idle: "map_of known ext \<noteq> Some sid" if "services s sid = None" for sid ext
    using that lt by (auto elim: leads_toD)
  have grow: "cats_grow s t" using one rest cats_grow_trans unfolding rows_added_def by blast
  have ix: "services_indexed s \<longrightarrow> services_indexed t" using one rest unfolding rows_added_def by blast
  have new: "services s (service_id_for pid ext) = None \<and>
        services t (service_id_for pid ext) = Some (new_of env auto pid ext n) \<and>
        categories t (category_id_for (se_sha1 env) (ns_category n)) \<noteq> None"
    if r: "(ext, n) \<in> set (row # rows)" and k: "map_of known ext = None" for ext n
  proof (cases "(ext, n) = row")
    case True
    then have s1: "services s (service_id_for pid ext) = None"
        "services s1 (service_id_for pid ext) = Some (new_of env auto pid ext n)"
        "categories s1 (category_id_for (se_sha1 env) (ns_category n)) \<noteq> None"
      using one k unfolding rows_added_def by auto
    then have "services t (service_id_for pid ext) = Some (new_of env auto pid ext n)"
      using rest idle [OF s1(1)] unfolding rows_added_def by blast
    moreover have "cats_grow s1 t" using rest unfolding rows_added_def by blast
    ultimately show ?thesis using s1 cats_grow_some by blast
  next
    case False
    then have "(ext, n) \<in> set rows" using r by auto
    then have "services s1 (service_id_for pid ext) = None"
        "services t (service_id_for pid ext) = Some (new_of env auto pid ext n)"
        "categories t (category_id_for (se_sha1 env) (ns_category n)) \<noteq> None"
      using rest k unfolding rows_added_def by blast+
    moreover from this(1) have "services s (service_id_for pid ext) = None"
      using one unfolding rows_added_def by (metis not_None_eq)
    ultimately show ?thesis by blast
  qed
  have only: "\<exists>ext n. (ext, n) \<in> set (row # rows) \<and> map_of known ext = None \<and> sid = service_id_for pid ext"
    if "services s sid = None" "services t sid \<noteq> None" for sid
  proof (cases "services s1 sid")
    case None
    then show ?thesis using rest that unfolding rows_added_def by (metis list.set_intros(2))
  next
    case (Some svc)
    then show ?thesis using one that unfolding rows_added_def by (metis list.set_intros(1) option.distinct(1) set_ConsD empty_iff list.set(1))
  qed
  have old: "services t sid \<noteq> None \<and> ((\<forall>ext. map_of known ext \<noteq> Some sid) \<longrightarrow> services t sid = Some svc)"
    if "services s sid = Some svc" for sid svc
  proof -
    have s1: "services s1 sid \<noteq> None" "(\<forall>ext. map_of known ext \<noteq> Some sid) \<longrightarrow> services s1 sid = Some svc"
      using one that unfolding rows_added_def by blast+
    then show ?thesis using rest unfolding rows_added_def by blast
  qed
  show ?thesis unfolding rows_added_def using grow ix new only old by blast
qed

lemma sync_rows_added:
  assumes "sync_rows env auto pid known rows (rep, s) = Inr (rep', t)" and "leads_to known s"
  shows "rows_added env auto pid known rows s t"
  using assms
proof (induction rows arbitrary: rep s)
  case Nil
  then show ?case using cats_grow_refl [of s s] by (auto simp: rows_added_def)
next
  case (Cons row rows)
  obtain ext n where row: "row = (ext, n)" by fastforce
  obtain rep1 s1 where one: "sync_row env auto pid known (ext, n) (rep, s) = Inr (rep1, s1)"
    and rest: "sync_rows env auto pid known rows (rep1, s1) = Inr (rep', t)"
    using Cons.prems(1) by (auto simp: row)
  have "leads_to known s1" using sync_row_services [OF one Cons.prems(2)] by blast
  then have later: "rows_added env auto pid known rows s1 t" by (rule Cons.IH [OF rest])
  show ?case unfolding row by (rule rows_added_Cons [OF sync_row_added [OF one Cons.prems(2)] later Cons.prems(2)])
qed

lemma update_service_tables:
  "categories (update_service i f s) = categories s" "service_ids (update_service i f s) = service_ids s"
  by (simp_all add: update_service_def)

lemma retire_missing_tables:
  "retire_missing rows known (rep, s) = (rep', t) \<Longrightarrow>
   categories t = categories s \<and> service_ids t = service_ids s \<and> (services_indexed s \<longrightarrow> services_indexed t)"
proof (induction known arbitrary: rep s)
  case (Cons k known)
  obtain ext sid where k: "k = (ext, sid)" by fastforce
  have ix: "services_indexed s \<Longrightarrow> services_indexed (update_service sid retire_service s)"
    by (rule update_service_indexed) (simp_all add: retire_service_def)
  show ?case
  proof (cases "services s sid")
    case None
    then show ?thesis using Cons by (simp add: k)
  next
    case (Some svc)
    show ?thesis
    proof (cases "map_of rows ext \<noteq> None \<or> s_is_removed_upstream svc")
      case True
      then show ?thesis using Cons Some by (simp add: k)
    next
      case False
      then obtain rep1 where "retire_missing rows known (rep1, update_service sid retire_service s) = (rep', t)"
        using Cons.prems Some by (simp add: k)
      from Cons.IH [OF this] ix show ?thesis by (simp add: update_service_tables)
    qed
  qed
qed simp

text \<open>Changes to the services that were known add nothing.\<close>

lemma rows_added_unchanged:
  assumes a: "rows_added env auto pid known rows s s1" and lt: "leads_to known s"
    and same: "\<And>sid. (\<And>ext. map_of known ext \<noteq> Some sid) \<Longrightarrow> services t sid = services s1 sid"
    and some: "\<And>sid. services t sid \<noteq> None \<longleftrightarrow> services s1 sid \<noteq> None"
    and cats: "categories t = categories s1" and ix: "services_indexed t"
  shows "rows_added env auto pid known rows s t"
proof -
  have idle: "map_of known ext \<noteq> Some sid" if "services s sid = None" for sid ext
    using that lt by (auto elim: leads_toD)
  have grow: "cats_grow s t" using a cats by (simp add: rows_added_def cats_grow_def)
  have new: "services s (service_id_for pid ext) = None \<and>
        services t (service_id_for pid ext) = Some (new_of env auto pid ext n) \<and>
        categories t (category_id_for (se_sha1 env) (ns_category n)) \<noteq> None"
    if "(ext, n) \<in> set rows" "map_of known ext = None" for ext n
  proof -
    have s1: "services s (service_id_for pid ext) = None"
        "services s1 (service_id_for pid ext) = Some (new_of env auto pid ext n)"
        "categories s1 (category_id_for (se_sha1 env) (ns_category n)) \<noteq> None"
      using a that unfolding rows_added_def by blast+
    then show ?thesis using same [OF idle [OF s1(1)]] cats by simp
  qed
  have only: "\<exists>ext n. (ext, n) \<in> set rows \<and> map_of known ext = None \<and> sid = service_id_for pid ext"
    if "services s sid = None" "services t sid \<noteq> None" for sid
    using a that some unfolding rows_added_def by blast
  have old: "services t sid \<noteq> None \<and> ((\<forall>ext. map_of known ext \<noteq> Some sid) \<longrightarrow> services t sid = Some svc)"
    if "services s sid = Some svc" for sid svc
  proof -
    have "services s1 sid \<noteq> None" "(\<forall>ext. map_of known ext \<noteq> Some sid) \<longrightarrow> services s1 sid = Some svc"
      using a that unfolding rows_added_def by blast+
    then show ?thesis using some same by metis
  qed
  show ?thesis unfolding rows_added_def using grow ix new only old by blast
qed

lemma rows_added_start_run: "rows_added env auto pid known rows (start_run pid' s) t = rows_added env auto pid known rows s t"
  by (simp add: rows_added_def cats_grow_def services_indexed_def)

lemma sync_provider_added:
  assumes run: "sync_provider env p (Inr upstream) s = Inr (rep, t)" and ok: "rep_status rep = ''ok''" and ix: "services_indexed s"
    and v: "valid_rows (se_str env) (provider_fx p) upstream [] 0 = (rows, invalid)"
  shows "rows_added env (p_auto_activate_new p) (p_id p) (known_of s (p_id p)) rows s t"
  using run
proof (cases rule: sync_provider_cases)
  case kept
  with ok show ?thesis by simp
next
  case (through upstream' rows' invalid' rep1 s1 rep2 s2)
  have rows: "rows' = rows" using through(1,2) v by simp
  have lt0: "leads_to (known_of s (p_id p)) s" by (rule known_leads_to [OF ix])
  then have lt: "leads_to (known_of s (p_id p)) (start_run (p_id p) s)" by (simp add: leads_to_def)
  have a: "rows_added env (p_auto_activate_new p) (p_id p) (known_of s (p_id p)) rows s s1"
    using sync_rows_added [OF through(3) lt] by (simp add: rows rows_added_start_run)
  have "distinct (map fst rows')" using valid_rows_distinct [OF _ through(2)] by simp
  then have lt1: "leads_to (known_of s (p_id p)) s1" using sync_rows_services [OF through(3) lt] by blast
  have kd: "distinct (map fst (known_of s (p_id p)))" unfolding known_of_def by (rule by_external_distinct)
  note m = retire_missing_services [OF through(4) lt1 kd] and tables = retire_missing_tables [OF through(4)]
  have "services_indexed s1" using a ix by (simp add: rows_added_def)
  then have s2: "services_indexed s2" using tables by blast
  show ?thesis
  proof (rule rows_added_unchanged [OF a lt0])
    show "services t sid = services s1 sid" if "\<And>ext. map_of (known_of s (p_id p)) ext \<noteq> Some sid" for sid
      using m [of sid] that by (simp add: through(7) split: option.split)
    show "services t sid \<noteq> None \<longleftrightarrow> services s1 sid \<noteq> None" for sid
      using m [of sid] by (simp add: through(7) split: option.split)
    show "categories t = categories s1" using tables by (simp add: through(8))
    show "services_indexed t" using s2 by (simp add: services_indexed_def through(7,9))
  qed
qed

lemma known_services_as_specified:
  assumes "sync_provider env p (Inr upstream) s = Inr (rep, t)" and "rep_status rep = ''ok''" and ix: "services_indexed s"
    and "valid_rows (se_str env) (provider_fx p) upstream [] 0 = (rows, invalid)" and old: "services s sid = Some old"
  shows "\<exists>svc. services t sid = Some svc \<and>
      (if map_of (known_of s (p_id p)) (s_provider_service_id old) \<noteq> Some sid then svc = old
       else case map_of rows (s_provider_service_id old) of
           Some n \<Rightarrow> refreshed (se_now env) n old svc
         | None \<Rightarrow> svc = (if s_is_removed_upstream old then old
             else old\<lparr>s_is_removed_upstream := True, s_is_active := False\<rparr>))"
proof -
  have "s_id old = sid" using ix old by (simp add: services_indexed_def)
  then show ?thesis using synced_services [OF assms(1-4), of sid] old
    by (simp add: synced_service_def tracked_def merge_refreshed retire_service_def split: option.splits)
qed

lemma new_services_as_specified:
  assumes rows_added: "rows_added env (p_auto_activate_new p) (p_id p) known rows s t"
  shows "map_of rows ext = Some n \<Longrightarrow> map_of known ext = None \<Longrightarrow> services s (service_id_for (p_id p) ext) = None \<and>
      (\<exists>svc. services t (service_id_for (p_id p) ext) = Some svc \<and> created env p ext n svc \<and> categories t (s_category_id svc) \<noteq> None)"
    and "services s sid = None \<Longrightarrow> services t sid \<noteq> None \<Longrightarrow>
      \<exists>ext. map_of rows ext \<noteq> None \<and> map_of known ext = None \<and> sid = service_id_for (p_id p) ext"
proof -
  assume row: "map_of rows ext = Some n" "map_of known ext = None"
  have "services s (service_id_for (p_id p) ext) = None"
      "services t (service_id_for (p_id p) ext) = Some (new_of env (p_auto_activate_new p) (p_id p) ext n)"
      "categories t (category_id_for (se_sha1 env) (ns_category n)) \<noteq> None"
    using rows_added row map_of_SomeD [OF row(1)] unfolding rows_added_def by blast+
  then show "services s (service_id_for (p_id p) ext) = None \<and>
      (\<exists>svc. services t (service_id_for (p_id p) ext) = Some svc \<and> created env p ext n svc \<and> categories t (s_category_id svc) \<noteq> None)"
    using new_of_created [of env p ext n] new_of_fields(2) by metis
next
  assume sid: "services s sid = None" "services t sid \<noteq> None"
  obtain ext n where e: "(ext, n) \<in> set rows" "map_of known ext = None" "sid = service_id_for (p_id p) ext"
    using rows_added sid unfolding rows_added_def by blast
  then have "map_of rows ext \<noteq> None" by (force simp: map_of_eq_None_iff)
  with e show "\<exists>ext. map_of rows ext \<noteq> None \<and> map_of known ext = None \<and> sid = service_id_for (p_id p) ext" by blast
qed

text \<open>
  C13: The synchronisation implements its specification. After a synchronisation that goes through, every
  service that was there is, field by field, what the specification says: refreshed from the provider's
  last valid row of its external id, or marked as removed and deactivated when the provider no longer
  lists it, or untouched when it is another provider's (or an older double); every valid row that no
  service stood for has become a new service with exactly the listed name, limits, price, type and
  flags, in an existing category, active only if the operator opted in and the type is supported;
  no other service has appeared, and categories were only added and switched on.
\<close>

theorem sync_implements_spec:
  assumes "sync_provider env p (Inr upstream) s = Inr (rep, t)" and "rep_status rep = ''ok''"
    and "services_indexed s"
  shows "sync_spec env p upstream s t"
proof -
  obtain rows invalid where v: "valid_rows (se_str env) (provider_fx p) upstream [] 0 = (rows, invalid)"
    by fastforce
  have lists: "listed (se_str env) (provider_fx p) upstream ext = map_of rows ext" for ext
    using valid_rows_listed [OF v, of ext] by (simp split: option.splits)
  have known: "newest_under (p_id p) (all_services s) ext = map_of (known_of s (p_id p)) ext" for ext
    by (simp add: newest_under_by_external)
  note rows_added = sync_provider_added [OF assms v]
  then have grow: "cats_grow s t" by (simp add: rows_added_def)
  note old = known_services_as_specified [OF assms v] and new = new_services_as_specified [OF rows_added]
  show ?thesis
    unfolding sync_spec_def Let_def lists known using old new grow by blast
qed

section \<open>The documented guarantees\<close>

text \<open>
  A bad answer never replaces the catalogue. When the provider's request failed or its answer was
  judged malformed, no service and no category changed.
\<close>

theorem failed_sync_keeps_catalog:
  assumes "sync_provider env p answer s = Inr (rep, t)" and "rep_status rep \<noteq> ''ok''"
  shows "services t = services s \<and> service_ids t = service_ids s \<and> categories t = categories s \<and>
    category_ids t = category_ids s"
  using assms by (cases rule: sync_provider_cases) simp_all

lemma synced_service_fields:
  "s_is_active (synced_service now rows k svc) \<Longrightarrow> s_is_active svc"
  by (auto simp: synced_service_def merge_service_def retire_service_def split: option.split_asm if_split_asm)

text \<open>
  C14: Nothing becomes sellable by itself. A service that is active after a synchronisation was active
  before, or it is new, its type is supported and the operator had opted the provider in.
\<close>

theorem sync_activates_only_opted_in:
  assumes "sync_provider env p answer s = Inr (rep, t)" and "services_indexed s"
    and "services t sid = Some svc" and "s_is_active svc"
  shows "(\<exists>old. services s sid = Some old \<and> s_is_active old) \<or>
    (services s sid = None \<and> p_auto_activate_new p \<and>
      s_service_type svc \<in> {''default'', ''comments'', ''mentions''})"
  using assms(1)
proof (cases rule: sync_provider_cases)
  case kept
  with assms show ?thesis by auto
next
  case (through upstream rows invalid rep1 s1 rep2 s2)
  have st: "sync_provider env p (Inr upstream) s = Inr (rep, t)" using assms(1) through(1) by simp
  note spec = synced_services [OF st through(5) assms(2) through(2), of sid]
  show ?thesis
  proof (cases "services s sid")
    case (Some old)
    with spec assms(3,4) synced_service_fields show ?thesis by auto
  next
    case None
    then have "fresh_service (p_auto_activate_new p) (p_id p) rows svc" using spec assms(3) by simp
    then obtain n where "s_is_active svc = (p_auto_activate_new p \<and> supported n)"
      "s_service_type svc = form_value (ns_service_type n)"
      unfolding fresh_service_def by blast
    with None assms(4) show ?thesis by (cases "ns_service_type n") (auto simp: supported_def)
  qed
qed

text \<open>
  What is sellable is listed. After a synchronisation that went through, every active service of
  the provider has a row in the provider's answer that passed the validation, and the service's
  price and limits are those of that row.
\<close>

theorem synced_catalog_is_listed:
  assumes "sync_provider env p (Inr upstream) s = Inr (rep, t)" and "rep_status rep = ''ok''"
    and "services_indexed s" and "distinct (map s_provider_service_id (provider_services s (p_id p)))"
    and "\<forall>sid svc. services s sid = Some svc \<longrightarrow> s_is_active svc \<longrightarrow> \<not> s_is_removed_upstream svc"
    and "services t sid = Some svc" and "s_provider_id svc = p_id p" and "s_is_active svc"
  shows "\<exists>item \<in> set upstream. \<exists>n. normalize_service (se_str env) (provider_fx p) (raw_of item) = Some n \<and>
    ns_external_id n = s_provider_service_id svc \<and> rate_per_1000_paise svc = ns_rate_per_1000_paise n \<and>
    s_min_qty svc = ns_min_qty n \<and> s_max_qty svc = ns_max_qty n"
proof -
  obtain rows invalid where v: "valid_rows (se_str env) (provider_fx p) upstream [] 0 = (rows, invalid)"
    by fastforce
  note spec = synced_services [OF assms(1-3) v, of sid]
  have "\<exists>n. map_of rows (s_provider_service_id svc) = Some n \<and> rate_per_1000_paise svc = ns_rate_per_1000_paise n \<and>
      s_min_qty svc = ns_min_qty n \<and> s_max_qty svc = ns_max_qty n"
  proof (cases "services s sid")
    case None
    with spec assms(6) show ?thesis by (auto simp: fresh_service_def)
  next
    case (Some old)
    then have svc: "svc = synced_service (se_now env) rows (tracked s (p_id p) old) old" using spec assms(6) by simp
    have prov: "s_provider_id old = p_id p"
      using assms(7) by (auto simp: svc synced_service_def retire_service_def split: if_split_asm option.split_asm)
    have i: "s_id old = sid" "sid \<in> set (service_ids s)" using assms(3) Some by (auto simp: services_indexed_def)
    then have "old \<in> set (provider_services s (p_id p))"
      using Some prov by (force simp: provider_services_def all_services_def List.map_filter_def)
    then have tr: "tracked s (p_id p) old"
      using by_external_complete [OF assms(4)] by (simp add: tracked_def known_of_def)
    have "\<not> s_is_removed_upstream old"
      using assms(5) Some synced_service_fields assms(8) svc by blast
    with tr assms(8) show ?thesis
      by (auto simp: svc synced_service_def retire_service_def split: option.split_asm)
  qed
  then obtain n where n: "map_of rows (s_provider_service_id svc) = Some n" "rate_per_1000_paise svc = ns_rate_per_1000_paise n"
    "s_min_qty svc = ns_min_qty n" "s_max_qty svc = ns_max_qty n" by blast
  with valid_rows_accepted [OF v map_of_SomeD [OF n(1)]] show ?thesis by auto
qed

text \<open>Synchronisations one after another; an exception leaves nothing behind.\<close>

type_synonym sync_run_input = "sync_env \<times> provider_row \<times> provider_service list res"

fun after_syncs :: "sync_run_input list \<Rightarrow> db \<Rightarrow> db" where
  "after_syncs [] s = s"
| "after_syncs ((env, p, answer) # runs) s =
     after_syncs runs (case sync_provider env p answer s of Inl e \<Rightarrow> s | Inr (rep, t) \<Rightarrow> t)"

text \<open>Some answer has a valid row with this very name.\<close>

definition offers_name :: "string \<Rightarrow> sync_run_input \<Rightarrow> bool" where
  "offers_name nm = (\<lambda>(env, p, answer). case answer of Inl e \<Rightarrow> False | Inr upstream \<Rightarrow>
     list_ex (\<lambda>item. case normalize_service (se_str env) (provider_fx p) (raw_of item) of
       None \<Rightarrow> False | Some n \<Rightarrow> ns_name n = nm) upstream)"

text \<open>The shop's name is not the one that the provider had when it was last listed.\<close>

definition name_edited :: "service_row \<Rightarrow> bool" where
  "name_edited svc \<longleftrightarrow> (\<exists>x. s_external_name svc = Some x \<and> x \<noteq> s_name svc)"

lemma sync_keeps_index:
  assumes "sync_provider env p answer s = Inr (rep, t)" and ix: "services_indexed s"
  shows "services_indexed t"
  using assms(1)
proof (cases rule: sync_provider_cases)
  case kept
  with ix show ?thesis by (simp add: services_indexed_def)
next
  case (through upstream rows invalid rep1 s1 rep2 s2)
  have lt: "leads_to (known_of s (p_id p)) (start_run (p_id p) s)"
    using known_leads_to [OF ix] by (simp add: leads_to_def)
  have "services_indexed (start_run (p_id p) s)" using ix by (simp add: services_indexed_def)
  then have "services_indexed s1" using sync_rows_added [OF through(3) lt] by (simp add: rows_added_def)
  then have "services_indexed s2" using retire_missing_tables [OF through(4)] by blast
  then show ?thesis by (simp add: services_indexed_def through(7,9))
qed

lemma synced_service_edits:
  "same_edits old (synced_service now rows tr old)"
  "name_edited old \<Longrightarrow> s_name (synced_service now rows tr old) = s_name old"
  by (auto simp: same_edits_def synced_service_def retire_service_def name_edited_def followed_name_def split: option.split)

lemma synced_service_stays_edited:
  assumes "name_edited old" and "\<And>n. map_of rows (s_provider_service_id old) = Some n \<Longrightarrow> ns_name n \<noteq> s_name old"
  shows "name_edited (synced_service now rows tr old)"
  using assms synced_service_edits(2) [OF assms(1)]
  by (auto simp: synced_service_def retire_service_def name_edited_def followed_name_def merge_service_def split: option.splits)

lemma sync_keeps_edits:
  assumes run: "sync_provider env p answer s = Inr (rep, t)" and ix: "services_indexed s" and old: "services s sid = Some old"
  shows "\<exists>svc. services t sid = Some svc \<and> same_edits old svc \<and>
    (name_edited old \<longrightarrow> s_name svc = s_name old \<and> (\<not> offers_name (s_name old) (env, p, answer) \<longrightarrow> name_edited svc))"
  using run
proof (cases rule: sync_provider_cases)
  case kept
  with old show ?thesis by (simp add: same_edits_def)
next
  case (through upstream rows invalid rep1 s1 rep2 s2)
  have st: "sync_provider env p (Inr upstream) s = Inr (rep, t)" using run through(1) by simp
  let ?new = "synced_service (se_now env) rows (tracked s (p_id p) old) old"
  have "services t sid = Some ?new"
    using synced_services [OF st through(5) ix through(2), of sid] old by simp
  moreover have "name_edited ?new" if e: "name_edited old" "\<not> offers_name (s_name old) (env, p, answer)"
  proof (rule synced_service_stays_edited [OF e(1)])
    fix n assume "map_of rows (s_provider_service_id old) = Some n"
    then obtain item where "item \<in> set upstream" "normalize_service (se_str env) (provider_fx p) (raw_of item) = Some n"
      using valid_rows_accepted [OF through(2)] map_of_SomeD by fastforce
    then show "ns_name n \<noteq> s_name old" using e(2) by (auto simp: offers_name_def through(1) list_ex_iff)
  qed
  ultimately show ?thesis using synced_service_edits by blast
qed

lemma same_edits_trans: "same_edits a b \<Longrightarrow> same_edits b c \<Longrightarrow> same_edits a c"
  by (simp add: same_edits_def)

text \<open>
  C15: An administrator's edits survive. Whatever synchronisations run one after another, for whatever
  providers and with whatever answers: a service never disappears, and its description, its category,
  its markups and its average time are those it had. Its name, once edited, so that it differs from the
  provider's name on record, is kept as well, as long as no answer offers a service of exactly this name.
\<close>

theorem sync_keeps_admin_edits:
  assumes "services_indexed s" and "services s sid = Some old"
  shows "\<exists>svc. services (after_syncs runs s) sid = Some svc \<and> s_description svc = s_description old \<and>
    s_category_id svc = s_category_id old \<and> s_markup_percent svc = s_markup_percent old \<and>
    s_markup_fixed_paise svc = s_markup_fixed_paise old \<and> s_average_time svc = s_average_time old \<and>
    (name_edited old \<and> \<not> list_ex (offers_name (s_name old)) runs \<longrightarrow> s_name svc = s_name old)"
proof -
  have "\<exists>svc. services (after_syncs runs s) sid = Some svc \<and> same_edits old svc \<and>
      (name_edited old \<and> \<not> list_ex (offers_name (s_name old)) runs \<longrightarrow> s_name svc = s_name old)"
    using assms
  proof (induction runs arbitrary: s old)
    case Nil
    then show ?case by (simp add: same_edits_def)
  next
    case (Cons r runs)
    obtain env p answer where r: "r = (env, p, answer)" by (metis prod_cases3)
    show ?case
    proof (cases "sync_provider env p answer s")
      case (Inl e)
      then show ?thesis using Cons.IH [OF Cons.prems] by (auto simp: r)
    next
      case (Inr res)
      obtain rep t where run: "sync_provider env p answer s = Inr (rep, t)" using Inr by (cases res) simp
      obtain svc where svc: "services t sid = Some svc" "same_edits old svc"
        "name_edited old \<longrightarrow> s_name svc = s_name old \<and> (\<not> offers_name (s_name old) (env, p, answer) \<longrightarrow> name_edited svc)"
        using sync_keeps_edits [OF run Cons.prems] by blast
      from Cons.IH [OF sync_keeps_index [OF run Cons.prems(1)] svc(1)] same_edits_trans [OF svc(2)] svc(3) run
      show ?thesis by (auto simp: r)
    qed
  qed
  then show ?thesis unfolding same_edits_def by blast
qed

section \<open>A sample synchronisation\<close>

definition sample_provider :: provider_row where
  "sample_provider = \<lparr>p_id = ''p1'', p_name = ''Panel'', p_adapter_type = Some ''perfectpanel'', p_base_url = None,
     p_encrypted_api_key = None, p_is_active = True, p_markup_percent = None, p_markup_fixed_paise = None,
     p_fx_to_inr = 1, p_auto_activate_new = True, p_last_sync_at = None, p_last_sync_status = None\<rparr>"

definition sample_upstream :: "provider_service list" where
  "sample_upstream = [\<lparr>ps_external_id = ''42'', ps_name = ''Likes'', ps_category = ''Other'', ps_rate = Fin 12,
     ps_min_qty = 10, ps_max_qty = 1000, ps_service_type = ''Default'', ps_refill = True, ps_cancel = False,
     ps_extra = []\<rparr>]"

definition sample_sync_env :: sync_env where
  "sample_sync_env = \<lparr>se_glyph = \<lambda>_. ''*'', se_sha1 = \<lambda>_. ''abcdef'', se_str = \<lambda>_. [], se_now = 5\<rparr>"

definition sample_row :: normalized_service where
  "sample_row = \<lparr>ns_external_id = ''42'', ns_name = ''Likes'', ns_category = ''Other'',
     ns_rate_per_1000_paise = 1200, ns_min_qty = 10, ns_max_qty = 1000, ns_service_type = Form_default,
     ns_raw_type = ''Default'', ns_refill = True, ns_cancel = False\<rparr>"

lemma sample_valid_rows: "valid_rows (\<lambda>_. []) 1 sample_upstream [] 0 = ([(''42'', sample_row)], 0)"
proof -
  have n: "normalize_service (\<lambda>_. []) 1 (raw_of (hd sample_upstream)) = Some sample_row" by code_simp
  have "ns_external_id sample_row = ''42''" by (simp add: sample_row_def)
  with n have "valid_rows (\<lambda>_. []) 1 [hd sample_upstream] [] 0 = ([(''42'', sample_row)], 0)" by simp
  moreover have "[hd sample_upstream] = sample_upstream" by (simp add: sample_upstream_def)
  ultimately show ?thesis by simp
qed

definition synced_shop :: db where
  "synced_shop = empty_db\<lparr>providers := [''p1'' \<mapsto> sample_provider]\<rparr>"

lemma synced_shop_simps [simp]:
  "services synced_shop = Map.empty" "service_ids synced_shop = []" "sync_runs synced_shop = []"
  "providers synced_shop = [''p1'' \<mapsto> sample_provider]" "categories synced_shop = Map.empty"
  by (simp_all add: synced_shop_def empty_db_def)

lemma synced_shop_indexed: "services_indexed synced_shop" by (simp add: services_indexed_def)

lemma sample_sync:
  obtains rep t svc where
    "sync_provider sample_sync_env sample_provider (Inr sample_upstream) synced_shop = Inr (rep, t)"
    "rep_status rep = ''ok''" "services t (s_id svc) = Some svc" "s_is_active svc" "s_provider_id svc = ''p1''"
proof -
  let ?s = "start_run ''p1'' synced_shop"
  let ?r = "(new_report ''p1'')\<lparr>rep_skipped_invalid := 0\<rparr>"
  have p: "provider_fx sample_provider = 1" "p_id sample_provider = ''p1''" "p_auto_activate_new sample_provider"
    "se_str sample_sync_env = (\<lambda>_. [])"
    by (simp_all add: provider_fx_def sample_provider_def sample_sync_env_def)
  have known: "provider_services ?s ''p1'' = []" "by_external [] = []"
    by (simp_all add: provider_services_def all_services_def List.map_filter_def by_external_def)
  have lm: "looks_malformed 0 (Suc 0) 0 = None" by (simp add: looks_malformed_def)
  obtain rep1 t1 where add: "add_service (se_glyph sample_sync_env) (se_sha1 sample_sync_env)
      (se_now sample_sync_env) True ''p1'' ''42'' sample_row (?r, ?s) = Inr (rep1, t1)"
  proof -
    obtain cid s1 where c: "ensure_category (se_sha1 sample_sync_env) (ns_category sample_row)
        (supported sample_row) ?s = (cid, s1)" by fastforce
    then have "services s1 = Map.empty"
      using ensure_category_services [of "se_sha1 sample_sync_env" "ns_category sample_row" "supported sample_row" ?s]
      by simp
    with c show thesis by (intro that) (simp add: add_service_def insert_service_def Let_def)
  qed
  have rows: "sync_rows sample_sync_env True ''p1'' [] [(''42'', sample_row)] (?r, ?s) = Inr (rep1, t1)"
    using add by (simp add: sync_row_def)
  have st: "rep_status rep1 = ''ok''" using sync_rows_status [OF rows] by (simp add: new_report_def)
  have "sync_provider sample_sync_env sample_provider (Inr sample_upstream) synced_shop
      = Inr (finish_sync sample_sync_env ''p1'' rep1 t1)"
    using rows sample_valid_rows lm known by (simp add: sync_provider_def sync_answer_def p Let_def)
  then have run: "sync_provider sample_sync_env sample_provider (Inr sample_upstream) synced_shop
      = Inr (rep1, snd (finish_sync sample_sync_env ''p1'' rep1 t1))"
    by (metis finish_sync_tables(5) prod.collapse)
  obtain svc where svc: "services t1 = (services ?s)(s_id svc \<mapsto> svc)" "s_provider_id svc = ''p1''"
      "s_is_active svc = (True \<and> supported sample_row)"
    using add by (rule add_service_services) blast
  have "supported sample_row" by (simp add: supported_def sample_row_def)
  with svc show thesis by (intro that [OF run st, of svc]) simp_all
qed

theorem sync_implements_spec_witness:
  "\<exists>rep t svc. sync_provider sample_sync_env sample_provider (Inr sample_upstream) synced_shop = Inr (rep, t) \<and>
     sync_spec sample_sync_env sample_provider sample_upstream synced_shop t \<and>
     services t (service_id_for ''p1'' ''42'') = Some svc \<and> created sample_sync_env sample_provider ''42'' sample_row svc"
proof -
  obtain rep t where run: "sync_provider sample_sync_env sample_provider (Inr sample_upstream) synced_shop
      = Inr (rep, t)" and ok: "rep_status rep = ''ok''"
    by (rule sample_sync)
  have p: "provider_fx sample_provider = 1" "p_id sample_provider = ''p1''" "se_str sample_sync_env = (\<lambda>_. [])"
    by (simp_all add: provider_fx_def sample_provider_def sample_sync_env_def)
  have "listed (\<lambda>_. []) 1 sample_upstream ''42'' = Some sample_row"
    using valid_rows_listed [OF sample_valid_rows, of "''42''"] by (simp split: option.splits)
  moreover have "newest_under ''p1'' (all_services synced_shop) ''42'' = None"
    by (simp add: newest_under_def all_services_def List.map_filter_def)
  moreover have spec: "sync_spec sample_sync_env sample_provider sample_upstream synced_shop t"
    using run ok synced_shop_indexed by (rule sync_implements_spec)
  ultimately have "\<exists>svc. services t (service_id_for ''p1'' ''42'') = Some svc \<and> created sample_sync_env sample_provider ''42'' sample_row svc"
    unfolding sync_spec_def Let_def p by blast
  with run spec show ?thesis by blast
qed

theorem failed_sync_keeps_catalog_witness:
  "\<exists>rep t. sync_provider sample_sync_env sample_provider (Inl (ProviderError ''timeout'' True)) synced_shop
     = Inr (rep, t) \<and> services t = Map.empty"
proof -
  let ?run = "sync_provider sample_sync_env sample_provider (Inl (ProviderError ''timeout'' True)) synced_shop"
  obtain rep t where run: "?run = Inr (rep, t)"
    by (cases "finish_sync sample_sync_env (p_id sample_provider) ((new_report (p_id sample_provider))\<lparr>rep_status := ''error'',
      rep_detail := ''provider request failed: '' @ take 120 ''timeout''\<rparr>) (start_run (p_id sample_provider) synced_shop)")
      (simp add: sync_provider_def Let_def)
  have "rep_status rep \<noteq> ''ok''"
    using run by (auto simp: sync_provider_def Let_def finish_sync_def)
  from failed_sync_keeps_catalog [OF run this] run show ?thesis by simp
qed

theorem sync_activates_only_opted_in_witness:
  "\<exists>rep t svc. sync_provider sample_sync_env sample_provider (Inr sample_upstream) synced_shop = Inr (rep, t) \<and>
     services t (s_id svc) = Some svc \<and> s_service_type svc \<in> {''default'', ''comments'', ''mentions''}"
proof -
  obtain rep t svc where run: "sync_provider sample_sync_env sample_provider (Inr sample_upstream) synced_shop
      = Inr (rep, t)" and svc: "services t (s_id svc) = Some svc" "s_is_active svc"
    by (rule sample_sync)
  from sync_activates_only_opted_in [OF run synced_shop_indexed svc] run svc show ?thesis by auto
qed

theorem synced_catalog_is_listed_witness:
  "\<exists>rep t svc. sync_provider sample_sync_env sample_provider (Inr sample_upstream) synced_shop = Inr (rep, t) \<and>
     services t (s_id svc) = Some svc \<and>
     (\<exists>item \<in> set sample_upstream. \<exists>n. normalize_service (\<lambda>_. []) 1 (raw_of item) = Some n \<and>
        rate_per_1000_paise svc = ns_rate_per_1000_paise n)"
proof -
  obtain rep t svc where run: "sync_provider sample_sync_env sample_provider (Inr sample_upstream) synced_shop
      = Inr (rep, t)" and ok: "rep_status rep = ''ok''" and svc: "services t (s_id svc) = Some svc"
      and a: "s_is_active svc" and pid: "s_provider_id svc = ''p1''"
    by (rule sample_sync)
  have p: "provider_fx sample_provider = 1" "p_id sample_provider = ''p1''" "se_str sample_sync_env = (\<lambda>_. [])"
    by (simp_all add: provider_fx_def sample_provider_def sample_sync_env_def)
  have none: "provider_services synced_shop (p_id sample_provider) = []"
    by (simp add: provider_services_def all_services_def List.map_filter_def)
  show ?thesis
    using synced_catalog_is_listed [OF run ok synced_shop_indexed _ _ svc _ a] pid run svc none
    by (auto simp: p)
qed

text \<open>A service with every edit, whose price the next synchronisation changes.\<close>

definition edited_service :: service_row where
  "edited_service = (new_service ''p1'' 3 ''c'' True ''42'' (sample_row\<lparr>ns_rate_per_1000_paise := 900\<rparr>))
     \<lparr>s_name := ''Best likes'', s_description := Some ''Fast'', s_markup_percent := Some 20\<rparr>"

definition edited_shop :: db where
  "edited_shop = synced_shop\<lparr>services := [s_id edited_service \<mapsto> edited_service],
     service_ids := [s_id edited_service]\<rparr>"

lemma edited_fields:
  "s_name edited_service = ''Best likes''" "s_external_name edited_service = Some ''Likes''"
  "s_description edited_service = Some ''Fast''" "s_markup_percent edited_service = Some 20"
  "s_provider_service_id edited_service = ''42''" "s_provider_id edited_service = ''p1''"
  "\<not> s_is_removed_upstream edited_service"
  by (simp_all add: edited_service_def new_service_def sample_row_def)

lemma edited_shop_simps:
  "services edited_shop = [s_id edited_service \<mapsto> edited_service]" "all_services edited_shop = [edited_service]"
  "services_indexed edited_shop"
  by (simp_all add: edited_shop_def all_services_def List.map_filter_def services_indexed_def)

lemma edited_sync:
  obtains rep t where "sync_provider sample_sync_env sample_provider (Inr sample_upstream) edited_shop = Inr (rep, t)"
    "services t (s_id edited_service) = Some (merge_service 5 sample_row edited_service)"
proof -
  let ?run = "sync_provider sample_sync_env sample_provider (Inr sample_upstream) edited_shop"
  have p: "provider_fx sample_provider = 1" "p_id sample_provider = ''p1''" "p_auto_activate_new sample_provider"
    "se_str sample_sync_env = (\<lambda>_. [])" "se_now sample_sync_env = 5"
    by (simp_all add: provider_fx_def sample_provider_def sample_sync_env_def)
  have ps: "provider_services edited_shop ''p1'' = [edited_service]"
    by (simp add: provider_services_def edited_shop_simps edited_fields)
  have bx: "by_external [edited_service] = [(''42'', s_id edited_service)]"
    by (simp add: by_external_def edited_fields)
  have lm: "looks_malformed (Suc 0) (Suc 0) 0 = None" by (simp add: looks_malformed_def)
  have "\<exists>rep t. ?run = Inr (rep, t) \<and> rep_status rep = ''ok''"
    by (simp add: sync_provider_def sync_answer_def p sample_valid_rows ps bx edited_fields lm Let_def sync_row_def
        edited_shop_simps update_service_def merge_report_def new_report_def finish_sync_def audit_def)
  then obtain rep t where run: "?run = Inr (rep, t)" and ok: "rep_status rep = ''ok''" by blast
  have v: "valid_rows (se_str sample_sync_env) (provider_fx sample_provider) sample_upstream [] 0 = ([(''42'', sample_row)], 0)"
    by (simp add: p sample_valid_rows)
  have "tracked edited_shop ''p1'' edited_service"
    by (simp add: tracked_def known_of_def ps bx edited_fields)
  then have "services t (s_id edited_service) = Some (merge_service 5 sample_row edited_service)"
    using synced_services [OF run ok edited_shop_simps(3) v, of "s_id edited_service"]
    by (simp add: edited_shop_simps p synced_service_def edited_fields)
  with run show thesis by (rule that)
qed

definition sample_runs :: "sync_run_input list" where
  "sample_runs = [(sample_sync_env, sample_provider, Inr sample_upstream),
     (sample_sync_env, sample_provider, Inl (ProviderError ''timeout'' True))]"

lemma failed_sync_idle:
  obtains t' where "after_syncs [(env, p, Inl (ProviderError m b))] t = t'" "services t' = services t"
proof -
  have "services (after_syncs [(env, p, Inl (ProviderError m b))] t) = services t"
  proof (cases "sync_provider env p (Inl (ProviderError m b)) t")
    case (Inr r)
    then obtain rep u where run: "sync_provider env p (Inl (ProviderError m b)) t = Inr (rep, u)" by (cases r) auto
    from run have "services u = services t" by (cases rule: sync_provider_cases) simp_all
    with run show ?thesis by simp
  qed simp
  then show thesis by (rule that [OF refl])
qed

theorem sync_keeps_admin_edits_witness:
  "\<exists>svc. services (after_syncs sample_runs edited_shop) (s_id edited_service) = Some svc \<and> s_name svc = ''Best likes'' \<and>
     s_description svc = Some ''Fast'' \<and> s_markup_percent svc = Some 20 \<and> rate_per_1000_paise svc = 1200"
proof -
  obtain rep t where run: "sync_provider sample_sync_env sample_provider (Inr sample_upstream) edited_shop = Inr (rep, t)"
    and t: "services t (s_id edited_service) = Some (merge_service 5 sample_row edited_service)"
    by (rule edited_sync)
  obtain t' where t': "after_syncs [(sample_sync_env, sample_provider, Inl (ProviderError ''timeout'' True))] t = t'"
      "services t' = services t" by (rule failed_sync_idle)
  have after: "after_syncs sample_runs edited_shop = t'"
    using run t'(1) by (simp add: sample_runs_def)
  have rate: "rate_per_1000_paise (merge_service 5 sample_row edited_service) = 1200"
    by (simp add: sample_row_def)
  have row: "normalize_service (\<lambda>_. []) 1 (raw_of (hd sample_upstream)) = Some sample_row" by code_simp
  have quiet: "\<not> list_ex (offers_name (s_name edited_service)) sample_runs"
  proof -
    have "list_ex Q sample_upstream = Q (hd sample_upstream)" for Q by (simp add: sample_upstream_def)
    then show ?thesis
      using row by (simp add: sample_runs_def offers_name_def edited_fields sample_row_def provider_fx_def sample_provider_def sample_sync_env_def)
  qed
  have "name_edited edited_service" by (simp add: name_edited_def edited_fields)
  then show ?thesis
    using sync_keeps_admin_edits [OF edited_shop_simps(3), of "s_id edited_service" edited_service sample_runs] quiet rate t t'(2)
    by (simp add: after edited_shop_simps edited_fields)
qed

end
