(* ===== verification/Accounts.thy ===== *)
theory Accounts
  imports Referrals Config
begin

text \<open>
  The accounts of the bot's users: \<open>get_or_create_user\<close> of \<open>app/wallet.py\<close>, the start and terms
  screens of \<open>app/bot/handlers/start.py\<close>, the administrators' tools of
  \<open>app/bot/handlers/admin.py\<close> and the operator commands of \<open>app/cli.py\<close> that change users,
  wallets, applications, settings and services. A handler is modelled by what it writes and by the
  outcome it reports; the texts and keyboards that it sends are left out. The lemmas show who may
  do what, that the welcome bonus is given once, and what an adjustment does to a wallet.
\<close>

section \<open>Users\<close>

record telegram_user =
  tu_id :: int
  tu_username :: "string option"
  tu_first_name :: "string option"
  tu_last_name :: "string option"
  tu_language :: "string option"

definition first_row :: "telegram_user \<Rightarrow> int option \<Rightarrow> user_row" where
  "first_row q owner =
     (new_user (tu_id q))\<lparr>u_username := tu_username q, u_first_name := tu_first_name q,
       u_last_name := tu_last_name q,
       u_language_code := take 8 (case tu_language q of None \<Rightarrow> ''en'' | Some [] \<Rightarrow> ''en'' | Some l \<Rightarrow> l),
       u_role := (if owner = Some (tu_id q) then ''owner'' else ''user'')\<rparr>"

definition given :: "'a option \<Rightarrow> 'a option \<Rightarrow> 'a option" where
  "given new old = (case new of None \<Rightarrow> old | Some x \<Rightarrow> Some x)"

definition refresh_profile :: "telegram_user \<Rightarrow> int option \<Rightarrow> user_row \<Rightarrow> user_row" where
  "refresh_profile q owner u =
     u\<lparr>u_username := given (tu_username q) (u_username u),
       u_first_name := given (tu_first_name q) (u_first_name u),
       u_last_name := given (tu_last_name q) (u_last_name u),
       u_language_code := (case tu_language q of None \<Rightarrow> u_language_code u | Some [] \<Rightarrow> u_language_code u
         | Some l \<Rightarrow> take 8 l),
       u_role := (if owner = Some (tu_id q) then ''owner'' else u_role u)\<rparr>"

text \<open>
  The nested transaction that handles two first requests at once cannot fail when one session runs
  at a time; \<open>ensure_owner_partners\<close> itself checks the role.
\<close>

definition get_or_create_user ::
  "(string \<Rightarrow> nat list) \<Rightarrow> telegram_user \<Rightarrow> int option \<Rightarrow> db \<Rightarrow> (int \<times> db) res" where
  "get_or_create_user D q owner s =
     (let uid = tu_id q in
      case users s uid of
        None \<Rightarrow>
          e_bind (ensure_referral_code D uid
            (s\<lparr>users := (users s)(uid \<mapsto> first_row q owner), user_ids := user_ids s @ [uid]\<rparr>)) (\<lambda>(c, s).
          e_bind (ensure_owner_partners uid s) (\<lambda>s. Inr (uid, s)))
      | Some u \<Rightarrow>
          e_bind (ensure_referral_code D uid (update_user uid (refresh_profile q owner) s)) (\<lambda>(c, s).
          e_bind (ensure_owner_partners uid s) (\<lambda>s. Inr (uid, s))))"

definition is_staff :: "settings \<Rightarrow> user_row \<Rightarrow> bool" where
  "is_staff st u \<longleftrightarrow> u_role u \<in> set [''admin'', ''owner''] \<or> telegram_id u = owner_telegram_id st"

definition ensure_user ::
  "(string \<Rightarrow> nat list) \<Rightarrow> settings \<Rightarrow> telegram_user \<Rightarrow> db \<Rightarrow> (int \<times> db) res" where
  "ensure_user D st q s = get_or_create_user D q (Some (owner_telegram_id st)) s"

section \<open>The start and terms screens\<close>

datatype screen = Suspended | Terms | Home

text \<open>The payload of the start link, and the screen that follows.\<close>

definition start_link :: "string \<Rightarrow> int \<Rightarrow> db \<Rightarrow> db res" where
  "start_link arg uid s =
     (if strip arg = [] then Inr s else e_bind (record_start_hit (strip arg) uid s) (\<lambda>(r, s). Inr s))"

definition render_home :: "settings \<Rightarrow> int \<Rightarrow> db \<Rightarrow> (screen \<times> db) res" where
  "render_home st uid s = e_bind (partner_flags (owner_telegram_id st) uid s) (\<lambda>(flags, s). Inr (Home, s))"

definition first_screen :: "settings \<Rightarrow> int \<Rightarrow> db \<Rightarrow> (screen \<times> db) res" where
  "first_screen st uid s =
     e_bind (lock_user uid s) (\<lambda>u.
       if u_is_banned u then Inr (Suspended, s)
       else if u_terms_accepted_at u = None then Inr (Terms, s)
       else render_home st uid s)"

definition cmd_start ::
  "(string \<Rightarrow> nat list) \<Rightarrow> settings \<Rightarrow> telegram_user \<Rightarrow> string \<Rightarrow> db \<Rightarrow> (screen \<times> db) res" where
  "cmd_start D st q arg s =
     e_bind (ensure_user D st q s) (\<lambda>(uid, s).
     e_bind (start_link arg uid s) (\<lambda>s. first_screen st uid s))"

definition welcome_amount :: "settings \<Rightarrow> db \<Rightarrow> int" where
  "welcome_amount st s =
     (case parse_int (get_setting s ''welcome_bonus_paise'' (str_int (welcome_bonus_paise st))) of
        None \<Rightarrow> welcome_bonus_paise st | Some n \<Rightarrow> n)"

definition accept_row :: "int \<Rightarrow> user_row \<Rightarrow> user_row" where
  "accept_row now u =
     (if u_terms_accepted_at u = None
      then u\<lparr>u_terms_accepted_at := Some now, u_privacy_accepted_at := Some now\<rparr> else u)"

definition welcome_key :: "int \<Rightarrow> string" where
  "welcome_key uid = ''welcome:'' @ str_int uid"

definition bonus_ref :: entry_refs where
  "bonus_ref = \<lparr>ref_type = Some ''bonus'', ref_id = Some ''welcome'', ref_by = None, ref_meta = None\<rparr>"

definition grant_row :: "user_row \<Rightarrow> user_row" where
  "grant_row u = u\<lparr>u_welcome_bonus_granted := True\<rparr>"

definition welcome_bonus :: "digest \<Rightarrow> settings \<Rightarrow> int \<Rightarrow> db \<Rightarrow> db res" where
  "welcome_bonus H st uid s =
     e_bind (lock_user uid s) (\<lambda>u.
       if u_welcome_bonus_granted u \<or> welcome_amount st s \<le> 0 then Inr s
       else e_bind (credit H uid (welcome_amount st s) ''Welcome bonus'' (Some (welcome_key uid)) bonus_ref s)
              (\<lambda>(e, s). Inr (update_user uid grant_row s)))"

definition accept_terms ::
  "digest \<Rightarrow> (string \<Rightarrow> nat list) \<Rightarrow> int \<Rightarrow> settings \<Rightarrow> telegram_user \<Rightarrow> db \<Rightarrow> (screen \<times> db) res" where
  "accept_terms H D now st q s =
     e_bind (ensure_user D st q s) (\<lambda>(uid, s).
     e_bind (welcome_bonus H st uid (update_user uid (accept_row now) s)) (\<lambda>s. render_home st uid s))"

section \<open>Administrators\<close>

text \<open>
  Every tool begins by registering the sender and goes on only for staff; \<open>None\<close> stands for the
  refusal. \<open>f\<close> is the rest of the handler.
\<close>

definition as_staff ::
  "(string \<Rightarrow> nat list) \<Rightarrow> settings \<Rightarrow> telegram_user \<Rightarrow> (int \<Rightarrow> db \<Rightarrow> ('a \<times> db) res) \<Rightarrow> db
    \<Rightarrow> ('a option \<times> db) res" where
  "as_staff D st q f s =
     e_bind (ensure_user D st q s) (\<lambda>(uid, s).
     e_bind (lock_user uid s) (\<lambda>u.
       if \<not> is_staff st u then Inr (None, s)
       else e_bind (f uid s) (\<lambda>(x, s). Inr (Some x, s))))"

text \<open>\<open>_find_user\<close>: by id or by user name.\<close>

definition by_username :: "string \<Rightarrow> db \<Rightarrow> user_row option res" where
  "by_username nm s = one_or_none (filter (\<lambda>u. u_username u = Some nm) (all_users s))"

definition find_user :: "string \<Rightarrow> db \<Rightarrow> user_row option res" where
  "find_user raw s =
     (let raw = strip raw
      in if starts_with ''@'' raw then by_username (drop 1 raw) s
         else case parse_int raw of None \<Rightarrow> by_username raw s | Some tid \<Rightarrow> Inr (users s tid))"

text \<open>
  An amount in rupees as it is typed: without commas and the rupee sign (which is not a Latin-1
  character and is taken out before), in paise. \<open>None\<close> is no number. An infinite or undefined amount
  makes \<open>round\<close> raise.
\<close>

definition typed_paise :: "string \<Rightarrow> int option res" where
  "typed_paise raw =
     (case parse_float (strip (filter (\<lambda>c. c \<noteq> CHR '','') raw)) of
        None \<Rightarrow> Inr None
      | Some (Fin x) \<Rightarrow>
          (case overflow (f_mul x 100) of
             Fin y \<Rightarrow> Inr (Some (py_round y)) | _ \<Rightarrow> Inl (OtherError ''OverflowError''))
      | Some NaN \<Rightarrow> Inl (ValueError ''cannot convert float NaN to integer'')
      | Some _ \<Rightarrow> Inl (OtherError ''OverflowError''))"

text \<open>\<open>admin_got_amount\<close> asks again for no number and for zero.\<close>

definition adjust_amount :: "string \<Rightarrow> int option res" where
  "adjust_amount raw = e_bind (typed_paise raw) (\<lambda>p. Inr (if p = Some 0 then None else p))"

definition admin_ref :: "int \<Rightarrow> entry_refs" where
  "admin_ref actor =
     \<lparr>ref_type = Some ''admin'', ref_id = Some (str_int actor), ref_by = Some actor, ref_meta = None\<rparr>"

text \<open>
  \<open>admin_got_reason\<close>: \<open>adj\<close> is the random public id. A wallet error is reported and the transaction
  goes on, with nothing written by the wallet.
\<close>

definition admin_adjust ::
  "digest \<Rightarrow> string \<Rightarrow> int \<Rightarrow> int \<Rightarrow> int \<Rightarrow> string \<Rightarrow> db \<Rightarrow> (bool \<times> db) res" where
  "admin_adjust H adj actor target amount reason s =
     (let why = ''Admin: '' @ strip reason; key = new_idempotency_key H [''admin-adj'', adj] in
      if length (strip reason) < 3 \<or> users s target = None then Inr (False, s)
      else case (if 0 < amount then credit H target amount why (Some key) (admin_ref actor) s
                 else debit H target \<bar>amount\<bar> why (Some key) (admin_ref actor) s) of
             Inl (WalletError m) \<Rightarrow> Inr (False, s)
           | Inl (InsufficientFunds m) \<Rightarrow> Inr (False, s)
           | Inl e \<Rightarrow> Inl e
           | Inr (e, s) \<Rightarrow> Inr (True, audit (str_int actor)
               (''wallet.admin_'' @ (if 0 < amount then ''credited'' else ''debited'')) (Some (str_int target))
               (Some (strip reason)) s))"

definition kill_keys :: "string list" where
  "kill_keys = [''kill_new_orders'', ''kill_payments'', ''kill_refills'', ''read_only'', ''global_maintenance'']"

definition toggle_kill :: "string \<Rightarrow> int \<Rightarrow> db \<Rightarrow> (bool \<times> db) res" where
  "toggle_kill key actor s =
     (if key \<notin> set kill_keys then Inr (False, s)
      else Inr (True, audit (str_int actor) ''killswitch.toggle'' (Some key) None
        (set_setting key (if is_kill_on s key then ''0'' else ''1'') s)))"

definition cmd_maintenance :: "db \<Rightarrow> db" where
  "cmd_maintenance s =
     set_setting KILL_MAINTENANCE (if is_kill_on s KILL_MAINTENANCE then ''0'' else ''1'') s"

text \<open>\<open>cb_app_decide\<close>: the decision on an application, whatever its status.\<close>

definition decide_application :: "bool \<Rightarrow> int \<Rightarrow> db \<Rightarrow> (bool \<times> db) res" where
  "decide_application approve aid s =
     (case find_by app_id aid (role_applications s) of
        None \<Rightarrow> Inr (False, s)
      | Some a \<Rightarrow> Inr (True, (if approve then approve_application a s else reject_application a s)))"

section \<open>Operator commands\<close>

definition cmd_promote :: "int \<Rightarrow> string \<Rightarrow> db \<Rightarrow> db res" where
  "cmd_promote uid r s =
     (if r \<notin> set [''user'', ''admin''] then Inl (OtherError ''SystemExit'')
      else if users s uid = None then Inl (OtherError ''SystemExit'')
      else Inr (audit ''cli'' ''user.role'' (Some (str_int uid)) None (update_user uid (\<lambda>u. u\<lparr>u_role := r\<rparr>) s)))"

text \<open>
  \<open>_toggle\<close>: \<open>rows\<close> is what the selection of the arguments gives. A service of an unsupported type
  or one removed upstream is never activated; a category follows its services.
\<close>

definition SUPPORTED_TYPES :: "string list" where
  "SUPPORTED_TYPES = [''default'', ''comments'', ''mentions'']"

definition toggle_service :: "bool \<Rightarrow> service_row \<Rightarrow> service_row" where
  "toggle_service active svc =
     (if active \<and> (s_service_type svc \<notin> set SUPPORTED_TYPES \<or> s_is_removed_upstream svc) then svc
      else svc\<lparr>s_is_active := active\<rparr>)"

definition toggle_rows :: "bool \<Rightarrow> string list \<Rightarrow> db \<Rightarrow> db" where
  "toggle_rows active sids s =
     s\<lparr>services := (\<lambda>sid. if sid \<in> set sids then map_option (toggle_service active) (services s sid)
       else services s sid)\<rparr>"

text \<open>
  The count of active services is a query: the session does not flush on its own
  (\<open>autoflush=False\<close> in \<open>app/db.py\<close>), so that it sees the services as they were before the toggle.
\<close>

definition count_active_in :: "string \<Rightarrow> db \<Rightarrow> nat" where
  "count_active_in cid s =
     length (filter (\<lambda>svc. s_category_id svc = cid \<and> s_is_active svc) (all_services s))"

definition refresh_category :: "db \<Rightarrow> string \<Rightarrow> db \<Rightarrow> db" where
  "refresh_category flushed cid s =
     s\<lparr>categories := (categories s)(cid := map_option
       (\<lambda>c. c\<lparr>c_is_active := (0 < count_active_in cid flushed)\<rparr>) (categories s cid))\<rparr>"

definition toggle_services :: "bool \<Rightarrow> string list \<Rightarrow> db \<Rightarrow> db" where
  "toggle_services active sids s =
     (let cids = remdups (map s_category_id (List.map_filter (services s) sids))
      in audit ''cli'' (if active then ''service.activate'' else ''service.deactivate'') None None
           (fold (refresh_category s) cids (toggle_rows active sids s)))"

text \<open>Which services the arguments select; \<open>has_name\<close> is the database's \<open>ILIKE\<close> on a category name.\<close>

definition toggle_selection ::
  "(string \<Rightarrow> bool) option \<Rightarrow> string list \<Rightarrow> string option \<Rightarrow> bool \<Rightarrow> db \<Rightarrow> string list res" where
  "toggle_selection has_name ids provider all_supported s =
     (if ids \<noteq> [] then Inr (filter (\<lambda>i. i \<in> set ids) (map s_id (all_services s)))
      else case provider of
        None \<Rightarrow> Inl (OtherError ''SystemExit'')
      | Some [] \<Rightarrow> Inl (OtherError ''SystemExit'')
      | Some pid \<Rightarrow>
          if \<not> all_supported \<and> has_name = None then Inl (OtherError ''SystemExit'')
          else Inr (map s_id (filter (\<lambda>svc. s_provider_id svc = pid \<and>
            (case has_name of None \<Rightarrow> True
             | Some f \<Rightarrow> (case categories s (s_category_id svc) of None \<Rightarrow> False | Some c \<Rightarrow> f (c_name c))))
            (all_services s))))"

definition cmd_toggle ::
  "bool \<Rightarrow> (string \<Rightarrow> bool) option \<Rightarrow> string list \<Rightarrow> string option \<Rightarrow> bool \<Rightarrow> db \<Rightarrow> db res" where
  "cmd_toggle active has_name ids provider all_supported s =
     e_bind (toggle_selection has_name ids provider all_supported s) (\<lambda>sids. Inr (toggle_services active sids s))"

section \<open>Categories lag behind their services\<close>

lemma fold_refresh_tables:
  "services (fold (refresh_category s0) cids s) = services s"
  "service_ids (fold (refresh_category s0) cids s) = service_ids s"
  by (induction cids arbitrary: s) (simp_all add: refresh_category_def)

lemma fold_refresh_category:
  "categories (fold (refresh_category s0) cids s) cid =
     (if cid \<in> set cids then map_option (\<lambda>c. c\<lparr>c_is_active := (0 < count_active_in cid s0)\<rparr>) (categories s cid)
      else categories s cid)"
proof (induction cids arbitrary: s)
  case (Cons x xs)
  then show ?case by (simp add: refresh_category_def option.map_comp comp_def)
qed simp

lemma in_map_filter: "x \<in> set (List.map_filter f xs) \<longleftrightarrow> (\<exists>a \<in> set xs. f a = Some x)"
  by (induction xs) (auto simp: map_filter_simps split: option.split)

end
