(* ===== verification/Shop.thy ===== *)
theory Shop
  imports OrderMoney PaymentBooks SyncSpec Accounts
begin

text \<open>
  The shop as a whole: one step relation over everything that the bot, the Mini App, the webhooks, the
  background workers and the operator can ask for, each request one transaction. The books of the
  orders, of the deposits, of the welcome bonus and of the wallets hold together in every
  interleaving. Each component's part is what its operations may append to the ledger.
\<close>

section \<open>What an operation may append to the ledger\<close>

definition adds :: "(ledger_entry \<Rightarrow> bool) \<Rightarrow> db \<Rightarrow> db \<Rightarrow> bool" where
  "adds P s t \<longleftrightarrow> (\<exists>new. ledger t = ledger s @ new \<and> (\<forall>e \<in> set new. P e))"

lemma adds_refl [simp]: "adds P s s" by (simp add: adds_def)

lemma adds_trans: "adds P s t \<Longrightarrow> adds P t r \<Longrightarrow> adds P s r"
  by (auto simp: adds_def)

lemma adds_same: "ledger t = ledger s \<Longrightarrow> adds P s t"
  by (simp add: adds_def)

lemma adds_one: "ledger t = ledger s @ [e] \<Longrightarrow> P e \<Longrightarrow> adds P s t"
  by (simp add: adds_def)

lemma adds_mono: "adds P s t \<Longrightarrow> (\<And>e. P e \<Longrightarrow> Q e) \<Longrightarrow> adds Q s t"
  by (auto simp: adds_def)

text \<open>A wallet operation with a key of its own replays, or posts one entry under that key.\<close>

lemma wallet_op_keyed:
  assumes "wallet_op H ty uid a why k refs s = Inr (e, t)" and "k \<noteq> []"
  obtains (replay) "existing k s = Some e" "t = s" | (post) m b r where "posted uid m ty k refs b r s e t"
proof (cases "existing k s")
  case None
  have "\<exists>m b r. posted uid m ty k refs b r s e t"
    using assms None
    by (cases ty) (auto simp: wallet_defs Let_def split: op_splits dest!: append_entry_Inr)
  then show thesis using post by blast
next
  case (Some x)
  from wallet_op_replay_unchanged [OF Some assms(2,1)] Some replay show thesis by simp
qed

lemma wallet_op_adds:
  assumes "wallet_op H ty uid a why k refs s = Inr (e, t)" and "k \<noteq> []"
    and "\<And>e. e_reference_type e = ref_type refs \<Longrightarrow> e_key e = k \<Longrightarrow> e_user_id e = uid \<Longrightarrow> P e"
  shows "adds P s t"
  using assms(1,2)
  by (cases rule: wallet_op_keyed) (auto simp: posted_def intro: adds_one assms(3))

section \<open>The orders' part\<close>

text \<open>What the order engine appends: entries about orders and referrals, never under a deposit's key.\<close>

definition order_entry :: "digest \<Rightarrow> ledger_entry \<Rightarrow> bool" where
  "order_entry H e \<longleftrightarrow> e_reference_type e \<in> {Some ''order'', Some ''referral''} \<and>
     (\<forall>pid. e_key e \<noteq> deposit_ledger_key H pid)"

definition order_side :: "digest \<Rightarrow> db \<Rightarrow> db \<Rightarrow> bool" where
  "order_side H s t \<longleftrightarrow> payments t = payments s \<and> adds (order_entry H) s t"

lemma order_side_refl [simp]: "order_side H s s" by (simp add: order_side_def)

lemma order_side_trans: "order_side H s t \<Longrightarrow> order_side H t r \<Longrightarrow> order_side H s r"
  by (auto simp: order_side_def intro: adds_trans)

lemma order_side_same: "payments t = payments s \<Longrightarrow> ledger t = ledger s \<Longrightarrow> order_side H s t"
  by (simp add: order_side_def adds_same)

lemma order_side_after: "order_side H s t \<Longrightarrow> payments r = payments t \<Longrightarrow> ledger r = ledger t \<Longrightarrow> order_side H s r"
  by (blast intro: order_side_trans order_side_same)

lemma order_side_op:
  assumes "wallet_op H ty uid a why k refs s = Inr (e, t)" and "k \<noteq> []"
    and "ref_type refs \<in> {Some ''order'', Some ''referral''}" and "\<And>pid. k \<noteq> deposit_ledger_key H pid"
  shows "order_side H s t"
proof -
  have "adds (order_entry H) s t"
    by (rule wallet_op_adds [OF assms(1,2)]) (use assms(3,4) in \<open>auto simp: order_entry_def\<close>)
  moreover have "payments t = payments s"
    using effect_same_tables [OF wallet_op_effect [OF assms(1)]] by (simp add: same_tables_fields)
  ultimately show ?thesis by (simp add: order_side_def)
qed

text \<open>The keys of the engine begin with words of their own.\<close>

lemma engine_keys:
  assumes "good_digest H"
  shows "new_idempotency_key H (''reserve'' # xs) \<noteq> deposit_ledger_key H pid"
    "new_idempotency_key H (''release'' # xs) \<noteq> deposit_ledger_key H pid"
    "new_idempotency_key H (''capture'' # xs) \<noteq> deposit_ledger_key H pid"
    "new_idempotency_key H (''partial'' # xs) \<noteq> deposit_ledger_key H pid"
    "new_idempotency_key H (''refund'' # xs) \<noteq> deposit_ledger_key H pid"
    "new_idempotency_key H (''reford'' # xs) \<noteq> deposit_ledger_key H pid"
    "new_idempotency_key H (''payout'' # xs) \<noteq> deposit_ledger_key H pid"
    "new_idempotency_key H (''admin-adj'' # xs) \<noteq> deposit_ledger_key H pid"
  by (cases xs; simp add: deposit_ledger_key_def good_digest_inj [OF assms])+

lemma frame_tables [simp]:
  "payments (record_event now oid st note s) = payments s" "ledger (record_event now oid st note s) = ledger s"
  "payments (update_order oid f s) = payments s" "ledger (update_order oid f s) = ledger s"
  "payments (refund_record k p s) = payments s" "ledger (refund_record k p s) = ledger s"
  "payments (use_coupon r s) = payments s" "ledger (use_coupon r s) = ledger s"
  "payments (add_reseller_order r q s) = payments s" "ledger (add_reseller_order r q s) = ledger s"
  by (auto simp: record_event_def update_order_def refund_record_def use_coupon_def add_reseller_order_def
      split: option.split)

lemma release_coupon_tables:
  "release_coupon_use r s = Inr t \<Longrightarrow> payments t = payments s \<and> ledger t = ledger s"
  by (auto simp: release_coupon_use_def Let_def split: option.split_asm if_split_asm)

lemma fail_and_release_side:
  assumes "fail_and_release H now r c why tag s = Inr t" and "good_digest H"
  shows "order_side H s t"
proof -
  let ?f = "\<lambda>r. r\<lparr>o_fail_reason := Some (take 255 why)\<rparr>"
  obtain e s1 s2 where rel: "release (o_user_id r) c (''Release '' @ o_public_id r @ '' ('' @ tag @ '')'')
       (new_idempotency_key H [''release'', o_public_id r, tag]) (order_ref (o_public_id r)) s = Inr (e, s1)"
    and cpn: "release_coupon_use r s1 = Inr s2"
    and t: "t = record_event now (o_id r) Failed (Some (take 255 why)) (update_order (o_id r) ?f s2)"
    using assms(1) by (auto simp: fail_and_release_def)
  from rel have "wallet_op H Release (o_user_id r) c (''Release '' @ o_public_id r @ '' ('' @ tag @ '')'')
       (new_idempotency_key H [''release'', o_public_id r, tag]) (order_ref (o_public_id r)) s = Inr (e, s1)"
    by simp
  then have "order_side H s s1"
    by (rule order_side_op) (use assms(2) engine_keys [OF assms(2)] in simp_all)
  then show ?thesis
    by (rule order_side_after) (use release_coupon_tables [OF cpn] in \<open>simp_all add: t\<close>)
qed

lemma capture_order_side:
  assumes "capture_order H r s = Inr (e, t)" and "good_digest H"
  shows "order_side H s t"
proof -
  have "wallet_op H Capture (o_user_id r) (o_charge_paise r) (''Charge '' @ o_public_id r)
       (new_idempotency_key H [''capture'', o_public_id r]) (order_ref (o_public_id r)) s = Inr (e, t)"
    using assms(1) by (simp add: capture_order_def)
  then show ?thesis by (rule order_side_op) (use assms(2) engine_keys [OF assms(2)] in simp_all)
qed

lemma credit_order_side:
  assumes "credit_order H r a why k s = Inr (e, t)" and "k \<noteq> []" and "\<And>pid. k \<noteq> deposit_ledger_key H pid"
  shows "order_side H s t"
proof -
  have "wallet_op H Credit (o_user_id r) a why k (order_ref (o_public_id r)) s = Inr (e, t)"
    using assms(1) by (simp add: credit_order_def)
  then show ?thesis by (rule order_side_op) (use assms(2,3) in simp_all)
qed

lemma maybe_partial_refund_side:
  assumes "maybe_partial_refund H r n s = Inr t" and "good_digest H"
  shows "order_side H s t"
  using assms engine_keys(4) [OF assms(2)]
  by (auto simp: maybe_partial_refund_def Let_def split: if_split_asm
      intro!: order_side_after [OF credit_order_side])

lemma refund_if_needed_side:
  assumes "refund_if_needed H now r m s = Inr t" and "good_digest H"
  shows "order_side H s t"
  using assms engine_keys(5) [OF assms(2)]
  by (auto simp: refund_if_needed_def Let_def split: if_split_asm
      intro!: order_side_after [OF credit_order_side])

lemma order_commission_side:
  assumes "credit_order_commission H r s = Inr (x, t)" and "good_digest H"
  shows "order_side H s t"
  using assms(1)
proof (cases rule: order_commission_cases)
  case (paid ref e refs why)
  show ?thesis
    by (rule order_side_op [OF paid(8)])
      (use assms(2) engine_keys(6) [OF assms(2)] in \<open>simp_all add: paid(7) referral_ref_def order_commission_key_def\<close>)
qed simp

lemma insert_order_side: "insert_order r s = Inr t \<Longrightarrow> payments t = payments s \<and> ledger t = ledger s"
  by (auto simp: insert_order_def split: if_split_asm)

lemma submit_order_side:
  assumes "submit_order env r answer s = Inr t" and "good_digest (env_digest env)"
  shows "order_side (env_digest env) s t"
proof -
  let ?H = "env_digest env"
  consider (review) "payments t = payments s" "ledger t = ledger s"
    | (failed) why tag where "fail_and_release ?H (env_now env) r (o_charge_paise r) why tag s = Inr t"
    | (accepted) ext e s2 where "capture_order ?H r (update_order (o_id r) (\<lambda>r. r\<lparr>o_provider_order_id := Some ext\<rparr>) s)
        = Inr (e, s2)" "t = record_event (env_now env) (o_id r) Processing (Some (''Provider order '' @ ext)) s2"
    using assms(1)
    by (auto simp: submit_order_def Let_def split: sum.split_asm exn.split_asm if_split_asm)
  then show ?thesis
  proof cases
    case review
    then show ?thesis by (rule order_side_same)
  next
    case (failed why tag)
    then show ?thesis using assms(2) by (rule fail_and_release_side)
  next
    case (accepted ext e s2)
    have "order_side ?H s (update_order (o_id r) (\<lambda>r. r\<lparr>o_provider_order_id := Some ext\<rparr>) s)"
      by (rule order_side_same) simp_all
    then have "order_side ?H s s2" using capture_order_side [OF accepted(1) assms(2)] by (rule order_side_trans)
    then show ?thesis by (rule order_side_after) (simp_all add: accepted(2))
  qed
qed

lemma commit_order_side:
  assumes "commit_order env r quote answer s = Inr (i, t)" and "good_digest (env_digest env)"
  shows "order_side (env_digest env) s t"
proof -
  let ?H = "env_digest env" and ?why = "''Reserve for '' @ o_public_id r"
  obtain s1 e s2 where ins: "insert_order r s = Inr s1"
    and res: "reserve (o_user_id r) (o_charge_paise r) ?why
       (new_idempotency_key ?H [''reserve'', o_public_id r]) (order_ref (o_public_id r))
       (add_reseller_order r quote s1) = Inr (e, s2)"
    and sub: "submit_order env r answer
       (use_coupon r (record_event (env_now env) (o_id r) Awaiting_provider (Some ''Funds reserved'') s2)) = Inr t"
    using assms(1) by (auto simp: commit_order_def)
  from res have "wallet_op ?H Reserve (o_user_id r) (o_charge_paise r) ?why
       (new_idempotency_key ?H [''reserve'', o_public_id r]) (order_ref (o_public_id r))
       (add_reseller_order r quote s1) = Inr (e, s2)" by simp
  then have "order_side ?H (add_reseller_order r quote s1) s2"
    by (rule order_side_op) (use assms(2) engine_keys(1) [OF assms(2)] in simp_all)
  moreover have "order_side ?H s (add_reseller_order r quote s1)"
    using insert_order_side [OF ins] by (intro order_side_same) simp_all
  moreover have "order_side ?H s2 (use_coupon r (record_event (env_now env) (o_id r) Awaiting_provider
      (Some ''Funds reserved'') s2))" by (rule order_side_same) simp_all
  moreover note submit_order_side [OF sub assms(2)]
  ultimately show ?thesis using order_side_trans by blast
qed

lemma place_order_side:
  assumes "place_order env q answer s = Inr (i, t)" and "good_digest (env_digest env)"
  shows "order_side (env_digest env) s t"
  using assms(1)
proof (cases rule: place_order_cases)
  case (fresh svc link extra quote key u)
  then show ?thesis using commit_order_side [OF fresh(5) assms(2)] by simp
qed simp

lemma sync_transition_side:
  assumes "sync_transition env oid m n s = Inr t" and "good_digest (env_digest env)"
  shows "order_side (env_digest env) s t"
proof -
  let ?H = "env_digest env"
  let ?s = "record_event (env_now env) oid m (Some ''provider sync'') s"
  obtain r s1 s2 where
    p: "(if m = Partial then (case n of None \<Rightarrow> Inr ?s | Some n \<Rightarrow> maybe_partial_refund ?H r n ?s)
         else Inr ?s) = Inr s1"
    and f: "(if m \<in> set [Canceled, Refunded, Failed] \<and> o_status r \<noteq> Refunded
         then refund_if_needed ?H (env_now env) r m s1 else Inr s1) = Inr s2"
    and c: "(if m = Completed then e_bind (credit_order_commission ?H r s2) (\<lambda>(e, s). Inr s) else Inr s2) = Inr t"
    using assms(1) by (auto simp: sync_transition_def with_order_Inr Let_def simp del: if_split)
  have "order_side ?H s ?s" by (rule order_side_same) simp_all
  moreover have "order_side ?H ?s s1"
    using p maybe_partial_refund_side [OF _ assms(2)] by (auto split: if_split_asm option.split_asm)
  moreover have "order_side ?H s1 s2"
    using f refund_if_needed_side [OF _ assms(2)] by (auto split: if_split_asm)
  moreover have "order_side ?H s2 t"
    using c order_commission_side [OF _ assms(2)] by (auto split: if_split_asm)
  ultimately show ?thesis using order_side_trans by blast
qed

lemma sync_order_side:
  assumes "sync_order_status env oid answer s = Inr (i, t)" and "good_digest (env_digest env)"
  shows "order_side (env_digest env) s t"
proof -
  let ?H = "env_digest env"
  consider "payments t = payments s" "ledger t = ledger s"
    | m n s1 s2 where "sync_transition env oid m n s1 = Inr s2"
        "payments s1 = payments s" "ledger s1 = ledger s" "payments t = payments s2" "ledger t = ledger s2"
    using assms(1)
    by (auto simp: sync_order_status_def with_order_Inr Let_def
        split: if_split_asm sum.split_asm exn.split_asm)
  then show ?thesis
  proof cases
    case 1
    then show ?thesis by (rule order_side_same)
  next
    case (2 m n s1 s2)
    have "order_side ?H s s1" using 2(2,3) by (rule order_side_same)
    then have "order_side ?H s s2" using sync_transition_side [OF 2(1) assms(2)] by (rule order_side_trans)
    then show ?thesis using 2(4,5) by (rule order_side_after)
  qed
qed

lemma cancel_money_side:
  assumes "cancel_money env r s = Inr t" and "good_digest (env_digest env)"
  shows "order_side (env_digest env) s t"
proof -
  let ?H = "env_digest env"
  consider "t = s"
    | e why where "release (o_user_id r) (o_charge_paise r) why
        (new_idempotency_key ?H [''release'', o_public_id r, ''cancel'']) (order_ref (o_public_id r)) s = Inr (e, t)"
    | e why where "credit_order ?H r (owed_on r s) why (new_idempotency_key ?H [''refund'', o_public_id r, ''cancel'']) s
        = Inr (e, t)"
    using assms(1) by (auto simp: cancel_money_def Let_def split: if_split_asm)
  then show ?thesis
  proof cases
    case (2 e why)
    then have "wallet_op ?H Release (o_user_id r) (o_charge_paise r) why
        (new_idempotency_key ?H [''release'', o_public_id r, ''cancel'']) (order_ref (o_public_id r)) s = Inr (e, t)"
      by simp
    then show ?thesis by (rule order_side_op) (use assms(2) engine_keys(2) [OF assms(2)] in simp_all)
  next
    case (3 e why)
    then show ?thesis by (rule credit_order_side) (use assms(2) engine_keys(5) [OF assms(2)] in simp_all)
  qed simp
qed

lemma request_cancel_side:
  assumes "request_cancel env oid uid ad answer s = Inr (i, t)" and "good_digest (env_digest env)"
  shows "order_side (env_digest env) s t"
proof -
  obtain r s1 where "cancel_money env r s = Inr s1"
    and t: "t = record_event (env_now env) oid Canceled (Some ''user cancel'') s1"
    using assms(1) by (auto simp: request_cancel_def with_order_Inr split: if_split_asm)
  then have "order_side (env_digest env) s s1" using cancel_money_side [OF _ assms(2)] by blast
  then show ?thesis by (rule order_side_after) (simp_all add: t)
qed

lemma request_refill_side:
  "request_refill env oid uid ad answer s = Inr (i, t) \<Longrightarrow> order_side H s t"
  by (auto simp: request_refill_def with_order_Inr split: if_split_asm intro!: order_side_same)

lemma resolve_review_side:
  assumes "resolve_review_order env oid rel attach actor s = Inr (i, t)" and "good_digest (env_digest env)"
  shows "order_side (env_digest env) s t"
proof -
  let ?H = "env_digest env" and ?ext = "take 64 (case attach of None \<Rightarrow> [] | Some x \<Rightarrow> x)"
  obtain r where r: "order_by_id oid s = Some r"
    using assms(1) by (auto simp: resolve_review_order_def with_order_Inr Let_def)
  show ?thesis
  proof (cases rel)
    case True
    then obtain s1 where "fail_and_release ?H (env_now env) r (o_charge_paise r) ''Not accepted by provider'' ''review'' s
        = Inr s1" and t: "t = audit actor ''order.review.release'' (Some (o_public_id r)) None s1"
      using assms(1) r by (auto simp: resolve_review_order_def with_order_Inr Let_def split: if_split_asm)
    then have "order_side ?H s s1" using fail_and_release_side assms(2) by blast
    then show ?thesis by (rule order_side_after) (simp_all add: t)
  next
    case False
    let ?s = "update_order oid (\<lambda>r. r\<lparr>o_provider_order_id := Some ?ext\<rparr>) s"
    obtain e s1 where c: "capture_order ?H r ?s = Inr (e, s1)"
      and t: "payments t = payments s1" "ledger t = ledger s1"
      using assms(1) r False by (auto simp: resolve_review_order_def with_order_Inr Let_def split: if_split_asm)
    have "order_side ?H s ?s" by (rule order_side_same) simp_all
    then have "order_side ?H s s1" using capture_order_side [OF c assms(2)] by (rule order_side_trans)
    then show ?thesis using t by (rule order_side_after)
  qed
qed

lemma flag_stuck_side: "order_side H s (snd (flag_stuck_orders env age limit s))"
proof -
  have "payments (foldl (flag_order env) s rs) = payments s \<and> ledger (foldl (flag_order env) s rs) = ledger s" for rs
    by (induction rs arbitrary: s) (simp_all add: flag_order_def)
  then show ?thesis by (simp add: flag_stuck_orders_def Let_def order_side_same)
qed

lemma order_op_side:
  assumes "order_op env q s = Inr (ids, t)" and "good_digest (env_digest env)"
  shows "order_side (env_digest env) s t"
proof (cases q)
  case (Flag age limit)
  then show ?thesis using assms(1) flag_stuck_side [of "env_digest env" s env age limit] by simp
qed (use assms in \<open>auto dest: place_order_side sync_order_side request_refill_side request_cancel_side
  resolve_review_side\<close>)

section \<open>The deposits' part\<close>

definition payment_entry :: "ledger_entry \<Rightarrow> bool" where
  "payment_entry e \<longleftrightarrow> e_reference_type e \<in> {Some ''payment'', Some ''referral''}"

definition payment_side :: "db \<Rightarrow> db \<Rightarrow> bool" where
  "payment_side s t \<longleftrightarrow> orders t = orders s \<and> next_order_id t = next_order_id s \<and> adds payment_entry s t"

lemma payment_side_refl [simp]: "payment_side s s" by (simp add: payment_side_def)

lemma payment_side_trans: "payment_side s t \<Longrightarrow> payment_side t r \<Longrightarrow> payment_side s r"
  by (auto simp: payment_side_def intro: adds_trans)

lemma payment_side_frame [simp]:
  "payment_side s (update_payment pid f t) \<longleftrightarrow> payment_side s t"
  "payment_side s (audit w x y z t) \<longleftrightarrow> payment_side s t"
  "payment_side s (t\<lparr>payment_events := evs\<rparr>) \<longleftrightarrow> payment_side s t"
  "payment_side (s\<lparr>payment_events := evs\<rparr>) t \<longleftrightarrow> payment_side s t"
  by (simp_all add: payment_side_def adds_def) (simp_all add: update_payment_def audit_def)

lemma payment_side_op:
  assumes "wallet_op H ty uid a why k refs s = Inr (e, t)" and "k \<noteq> []"
    and "ref_type refs \<in> {Some ''payment'', Some ''referral''}"
  shows "payment_side s t"
proof -
  have "adds payment_entry s t"
    by (rule wallet_op_adds [OF assms(1,2)]) (use assms(3) in \<open>auto simp: payment_entry_def\<close>)
  then show ?thesis
    using effect_same_tables [OF wallet_op_effect [OF assms(1)]] by (simp add: payment_side_def same_tables_fields)
qed

lemma deposit_commission_side:
  assumes "credit_deposit_commission H b p s = Inr (x, t)" and "good_digest H"
  shows "payment_side s t"
  using assms(1)
proof (cases rule: deposit_commission_cases)
  case (paid ref e refs why)
  show ?thesis
    by (rule payment_side_op [OF paid(6)]) (use assms(2) in \<open>simp_all add: paid(5) referral_ref_def\<close>)
qed simp

lemma credit_payment_side:
  assumes "credit_payment H now q p s = Inr (out, t)" and "good_digest H"
  shows "payment_side s t"
proof -
  let ?k = "deposit_ledger_key H (pay_public_id p)"
  obtain e s1 x s2 where c: "credit H (pay_user_id p) (pay_amount_paise p) (''Deposit '' @ pay_public_id p)
      (Some ?k) (payment_ref q (pay_public_id p)) s = Inr (e, s1)"
    and d: "credit_deposit_commission H (pay_user_id p) p s1 = Inr (x, s2)"
    and t: "t = audit (sr_actor q) ''payment.credited'' (Some (pay_public_id p)) None
      (update_payment (pay_public_id p) (mark_paid now q) s2)"
    using assms(1) by (auto simp: credit_payment_def)
  have "wallet_op H Credit (pay_user_id p) (pay_amount_paise p) (''Deposit '' @ pay_public_id p) ?k
      (payment_ref q (pay_public_id p)) s = Inr (e, s1)" using c by simp
  then have "payment_side s s1" by (rule payment_side_op) (use assms(2) in \<open>simp_all add: payment_ref_def\<close>)
  then have "payment_side s s2" using deposit_commission_side [OF d assms(2)] by (rule payment_side_trans)
  then show ?thesis by (simp add: t)
qed

lemma settle_side:
  "settle_payment H now q s = Inr (out, t) \<Longrightarrow> good_digest H \<Longrightarrow> payment_side s t"
  by (auto simp: settle_payment_def hold_payment_def split: option.split_asm if_split_asm
      dest: credit_payment_side)

lemma expire_side [simp]: "payment_side s (expire_payment pid s)"
  by (simp add: expire_payment_def)

lemma dispatch_side:
  "dispatch_event H now gw ev s = Inr (out, t) \<Longrightarrow> good_digest H \<Longrightarrow> payment_side s t"
  by (auto simp: dispatch_event_def Let_def split: if_split_asm option.split_asm intro: settle_side)

lemma handle_side:
  "handle_webhook_event H now gw ev s = Inr (out, t) \<Longrightarrow> good_digest H \<Longrightarrow> payment_side s t"
  by (auto simp: handle_webhook_event_def split: if_split_asm dest!: dispatch_side)

lemma reconcile_one_side:
  "reconcile_one H now fetch pid s = Inr (outs, t) \<Longrightarrow> good_digest H \<Longrightarrow> payment_side s t"
  by (auto simp: reconcile_one_def split: option.split_asm sum.split_asm exn.split_asm if_split_asm
      intro: settle_side)

lemma reconcile_loop_side:
  "reconcile_loop H now fetch pids s = Inr (outs, t) \<Longrightarrow> good_digest H \<Longrightarrow> payment_side s t"
  by (induction pids arbitrary: s outs t) (auto dest: reconcile_one_side intro: payment_side_trans)

lemma check_side:
  "check_payment H now st fetch pid uid s = Inr (p, t) \<Longrightarrow> good_digest H \<Longrightarrow> payment_side s t"
  by (auto simp: check_payment_def split: option.split_asm if_split_asm sum.split_asm exn.split_asm
      intro: settle_side)

lemma insert_payment_side: "insert_payment p s = Inr t \<Longrightarrow> payment_side s t"
  by (auto simp: insert_payment_def payment_side_def adds_def split: if_split_asm)

lemma create_side: "create_deposit R H now st post q s = Inr (p, t) \<Longrightarrow> payment_side s t"
  by (erule create_deposit_cases) (auto intro: insert_payment_side)

lemma payment_op_side: "payment_op R H now q s = Inr (x, t) \<Longrightarrow> good_digest H \<Longrightarrow> payment_side s t"
  by (cases q) (auto simp: no_result_Inr reconcile_pending_def manual_confirm_def mock_pay_def
      split: option.split_asm if_split_asm dest!: razorpay_webhook_handled
      intro: create_side handle_side reconcile_loop_side check_side settle_side)

section \<open>Profiles and the catalogue\<close>

text \<open>A step that writes no ledger entry and no cached column; a new user starts with nothing.\<close>

definition profile_step :: "db \<Rightarrow> db \<Rightarrow> bool" where
  "profile_step s t \<longleftrightarrow>
     ledger t = ledger s \<and> orders t = orders s \<and> next_order_id t = next_order_id s \<and> payments t = payments s \<and>
     (\<forall>uid. account_of t uid = account_of s uid \<or> (account_of s uid = None \<and> account_of t uid = Some (0, 0)))"

lemma profile_refl [simp]: "profile_step s s" by (simp add: profile_step_def)

lemma profile_trans: "profile_step s t \<Longrightarrow> profile_step t r \<Longrightarrow> profile_step s r"
  unfolding profile_step_def by (metis option.distinct(1))

lemma profile_same_users:
  "users t = users s \<Longrightarrow> ledger t = ledger s \<Longrightarrow> orders t = orders s \<Longrightarrow> next_order_id t = next_order_id s \<Longrightarrow>
   payments t = payments s \<Longrightarrow> profile_step s t"
  by (simp add: profile_step_def account_of_def)

text \<open>An update of columns other than the cached ones.\<close>

definition keeps_wallet :: "(user_row \<Rightarrow> user_row) \<Rightarrow> bool" where
  "keeps_wallet f \<longleftrightarrow> (\<forall>u. cached_balance_paise (f u) = cached_balance_paise u \<and>
     cached_reserved_paise (f u) = cached_reserved_paise u)"

lemma profile_update: "keeps_wallet f \<Longrightarrow> profile_step s (update_user uid f s)"
  by (auto simp: profile_step_def update_user_def account_of_def keeps_wallet_def option.map_comp comp_def)

lemma user_matches_account:
  "user_matches_ledger s uid u \<longleftrightarrow>
     (cached_balance_paise u, cached_reserved_paise u) = last_after uid (ledger s) \<and>
     cached_balance_paise u = ledger_sum uid (ledger s) \<and>
     acct_ok (cached_balance_paise u, cached_reserved_paise u)"
  by (auto simp: user_matches_ledger_def acct_ok_def)

lemma wallet_inv_accounts:
  "wallet_inv s \<longleftrightarrow> distinct (map e_key (ledger s)) \<and>
     (\<forall>e \<in> set (ledger s). account_of s (e_user_id e) \<noteq> None) \<and>
     (\<forall>uid b r. account_of s uid = Some (b, r) \<longrightarrow>
        (b, r) = last_after uid (ledger s) \<and> b = ledger_sum uid (ledger s) \<and> acct_ok (b, r))"
  by (simp add: wallet_inv_def account_of_def user_matches_account) blast

lemma profile_wallet_inv:
  assumes "profile_step s t" and "wallet_inv s"
  shows "wallet_inv t"
proof -
  have led: "ledger t = ledger s" and acct: "\<And>uid. account_of t uid = account_of s uid \<or>
      (account_of s uid = None \<and> account_of t uid = Some (0, 0))"
    using assms(1) by (auto simp: profile_step_def)
  have none: "filter (\<lambda>e. e_user_id e = uid) (ledger s) = []" if "account_of s uid = None" for uid
    using assms(2) that by (auto simp: wallet_inv_accounts filter_empty_conv)
  have "account_of t (e_user_id e) \<noteq> None" if "e \<in> set (ledger s)" for e
    using assms(2) that acct [of "e_user_id e"] unfolding wallet_inv_accounts by fastforce
  moreover have "(b, r) = last_after uid (ledger s) \<and> b = ledger_sum uid (ledger s) \<and> acct_ok (b, r)"
    if "account_of t uid = Some (b, r)" for uid b r
  proof (cases "account_of s uid")
    case None
    then have "b = 0 \<and> r = 0" using acct [of uid] that by auto
    then show ?thesis using none [OF None] by (simp add: last_after_def ledger_sum_def acct_ok_def)
  next
    case (Some a)
    then have "account_of s uid = Some (b, r)" using acct [of uid] that by auto
    then show ?thesis using assms(2) unfolding wallet_inv_accounts by blast
  qed
  ultimately show ?thesis using assms(2) unfolding wallet_inv_accounts led by blast
qed

section \<open>The accounts' part\<close>

lemma referral_code_profile:
  assumes "ensure_referral_code D uid s = Inr (c, t)"
  shows "profile_step s t"
proof -
  obtain u where u: "lock_user uid s = Inr u" using assms by (auto simp: ensure_referral_code_def)
  consider "t = s" | code where "t = update_user uid (\<lambda>u. u\<lparr>u_referral_code := Some code\<rparr>) s"
  proof (cases "u_referral_code u = None \<or> u_referral_code u = Some []")
    case True
    then show thesis using that(2) assms u
      by (auto simp: ensure_referral_code_def Let_def split: if_split_asm)
  next
    case False
    then obtain x xs where "u_referral_code u = Some (x # xs)" by (metis list.exhaust option.exhaust)
    then show thesis using that(1) assms u by (simp add: ensure_referral_code_def)
  qed
  then show ?thesis
    by cases (auto intro!: profile_update simp: keeps_wallet_def)
qed

lemma owner_partners_profile: "ensure_owner_partners uid s = Inr t \<Longrightarrow> profile_step s t"
  by (auto simp: ensure_owner_partners_def Let_def split: if_split_asm intro!: profile_same_users)

lemma is_reseller_profile: "is_reseller_user owner uid s = Inr (x, t) \<Longrightarrow> profile_step s t"
  by (auto simp: is_reseller_user_def split: if_split_asm dest: owner_partners_profile)

lemma is_promoter_profile: "is_promoter_user owner uid s = Inr (x, t) \<Longrightarrow> profile_step s t"
  by (auto simp: is_promoter_user_def split: if_split_asm dest: owner_partners_profile)

lemma partner_flags_profile:
  assumes "partner_flags owner uid s = Inr (x, t)"
  shows "profile_step s t"
proof -
  obtain r s1 p where "is_reseller_user owner uid s = Inr (r, s1)" "is_promoter_user owner uid s1 = Inr (p, t)"
    using assms by (auto simp: partner_flags_def)
  then show ?thesis by (meson is_reseller_profile is_promoter_profile profile_trans)
qed

lemma update_user_tables [simp]:
  "ledger (update_user uid f s) = ledger s" "orders (update_user uid f s) = orders s"
  "next_order_id (update_user uid f s) = next_order_id s" "payments (update_user uid f s) = payments s"
  by (simp_all add: update_user_def)

lemma start_hit_tables:
  "record_start_hit code v s = Inr (x, t) \<Longrightarrow>
   ledger t = ledger s \<and> orders t = orders s \<and> next_order_id t = next_order_id s \<and> payments t = payments s"
  by (auto simp: record_start_hit_def Let_def lock_user_def split: if_split_asm option.split_asm)

lemma start_hit_profile:
  assumes "record_start_hit code v s = Inr (x, t)"
  shows "profile_step s t"
proof -
  have "account_of t uid = account_of s uid" for uid
    using record_start_hit_users [OF assms] by (auto simp: account_of_def)
  then show ?thesis using start_hit_tables [OF assms] by (simp add: profile_step_def)
qed

lemma first_profile:
  "users s (tu_id q) = None \<Longrightarrow>
   profile_step s (s\<lparr>users := (users s)(tu_id q \<mapsto> first_row q owner), user_ids := user_ids s @ [tu_id q]\<rparr>)"
  by (simp add: profile_step_def account_of_def first_row_def)

lemma refresh_keeps: "keeps_wallet (refresh_profile q owner)"
  by (simp add: keeps_wallet_def refresh_profile_def)

lemma get_or_create_profile:
  assumes "get_or_create_user D q owner s = Inr (uid, t)"
  shows "profile_step s t"
proof -
  obtain s0 c s1 where "profile_step s s0" "ensure_referral_code D (tu_id q) s0 = Inr (c, s1)"
    "ensure_owner_partners (tu_id q) s1 = Inr t"
  proof (cases "users s (tu_id q)")
    case None
    with that [OF first_profile [OF None]] assms show thesis by (auto simp: get_or_create_user_def Let_def)
  next
    case (Some u)
    with that [OF profile_update [OF refresh_keeps]] assms show thesis
      by (auto simp: get_or_create_user_def Let_def)
  qed
  then show ?thesis by (meson referral_code_profile owner_partners_profile profile_trans)
qed

lemma ensure_user_profile: "ensure_user D st q s = Inr (uid, t) \<Longrightarrow> profile_step s t"
  by (simp add: ensure_user_def get_or_create_profile)

lemma start_link_profile: "start_link arg uid s = Inr t \<Longrightarrow> profile_step s t"
  by (auto simp: start_link_def split: if_split_asm dest: start_hit_profile)

lemma render_home_profile: "render_home st uid s = Inr (x, t) \<Longrightarrow> profile_step s t"
  by (auto simp: render_home_def dest: partner_flags_profile)

lemma first_screen_profile: "first_screen st uid s = Inr (x, t) \<Longrightarrow> profile_step s t"
  by (auto simp: first_screen_def split: if_split_asm dest: render_home_profile)

lemma cmd_start_profile:
  assumes "cmd_start D st q arg s = Inr (x, t)"
  shows "profile_step s t"
proof -
  obtain uid s1 s2 where "ensure_user D st q s = Inr (uid, s1)" "start_link arg uid s1 = Inr s2"
    "first_screen st uid s2 = Inr (x, t)"
    using assms by (auto simp: cmd_start_def)
  then show ?thesis by (meson ensure_user_profile start_link_profile first_screen_profile profile_trans)
qed

text \<open>
  What the accounts append: anything but entries about orders and deposits, and the welcome bonus
  under its own key. That key is no digest: it contains a colon, and the digests are hexadecimal.
\<close>

definition shop_digest :: "digest \<Rightarrow> bool" where
  "shop_digest H \<longleftrightarrow> good_digest H \<and> (\<forall>uid. welcome_key uid \<notin> range H)"

definition account_entry :: "digest \<Rightarrow> ledger_entry \<Rightarrow> bool" where
  "account_entry H e \<longleftrightarrow> e_reference_type e \<notin> {Some ''order'', Some ''payment''} \<and>
     (\<forall>pid. e_key e \<noteq> deposit_ledger_key H pid) \<and>
     (e_reference_type e = Some ''bonus'' \<longrightarrow> e_key e = welcome_key (e_user_id e))"

definition account_side :: "digest \<Rightarrow> db \<Rightarrow> db \<Rightarrow> bool" where
  "account_side H s t \<longleftrightarrow>
     payments t = payments s \<and> orders t = orders s \<and> next_order_id t = next_order_id s \<and>
     adds (account_entry H) s t \<and> (wallet_inv s \<longrightarrow> wallet_inv t)"

lemma account_side_trans: "account_side H s t \<Longrightarrow> account_side H t r \<Longrightarrow> account_side H s r"
  by (auto simp: account_side_def intro: adds_trans)

lemma profile_account_side: "profile_step s t \<Longrightarrow> account_side H s t"
  using profile_wallet_inv [of s t] by (simp add: account_side_def profile_step_def adds_same)

lemma account_side_refl [simp]: "account_side H s s" by (simp add: profile_account_side)

lemma account_side_op:
  assumes "wallet_op H ty uid a why k refs s = Inr (e, t)" and "k \<noteq> []"
    and "ref_type refs \<notin> {Some ''order'', Some ''payment''}" and "\<And>pid. k \<noteq> deposit_ledger_key H pid"
    and "ref_type refs = Some ''bonus'' \<Longrightarrow> k = welcome_key uid"
  shows "account_side H s t"
proof -
  have "adds (account_entry H) s t"
    by (rule wallet_op_adds [OF assms(1,2)]) (use assms(3-5) in \<open>auto simp: account_entry_def\<close>)
  moreover have "wallet_inv s \<Longrightarrow> wallet_inv t" using wallet_inv_op [OF _ assms(1)] by blast
  ultimately show ?thesis
    using effect_same_tables [OF wallet_op_effect [OF assms(1)]]
    by (simp add: account_side_def same_tables_fields)
qed

lemma account_side_update: "keeps_wallet f \<Longrightarrow> account_side H s (update_user uid f s)"
  by (intro profile_account_side profile_update)

lemma welcome_key_apart: "shop_digest H \<Longrightarrow> welcome_key uid \<noteq> deposit_ledger_key H pid"
  by (metis deposit_ledger_key_def new_idempotency_key_def rangeI shop_digest_def)

lemma welcome_bonus_side:
  assumes "welcome_bonus H st uid s = Inr t" and "shop_digest H"
  shows "account_side H s t"
proof (cases "t = s")
  case False
  obtain e s1 where c: "credit H uid (welcome_amount st s) ''Welcome bonus'' (Some (welcome_key uid)) bonus_ref s
      = Inr (e, s1)" and t: "t = update_user uid grant_row s1"
    using assms(1) False by (auto simp: welcome_bonus_def split: if_split_asm)
  have "wallet_op H Credit uid (welcome_amount st s) ''Welcome bonus'' (welcome_key uid) bonus_ref s = Inr (e, s1)"
    using c by simp
  then have "account_side H s s1"
    by (rule account_side_op) (use welcome_key_apart [OF assms(2)] in \<open>simp_all add: bonus_ref_def welcome_key_def\<close>)
  moreover have "account_side H s1 t"
    unfolding t by (rule account_side_update) (simp add: keeps_wallet_def grant_row_def)
  ultimately show ?thesis by (rule account_side_trans)
qed simp

lemma accept_terms_side:
  assumes "accept_terms H D now st q s = Inr (x, t)" and "shop_digest H"
  shows "account_side H s t"
proof -
  obtain uid s1 s2 where s1: "ensure_user D st q s = Inr (uid, s1)"
    and s2: "welcome_bonus H st uid (update_user uid (accept_row now) s1) = Inr s2"
    and t: "render_home st uid s2 = Inr (x, t)"
    using assms(1) by (auto simp: accept_terms_def)
  have "account_side H s s1" using ensure_user_profile [OF s1] by (rule profile_account_side)
  moreover have "account_side H s1 (update_user uid (accept_row now) s1)"
    by (rule account_side_update) (simp add: keeps_wallet_def accept_row_def)
  moreover note welcome_bonus_side [OF s2 assms(2)]
  moreover have "account_side H s2 t" using render_home_profile [OF t] by (rule profile_account_side)
  ultimately show ?thesis by (meson account_side_trans)
qed

lemma shop_digest_good: "shop_digest H \<Longrightarrow> good_digest H" by (simp add: shop_digest_def)

lemma payout_side:
  assumes "request_payout H pid uid kind amount s = Inr (x, t)" and "shop_digest H"
  shows "account_side H s t"
proof -
  let ?refs = "\<lparr>ref_type = Some ''payout'', ref_id = Some pid, ref_by = None, ref_meta = Some [(''kind'', JStr kind)]\<rparr>"
  let ?k = "new_idempotency_key H [''payout'', pid]"
  obtain e s1 where d: "debit H uid amount (''Payout request '' @ pid) (Some ?k) ?refs s = Inr (e, s1)"
    and t: "users t = users s1" "ledger t = ledger s1" "orders t = orders s1" "next_order_id t = next_order_id s1"
      "payments t = payments s1"
    using assms(1) by (auto simp: request_payout_def split: if_split_asm)
  have "wallet_op H Debit uid amount (''Payout request '' @ pid) ?k ?refs s = Inr (e, s1)" using d by simp
  then have "account_side H s s1"
    by (rule account_side_op) (use engine_keys(7) [OF shop_digest_good] shop_digest_good assms(2) in simp_all)
  moreover have "account_side H s1 t" using t by (intro profile_account_side profile_same_users)
  ultimately show ?thesis by (rule account_side_trans)
qed

lemma admin_adjust_side:
  assumes "admin_adjust H adj actor target amount reason s = Inr (x, t)" and "shop_digest H"
  shows "account_side H s t"
proof -
  let ?why = "''Admin: '' @ strip reason" and ?k = "new_idempotency_key H [''admin-adj'', adj]"
  consider "t = s" | ty a e s1 w z y where "wallet_op H ty target a ?why ?k (admin_ref actor) s = Inr (e, s1)"
      "t = audit w z (Some (str_int target)) y s1"
  proof (cases "0 < amount")
    case True
    then show thesis using that(1) that(2) [where ty = Credit and a = amount] assms(1)
      by (auto simp: admin_adjust_def Let_def split: if_split_asm sum.split_asm exn.split_asm)
  next
    case False
    then show thesis using that(1) that(2) [where ty = Debit and a = "\<bar>amount\<bar>"] assms(1)
      by (auto simp: admin_adjust_def Let_def split: if_split_asm sum.split_asm exn.split_asm)
  qed
  then show ?thesis
  proof cases
    case (2 ty a e s1 w z y)
    have "account_side H s s1"
      by (rule account_side_op [OF 2(1)])
        (use engine_keys(8) [OF shop_digest_good] shop_digest_good assms(2) in \<open>simp_all add: admin_ref_def\<close>)
    moreover have "account_side H s1 t" unfolding 2(2) by (intro profile_account_side profile_same_users) (simp_all add: audit_def)
    ultimately show ?thesis by (rule account_side_trans)
  qed simp
qed

section \<open>Applications, switches and the catalogue\<close>

lemma apply_profile: "submit_application uid kind pitch s = (a, t) \<Longrightarrow> profile_step s t"
  by (auto simp: submit_application_def Let_def split: option.split_asm intro!: profile_same_users)

lemma approve_profile: "profile_step s (approve_application a s)"
proof -
  have same: "profile_step s (set_application_status i st s)" for i st s
    by (rule profile_same_users) (simp_all add: set_application_status_def)
  have keep: "keeps_wallet (promote_role r)" for r by (simp add: keeps_wallet_def promote_role_def)
  let ?s = "set_application_status (app_id a) ''approved'' s"
  have "profile_step ?s (update_user (app_user_id a) (promote_role ''reseller'') (?s\<lparr>resellers := m\<rparr>))" for m
    by (rule profile_trans [OF profile_same_users profile_update [OF keep]]) simp_all
  moreover have "profile_step ?s (update_user (app_user_id a) (promote_role ''promoter'') (?s\<lparr>promoters := m\<rparr>))" for m
    by (rule profile_trans [OF profile_same_users profile_update [OF keep]]) simp_all
  ultimately have "profile_step ?s (approve_application a s)"
    by (simp add: approve_application_def Let_def)
  with same show ?thesis by (blast intro: profile_trans)
qed

lemma decide_profile:
  assumes "decide_application b aid s = Inr (x, t)"
  shows "profile_step s t"
proof -
  have "profile_step s (reject_application a s)" for a
    by (rule profile_same_users) (simp_all add: reject_application_def set_application_status_def)
  then show ?thesis
    using assms approve_profile by (auto simp: decide_application_def split: option.split_asm if_split_asm)
qed

lemma toggle_kill_profile: "toggle_kill key actor s = Inr (x, t) \<Longrightarrow> profile_step s t"
  by (auto simp: toggle_kill_def set_setting_def audit_def split: if_split_asm intro!: profile_same_users)

lemma set_setting_profile: "cmd_set_setting key v s = Inr t \<Longrightarrow> profile_step s t"
  by (auto simp: cmd_set_setting_def audit_def split: if_split_asm intro!: profile_same_users)

lemma promote_profile:
  assumes "cmd_promote uid r s = Inr t"
  shows "profile_step s t"
proof -
  let ?f = "\<lambda>u. u\<lparr>u_role := r\<rparr>"
  have "t = audit ''cli'' ''user.role'' (Some (str_int uid)) None (update_user uid ?f s)"
    using assms by (simp add: cmd_promote_def split: if_split_asm)
  moreover have "profile_step s (update_user uid ?f s)" by (rule profile_update) (simp add: keeps_wallet_def)
  moreover have "profile_step u (audit w x y z u)" for u w x y z
    by (rule profile_same_users) (simp_all add: audit_def)
  ultimately show ?thesis by (blast intro: profile_trans)
qed

lemma toggle_profile: "cmd_toggle active nm ids p all s = Inr t \<Longrightarrow> profile_step s t"
proof -
  have cat: "profile_step u (fold (refresh_category s0) cids u)" for s0 cids u
  proof (induction cids arbitrary: u)
    case (Cons c cids)
    have "profile_step u (refresh_category s0 c u)"
      by (rule profile_same_users) (simp_all add: refresh_category_def)
    with Cons show ?case by (auto intro: profile_trans)
  qed simp
  have rows: "profile_step s (toggle_rows active sids s)" for sids
    by (rule profile_same_users) (simp_all add: toggle_rows_def)
  have aud: "profile_step u (audit w x y z u)" for u w x y z
    by (rule profile_same_users) (simp_all add: audit_def)
  assume "cmd_toggle active nm ids p all s = Inr t"
  then obtain sids where "t = toggle_services active sids s" by (auto simp: cmd_toggle_def)
  then show ?thesis unfolding toggle_services_def Let_def
    by (simp only:) (meson cat rows aud profile_trans)
qed

lemma ensure_category_profile: "profile_step s (snd (ensure_category D1 nm a s))"
  by (auto simp: ensure_category_def Let_def split: option.split intro!: profile_same_users)

lemma add_service_profile:
  assumes "add_service G D1 now auto pid ext n (rep, s) = Inr (rep', t)"
  shows "profile_step s t"
proof -
  obtain cid s1 where c: "ensure_category D1 (ns_category n) (auto \<and> supported n) s = (cid, s1)" by fastforce
  then have "profile_step s1 t"
    using assms by (auto simp: add_service_def insert_service_def Let_def split: if_split_asm intro!: profile_same_users)
  then show ?thesis
    using ensure_category_profile [of s D1 "ns_category n" "auto \<and> supported n"] c by (auto intro: profile_trans)
qed

lemma update_service_profile: "profile_step s (update_service sid f s)"
  by (rule profile_same_users) (simp_all add: update_service_def)

lemma sync_row_profile:
  "sync_row env auto pid known row (rep, s) = Inr (rep', t) \<Longrightarrow> profile_step s t"
  by (cases row) (auto simp: sync_row_def update_service_profile split: option.split_asm dest: add_service_profile)

lemma sync_rows_profile:
  "sync_rows env auto pid known rows (rep, s) = Inr (rep', t) \<Longrightarrow> profile_step s t"
proof (induction rows arbitrary: rep s)
  case (Cons row rows)
  then obtain rep1 s1 where "sync_row env auto pid known row (rep, s) = Inr (rep1, s1)"
    and "sync_rows env auto pid known rows (rep1, s1) = Inr (rep', t)" by auto
  with Cons.IH sync_row_profile show ?case by (blast intro: profile_trans)
qed simp

lemma retire_profile: "retire_missing rows known (rep, s) = (rep', t) \<Longrightarrow> profile_step s t"
proof (induction known arbitrary: rep s)
  case (Cons k known)
  obtain ext i where k: "k = (ext, i)" by fastforce
  consider rep1 where "retire_missing rows known (rep1, s) = (rep', t)"
    | rep1 where "retire_missing rows known (rep1, update_service i retire_service s) = (rep', t)"
    using Cons.prems by (auto simp: k split: option.split_asm if_split_asm)
  then show ?case
    by cases (auto intro: Cons.IH profile_trans [OF update_service_profile])
qed simp

lemma finish_profile: "profile_step s (snd (finish_sync env pid rep s))"
  by (rule profile_same_users) (simp_all add: finish_sync_def Let_def audit_def)

lemma start_run_profile: "profile_step s (start_run pid s)"
  by (rule profile_same_users) (simp_all add: start_run_def)

lemma sync_answer_profile:
  assumes "sync_answer env p upstream s = Inr (rep, t)"
  shows "profile_step s t"
proof -
  have fin: "profile_step u v" if "finish_sync env (p_id p) r u = (r', v)" for r r' u v
    using finish_profile [of u env "p_id p" r] that by simp
  obtain rows invalid where v: "valid_rows (se_str env) (provider_fx p) upstream [] 0 = (rows, invalid)" by fastforce
  let ?r = "(new_report (p_id p))\<lparr>rep_skipped_invalid := int invalid\<rparr>"
  let ?known = "by_external (provider_services s (p_id p))"
  show ?thesis
  proof (cases "looks_malformed (length (filter (\<lambda>svc. \<not> s_is_removed_upstream svc) (provider_services s (p_id p))))
      (length rows) invalid")
    case (Some why)
    then show ?thesis using assms v fin by (simp add: sync_answer_def Let_def)
  next
    case None
    obtain r2 s2 where r: "sync_rows env (p_auto_activate_new p) (p_id p) ?known rows (?r, s) = Inr (r2, s2)"
      using assms v None by (auto simp: sync_answer_def Let_def)
    obtain r3 s3 where m: "retire_missing rows ?known (r2, s2) = (r3, s3)" by fastforce
    have f: "finish_sync env (p_id p) r3 s3 = (rep, t)"
      using assms v None r m by (simp add: sync_answer_def Let_def)
    from sync_rows_profile [OF r] retire_profile [OF m] fin [OF f] show ?thesis by (meson profile_trans)
  qed
qed

lemma sync_provider_profile:
  assumes "sync_provider env p answer s = Inr (rep, t)"
  shows "profile_step s t"
proof -
  have fin: "profile_step u v" if "finish_sync env (p_id p) r u = (r', v)" for r r' u v
    using finish_profile [of u env "p_id p" r] that by simp
  have "profile_step (start_run (p_id p) s) t"
    using assms by (auto simp: sync_provider_def Let_def split: sum.split_asm exn.split_asm
        intro: fin sync_answer_profile)
  then show ?thesis by (rule profile_trans [OF start_run_profile])
qed

lemma sync_all_profile: "sync_all env answers pids s = Inr (reps, t) \<Longrightarrow> profile_step s t"
proof (induction pids arbitrary: s reps)
  case (Cons pid pids)
  consider "sync_all env answers pids s = Inr (reps, t)"
    | reps' where "sync_all env answers pids (start_run pid s) = Inr (reps', t)"
    | p rep s1 reps' where "sync_provider env p (answers pid) s = Inr (rep, s1)" "sync_all env answers pids s1 = Inr (reps', t)"
    using Cons.prems by (auto split: option.split_asm if_split_asm sum.split_asm exn.split_asm)
  then show ?case
    by cases (auto intro: Cons.IH profile_trans [OF start_run_profile] profile_trans [OF sync_provider_profile])
qed simp

section \<open>The books together\<close>

definition bonus_books :: "db \<Rightarrow> bool" where
  "bonus_books s \<longleftrightarrow>
     (\<forall>e \<in> set (ledger s). e_reference_type e = Some ''bonus'' \<longrightarrow> e_key e = welcome_key (e_user_id e))"

definition shop_inv :: "digest \<Rightarrow> db \<Rightarrow> bool" where
  "shop_inv H s \<longleftrightarrow> shop_digest H \<and> book_inv s \<and> deposit_books H s \<and> bonus_books s"

lemma bonus_books_adds:
  assumes "bonus_books s" and "adds P s t"
    and "\<And>e. P e \<Longrightarrow> e_reference_type e = Some ''bonus'' \<Longrightarrow> e_key e = welcome_key (e_user_id e)"
  shows "bonus_books t"
  using assms by (fastforce simp: bonus_books_def adds_def)

lemma book_inv_adds:
  assumes "book_inv s" and "adds P s t" and "\<And>e. P e \<Longrightarrow> e_reference_type e \<noteq> Some ''order''"
    and "orders t = orders s" and "next_order_id t = next_order_id s" and "wallet_inv t"
  shows "book_inv t"
proof -
  obtain new where new: "ledger t = ledger s @ new" "\<forall>e \<in> set new. e_reference_type e \<noteq> Some ''order''"
    using assms(2,3) by (auto simp: adds_def)
  have ids: "idents t = idents s" using assms(4) by (simp add: idents_def)
  have "filter (\<lambda>e. e_reference_type e = Some ''order'' \<and> e_reference_id e = Some pid \<and>
      e_entry_type e = Credit \<and> e_user_id e = uid) new = []" for pid uid
    using new(2) by (simp add: filter_empty_conv)
  then have "ref_sum pid uid (ledger t) = ref_sum pid uid (ledger s)" for pid uid
    by (simp add: ref_sum_def new(1))
  moreover have "e \<in> set (ledger s)" if "e \<in> set (ledger t)" "e_reference_type e = Some ''order''" for e
    using that new by auto
  ultimately show ?thesis using assms(1,5,6) unfolding book_inv_def ids by simp
qed

lemma deposit_books_adds:
  assumes "deposit_books H s" and "adds P s t" and "payments t = payments s"
    and "\<And>e. P e \<Longrightarrow> e_reference_type e \<noteq> Some ''payment'' \<and> (\<forall>pid. e_key e \<noteq> deposit_ledger_key H pid)"
  shows "deposit_books H t"
proof -
  obtain new where new: "ledger t = ledger s @ new"
    "\<And>e. e \<in> set new \<Longrightarrow> e_reference_type e \<noteq> Some ''payment'' \<and> (\<forall>pid. e_key e \<noteq> deposit_ledger_key H pid)"
    using assms(2,4) by (auto simp: adds_def)
  have ents: "deposit_entries pid t = deposit_entries pid s" for pid
    using new(2) by (simp add: deposit_entries_def new(1) filter_empty_conv)
  have keys: "existing (deposit_ledger_key H pid) t = existing (deposit_ledger_key H pid) s" for pid
  proof -
    have "deposit_ledger_key H pid \<notin> e_key ` set new"
    proof
      assume "deposit_ledger_key H pid \<in> e_key ` set new"
      then obtain e where "e \<in> set new" "e_key e = deposit_ledger_key H pid" by auto
      with new(2) show False by blast
    qed
    then have "find_by e_key (deposit_ledger_key H pid) new = None" by (simp add: find_by_None)
    then show ?thesis by (simp add: existing_def new(1) find_by_append split: option.split)
  qed
  show ?thesis using assms(1) unfolding deposit_books_def assms(3) ents keys by blast
qed

lemma order_side_shop:
  assumes "shop_inv H s" and "order_side H s t" and "book_inv t"
  shows "shop_inv H t"
proof -
  have a: "adds (order_entry H) s t" and p: "payments t = payments s"
    using assms(2) by (simp_all add: order_side_def)
  have "deposit_books H t"
    using _ a p by (rule deposit_books_adds) (use assms(1) in \<open>auto simp: shop_inv_def order_entry_def\<close>)
  moreover have "bonus_books t"
    using _ a by (rule bonus_books_adds) (use assms(1) in \<open>auto simp: shop_inv_def order_entry_def\<close>)
  ultimately show ?thesis using assms by (simp add: shop_inv_def)
qed

lemma payment_side_shop:
  assumes "shop_inv H s" and "payment_side s t" and "pay_inv H t"
  shows "shop_inv H t"
proof -
  have a: "adds payment_entry s t" and o': "orders t = orders s" "next_order_id t = next_order_id s"
    using assms(2) by (simp_all add: payment_side_def)
  have "book_inv t"
    using _ a _ o' by (rule book_inv_adds)
      (use assms(1,3) in \<open>auto simp: shop_inv_def payment_entry_def pay_inv_def\<close>)
  moreover have "bonus_books t"
    using _ a by (rule bonus_books_adds) (use assms(1) in \<open>auto simp: shop_inv_def payment_entry_def\<close>)
  ultimately show ?thesis using assms by (simp add: shop_inv_def pay_inv_def)
qed

lemma account_side_shop:
  assumes "shop_inv H s" and "account_side H s t"
  shows "shop_inv H t"
proof -
  have a: "adds (account_entry H) s t" and o': "orders t = orders s" "next_order_id t = next_order_id s"
    and p: "payments t = payments s" and w: "wallet_inv t"
    using assms by (auto simp: account_side_def shop_inv_def dest: book_inv_wallet)
  have "book_inv t"
    using _ a _ o' w by (rule book_inv_adds) (use assms(1) in \<open>auto simp: shop_inv_def account_entry_def\<close>)
  moreover have "deposit_books H t"
    using _ a p by (rule deposit_books_adds) (use assms(1) in \<open>auto simp: shop_inv_def account_entry_def\<close>)
  moreover have "bonus_books t"
    using _ a by (rule bonus_books_adds) (use assms(1) in \<open>auto simp: shop_inv_def account_entry_def\<close>)
  ultimately show ?thesis using assms(1) by (simp add: shop_inv_def)
qed

lemmas profile_shop = account_side_shop [OF _ profile_account_side]

section \<open>Everything that can be asked for\<close>

text \<open>
  The requests: of the order engine, of the deposits, of a user (sign-in, start, terms, application, payout),
  of an administrator in the bot, of the operator at the command line, and of the catalogue worker.
\<close>

datatype shop_request =
    Sh_order order_env order_request
  | Sh_payment int payment_request
  | Sh_start settings telegram_user string
  | Sh_terms int settings telegram_user
  | Sh_apply int string string
  | Sh_payout string int string int
  | Sh_adjust settings telegram_user string int int string
  | Sh_decide settings telegram_user bool int
  | Sh_kill settings telegram_user string
  | Sh_setting string string
  | Sh_promote int string
  | Sh_toggle bool "(string \<Rightarrow> bool) option" "string list" "string option" bool
  | Sh_register settings telegram_user
  | Sh_sync sync_env "string \<Rightarrow> provider_service list res" "string list"

fun shop_op ::
  "(json \<Rightarrow> string) \<Rightarrow> (string \<Rightarrow> nat list) \<Rightarrow> digest \<Rightarrow> shop_request \<Rightarrow> db \<Rightarrow> (unit \<times> db) res" where
  "shop_op R D H (Sh_order env q) s = no_result (order_op (env\<lparr>env_digest := H\<rparr>) q s)"
| "shop_op R D H (Sh_payment now q) s = no_result (payment_op R H now q s)"
| "shop_op R D H (Sh_start st q arg) s = no_result (cmd_start D st q arg s)"
| "shop_op R D H (Sh_terms now st q) s = no_result (accept_terms H D now st q s)"
| "shop_op R D H (Sh_apply uid kind pitch) s = Inr ((), snd (submit_application uid kind pitch s))"
| "shop_op R D H (Sh_payout pid uid kind amount) s = no_result (request_payout H pid uid kind amount s)"
| "shop_op R D H (Sh_adjust st q adj target amount why) s =
     no_result (as_staff D st q (\<lambda>actor. admin_adjust H adj actor target amount why) s)"
| "shop_op R D H (Sh_decide st q approve aid) s =
     no_result (as_staff D st q (\<lambda>actor. decide_application approve aid) s)"
| "shop_op R D H (Sh_kill st q key) s = no_result (as_staff D st q (\<lambda>actor. toggle_kill key actor) s)"
| "shop_op R D H (Sh_setting key v) s = e_bind (cmd_set_setting key v s) (\<lambda>s. Inr ((), s))"
| "shop_op R D H (Sh_promote uid r) s = e_bind (cmd_promote uid r s) (\<lambda>s. Inr ((), s))"
| "shop_op R D H (Sh_toggle active nm ids p all) s = e_bind (cmd_toggle active nm ids p all s) (\<lambda>s. Inr ((), s))"
| "shop_op R D H (Sh_register st q) s = no_result (ensure_user D st q s)"
| "shop_op R D H (Sh_sync env answers pids) s = no_result (sync_all env answers pids s)"

lemma as_staff_shop:
  assumes "as_staff D st q f s = Inr (x, t)" and "shop_inv H s"
    and "\<And>uid u y v. f uid u = Inr (y, v) \<Longrightarrow> shop_inv H u \<Longrightarrow> shop_inv H v"
  shows "shop_inv H t"
proof -
  obtain uid s1 u where s1: "ensure_user D st q s = Inr (uid, s1)"
    and t: "(if \<not> is_staff st u then Inr (None, s1) else e_bind (f uid s1) (\<lambda>(x, s). Inr (Some x, s))) = Inr (x, t)"
    using assms(1) unfolding as_staff_def e_bind_eq_Inr split_paired_Ex case_prod_conv by blast
  have "shop_inv H s1" using assms(2) ensure_user_profile [OF s1] by (rule profile_shop)
  then show ?thesis using t assms(3) by (auto split: if_split_asm)
qed

lemma shop_op_inv:
  assumes "shop_op R D H q s = Inr (x, t)" and inv: "shop_inv H s"
  shows "shop_inv H t"
proof -
  have hex: "shop_digest H" and good: "good_digest H" using inv by (simp_all add: shop_inv_def shop_digest_good)
  have profile: "shop_inv H v" if "shop_inv H u" "profile_step u v" for u v using that by (rule profile_shop)
  show ?thesis
  proof (cases q)
    case (Sh_order env r)
    let ?env = "env\<lparr>env_digest := H\<rparr>"
    obtain ids where op: "order_op ?env r s = Inr (ids, t)" using assms(1) Sh_order by (auto simp: no_result_Inr)
    have "order_side H s t" using order_op_side [OF op] good by simp
    moreover have "book_inv t" using order_op_book [OF op] inv by (simp add: shop_inv_def)
    ultimately show ?thesis using order_side_shop [OF inv] by blast
  next
    case (Sh_payment now r)
    then obtain y where op: "payment_op R H now r s = Inr (y, t)" using assms(1) by (auto simp: no_result_Inr)
    have "pay_inv H s" using inv good by (simp add: shop_inv_def pay_inv_def book_inv_wallet)
    then show ?thesis using payment_side_shop [OF inv payment_op_side [OF op good]] payment_op_inv [OF op] by blast
  next
    case (Sh_adjust st u adj target amount why)
    then obtain y where op: "as_staff D st u (\<lambda>actor. admin_adjust H adj actor target amount why) s = Inr (y, t)"
      using assms(1) by (auto simp: no_result_Inr)
    then show ?thesis using inv
      by (rule as_staff_shop) (use hex in \<open>blast intro: account_side_shop admin_adjust_side\<close>)
  next
    case (Sh_decide st u approve aid)
    then obtain y where op: "as_staff D st u (\<lambda>actor. decide_application approve aid) s = Inr (y, t)"
      using assms(1) by (auto simp: no_result_Inr)
    then show ?thesis using inv by (rule as_staff_shop) (blast intro: profile decide_profile)
  next
    case (Sh_kill st u key)
    then obtain y where op: "as_staff D st u (\<lambda>actor. toggle_kill key actor) s = Inr (y, t)"
      using assms(1) by (auto simp: no_result_Inr)
    then show ?thesis using inv by (rule as_staff_shop) (blast intro: profile toggle_kill_profile)
  next
    case (Sh_apply uid kind pitch)
    then have "submit_application uid kind pitch s = (fst (submit_application uid kind pitch s), t)"
      using assms(1) by (metis Inr_inject prod.collapse prod.inject shop_op.simps(5))
    then show ?thesis by (intro profile [OF inv] apply_profile)
  next
    case (Sh_terms now st u)
    then show ?thesis using assms(1) account_side_shop [OF inv] accept_terms_side [OF _ hex]
      by (auto simp: no_result_Inr)
  next
    case (Sh_payout pid uid kind amount)
    then show ?thesis using assms(1) account_side_shop [OF inv] payout_side [OF _ hex]
      by (auto simp: no_result_Inr)
  qed (use assms(1) in \<open>auto simp: no_result_Inr intro: profile [OF inv] ensure_user_profile cmd_start_profile set_setting_profile
    promote_profile toggle_profile sync_all_profile\<close>)
qed

interpretation shop: session_steps "shop_op R D H" "shop_inv H" "\<lambda>_. True" for R D H
  by unfold_locales (rule shop_op_inv)

text \<open>At most one entry of a ledger has a given key.\<close>

lemma distinct_key_count:
  assumes "distinct (map e_key es)" and "\<forall>e \<in> set es. P e \<longrightarrow> e_key e = k"
  shows "length (filter P es) \<le> 1"
  using assms
proof (induction es)
  case (Cons e es)
  show ?case
  proof (cases "P e")
    case True
    have "\<not> P x" if "x \<in> set es" for x
    proof
      assume "P x"
      with True Cons.prems that have "e_key x = e_key e" by simp
      with that Cons.prems(1) show False by (metis distinct.simps(2) image_eqI list.map(2) list.set_map)
    qed
    then have "filter P es = []" by (simp add: filter_empty_conv)
    with True show ?thesis by simp
  next
    case False
    with Cons show ?thesis by simp
  qed
qed simp

lemma bonus_at_most_once:
  assumes "shop_inv H s"
  shows "length (filter (\<lambda>e. e_reference_type e = Some ''bonus'' \<and> e_user_id e = uid) (ledger s)) \<le> 1"
proof (rule distinct_key_count [where k = "welcome_key uid"])
  show "distinct (map e_key (ledger s))"
    using assms book_inv_wallet by (auto simp: shop_inv_def wallet_inv_def)
qed (use assms in \<open>auto simp: shop_inv_def bonus_books_def\<close>)

text \<open>
  C1: The books of the shop. After any interleaving of everything that users, providers, the payment
  gateway, administrators, the operator and the workers ask for, each request one transaction that
  is rolled back where it raises: every cached wallet is what the ledger says; no order has been
  refunded beyond its charge; a payment has exactly one credit of its amount when it is marked
  paid and none otherwise; and every user got the welcome bonus at most once.
\<close>

theorem shop_books_hold:
  assumes "shop_inv H s" and "t = session_run (shop_op R D H) qs s"
  shows "wallet_inv t \<and>
    (\<forall>r \<in> set (orders t). 0 < o_charge_paise r \<and> refunded_so_far r t \<le> o_charge_paise r) \<and>
    (\<forall>p \<in> set (payments t). map entry_face (deposit_entries (pay_public_id p) t)
      = (if pay_status p = PAID then [(pay_user_id p, pay_amount_paise p, Credit)] else [])) \<and>
    (\<forall>uid. length (filter (\<lambda>e. e_reference_type e = Some ''bonus'' \<and> e_user_id e = uid) (ledger t)) \<le> 1)"
proof -
  have inv: "shop_inv H t" unfolding assms(2) by (rule shop.run_inv) (use assms(1) in auto)
  then have b: "book_inv t" and d: "deposit_books H t" by (simp_all add: shop_inv_def)
  have "0 < o_charge_paise r \<and> refunded_so_far r t \<le> o_charge_paise r" if "r \<in> set (orders t)" for r
    using b that by (metis book_inv_ident(1,2) idents_def image_eqI list.set_map)
  then show ?thesis
    using book_inv_wallet [OF b] d bonus_at_most_once [OF inv] by (simp add: deposit_books_def due_entries_def)
qed

text \<open>A shop with a paid deposit of 500 paise and an accepted order of 300 paise.\<close>

definition open_shop :: db where
  "open_shop = (shop_with [sample_order 7 Processing 300])\<lparr>payments := [sample_payment ''PAY-1'' 7 500 PAID]\<rparr>"

lemma shop_sample_digest: "shop_digest sample_digest"
  by (auto simp: shop_digest_def welcome_key_def sample_digest_def)

lemma open_shop_inv: "shop_inv sample_digest open_shop"
proof -
  have "book_inv (shop_with [sample_order 7 Processing 300])"
    by (rule book_inv_shop_with) (simp_all add: sample_order_def)
  moreover have "books open_shop = books (shop_with [sample_order 7 Processing 300])"
    by (simp add: open_shop_def books_def idents_def)
  ultimately have b: "book_inv open_shop" using book_inv_frame by blast
  have led: "ledger open_shop = ledger (funded_user 7 500)" "payments open_shop = [sample_payment ''PAY-1'' 7 500 PAID]"
    by (simp_all add: open_shop_def)
  have e: "map entry_face (ledger (funded_user 7 500)) = [(7, 500, Credit)]"
    "map e_key (ledger (funded_user 7 500)) = [''k0'']"
    "map (\<lambda>e. (e_reference_type e, e_reference_id e)) (ledger (funded_user 7 500)) = [(Some ''payment'', Some ''PAY-1'')]"
    by (simp_all add: funded_user_simps entry_face_def)
  then obtain x where x: "ledger (funded_user 7 500) = [x]" "entry_face x = (7, 500, Credit)" "e_key x = ''k0''"
    "e_reference_type x = Some ''payment''" "e_reference_id x = Some ''PAY-1''" by auto
  have "deposit_ledger_key sample_digest pid \<noteq> ''k0''" "''k0'' \<noteq> deposit_ledger_key sample_digest pid" for pid
    by (simp_all add: deposit_ledger_key_def new_idempotency_key_def sample_digest_def)
  then have "deposit_books sample_digest open_shop"
    by (auto simp: deposit_books_def led deposit_entries_def x due_entries_def sample_payment_def existing_def)
  moreover have "bonus_books open_shop" by (simp add: bonus_books_def led x)
  ultimately show ?thesis using b by (simp add: shop_inv_def shop_sample_digest)
qed

lemma open_shop_simps [simp]:
  "orders open_shop = [sample_order 7 Processing 300]" "ledger open_shop = ledger (funded_user 7 500)"
  "users open_shop = users (funded_user 7 500)" "next_order_id open_shop = 2"
  "idempotency_records open_shop = Map.empty" "order_events open_shop = []"
  "payments open_shop = [sample_payment ''PAY-1'' 7 500 PAID]"
  by (simp_all add: open_shop_def)

text \<open>The provider cancels the order: the charge of 300 comes back to the 500.\<close>

lemma open_shop_cancel:
  "\<exists>t. order_op (sample_env\<lparr>env_digest := sample_digest\<rparr>) (Sync 1 (Inr (sample_status Canceled None))) open_shop
     = Inr ([1], t) \<and> account_of t 7 = Some (800, 0) \<and> map o_status (orders t) = [Refunded]"
proof -
  have key: "new_idempotency_key sample_digest [''refund'', ''FL-1'', ''canceled''] \<noteq> ''k0''"
    by (simp add: new_idempotency_key_def sample_digest_def)
  have led: "filter (\<lambda>e. e_reference_type e = Some ''order'' \<and> e_reference_id e = Some ''FL-1'' \<and>
      e_entry_type e = Credit \<and> e_user_id e = 7) (ledger (funded_user 7 500)) = []"
    using funded_user_tables(2) by auto
  have ex: "find_by e_key (new_idempotency_key sample_digest [''refund'', ''FL-1'', ''canceled''])
      (ledger (funded_user 7 500)) = None"
    using funded_user_tables(2) key by auto
  show ?thesis
    by (simp add: sync_order_status_def with_order_def order_by_id_def sample_order_def
        status_sets has_provider_id_def sample_status_def sample_env_def sync_counters_def stamp_sync_def Let_def
        update_order_def sync_transition_def record_event_def refund_if_needed_def owed_on_def
        refunded_so_far_def led credit_order_def credit_def lock_user_def funded_user_tables(1)
        existing_def ex default_key_def append_entry_def update_user_def refund_record_def account_of_def
        new_user_def)
qed

theorem shop_books_hold_witness:
  "\<exists>t. session_run (shop_op (\<lambda>_. []) (\<lambda>_. []) sample_digest)
      [Sh_order sample_env (Sync 1 (Inr (sample_status Canceled None)))] open_shop = t \<and>
     account_of t 7 = Some (800, 0) \<and> wallet_inv t \<and>
     (\<forall>r \<in> set (orders t). refunded_so_far r t \<le> o_charge_paise r)"
proof -
  let ?qs = "[Sh_order sample_env (Sync 1 (Inr (sample_status Canceled None)))]"
  obtain t where "order_op (sample_env\<lparr>env_digest := sample_digest\<rparr>) (Sync 1 (Inr (sample_status Canceled None)))
      open_shop = Inr ([1], t)" and a: "account_of t 7 = Some (800, 0)"
    using open_shop_cancel by blast
  then have run: "session_run (shop_op (\<lambda>_. []) (\<lambda>_. []) sample_digest) ?qs open_shop = t"
    by (simp add: no_result_def)
  from shop_books_hold [OF open_shop_inv run [symmetric]] a run show ?thesis by blast
qed

end
