(* ===== verification/AccountSpec.thy ===== *)
theory AccountSpec
  imports Shop
begin

text \<open>
  What the tools of \<open>Accounts\<close> guarantee one by one: what an adjustment does to a wallet, and the two
  flaws found in them. Who may use them is shown for the bot's handlers, in \<open>BotSpec\<close>.
\<close>

section \<open>Referral codes\<close>

text \<open>Making sure that a user has a code changes at most the code.\<close>

lemma referral_code_update:
  assumes "ensure_referral_code D uid s = Inr (c, t)"
  obtains "t = s" | code where "t = update_user uid (\<lambda>u. u\<lparr>u_referral_code := Some code\<rparr>) s"
proof -
  obtain u where u: "lock_user uid s = Inr u" using assms by (auto simp: ensure_referral_code_def)
  show thesis
  proof (cases "u_referral_code u = None \<or> u_referral_code u = Some []")
    case True
    then show thesis using that(2) assms u
      by (auto simp: ensure_referral_code_def Let_def split: if_split_asm)
  next
    case False
    then obtain x xs where "u_referral_code u = Some (x # xs)" by (metis list.exhaust option.exhaust)
    then show thesis using that(1) assms u by (simp add: ensure_referral_code_def)
  qed
qed

section \<open>Adjustments\<close>

text \<open>
  An adjustment does what it says. An administrator's adjustment that is reported as done changes
  the balance of its target by exactly its amount, leaves the holds covered and every other account
  alone, and writes one audit record in the name of the administrator.
\<close>

theorem adjustment_exact:
  assumes "wallet_inv s" and "good_digest H" and "existing (new_idempotency_key H [''admin-adj'', adj]) s = None"
    and "account_of s target = Some (b, r)" and "admin_adjust H adj actor target amount why s = Inr (True, t)"
  shows "account_of t target = Some (b + amount, r) \<and> r \<le> b + amount \<and>
    (\<forall>v. v \<noteq> target \<longrightarrow> account_of t v = account_of s v) \<and>
    (\<exists>a. audit_logs t = audit_logs s @ [a] \<and> audit_actor a = take 48 (str_int actor)) \<and> wallet_inv t"
proof -
  let ?why = "''Admin: '' @ strip why" and ?k = "new_idempotency_key H [''admin-adj'', adj]"
  let ?ty = "if 0 < amount then Credit else Debit"
  obtain e s1 w z y where op: "wallet_op H ?ty target \<bar>amount\<bar> ?why ?k (admin_ref actor) s = Inr (e, s1)"
    and t: "t = audit (str_int actor) w z y s1"
    using assms(5) by (auto simp: admin_adjust_def Let_def split: if_split_asm sum.split_asm exn.split_asm)
  obtain u where u: "users s target = Some u" "b = cached_balance_paise u" "r = cached_reserved_paise u"
    using assms(4) by (auto simp: account_of_def)
  have ok: "acct_ok (b, r)" using wallet_inv_acct_ok [OF assms(1) u(1)] u by simp
  obtain b' r' where st: "acct_step ?ty \<bar>amount\<bar> (b, r) = Some (b', r')"
    and p: "posted target (entry_amount ?ty \<bar>amount\<bar>) ?ty ?k (admin_ref actor) b' r' s e s1"
    using wallet_op_posted [OF op assms(3) _ assms(4) ok] assms(2) by auto
  have acct: "b' = b + amount" "r' = r" using st by (auto split: if_split_asm)
  have "r \<le> b + amount" using acct_step_ok [OF ok st] acct by (simp add: acct_ok_def)
  moreover have "wallet_inv s1" using assms(1) op by (rule wallet_inv_op)
  then have "wallet_inv t" by (subst wallet_inv_cong [of _ s1]) (simp_all add: t audit_def)
  moreover have "account_of t v = account_of s1 v" for v by (simp add: t audit_def account_of_def)
  moreover have "audit_logs s1 = audit_logs s" using p by (simp add: posted_def same_tables_fields)
  ultimately show ?thesis using posted_account [OF p u(1)] acct by (simp add: t audit_def)
qed

section \<open>Hidden categories\<close>

text \<open>
  Activating the first services of a category hides the category. The command counts the active
  services of the category before its own changes are flushed: a service that it switches on, in a
  category without an active service so far, is active afterwards, while its category is marked
  inactive, although the comment says that a category is visible while it has an active service.
\<close>

theorem activation_hides_new_category:
  assumes "services s sid = Some svc" and "sid \<in> set sids" and "categories s (s_category_id svc) = Some c"
    and "s_service_type svc \<in> set SUPPORTED_TYPES" and "\<not> s_is_removed_upstream svc"
    and "\<forall>v \<in> set (all_services s). s_category_id v = s_category_id svc \<longrightarrow> \<not> s_is_active v"
  shows "\<exists>svc' c'. services (toggle_services True sids s) sid = Some svc' \<and> s_is_active svc' \<and>
    s_category_id svc' = s_category_id svc \<and>
    categories (toggle_services True sids s) (s_category_id svc) = Some c' \<and> \<not> c_is_active c'"
proof -
  let ?cids = "remdups (map s_category_id (List.map_filter (services s) sids))"
  have "s_category_id svc \<in> set ?cids" using assms(1,2) by (force simp: in_map_filter)
  moreover have "count_active_in (s_category_id svc) s = 0" using assms(6) by (simp add: count_active_in_def)
  ultimately show ?thesis
    using assms(1-5)
    by (simp add: toggle_services_def Let_def audit_def fold_refresh_tables fold_refresh_category)
      (simp add: toggle_rows_def toggle_service_def)
qed

section \<open>Witnesses\<close>

theorem adjustment_exact_witness:
  "\<exists>t. admin_adjust sample_digest ''ADJ-1'' 1 7 (- 200) ''typo'' (funded_user 7 500) = Inr (True, t) \<and>
     account_of t 7 = Some (300, 0)"
proof -
  have strip: "strip ''typo'' = ''typo''" by code_simp
  have fresh: "existing (new_idempotency_key sample_digest [''admin-adj'', ''ADJ-1'']) (funded_user 7 500) = None"
    and acct: "account_of (funded_user 7 500) 7 = Some (500, 0)"
    by (simp_all add: funded_user_simps new_idempotency_key_def sample_digest_def)
  obtain t where run: "admin_adjust sample_digest ''ADJ-1'' 1 7 (- 200) ''typo'' (funded_user 7 500) = Inr (True, t)"
    by (simp add: admin_adjust_def strip funded_user_simps new_idempotency_key_def sample_digest_def)
  from adjustment_exact [OF wallet_inv_funded_user good_sample_digest fresh acct run] run show ?thesis by simp
qed

definition quiet_service :: service_row where
  "quiet_service = \<lparr>s_id = ''s1'', s_category_id = ''c1'', s_provider_id = ''p1'', s_provider_service_id = ''42'',
     s_name = ''Likes'', s_description = None, s_service_type = ''default'', s_min_qty = 10, s_max_qty = 1000,
     rate_per_1000_paise = 1200, s_markup_percent = None, s_markup_fixed_paise = None, s_is_active = False,
     s_is_refillable = False, s_is_cancelable = False, s_average_time = None, s_external_name = None,
     s_external_category = None, s_is_removed_upstream = False, s_last_synced_at = None\<rparr>"

definition synced_once :: db where
  "synced_once = empty_db\<lparr>services := [''s1'' \<mapsto> quiet_service], service_ids := [''s1''],
     categories := [''c1'' \<mapsto> \<lparr>c_id = ''c1'', c_name = ''Likes'', c_sort_order = 1000, c_is_active = False,
       c_markup_percent = None, c_markup_fixed_paise = None\<rparr>], category_ids := [''c1'']\<rparr>"

theorem activation_hides_new_category_witness:
  "\<exists>svc c. services (toggle_services True [''s1''] synced_once) ''s1'' = Some svc \<and> s_is_active svc \<and>
     categories (toggle_services True [''s1''] synced_once) ''c1'' = Some c \<and> \<not> c_is_active c"
proof -
  have "services synced_once ''s1'' = Some quiet_service" "s_category_id quiet_service = ''c1''"
    "s_service_type quiet_service \<in> set SUPPORTED_TYPES" "\<not> s_is_removed_upstream quiet_service"
    "\<exists>c. categories synced_once ''c1'' = Some c" "all_services synced_once = [quiet_service]" "\<not> s_is_active quiet_service"
    by (simp_all add: synced_once_def quiet_service_def SUPPORTED_TYPES_def all_services_def List.map_filter_def)
  then show ?thesis
    using activation_hides_new_category [of synced_once "''s1''" quiet_service "[''s1'']"] by fastforce
qed

text \<open>
  An amount that is no number crashes the tool. The text ``inf'' (or ``1e999'') is read as a float,
  and converting it to paise raises an OverflowError, which the handler does not catch.
\<close>

theorem infinite_adjustment_raises:
  "adjust_amount ''inf'' = Inl (OtherError ''OverflowError'') \<and>
   adjust_amount ''nan'' = Inl (ValueError ''cannot convert float NaN to integer'')"
proof -
  have "filter (\<lambda>c. c \<noteq> CHR '','') ''inf'' = ''inf''" "filter (\<lambda>c. c \<noteq> CHR '','') ''nan'' = ''nan''"
    "parse_float (strip ''inf'') = Some Inf" "parse_float (strip ''nan'') = Some NaN"
    by code_simp+
  then show ?thesis by (simp add: adjust_amount_def typed_paise_def)
qed

end
