(* ===== verification/Storefront.thy ===== *)
theory Storefront
  imports Orders
begin

text \<open>
  What a customer sees of the catalogue: the listing queries of \<open>app/catalog.py\<close> and the service,
  quote and order objects that \<open>app/api/routes.py\<close> returns. Formatted amounts, emoji and creation
  times are left out. Texts are compared by their bytes, as the binary collation does.
\<close>

section \<open>Listing\<close>

definition list_categories :: "bool \<Rightarrow> db \<Rightarrow> category_row list" where
  "list_categories active_only s =
     sort_key c_sort_order (sort_key c_name
       (filter (\<lambda>c. active_only \<longrightarrow> c_is_active c) (all_categories s)))"

definition list_services :: "bool \<Rightarrow> string \<Rightarrow> db \<Rightarrow> service_row list" where
  "list_services active_only cid s =
     sort_key s_name (filter (\<lambda>v. s_category_id v = cid \<and> (active_only \<longrightarrow> s_is_active v)) (all_services s))"

definition count_active_services :: "db \<Rightarrow> nat" where
  "count_active_services s = length (filter s_is_active (all_services s))"

text \<open>\<open>OFFSET\<close> and \<open>LIMIT\<close>; a negative limit is none, a negative offset is zero.\<close>

definition page :: "int \<Rightarrow> int \<Rightarrow> 'a list \<Rightarrow> 'a list" where
  "page limit offset xs =
     (let rest = drop (nat offset) xs in if limit < 0 then rest else take (nat limit) rest)"

lemma set_page: "set (page limit offset xs) \<subseteq> set xs"
  by (auto simp: page_def Let_def dest: in_set_takeD in_set_dropD)

section \<open>What is sent\<close>

record service_out =
  so_id :: string
  so_name :: string
  so_description :: "string option"
  so_type :: string
  so_min_qty :: int
  so_max_qty :: int
  so_sell_per_1000_paise :: int
  so_refillable :: bool
  so_cancelable :: bool
  so_average_time :: "string option"
  so_category_id :: string

definition service_out_of :: "service_row \<Rightarrow> int \<Rightarrow> service_out" where
  "service_out_of v sell =
     \<lparr>so_id = s_id v, so_name = s_name v, so_description = s_description v, so_type = s_service_type v,
      so_min_qty = s_min_qty v, so_max_qty = s_max_qty v, so_sell_per_1000_paise = sell,
      so_refillable = s_is_refillable v, so_cancelable = s_is_cancelable v,
      so_average_time = s_average_time v, so_category_id = s_category_id v\<rparr>"

text \<open>\<open>as_dict\<close> of a quote without the keys that the route removes.\<close>

record quote_out =
  qo_service_id :: string
  qo_quantity :: int
  qo_sell_per_1000_paise :: int
  qo_subtotal_paise :: int
  qo_discount_paise :: int
  qo_charge_paise :: int
  qo_coupon_code :: "string option"
  qo_min_qty :: int
  qo_max_qty :: int

definition quote_out_of :: "price_quote \<Rightarrow> quote_out" where
  "quote_out_of q =
     \<lparr>qo_service_id = q_service_id q, qo_quantity = q_quantity q,
      qo_sell_per_1000_paise = q_sell_per_1000_paise q, qo_subtotal_paise = q_subtotal_paise q,
      qo_discount_paise = q_discount_paise q, qo_charge_paise = q_charge_paise q,
      qo_coupon_code = q_coupon_code q, qo_min_qty = q_min_qty q, qo_max_qty = q_max_qty q\<rparr>"

record order_out =
  oo_public_id :: string
  oo_status :: string
  oo_status_label :: string
  oo_service_id :: string
  oo_link :: string
  oo_quantity :: int
  oo_charge_paise :: int
  oo_start_count :: "int option"
  oo_remains :: "int option"
  oo_coupon_code :: "string option"
  oo_fail_reason :: "string option"

definition order_out_of :: "order_row \<Rightarrow> order_out" where
  "order_out_of r =
     \<lparr>oo_public_id = o_public_id r, oo_status = status_value (o_status r),
      oo_status_label = status_label (o_status r), oo_service_id = o_service_id r,
      oo_link = o_link r, oo_quantity = o_quantity r, oo_charge_paise = o_charge_paise r,
      oo_start_count = o_start_count r, oo_remains = o_remains r,
      oo_coupon_code = o_coupon_code r, oo_fail_reason = o_fail_reason r\<rparr>"

section \<open>The catalogue pages\<close>

record category_out =
  co_id :: string
  co_name :: string
  co_service_count :: nat

definition active_in :: "string \<Rightarrow> db \<Rightarrow> nat" where
  "active_in cid s = length (filter (\<lambda>v. s_is_active v \<and> s_category_id v = cid) (all_services s))"

definition catalog_categories :: "db \<Rightarrow> category_out list" where
  "catalog_categories s =
     map (\<lambda>c. \<lparr>co_id = c_id c, co_name = c_name c, co_service_count = active_in (c_id c) s\<rparr>)
       (filter (\<lambda>c. active_in (c_id c) s \<noteq> 0) (list_categories True s))"

record star_out =
  st_id :: string
  st_service_id :: string
  st_name :: string
  st_rate_per_1000_paise :: int

definition catalog_stars :: "db \<Rightarrow> star_out list" where
  "catalog_stars s =
     map (\<lambda>(st, v). \<lparr>st_id = star_id st, st_service_id = s_id v, st_name = s_name v,
        st_rate_per_1000_paise = custom_rate_per_1000_paise st\<rparr>) (featured_stars s)"

text \<open>The services of a page with their prices; one that cannot be quoted is skipped.\<close>

fun priced_services :: "db \<Rightarrow> int \<Rightarrow> int \<Rightarrow> service_row list \<Rightarrow> service_out list res" where
  "priced_services s now uid [] = Inr []"
| "priced_services s now uid (v # vs) =
     (case quote_order s now (s_id v) (s_min_qty v) (Some uid) None of
        Inl (ValueError m) \<Rightarrow> priced_services s now uid vs
      | Inl e \<Rightarrow> Inl e
      | Inr q \<Rightarrow> e_bind (priced_services s now uid vs)
          (\<lambda>rest. Inr (service_out_of v (q_sell_per_1000_paise q) # rest)))"

definition category_services ::
  "db \<Rightarrow> int \<Rightarrow> int \<Rightarrow> string \<Rightarrow> int \<Rightarrow> int \<Rightarrow> (service_out list \<times> bool) res" where
  "category_services s now uid cid limit offset =
     (let limit = max 1 (min limit 100);
          offset = max 0 offset;
          rows = page (limit + 1) offset (list_services True cid s)
      in e_bind (priced_services s now uid (take (nat limit) rows))
           (\<lambda>items. Inr (items, limit < int (length rows))))"

definition service_detail :: "db \<Rightarrow> int \<Rightarrow> int \<Rightarrow> string \<Rightarrow> service_out res" where
  "service_detail s now uid sid =
     (case get_service s sid of
        None \<Rightarrow> Inl (HTTPException 404 ''Service not found'')
      | Some v \<Rightarrow>
        if \<not> s_is_active v then Inl (HTTPException 404 ''Service not found'')
        else (case quote_order s now (s_id v) (s_min_qty v) (Some uid) None of
            Inl (ValueError m) \<Rightarrow> Inl (HTTPException 404 ''Service not available'')
          | Inl e \<Rightarrow> Inl e
          | Inr q \<Rightarrow> Inr (service_out_of v (q_sell_per_1000_paise q))))"

end
