(* ===== verification/RateLimit.thy ===== *)
theory RateLimit
  imports PyText
begin

text \<open>
  \<open>app/ratelimit.py\<close>: the sliding-window limiter of the Mini App API. The dict of hit queues is
  an association list without duplicate keys, a deque is a list whose head is the oldest hit.
  Times are doubles in seconds (\<open>time.monotonic()\<close>), given to every call.
\<close>

section \<open>The limiter\<close>

record limiter =
  rl_limit :: int
  rl_window :: rat
  rl_max_keys :: int
  rl_hits :: "(string \<times> rat list) list"
  rl_last_gc :: rat

definition new_limiter :: "int \<Rightarrow> rat \<Rightarrow> int \<Rightarrow> rat \<Rightarrow> limiter" where
  "new_limiter limit window_seconds max_keys now =
     \<lparr>rl_limit = limit, rl_window = window_seconds, rl_max_keys = max_keys, rl_hits = [],
      rl_last_gc = now\<rparr>"

definition f_sub :: "rat \<Rightarrow> rat \<Rightarrow> rat" where "f_sub x y = fl64 (x - y)"

lemma f_sub_mono: "x \<le> y \<Longrightarrow> f_sub x w \<le> f_sub y w"
  by (simp add: f_sub_def fl64_mono)

definition idle_queue :: "rat \<Rightarrow> rat list \<Rightarrow> bool" where
  "idle_queue cutoff q \<longleftrightarrow> q = [] \<or> last q \<le> cutoff"

definition maybe_gc :: "rat \<Rightarrow> limiter \<Rightarrow> limiter" where
  "maybe_gc now L =
     (if f_sub now (rl_last_gc L) < 60 \<and> int (length (rl_hits L)) < rl_max_keys L then L
      else
        let cutoff = f_sub now (rl_window L);
            kept = filter (\<lambda>(k, q). \<not> idle_queue cutoff q) (rl_hits L)
        in L\<lparr>rl_last_gc := now, rl_hits := (if rl_max_keys L \<le> int (length kept) then [] else kept)\<rparr>)"

text \<open>The loop that drops the hits outside the window.\<close>

fun drop_old :: "rat \<Rightarrow> rat list \<Rightarrow> rat list" where
  "drop_old cutoff [] = []"
| "drop_old cutoff (t # q) = (if t \<le> cutoff then drop_old cutoff q else t # q)"

definition queue_of :: "string \<Rightarrow> limiter \<Rightarrow> rat list" where
  "queue_of key L = (case map_of (rl_hits L) key of None \<Rightarrow> [] | Some q \<Rightarrow> q)"

definition allow :: "string \<Rightarrow> rat \<Rightarrow> limiter \<Rightarrow> bool \<times> limiter" where
  "allow key now L =
     (if rl_limit L \<le> 0 then (True, L)
      else
        let L = maybe_gc now L;
            q = drop_old (f_sub now (rl_window L)) (queue_of key L);
            ok = \<not> rl_limit L \<le> int (length q)
        in (ok, L\<lparr>rl_hits := dict_set key (if ok then q @ [now] else q) (rl_hits L)\<rparr>))"

definition retry_after :: "string \<Rightarrow> rat \<Rightarrow> limiter \<Rightarrow> int" where
  "retry_after key now L =
     (case queue_of key L of
        [] \<Rightarrow> 0
      | t # q \<Rightarrow> max 1 (py_trunc (f_sub (f_add t (rl_window L)) now) + 1))"

section \<open>The reference: a window over the accepted requests\<close>

text \<open>
  The specification keeps every accepted request and accepts the next one when fewer than
  \<open>limit\<close> of its key lie in the window that ends now.
\<close>

type_synonym request = "string \<times> rat"

definition in_window :: "rat \<Rightarrow> string \<Rightarrow> rat \<Rightarrow> request list \<Rightarrow> rat list" where
  "in_window w key now acc = map snd (filter (\<lambda>(k, t). k = key \<and> f_sub now w < t) acc)"

definition window_allows :: "int \<Rightarrow> rat \<Rightarrow> request \<Rightarrow> request list \<Rightarrow> bool" where
  "window_allows limit w q acc \<longleftrightarrow> int (length (in_window w (fst q) (snd q) acc)) < limit"

fun window_run :: "int \<Rightarrow> rat \<Rightarrow> request list \<Rightarrow> request list \<Rightarrow> bool list" where
  "window_run limit w [] acc = []"
| "window_run limit w (q # qs) acc =
     (if window_allows limit w q acc then True # window_run limit w qs (acc @ [q])
      else False # window_run limit w qs acc)"

fun limiter_run :: "request list \<Rightarrow> limiter \<Rightarrow> bool list" where
  "limiter_run [] L = []"
| "limiter_run (q # qs) L = (let (ok, L) = allow (fst q) (snd q) L in ok # limiter_run qs L)"

section \<open>The simulation\<close>

text \<open>
  What relates the queues with the accepted requests: at any time from \<open>now\<close> on, the hits of a
  key inside the window are the accepted ones. Queues are in the order of time.
\<close>

definition tracks :: "rat \<Rightarrow> request list \<Rightarrow> limiter \<Rightarrow> bool" where
  "tracks now acc L \<longleftrightarrow>
     (\<forall>key later. now \<le> later \<longrightarrow>
        drop_old (f_sub later (rl_window L)) (queue_of key L) = in_window (rl_window L) key later acc)
     \<and> (\<forall>(k, q) \<in> set (rl_hits L). sorted q) \<and> distinct (map fst (rl_hits L))
     \<and> (\<forall>(k, t) \<in> set acc. t \<le> now)"

lemma drop_old_sorted: "sorted q \<Longrightarrow> drop_old c q = filter (\<lambda>t. c < t) q"
proof (induction q)
  case (Cons t q)
  show ?case
  proof (cases "t \<le> c")
    case True
    with Cons show ?thesis by simp
  next
    case False
    with Cons.prems have "\<forall>x \<in> set q. c < x" by force
    then have "filter (\<lambda>t. c < t) q = q" by (simp add: filter_id_conv)
    with False show ?thesis by simp
  qed
qed simp

lemma drop_old_drop_old: "c \<le> d \<Longrightarrow> drop_old d (drop_old c q) = drop_old d q"
  by (induction q) auto

lemma drop_old_append_new: "c < t \<Longrightarrow> sorted (q @ [t]) \<Longrightarrow> drop_old c (q @ [t]) = drop_old c q @ [t]"
  using drop_old_sorted [of "q @ [t]" c] drop_old_sorted [of q c] by (simp add: sorted_append)

lemma sorted_drop_old: "sorted q \<Longrightarrow> sorted (drop_old c q)"
  by (simp add: drop_old_sorted sorted_wrt_filter)

lemma set_drop_old: "set (drop_old c q) \<subseteq> set q"
  by (induction q) auto

lemma drop_old_idle: "sorted q \<Longrightarrow> idle_queue c q \<Longrightarrow> c \<le> d \<Longrightarrow> drop_old d q = []"
proof -
  assume s: "sorted q" and i: "idle_queue c q" and cd: "c \<le> d"
  have "t \<le> d" if "t \<in> set q" for t
    using s i cd that
    by (cases q rule: rev_cases) (auto simp: idle_queue_def sorted_append intro: order_trans)
  then show ?thesis using s by (auto simp: drop_old_sorted filter_empty_conv not_less)
qed

lemma map_of_filter_queues:
  "distinct (map fst kvs) \<Longrightarrow>
   map_of (filter (\<lambda>(k, q). P q) kvs) key
     = (case map_of kvs key of None \<Rightarrow> None | Some q \<Rightarrow> if P q then Some q else None)"
  by (induction kvs) (auto simp: map_of_eq_None_iff split: option.split)

lemma maybe_gc_fields [simp]:
  "rl_limit (maybe_gc t L) = rl_limit L" "rl_window (maybe_gc t L) = rl_window L"
  "rl_max_keys (maybe_gc t L) = rl_max_keys L"
  by (simp_all add: maybe_gc_def Let_def)

lemma maybe_gc_keys: "fst ` set (rl_hits (maybe_gc t L)) \<subseteq> fst ` set (rl_hits L)"
  by (auto simp: maybe_gc_def Let_def)

text \<open>Without a flood of keys the collection removes only queues that no window will see again.\<close>

lemma maybe_gc_queue:
  assumes d: "distinct (map fst (rl_hits L))" and few: "int (length (rl_hits L)) < rl_max_keys L"
  shows "queue_of key (maybe_gc t L) = queue_of key L
    \<or> queue_of key (maybe_gc t L) = [] \<and> idle_queue (f_sub t (rl_window L)) (queue_of key L)"
proof -
  let ?kept = "filter (\<lambda>(k, q). \<not> idle_queue (f_sub t (rl_window L)) q) (rl_hits L)"
  have "length ?kept \<le> length (rl_hits L)" by simp
  with few have "\<not> rl_max_keys L \<le> int (length ?kept)" by linarith
  then have "maybe_gc t L = L \<or> rl_hits (maybe_gc t L) = ?kept"
    by (auto simp: maybe_gc_def Let_def)
  then show ?thesis
    using map_of_filter_queues [OF d, of "\<lambda>q. \<not> idle_queue (f_sub t (rl_window L)) q" key]
    by (auto simp: queue_of_def split: option.split if_split_asm)
qed

lemma maybe_gc_sorted:
  "\<forall>(k, q) \<in> set (rl_hits L). sorted q \<Longrightarrow> \<forall>(k, q) \<in> set (rl_hits (maybe_gc t L)). sorted q"
  by (auto simp: maybe_gc_def Let_def)

lemma maybe_gc_distinct:
  "distinct (map fst (rl_hits L)) \<Longrightarrow> distinct (map fst (rl_hits (maybe_gc t L)))"
  by (auto simp: maybe_gc_def Let_def distinct_map_filter)

lemma sorted_queue_of:
  "\<forall>(k, q) \<in> set (rl_hits L). sorted q \<Longrightarrow> sorted (queue_of key L)"
  by (auto simp: queue_of_def split: option.split dest: map_of_SomeD)

lemma tracks_maybe_gc:
  assumes tr: "tracks now acc L" and le: "now \<le> t"
    and few: "int (length (rl_hits L)) < rl_max_keys L"
  shows "tracks t acc (maybe_gc t L)"
proof -
  have s: "\<forall>(k, q) \<in> set (rl_hits L). sorted q" and d: "distinct (map fst (rl_hits L))"
    and a: "\<forall>(k, t) \<in> set acc. t \<le> now"
    using tr by (simp_all add: tracks_def)
  have "drop_old (f_sub later (rl_window L)) (queue_of key (maybe_gc t L))
      = in_window (rl_window L) key later acc" if "t \<le> later" for key later
  proof -
    have "drop_old (f_sub later (rl_window L)) (queue_of key L) = in_window (rl_window L) key later acc"
      using tr le that by (simp add: tracks_def)
    moreover have "drop_old (f_sub later (rl_window L)) (queue_of key L) = []"
      if "idle_queue (f_sub t (rl_window L)) (queue_of key L)"
      using drop_old_idle [OF sorted_queue_of [OF s] that f_sub_mono [OF \<open>t \<le> later\<close>]] .
    ultimately show ?thesis
      using maybe_gc_queue [OF d few, of key t] by auto
  qed
  then show ?thesis
    using maybe_gc_sorted [OF s] maybe_gc_distinct [OF d] a le by (fastforce simp: tracks_def)
qed

text \<open>One request: the decision of the reference, and queues that keep tracking.\<close>

lemma tracks_push:
  assumes tr: "tracks t acc L" and q: "q = drop_old (f_sub t (rl_window L)) (queue_of key L)"
  shows "tracks t acc (L\<lparr>rl_hits := dict_set key q (rl_hits L)\<rparr>)" (is ?old)
    and "tracks t (acc @ [(key, t)]) (L\<lparr>rl_hits := dict_set key (q @ [t]) (rl_hits L)\<rparr>)" (is ?new)
proof -
  let ?w = "rl_window L"
  have s: "\<forall>(k, q) \<in> set (rl_hits L). sorted q" and d: "distinct (map fst (rl_hits L))"
    and a: "\<forall>(k, u) \<in> set acc. u \<le> t"
    using tr by (simp_all add: tracks_def)
  note sq = sorted_queue_of [OF s, of key]
  have same: "queue_of j (L\<lparr>rl_hits := dict_set key r (rl_hits L)\<rparr>) = (if j = key then r else queue_of j L)"
    for j r by (simp add: queue_of_def)
  have win: "drop_old (f_sub later ?w) (queue_of j L) = in_window ?w j later acc"
    if "t \<le> later" for j later
    using tr that by (simp add: tracks_def)
  have dq: "drop_old (f_sub later ?w) q = drop_old (f_sub later ?w) (queue_of key L)" if "t \<le> later" for later
    using that by (simp add: q drop_old_drop_old f_sub_mono)
  have sorted_q: "sorted q" using sq by (simp add: q sorted_drop_old)
  have qt: "\<forall>x \<in> set q. x \<le> t"
  proof
    fix x assume "x \<in> set q"
    also have "q = in_window ?w key t acc" using win [of t key] by (simp add: q)
    finally show "x \<le> t" using a by (auto simp: in_window_def)
  qed
  then have sorted_qt: "sorted (q @ [t])" using sorted_q by (simp add: sorted_append)
  show ?old
    using tr sorted_q win dq distinct_dict_set [OF d]
    by (auto simp: tracks_def same dest!: set_dict_set)
  have "drop_old (f_sub later ?w) (q @ [t]) = in_window ?w key later (acc @ [(key, t)])"
    if "t \<le> later" for later
    using drop_old_sorted [OF sorted_qt, of "f_sub later ?w"] drop_old_sorted [OF sorted_q, of "f_sub later ?w"]
      win [OF that, of key] dq [OF that] by (simp add: in_window_def)
  moreover have "in_window ?w j later (acc @ [(key, t)]) = in_window ?w j later acc" if "j \<noteq> key" for j later
    using that by (simp add: in_window_def)
  ultimately show ?new
    using tr sorted_qt win distinct_dict_set [OF d]
    by (auto simp: tracks_def same dest!: set_dict_set)
qed

definition few_keys :: "string set \<Rightarrow> limiter \<Rightarrow> bool" where
  "few_keys K L \<longleftrightarrow> finite K \<and> fst ` set (rl_hits L) \<subseteq> K \<and> int (card K) < rl_max_keys L"

lemma few_keys_length:
  assumes "few_keys K L" and "distinct (map fst (rl_hits L))"
  shows "int (length (rl_hits L)) < rl_max_keys L"
proof -
  have "length (rl_hits L) = card (fst ` set (rl_hits L))"
    using distinct_card [OF assms(2)] by simp
  also have "\<dots> \<le> card K" using assms(1) by (intro card_mono) (auto simp: few_keys_def)
  finally show ?thesis using assms(1) by (simp add: few_keys_def)
qed

lemma allow_step:
  assumes tr: "tracks now acc L" and le: "now \<le> t" and K: "few_keys K L" "key \<in> K"
    and pos: "0 < rl_limit L" and al: "allow key t L = (ok, L')"
  shows "ok = window_allows (rl_limit L) (rl_window L) (key, t) acc"
    and "tracks t (if ok then acc @ [(key, t)] else acc) L'"
    and "few_keys K L'" and "rl_limit L' = rl_limit L" and "rl_window L' = rl_window L"
proof -
  let ?G = "maybe_gc t L"
  have "distinct (map fst (rl_hits L))" using tr by (simp add: tracks_def)
  then have trG: "tracks t acc ?G" using tracks_maybe_gc [OF tr le few_keys_length [OF K(1)]] by simp
  define q where "q = drop_old (f_sub t (rl_window L)) (queue_of key ?G)"
  have qw: "q = in_window (rl_window L) key t acc" using trG by (simp add: tracks_def q_def)
  have ok: "ok = (\<not> rl_limit L \<le> int (length q))"
    and L': "L' = ?G\<lparr>rl_hits := dict_set key (if ok then q @ [t] else q) (rl_hits ?G)\<rparr>"
    using al pos by (auto simp: allow_def Let_def q_def)
  show "ok = window_allows (rl_limit L) (rl_window L) (key, t) acc"
    using ok by (simp add: window_allows_def qw not_le)
  show "tracks t (if ok then acc @ [(key, t)] else acc) L'"
    using tracks_push [OF trG, of q key] by (auto simp: L' q_def)
  show "rl_limit L' = rl_limit L" and "rl_window L' = rl_window L" by (simp_all add: L')
  have "fst ` set (dict_set key r (rl_hits ?G)) \<subseteq> insert key (fst ` set (rl_hits ?G))" for r
    using set_dict_set by fastforce
  then have "fst ` set (rl_hits L') \<subseteq> insert key (fst ` set (rl_hits ?G))" by (simp add: L')
  also have "\<dots> \<subseteq> K" using K maybe_gc_keys [of t L] by (simp add: few_keys_def) (meson subset_trans)
  finally show "few_keys K L'" using K(1) by (simp add: few_keys_def L')
qed

lemma limiter_run_window:
  assumes "tracks now acc L" and "sorted (now # map snd qs)" and "few_keys K L"
    and "fst ` set qs \<subseteq> K" and "0 < rl_limit L"
  shows "limiter_run qs L = window_run (rl_limit L) (rl_window L) qs acc"
  using assms
proof (induction qs arbitrary: now acc L)
  case (Cons q qs)
  obtain ok L' where al: "allow (fst q) (snd q) L = (ok, L')" by fastforce
  have le: "now \<le> snd q" and inK: "fst q \<in> K" using Cons.prems by simp_all
  note step = allow_step [OF Cons.prems(1) le Cons.prems(3) inK Cons.prems(5) al]
  have "limiter_run qs L' = window_run (rl_limit L) (rl_window L) qs (if ok then acc @ [q] else acc)"
    using Cons.IH [OF step(2) _ step(3)] Cons.prems step(4,5) by simp
  then show ?case using step(1) by (simp add: al)
qed simp


lemma sample_window:
  "window_run 2 60 [(''7'', 1), (''7'', 20), (''8'', 30), (''7'', 60), (''7'', 61)] []
     = [True, True, True, False, True]"
  by code_simp

lemma sample_keys: "int (card (fst ` set [(''7'', 1), (''7'', 20), (''8'', 30), (''7'', 60), (''7'', 61::rat)])) < 50000"
  by (simp add: card_insert_if)


end
