(* ===== verification/InitData.thy ===== *)
theory InitData
  imports Razorpay
begin

text \<open>
  Who is calling: \<open>validate_telegram_init_data\<close> and \<open>extract_telegram_user_id\<close> of
  \<open>app/security.py\<close>, with the parsing of query strings that they rely on (\<open>urllib.parse\<close>). Header text has
  one character per code point of Latin-1, as the HTTP server decodes it; the parsed fields are
  given by their UTF-8 bytes, so that a number is read from ASCII digits only. HMAC-SHA256, the JSON parser and the clock are arguments.
\<close>

section \<open>UTF-8\<close>

abbreviation code :: "char \<Rightarrow> nat" where "code c \<equiv> of_char c"

text \<open>The bytes that may follow a lead byte; \<open>None\<close> for a byte that begins no character.\<close>

definition continuations :: "nat \<Rightarrow> (nat \<times> nat) list option" where
  "continuations b =
     (if b < 128 then Some []
      else if 194 \<le> b \<and> b \<le> 223 then Some [(128, 191)]
      else if b = 224 then Some [(160, 191), (128, 191)]
      else if b = 237 then Some [(128, 159), (128, 191)]
      else if 225 \<le> b \<and> b \<le> 239 then Some [(128, 191), (128, 191)]
      else if b = 240 then Some [(144, 191), (128, 191), (128, 191)]
      else if 241 \<le> b \<and> b \<le> 243 then Some [(128, 191), (128, 191), (128, 191)]
      else if b = 244 then Some [(128, 143), (128, 191), (128, 191)]
      else None)"

fun take_continuation :: "(nat \<times> nat) list \<Rightarrow> string \<Rightarrow> string" where
  "take_continuation ((lo, hi) # rs) (c # s) =
     (if lo \<le> code c \<and> code c \<le> hi then c # take_continuation rs s else [])"
| "take_continuation _ _ = []"

definition replacement_char :: string where
  "replacement_char = [char_of (239::nat), char_of (191::nat), char_of (189::nat)]"

text \<open>
  \<open>bytes.decode("utf-8", "replace")\<close>, the result again as UTF-8: a maximal part of a character that
  is not completed becomes one replacement character.
\<close>

function utf8_replace :: "string \<Rightarrow> string" where
  "utf8_replace [] = []"
| "utf8_replace (c # s) =
     (case continuations (code c) of
        None \<Rightarrow> replacement_char @ utf8_replace s
      | Some rs \<Rightarrow>
          (let w = take_continuation rs s
           in (if length w = length rs then c # w else replacement_char)
                @ utf8_replace (drop (length w) s)))"
  by pat_completeness auto
termination by (relation "measure length") auto

text \<open>A Latin-1 character as UTF-8.\<close>

definition latin1_utf8 :: "string \<Rightarrow> string" where
  "latin1_utf8 s = concat (map (\<lambda>c. if code c < 128 then [c]
     else [char_of (192 + code c div 64), char_of (128 + code c mod 64)]) s)"

section \<open>Query strings\<close>

definition hex_value :: "char \<Rightarrow> nat option" where
  "hex_value c =
     (let n = code c in
      if 48 \<le> n \<and> n \<le> 57 then Some (n - 48)
      else if 65 \<le> n \<and> n \<le> 70 then Some (n - 55)
      else if 97 \<le> n \<and> n \<le> 102 then Some (n - 87)
      else None)"

text \<open>\<open>unquote_to_bytes\<close>: a percent sign that two hex digits follow is one byte.\<close>

definition hex_pair :: "string \<Rightarrow> (char \<times> string) option" where
  "hex_pair s =
     (case s of a # b # r \<Rightarrow>
        (case (hex_value a, hex_value b) of
           (Some x, Some y) \<Rightarrow> Some (char_of (16 * x + y), r) | _ \<Rightarrow> None)
      | _ \<Rightarrow> None)"

lemma hex_pair_shorter: "hex_pair s = Some (c, r) \<Longrightarrow> length r < length s"
  by (auto simp: hex_pair_def split: list.split_asm option.split_asm)

function unquote_to_bytes :: "string \<Rightarrow> string" where
  "unquote_to_bytes [] = []"
| "unquote_to_bytes (c # s) =
     (if c = CHR ''%'' then
        (case hex_pair s of Some (b, r) \<Rightarrow> b # unquote_to_bytes r | None \<Rightarrow> c # unquote_to_bytes s)
      else c # unquote_to_bytes s)"
  by pat_completeness auto
termination by (relation "measure length") (auto dest: hex_pair_shorter)

text \<open>\<open>unquote\<close>: the runs of ASCII characters are decoded, the others are kept.\<close>

definition ascii_char :: "char \<Rightarrow> bool" where "ascii_char c \<longleftrightarrow> code c < 128"

function unquote_runs :: "string \<Rightarrow> string" where
  "unquote_runs s =
     (if s = [] then []
      else
        let r = dropWhile ascii_char s
        in utf8_replace (unquote_to_bytes (takeWhile ascii_char s))
           @ latin1_utf8 (takeWhile (\<lambda>c. \<not> ascii_char c) r)
           @ unquote_runs (dropWhile (\<lambda>c. \<not> ascii_char c) r))"
  by pat_completeness auto
termination
proof (relation "measure length", goal_cases)
  case (2 s r)
  have "length (dropWhile (\<lambda>c. \<not> ascii_char c) (dropWhile ascii_char s)) < length s"
  proof (cases s)
    case Nil
    with 2 show ?thesis by simp
  next
    case (Cons c t)
    then show ?thesis
      using length_dropWhile_le [of ascii_char t] length_dropWhile_le [of "\<lambda>c. \<not> ascii_char c" t]
        length_dropWhile_le [of "\<lambda>c. \<not> ascii_char c" "dropWhile ascii_char t"]
      by (auto simp: less_Suc_eq_le)
  qed
  with 2 show ?case by simp
qed simp

declare unquote_runs.simps [simp del]

definition unquote :: "string \<Rightarrow> string" where
  "unquote s = (if CHR ''%'' \<notin> set s then latin1_utf8 s else unquote_runs s)"

definition plus_to_space :: "string \<Rightarrow> string" where
  "plus_to_space = map (\<lambda>c. if c = CHR ''+'' then CHR '' '' else c)"

text \<open>\<open>parse_qsl(qs, keep_blank_values=True, strict_parsing=False)\<close>.\<close>

definition parse_pair :: "string \<Rightarrow> (string \<times> string) option" where
  "parse_pair nv =
     (if nv = [] then None
      else Some (unquote (plus_to_space (takeWhile (\<lambda>c. c \<noteq> CHR ''='') nv)),
                 unquote (plus_to_space (drop 1 (dropWhile (\<lambda>c. c \<noteq> CHR ''='') nv)))))"

definition parse_qsl :: "string \<Rightarrow> (string \<times> string) list" where
  "parse_qsl qs = List.map_filter parse_pair (split_on (CHR ''&'') qs)"

definition dict_of_pairs :: "(string \<times> 'v) list \<Rightarrow> (string \<times> 'v) list" where
  "dict_of_pairs kvs = fold (\<lambda>(k, v). dict_set k v) kvs []"

section \<open>The validation\<close>

definition INIT_DATA_MAX_AGE_SECONDS :: int where "INIT_DATA_MAX_AGE_SECONDS = 24 * 60 * 60"

record tg_env =
  tg_hmac :: "string \<Rightarrow> string \<Rightarrow> string"
  tg_loads :: "string \<Rightarrow> json option"
  tg_now :: rat

definition hex_digit :: "nat \<Rightarrow> char" where
  "hex_digit n = (if n < 10 then char_of (48 + n) else char_of (87 + n))"

text \<open>\<open>hexdigest()\<close>.\<close>

definition hex_text :: "string \<Rightarrow> string" where
  "hex_text bs = concat (map (\<lambda>b. [hex_digit (code b div 16), hex_digit (code b mod 16)]) bs)"

definition data_check_string :: "(string \<times> string) list \<Rightarrow> string" where
  "data_check_string items = join newline (map (\<lambda>(k, v). k @ ''='' @ v) (sort_key fst items))"

definition init_data_hash :: "tg_env \<Rightarrow> string \<Rightarrow> (string \<times> string) list \<Rightarrow> string" where
  "init_data_hash env token items =
     hex_text (tg_hmac env (tg_hmac env ''WebAppData'' token) (data_check_string items))"

text \<open>\<open>time.time() - auth_date\<close>; an integer beyond the doubles raises.\<close>

definition age_of :: "rat \<Rightarrow> int \<Rightarrow> rat res" where
  "age_of now auth_date =
     (if 2 ^ 1024 \<le> \<bar>f_of_int auth_date\<bar> then Inl (OtherError ''OverflowError'')
      else Inr (fl64 (now - f_of_int auth_date)))"

definition check_age :: "tg_env \<Rightarrow> int \<Rightarrow> (string \<times> string) list \<Rightarrow> unit res" where
  "check_age env max_age items =
     (case map_of items ''auth_date'' of
        None \<Rightarrow> Inl (ValueError ''initData auth_date missing'')
      | Some [] \<Rightarrow> Inl (ValueError ''initData auth_date missing'')
      | Some raw \<Rightarrow>
          (case parse_int raw of
             None \<Rightarrow> Inl (ValueError ''initData auth_date invalid'')
           | Some auth_date \<Rightarrow>
               e_bind (age_of (tg_now env) auth_date) (\<lambda>age.
                 if of_int max_age < age \<or> age < - 300 then Inl (ValueError ''initData expired'')
                 else Inr ())))"

text \<open>The parsed fields, the user object in place of its text.\<close>

definition with_user :: "tg_env \<Rightarrow> (string \<times> string) list \<Rightarrow> (string \<times> json) list res" where
  "with_user env items =
     (let parsed = map (\<lambda>(k, v). (k, Jtext v)) items in
      case map_of items ''user'' of
        None \<Rightarrow> Inr parsed
      | Some [] \<Rightarrow> Inr parsed
      | Some raw \<Rightarrow>
          (case tg_loads env raw of
             None \<Rightarrow> Inl (ValueError ''initData user payload invalid'')
           | Some (Jobj kvs) \<Rightarrow>
               if obj_get ''id'' kvs = None then Inl (ValueError ''initData user id missing'')
               else Inr (dict_set ''user'' (Jobj kvs) parsed)
           | Some _ \<Rightarrow> Inl (ValueError ''initData user id missing'')))"

definition validate_telegram_init_data ::
  "tg_env \<Rightarrow> string \<Rightarrow> string \<Rightarrow> int \<Rightarrow> (string \<times> json) list res" where
  "validate_telegram_init_data env init_data token max_age =
     (if init_data = [] then Inl (ValueError ''initData is required'')
      else
        let parsed = dict_of_pairs (parse_qsl init_data);
            items = filter (\<lambda>(k, v). k \<noteq> ''hash'') parsed
        in case map_of parsed ''hash'' of
             None \<Rightarrow> Inl (ValueError ''initData hash missing'')
           | Some [] \<Rightarrow> Inl (ValueError ''initData hash missing'')
           | Some received \<Rightarrow>
               e_bind (compare_digest (init_data_hash env token items) received) (\<lambda>ok.
               if \<not> ok then Inl (ValueError ''initData HMAC mismatch'')
               else e_bind (check_age env max_age items) (\<lambda>_. with_user env items)))"

definition extract_telegram_user_id :: "(string \<times> json) list \<Rightarrow> int res" where
  "extract_telegram_user_id items =
     (let missing = Inl (ValueError ''Telegram user id missing from initData'')
      in case or_else (dict_get ''user'' items) (Jobj []) of
           Jobj kvs \<Rightarrow>
             (case obj_get ''id'' kvs of
                None \<Rightarrow> missing
              | Some v \<Rightarrow> (case py_int_of v of
                    Inr i \<Rightarrow> Inr i
                  | Inl e \<Rightarrow> if type_or_value e then missing else Inl e))
         | _ \<Rightarrow> missing)"

section \<open>Percent encoding and its inverse\<close>

text \<open>
  What a client does to write fields into init data: every byte outside the unreserved characters is
  percent-encoded, the pairs are joined.
\<close>

definition unreserved :: "char \<Rightarrow> bool" where
  "unreserved c \<longleftrightarrow> letter c \<or> is_digit c \<or> c \<in> set ''-_.~''"

definition percent_encode :: "string \<Rightarrow> string" where
  "percent_encode s = concat (map (\<lambda>c. if unreserved c then [c]
     else [CHR ''%'', hex_digit (code c div 16), hex_digit (code c mod 16)]) s)"

definition query_pair :: "string \<times> string \<Rightarrow> string" where
  "query_pair = (\<lambda>(k, v). percent_encode k @ ''='' @ percent_encode v)"

definition query_string :: "(string \<times> string) list \<Rightarrow> string" where
  "query_string kvs = join ''&'' (map query_pair kvs)"

lemma unreserved_range: "unreserved c \<Longrightarrow> code c < 128 \<and> c \<notin> set ''%&=+''"
  by (auto simp: unreserved_def letter_def upper_letter_def is_digit_def)

lemma code_bound: "code c < 256"
  by (cases c) (simp add: of_char_def)

lemma hex_digit_value [simp]: "n < 16 \<Longrightarrow> hex_value (hex_digit n) = Some n"
  by (auto simp: hex_value_def hex_digit_def Let_def of_char_of)

lemma hex_digit_range: "n < 16 \<Longrightarrow> code (hex_digit n) < 128 \<and> hex_digit n \<notin> set ''%&=+''"
proof (cases "n < 10")
  case True
  then have "code (hex_digit n) = 48 + n" by (simp add: hex_digit_def of_char_of)
  with True show ?thesis by auto
next
  case False
  assume "n < 16"
  with False have "code (hex_digit n) = 87 + n" by (simp add: hex_digit_def of_char_of)
  with False \<open>n < 16\<close> show ?thesis by auto
qed

lemma hex_digit_neq [simp]:
  "n < 16 \<Longrightarrow> hex_digit n \<noteq> CHR ''&''" "n < 16 \<Longrightarrow> hex_digit n \<noteq> CHR ''=''"
  "n < 16 \<Longrightarrow> hex_digit n \<noteq> CHR ''+''" "n < 16 \<Longrightarrow> code (hex_digit n) < 128"
  using hex_digit_range [of n] by auto

lemma percent_encode_simps [simp]:
  "percent_encode [] = []"
  "percent_encode (c # s) = (if unreserved c then [c]
     else [CHR ''%'', hex_digit (code c div 16), hex_digit (code c mod 16)]) @ percent_encode s"
  by (simp_all add: percent_encode_def)

lemma code_div_16: "code c div 16 < 16"
  using code_bound [of c] by (simp add: less_mult_imp_div_less)

lemma percent_encode_chars: "c \<in> set (percent_encode s) \<Longrightarrow> code c < 128 \<and> c \<notin> set ''&=+''"
  by (induction s) (auto split: if_split_asm dest: unreserved_range simp: code_div_16)

lemma unquote_percent_encode: "unquote_to_bytes (percent_encode s) = s"
proof (induction s)
  case (Cons c s)
  show ?case
  proof (cases "unreserved c")
    case True
    with unreserved_range [OF True] Cons show ?thesis by auto
  next
    case False
    have "hex_pair (hex_digit (code c div 16) # hex_digit (code c mod 16) # percent_encode s)
        = Some (c, percent_encode s)"
      by (simp add: hex_pair_def code_div_16)
    with False Cons show ?thesis by simp
  qed
qed simp

text \<open>A text that is UTF-8 is its own decoding.\<close>

definition is_utf8 :: "string \<Rightarrow> bool" where "is_utf8 s \<longleftrightarrow> utf8_replace s = s"

lemma utf8_ascii: "list_all ascii_char s \<Longrightarrow> utf8_replace s = s"
  by (induction s) (auto simp: ascii_char_def continuations_def)

lemma latin1_ascii: "list_all ascii_char s \<Longrightarrow> latin1_utf8 s = s"
  by (induction s) (auto simp: latin1_utf8_def ascii_char_def)

lemma unquote_runs_ascii:
  assumes "list_all ascii_char s" and "s \<noteq> []"
  shows "unquote_runs s = utf8_replace (unquote_to_bytes s)"
proof -
  have "takeWhile ascii_char s = s" and "dropWhile ascii_char s = []"
    using assms(1) unfolding list_all_iff by (simp_all add: takeWhile_eq_all_conv dropWhile_eq_Nil_conv)
  moreover have "unquote_runs [] = []" by (simp add: unquote_runs.simps)
  ultimately show ?thesis using assms(2)
    by (subst unquote_runs.simps) (simp only: Let_def, simp add: latin1_utf8_def)
qed

lemma ascii_percent_encode: "list_all ascii_char (percent_encode s)"
  using percent_encode_chars by (auto simp: list_all_iff ascii_char_def)

lemma percent_encode_plain: "CHR ''%'' \<notin> set (percent_encode s) \<Longrightarrow> percent_encode s = s"
  by (induction s) (auto split: if_split_asm)

lemma unquote_encode: "is_utf8 s \<Longrightarrow> unquote (percent_encode s) = s"
proof -
  assume u: "is_utf8 s"
  show ?thesis
  proof (cases "CHR ''%'' \<in> set (percent_encode s)")
    case True
    then have "percent_encode s \<noteq> []" by auto
    with True u show ?thesis
      by (simp add: unquote_def unquote_runs_ascii ascii_percent_encode unquote_percent_encode is_utf8_def)
  next
    case False
    then have "unquote (percent_encode s) = latin1_utf8 (percent_encode s)" by (simp add: unquote_def)
    also have "\<dots> = percent_encode s" by (rule latin1_ascii [OF ascii_percent_encode])
    also have "\<dots> = s" by (rule percent_encode_plain [OF False])
    finally show ?thesis .
  qed
qed

lemma plus_percent_encode: "plus_to_space (percent_encode s) = percent_encode s"
  using percent_encode_chars [of "CHR ''+''" s]
  by (auto simp: plus_to_space_def intro!: map_idI)

lemma no_char_percent_encode: "c \<in> set ''&=+'' \<Longrightarrow> c \<notin> set (percent_encode s)"
  using percent_encode_chars by blast

lemma parse_query_pair:
  assumes "is_utf8 k" and "is_utf8 v"
  shows "parse_pair (query_pair (k, v)) = Some (k, v)"
proof -
  have eq: "CHR ''='' \<notin> set (percent_encode k)" by (rule no_char_percent_encode) simp
  have "takeWhile (\<lambda>c. c \<noteq> CHR ''='') (percent_encode k @ ''='' @ percent_encode v) = percent_encode k"
    using eq by (subst takeWhile_append2) auto
  moreover have "dropWhile (\<lambda>c. c \<noteq> CHR ''='') (percent_encode k @ ''='' @ percent_encode v)
      = ''='' @ percent_encode v"
    using eq by (subst dropWhile_append2) auto
  ultimately show ?thesis
    using assms by (simp add: parse_pair_def query_pair_def plus_percent_encode unquote_encode)
qed

lemma split_on_no: "c \<notin> set w \<Longrightarrow> split_on c w = [w]"
  by (induction w) auto

lemma split_on_append: "c \<notin> set w \<Longrightarrow> split_on c (w @ c # s) = w # split_on c s"
  by (induction w) auto

lemma split_on_join:
  "ws \<noteq> [] \<Longrightarrow> \<forall>w \<in> set ws. c \<notin> set w \<Longrightarrow> split_on c (join [c] ws) = ws"
  by (induction "[c]" ws rule: join.induct) (auto simp: split_on_no split_on_append)

lemma parse_query_string:
  assumes "\<forall>(k, v) \<in> set kvs. is_utf8 k \<and> is_utf8 v"
  shows "parse_qsl (query_string kvs) = kvs"
proof (cases "kvs = []")
  case True
  then show ?thesis by (simp add: parse_qsl_def query_string_def parse_pair_def map_filter_simps)
next
  case False
  have "\<forall>w \<in> set (map query_pair kvs). CHR ''&'' \<notin> set w"
    using no_char_percent_encode [of "CHR ''&''"] by (auto simp: query_pair_def)
  then have "split_on (CHR ''&'') (query_string kvs) = map query_pair kvs"
    using False split_on_join [of "map query_pair kvs" "CHR ''&''"] by (simp add: query_string_def)
  moreover have "List.map_filter parse_pair (map query_pair kvs) = kvs"
    using assms by (induction kvs) (auto simp: map_filter_simps parse_query_pair)
  ultimately show ?thesis by (simp add: parse_qsl_def)
qed

lemma dict_set_new: "k \<notin> fst ` set kvs \<Longrightarrow> dict_set k v kvs = kvs @ [(k, v)]"
  by (induction kvs) auto

lemma fold_dict_set:
  "distinct (map fst (acc @ kvs)) \<Longrightarrow> fold (\<lambda>(k, v). dict_set k v) kvs acc = acc @ kvs"
  by (induction kvs arbitrary: acc) (auto simp: dict_set_new)

lemma dict_of_distinct: "distinct (map fst kvs) \<Longrightarrow> dict_of_pairs kvs = kvs"
  using fold_dict_set [of "[]" kvs] by (simp add: dict_of_pairs_def)

section \<open>What the validation accepts\<close>

lemma hex_text_ascii: "list_all ascii_char (hex_text bs)"
  by (induction bs) (auto simp: hex_text_def ascii_char_def code_div_16)

lemma hex_text_is_ascii [simp]: "is_ascii (hex_text bs)"
  using hex_text_ascii [of bs] by (simp add: is_ascii_def list_all_iff ascii_char_def)

lemma hex_text_utf8: "is_utf8 (hex_text bs)"
  by (simp add: is_utf8_def utf8_ascii hex_text_ascii)

lemma compare_digest_same [simp]: "is_ascii a \<Longrightarrow> compare_digest a a = Inr True"
  by (simp add: compare_digest_def)

text \<open>Init data as Telegram signs it: the fields, then the hash.\<close>

definition signed_init_data :: "tg_env \<Rightarrow> string \<Rightarrow> (string \<times> string) list \<Rightarrow> string" where
  "signed_init_data env token items =
     query_string (items @ [(''hash'', init_data_hash env token items)])"

lemma parse_signed:
  assumes "distinct (map fst items)" and "''hash'' \<notin> set (map fst items)"
    and "\<forall>(k, v) \<in> set items. is_utf8 k \<and> is_utf8 v"
  shows "dict_of_pairs (parse_qsl (signed_init_data env token items))
    = items @ [(''hash'', init_data_hash env token items)]"
proof -
  have "is_utf8 ''hash''" by (simp add: is_utf8_def continuations_def)
  then have "parse_qsl (signed_init_data env token items)
      = items @ [(''hash'', init_data_hash env token items)]"
    unfolding signed_init_data_def
    using assms(3) by (intro parse_query_string) (auto simp: init_data_hash_def hex_text_utf8)
  then show ?thesis using assms(1,2) by (simp add: dict_of_distinct)
qed

lemma signed_not_empty: "signed_init_data env token items \<noteq> []"
  by (cases items; cases "tl items")
    (auto simp: signed_init_data_def query_string_def query_pair_def neq_Nil_conv)

lemma validate_signed:
  assumes "distinct (map fst items)" and "''hash'' \<notin> set (map fst items)"
    and "\<forall>(k, v) \<in> set items. is_utf8 k \<and> is_utf8 v"
    and "init_data_hash env token items \<noteq> []" and "check_age env max_age items = Inr ()"
  shows "validate_telegram_init_data env (signed_init_data env token items) token max_age
    = with_user env items"
proof -
  let ?h = "init_data_hash env token items"
  have none: "map_of items ''hash'' = None" using assms(2) by (simp add: map_of_eq_None_iff)
  have "filter (\<lambda>(k, v). k \<noteq> ''hash'') items = items"
    using assms(2) by (force simp: filter_id_conv)
  moreover have "compare_digest ?h ?h = Inr True" by (simp add: init_data_hash_def)
  moreover obtain c h where "?h = c # h" using assms(4) by (cases ?h) auto
  ultimately show ?thesis
    using assms(5) none
    by (simp add: validate_telegram_init_data_def parse_signed [OF assms(1-3)] signed_not_empty map_add_def)
qed

text \<open>
  C23: Init data that a client writes with percent-encoding and signs with the bot token comes back
  from the validation with exactly the fields that were written: no escaping, ordering or
  character of a field is lost or changed.
\<close>

theorem signed_init_data_roundtrip:
  assumes "distinct (map fst items)" and "''hash'' \<notin> set (map fst items)"
    and "\<forall>(k, v) \<in> set items. is_utf8 k \<and> is_utf8 v"
    and "init_data_hash env token items \<noteq> []" and "check_age env max_age items = Inr ()"
  shows "validate_telegram_init_data env (signed_init_data env token items) token max_age
    = with_user env items"
  using validate_signed [OF assms] .

definition sample_tg :: tg_env where
  "sample_tg = \<lparr>tg_hmac = (\<lambda>k m. ''~!''),
     tg_loads = (\<lambda>t. if t = ''u7'' then Some (Jobj [(''id'', Jint 7)]) else None), tg_now = 1000\<rparr>"

definition sample_items :: "(string \<times> string) list" where
  "sample_items = [(''auth_date'', ''900''), (''user'', ''u7''), (''q'', ''a&b=%'')]"

lemma sample_items_ok:
  "distinct (map fst sample_items)" "''hash'' \<notin> set (map fst sample_items)"
  "\<forall>(k, v) \<in> set sample_items. is_utf8 k \<and> is_utf8 v"
  by (simp_all add: sample_items_def is_utf8_def continuations_def)

lemma sample_age: "check_age sample_tg 86400 sample_items = Inr ()"
  by code_simp

lemma sample_hash: "init_data_hash sample_tg ''t'' sample_items \<noteq> []"
  by code_simp

lemma sample_user: "with_user sample_tg sample_items
    = Inr [(''auth_date'', Jtext ''900''), (''user'', Jobj [(''id'', Jint 7)]), (''q'', Jtext ''a&b=%'')]"
  by code_simp

lemma signed_init_data_roundtrip_witness:
  "validate_telegram_init_data sample_tg (signed_init_data sample_tg ''t'' sample_items) ''t'' 86400
     = Inr [(''auth_date'', Jtext ''900''), (''user'', Jobj [(''id'', Jint 7)]), (''q'', Jtext ''a&b=%'')]"
  using signed_init_data_roundtrip [OF sample_items_ok sample_hash sample_age] sample_user by simp

text \<open>What an accepted text is: signed under the bot token, and fresh.\<close>

lemma accepted_is_signed:
  assumes "validate_telegram_init_data env d token max_age = Inr r"
  obtains items where
    "map_of (dict_of_pairs (parse_qsl d)) ''hash'' = Some (init_data_hash env token items)"
    "items = filter (\<lambda>(k, v). k \<noteq> ''hash'') (dict_of_pairs (parse_qsl d))"
    "check_age env max_age items = Inr ()" "with_user env items = Inr r"
proof -
  let ?p = "dict_of_pairs (parse_qsl d)"
  let ?f = "filter (\<lambda>(k, v). k \<noteq> ''hash'') ?p"
  have "map_of ?p ''hash'' = Some (init_data_hash env token ?f) \<and> check_age env max_age ?f = Inr ()
      \<and> with_user env ?f = Inr r"
    using assms
    by (auto simp: validate_telegram_init_data_def compare_digest_def Let_def
        split: if_split_asm option.split_asm list.split_asm)
  with that show thesis by blast
qed

end
