(* ===== verification/MiniApp.thy ===== *)
theory MiniApp
  imports Shop Storefront RateLimit InitData
begin

text \<open>
  The JSON API of the Mini App: the request budgets of \<open>app/api/limits.py\<close>, the authentication of
  \<open>app/api/telegram_auth.py\<close> and the routes of \<open>app/api/routes.py\<close>. A request is one transaction:
  it commits when the route returns and is rolled back when anything raises; the budgets live in
  the process and are kept either way. (After a body that fails validation the framework may commit the
  registration of the caller, which is rolled back here.) Answers of providers and of the payment gateway are part of
  the request. The theorems show who a request acts for, what it may reach, and that the API does
  nothing to the shop's books that the shop's own operations do not do.
\<close>

section \<open>Budgets\<close>

record limits =
  lim_user :: limiter
  lim_ip :: limiter
  lim_order :: limiter

definition new_limits :: "settings \<Rightarrow> rat \<Rightarrow> limits" where
  "new_limits st now =
     \<lparr>lim_user = new_limiter (rate_limit_per_minute st) 60 50000 now,
      lim_ip = new_limiter (ip_rate_limit_per_minute st) 60 50000 now,
      lim_order = new_limiter (order_rate_limit_per_minute st) 60 50000 now\<rparr>"

record http_request =
  rq_forwarded_for :: string
  rq_client_host :: "string option"
  rq_init_data :: "string option"
  rq_authorization :: "string option"

definition client_ip :: "settings \<Rightarrow> http_request \<Rightarrow> string" where
  "client_ip st rq =
     (if trust_proxy st \<and> rq_forwarded_for rq \<noteq> []
      then take 64 (strip (hd (split_on (CHR '','') (rq_forwarded_for rq))))
      else take 64 (case rq_client_host rq of None \<Rightarrow> ''unknown'' | Some h \<Rightarrow> h))"

definition too_many :: exn where
  "too_many = HTTPException 429 ''Too many requests. Please slow down.''"

definition spend :: "string \<Rightarrow> rat \<Rightarrow> limiter \<Rightarrow> unit res \<times> limiter" where
  "spend key now L = (let (ok, L) = allow key now L in (if ok then Inr () else Inl too_many, L))"

definition check_ip :: "settings \<Rightarrow> rat \<Rightarrow> http_request \<Rightarrow> limits \<Rightarrow> unit res \<times> limits" where
  "check_ip st now rq L =
     (let (r, l) = spend (client_ip st rq) now (lim_ip L) in (r, L\<lparr>lim_ip := l\<rparr>))"

definition check_user :: "rat \<Rightarrow> int \<Rightarrow> limits \<Rightarrow> unit res \<times> limits" where
  "check_user now uid L = (let (r, l) = spend (str_int uid) now (lim_user L) in (r, L\<lparr>lim_user := l\<rparr>))"

definition check_order :: "rat \<Rightarrow> int \<Rightarrow> limits \<Rightarrow> unit res \<times> limits" where
  "check_order now uid L = (let (r, l) = spend (str_int uid) now (lim_order L) in (r, L\<lparr>lim_order := l\<rparr>))"

section \<open>Authentication\<close>

text \<open>What a request takes from outside the database.\<close>

record api_env =
  ae_settings :: settings
  ae_tg :: tg_env
  ae_orders :: order_env
  ae_code :: "string \<Rightarrow> nat list"
  ae_text :: "json \<Rightarrow> string"
  ae_clock :: rat

definition init_data_header :: "http_request \<Rightarrow> string option" where
  "init_data_header rq =
     (case rq_init_data rq of
        Some (c # d) \<Rightarrow> Some (c # d)
      | _ \<Rightarrow> (case rq_authorization rq of
            Some a \<Rightarrow> if starts_with ''tma '' (lower a) then some_text (drop 4 a) else None
          | None \<Rightarrow> None))"

definition login :: "api_env \<Rightarrow> http_request \<Rightarrow> (int \<times> (string \<times> json) list) res" where
  "login env rq =
     (case init_data_header rq of
        None \<Rightarrow> Inl (HTTPException 401 ''Missing Telegram initData'')
      | Some d \<Rightarrow>
          (case e_bind (validate_telegram_init_data (ae_tg env) d (bot_token (ae_settings env))
                          INIT_DATA_MAX_AGE_SECONDS) (\<lambda>items.
                e_bind (extract_telegram_user_id items) (\<lambda>uid. Inr (uid, items))) of
             Inl (ValueError m) \<Rightarrow> Inl (HTTPException 401 ''Invalid Telegram initData'')
           | r \<Rightarrow> r))"

text \<open>\<open>tg_user.get(k)\<close>: a text, or nothing.\<close>

definition profile_text :: "string \<Rightarrow> (string \<times> json) list \<Rightarrow> string option" where
  "profile_text k kvs = (case dict_get k kvs of Jtext t \<Rightarrow> Some t | _ \<Rightarrow> None)"

definition telegram_profile :: "int \<Rightarrow> (string \<times> json) list \<Rightarrow> telegram_user" where
  "telegram_profile uid items =
     (let kvs = obj_of (dict_get ''user'' items)
      in \<lparr>tu_id = uid, tu_username = profile_text ''username'' kvs,
          tu_first_name = profile_text ''first_name'' kvs, tu_last_name = profile_text ''last_name'' kvs,
          tu_language = profile_text ''language_code'' kvs\<rparr>)"

definition signed_in :: "api_env \<Rightarrow> http_request \<Rightarrow> db \<Rightarrow> (int \<times> db) res" where
  "signed_in env rq s =
     e_bind (login env rq) (\<lambda>(uid, items).
     e_bind (ensure_user (ae_code env) (ae_settings env) (telegram_profile uid items) s) (\<lambda>(uid, s).
     e_bind (lock_user uid s) (\<lambda>u.
       if u_is_banned u then Inl (HTTPException 403 ''Account suspended'') else Inr (uid, s))))"

definition current_user :: "api_env \<Rightarrow> http_request \<Rightarrow> db \<Rightarrow> limits \<Rightarrow> (int \<times> db) res \<times> limits" where
  "current_user env rq s L =
     (case check_ip (ae_settings env) (ae_clock env) rq L of
        (Inl e, L) \<Rightarrow> (Inl e, L)
      | (Inr _, L) \<Rightarrow>
          (case signed_in env rq s of
             Inl e \<Rightarrow> (Inl e, L)
           | Inr (uid, s) \<Rightarrow>
               (case check_user (ae_clock env) uid L of
                  (Inl e, L) \<Rightarrow> (Inl e, L)
                | (Inr _, L) \<Rightarrow> (Inr (uid, s), L))))"

section \<open>Request bodies\<close>

record quote_in =
  qi_service_id :: string
  qi_quantity :: int
  qi_coupon_code :: "string option"

record order_in =
  oi_service_id :: string
  oi_link :: string
  oi_quantity :: int
  oi_comments :: "string option"
  oi_mentions :: "string option"
  oi_coupon_code :: "string option"
  oi_idempotency_key :: "string option"

record deposit_in =
  di_amount_paise :: int
  di_idempotency_key :: "string option"

definition at_most :: "nat \<Rightarrow> string option \<Rightarrow> bool" where
  "at_most n t = (case t of None \<Rightarrow> True | Some x \<Rightarrow> length x \<le> n)"

definition valid_quote_in :: "quote_in \<Rightarrow> bool" where
  "valid_quote_in b \<longleftrightarrow>
     qi_service_id b \<noteq> [] \<and> length (qi_service_id b) \<le> 64 \<and>
     0 < qi_quantity b \<and> qi_quantity b \<le> 1000000000 \<and> at_most 32 (qi_coupon_code b)"

definition valid_order_in :: "order_in \<Rightarrow> bool" where
  "valid_order_in b \<longleftrightarrow>
     oi_service_id b \<noteq> [] \<and> length (oi_service_id b) \<le> 64 \<and>
     oi_link b \<noteq> [] \<and> length (oi_link b) \<le> 512 \<and>
     0 < oi_quantity b \<and> oi_quantity b \<le> 1000000000 \<and>
     at_most 20000 (oi_comments b) \<and> at_most 20000 (oi_mentions b) \<and>
     at_most 32 (oi_coupon_code b) \<and> at_most 128 (oi_idempotency_key b)"

definition valid_deposit_in :: "deposit_in \<Rightarrow> bool" where
  "valid_deposit_in b \<longleftrightarrow>
     99 < di_amount_paise b \<and> di_amount_paise b \<le> 100000000 \<and> at_most 128 (di_idempotency_key b)"

section \<open>Replies\<close>

record me_out =
  mo_telegram_id :: int
  mo_username :: "string option"
  mo_first_name :: "string option"
  mo_last_name :: "string option"
  mo_language_code :: string
  mo_role :: string
  mo_terms_accepted :: bool
  mo_referral_code :: "string option"
  mo_wallet :: wallet_snapshot

definition me :: "user_row \<Rightarrow> me_out" where
  "me u =
     \<lparr>mo_telegram_id = telegram_id u, mo_username = u_username u, mo_first_name = u_first_name u,
      mo_last_name = u_last_name u, mo_language_code = u_language_code u, mo_role = u_role u,
      mo_terms_accepted = (u_terms_accepted_at u \<noteq> None), mo_referral_code = u_referral_code u,
      mo_wallet = snapshot_of u\<rparr>"

record config_out =
  cf_brand :: string
  cf_currency :: string
  cf_min_deposit_paise :: int
  cf_max_deposit_paise :: int
  cf_payment_method :: string
  cf_demo_payments :: bool
  cf_terms_url :: string
  cf_privacy_url :: string
  cf_flags :: "(string \<times> bool) list"

definition app_config :: "settings \<Rightarrow> db \<Rightarrow> config_out" where
  "app_config st s =
     \<lparr>cf_brand = get_setting s ''brand_name'' ''FALARON'', cf_currency = currency_code st,
      cf_min_deposit_paise = min_deposit_paise st, cf_max_deposit_paise = max_deposit_paise st,
      cf_payment_method = payment_gateway st, cf_demo_payments = mock_payments_allowed st,
      cf_terms_url = get_setting s ''terms_url'' [], cf_privacy_url = get_setting s ''privacy_url'' [],
      cf_flags = kill_switches s\<rparr>"

record ledger_out =
  lo_type :: entry_type
  lo_amount_paise :: int
  lo_reason :: string
  lo_balance_after_paise :: int

definition ledger_out_of :: "ledger_entry \<Rightarrow> ledger_out" where
  "ledger_out_of e =
     \<lparr>lo_type = e_entry_type e, lo_amount_paise = e_amount_paise e, lo_reason = e_reason e,
      lo_balance_after_paise = e_balance_after_paise e\<rparr>"

record payment_out =
  po_public :: string
  po_state :: payment_status
  po_amount :: int
  po_method :: string
  po_checkout_url :: "string option"

definition payment_out_of :: "payment_row \<Rightarrow> payment_out" where
  "payment_out_of p =
     \<lparr>po_public = pay_public_id p, po_state = pay_status p, po_amount = pay_amount_paise p,
      po_method = pay_method p,
      po_checkout_url = (if pay_status p = PENDING then pay_checkout_url p else None)\<rparr>"

datatype reply =
    Re_me me_out
  | Re_config config_out
  | Re_catalog "category_out list" "star_out list"
  | Re_services "service_out list" bool
  | Re_service service_out
  | Re_quote quote_out
  | Re_order order_out
  | Re_orders "order_out list"
  | Re_wallet wallet_snapshot "ledger_out list"
  | Re_payment payment_out "string option" "wallet_snapshot option"

section \<open>Routes\<close>

text \<open>The errors of the order engine as HTTP errors: of placing, and of refill and cancel.\<close>

fun place_error :: "exn \<Rightarrow> exn" where
  "place_error (InsufficientFunds m) = HTTPException 402 m"
| "place_error (OrderError m) = HTTPException 400 m"
| "place_error (PermissionError m) = HTTPException 400 m"
| "place_error (ValueError m) = HTTPException 400 m"
| "place_error e = e"

fun act_error :: "exn \<Rightarrow> exn" where
  "act_error (OrderError m) = HTTPException 400 m"
| "act_error (PermissionError m) = HTTPException 400 m"
| "act_error e = e"

definition catching :: "(exn \<Rightarrow> exn) \<Rightarrow> 'a res \<Rightarrow> 'a res" where
  "catching f m = (case m of Inl e \<Rightarrow> Inl (f e) | Inr x \<Rightarrow> Inr x)"

lemma catching_Inr [simp]: "catching f m = Inr x \<longleftrightarrow> m = Inr x"
  by (auto simp: catching_def split: sum.split)

definition reading :: "'a res \<Rightarrow> db \<Rightarrow> ('a \<times> db) res" where
  "reading m s = e_bind m (\<lambda>x. Inr (x, s))"

definition order_reply :: "(int \<times> db) res \<Rightarrow> (reply \<times> db) res" where
  "order_reply m =
     e_bind m (\<lambda>(oid, s). with_order oid s (\<lambda>r. Inr (Re_order (order_out_of r), s)))"

definition own_order :: "string \<Rightarrow> int \<Rightarrow> db \<Rightarrow> (order_row \<Rightarrow> 'a res) \<Rightarrow> 'a res" where
  "own_order pid uid s f =
     (case get_order_for_user pid (Some uid) s of
        None \<Rightarrow> Inl (HTTPException 404 ''Order not found'') | Some r \<Rightarrow> f r)"

definition text_extra :: "string \<Rightarrow> string option \<Rightarrow> json_object" where
  "text_extra k t = (case t of Some (c # cs) \<Rightarrow> [(k, JStr (c # cs))] | _ \<Rightarrow> [])"

definition place_of :: "order_in \<Rightarrow> int \<Rightarrow> string \<Rightarrow> place_request" where
  "place_of b uid pid =
     \<lparr>pr_user = uid, pr_service = oi_service_id b, pr_link = oi_link b, pr_quantity = oi_quantity b,
      pr_extra = text_extra ''comments'' (oi_comments b) @ text_extra ''mentions'' (oi_mentions b),
      pr_coupon = oi_coupon_code b, pr_client_key = oi_idempotency_key b, pr_public_id = pid\<rparr>"

definition post_order ::
  "api_env \<Rightarrow> order_in \<Rightarrow> string \<Rightarrow> string res \<Rightarrow> int \<Rightarrow> db \<Rightarrow> (reply \<times> db) res" where
  "post_order env b pid answer uid s =
     order_reply (catching place_error (place_order (ae_orders env) (place_of b uid pid) answer s))"

definition post_quote :: "api_env \<Rightarrow> quote_in \<Rightarrow> int \<Rightarrow> db \<Rightarrow> reply res" where
  "post_quote env b uid s =
     (case quote_order s (env_now (ae_orders env)) (qi_service_id b) (qi_quantity b) (Some uid)
             (qi_coupon_code b) of
        Inl (ValueError m) \<Rightarrow> Inl (HTTPException 400 m)
      | Inl e \<Rightarrow> Inl e
      | Inr q \<Rightarrow> Inr (Re_quote (quote_out_of q)))"

definition get_wallet :: "int \<Rightarrow> db \<Rightarrow> reply res" where
  "get_wallet uid s =
     e_bind (lock_user uid s) (\<lambda>u.
       Inr (Re_wallet (snapshot_of u) (map ledger_out_of (list_entries uid 25 0 s))))"

definition post_deposit ::
  "api_env \<Rightarrow> deposit_in \<Rightarrow> string \<Rightarrow> ((string \<times> json) list \<Rightarrow> rz_answer) \<Rightarrow> int \<Rightarrow> db
    \<Rightarrow> (reply \<times> db) res" where
  "post_deposit env b pid post uid s =
     e_bind (deposit (ae_text env) (env_digest (ae_orders env)) (env_now (ae_orders env))
       (ae_settings env) post
       \<lparr>dr_user = uid, dr_amount = di_amount_paise b, dr_key = di_idempotency_key b, dr_public_id = pid\<rparr> s)
       (\<lambda>((p, instructions), s). Inr (Re_payment (payment_out_of p) instructions None, s))"

definition get_deposit ::
  "api_env \<Rightarrow> string \<Rightarrow> (string \<Rightarrow> gateway_status res) \<Rightarrow> int \<Rightarrow> db \<Rightarrow> (reply \<times> db) res" where
  "get_deposit env pid fetch uid s =
     e_bind (deposit_status (env_digest (ae_orders env)) (env_now (ae_orders env)) (ae_settings env)
       fetch pid uid s) (\<lambda>((p, w), s). Inr (Re_payment (payment_out_of p) None (Some w), s))"

definition post_mock_pay :: "api_env \<Rightarrow> string \<Rightarrow> int \<Rightarrow> db \<Rightarrow> (reply \<times> db) res" where
  "post_mock_pay env pid uid s =
     e_bind (mock_pay (env_digest (ae_orders env)) (env_now (ae_orders env)) (ae_settings env) pid uid s)
       (\<lambda>(out, s). e_bind (lock_user uid s) (\<lambda>u.
          case payment_by_public_id pid s of
            None \<Rightarrow> Inl (InvalidRequestError ''Could not refresh instance'')
          | Some p \<Rightarrow> Inr (Re_payment (payment_out_of p) None (Some (snapshot_of u)), s)))"

datatype api_call =
    Get_me
  | Get_config
  | Get_catalog
  | Get_category string int int
  | Get_service string
  | Post_quote quote_in
  | Post_order order_in string "string res"
  | Get_orders int int
  | Get_order string
  | Post_refresh string "provider_status res"
  | Post_refill string "unit res" "string res"
  | Post_cancel string "unit res" "unit res"
  | Get_wallet
  | Post_deposit deposit_in string "(string \<times> json) list \<Rightarrow> rz_answer"
  | Get_deposit string "string \<Rightarrow> gateway_status res"
  | Post_mock_pay string

fun body_ok :: "api_call \<Rightarrow> bool" where
  "body_ok (Post_quote b) = valid_quote_in b"
| "body_ok (Post_order b pid answer) = valid_order_in b"
| "body_ok (Post_deposit b pid post) = valid_deposit_in b"
| "body_ok _ = True"

text \<open>What a route does for the user \<open>uid\<close> once the budgets are paid.\<close>

fun route :: "api_env \<Rightarrow> api_call \<Rightarrow> int \<Rightarrow> db \<Rightarrow> (reply \<times> db) res" where
  "route env Get_me uid s = reading (e_bind (lock_user uid s) (\<lambda>u. Inr (Re_me (me u)))) s"
| "route env Get_config uid s = Inr (Re_config (app_config (ae_settings env) s), s)"
| "route env Get_catalog uid s = Inr (Re_catalog (catalog_categories s) (catalog_stars s), s)"
| "route env (Get_category cid limit offset) uid s =
     reading (e_bind (category_services s (env_now (ae_orders env)) uid cid limit offset)
       (\<lambda>(items, more). Inr (Re_services items more))) s"
| "route env (Get_service sid) uid s =
     reading (e_bind (service_detail s (env_now (ae_orders env)) uid sid) (\<lambda>v. Inr (Re_service v))) s"
| "route env (Post_quote b) uid s = reading (post_quote env b uid s) s"
| "route env (Post_order b pid answer) uid s = post_order env b pid answer uid s"
| "route env (Get_orders limit offset) uid s =
     Inr (Re_orders (map order_out_of (page (min limit 50) offset
       (rev (filter (\<lambda>r. o_user_id r = uid) (orders s))))), s)"
| "route env (Get_order pid) uid s = own_order pid uid s (\<lambda>r. Inr (Re_order (order_out_of r), s))"
| "route env (Post_refresh pid answer) uid s =
     own_order pid uid s (\<lambda>r. order_reply (sync_order_status (ae_orders env) (o_id r) answer s))"
| "route env (Post_refill pid adapter answer) uid s =
     own_order pid uid s (\<lambda>r. order_reply
       (catching act_error (request_refill (ae_orders env) (o_id r) uid adapter answer s)))"
| "route env (Post_cancel pid adapter answer) uid s =
     own_order pid uid s (\<lambda>r. order_reply
       (catching act_error (request_cancel (ae_orders env) (o_id r) uid adapter answer s)))"
| "route env Get_wallet uid s = reading (get_wallet uid s) s"
| "route env (Post_deposit b pid post) uid s = post_deposit env b pid post uid s"
| "route env (Get_deposit pid fetch) uid s = get_deposit env pid fetch uid s"
| "route env (Post_mock_pay pid) uid s = post_mock_pay env pid uid s"

fun is_order_call :: "api_call \<Rightarrow> bool" where
  "is_order_call (Post_order b pid answer) = True"
| "is_order_call _ = False"

definition handle :: "api_env \<Rightarrow> api_call \<Rightarrow> int \<Rightarrow> db \<Rightarrow> limits \<Rightarrow> (reply \<times> db) res \<times> limits" where
  "handle env call uid s L =
     (if \<not> body_ok call then (Inl (HTTPException 422 ''Unprocessable Entity''), L)
      else if is_order_call call then
        (case check_order (ae_clock env) uid L of
           (Inl e, L) \<Rightarrow> (Inl e, L)
         | (Inr _, L) \<Rightarrow> (route env call uid s, L))
      else (route env call uid s, L))"

text \<open>A request: the reply or the error, and what is left of the database and the budgets.\<close>

definition serve ::
  "api_env \<Rightarrow> http_request \<Rightarrow> api_call \<Rightarrow> db \<times> limits \<Rightarrow> reply res \<times> db \<times> limits" where
  "serve env rq call st =
     (case current_user env rq (fst st) (snd st) of
        (Inl e, L) \<Rightarrow> (Inl e, fst st, L)
      | (Inr (uid, s), L) \<Rightarrow>
          (case handle env call uid s L of
             (Inl e, L) \<Rightarrow> (Inl e, fst st, L)
           | (Inr (r, s), L) \<Rightarrow> (Inr r, s, L)))"

section \<open>Who a request acts for\<close>

lemma spend_Inr: "fst (spend key now L) = Inr x \<longleftrightarrow> fst (allow key now L)"
  by (auto simp: spend_def split: prod.split)

lemma signed_in_Inr:
  assumes "signed_in env rq s = Inr (uid, t)"
  obtains items where "login env rq = Inr (uid, items)"
    "ensure_user (ae_code env) (ae_settings env) (telegram_profile uid items) s = Inr (uid, t)"
proof -
  obtain id items uid' t' and u :: user_row where l: "login env rq = Inr (id, items)"
    and e: "ensure_user (ae_code env) (ae_settings env) (telegram_profile id items) s = Inr (uid', t')"
    and r: "(if u_is_banned u then Inl (HTTPException 403 ''Account suspended'') else Inr (uid', t')) = Inr (uid, t)"
    using assms unfolding signed_in_def e_bind_eq_Inr split_paired_Ex case_prod_conv
    by (elim exE conjE) (rule that)
  have "uid' = id" using e
    by (auto simp: ensure_user_def get_or_create_user_def Let_def telegram_profile_def split: option.split_asm)
  with l e r that show thesis by (auto split: if_split_asm)
qed

lemma current_user_Inr:
  assumes "current_user env rq s L = (Inr (uid, t), L')"
  shows "signed_in env rq s = Inr (uid, t)"
  using assms by (auto simp: current_user_def split: prod.split_asm sum.split_asm)

lemma handle_Inr:
  assumes "handle env call uid s L = (Inr (r, t), L')"
  shows "route env call uid s = Inr (r, t)"
  using assms by (auto simp: handle_def split: prod.split_asm sum.split_asm if_split_asm)

lemma serve_Inr:
  assumes "serve env rq call (s, L) = (Inr r, t, L')"
  obtains uid s1 where "signed_in env rq s = Inr (uid, s1)" "route env call uid s1 = Inr (r, t)"
  using assms that
  by (auto simp: serve_def split: prod.split_asm sum.split_asm dest!: current_user_Inr handle_Inr)

lemma login_Inr:
  assumes "login env rq = Inr (uid, vals)"
  obtains d items where "init_data_header rq = Some d"
    "map_of (dict_of_pairs (parse_qsl d)) ''hash''
       = Some (init_data_hash (ae_tg env) (bot_token (ae_settings env)) items)"
    "items = filter (\<lambda>(k, v). k \<noteq> ''hash'') (dict_of_pairs (parse_qsl d))"
    "check_age (ae_tg env) INIT_DATA_MAX_AGE_SECONDS items = Inr ()"
    "with_user (ae_tg env) items = Inr vals" "extract_telegram_user_id vals = Inr uid"
proof -
  obtain d where d: "init_data_header rq = Some d"
    using assms by (auto simp: login_def split: option.split_asm)
  then have v: "validate_telegram_init_data (ae_tg env) d (bot_token (ae_settings env)) INIT_DATA_MAX_AGE_SECONDS
      = Inr vals" and x: "extract_telegram_user_id vals = Inr uid"
    using assms by (auto simp: login_def split: sum.split_asm exn.split_asm)
  show thesis using accepted_is_signed [OF v] d x that by metis
qed

text \<open>
  C21: A request that is answered acts only for the user whom Telegram vouches for: its init data
  carries the HMAC of its own fields under the bot token and is fresh, the user id is the one in
  the signed user object, and the reply and every change are those of the route for that user.
\<close>

theorem api_acts_for_signer:
  assumes "serve env rq call (s, L) = (Inr r, t, L')"
  shows "\<exists>d items vals uid s1. init_data_header rq = Some d \<and>
    map_of (dict_of_pairs (parse_qsl d)) ''hash''
      = Some (init_data_hash (ae_tg env) (bot_token (ae_settings env)) items) \<and>
    items = filter (\<lambda>(k, v). k \<noteq> ''hash'') (dict_of_pairs (parse_qsl d)) \<and>
    check_age (ae_tg env) INIT_DATA_MAX_AGE_SECONDS items = Inr () \<and>
    with_user (ae_tg env) items = Inr vals \<and> extract_telegram_user_id vals = Inr uid \<and>
    ensure_user (ae_code env) (ae_settings env) (telegram_profile uid vals) s = Inr (uid, s1) \<and>
    route env call uid s1 = Inr (r, t)"
proof -
  obtain uid s1 where s: "signed_in env rq s = Inr (uid, s1)" and r: "route env call uid s1 = Inr (r, t)"
    using serve_Inr [OF assms] .
  obtain vals where l: "login env rq = Inr (uid, vals)"
    and e: "ensure_user (ae_code env) (ae_settings env) (telegram_profile uid vals) s = Inr (uid, s1)"
    using signed_in_Inr [OF s] .
  show ?thesis by (rule login_Inr [OF l]) (use e r in blast)
qed

section \<open>Orders of other users\<close>

fun names_order :: "string \<Rightarrow> api_call \<Rightarrow> bool" where
  "names_order pid (Get_order p) = (p = pid)"
| "names_order pid (Post_refresh p answer) = (p = pid)"
| "names_order pid (Post_refill p adapter answer) = (p = pid)"
| "names_order pid (Post_cancel p adapter answer) = (p = pid)"
| "names_order pid _ = False"

lemma foreign_route:
  assumes "names_order pid call" and "\<forall>r \<in> set (orders s). o_public_id r = pid \<longrightarrow> o_user_id r \<noteq> uid"
  shows "route env call uid s = Inl (HTTPException 404 ''Order not found'')"
proof -
  have "get_order_for_user pid (Some uid) s = None"
    using assms(2) by (auto simp: get_order_for_user_def find_None_iff)
  then show ?thesis using assms(1) by (cases call) (auto simp: own_order_def)
qed

text \<open>
  C22: Through the API nobody reaches another user's order: a request to read, refresh, refill or
  cancel an order that is not the signer's own is answered with 404, exactly as for an order that
  does not exist, and changes nothing in the database.
\<close>

theorem api_hides_foreign_orders:
  assumes "current_user env rq s L = (Inr (uid, s1), L1)" and "names_order pid call"
    and "\<forall>r \<in> set (orders s). o_public_id r = pid \<longrightarrow> o_user_id r \<noteq> uid"
  shows "serve env rq call (s, L) = (Inl (HTTPException 404 ''Order not found''), s, L1)"
proof -
  obtain items where "ensure_user (ae_code env) (ae_settings env) (telegram_profile uid items) s = Inr (uid, s1)"
    using signed_in_Inr [OF current_user_Inr [OF assms(1)]] by blast
  then have "orders s1 = orders s" using ensure_user_profile by (simp add: profile_step_def)
  then have "route env call uid s1 = Inl (HTTPException 404 ''Order not found'')"
    using assms(2,3) by (intro foreign_route) auto
  moreover have "body_ok call" and "\<not> is_order_call call" using assms(2) by (cases call; simp)+
  ultimately show ?thesis by (simp add: serve_def assms(1) handle_def)
qed

section \<open>The API as a client of the shop\<close>

lemma reading_Inr: "reading m s = Inr (x, t) \<Longrightarrow> t = s"
  by (auto simp: reading_def)

lemma order_reply_Inr: "order_reply m = Inr (r, t) \<Longrightarrow> \<exists>oid. m = Inr (oid, t)"
  by (auto simp: order_reply_def with_order_def split: option.split_asm)

lemma own_order_Inr: "own_order pid uid s f = Inr x \<Longrightarrow> \<exists>r. f r = Inr x"
  by (auto simp: own_order_def split: option.split_asm)

text \<open>One request of the shop, or nothing.\<close>

definition one_shop_step :: "api_env \<Rightarrow> db \<Rightarrow> db \<Rightarrow> bool" where
  "one_shop_step env s t \<longleftrightarrow>
     (\<exists>q. shop_op (ae_text env) (ae_code env) (env_digest (ae_orders env)) q s = Inr ((), t))"

lemma order_shop_step:
  assumes "order_op (ae_orders env) q s = Inr (ids, t)"
  shows "one_shop_step env s t"
  unfolding one_shop_step_def
  using assms by (intro exI [of _ "Sh_order (ae_orders env) q"]) (simp add: no_result_def)

lemma payment_shop_step:
  assumes "payment_op (ae_text env) (env_digest (ae_orders env)) now q s = Inr ((), t)"
  shows "one_shop_step env s t"
  unfolding one_shop_step_def
  using assms by (intro exI [of _ "Sh_payment now q"]) (simp add: no_result_def)

lemma post_order_step:
  assumes "post_order env b pid answer uid s = Inr (r, t)"
  shows "one_shop_step env s t"
proof -
  obtain oid where "place_order (ae_orders env) (place_of b uid pid) answer s = Inr (oid, t)"
    using assms by (auto simp: post_order_def dest!: order_reply_Inr)
  then show ?thesis by (intro order_shop_step [where q = "Place (place_of b uid pid) answer"]) simp
qed

lemma post_deposit_step: "post_deposit env b pid post uid s = Inr (r, t) \<Longrightarrow> one_shop_step env s t"
  by (rule payment_shop_step [where now = "env_now (ae_orders env)"
        and q = "Pay_create (ae_settings env) post
          \<lparr>dr_user = uid, dr_amount = di_amount_paise b, dr_key = di_idempotency_key b, dr_public_id = pid\<rparr>"])
    (auto simp: post_deposit_def deposit_def no_result_def split: sum.split_asm exn.split_asm)

lemma get_deposit_step: "get_deposit env pid fetch uid s = Inr (r, t) \<Longrightarrow> one_shop_step env s t"
  by (rule payment_shop_step [where now = "env_now (ae_orders env)"
        and q = "Pay_check (ae_settings env) fetch pid uid"])
    (auto simp: get_deposit_def deposit_status_def no_result_def split: option.split_asm)

lemma post_mock_pay_step: "post_mock_pay env pid uid s = Inr (r, t) \<Longrightarrow> one_shop_step env s t"
  by (rule payment_shop_step [where now = "env_now (ae_orders env)" and q = "Pay_mock (ae_settings env) pid uid"])
    (auto simp: post_mock_pay_def no_result_def split: option.split_asm)

lemma route_step:
  assumes "route env call uid s = Inr (r, t)"
  shows "t = s \<or> one_shop_step env s t"
proof (cases call)
  case (Post_refresh pid answer)
  then obtain x :: order_row and oid where "sync_order_status (ae_orders env) (o_id x) answer s = Inr (oid, t)"
    using assms by (auto dest!: own_order_Inr order_reply_Inr)
  then show ?thesis by (intro disjI2 order_shop_step [where q = "Sync (o_id x) answer"]) simp
next
  case (Post_refill pid adapter answer)
  then obtain x :: order_row and oid where "request_refill (ae_orders env) (o_id x) uid adapter answer s = Inr (oid, t)"
    using assms by (auto dest!: own_order_Inr order_reply_Inr)
  then show ?thesis by (intro disjI2 order_shop_step [where q = "Refill (o_id x) uid adapter answer"]) simp
next
  case (Post_cancel pid adapter answer)
  then obtain x :: order_row and oid where "request_cancel (ae_orders env) (o_id x) uid adapter answer s = Inr (oid, t)"
    using assms by (auto dest!: own_order_Inr order_reply_Inr)
  then show ?thesis by (intro disjI2 order_shop_step [where q = "Cancel (o_id x) uid adapter answer"]) simp
qed (use assms in \<open>auto dest: reading_Inr own_order_Inr intro: post_order_step post_deposit_step get_deposit_step
      post_mock_pay_step\<close>)

lemma register_step:
  "ensure_user (ae_code env) st q s = Inr (uid, t) \<Longrightarrow> one_shop_step env s t"
  unfolding one_shop_step_def by (intro exI [of _ "Sh_register st q"]) (simp add: no_result_def)

definition shop_steps ::
  "(json \<Rightarrow> string) \<Rightarrow> (string \<Rightarrow> nat list) \<Rightarrow> digest \<Rightarrow> db \<Rightarrow> db \<Rightarrow> bool" where
  "shop_steps R D H s t \<longleftrightarrow> (\<exists>qs. t = session_run (shop_op R D H) qs s)"

lemma shop_steps_refl: "shop_steps R D H s s"
  unfolding shop_steps_def by (rule exI [of _ "[]"]) simp

lemma shop_steps_trans: "shop_steps R D H s t \<Longrightarrow> shop_steps R D H t u \<Longrightarrow> shop_steps R D H s u"
  unfolding shop_steps_def by (metis session_run_append)

lemma one_shop_steps:
  "one_shop_step env s t \<Longrightarrow> shop_steps (ae_text env) (ae_code env) (env_digest (ae_orders env)) s t"
  unfolding one_shop_step_def shop_steps_def
proof (elim exE)
  fix q assume "shop_op (ae_text env) (ae_code env) (env_digest (ae_orders env)) q s = Inr ((), t)"
  then show "\<exists>qs. t = session_run (shop_op (ae_text env) (ae_code env) (env_digest (ae_orders env))) qs s"
    by (intro exI [of _ "[q]"]) simp
qed

lemma serve_steps:
  "shop_steps (ae_text env) (ae_code env) (env_digest (ae_orders env)) s (fst (snd (serve env rq call (s, L))))"
proof -
  obtain res t L' where e: "serve env rq call (s, L) = (res, t, L')" by (metis prod.exhaust)
  show ?thesis
  proof (cases res)
    case (Inl x)
    then have "t = s" using e by (auto simp: serve_def split: prod.split_asm sum.split_asm)
    then show ?thesis by (simp add: e shop_steps_refl)
  next
    case (Inr r)
    obtain uid s1 where s1: "signed_in env rq s = Inr (uid, s1)" and r: "route env call uid s1 = Inr (r, t)"
      using serve_Inr [OF e [unfolded Inr]] .
    obtain items where "ensure_user (ae_code env) (ae_settings env) (telegram_profile uid items) s = Inr (uid, s1)"
      using signed_in_Inr [OF s1] .
    then have "shop_steps (ae_text env) (ae_code env) (env_digest (ae_orders env)) s s1"
      by (intro one_shop_steps register_step)
    moreover have "shop_steps (ae_text env) (ae_code env) (env_digest (ae_orders env)) s1 t"
      using route_step [OF r] one_shop_steps shop_steps_refl by blast
    ultimately show ?thesis using shop_steps_trans by (simp add: e)
  qed
qed

text \<open>A server that answers requests one after the other.\<close>

fun serve_all :: "(api_env \<times> http_request \<times> api_call) list \<Rightarrow> db \<times> limits \<Rightarrow> db \<times> limits" where
  "serve_all [] st = st"
| "serve_all ((env, rq, call) # qs) st = serve_all qs (snd (serve env rq call st))"

text \<open>
  C20: The API refines the shop. Whatever requests arrive, authentic or not, in whatever order, what
  they leave in the database is what a sequence of the shop's own transactions leaves there; in
  particular the books stay right.
\<close>

theorem api_refines_shop:
  assumes "\<forall>(env, rq, call) \<in> set qs. ae_text env = R \<and> ae_code env = D \<and> env_digest (ae_orders env) = H"
  shows "\<exists>ops. fst (serve_all qs (s, L)) = session_run (shop_op R D H) ops s"
  using assms
proof (induction qs arbitrary: s L)
  case Nil
  then show ?case using shop_steps_refl [of R D H s] by (simp add: shop_steps_def)
next
  case (Cons q qs)
  obtain env rq call where q: "q = (env, rq, call)" by (metis prod.exhaust)
  obtain res t L' where e: "serve env rq call (s, L) = (res, t, L')" by (metis prod.exhaust)
  have "shop_steps R D H s t" using serve_steps [of env s rq call L] Cons.prems by (simp add: q e)
  moreover have "shop_steps R D H t (fst (serve_all qs (t, L')))"
    using Cons.IH [of t L'] Cons.prems by (simp add: shop_steps_def)
  ultimately have "shop_steps R D H s (fst (serve_all qs (t, L')))" by (rule shop_steps_trans)
  then show ?case by (simp add: q e shop_steps_def)
qed

section \<open>A sample server\<close>

definition coded_user :: user_row where
  "coded_user = (new_user 7)\<lparr>u_referral_code := Some ''REF7''\<rparr>"

definition api_db :: db where
  "api_db = empty_db\<lparr>users := [7 \<mapsto> coded_user], user_ids := [7], orders := [sample_order 8 Processing 300]\<rparr>"

definition sample_api :: api_env where
  "sample_api =
     \<lparr>ae_settings = (sample_settings Production ''razorpay'')\<lparr>bot_token := ''t'', owner_telegram_id := 1,
        rate_limit_per_minute := 0, ip_rate_limit_per_minute := 0, trust_proxy := False\<rparr>,
      ae_tg = sample_tg, ae_orders = sample_env, ae_code = (\<lambda>_. []), ae_text = (\<lambda>_. []), ae_clock = 0\<rparr>"

definition sample_limits :: limits where
  "sample_limits = new_limits (ae_settings sample_api) 0"

definition signed_rq :: http_request where
  "signed_rq = \<lparr>rq_forwarded_for = [], rq_client_host = None,
     rq_init_data = Some (signed_init_data sample_tg ''t'' sample_items), rq_authorization = None\<rparr>"

lemma header_given: "rq_init_data rq = Some d \<Longrightarrow> d \<noteq> [] \<Longrightarrow> init_data_header rq = Some d"
  by (cases d) (simp_all add: init_data_header_def)

lemma sample_login: "login sample_api signed_rq
    = Inr (7, [(''auth_date'', Jtext ''900''), (''user'', Jobj [(''id'', Jint 7)]), (''q'', Jtext ''a&b=%'')])"
proof -
  have "init_data_header signed_rq = Some (signed_init_data sample_tg ''t'' sample_items)"
    by (rule header_given) (simp_all add: signed_rq_def signed_not_empty)
  moreover have "validate_telegram_init_data sample_tg (signed_init_data sample_tg ''t'' sample_items) ''t''
      INIT_DATA_MAX_AGE_SECONDS = with_user sample_tg sample_items"
    unfolding INIT_DATA_MAX_AGE_SECONDS_def
    by (rule validate_signed [OF sample_items_ok sample_hash]) (simp add: sample_age)
  ultimately show ?thesis
    by (simp add: login_def sample_api_def sample_user extract_telegram_user_id_def dict_get_def
        obj_get_def or_else_def)
qed

lemma sample_current_user:
  "current_user sample_api signed_rq api_db sample_limits = (Inr (7, api_db), sample_limits)"
proof -
  have "ensure_user (\<lambda>_. []) (ae_settings sample_api)
      (telegram_profile 7 [(''auth_date'', Jtext ''900''), (''user'', Jobj [(''id'', Jint 7)]), (''q'', Jtext ''a&b=%'')])
      api_db = Inr (7, api_db)"
    by (simp add: ensure_user_def get_or_create_user_def telegram_profile_def api_db_def ensure_referral_code_def
        lock_user_def update_user_def refresh_profile_def coded_user_def sample_api_def dict_get_def obj_get_def
        profile_text_def given_def ensure_owner_partners_def owner_role_def new_user_def fun_upd_idem_iff obj_of_def)
  then have s: "signed_in sample_api signed_rq api_db = Inr (7, api_db)"
    using sample_login by (simp add: signed_in_def sample_api_def lock_user_def api_db_def coded_user_def new_user_def)
  have free: "spend key 0 (lim_ip sample_limits) = (Inr (), lim_ip sample_limits)"
      "spend key 0 (lim_user sample_limits) = (Inr (), lim_user sample_limits)" for key
    by (simp_all add: spend_def allow_def sample_limits_def new_limits_def new_limiter_def sample_api_def)
  have clock: "ae_clock sample_api = 0" by (simp add: sample_api_def)
  show ?thesis by (simp add: current_user_def check_ip_def check_user_def clock free s)
qed

lemma sample_serve:
  "serve sample_api signed_rq Get_config (api_db, sample_limits)
     = (Inr (Re_config (app_config (ae_settings sample_api) api_db)), api_db, sample_limits)"
  by (simp add: serve_def sample_current_user handle_def)

lemma sample_env_fields [simp]:
  "ae_tg sample_api = sample_tg" "bot_token (ae_settings sample_api) = ''t''" "ae_code sample_api = (\<lambda>_. [])"
  "ae_text sample_api = (\<lambda>_. [])" "ae_orders sample_api = sample_env"
  by (simp_all add: sample_api_def)

lemma api_acts_for_signer_witness:
  "\<exists>d items vals uid s1. init_data_header signed_rq = Some d \<and>
    map_of (dict_of_pairs (parse_qsl d)) ''hash'' = Some (init_data_hash sample_tg ''t'' items) \<and>
    with_user sample_tg items = Inr vals \<and> extract_telegram_user_id vals = Inr uid \<and>
    route sample_api Get_config uid s1 = Inr (Re_config (app_config (ae_settings sample_api) api_db), api_db)"
  using api_acts_for_signer [OF sample_serve] unfolding sample_env_fields by blast

lemma api_hides_foreign_orders_witness:
  "serve sample_api signed_rq (Post_cancel ''FL-1'' (Inr ()) (Inr ())) (api_db, sample_limits)
     = (Inl (HTTPException 404 ''Order not found''), api_db, sample_limits)"
  by (rule api_hides_foreign_orders [OF sample_current_user])
    (simp_all add: api_db_def sample_order_def)

lemma api_refines_shop_witness:
  "\<exists>ops. fst (serve_all [(sample_api, signed_rq, Get_wallet), (sample_api, signed_rq, Get_order ''FL-1'')]
      (api_db, sample_limits)) = session_run (shop_op (\<lambda>_. []) (\<lambda>_. []) sample_digest) ops api_db"
  by (rule api_refines_shop) (simp add: sample_env_def)

end
