(* ===== verification/Platform.thy ===== *)
theory Platform
  imports PyText
begin

text \<open>
  The exceptions of the second generation of the program (\<open>app/core/exceptions.py\<close>) and the
  permissions of its administrators (\<open>app/auth/permissions.py\<close>). An exception is raised by calling
  its class: the constructors of some classes fix the user's message, and a call that passes one
  to them as well fails with a \<open>TypeError\<close> instead of raising the exception.
\<close>

section \<open>Exception classes\<close>

datatype smm_class =
    SMMError
  | AuthError | InvalidInitDataError | InvalidCredentialsError | SessionExpiredError
  | AdminAuthError | AdminLockedError | InvalidTOTPError | PermissionDeniedError | UserBannedError
  | ValidationError
  | SMMWalletError | InsufficientBalanceError
  | SMMOrderError | DuplicateOrderError | OrderNotFoundError | OrderCancelError | OrderRefillError
  | PaymentError | DuplicatePaymentError | InvalidWebhookSignatureError | PaymentVerificationError
  | SMMProviderError | ProviderResponseError | ProviderUnavailableError
  | ServiceError | ServiceNotFoundError | ServiceUnavailableError
  | KillSwitchError | RateLimitError
  | CouponError | CouponNotFoundError | CouponExpiredError | CouponUsageLimitError
  | CouponAlreadyRedeemedError | CouponTransferError
  | TenantError | TenantNotFoundError
  | PremiumError | CMSError
  | PricingError | PriceChangedError

fun parent :: "smm_class \<Rightarrow> smm_class option" where
  "parent SMMError = None"
| "parent InvalidInitDataError = Some AuthError"
| "parent InvalidCredentialsError = Some AuthError"
| "parent SessionExpiredError = Some AuthError"
| "parent AdminAuthError = Some AuthError"
| "parent AdminLockedError = Some AuthError"
| "parent InvalidTOTPError = Some AuthError"
| "parent PermissionDeniedError = Some AuthError"
| "parent UserBannedError = Some AuthError"
| "parent InsufficientBalanceError = Some SMMWalletError"
| "parent DuplicateOrderError = Some SMMOrderError"
| "parent OrderNotFoundError = Some SMMOrderError"
| "parent OrderCancelError = Some SMMOrderError"
| "parent OrderRefillError = Some SMMOrderError"
| "parent DuplicatePaymentError = Some PaymentError"
| "parent InvalidWebhookSignatureError = Some PaymentError"
| "parent PaymentVerificationError = Some PaymentError"
| "parent ProviderResponseError = Some SMMProviderError"
| "parent ProviderUnavailableError = Some SMMProviderError"
| "parent ServiceNotFoundError = Some ServiceError"
| "parent ServiceUnavailableError = Some ServiceError"
| "parent CouponNotFoundError = Some CouponError"
| "parent CouponExpiredError = Some CouponError"
| "parent CouponUsageLimitError = Some CouponError"
| "parent CouponAlreadyRedeemedError = Some CouponError"
| "parent CouponTransferError = Some CouponError"
| "parent TenantNotFoundError = Some TenantError"
| "parent PriceChangedError = Some PricingError"
| "parent _ = Some SMMError"

text \<open>How far a class is from the root; the search through the bases ends.\<close>

definition class_depth :: "smm_class \<Rightarrow> nat" where
  "class_depth c = (case parent c of None \<Rightarrow> 0 | Some p \<Rightarrow> if parent p = None then 1 else 2)"

lemma parent_depth: "parent c = Some p \<Longrightarrow> class_depth p < class_depth c"
  by (cases c) (auto simp: class_depth_def)

text \<open>\<open>issubclass\<close>, which decides what an \<open>except\<close> clause catches.\<close>

function subclass_of :: "smm_class \<Rightarrow> smm_class \<Rightarrow> bool" where
  "subclass_of c d = (c = d \<or> (case parent c of None \<Rightarrow> False | Some p \<Rightarrow> subclass_of p d))"
  by pat_completeness auto
termination by (relation "measure (\<lambda>(c, d). class_depth c)") (auto dest: parent_depth)

declare subclass_of.simps [simp del]

lemma every_class_is_SMMError: "subclass_of c SMMError"
  by (cases c) (simp_all add: subclass_of.simps [of c] subclass_of.simps [of "the (parent c)"]
      subclass_of.simps)

fun status_code :: "smm_class \<Rightarrow> int" where
  "status_code PermissionDeniedError = 403"
| "status_code UserBannedError = 403"
| "status_code AdminLockedError = 423"
| "status_code OrderNotFoundError = 404"
| "status_code InvalidWebhookSignatureError = 400"
| "status_code ServiceNotFoundError = 404"
| "status_code CouponNotFoundError = 404"
| "status_code TenantNotFoundError = 404"
| "status_code PremiumError = 403"
| "status_code KillSwitchError = 503"
| "status_code RateLimitError = 429"
| "status_code SMMError = 500"
| "status_code c =
     (if subclass_of c AuthError then 401
      else if subclass_of c SMMProviderError then 502
      else 422)"

text \<open>The classes whose constructor takes a message for the user.\<close>

definition takes_message :: "smm_class \<Rightarrow> bool" where
  "takes_message c \<longleftrightarrow> c \<in> set [SMMError, AuthError, AdminLockedError, ValidationError, SMMWalletError,
     SMMOrderError, PaymentError, SMMProviderError, ServiceError, CouponError, CouponTransferError,
     TenantError, PremiumError, CMSError, PricingError]"

fun default_message :: "smm_class \<Rightarrow> string" where
  "default_message InvalidInitDataError = ''Authentication failed. Please restart the bot.''"
| "default_message InvalidCredentialsError = ''Invalid credentials.''"
| "default_message SessionExpiredError = ''Session expired. Please restart.''"
| "default_message AdminAuthError = ''Admin authentication failed.''"
| "default_message AdminLockedError = ''Account temporarily locked.''"
| "default_message InvalidTOTPError = ''Invalid authentication code.''"
| "default_message PermissionDeniedError = ''You do not have permission to perform this action.''"
| "default_message UserBannedError = ''Your account has been suspended.''"
| "default_message ValidationError = ''Invalid input.''"
| "default_message SMMWalletError = ''Wallet operation failed.''"
| "default_message InsufficientBalanceError = ''Insufficient wallet balance.''"
| "default_message SMMOrderError = ''Order operation failed.''"
| "default_message DuplicateOrderError = ''Duplicate order request.''"
| "default_message OrderNotFoundError = ''Order not found.''"
| "default_message OrderCancelError = ''This order cannot be cancelled.''"
| "default_message OrderRefillError = ''This order is not eligible for refill.''"
| "default_message PaymentError = ''Payment operation failed.''"
| "default_message DuplicatePaymentError = ''Payment already processed.''"
| "default_message InvalidWebhookSignatureError = ''Invalid webhook signature.''"
| "default_message PaymentVerificationError = ''Payment verification failed.''"
| "default_message SMMProviderError = ''Provider error.''"
| "default_message ProviderResponseError = ''Provider returned an unexpected response.''"
| "default_message ProviderUnavailableError = ''Service provider is temporarily unavailable.''"
| "default_message ServiceNotFoundError = ''Service not found.''"
| "default_message ServiceUnavailableError = ''This service is currently unavailable.''"
| "default_message KillSwitchError = ''This feature is temporarily disabled.''"
| "default_message RateLimitError = ''Too many requests. Please slow down.''"
| "default_message CouponError = ''Coupon error.''"
| "default_message CouponNotFoundError = ''Coupon not found or inactive.''"
| "default_message CouponExpiredError = ''This coupon has expired.''"
| "default_message CouponUsageLimitError = ''This coupon has reached its usage limit.''"
| "default_message CouponAlreadyRedeemedError = ''You have already used this coupon.''"
| "default_message CouponTransferError = ''Coupon cannot be transferred.''"
| "default_message TenantError = ''Tenant operation failed.''"
| "default_message TenantNotFoundError = ''Tenant not found.''"
| "default_message PremiumError = ''Premium subscription required.''"
| "default_message CMSError = ''Content operation failed.''"
| "default_message PricingError = ''Pricing calculation failed.''"
| "default_message PriceChangedError =
     ''The price changed between preview and order. Please try again.''"
| "default_message _ = ''An unexpected error occurred.''"

text \<open>
  What propagates: an exception of the hierarchy with its class and the user's message (the internal
  detail is left out), an HTTP exception of the web framework, or another Python exception by name.
\<close>

datatype smm_exn = Smm smm_class string | Http int string | Py string

text \<open>\<open>raise C(detail=...)\<close>, and with \<open>user_message=...\<close>.\<close>

definition raise_smm :: "smm_class \<Rightarrow> smm_exn" where
  "raise_smm c = Smm c (default_message c)"

definition raise_with :: "smm_class \<Rightarrow> string \<Rightarrow> smm_exn" where
  "raise_with c m = (if takes_message c then Smm c m else Py ''TypeError'')"

definition catches :: "smm_class list \<Rightarrow> smm_exn \<Rightarrow> bool" where
  "catches cs e = (case e of Smm c m \<Rightarrow> list_ex (subclass_of c) cs | _ \<Rightarrow> False)"

text \<open>
  A route that turns the listed classes into an HTTP error with the user's message; whatever else
  is raised goes on to the server.
\<close>

definition http_of :: "smm_class list \<Rightarrow> int \<Rightarrow> smm_exn + 'a \<Rightarrow> smm_exn + 'a" where
  "http_of cs status m =
     (case m of Inl (Smm c t) \<Rightarrow> if list_ex (subclass_of c) cs then Inl (Http status t) else m | _ \<Rightarrow> m)"

section \<open>Text of identifiers\<close>

text \<open>An integer survives being written and read again.\<close>

lemma digit_not_space: "is_digit c \<Longrightarrow> \<not> py_space c"
  by (auto simp: is_digit_def py_space_def)

lemma strip_plain:
  assumes "s \<noteq> []" and "\<not> py_space (hd s)" and "\<not> py_space (last s)"
  shows "strip s = s"
proof -
  have "lstrip s = s" using assms by (simp add: lstrip_id)
  moreover have "rstrip s = s"
    using assms(1,3) by (cases s rule: rev_cases) (simp_all add: rstrip_def)
  ultimately show ?thesis by (simp add: strip_def)
qed

lemma digits_nat_nonempty: "digits_nat n \<noteq> []"
  by (subst digits_nat.simps) simp

lemma digits_nat_digit: "c \<in> set (digits_nat n) \<Longrightarrow> is_digit c"
  using digits_nat_chars [of c n] by (auto simp: is_digit_def)

lemma parse_int_str_int: "parse_int (str_int i) = Some i"
proof -
  have digits: "list_all is_digit (digits_nat n)" for n
    by (simp add: list_all_iff digits_nat_digit)
  have ends: "\<not> py_space (hd (digits_nat n))" "\<not> py_space (last (digits_nat n))" for n
    using digits_nat_nonempty [of n]
    by (simp_all add: digit_not_space [OF digits_nat_digit [of _ n]])
  then have plain: "strip (digits_nat n) = digits_nat n" for n
    by (intro strip_plain) (simp_all add: digits_nat_nonempty)
  from ends have minus: "strip (CHR ''-'' # digits_nat n) = CHR ''-'' # digits_nat n" for n
    by (intro strip_plain) (simp_all add: digits_nat_nonempty py_space_def [of "CHR ''-''"])
  have no_separator: "ungroup (digits_nat n) = digits_nat n"
    "ungroup (CHR ''-'' # digits_nat n) = CHR ''-'' # digits_nat n" for n
    by (simp_all add: ungroup_plain digits_nat_no_char)
  have unsigned: "signed (digits_nat n) = (False, digits_nat n)" for n
    using digits_nat_no_char [of "CHR ''-''" n] digits_nat_no_char [of "CHR ''+''" n]
    by (cases "digits_nat n") (auto simp: signed_def)
  have "signed (CHR ''-'' # digits_nat n) = (True, digits_nat n)" for n
    by (simp add: signed_def)
  with unsigned show ?thesis
    by (simp add: parse_int_def str_int_def plain minus no_separator digits digits_nat_nonempty)
qed

section \<open>Permissions\<close>

datatype permission =
    VIEW_USERS | BAN_USER | UNBAN_USER | VIEW_USER_WALLETS | ADJUST_WALLET
  | VIEW_ALL_ORDERS | REFUND_ORDER | MANAGE_SERVICES | MANAGE_PROVIDERS | TRIGGER_SYNC
  | MANAGE_PRICING | MANAGE_KILL_SWITCHES | VIEW_AUDIT_LOG | VIEW_SECURITY_EVENTS
  | MANAGE_TENANTS | MANAGE_PREMIUM | MANAGE_CMS | SEND_BROADCAST | MANAGE_ADMINS

fun permission_value :: "permission \<Rightarrow> string" where
  "permission_value VIEW_USERS = ''view_users''"
| "permission_value BAN_USER = ''ban_user''"
| "permission_value UNBAN_USER = ''unban_user''"
| "permission_value VIEW_USER_WALLETS = ''view_user_wallets''"
| "permission_value ADJUST_WALLET = ''adjust_wallet''"
| "permission_value VIEW_ALL_ORDERS = ''view_all_orders''"
| "permission_value REFUND_ORDER = ''refund_order''"
| "permission_value MANAGE_SERVICES = ''manage_services''"
| "permission_value MANAGE_PROVIDERS = ''manage_providers''"
| "permission_value TRIGGER_SYNC = ''trigger_sync''"
| "permission_value MANAGE_PRICING = ''manage_pricing''"
| "permission_value MANAGE_KILL_SWITCHES = ''manage_kill_switches''"
| "permission_value VIEW_AUDIT_LOG = ''view_audit_log''"
| "permission_value VIEW_SECURITY_EVENTS = ''view_security_events''"
| "permission_value MANAGE_TENANTS = ''manage_tenants''"
| "permission_value MANAGE_PREMIUM = ''manage_premium''"
| "permission_value MANAGE_CMS = ''manage_cms''"
| "permission_value SEND_BROADCAST = ''send_broadcast''"
| "permission_value MANAGE_ADMINS = ''manage_admins''"

definition all_permissions :: "permission list" where
  "all_permissions =
     [VIEW_USERS, BAN_USER, UNBAN_USER, VIEW_USER_WALLETS, ADJUST_WALLET, VIEW_ALL_ORDERS,
      REFUND_ORDER, MANAGE_SERVICES, MANAGE_PROVIDERS, TRIGGER_SYNC, MANAGE_PRICING,
      MANAGE_KILL_SWITCHES, VIEW_AUDIT_LOG, VIEW_SECURITY_EVENTS, MANAGE_TENANTS, MANAGE_PREMIUM,
      MANAGE_CMS, SEND_BROADCAST, MANAGE_ADMINS]"

definition ROLE_PERMISSIONS :: "(string \<times> permission list) list" where
  "ROLE_PERMISSIONS =
     [(''viewer'', [VIEW_USERS, VIEW_ALL_ORDERS, VIEW_AUDIT_LOG]),
      (''support'', [VIEW_USERS, VIEW_ALL_ORDERS, VIEW_USER_WALLETS, REFUND_ORDER, VIEW_AUDIT_LOG]),
      (''operator'', [VIEW_USERS, BAN_USER, UNBAN_USER, VIEW_ALL_ORDERS, VIEW_USER_WALLETS,
         ADJUST_WALLET, REFUND_ORDER, MANAGE_SERVICES, TRIGGER_SYNC, MANAGE_CMS, VIEW_AUDIT_LOG]),
      (''admin'', filter (\<lambda>p. p \<noteq> MANAGE_ADMINS) all_permissions),
      (''superadmin'', all_permissions)]"

definition get_permissions :: "string \<Rightarrow> permission list" where
  "get_permissions role = (case map_of ROLE_PERMISSIONS role of None \<Rightarrow> [] | Some ps \<Rightarrow> ps)"

definition has_permission :: "string \<Rightarrow> permission \<Rightarrow> bool" where
  "has_permission role p \<longleftrightarrow> p \<in> set (get_permissions role)"

lemma all_permissions_complete: "p \<in> set all_permissions"
  by (cases p) (simp_all add: all_permissions_def)

text \<open>The five roles form a chain, and nobody else may do anything.\<close>

lemma permission_chain:
  "set (get_permissions ''viewer'') \<subseteq> set (get_permissions ''support'')"
  "set (get_permissions ''support'') \<subseteq> set (get_permissions ''operator'')"
  "set (get_permissions ''operator'') \<subseteq> set (get_permissions ''admin'')"
  "set (get_permissions ''admin'') \<subseteq> set (get_permissions ''superadmin'')"
  by (simp_all add: get_permissions_def ROLE_PERMISSIONS_def all_permissions_def)

lemma unknown_role: "role \<notin> fst ` set ROLE_PERMISSIONS \<Longrightarrow> \<not> has_permission role p"
  by (simp add: has_permission_def get_permissions_def map_of_eq_None_iff [THEN iffD2])

end
