(* ===== verification/AdminAuth.thy ===== *)
theory AdminAuth
  imports Platform
begin

text \<open>
  The administrators' sign-in of the second generation: \<open>app/auth/admin_credential_store.py\<close>, the two
  login routes of \<open>app/admin/routes.py\<close> and the checks of \<open>app/auth/dependencies.py\<close>. An operation
  gives its result and the rows as they are in the session, also when it raises; what becomes of
  the session is up to the caller. Password hashing, TOTP, JWT signing and the encryption of the
  TOTP secret are arguments; the message of a locked account ends before the time of day it names.
  Times are microseconds, the claims of a token are in seconds.
\<close>

section \<open>Rows, tokens and the libraries\<close>

record admin_row =
  ad_id :: int
  ad_username :: string
  ad_email :: string
  ad_password_hash :: string
  ad_totp_secret :: "string option"
  ad_totp_enabled :: bool
  ad_is_active :: bool
  ad_role :: string
  ad_failed_attempts :: int
  ad_locked_until :: "int option"
  ad_last_login_at :: "int option"

record claims =
  cl_sub :: string
  cl_usr :: string
  cl_role :: string
  cl_partial :: bool
  cl_iat :: int
  cl_exp :: int
  cl_jti :: string

text \<open>
  \<open>al_hash\<close> takes the salt, \<open>al_totp_ok\<close> the secret, the code and the time; a token decodes at a time,
  \<open>None\<close> is the \<open>JWTError\<close>.
\<close>

record auth_lib =
  al_hash :: "string \<Rightarrow> string \<Rightarrow> string"
  al_verify :: "string \<Rightarrow> string \<Rightarrow> bool"
  al_totp_ok :: "string \<Rightarrow> string \<Rightarrow> int \<Rightarrow> bool"
  al_jwt_encode :: "claims \<Rightarrow> string"
  al_jwt_decode :: "int \<Rightarrow> string \<Rightarrow> claims option"
  al_encrypt :: "string \<Rightarrow> string"
  al_decrypt :: "string \<Rightarrow> string option"

definition MAX_FAILED_ATTEMPTS :: int where "MAX_FAILED_ATTEMPTS = 5"
definition LOCKOUT_MINUTES :: int where "LOCKOUT_MINUTES = 30"
definition PARTIAL_TOKEN_TTL_S :: int where "PARTIAL_TOKEN_TTL_S = 300"
definition ADMIN_JWT_TTL_S :: int where "ADMIN_JWT_TTL_S = 3600"

type_synonym 'a admin_result = "(smm_exn + 'a) \<times> admin_row list"

definition seconds :: "int \<Rightarrow> int" where "seconds us = us div 1000000"

definition update_admin :: "int \<Rightarrow> (admin_row \<Rightarrow> admin_row) \<Rightarrow> admin_row list \<Rightarrow> admin_row list" where
  "update_admin aid f rows = upd_by ad_id aid f rows"

definition get_admin :: "int \<Rightarrow> admin_row list \<Rightarrow> admin_row option" where
  "get_admin aid rows = find_by ad_id aid rows"

section \<open>Tokens\<close>

definition generate_admin_jwt :: "auth_lib \<Rightarrow> int \<Rightarrow> string \<Rightarrow> admin_row \<Rightarrow> bool \<Rightarrow> string" where
  "generate_admin_jwt L now jti a partial =
     al_jwt_encode L
       \<lparr>cl_sub = str_int (ad_id a), cl_usr = ad_username a, cl_role = ad_role a, cl_partial = partial,
        cl_iat = seconds now,
        cl_exp = seconds (now + (if partial then PARTIAL_TOKEN_TTL_S else ADMIN_JWT_TTL_S) * 1000000),
        cl_jti = jti\<rparr>"

definition verify_admin_jwt :: "auth_lib \<Rightarrow> int \<Rightarrow> string \<Rightarrow> bool \<Rightarrow> smm_exn + claims" where
  "verify_admin_jwt L now token require_full =
     (case al_jwt_decode L (seconds now) token of
        None \<Rightarrow> Inl (raise_smm AdminAuthError)
      | Some c \<Rightarrow> if require_full \<and> cl_partial c then Inl (raise_smm AdminAuthError) else Inr c)"

section \<open>Accounts\<close>

definition username_char :: "char \<Rightarrow> bool" where
  "username_char c \<longleftrightarrow> is_digit c \<or> c = CHR ''_'' \<or> (of_char c :: nat) \<in> {97..122}"

definition valid_username :: "string \<Rightarrow> bool" where
  "valid_username = to_dollar (\<lambda>u. 3 \<le> length u \<and> length u \<le> 32 \<and> list_all username_char u)"

text \<open>
  The new row has no creation time, which the table requires: the flush of an account that passes
  the checks violates the constraint.
\<close>

definition create_admin :: "string \<Rightarrow> string \<Rightarrow> admin_row list \<Rightarrow> admin_row admin_result" where
  "create_admin username password rows =
     (if length password < 16
      then (Inl (raise_with ValidationError ''Password too short - minimum 16 characters.''), rows)
      else if \<not> valid_username username
      then (Inl (raise_with ValidationError ''Username must be 3-32 characters (a-z, 0-9, _).''), rows)
      else if username \<in> ad_username ` set rows
      then (Inl (raise_with ValidationError ''Username already taken.''), rows)
      else (Inl (Py ''IntegrityError''), rows))"

definition find_active :: "string \<Rightarrow> admin_row list \<Rightarrow> admin_row option" where
  "find_active username rows = find (\<lambda>a. ad_username a = username \<and> ad_is_active a) rows"

definition is_locked :: "int \<Rightarrow> admin_row \<Rightarrow> bool" where
  "is_locked now a \<longleftrightarrow> (case ad_locked_until a of None \<Rightarrow> False | Some t \<Rightarrow> now < t)"

definition count_failure :: "int \<Rightarrow> admin_row \<Rightarrow> admin_row" where
  "count_failure now a =
     (let n = ad_failed_attempts a + 1
      in a\<lparr>ad_failed_attempts := n,
           ad_locked_until := (if MAX_FAILED_ATTEMPTS \<le> n then Some (now + LOCKOUT_MINUTES * 60 * 1000000)
                               else ad_locked_until a)\<rparr>)"

definition clear_failures :: "admin_row \<Rightarrow> admin_row" where
  "clear_failures a = a\<lparr>ad_failed_attempts := 0, ad_locked_until := None\<rparr>"

definition authenticate_admin ::
  "auth_lib \<Rightarrow> int \<Rightarrow> string \<Rightarrow> string \<Rightarrow> string \<Rightarrow> admin_row list \<Rightarrow> (admin_row \<times> string) admin_result" where
  "authenticate_admin L now jti username password rows =
     (case find_active username rows of
        None \<Rightarrow> (Inl (raise_smm InvalidCredentialsError), rows)
      | Some a \<Rightarrow>
        if is_locked now a
        then (Inl (raise_with AdminLockedError ''Account locked due to 5 failed attempts.''), rows)
        else if \<not> al_verify L password (ad_password_hash a)
        then (Inl (raise_smm InvalidCredentialsError), update_admin (ad_id a) (count_failure now) rows)
        else (Inr (clear_failures a, generate_admin_jwt L now jti a (ad_totp_enabled a)),
              update_admin (ad_id a) clear_failures rows))"

definition verify_admin_totp ::
  "auth_lib \<Rightarrow> int \<Rightarrow> string \<Rightarrow> string \<Rightarrow> string \<Rightarrow> admin_row list \<Rightarrow> string admin_result" where
  "verify_admin_totp L now jti partial_token code rows =
     (case verify_admin_jwt L now partial_token False of
        Inl e \<Rightarrow> (Inl e, rows)
      | Inr c \<Rightarrow>
        if \<not> cl_partial c then (Inl (raise_smm AdminAuthError), rows)
        else case parse_int (cl_sub c) of
          None \<Rightarrow> (Inl (Py ''ValueError''), rows)
        | Some aid \<Rightarrow>
          (case get_admin aid rows of
             None \<Rightarrow> (Inl (raise_smm AdminAuthError), rows)
           | Some a \<Rightarrow>
             if \<not> ad_is_active a then (Inl (raise_smm AdminAuthError), rows)
             else case (if ad_totp_enabled a then ad_totp_secret a else None) of
               None \<Rightarrow> (Inl (raise_smm AdminAuthError), rows)
             | Some [] \<Rightarrow> (Inl (raise_smm AdminAuthError), rows)
             | Some enc \<Rightarrow>
               (case al_decrypt L enc of
                  None \<Rightarrow> (Inl (Py ''InvalidTag''), rows)
                | Some secret \<Rightarrow>
                  if \<not> al_totp_ok L secret code now
                  then (Inl (raise_with InvalidTOTPError ''Invalid authentication code. Please try again.''), rows)
                  else (Inr (generate_admin_jwt L now jti a False),
                        update_admin aid (\<lambda>a. a\<lparr>ad_last_login_at := Some now\<rparr>) rows))))"

definition setup_admin_totp ::
  "auth_lib \<Rightarrow> string \<Rightarrow> int \<Rightarrow> admin_row list \<Rightarrow> string admin_result" where
  "setup_admin_totp L secret aid rows =
     (case get_admin aid rows of
        None \<Rightarrow> (Inl (raise_smm ValidationError), rows)
      | Some a \<Rightarrow> (Inr secret, update_admin aid
          (\<lambda>a. a\<lparr>ad_totp_secret := Some (al_encrypt L secret), ad_totp_enabled := False\<rparr>) rows))"

definition confirm_admin_totp :: "auth_lib \<Rightarrow> int \<Rightarrow> int \<Rightarrow> string \<Rightarrow> admin_row list \<Rightarrow> unit admin_result" where
  "confirm_admin_totp L now aid code rows =
     (case get_admin aid rows of
        None \<Rightarrow> (Inl (raise_smm ValidationError), rows)
      | Some a \<Rightarrow>
        (case ad_totp_secret a of
           None \<Rightarrow> (Inl (raise_smm ValidationError), rows)
         | Some [] \<Rightarrow> (Inl (raise_smm ValidationError), rows)
         | Some enc \<Rightarrow>
           (case al_decrypt L enc of
              None \<Rightarrow> (Inl (Py ''InvalidTag''), rows)
            | Some secret \<Rightarrow>
              if \<not> al_totp_ok L secret code now
              then (Inl (raise_with InvalidTOTPError ''Code incorrect - please re-scan the QR code and try again.''), rows)
              else (Inr (), update_admin aid (\<lambda>a. a\<lparr>ad_totp_enabled := True\<rparr>) rows))))"

definition rotate_admin_password ::
  "auth_lib \<Rightarrow> string \<Rightarrow> int \<Rightarrow> string \<Rightarrow> string \<Rightarrow> admin_row list \<Rightarrow> unit admin_result" where
  "rotate_admin_password L salt aid current new rows =
     (if length new < 16
      then (Inl (raise_with ValidationError ''New password too short - minimum 16 characters.''), rows)
      else case get_admin aid rows of
        None \<Rightarrow> (Inl (raise_smm ValidationError), rows)
      | Some a \<Rightarrow>
        if \<not> al_verify L current (ad_password_hash a)
        then (Inl (raise_smm InvalidCredentialsError), rows)
        else if al_verify L new (ad_password_hash a)
        then (Inl (raise_with ValidationError ''New password must be different from your current password.''), rows)
        else (Inr (), update_admin aid (\<lambda>a. a\<lparr>ad_password_hash := al_hash L salt new\<rparr>) rows))"

definition deactivate_admin :: "int \<Rightarrow> admin_row list \<Rightarrow> unit admin_result" where
  "deactivate_admin aid rows =
     (case get_admin aid rows of
        None \<Rightarrow> (Inl (raise_smm ValidationError), rows)
      | Some a \<Rightarrow> (Inr (), update_admin aid (\<lambda>a. a\<lparr>ad_is_active := False\<rparr>) rows))"

section \<open>Routes\<close>

text \<open>
  The two routes open a session and never commit it: closing it rolls back what the operation
  wrote, whether it returned or raised.
\<close>

definition admin_login ::
  "auth_lib \<Rightarrow> int \<Rightarrow> string \<Rightarrow> string \<Rightarrow> string \<Rightarrow> admin_row list \<Rightarrow> (string \<times> bool) admin_result" where
  "admin_login L now jti username password rows =
     (http_of [InvalidCredentialsError, AdminLockedError] 401
        (case fst (authenticate_admin L now jti username password rows) of
           Inl e \<Rightarrow> Inl e | Inr (a, token) \<Rightarrow> Inr (token, ad_totp_enabled a)), rows)"

definition admin_totp ::
  "auth_lib \<Rightarrow> int \<Rightarrow> string \<Rightarrow> string \<Rightarrow> string \<Rightarrow> admin_row list \<Rightarrow> string admin_result" where
  "admin_totp L now jti partial_token code rows =
     (http_of [AdminAuthError, InvalidTOTPError] 401
        (fst (verify_admin_totp L now jti partial_token code rows)), rows)"

definition bearer :: "string \<Rightarrow> string" where
  "bearer authorization = (if starts_with ''Bearer '' authorization then drop 7 authorization else [])"

definition get_current_admin :: "auth_lib \<Rightarrow> int \<Rightarrow> string \<Rightarrow> smm_exn + claims" where
  "get_current_admin L now authorization =
     (let token = bearer authorization
      in if token = [] then Inl (Http 401 ''Admin authentication required'')
         else http_of [AdminAuthError] 401 (verify_admin_jwt L now token True))"

definition require_permission :: "auth_lib \<Rightarrow> permission \<Rightarrow> int \<Rightarrow> string \<Rightarrow> smm_exn + claims" where
  "require_permission L p now authorization =
     e_bind (get_current_admin L now authorization) (\<lambda>c.
       if \<not> has_permission (cl_role c) p then Inl (Http 403 (''Permission denied: '' @ permission_value p)) else Inr c)"

text \<open>What anybody can send to the sign-in, with the time and the random token id.\<close>

datatype login_request = Login int string string string | Totp int string string string

fun login_step :: "auth_lib \<Rightarrow> login_request \<Rightarrow> admin_row list \<Rightarrow> string admin_result" where
  "login_step L (Login now jti username password) rows =
     (case admin_login L now jti username password rows of
        (Inl e, rows) \<Rightarrow> (Inl e, rows) | (Inr (token, required), rows) \<Rightarrow> (Inr token, rows))"
| "login_step L (Totp now jti token code) rows = admin_totp L now jti token code rows"

fun login_run :: "auth_lib \<Rightarrow> login_request list \<Rightarrow> admin_row list \<Rightarrow> (smm_exn + string) list" where
  "login_run L [] rows = []"
| "login_run L (q # qs) rows = (let (r, rows) = login_step L q rows in r # login_run L qs rows)"

section \<open>Two factors\<close>

text \<open>
  The law of the token library: a token decodes to what was signed until its expiry. Nobody else can
  sign: what a client presents is a token it was given, or one that does not decode.
\<close>

definition jwt_law :: "auth_lib \<Rightarrow> bool" where
  "jwt_law L \<longleftrightarrow> (\<forall>t c. al_jwt_decode L t (al_jwt_encode L c) = (if t \<le> cl_exp c then Some c else None))"

definition honest :: "auth_lib \<Rightarrow> string set \<Rightarrow> login_request \<Rightarrow> bool" where
  "honest L issued q = (case q of Login _ _ _ _ \<Rightarrow> True
     | Totp now _ token _ \<Rightarrow> token \<in> issued \<or> al_jwt_decode L (seconds now) token = None)"

text \<open>The answers given so far, each with its request.\<close>

inductive answered :: "auth_lib \<Rightarrow> admin_row list \<Rightarrow> (login_request \<times> string) list \<Rightarrow> bool"
  for L :: auth_lib and rows :: "admin_row list" where
  answered_start: "answered L rows []"
| answered_refused: "answered L rows past \<Longrightarrow> fst (login_step L q rows) = Inl e \<Longrightarrow> answered L rows past"
| answered_token: "answered L rows past \<Longrightarrow> honest L (snd ` set past) q \<Longrightarrow>
    fst (login_step L q rows) = Inr token \<Longrightarrow> answered L rows ((q, token) # past)"

definition password_step :: "auth_lib \<Rightarrow> admin_row list \<Rightarrow> admin_row \<Rightarrow> login_request \<Rightarrow> bool" where
  "password_step L rows a q \<longleftrightarrow> (\<exists>now jti password. q = Login now jti (ad_username a) password \<and>
     find_active (ad_username a) rows = Some a \<and> al_verify L password (ad_password_hash a))"

definition code_step :: "auth_lib \<Rightarrow> admin_row list \<Rightarrow> admin_row \<Rightarrow> login_request \<Rightarrow> bool" where
  "code_step L rows a q \<longleftrightarrow> (\<exists>now jti token code secret. q = Totp now jti token code \<and>
     get_admin (ad_id a) rows = Some a \<and> ad_is_active a \<and>
     Option.bind (ad_totp_secret a) (al_decrypt L) = Some secret \<and> al_totp_ok L secret code now)"

text \<open>What a token says, given how it was obtained.\<close>

lemma login_token:
  assumes "fst (login_step L (Login now jti u p) rows) = Inr token"
  obtains a :: admin_row where "password_step L rows a (Login now jti u p)" and "a \<in> set rows"
    and "token = generate_admin_jwt L now jti a (ad_totp_enabled a)"
proof -
  obtain a :: admin_row where a: "find_active u rows = Some a"
    and rest: "al_verify L p (ad_password_hash a)"
      "token = generate_admin_jwt L now jti a (ad_totp_enabled a)"
    using assms
    by (auto simp: admin_login_def authenticate_admin_def http_of_def
        split: option.splits if_splits sum.splits smm_exn.splits prod.splits)
  from a have "a \<in> set rows" and "ad_username a = u"
    by (auto simp: find_active_def find_Some_iff)
  with a rest show ?thesis by (intro that [of a]) (auto simp: password_step_def)
qed

lemma http_of_Inr [simp]: "http_of cs s m = Inr x \<longleftrightarrow> m = Inr x"
  by (auto simp: http_of_def split: sum.splits smm_exn.splits)

lemma verify_jwt_Inr: "verify_admin_jwt L now token full = Inr c \<longleftrightarrow>
    al_jwt_decode L (seconds now) token = Some c \<and> (full \<longrightarrow> \<not> cl_partial c)"
  by (auto simp: verify_admin_jwt_def split: option.splits)

lemma totp_token:
  assumes "fst (login_step L (Totp now jti pt code) rows) = Inr token"
  obtains a :: admin_row and c :: claims where "code_step L rows a (Totp now jti pt code)" and "a \<in> set rows"
    and "token = generate_admin_jwt L now jti a False"
    and "al_jwt_decode L (seconds now) pt = Some c" and "cl_partial c" and "parse_int (cl_sub c) = Some (ad_id a)"
proof -
  obtain c :: claims and aid and a :: admin_row and enc secret
    where c: "al_jwt_decode L (seconds now) pt = Some c" "cl_partial c" "parse_int (cl_sub c) = Some aid"
      and a: "get_admin aid rows = Some a" "ad_is_active a"
      and s: "ad_totp_secret a = Some enc" "al_decrypt L enc = Some secret" "al_totp_ok L secret code now"
      and t: "token = generate_admin_jwt L now jti a False"
    using assms
    by (auto simp: admin_totp_def verify_admin_totp_def verify_jwt_Inr
        split: sum.splits option.splits if_splits list.splits)
  from a have "a \<in> set rows" and "ad_id a = aid" using find_by_Some by (fastforce simp: get_admin_def)+
  with c a s t show ?thesis by (intro that [of a c]) (auto simp: code_step_def)
qed

lemma honest_mono: "honest L I q \<Longrightarrow> I \<subseteq> J \<Longrightarrow> honest L J q"
  by (auto simp: honest_def split: login_request.splits)

lemma answered_entry:
  assumes "answered L rows past"
  shows "(q, t) \<in> set past \<Longrightarrow> fst (login_step L q rows) = Inr t \<and> honest L (snd ` set past) q"
  using assms by induction (auto intro: honest_mono simp: subset_insertI)

lemma jwt_decodes: "jwt_law L \<Longrightarrow> al_jwt_decode L n (generate_admin_jwt L now jti a partial) = Some c \<Longrightarrow>
    cl_partial c = partial \<and> cl_sub c = str_int (ad_id a) \<and> cl_role c = ad_role a"
  by (auto simp: jwt_law_def generate_admin_jwt_def split: if_splits)

lemma same_admin: "a \<in> set rows \<Longrightarrow> b \<in> set rows \<Longrightarrow> distinct (map ad_id rows) \<Longrightarrow> ad_id a = ad_id b \<Longrightarrow> a = b"
  by (metis find_by_in option.inject)

text \<open>A partial token that was answered came from a password.\<close>

lemma partial_from_password:
  assumes law: "jwt_law L" and past: "answered L rows past" and e: "(q, t) \<in> set past"
    and c: "al_jwt_decode L n t = Some c" "cl_partial c" "parse_int (cl_sub c) = Some (ad_id a)"
    and a: "a \<in> set rows" "distinct (map ad_id rows)"
  shows "password_step L rows a q"
proof -
  from past e have step: "fst (login_step L q rows) = Inr t" by (simp add: answered_entry)
  show ?thesis
  proof (cases q)
    case (Login now jti u p)
    with step obtain b :: admin_row where b: "password_step L rows b q" "b \<in> set rows"
      "t = generate_admin_jwt L now jti b (ad_totp_enabled b)" using login_token by metis
    with law c have "ad_id b = ad_id a" by (auto dest: jwt_decodes simp: parse_int_str_int)
    with a b same_admin show ?thesis by metis
  next
    case (Totp now jti pt code)
    with step obtain b :: admin_row where "t = generate_admin_jwt L now jti b False"
      using totp_token by metis
    with law c show ?thesis by (auto dest: jwt_decodes)
  qed
qed

lemma get_current_Inr: "get_current_admin L now h = Inr c \<longleftrightarrow>
    bearer h \<noteq> [] \<and> al_jwt_decode L (seconds now) (bearer h) = Some c \<and> \<not> cl_partial c"
  by (simp add: get_current_admin_def verify_jwt_Inr Let_def)

lemma bearer_token: "bearer (''Bearer '' @ t) = t"
  by (simp add: bearer_def starts_with_def)

lemmas bearer_cons [simp] = bearer_token [simplified append_Cons append_Nil]

text \<open>
  C25: An administrator with a second factor has a session only after both: whenever the checks of
  the admin API accept a token that the sign-in has answered as that administrator's, the request
  it answered carried a code that the administrator's TOTP secret accepts, and an earlier request
  carried the account's password. No order, repetition or mixing of the two routes, by any number
  of clients, gets around it.
\<close>

theorem full_session_needs_two_factors:
  assumes "jwt_law L" and "answered L rows past" and "(q, t) \<in> set past"
    and "get_current_admin L now (''Bearer '' @ t) = Inr c" and "cl_sub c = str_int (ad_id a)"
    and "a \<in> set rows" and "distinct (map ad_id rows)" and "ad_totp_enabled a"
  shows "code_step L rows a q \<and> (\<exists>e \<in> set past. password_step L rows a (fst e))"
proof (cases q)
  case (Login now' jti u p)
  moreover have "fst (login_step L q rows) = Inr t" using assms by (simp add: answered_entry)
  ultimately obtain b :: admin_row where b: "b \<in> set rows"
    "t = generate_admin_jwt L now' jti b (ad_totp_enabled b)" using login_token by metis
  with assms(1,4,5) have "ad_id b = ad_id a" "\<not> ad_totp_enabled b"
    by (auto simp: get_current_Inr inj_str_int dest: jwt_decodes)
  with assms b same_admin show ?thesis by metis
next
  case (Totp now' jti pt code)
  moreover have step: "fst (login_step L q rows) = Inr t" "honest L (snd ` set past) q"
    using assms by (simp_all add: answered_entry)
  ultimately obtain b :: admin_row and d :: claims where b: "code_step L rows b q" "b \<in> set rows"
      "t = generate_admin_jwt L now' jti b False"
    and d: "al_jwt_decode L (seconds now') pt = Some d" "cl_partial d" "parse_int (cl_sub d) = Some (ad_id b)"
    using totp_token by metis
  with assms(1,4,5) have "ad_id b = ad_id a"
    by (auto simp: get_current_Inr inj_str_int dest: jwt_decodes)
  with assms b have ab: "b = a" using same_admin by metis
  from step Totp d obtain q' where "(q', pt) \<in> set past" by (auto simp: honest_def)
  with d ab assms have "password_step L rows a q'" using partial_from_password by metis
  with b ab \<open>(q', pt) \<in> set past\<close> show ?thesis by force
qed

section \<open>Lockout\<close>

text \<open>What the five failures lead to when the caller keeps what each attempt wrote.\<close>

definition password_attempts ::
  "auth_lib \<Rightarrow> string \<Rightarrow> (int \<times> string \<times> string) list \<Rightarrow> admin_row list \<Rightarrow> admin_row list" where
  "password_attempts L u atts rows =
     fold (\<lambda>(now, jti, password) rows. snd (authenticate_admin L now jti u password rows)) atts rows"

lemma find_active_update:
  assumes "distinct (map ad_id rows)" and "find_active u rows = Some a"
    and "\<And>r. ad_id (f r) = ad_id r \<and> ad_username (f r) = ad_username r \<and> ad_is_active (f r) = ad_is_active r"
  shows "find_active u (update_admin (ad_id a) f rows) = Some (f a)"
  using assms
  by (induction rows) (auto simp: find_active_def update_admin_def upd_by_idle find_Some_iff split: if_splits)

lemma wrong_password:
  assumes "distinct (map ad_id rows)" and "find_active u rows = Some a" and "ad_locked_until a = None"
    and "\<not> al_verify L password (ad_password_hash a)"
  shows "let rows' = snd (authenticate_admin L now jti u password rows)
         in map ad_id rows' = map ad_id rows \<and> find_active u rows' = Some (count_failure now a)"
  using assms
proof -
  have keys: "ad_id (count_failure now r) = ad_id r \<and> ad_username (count_failure now r) = ad_username r
      \<and> ad_is_active (count_failure now r) = ad_is_active r" for r :: admin_row
    by (simp add: count_failure_def Let_def)
  then have "map ad_id (update_admin k (count_failure now) rows) = map ad_id rows" for k
    by (simp add: update_admin_def)
  then show ?thesis
    using assms by (simp add: authenticate_admin_def is_locked_def find_active_update keys)
qed

lemma failures_add_up:
  assumes "distinct (map ad_id rows)" and "find_active u rows = Some a" and "ad_locked_until a = None"
    and "\<forall>(t, j, p) \<in> set atts. \<not> al_verify L p (ad_password_hash a)"
    and "ad_failed_attempts a + int (length atts) < MAX_FAILED_ATTEMPTS"
  shows "map ad_id (password_attempts L u atts rows) = map ad_id rows \<and>
    find_active u (password_attempts L u atts rows)
      = Some (a\<lparr>ad_failed_attempts := ad_failed_attempts a + int (length atts)\<rparr>)"
  using assms
proof (induction atts arbitrary: rows a)
  case Nil
  then show ?case by (simp add: password_attempts_def)
next
  case (Cons x atts)
  obtain t j p where x: "x = (t, j, p)" by (cases x)
  define rows' where "rows' = snd (authenticate_admin L t j u p rows)"
  have one: "map ad_id rows' = map ad_id rows" "find_active u rows' = Some (count_failure t a)"
    using wrong_password [of rows u a L p t j] Cons.prems by (auto simp: x rows'_def Let_def)
  have "count_failure t a = a\<lparr>ad_failed_attempts := ad_failed_attempts a + 1\<rparr>"
    using Cons.prems by (simp add: count_failure_def Let_def)
  moreover from one Cons.prems have "distinct (map ad_id rows')" by simp
  ultimately show ?case
    using Cons.IH [of rows' "a\<lparr>ad_failed_attempts := ad_failed_attempts a + 1\<rparr>"] Cons.prems one
    by (simp add: password_attempts_def x rows'_def add.assoc add.commute [of 1])
qed

text \<open>
  With the session kept, five wrong passwords in a row lock an account that had no failures:
  for the next half hour every password is refused, the right one too, and the refusal is that of
  a locked account.
\<close>

theorem five_failures_lock:
  assumes "distinct (map ad_id rows)" and "find_active u rows = Some a" and "ad_locked_until a = None"
    and "ad_failed_attempts a = 0" and "length atts = 4"
    and "\<forall>(t, j, p) \<in> set (atts @ [(t5, j5, p5)]). \<not> al_verify L p (ad_password_hash a)"
    and "now < t5 + 30 * 60 * 1000000"
  shows "fst (authenticate_admin L now jti u password (password_attempts L u (atts @ [(t5, j5, p5)]) rows))
    = Inl (Smm AdminLockedError ''Account locked due to 5 failed attempts.'')"
proof -
  define b where "b = a\<lparr>ad_failed_attempts := 4\<rparr>"
  define mid where "mid = password_attempts L u atts rows"
  have mid: "map ad_id mid = map ad_id rows" "find_active u mid = Some b"
    using failures_add_up [of rows u a atts L] assms by (auto simp: mid_def b_def MAX_FAILED_ATTEMPTS_def)
  have "find_active u (password_attempts L u (atts @ [(t5, j5, p5)]) rows) = Some (count_failure t5 b)"
    using wrong_password [of mid u b L p5 t5 j5] mid assms
    by (auto simp: password_attempts_def mid_def [symmetric] b_def Let_def)
       (simp_all add: password_attempts_def mid_def)
  moreover have "is_locked now (count_failure t5 b)"
    using assms by (simp add: is_locked_def count_failure_def b_def MAX_FAILED_ATTEMPTS_def LOCKOUT_MINUTES_def Let_def)
  ultimately show ?thesis
    by (simp add: authenticate_admin_def raise_with_def takes_message_def)
qed

text \<open>
  The sign-in never locks anybody out. Neither route commits its session, so every answer is
  the one the request would get alone: after any number of wrong passwords the account still has
  its first failure to come, and the right password is answered with a token.
\<close>

theorem sign_in_forgets_failures:
  "login_run L qs rows = map (\<lambda>q. fst (login_step L q rows)) qs"
proof (induction qs)
  case (Cons q qs)
  have "snd (login_step L q rows) = rows"
    by (cases q) (auto simp: admin_login_def admin_totp_def split: sum.splits)
  with Cons show ?case by (simp add: case_prod_beta Let_def)
qed simp

section \<open>A run of the sign-in\<close>

text \<open>
  Concrete libraries: a token is its claims, each written with its length in front; a password hash
  is the password, a code is the secret, and nothing is encrypted.
\<close>

definition put_text :: "string \<Rightarrow> string" where
  "put_text s = replicate (length s) CHR ''x'' @ CHR ''.'' # s"

definition get_text :: "string \<Rightarrow> string \<times> string" where
  "get_text t = (let n = length (takeWhile (\<lambda>c. c = CHR ''x'') t); r = drop (n + 1) t in (take n r, drop n r))"

lemma get_put_text: "get_text (put_text s @ t) = (s, t)" "get_text (put_text s) = (s, [])"
proof -
  have "takeWhile (\<lambda>c. c = CHR ''x'') (replicate n CHR ''x'' @ CHR ''.'' # u) = replicate n CHR ''x''" for n u
    by (induction n) auto
  then show "get_text (put_text s @ t) = (s, t)" "get_text (put_text s) = (s, [])"
    by (simp_all add: get_text_def put_text_def Let_def)
qed

definition sample_encode :: "claims \<Rightarrow> string" where
  "sample_encode c = put_text (cl_sub c) @ put_text (cl_usr c) @ put_text (cl_role c) @
     put_text (if cl_partial c then ''1'' else ''0'') @ put_text (str_int (cl_iat c)) @
     put_text (str_int (cl_exp c)) @ put_text (cl_jti c)"

definition sample_decode :: "int \<Rightarrow> string \<Rightarrow> claims option" where
  "sample_decode now t =
     (let (sub, t) = get_text t; (usr, t) = get_text t; (role, t) = get_text t; (part, t) = get_text t;
          (iat, t) = get_text t; (expiry, t) = get_text t; (jti, t) = get_text t
      in case (parse_int iat, parse_int expiry) of
           (Some i, Some e) \<Rightarrow>
             if now \<le> e then Some \<lparr>cl_sub = sub, cl_usr = usr, cl_role = role, cl_partial = (part = ''1''),
               cl_iat = i, cl_exp = e, cl_jti = jti\<rparr> else None
         | _ \<Rightarrow> None)"

definition sample_lib :: auth_lib where
  "sample_lib = \<lparr>al_hash = (\<lambda>salt p. p), al_verify = (\<lambda>p h. p = h), al_totp_ok = (\<lambda>s c t. s = c),
     al_jwt_encode = sample_encode, al_jwt_decode = sample_decode, al_encrypt = (\<lambda>s. s), al_decrypt = Some\<rparr>"

lemma sample_law: "jwt_law sample_lib"
  by (simp add: jwt_law_def sample_lib_def sample_encode_def sample_decode_def get_put_text parse_int_str_int)

definition sample_admin :: admin_row where
  "sample_admin = \<lparr>ad_id = 7, ad_username = ''root'', ad_email = [], ad_password_hash = ''pw'',
     ad_totp_secret = Some ''s'', ad_totp_enabled = True, ad_is_active = True, ad_role = ''admin'',
     ad_failed_attempts = 0, ad_locked_until = None, ad_last_login_at = None\<rparr>"

definition sample_login :: login_request where "sample_login = Login 0 ''a'' ''root'' ''pw''"

definition sample_partial :: string where
  "sample_partial = generate_admin_jwt sample_lib 0 ''a'' sample_admin True"

definition sample_full :: string where
  "sample_full = generate_admin_jwt sample_lib 5000000 ''b'' sample_admin False"

definition sample_code :: login_request where "sample_code = Totp 5000000 ''b'' sample_partial ''s''"

lemma sample_login_answer: "fst (login_step sample_lib sample_login [sample_admin]) = Inr sample_partial"
  by code_simp

lemma sample_decodes:
  "al_jwt_decode sample_lib n (generate_admin_jwt sample_lib now jti sample_admin partial)
    = (let e = seconds (now + (if partial then 300 else 3600) * 1000000)
       in if n \<le> e
          then Some \<lparr>cl_sub = str_int 7, cl_usr = ''root'', cl_role = ''admin'', cl_partial = partial,
            cl_iat = seconds now, cl_exp = e, cl_jti = jti\<rparr> else None)"
  using sample_law
  by (simp add: jwt_law_def generate_admin_jwt_def sample_admin_def PARTIAL_TOKEN_TTL_S_def
      ADMIN_JWT_TTL_S_def Let_def)

lemma sample_code_answer: "fst (login_step sample_lib sample_code [sample_admin]) = Inr sample_full"
proof -
  have "get_admin 7 [sample_admin] = Some sample_admin" "ad_is_active sample_admin"
    "ad_totp_enabled sample_admin" "ad_totp_secret sample_admin = Some ''s''"
    "al_decrypt sample_lib ''s'' = Some ''s''" "al_totp_ok sample_lib ''s'' ''s'' n" for n
    by (simp_all add: get_admin_def sample_admin_def sample_lib_def)
  then show ?thesis
    by (simp add: sample_code_def sample_partial_def sample_full_def admin_totp_def verify_admin_totp_def
        verify_admin_jwt_def sample_decodes parse_int_str_int seconds_def)
qed

lemma sample_answered:
  "answered sample_lib [sample_admin] [(sample_code, sample_full), (sample_login, sample_partial)]"
proof (intro answered_token answered_start)
  show "honest sample_lib (snd ` set [(sample_login, sample_partial)]) sample_code"
    by (simp add: honest_def sample_code_def)
  show "honest sample_lib (snd ` set []) sample_login"
    by (simp add: honest_def sample_login_def)
qed (rule sample_login_answer sample_code_answer)+

definition sample_claims :: claims where
  "sample_claims = \<lparr>cl_sub = ''7'', cl_usr = ''root'', cl_role = ''admin'', cl_partial = False,
     cl_iat = 5, cl_exp = 3605, cl_jti = ''b''\<rparr>"

lemma sample_session: "get_current_admin sample_lib 6000000 (''Bearer '' @ sample_full) = Inr sample_claims"
  by code_simp

lemma full_session_needs_two_factors_witness:
  "code_step sample_lib [sample_admin] sample_admin sample_code \<and>
   (\<exists>e \<in> set [(sample_code, sample_full), (sample_login, sample_partial)].
      password_step sample_lib [sample_admin] sample_admin (fst e))"
proof (rule full_session_needs_two_factors [OF sample_law sample_answered _ sample_session])
  show "cl_sub sample_claims = str_int (ad_id sample_admin)" by code_simp
qed (simp_all add: sample_admin_def)

lemma five_failures_lock_witness:
  "fst (authenticate_admin sample_lib 100 ''j'' ''root'' ''pw''
     (password_attempts sample_lib ''root'' (replicate 4 (10, ''j'', ''guess'') @ [(50, ''j'', ''guess'')])
        [sample_admin]))
   = Inl (Smm AdminLockedError ''Account locked due to 5 failed attempts.'')"
  by (rule five_failures_lock [where a = sample_admin])
     (simp_all add: sample_admin_def sample_lib_def find_active_def)

end
