(* ===== verification/OrderForm.thy ===== *)
theory OrderForm
  imports Shop Storefront "HOL-Library.Sublist"
begin

text \<open>
  The order form of the bot (\<open>app/bot/handlers/services.py\<close>): a conversation in which a customer
  picks a service and gives the target, the quantity, what the service type asks for and a coupon,
  sees the price and confirms. The state of a conversation is aiogram's: a state name and a
  dictionary, kept in memory per user and chat; it is not rolled back with the database session.
  Texts, keyboards and advertisements are left out; a reply is what it shows.
\<close>

section \<open>Texts\<close>

text \<open>\<open>f'{n:,}'\<close>, and the escaping of a text for a message in HTML.\<close>

definition with_commas :: "int \<Rightarrow> string" where
  "with_commas n = (if n < 0 then ''-'' else []) @ rev (commas_rev (rev (digits_nat (nat \<bar>n\<bar>))))"

definition menu_escape :: "string \<Rightarrow> string" where
  "menu_escape t = concat (map (\<lambda>c.
     if c = CHR ''&'' then ''&amp;'' else if c = CHR ''<'' then ''&lt;''
     else if c = CHR ''>'' then ''&gt;'' else [c]) t)"

section \<open>Conversations\<close>

text \<open>The states of the order form, and those of the dialogs of partners and administrators.\<close>

datatype form_state = No_form | At_link | At_qty | At_comments | At_mentions | At_coupon | At_confirm
  | At_pitch string | At_payout string | Adm_user | Adm_amount | Adm_reason

text \<open>The dictionary, with one field per key; \<open>None\<close> is a missing key.\<close>

record form_data =
  fd_service :: "string option"
  fd_link :: "string option"
  fd_quantity :: "int option"
  fd_comments :: "string option"
  fd_mentions :: "string option"
  fd_coupon :: "string option"
  fd_extra :: json_object
  fd_quoted :: "int option"
  fd_mode :: "string option"
  fd_target :: "int option"
  fd_amount :: "int option"

definition no_data :: form_data where
  "no_data = \<lparr>fd_service = None, fd_link = None, fd_quantity = None, fd_comments = None,
     fd_mentions = None, fd_coupon = None, fd_extra = [], fd_quoted = None,
     fd_mode = None, fd_target = None, fd_amount = None\<rparr>"

type_synonym chat = "form_state \<times> form_data"

text \<open>\<open>state.clear()\<close>.\<close>

definition cleared :: chat where "cleared = (No_form, no_data)"

definition KeyError :: exn where "KeyError = OtherError ''KeyError''"
definition TelegramError :: exn where "TelegramError = OtherError ''TelegramAPIError''"

text \<open>\<open>data[k]\<close>.\<close>

definition required :: "'a option \<Rightarrow> 'a res" where
  "required x = (case x of None \<Rightarrow> Inl KeyError | Some v \<Rightarrow> Inr v)"

datatype bot_reply =
    Nothing
  | Said string
  | Alert string
  | Screen screen
  | Category_list "category_row list"
  | Service_list "service_row list"
  | Service_card service_row price_quote
  | Ask_link service_row
  | Ask_quantity service_row
  | Confirm_card form_data price_quote int
  | Placed order_row
  | Order_card order_row
  | Order_list "order_row list" int bool
  | Cancel_card order_row
  | Wallet_card wallet_snapshot
  | Ledger_list "ledger_entry list"
  | Invoice payment_row
  | Payment_done wallet_snapshot
  | Profile_card user_row
  | Settings_card bool
  | Stats_card "(string \<times> int) list"
  | Rewards_card referral_snapshot
  | Reseller_card reseller_snapshot
  | Promoter_card promoter_snapshot
  | User_list "user_row list"
  | User_card user_row
  | Switches "(string \<times> bool) list"
  | Application_list "role_application list"
  | Dashboard "(string \<times> int) list" "(string \<times> bool) list"
  | Reports "sync_report list"

text \<open>
  What an update brings from outside: the settings, the clock and the digest, the sender, and whether
  Telegram takes the reply; when it does not, the handler raises.
\<close>

record bot_env =
  be_settings :: settings
  be_code :: "string \<Rightarrow> nat list"
  be_orders :: order_env
  be_text :: "json \<Rightarrow> string"
  be_user :: telegram_user
  be_delivered :: bool

abbreviation be_now :: "bot_env \<Rightarrow> int" where "be_now env \<equiv> env_now (be_orders env)"
abbreviation be_uid :: "bot_env \<Rightarrow> int" where "be_uid env \<equiv> tu_id (be_user env)"

text \<open>
  A handler gives the conversation it leaves behind, and either its reply and the rows to commit or
  an exception, after which the session is rolled back.
\<close>

type_synonym bot_result = "chat \<times> (bot_reply \<times> db) res"

definition deliver :: "bot_env \<Rightarrow> chat \<Rightarrow> bot_reply \<Rightarrow> db \<Rightarrow> bot_result" where
  "deliver env ch reply s = (ch, if be_delivered env then Inr (reply, s) else Inl TelegramError)"

text \<open>A step whose failure ends the handler in the conversation \<open>ch\<close>.\<close>

definition or_fail :: "chat \<Rightarrow> 'a res \<Rightarrow> ('a \<Rightarrow> bot_result) \<Rightarrow> bot_result" where
  "or_fail ch m f = (case m of Inl e \<Rightarrow> (ch, Inl e) | Inr x \<Rightarrow> f x)"

lemma or_fail_simps [simp]:
  "or_fail ch (Inl e) f = (ch, Inl e)"
  "or_fail ch (Inr x) f = f x"
  by (simp_all add: or_fail_def)

definition register :: "bot_env \<Rightarrow> db \<Rightarrow> (int \<times> db) res" where
  "register env s = ensure_user (be_code env) (be_settings env) (be_user env) s"

text \<open>\<open>menu_kb_for\<close> writes the owner's partner rows when they are missing.\<close>

definition menu_kb_for :: "bot_env \<Rightarrow> int \<Rightarrow> db \<Rightarrow> db res" where
  "menu_kb_for env uid s =
     e_bind (partner_flags (owner_telegram_id (be_settings env)) uid s) (\<lambda>(flags, s). Inr s)"

section \<open>Browsing\<close>

definition cb_services :: "bot_env \<Rightarrow> chat \<Rightarrow> db \<Rightarrow> bot_result" where
  "cb_services env ch s =
     (let cats = list_categories True s
      in deliver env cleared
           (if cats = [] then Said ''No categories are available yet.'' else Category_list cats) s)"

definition cb_category :: "bot_env \<Rightarrow> string \<Rightarrow> chat \<Rightarrow> db \<Rightarrow> bot_result" where
  "cb_category env cid ch s =
     (let svcs = list_services True cid s
      in deliver env cleared
           (if svcs = [] then Category_list (list_categories True s) else Service_list svcs) s)"

definition available_service :: "string \<Rightarrow> db \<Rightarrow> service_row option" where
  "available_service sid s =
     (case get_service s sid of None \<Rightarrow> None | Some v \<Rightarrow> if s_is_active v then Some v else None)"

definition cb_service_view :: "bot_env \<Rightarrow> string \<Rightarrow> chat \<Rightarrow> db \<Rightarrow> bot_result" where
  "cb_service_view env sid ch s =
     (case available_service sid s of
        None \<Rightarrow> deliver env cleared (Alert ''Service unavailable'') s
      | Some v \<Rightarrow>
          or_fail cleared (quote_order s (be_now env) (s_id v) (s_min_qty v) (Some (be_uid env)) None)
            (\<lambda>q. deliver env cleared (Service_card v q) s))"

definition cb_service_order :: "bot_env \<Rightarrow> string \<Rightarrow> chat \<Rightarrow> db \<Rightarrow> bot_result" where
  "cb_service_order env sid ch s =
     (case available_service sid s of
        None \<Rightarrow> deliver env ch (Alert ''Service unavailable'') s
      | Some v \<Rightarrow> deliver env (At_link, no_data\<lparr>fd_service := Some (s_id v)\<rparr>) (Ask_link v) s)"

section \<open>The form\<close>

definition cancels :: "string \<Rightarrow> bool" where
  "cancels t \<longleftrightarrow> starts_with ''/cancel'' t"

definition order_cancelled :: "bot_env \<Rightarrow> db \<Rightarrow> bot_result" where
  "order_cancelled env s = deliver env cleared (Said ''Order cancelled.'') s"

definition service_gone :: "bot_env \<Rightarrow> db \<Rightarrow> bot_result" where
  "service_gone env s = deliver env cleared (Said ''Service no longer available.'') s"

text \<open>The text of a message; \<open>None\<close> or empty for a photo, a sticker and the like.\<close>

definition said :: "string option \<Rightarrow> string" where
  "said t = (case t of None \<Rightarrow> [] | Some t \<Rightarrow> t)"

definition form_link :: "bot_env \<Rightarrow> string option \<Rightarrow> form_data \<Rightarrow> db \<Rightarrow> bot_result" where
  "form_link env text d s =
     (let t = said text; d' = d\<lparr>fd_link := Some (strip t)\<rparr>
      in if t = [] \<or> starts_with ''/'' t
         then if cancels t then order_cancelled env s
              else deliver env (At_link, d) (Said ''Please send a link, or /cancel.'') s
         else or_fail (At_link, d') (required (fd_service d')) (\<lambda>sid.
           case get_service s sid of
             None \<Rightarrow> service_gone env s
           | Some v \<Rightarrow> deliver env (At_qty, d') (Ask_quantity v) s))"

text \<open>The state after the quantity, and the one after the comments.\<close>

definition needs_comments :: "service_row \<Rightarrow> bool" where
  "needs_comments v \<longleftrightarrow> lower (s_service_type v) \<in> set [''comments'', ''custom_comments'']"

definition needs_mentions :: "service_row \<Rightarrow> bool" where
  "needs_mentions v \<longleftrightarrow> lower (s_service_type v) \<in> set [''mentions'', ''comment_mentions'']"

definition question :: "form_state \<Rightarrow> string" where
  "question st = (case st of
     At_comments \<Rightarrow> ''Send the comments, one per line.''
   | At_mentions \<Rightarrow> ''Send usernames to mention, separated by spaces or commas.''
   | _ \<Rightarrow> ''Coupon code? Send the code, or type <b>skip</b>.'')"

definition ask_next :: "bot_env \<Rightarrow> form_state \<Rightarrow> form_data \<Rightarrow> db \<Rightarrow> bot_result" where
  "ask_next env st d s = deliver env (st, d) (Said (question st)) s"

definition form_qty :: "bot_env \<Rightarrow> string option \<Rightarrow> form_data \<Rightarrow> db \<Rightarrow> bot_result" where
  "form_qty env text d s =
     (let raw = strip (filter (\<lambda>c. c \<noteq> CHR '','') (said text))
      in if cancels raw then order_cancelled env s
         else case parse_int raw of
           None \<Rightarrow> deliver env (At_qty, d) (Said ''Send a whole number for quantity.'') s
         | Some n \<Rightarrow>
             or_fail (At_qty, d) (required (fd_service d)) (\<lambda>sid.
             case get_service s sid of
               None \<Rightarrow> service_gone env s
             | Some v \<Rightarrow>
               if n < s_min_qty v \<or> s_max_qty v < n
               then deliver env (At_qty, d) 
                 (Said (''Quantity must be between '' @ with_commas (s_min_qty v) @ '' and ''
                    @ with_commas (s_max_qty v) @ ''.'')) s
               else ask_next env
                 (if needs_comments v then At_comments else if needs_mentions v then At_mentions else At_coupon)
                 (d\<lparr>fd_quantity := Some n\<rparr>) s))"

definition form_comments :: "bot_env \<Rightarrow> string option \<Rightarrow> form_data \<Rightarrow> db \<Rightarrow> bot_result" where
  "form_comments env text d s =
     (let t = said text; d' = d\<lparr>fd_comments := Some t\<rparr>
      in if t = [] \<or> cancels t then order_cancelled env s
         else or_fail (At_comments, d') (required (fd_service d')) (\<lambda>sid.
           ask_next env
             (case get_service s sid of
                Some v \<Rightarrow> if needs_mentions v then At_mentions else At_coupon | None \<Rightarrow> At_coupon) d' s))"

definition form_mentions :: "bot_env \<Rightarrow> string option \<Rightarrow> form_data \<Rightarrow> db \<Rightarrow> bot_result" where
  "form_mentions env text d s =
     (let t = said text
      in if t = [] \<or> cancels t then order_cancelled env s
         else ask_next env At_coupon (d\<lparr>fd_mentions := Some t\<rparr>) s)"

definition coupon_of :: "string option \<Rightarrow> string option" where
  "coupon_of text =
     (let raw = strip (said text)
      in if lower raw \<in> set [''skip'', ''-'', ''none'', ''no''] then None else Some raw)"

definition extra_of :: "form_data \<Rightarrow> json_object" where
  "extra_of d =
     (case fd_comments d of Some (c # cs) \<Rightarrow> [(''comments'', JStr (c # cs))] | _ \<Rightarrow> []) @
     (case fd_mentions d of Some (c # cs) \<Rightarrow> [(''mentions'', JStr (c # cs))] | _ \<Rightarrow> [])"

text \<open>The quote that is shown, and the data that the confirmation will read.\<close>

definition form_quote :: "bot_env \<Rightarrow> string option \<Rightarrow> form_data \<Rightarrow> db \<Rightarrow> price_quote res" where
  "form_quote env coupon d s =
     e_bind (required (fd_service d)) (\<lambda>sid.
     e_bind (required (fd_quantity d)) (\<lambda>n.
       quote_order s (be_now env) sid n (Some (be_uid env)) coupon))"

definition form_coupon :: "bot_env \<Rightarrow> string option \<Rightarrow> form_data \<Rightarrow> db \<Rightarrow> bot_result" where
  "form_coupon env text d s =
     (if text \<noteq> None \<and> cancels (said text) then order_cancelled env s
      else case form_quote env (coupon_of text) d s of
        Inl (ValueError m) \<Rightarrow> deliver env (At_coupon, d) (Said (m @ newline @ ''Send another code, or type skip.'')) s
      | Inl e \<Rightarrow> ((At_coupon, d), Inl e)
      | Inr q \<Rightarrow>
          or_fail (At_coupon, d) (register env s) (\<lambda>(uid, s).
          or_fail (At_coupon, d) (lock_user uid s) (\<lambda>u.
            let d' = d\<lparr>fd_coupon := q_coupon_code q, fd_extra := extra_of d,
                  fd_quoted := Some (q_charge_paise q)\<rparr>
            in deliver env (At_confirm, d') (Confirm_card d' q (available_paise u)) s)))"

text \<open>
  The confirmation. The engine raises the caught exceptions before it writes anything, so what the
  handler commits then is the registration.
\<close>

definition form_request :: "form_data \<Rightarrow> int \<Rightarrow> string \<Rightarrow> place_request res" where
  "form_request d uid pid =
     e_bind (required (fd_service d)) (\<lambda>sid.
     e_bind (required (fd_link d)) (\<lambda>link.
     e_bind (required (fd_quantity d)) (\<lambda>n. Inr
       \<lparr>pr_user = uid, pr_service = sid, pr_link = link, pr_quantity = n, pr_extra = fd_extra d,
        pr_coupon = fd_coupon d, pr_client_key = None, pr_public_id = pid\<rparr>)))"

definition confirm_outcome ::
  "bot_env \<Rightarrow> form_data \<Rightarrow> int \<Rightarrow> db \<Rightarrow> (int \<times> db) res \<Rightarrow> bot_result" where
  "confirm_outcome env d uid s placed =
     (case placed of
        Inl (InsufficientFunds m) \<Rightarrow>
          or_fail cleared (menu_kb_for env uid s) (\<lambda>s.
            deliver env cleared (Said ''Insufficient balance. Deposit funds and try again.'') s)
      | Inl (OrderError m) \<Rightarrow> deliver env cleared (Said (''Could not place order: '' @ menu_escape m)) s
      | Inl (PermissionError m) \<Rightarrow> deliver env cleared (Said (''Could not place order: '' @ menu_escape m)) s
      | Inl (ValueError m) \<Rightarrow> deliver env cleared (Said (''Could not place order: '' @ menu_escape m)) s
      | Inl e \<Rightarrow> ((At_confirm, d), Inl e)
      | Inr (oid, s) \<Rightarrow>
          or_fail cleared (with_order oid s Inr) (\<lambda>r.
          or_fail cleared (menu_kb_for env uid s) (\<lambda>s. deliver env cleared (Placed r) s)))"

definition cb_confirm_order ::
  "bot_env \<Rightarrow> string \<Rightarrow> string \<Rightarrow> string res \<Rightarrow> chat \<Rightarrow> db \<Rightarrow> bot_result" where
  "cb_confirm_order env sid pid answer ch s =
     (if fst ch \<noteq> At_confirm
      then deliver env ch (Alert ''This confirmation expired. Start again.'') s
      else if fd_service (snd ch) \<noteq> Some sid
      then deliver env ch (Alert ''Mismatched confirmation.'') s
      else or_fail ch (register env s) (\<lambda>(uid, s).
        or_fail ch (form_request (snd ch) uid pid) (\<lambda>q.
          confirm_outcome env (snd ch) uid s (place_order (be_orders env) q answer s))))"

definition cmd_cancel_form :: "bot_env \<Rightarrow> chat \<Rightarrow> db \<Rightarrow> bot_result" where
  "cmd_cancel_form env ch s =
     (if fst ch = No_form then (ch, Inr (Nothing, s))
      else or_fail cleared (register env s) (\<lambda>(uid, s).
        or_fail cleared (menu_kb_for env uid s) (\<lambda>s. deliver env cleared (Said ''Cancelled.'') s)))"

text \<open>The handler of a message, by the state of the conversation.\<close>

definition form_message :: "bot_env \<Rightarrow> string option \<Rightarrow> chat \<Rightarrow> db \<Rightarrow> bot_result" where
  "form_message env text ch s =
     (let d = snd ch in
      case fst ch of
        At_link \<Rightarrow> form_link env text d s
      | At_qty \<Rightarrow> form_qty env text d s
      | At_comments \<Rightarrow> form_comments env text d s
      | At_mentions \<Rightarrow> form_mentions env text d s
      | At_coupon \<Rightarrow> form_coupon env text d s
      | _ \<Rightarrow> if to_dollar (\<lambda>t. t = ''/cancel'') (said text) then cmd_cancel_form env ch s else (ch, Inr (Nothing, s)))"

section \<open>A conversation\<close>

datatype form_event =
    Browse
  | Category string
  | View string
  | Order string
  | Confirm string string "string res"
  | Message "string option"

fun form_step :: "bot_env \<Rightarrow> form_event \<Rightarrow> chat \<Rightarrow> db \<Rightarrow> bot_result" where
  "form_step env Browse ch s = cb_services env ch s"
| "form_step env (Category cid) ch s = cb_category env cid ch s"
| "form_step env (View sid) ch s = cb_service_view env sid ch s"
| "form_step env (Order sid) ch s = cb_service_order env sid ch s"
| "form_step env (Confirm sid pid answer) ch s = cb_confirm_order env sid pid answer ch s"
| "form_step env (Message text) ch s = form_message env text ch s"

text \<open>
  The updates that arrived so far, the latest first, each with the rows that it met, and the
  conversation they left. The rows are whatever they are when an update arrives, except that a
  service is found under its id, and Telegram may refuse any reply.
\<close>

definition service_keys :: "db \<Rightarrow> bool" where
  "service_keys s \<longleftrightarrow> (\<forall>sid v. services s sid = Some v \<longrightarrow> s_id v = sid)"

type_synonym form_update = "form_event \<times> bot_env \<times> db"

inductive chat_trace :: "form_update list \<Rightarrow> chat \<Rightarrow> bool" where
  trace_start: "chat_trace [] cleared"
| trace_step: "chat_trace ups ch \<Longrightarrow> service_keys s \<Longrightarrow> fst (form_step env ev ch s) = ch' \<Longrightarrow>
    chat_trace ((ev, env, s) # ups) ch'"

text \<open>The number in a message, thousands separated by commas or not.\<close>

definition quantity_of :: "string \<Rightarrow> int option" where
  "quantity_of t = parse_int (strip (filter (\<lambda>c. c \<noteq> CHR '','') t))"

text \<open>
  The texts that a form holds. \<open>us\<close> are the updates that gave the quantity, the target and the
  service; \<open>v\<close> is the service as it was when the quantity was sent.
\<close>

definition picks_link :: "form_update list \<Rightarrow> string \<Rightarrow> string \<Rightarrow> bool" where
  "picks_link us sid link \<longleftrightarrow> (\<exists>e1 s1 e0 s0. us = [(Message (Some link), e1, s1), (Order sid, e0, s0)] \<and>
     available_service sid s0 \<noteq> None \<and> link \<noteq> [] \<and> \<not> starts_with ''/'' link)"

definition picks_quantity :: "form_update list \<Rightarrow> service_row \<Rightarrow> form_data \<Rightarrow> bool" where
  "picks_quantity us v d \<longleftrightarrow> (\<exists>us1 qty env s sid link n. us = (Message (Some qty), env, s) # us1 \<and>
     picks_link us1 sid link \<and> quantity_of qty = Some n \<and> services s sid = Some v \<and>
     s_min_qty v \<le> n \<and> n \<le> s_max_qty v \<and>
     d = no_data\<lparr>fd_service := Some sid, fd_link := Some (strip link), fd_quantity := Some n\<rparr>)"

text \<open>A question that was answered by one message, or was not asked.\<close>

definition gave :: "form_update list \<Rightarrow> string option \<Rightarrow> bool" where
  "gave us x \<longleftrightarrow> (case x of None \<Rightarrow> us = [] | Some t \<Rightarrow> t \<noteq> [] \<and> (\<exists>env s. us = [(Message (Some t), env, s)]))"

text \<open>
  Comments are asked for when the service asked for them as the quantity was sent; mentions, when
  it asked for them at the last answer before.
\<close>

definition mentions_due :: "service_row \<Rightarrow> form_update list \<Rightarrow> bool" where
  "mentions_due v cu \<longleftrightarrow> (case cu of [] \<Rightarrow> needs_mentions v
     | (_, _, s) # _ \<Rightarrow> \<exists>v'. services s (s_id v) = Some v' \<and> needs_mentions v')"

definition picks_comments :: "form_update list \<Rightarrow> bool \<Rightarrow> form_data \<Rightarrow> bool" where
  "picks_comments us due d \<longleftrightarrow> (\<exists>cu us1 v d1. us = cu @ us1 \<and> picks_quantity us1 v d1 \<and>
     gave cu (fd_comments d) \<and> (fd_comments d \<noteq> None \<longleftrightarrow> needs_comments v) \<and>
     due = mentions_due v cu \<and> d = d1\<lparr>fd_comments := fd_comments d\<rparr>)"

definition picks_mentions :: "form_update list \<Rightarrow> form_data \<Rightarrow> bool" where
  "picks_mentions us d \<longleftrightarrow> (\<exists>mu us1 d1 due. us = mu @ us1 \<and> picks_comments us1 due d1 \<and>
     gave mu (fd_mentions d) \<and> (fd_mentions d \<noteq> None \<longleftrightarrow> due) \<and> d = d1\<lparr>fd_mentions := fd_mentions d\<rparr>)"

definition picks_coupon :: "form_update list \<Rightarrow> form_data \<Rightarrow> bool" where
  "picks_coupon us d \<longleftrightarrow> (\<exists>cpn env s us1 d1 q. us = (Message cpn, env, s) # us1 \<and> picks_mentions us1 d1 \<and>
     form_quote env (coupon_of cpn) d1 s = Inr q \<and>
     d = d1\<lparr>fd_coupon := q_coupon_code q, fd_extra := extra_of d1, fd_quoted := Some (q_charge_paise q)\<rparr>)"

text \<open>The updates of the form are among those that arrived, in this order.\<close>

definition given_coupon :: "form_update list \<Rightarrow> form_data \<Rightarrow> bool" where
  "given_coupon ups d \<longleftrightarrow> (\<exists>us. subseq us ups \<and> picks_coupon us d)"

definition form_inv :: "form_update list \<Rightarrow> chat \<Rightarrow> bool" where
  "form_inv ups ch \<longleftrightarrow> (case ch of
     (At_link, d) \<Rightarrow> \<exists>sid env s. subseq [(Order sid, env, s)] ups \<and> available_service sid s \<noteq> None \<and>
       d = no_data\<lparr>fd_service := Some sid\<rparr>
   | (At_qty, d) \<Rightarrow> \<exists>us sid link. subseq us ups \<and> picks_link us sid link \<and>
       d = no_data\<lparr>fd_service := Some sid, fd_link := Some (strip link)\<rparr>
   | (At_comments, d) \<Rightarrow> \<exists>us v. subseq us ups \<and> picks_quantity us v d \<and> needs_comments v \<and> s_id v = the (fd_service d)
   | (At_mentions, d) \<Rightarrow> \<exists>us. subseq us ups \<and> picks_comments us True d
   | (At_coupon, d) \<Rightarrow> \<exists>us. subseq us ups \<and> picks_mentions us d
   | (At_confirm, d) \<Rightarrow> given_coupon ups d
   | _ \<Rightarrow> True)"

lemma fst_deliver [simp]: "fst (deliver env ch r s) = ch"
  by (simp add: deliver_def)

lemma fst_or_fail: "fst (or_fail ch m f) = (case m of Inl e \<Rightarrow> ch | Inr x \<Rightarrow> fst (f x))"
  by (simp add: or_fail_def split: sum.split)

lemma form_inv_mono: "form_inv ups ch \<Longrightarrow> form_inv (up # ups) ch"
  unfolding form_inv_def given_coupon_def
  by (auto split: form_state.splits prod.splits intro: list_emb_Cons; blast intro: list_emb_Cons)

lemma form_inv_cleared [simp]: "form_inv ups cleared" "form_inv ups (No_form, d)"
  by (simp_all add: form_inv_def cleared_def)

lemma gave_simps [simp]:
  "gave [] x \<longleftrightarrow> x = None" "gave us None \<longleftrightarrow> us = []"
  "gave [(Message (Some t), env, s)] (Some t) \<longleftrightarrow> t \<noteq> []"
  by (auto simp: gave_def split: option.split)

lemma mentions_due_simps [simp]:
  "mentions_due v [] = needs_mentions v"
  "mentions_due v ((ev, env, s) # us) = (\<exists>v'. services s (s_id v) = Some v' \<and> needs_mentions v')"
  by (simp_all add: mentions_due_def)

text \<open>No service asks for comments and mentions at once.\<close>

lemma needs_one: "needs_mentions v \<Longrightarrow> \<not> needs_comments v"
  by (auto simp: needs_mentions_def needs_comments_def)

lemma picks_quantity_fields:
  assumes "picks_quantity us v d"
  shows "fd_comments d = None" "fd_mentions d = None" "fd_service d \<noteq> None" "d\<lparr>fd_comments := None\<rparr> = d"
    "d\<lparr>fd_mentions := None\<rparr> = d"
  using assms by (auto simp: picks_quantity_def no_data_def)

lemma picks_comments_fields:
  assumes "picks_comments us due d"
  shows "fd_mentions d = None" "fd_service d \<noteq> None" "d\<lparr>fd_mentions := None\<rparr> = d"
proof -
  obtain us1 v d1 x where q: "picks_quantity us1 v d1" and d: "d = d1\<lparr>fd_comments := x\<rparr>"
    using assms unfolding picks_comments_def by metis
  then show "fd_mentions d = None" "fd_service d \<noteq> None" "d\<lparr>fd_mentions := None\<rparr> = d"
    using picks_quantity_fields [OF q] by (auto simp: picks_quantity_def no_data_def)
qed

text \<open>How the given texts add up.\<close>

lemma picks_no_comments:
  assumes "picks_quantity us v d" and "\<not> needs_comments v"
  shows "picks_comments us (needs_mentions v) d"
  unfolding picks_comments_def
  using assms picks_quantity_fields [OF assms(1)] by (intro exI [of _ "[]"] exI [of _ us] exI [of _ v] exI [of _ d]) simp

lemma picks_one_comments:
  assumes "picks_quantity us v d" and "needs_comments v" and "t \<noteq> []"
  shows "picks_comments ((Message (Some t), env, s) # us) (\<exists>v'. services s (s_id v) = Some v' \<and> needs_mentions v')
    (d\<lparr>fd_comments := Some t\<rparr>)"
  unfolding picks_comments_def
  using assms by (intro exI [of _ "[(Message (Some t), env, s)]"] exI [of _ us] exI [of _ v] exI [of _ d]) simp

lemma picks_no_mentions:
  assumes "picks_comments us False d"
  shows "picks_mentions us d"
  unfolding picks_mentions_def
  using assms picks_comments_fields [OF assms] by (intro exI [of _ "[]"] exI [of _ us] exI [of _ d] exI [of _ False]) simp

lemma picks_one_mentions:
  assumes "picks_comments us True d" and "t \<noteq> []"
  shows "picks_mentions ((Message (Some t), env, s) # us) (d\<lparr>fd_mentions := Some t\<rparr>)"
  unfolding picks_mentions_def
  using assms by (intro exI [of _ "[(Message (Some t), env, s)]"] exI [of _ us] exI [of _ d] exI [of _ True]) simp

lemma form_link_inv:
  assumes "form_inv ups (At_link, d)"
  shows "form_inv ((Message text, env, s) # ups) (fst (form_link env text d s))"
proof -
  let ?ups = "(Message text, env, s) # ups"
  obtain sid e0 s0 where d: "subseq [(Order sid, e0, s0)] ups" "available_service sid s0 \<noteq> None"
      "d = no_data\<lparr>fd_service := Some sid\<rparr>"
    using assms by (auto simp: form_inv_def)
  let ?d = "d\<lparr>fd_link := Some (strip (said text))\<rparr>"
  have keep: "form_inv ?ups (At_link, d)" using assms by (rule form_inv_mono)
  have "form_inv ?ups (At_qty, ?d)" if t: "said text \<noteq> []" "\<not> starts_with ''/'' (said text)"
  proof -
    have some: "text = Some (said text)" using t(1) by (cases "text") (simp_all add: said_def)
    have "subseq [(Message text, env, s), (Order sid, e0, s0)] ?ups" using d(1) by simp
    moreover have "picks_link [(Message text, env, s), (Order sid, e0, s0)] sid (said text)"
      unfolding picks_link_def using some t d(2) by auto
    ultimately show ?thesis using d(3) by (auto simp: form_inv_def)
  qed
  then show ?thesis using keep d(3)
    by (auto simp: form_link_def Let_def fst_or_fail order_cancelled_def service_gone_def required_def
        no_data_def split: option.splits)
qed

lemma form_qty_inv:
  assumes "form_inv ups (At_qty, d)" and "service_keys s"
  shows "form_inv ((Message text, env, s) # ups) (fst (form_qty env text d s))"
proof -
  let ?ups = "(Message text, env, s) # ups"
  obtain us sid link where d: "subseq us ups" "picks_link us sid link"
      "d = no_data\<lparr>fd_service := Some sid, fd_link := Some (strip link)\<rparr>"
    using assms(1) by (auto simp: form_inv_def)
  have keep: "form_inv ?ups (At_qty, d)" using assms(1) by (rule form_inv_mono)
  let ?us = "(Message text, env, s) # us"
  have sub: "subseq ?us ?ups" using d(1) by simp
  have "form_inv ?ups (if needs_comments v then At_comments else if needs_mentions v then At_mentions else At_coupon,
      d\<lparr>fd_quantity := Some n\<rparr>)"
    if n: "quantity_of (said text) = Some n" and v: "services s sid = Some v" "s_min_qty v \<le> n" "n \<le> s_max_qty v" for n v
  proof -
    have "quantity_of [] = None" by code_simp
    with n have some: "text = Some (said text)" by (cases "text") (simp_all add: said_def)
    have q: "picks_quantity ?us v (d\<lparr>fd_quantity := Some n\<rparr>)"
      unfolding picks_quantity_def using some n v d(2,3) by auto
    have "s_id v = sid" using assms(2) v(1) by (simp add: service_keys_def)
    then show ?thesis
      using q picks_no_comments [OF q] picks_no_mentions [of ?us] sub d(3)
      by (cases "needs_comments v"; cases "needs_mentions v") (auto simp: form_inv_def)
  qed
  note next_state = this
  show ?thesis
  proof (cases "quantity_of (said text)")
    case None
    then show ?thesis using keep
      by (auto simp: form_qty_def quantity_of_def Let_def order_cancelled_def)
  next
    case (Some n)
    show ?thesis
    proof (cases "services s sid")
      case None
      then show ?thesis using Some keep d(3)
        by (auto simp: form_qty_def quantity_of_def Let_def order_cancelled_def fst_or_fail required_def
            get_service_def service_gone_def)
    next
      case v: (Some v)
      then show ?thesis using Some keep d(3) next_state [OF Some v]
        by (auto simp: form_qty_def quantity_of_def Let_def order_cancelled_def fst_or_fail required_def
            get_service_def ask_next_def not_less)
    qed
  qed
qed

lemma form_comments_inv:
  assumes "form_inv ups (At_comments, d)"
  shows "form_inv ((Message text, env, s) # ups) (fst (form_comments env text d s))"
proof -
  let ?ups = "(Message text, env, s) # ups" and ?d = "d\<lparr>fd_comments := Some (said text)\<rparr>"
  obtain us v where q: "subseq us ups" "picks_quantity us v d" "needs_comments v" and sid: "fd_service d = Some (s_id v)"
    using assms picks_quantity_fields(3) by (fastforce simp: form_inv_def)
  have sub: "subseq ((Message text, env, s) # us) ?ups" using q(1) by simp
  let ?due = "\<exists>v'. services s (s_id v) = Some v' \<and> needs_mentions v'"
  have "form_inv ?ups (if ?due then At_mentions else At_coupon, ?d)" if t: "said text \<noteq> []"
  proof -
    have some: "text = Some (said text)" using t by (cases "text") (simp_all add: said_def)
    have c: "picks_comments ((Message text, env, s) # us) ?due ?d"
      using picks_one_comments [OF q(2,3) t, of env s] some by simp
    show ?thesis
    proof (cases ?due)
      case True
      with c sub show ?thesis by (auto simp: form_inv_def)
    next
      case False
      then have "picks_comments ((Message text, env, s) # us) False ?d" using c by (simp only: simp_thms)
      from picks_no_mentions [OF this] sub False show ?thesis by (auto simp: form_inv_def)
    qed
  qed
  moreover have "(case get_service s (s_id v) of Some v' \<Rightarrow> if needs_mentions v' then At_mentions else At_coupon
      | None \<Rightarrow> At_coupon) = (if ?due then At_mentions else At_coupon)"
    by (simp add: get_service_def split: option.split)
  ultimately show ?thesis
    by (auto simp: form_comments_def Let_def fst_or_fail order_cancelled_def ask_next_def required_def sid)
qed

lemma form_mentions_inv:
  assumes "form_inv ups (At_mentions, d)"
  shows "form_inv ((Message text, env, s) # ups) (fst (form_mentions env text d s))"
proof -
  let ?ups = "(Message text, env, s) # ups"
  obtain us where us: "subseq us ups" "picks_comments us True d" using assms by (auto simp: form_inv_def)
  have sub: "subseq ((Message text, env, s) # us) ?ups" using us(1) by simp
  have "form_inv ?ups (At_coupon, d\<lparr>fd_mentions := Some (said text)\<rparr>)" if t: "said text \<noteq> []"
  proof -
    have "text = Some (said text)" using t by (cases "text") (simp_all add: said_def)
    then have "picks_mentions ((Message text, env, s) # us) (d\<lparr>fd_mentions := Some (said text)\<rparr>)"
      using picks_one_mentions [OF us(2) t, of env s] by simp
    with sub show ?thesis by (auto simp: form_inv_def)
  qed
  then show ?thesis by (auto simp: form_mentions_def Let_def order_cancelled_def ask_next_def)
qed

lemma form_coupon_inv:
  assumes "form_inv ups (At_coupon, d)"
  shows "form_inv ((Message text, env, s) # ups) (fst (form_coupon env text d s))"
proof -
  let ?ups = "(Message text, env, s) # ups"
  obtain us where us: "subseq us ups" "picks_mentions us d" using assms by (auto simp: form_inv_def)
  have keep: "form_inv ?ups (At_coupon, d)" using assms by (rule form_inv_mono)
  have "form_inv ?ups
      (At_confirm, d\<lparr>fd_coupon := q_coupon_code q, fd_extra := extra_of d, fd_quoted := Some (q_charge_paise q)\<rparr>)"
    if q: "form_quote env (coupon_of text) d s = Inr q" for q
  proof -
    have "subseq ((Message text, env, s) # us) ?ups" using us(1) by simp
    moreover have "picks_coupon ((Message text, env, s) # us)
        (d\<lparr>fd_coupon := q_coupon_code q, fd_extra := extra_of d, fd_quoted := Some (q_charge_paise q)\<rparr>)"
      unfolding picks_coupon_def using us(2) q by blast
    ultimately show ?thesis by (auto simp: form_inv_def given_coupon_def)
  qed
  then show ?thesis using keep
    by (auto simp: form_coupon_def Let_def fst_or_fail order_cancelled_def split: sum.split exn.split)
qed

lemma service_order_inv:
  assumes "form_inv ups ch" and "service_keys s"
  shows "form_inv ((Order sid, env, s) # ups) (fst (cb_service_order env sid ch s))"
proof (cases "available_service sid s")
  case None
  then show ?thesis using form_inv_mono [OF assms(1)] by (simp add: cb_service_order_def)
next
  case (Some v)
  then have "s_id v = sid"
    using assms(2) by (auto simp: available_service_def get_service_def service_keys_def split: option.splits if_splits)
  moreover have "form_inv ((Order sid, env, s) # ups) (At_link, no_data\<lparr>fd_service := Some sid\<rparr>)"
    unfolding form_inv_def using Some by (auto intro!: exI [of _ sid] exI [of _ env] exI [of _ s])
  ultimately show ?thesis using Some by (simp add: cb_service_order_def)
qed

lemma confirm_cases:
  "fst (cb_confirm_order env sid pid answer ch s) \<in> {ch, cleared}"
proof -
  have "fst (confirm_outcome env d uid s placed) \<in> {(At_confirm, d), cleared}" for d uid s placed
    by (auto simp: confirm_outcome_def fst_or_fail split: sum.split exn.split prod.split)
  then show ?thesis
    by (cases ch) (auto simp: cb_confirm_order_def fst_or_fail split: sum.split)
qed

lemma form_step_inv:
  assumes "form_inv ups ch" and "service_keys s"
  shows "form_inv ((ev, env, s) # ups) (fst (form_step env ev ch s))"
proof (cases ev)
  case (Message msg)
  let ?ups = "(Message msg, env, s) # ups"
  have keep: "form_inv ?ups ch" using assms(1) by (rule form_inv_mono)
  have cancel: "form_inv ?ups (fst (cmd_cancel_form env ch s))"
    using keep by (auto simp: cmd_cancel_form_def fst_or_fail split: sum.split)
  obtain st d where ch: "ch = (st, d)" by (cases ch)
  show ?thesis
    using assms keep cancel
    by (cases st) (auto simp: Message ch form_message_def form_link_inv form_qty_inv form_comments_inv
        form_mentions_inv form_coupon_inv)
next
  case (Order sid)
  then show ?thesis using service_order_inv assms by simp
next
  case (Confirm sid pid answer)
  then show ?thesis using confirm_cases [of env sid pid answer ch s] form_inv_mono [OF assms(1)] by auto
qed (use assms in \<open>auto simp: cb_services_def cb_category_def cb_service_view_def Let_def fst_or_fail
    split: option.split sum.split\<close>)

text \<open>
  C28: An order is confirmed as the customer gave it. Whatever updates arrived before, in whatever
  order, and however the shop changed in between: the whole data of a conversation that waits for
  the confirmation come from one run of the form among these updates. They are the service that was
  picked while it was available; the target of the next answer; the number of the answer after
  that, within the limits that the service had when it was sent; the text of the answer that gave
  the comments, if and only if the service asked for comments then, and likewise the mentions; and
  the coupon and the price that the shop quoted for exactly these at the last answer. Nothing else
  is in the data, so nothing is left over from an earlier form.
\<close>

theorem form_holds_its_answers:
  assumes "chat_trace ups (At_confirm, d)"
  shows "given_coupon ups d"
proof -
  have "form_inv ups ch" if "chat_trace ups ch" for ch
    using that by induction (simp, use form_step_inv in blast)
  then show ?thesis using assms by (fastforce simp: form_inv_def)
qed

section \<open>The confirmation\<close>

lemma deliver_Inr: "deliver env ch r s = (ch', Inr (x, t)) \<longleftrightarrow> be_delivered env \<and> ch' = ch \<and> x = r \<and> t = s"
  by (auto simp: deliver_def)

lemma or_fail_Inr: "or_fail ch m f = (ch', Inr x) \<longleftrightarrow> (\<exists>y. m = Inr y \<and> f y = (ch', Inr x))"
  by (auto simp: or_fail_def split: sum.splits)

lemma outcome_placed:
  "confirm_outcome env d uid s placed = (ch', Inr (Placed r, t)) \<longleftrightarrow>
    ch' = cleared \<and> be_delivered env \<and> (\<exists>oid u. placed = Inr (oid, u) \<and>
      with_order oid u Inr = Inr r \<and> menu_kb_for env uid u = Inr t)"
  by (cases placed rule: sum.exhaust)
    (auto simp: confirm_outcome_def deliver_Inr or_fail_Inr split: exn.split)

lemma register_uid: "register env s = Inr (uid, u) \<Longrightarrow> uid = be_uid env"
  by (auto simp: register_def ensure_user_def get_or_create_user_def Let_def split: option.splits)

lemma confirm_placed:
  "cb_confirm_order env sid pid answer ch s = (ch', Inr (Placed r, t)) \<longleftrightarrow>
    fst ch = At_confirm \<and> fd_service (snd ch) = Some sid \<and> ch' = cleared \<and> be_delivered env \<and>
    (\<exists>s1 q u. register env s = Inr (be_uid env, s1) \<and> form_request (snd ch) (be_uid env) pid = Inr q \<and>
      place_order (be_orders env) q answer s1 = Inr (o_id r, u) \<and> order_by_id (o_id r) u = Some r \<and>
      menu_kb_for env (be_uid env) u = Inr t)"
proof -
  have id: "with_order oid u Inr = Inr r \<longleftrightarrow> order_by_id oid u = Some r \<and> oid = o_id r" for oid u
    by (auto simp: with_order_Inr order_by_id_def dest: find_by_Some)
  show ?thesis
    unfolding cb_confirm_order_def
    by (auto simp: deliver_Inr or_fail_Inr outcome_placed id dest: register_uid)
qed

lemma place_order_service:
  assumes "place_order env q answer s = Inr (oid, t)" and "\<forall>old \<in> set (orders s). o_id old \<noteq> oid"
  obtains svc link extra quote key where
    "get_service s (pr_service q) = Some svc" "s_is_active svc"
    "quote_order s (env_now env) (s_id svc) (pr_quantity q) (Some (pr_user q)) (pr_coupon q) = Inr quote"
    "commit_order env (new_order env q svc link extra quote key (next_order_id s)) quote answer s = Inr (oid, t)"
    "0 < q_charge_paise quote"
proof -
  have replay: "o_id old \<noteq> oid" if "load_idempotent_order key s = Some old" for old key
    using that assms(2)
    by (auto simp: load_idempotent_order_def order_by_key_def order_by_id_def
        split: option.split_asm idem_response.split_asm if_split_asm dest!: find_by_Some)
  show thesis
    using assms(1) replay that unfolding place_order_def lock_user_def Let_def
    by (fastforce simp: not_le not_less split: option.split_asm if_split_asm)
qed

lemma form_request_shown:
  "form_request (snd (st, d\<lparr>fd_quoted := x\<rparr>)) uid pid = form_request d uid pid"
  "form_request (d\<lparr>fd_quoted := x\<rparr>) uid pid = form_request d uid pid"
  by (simp_all add: form_request_def)

lemma profile_book: "profile_step s t \<Longrightarrow> book_inv s \<Longrightarrow> book_inv t"
  using profile_wallet_inv by (auto simp: book_inv_def profile_step_def idents_def)

text \<open>
  C29: What a confirmation does. It places the order for the sender, whoever pressed it under
  whatever service id, and ends the form, so a second press places nothing; the charge is what the
  shop quotes for the service, quantity and coupon at that moment. The price that the form showed
  has no influence: with any other price shown the result is the same.
\<close>

theorem confirmation_charges_current_quote:
  assumes "form_step env (Confirm sid pid answer) ch s = (ch', Inr (Placed r, t))"
    and "book_inv s" and "\<forall>old \<in> set (orders s). o_id old \<noteq> o_id r"
  shows "ch' = cleared \<and> o_user_id r = be_uid env \<and>
    (\<exists>s1 v q n. register env s = Inr (be_uid env, s1) \<and> available_service sid s1 = Some v \<and>
      fd_quantity (snd ch) = Some n \<and>
      quote_order s1 (be_now env) (s_id v) n (Some (be_uid env)) (fd_coupon (snd ch)) = Inr q \<and>
      o_charge_paise r = q_charge_paise q) \<and>
    (\<forall>env2 sid2 pid2 answer2 u. form_step env2 (Confirm sid2 pid2 answer2) ch' u
       = deliver env2 ch' (Alert ''This confirmation expired. Start again.'') u) \<and>
    (\<forall>x. form_step env (Confirm sid pid answer) (fst ch, (snd ch)\<lparr>fd_quoted := x\<rparr>) s = (ch', Inr (Placed r, t)))"
proof -
  have e: "cb_confirm_order env sid pid answer ch s = (ch', Inr (Placed r, t))" using assms(1) by simp
  obtain s1 q s2 where c: "fst ch = At_confirm" "fd_service (snd ch) = Some sid" "ch' = cleared"
      "register env s = Inr (be_uid env, s1)" "form_request (snd ch) (be_uid env) pid = Inr q"
      "place_order (be_orders env) q answer s1 = Inr (o_id r, s2)" "order_by_id (o_id r) s2 = Some r"
      "menu_kb_for env (be_uid env) s2 = Inr t"
    using e unfolding confirm_placed by blast
  have reg: "profile_step s s1" using c(4) unfolding register_def by (rule ensure_user_profile)
  have fresh: "\<forall>old \<in> set (orders s1). o_id old \<noteq> o_id r"
    using reg assms(3) by (simp add: profile_step_def)
  obtain link n where q: "pr_user q = be_uid env" "pr_service q = sid" "pr_quantity q = n"
      "pr_coupon q = fd_coupon (snd ch)" "fd_quantity (snd ch) = Some n"
    using c(2,5) by (auto simp: form_request_def required_def split: option.splits)
  obtain svc link extra quote key where o: "get_service s1 sid = Some svc" "s_is_active svc"
      "quote_order s1 (be_now env) (s_id svc) n (Some (be_uid env)) (fd_coupon (snd ch)) = Inr quote"
      "commit_order (be_orders env) (new_order (be_orders env) q svc link extra quote key (next_order_id s1))
         quote answer s1 = Inr (o_id r, s2)" "0 < q_charge_paise quote"
    using place_order_service [OF c(6) fresh] q by metis
  let ?new = "new_order (be_orders env) q svc link extra quote key (next_order_id s1)"
  have inv: "book_inv s1" using profile_book [OF reg assms(2)] .
  have ids: "idents s2 = idents s1 @ [order_ident ?new]"
    using commit_order_book [OF o(4) inv] o(5) by (simp add: new_order_def)
  have "order_ident r \<notin> set (idents s1)"
    using fresh by (auto simp: idents_def dest!: order_ident_fields(1))
  with order_by_id_ident [OF c(7)] ids have "order_ident r = order_ident ?new" by simp
  then have r: "o_user_id r = be_uid env" "o_charge_paise r = q_charge_paise quote"
    using order_ident_fields(3,4) [of r ?new] q by (simp_all add: new_order_def)
  have again: "form_step env2 (Confirm sid2 pid2 answer2) ch' u
      = deliver env2 ch' (Alert ''This confirmation expired. Start again.'') u" for env2 sid2 pid2 answer2 u
    by (simp add: cb_confirm_order_def c(3) cleared_def)
  have other: "form_step env (Confirm sid pid answer) (fst ch, (snd ch)\<lparr>fd_quoted := x\<rparr>) s
      = (ch', Inr (Placed r, t))" for x
    using e unfolding form_step.simps confirm_placed form_request_shown by simp
  have "available_service sid s1 = Some svc" using o(1,2) by (simp add: available_service_def)
  then show ?thesis using c(3,4) r q(5) o(3) again other by blast
qed

definition session_end :: "bot_result \<Rightarrow> db \<Rightarrow> chat \<times> db" where
  "session_end r s = (fst r, case snd r of Inl e \<Rightarrow> s | Inr (x, t) \<Rightarrow> t)"

text \<open>
  An order can be lost on its receipt. The provider has accepted the order, and the same
  confirmation would have committed it; if Telegram does not take the message that reports it, the
  handler raises, the session is rolled back and nothing of the order is left, while the form is
  gone too.
\<close>

theorem undelivered_receipt_forgets_order:
  assumes "form_step env (Confirm sid pid (Inr ext)) ch s = (ch', Inr (Placed r, t))"
  shows "session_end (form_step (env\<lparr>be_delivered := False\<rparr>) (Confirm sid pid (Inr ext)) ch s) s
    = (cleared, s)"
proof -
  have e: "cb_confirm_order env sid pid (Inr ext) ch s = (ch', Inr (Placed r, t))" using assms by simp
  have same: "register (env\<lparr>be_delivered := False\<rparr>) s = register env s"
    "menu_kb_for (env\<lparr>be_delivered := False\<rparr>) uid u = menu_kb_for env uid u" for uid u
    by (simp_all add: register_def menu_kb_for_def)
  show ?thesis
    using e unfolding confirm_placed
    by (auto simp: cb_confirm_order_def confirm_outcome_def same or_fail_def deliver_def session_end_def
        with_order_def)
qed

section \<open>A sample conversation\<close>

definition sample_buyer :: user_row where
  "sample_buyer = (new_user 7)\<lparr>cached_balance_paise := 5000, u_referral_code := Some ''REF7'',
     u_terms_accepted_at := Some 1\<rparr>"

definition panel_provider :: provider_row where
  "panel_provider = \<lparr>p_id = ''p1'', p_name = ''Panel'', p_adapter_type = Some ''perfectpanel'', p_base_url = None,
     p_encrypted_api_key = None, p_is_active = True, p_markup_percent = None, p_markup_fixed_paise = None,
     p_fx_to_inr = 1, p_auto_activate_new = False, p_last_sync_at = None, p_last_sync_status = None\<rparr>"

definition form_db :: db where
  "form_db = (funded_user 7 5000)\<lparr>users := [7 \<mapsto> sample_buyer], services := [''s1'' \<mapsto> sample_service],
     providers := [''p1'' \<mapsto> panel_provider]\<rparr>"

definition form_env :: bot_env where
  "form_env = \<lparr>be_settings = (sample_settings Production ''razorpay'')\<lparr>owner_telegram_id := 1\<rparr>,
     be_code = (\<lambda>_. []), be_orders = sample_env, be_text = (\<lambda>_. []),
     be_user = \<lparr>tu_id = 7, tu_username = None, tu_first_name = None, tu_last_name = None, tu_language = None\<rparr>,
     be_delivered = True\<rparr>"

definition form_filled :: form_data where
  "form_filled = no_data\<lparr>fd_service := Some ''s1'', fd_link := Some ''https://t.me/x'', fd_quantity := Some 1000,
     fd_quoted := Some 1\<rparr>"

lemma form_db_simps [simp]:
  "users form_db = [7 \<mapsto> sample_buyer]" "services form_db = [''s1'' \<mapsto> sample_service]"
  "providers form_db = [''p1'' \<mapsto> panel_provider]" "orders form_db = []" "next_order_id form_db = 1"
  "star_prices form_db = []" "resellers form_db = Map.empty" "app_settings form_db = Map.empty"
  "idempotency_records form_db = Map.empty" "order_events form_db = []"
  "ledger form_db = ledger (funded_user 7 5000)"
  by (simp_all add: form_db_def funded_user_simps)

lemma form_register: "register form_env form_db = Inr (7, form_db)"
  by (simp add: register_def form_env_def ensure_user_def get_or_create_user_def ensure_referral_code_def
      lock_user_def update_user_def refresh_profile_def sample_buyer_def given_def ensure_owner_partners_def
      owner_role_def new_user_def form_db_def)

lemma form_texts: "strip ''0'' = ''0''" "validate_link ''https://t.me/x'' = Inr ''https://t.me/x''" "lower ''default'' = ''default''"
  by code_simp+

definition form_price :: price_quote where
  "form_price = \<lparr>q_service_id = ''s1'', q_quantity = 1000, q_cost_per_1000_paise = 1000,
     q_sell_per_1000_paise = 1500, q_cost_paise = 1000, q_subtotal_paise = 1500, q_discount_paise = 0,
     q_charge_paise = 1500, q_layer = ''service'', q_markup_percent = 50, q_markup_fixed_paise = 0,
     q_coupon_code = None, q_min_qty = 10, q_max_qty = 10000, q_retail_per_1000_paise = 1500,
     q_reseller_discount_paise = 0\<rparr>"

lemma form_quote_value: "quote_order form_db now ''s1'' 1000 (Some 7) None = Inr form_price"
proof -
  have st: "find_star form_db sid u = Inr None" for sid u
    by (simp add: find_star_def one_or_none_def)
  have arith: "scale_to_qty 1000 1000 = 1000" "scale_to_qty 1500 1000 = 1500" by code_simp+
  have "resolve_sell_rate form_db sample_service (Some 7) = Inr (1500, ''service'', 50, 0)"
    by (simp add: resolve_sell_rate_def star_for_def st setting_float_def sample_service_def
        layered_rate_def layer_rate_def enforce_min_margin_def sample_arith)
  moreover have "s_is_active sample_service" "s_min_qty sample_service = 10"
    "s_max_qty sample_service = 10000" "rate_per_1000_paise sample_service = 1000" "s_id sample_service = ''s1''"
    by (simp_all add: sample_service_def)
  ultimately show ?thesis
    by (simp add: quote_order_def quote_discount_def form_price_def active_reseller_def arith)
qed

definition form_order :: place_request where
  "form_order = \<lparr>pr_user = 7, pr_service = ''s1'', pr_link = ''https://t.me/x'', pr_quantity = 1000, pr_extra = [],
     pr_coupon = None, pr_client_key = None, pr_public_id = ''FL-9''\<rparr>"

lemma form_placed:
  "\<exists>r t. place_order sample_env form_order (Inr ''77'') form_db = Inr (1, t) \<and> order_by_id 1 t = Some r \<and>
    o_id r = 1 \<and> users t 7 = Some (sample_buyer\<lparr>cached_balance_paise := 3500\<rparr>) \<and>
    resellers t = Map.empty"
proof -
  obtain e where led: "ledger (funded_user 7 5000) = [e]" "e_key e = ''k0''"
    by (simp add: funded_user_simps new_user_def)
  have fields: "s_is_active sample_service" "s_id sample_service = ''s1''" "s_service_type sample_service = ''default''"
    "s_provider_id sample_service = ''p1''" "p_is_active panel_provider"
    by (simp_all add: sample_service_def panel_provider_def)
  have open_shop: "assert_orders_open form_db = Inr ()"
    by (simp add: orders_open_iff is_kill_on_def get_setting_def form_texts)
  have key: "new_idempotency_key sample_digest [k, ''FL-9''] \<noteq> ''k0''" for k
    by (simp add: new_idempotency_key_def sample_digest_def)
  have pair: "new_idempotency_key sample_digest [''capture'', ''FL-9''] \<noteq> new_idempotency_key sample_digest [''reserve'', ''FL-9'']"
    by (simp add: new_idempotency_key_def sample_digest_def)
  show ?thesis
    by (simp add: place_order_def form_order_def lock_user_def sample_buyer_def new_user_def open_shop get_service_def
        fields service_provider_def form_texts validate_extra_def form_quote_value sample_env_def
        form_price_def Let_def load_idempotent_order_def order_by_key_def available_paise_def commit_order_def
        insert_order_def new_order_def add_reseller_order_def active_reseller_def reserve_def existing_def led key key [symmetric]
        append_entry_def update_user_def submit_order_def capture_order_def capture_def pair pair [symmetric] use_coupon_def
        record_event_def update_order_def order_by_id_def)
qed

lemma form_env_simps [simp]:
  "be_orders form_env = sample_env" "be_user form_env = \<lparr>tu_id = 7, tu_username = None, tu_first_name = None,
     tu_last_name = None, tu_language = None\<rparr>" "be_delivered form_env"
  "owner_telegram_id (be_settings form_env) = 1"
  by (simp_all add: form_env_def)

lemma form_confirmed:
  "\<exists>r t. form_step form_env (Confirm ''s1'' ''FL-9'' (Inr ''77'')) (At_confirm, form_filled) form_db
    = (cleared, Inr (Placed r, t)) \<and> o_id r = 1"
proof -
  obtain r u where p: "place_order sample_env form_order (Inr ''77'') form_db = Inr (1, u)"
      "order_by_id 1 u = Some r" "o_id r = 1"
    and u: "users u 7 = Some (sample_buyer\<lparr>cached_balance_paise := 3500\<rparr>)" "resellers u = Map.empty"
    using form_placed by blast
  have rq: "form_request form_filled 7 ''FL-9'' = Inr form_order"
    by (simp add: form_request_def form_filled_def required_def form_order_def no_data_def)
  have "menu_kb_for form_env 7 u = Inr u"
    using u by (simp add: menu_kb_for_def partner_flags_def is_reseller_user_def is_promoter_user_def
      lock_user_def sample_buyer_def new_user_def owner_role_def)
  then have "form_step form_env (Confirm ''s1'' ''FL-9'' (Inr ''77'')) (At_confirm, form_filled) form_db
      = (cleared, Inr (Placed r, u))"
    unfolding form_step.simps confirm_placed
    by (simp add: form_register rq p) (simp add: form_filled_def no_data_def)
  with p(3) show ?thesis by blast
qed

lemma form_db_inv: "book_inv form_db"
proof -
  have "profile_step (funded_user 7 5000) form_db"
    by (auto simp: profile_step_def form_db_def account_of_def sample_buyer_def funded_user_simps new_user_def)
  then have "wallet_inv form_db" by (rule profile_wallet_inv) (rule wallet_inv_funded_user)
  moreover obtain e where "ledger (funded_user 7 5000) = [e]" "e_reference_type e = Some ''payment''"
    by (simp add: funded_user_simps new_user_def)
  ultimately show ?thesis by (simp add: book_inv_def idents_def)
qed

lemma confirmation_charges_current_quote_witness:
  "\<exists>r t. form_step form_env (Confirm ''s1'' ''FL-9'' (Inr ''77'')) (At_confirm, form_filled) form_db
    = (cleared, Inr (Placed r, t)) \<and> o_user_id r = 7 \<and> o_charge_paise r = 1500"
proof -
  obtain r t where e: "form_step form_env (Confirm ''s1'' ''FL-9'' (Inr ''77'')) (At_confirm, form_filled) form_db
    = (cleared, Inr (Placed r, t))" using form_confirmed by blast
  have "\<forall>old \<in> set (orders form_db). o_id old \<noteq> o_id r" by simp
  note c = confirmation_charges_current_quote [OF e form_db_inv this]
  have "available_service ''s1'' form_db = Some sample_service"
    by (simp add: available_service_def get_service_def sample_service_def)
  moreover have "s_id sample_service = ''s1''" by (simp add: sample_service_def)
  ultimately show ?thesis
    using c e form_quote_value [of "be_now form_env"]
    by (auto simp: form_register form_filled_def no_data_def form_price_def)
qed

lemma undelivered_receipt_forgets_order_witness:
  "session_end (form_step (form_env\<lparr>be_delivered := False\<rparr>) (Confirm ''s1'' ''FL-9'' (Inr ''77''))
     (At_confirm, form_filled) form_db) form_db = (cleared, form_db)"
proof -
  obtain r t where "form_step form_env (Confirm ''s1'' ''FL-9'' (Inr ''77'')) (At_confirm, form_filled) form_db
    = (cleared, Inr (Placed r, t))" using form_confirmed by blast
  then show ?thesis by (rule undelivered_receipt_forgets_order)
qed

text \<open>While the quantity is sent, the service of the sample asks for comments.\<close>

definition commented_db :: db where
  "commented_db = form_db\<lparr>services := [''s1'' \<mapsto> sample_service\<lparr>s_service_type := ''comments''\<rparr>]\<rparr>"

definition asked :: "form_update list" where
  "asked = [(Message (Some ''skip''), form_env, form_db), (Message (Some ''Nice''), form_env, form_db),
     (Message (Some '' 1,000''), form_env, commented_db), (Message (Some '' https://t.me/x ''), form_env, form_db),
     (Order ''s1'', form_env, form_db)]"

lemma asked_texts: "quantity_of '' 1,000'' = Some 1000" "\<not> cancels (strip (filter (\<lambda>c. c \<noteq> CHR '','') '' 1,000''))"
  "strip '' https://t.me/x '' = ''https://t.me/x''" "coupon_of (Some ''skip'') = None" "lower ''default'' = ''default''"
  "lower ''comments'' = ''comments''" "\<not> cancels ''Nice''"
  by code_simp+

lemma asked_trace: "\<exists>d. chat_trace asked (At_confirm, d) \<and> fd_extra d = [(''comments'', JStr ''Nice'')]"
proof -
  let ?d1 = "no_data\<lparr>fd_service := Some ''s1''\<rparr>" and ?d2 = "no_data\<lparr>fd_service := Some ''s1'', fd_link := Some ''https://t.me/x''\<rparr>"
  let ?d3 = "?d2\<lparr>fd_quantity := Some 1000\<rparr>"
  let ?d4 = "?d3\<lparr>fd_comments := Some ''Nice''\<rparr>"
  let ?d5 = "?d4\<lparr>fd_extra := [(''comments'', JStr ''Nice'')], fd_quoted := Some 1500\<rparr>"
  have svc: "s_is_active sample_service" "s_id sample_service = ''s1''" "s_service_type sample_service = ''default''"
    "s_min_qty sample_service = 10" "s_max_qty sample_service = 10000"
    by (simp_all add: sample_service_def)
  have keys: "service_keys form_db" "service_keys commented_db" by (simp_all add: service_keys_def commented_db_def svc)
  note step = trace_step [where env = form_env and s = form_db, OF _ keys(1)]
  have "chat_trace [(Order ''s1'', form_env, form_db)] (At_link, ?d1)"
    by (rule step [OF trace_start])
      (simp add: cb_service_order_def available_service_def get_service_def svc)
  then have "chat_trace [(Message (Some '' https://t.me/x ''), form_env, form_db), (Order ''s1'', form_env, form_db)] (At_qty, ?d2)"
    by (rule step)
      (simp add: form_message_def form_link_def said_def starts_with_def asked_texts required_def fst_or_fail
        get_service_def no_data_def)
  then have "chat_trace [(Message (Some '' 1,000''), form_env, commented_db),
      (Message (Some '' https://t.me/x ''), form_env, form_db), (Order ''s1'', form_env, form_db)] (At_comments, ?d3)"
    by (rule trace_step [OF _ keys(2)])
      (use asked_texts in \<open>simp add: form_message_def form_qty_def said_def quantity_of_def required_def fst_or_fail
        get_service_def no_data_def svc ask_next_def needs_comments_def commented_db_def\<close>)
  then have "chat_trace (tl asked) (At_coupon, ?d4)"
    unfolding asked_def list.sel
    by (rule step)
      (simp add: form_message_def form_comments_def said_def asked_texts required_def fst_or_fail Let_def
        get_service_def no_data_def svc ask_next_def needs_mentions_def)
  then have "chat_trace asked (At_confirm, ?d5)"
    unfolding asked_def list.sel
    by (rule step)
      (simp add: form_message_def form_coupon_def said_def cancels_def starts_with_def asked_texts form_quote_def
        required_def form_quote_value fst_or_fail form_register lock_user_def form_price_def no_data_def extra_of_def
        Let_def)
  moreover have "fd_extra ?d5 = [(''comments'', JStr ''Nice'')]" by simp
  ultimately show ?thesis by blast
qed

lemma form_holds_its_answers_witness:
  "\<exists>d. chat_trace asked (At_confirm, d) \<and> given_coupon asked d \<and> fd_extra d = [(''comments'', JStr ''Nice'')]"
  using asked_trace form_holds_its_answers by blast

end
