(* ===== verification/BotScreens.thy ===== *)
theory BotScreens
  imports OrderForm
begin

text \<open>
  The screens of the bot: \<open>app/bot/handlers/start.py\<close>, \<open>orders.py\<close>, \<open>wallet.py\<close>, \<open>profile.py\<close>,
  \<open>stats.py\<close>, \<open>rewards.py\<close>, and the dialogs of partners (\<open>reseller.py\<close>, \<open>promoter.py\<close>). A handler takes
  the conversation it finds and the rows, and leaves both, as in \<open>OrderForm\<close>. An exception that a
  handler catches leaves the session as the failed call left it; the operations raise what is
  caught here before they write, with the one exception that is modelled as \<open>dead_invoice\<close>.
\<close>

section \<open>Start, menu and policies\<close>

definition registered :: "bot_env \<Rightarrow> chat \<Rightarrow> db \<Rightarrow> (user_row \<Rightarrow> db \<Rightarrow> bot_result) \<Rightarrow> bot_result" where
  "registered env ch s f =
     or_fail ch (register env s) (\<lambda>(uid, s). or_fail ch (lock_user uid s) (\<lambda>u. f u s))"

definition bot_start :: "bot_env \<Rightarrow> string \<Rightarrow> db \<Rightarrow> bot_result" where
  "bot_start env arg s =
     or_fail cleared (cmd_start (be_code env) (be_settings env) (be_user env) arg s)
       (\<lambda>(scr, s). deliver env cleared (Screen scr) s)"

definition bot_accept :: "bot_env \<Rightarrow> chat \<Rightarrow> db \<Rightarrow> bot_result" where
  "bot_accept env ch s =
     or_fail ch (accept_terms (env_digest (be_orders env)) (be_code env) (be_now env) (be_settings env)
         (be_user env) s)
       (\<lambda>(scr, s). deliver env ch (Screen scr) s)"

definition go_home :: "bot_env \<Rightarrow> db \<Rightarrow> bot_result" where
  "go_home env s =
     registered env cleared s (\<lambda>u s.
       if u_terms_accepted_at u = None then deliver env cleared (Screen Terms) s
       else or_fail cleared (render_home (be_settings env) (telegram_id u) s)
              (\<lambda>(scr, s). deliver env cleared (Screen scr) s))"

section \<open>Orders\<close>

definition PAGE_SIZE :: nat where "PAGE_SIZE = 8"

definition render_list :: "bot_env \<Rightarrow> nat \<Rightarrow> chat \<Rightarrow> db \<Rightarrow> bot_result" where
  "render_list env pg ch s =
     (let rows = list_orders (be_uid env) (PAGE_SIZE + 1) (pg * PAGE_SIZE) None s
      in deliver env ch
           (if rows = [] then
              Said (if pg = 0 then ''No orders yet. Open Services to place one.''
                    else ''No more orders on this page.'')
            else Order_list (take PAGE_SIZE rows) (int pg) (PAGE_SIZE < length rows)) s)"

definition cb_refills :: "bot_env \<Rightarrow> chat \<Rightarrow> db \<Rightarrow> bot_result" where
  "cb_refills env ch s =
     (let rows = list_orders (be_uid env) 20 0 (Some Completed) s @ list_orders (be_uid env) 20 0 (Some Partial) s
      in deliver env ch
           (if rows = [] then Said ''Completed and partial orders appear here when refill is available.''
            else Order_list (take PAGE_SIZE rows) 0 False) s)"

definition cb_orders_page :: "bot_env \<Rightarrow> string \<Rightarrow> chat \<Rightarrow> db \<Rightarrow> bot_result" where
  "cb_orders_page env i ch s =
     render_list env (nat (case parse_int i of None \<Rightarrow> 0 | Some p \<Rightarrow> max p 0)) ch s"

text \<open>The order that a button names, if it is the sender's.\<close>

definition with_own :: "bot_env \<Rightarrow> string \<Rightarrow> chat \<Rightarrow> db \<Rightarrow> (order_row \<Rightarrow> bot_result) \<Rightarrow> bot_result" where
  "with_own env pid ch s f =
     (case get_order_for_user pid (Some (be_uid env)) s of
        None \<Rightarrow> deliver env ch (Alert ''Order not found'') s | Some r \<Rightarrow> f r)"

definition show_order :: "bot_env \<Rightarrow> chat \<Rightarrow> int \<times> db \<Rightarrow> bot_result" where
  "show_order env ch = (\<lambda>(oid, s). or_fail ch (with_order oid s Inr) (\<lambda>r. deliver env ch (Order_card r) s))"

definition cb_order_view :: "bot_env \<Rightarrow> string \<Rightarrow> chat \<Rightarrow> db \<Rightarrow> bot_result" where
  "cb_order_view env pid ch s = with_own env pid ch s (\<lambda>r. deliver env ch (Order_card r) s)"

definition cb_order_refresh :: "bot_env \<Rightarrow> string \<Rightarrow> provider_status res \<Rightarrow> chat \<Rightarrow> db \<Rightarrow> bot_result" where
  "cb_order_refresh env pid answer ch s =
     with_own env pid ch s (\<lambda>r.
       or_fail ch (sync_order_status (be_orders env) (o_id r) answer s) (show_order env ch))"

text \<open>What the engine refuses is shown; the registration stays.\<close>

definition act_outcome :: "bot_env \<Rightarrow> chat \<Rightarrow> db \<Rightarrow> (int \<times> db) res \<Rightarrow> bot_result" where
  "act_outcome env ch s m =
     (case m of
        Inl (OrderError t) \<Rightarrow> deliver env ch (Alert t) s
      | Inl (PermissionError t) \<Rightarrow> deliver env ch (Alert t) s
      | Inl e \<Rightarrow> (ch, Inl e)
      | Inr x \<Rightarrow> show_order env ch x)"

definition cb_order_refill ::
  "bot_env \<Rightarrow> string \<Rightarrow> unit res \<Rightarrow> string res \<Rightarrow> chat \<Rightarrow> db \<Rightarrow> bot_result" where
  "cb_order_refill env pid adapter answer ch s =
     with_own env pid ch s (\<lambda>r. or_fail ch (register env s) (\<lambda>(uid, s).
       act_outcome env ch s (request_refill (be_orders env) (o_id r) uid adapter answer s)))"

definition cb_order_cancel_ask :: "bot_env \<Rightarrow> string \<Rightarrow> chat \<Rightarrow> db \<Rightarrow> bot_result" where
  "cb_order_cancel_ask env pid ch s = with_own env pid ch s (\<lambda>r. deliver env ch (Cancel_card r) s)"

definition cb_order_cancel_go ::
  "bot_env \<Rightarrow> string \<Rightarrow> unit res \<Rightarrow> unit res \<Rightarrow> chat \<Rightarrow> db \<Rightarrow> bot_result" where
  "cb_order_cancel_go env pid adapter answer ch s =
     with_own env pid ch s (\<lambda>r. or_fail ch (register env s) (\<lambda>(uid, s).
       act_outcome env ch s (request_cancel (be_orders env) (o_id r) uid adapter answer s)))"

section \<open>Wallet and deposits\<close>

definition cb_balance :: "bot_env \<Rightarrow> chat \<Rightarrow> db \<Rightarrow> bot_result" where
  "cb_balance env ch s = registered env ch s (\<lambda>u s. deliver env ch (Wallet_card (snapshot_of u)) s)"

definition cb_ledger :: "bot_env \<Rightarrow> chat \<Rightarrow> db \<Rightarrow> bot_result" where
  "cb_ledger env ch s =
     registered env ch s (\<lambda>u s. deliver env ch (Ledger_list (list_entries (telegram_id u) 12 0 s)) s)"

definition cb_deposit :: "bot_env \<Rightarrow> chat \<Rightarrow> db \<Rightarrow> bot_result" where
  "cb_deposit env ch s =
     (case assert_payments_open s of
        Inl (PermissionError m) \<Rightarrow> deliver env ch (Said (menu_escape m)) s
      | Inl e \<Rightarrow> (ch, Inl e)
      | Inr x \<Rightarrow> deliver env ch (Said ''Choose an amount to add to your wallet.'') s)"

text \<open>
  A deposit that is refused because the gateway is not configured has been inserted before, and the
  handler's commit keeps it; every other refusal comes before the insertion or after a deletion.
\<close>

definition not_configured :: string where "not_configured = ''Online payments are not configured''"

definition dead_invoice :: "digest \<Rightarrow> int \<Rightarrow> settings \<Rightarrow> deposit_request \<Rightarrow> string \<Rightarrow> db \<Rightarrow> db" where
  "dead_invoice H now st q m s =
     (if m = not_configured
      then case insert_payment (new_payment H now st q (next_payment_id s)) s of Inl e \<Rightarrow> s | Inr t \<Rightarrow> t
      else s)"

definition show_invoice :: "bot_env \<Rightarrow> chat \<Rightarrow> payment_row \<times> db \<Rightarrow> bot_result" where
  "show_invoice env ch = (\<lambda>(p, s).
     deliver env ch
       (if pay_method p = ''razorpay'' \<and> \<not> no_text (pay_checkout_url p) \<or> pay_method p = ''manual''
           \<or> mock_payments_allowed (be_settings env)
        then Invoice p else Alert ''Deposits are not available right now.'') s)"

definition cb_deposit_amount ::
  "bot_env \<Rightarrow> string \<Rightarrow> string \<Rightarrow> ((string \<times> json) list \<Rightarrow> rz_answer) \<Rightarrow> chat \<Rightarrow> db \<Rightarrow> bot_result" where
  "cb_deposit_amount env v pid post ch s =
     (case parse_int v of
        None \<Rightarrow> deliver env ch (Alert ''Invalid amount'') s
      | Some amount \<Rightarrow>
          or_fail ch (register env s) (\<lambda>(uid, s).
            let H = env_digest (be_orders env); st = be_settings env;
                q = \<lparr>dr_user = uid, dr_amount = amount, dr_key = None, dr_public_id = pid\<rparr>
            in case create_deposit (be_text env) H (be_now env) st post q s of
                 Inl (DepositError m) \<Rightarrow>
                   deliver env ch (Alert (take 190 m)) (dead_invoice H (be_now env) st q m s)
               | Inl e \<Rightarrow> (ch, Inl e)
               | Inr x \<Rightarrow> show_invoice env ch x))"

definition payment_message :: "payment_status \<Rightarrow> bot_reply" where
  "payment_message st =
     (if st = REVIEW then Said ''This payment needs a manual check by our team. It will be resolved shortly.''
      else if st = EXPIRED then Said ''This invoice expired. Start a new deposit.''
      else Alert ''Not confirmed yet. If you have paid, wait a minute and check again.'')"

definition cb_check_payment ::
  "bot_env \<Rightarrow> string \<Rightarrow> (string \<Rightarrow> gateway_status res) \<Rightarrow> chat \<Rightarrow> db \<Rightarrow> bot_result" where
  "cb_check_payment env pid fetch ch s =
     or_fail ch (register env s) (\<lambda>(uid, s).
     or_fail ch (check_payment (env_digest (be_orders env)) (be_now env) (be_settings env) fetch pid uid s)
       (\<lambda>(p, s). case p of
          None \<Rightarrow> deliver env ch (Alert ''Invoice not found'') s
        | Some p \<Rightarrow> or_fail ch (lock_user uid s) (\<lambda>u.
            deliver env ch (if pay_status p = PAID then Payment_done (snapshot_of u)
                            else payment_message (pay_status p)) s)))"

definition mock_request :: "payment_row \<Rightarrow> int \<Rightarrow> settle_request" where
  "mock_request p uid =
     \<lparr>sr_payment = pay_public_id p, sr_gateway = ''mock'', sr_gateway_ref = None,
      sr_amount = Some (pay_amount_paise p), sr_currency = Some (pay_currency p),
      sr_source = ''mock'', sr_actor = str_int uid\<rparr>"

definition cb_mock_pay :: "bot_env \<Rightarrow> string \<Rightarrow> chat \<Rightarrow> db \<Rightarrow> bot_result" where
  "cb_mock_pay env pid ch s =
     (if \<not> mock_payments_allowed (be_settings env) then deliver env ch (Alert ''Demo payments are disabled.'') s
      else case assert_payments_open s of
        Inl (PermissionError m) \<Rightarrow> deliver env ch (Alert m) s
      | Inl e \<Rightarrow> (ch, Inl e)
      | Inr x \<Rightarrow>
        (case payment_by_public_id pid s of
           None \<Rightarrow> deliver env ch (Alert ''Invoice not found'') s
         | Some p \<Rightarrow>
           if pay_user_id p \<noteq> be_uid env \<or> pay_method p \<noteq> ''mock''
           then deliver env ch (Alert ''Invoice not found'') s
           else or_fail ch (register env s) (\<lambda>(uid, s).
             or_fail ch (settle_payment (env_digest (be_orders env)) (be_now env) (mock_request p uid) s)
               (\<lambda>(out, s). or_fail ch (lock_user uid s) (\<lambda>u.
                 deliver env ch (Payment_done (snapshot_of u)) s)))))"

section \<open>Profile, settings and support\<close>

definition cb_profile :: "bot_env \<Rightarrow> chat \<Rightarrow> db \<Rightarrow> bot_result" where
  "cb_profile env ch s = registered env ch s (\<lambda>u s. deliver env ch (Profile_card u) s)"

definition cb_settings :: "bot_env \<Rightarrow> chat \<Rightarrow> db \<Rightarrow> bot_result" where
  "cb_settings env ch s = registered env ch s (\<lambda>u s. deliver env ch (Settings_card (u_notify_orders u)) s)"

definition toggle_notify :: "user_row \<Rightarrow> user_row" where
  "toggle_notify u = u\<lparr>u_notify_orders := \<not> u_notify_orders u\<rparr>"

definition cb_toggle_notify :: "bot_env \<Rightarrow> chat \<Rightarrow> db \<Rightarrow> bot_result" where
  "cb_toggle_notify env ch s =
     registered env ch s (\<lambda>u s. deliver env ch (Settings_card (\<not> u_notify_orders u))
       (update_user (telegram_id u) toggle_notify s))"

definition setting_screen :: "bot_env \<Rightarrow> string \<Rightarrow> chat \<Rightarrow> db \<Rightarrow> bot_result" where
  "setting_screen env key ch s = deliver env ch (Said (menu_escape (get_setting s key []))) s"

definition cb_support :: "bot_env \<Rightarrow> chat \<Rightarrow> db \<Rightarrow> bot_result" where
  "cb_support env = setting_screen env ''support_url''"

definition show_policy :: "bot_env \<Rightarrow> string \<Rightarrow> chat \<Rightarrow> db \<Rightarrow> bot_result" where
  "show_policy env a = setting_screen env (if a = ''terms'' then ''terms_url'' else ''privacy_url'')"

section \<open>Statistics and rewards\<close>

text \<open>The staff's platform section, which counts by the time of creation, is left out.\<close>

definition personal_stats :: "user_row \<Rightarrow> db \<Rightarrow> (string \<times> int) list" where
  "personal_stats u s =
     (let uid = telegram_id u;
          mine = filter (\<lambda>r. o_user_id r = uid) (orders s);
          paid = filter (\<lambda>p. pay_user_id p = uid \<and> pay_status p = PAID) (payments s);
          back = filter (\<lambda>e. e_user_id e = uid \<and> e_entry_type e = Credit \<and>
            (starts_with ''Refund'' (e_reason e) \<or> starts_with ''Partial'' (e_reason e))) (ledger s)
      in [(''Orders'', int (length mine)),
          (''Completed'', int (length (filter (\<lambda>r. o_status r = Completed) mine))),
          (''Processing'', int (length (filter (\<lambda>r. o_status r \<in> set ACTIVE_STATUSES) mine))),
          (''Failed'', int (length (filter (\<lambda>r. o_status r = Failed) mine))),
          (''Spent'', sum_list (map o_charge_paise
             (filter (\<lambda>r. o_status r \<notin> set [Failed, Canceled, Cancelled]) mine))),
          (''Deposits'', sum_list (map pay_amount_paise paid)),
          (''Refunds'', sum_list (map e_amount_paise back)),
          (''Refills'', sum_list (map o_refill_count mine)),
          (''Referrals'', int (length (downline s uid))),
          (''Available'', available_paise u)])"

definition cb_stats :: "bot_env \<Rightarrow> chat \<Rightarrow> db \<Rightarrow> bot_result" where
  "cb_stats env ch s = registered env ch s (\<lambda>u s. deliver env ch (Stats_card (personal_stats u s)) s)"

definition cb_rewards :: "bot_env \<Rightarrow> chat \<Rightarrow> db \<Rightarrow> bot_result" where
  "cb_rewards env ch s =
     or_fail ch (register env s) (\<lambda>(uid, s).
     or_fail ch (referral_snapshot (be_code env) uid s) (\<lambda>(x, s). deliver env ch (Rewards_card x) s))"

text \<open>The share card carries the sender's code; its captions are left out.\<close>

definition cb_share :: "bot_env \<Rightarrow> chat \<Rightarrow> db \<Rightarrow> bot_result" where
  "cb_share env ch s =
     or_fail ch (register env s) (\<lambda>(uid, s).
     or_fail ch (ensure_referral_code (be_code env) uid s) (\<lambda>(code, s). deliver env ch (Said code) s))"

section \<open>Partners\<close>

text \<open>\<open>kind\<close> is ``reseller'' or ``promoter''; the two modules differ in what they read.\<close>

definition is_partner :: "bot_env \<Rightarrow> string \<Rightarrow> int \<Rightarrow> db \<Rightarrow> (bool \<times> db) res" where
  "is_partner env kind uid s =
     (if kind = ''reseller'' then is_reseller_user (owner_telegram_id (be_settings env)) uid s
      else is_promoter_user (owner_telegram_id (be_settings env)) uid s)"

definition partner_card :: "bot_env \<Rightarrow> string \<Rightarrow> int \<Rightarrow> db \<Rightarrow> (bot_reply \<times> db) res" where
  "partner_card env kind uid s =
     (if kind = ''reseller'' then e_bind (reseller_snapshot uid s) (\<lambda>x. Inr (Reseller_card x, s))
      else e_bind (promoter_snapshot (be_code env) uid s) (\<lambda>(x, s). Inr (Promoter_card x, s)))"

text \<open>Register the sender and look whether they are a partner; partners see their card.\<close>

definition as_partner ::
  "bot_env \<Rightarrow> string \<Rightarrow> chat \<Rightarrow> db \<Rightarrow> (bool \<Rightarrow> int \<Rightarrow> db \<Rightarrow> bot_result) \<Rightarrow> bot_result" where
  "as_partner env kind ch s f =
     or_fail ch (register env s) (\<lambda>(uid, s). or_fail ch (is_partner env kind uid s) (\<lambda>(yes, s). f yes uid s))"

definition show_partner :: "bot_env \<Rightarrow> string \<Rightarrow> chat \<Rightarrow> int \<Rightarrow> db \<Rightarrow> bot_result" where
  "show_partner env kind ch uid s =
     or_fail ch (partner_card env kind uid s) (\<lambda>(card, s). deliver env ch card s)"

definition partner_home :: "bot_env \<Rightarrow> string \<Rightarrow> db \<Rightarrow> bot_result" where
  "partner_home env kind s =
     as_partner env kind cleared s (\<lambda>yes uid s.
       if yes then show_partner env kind cleared uid s
       else deliver env cleared
         (Said (if pending_application uid kind s = None then ''Apply'' else ''Your application is pending admin review.'')) s)"

definition partner_apply :: "bot_env \<Rightarrow> string \<Rightarrow> chat \<Rightarrow> db \<Rightarrow> bot_result" where
  "partner_apply env kind ch s =
     as_partner env kind ch s (\<lambda>yes uid s.
       if yes then show_partner env kind ch uid s
       else if pending_application uid kind s \<noteq> None then deliver env ch (Said ''Already pending review.'') s
       else deliver env (At_pitch kind, snd ch) (Said ''Send a short pitch'') s)"

definition partner_got_pitch :: "bot_env \<Rightarrow> string \<Rightarrow> string option \<Rightarrow> chat \<Rightarrow> db \<Rightarrow> bot_result" where
  "partner_got_pitch env kind msg ch s =
     (if said msg = [] then (ch, Inr (Nothing, s))
      else if starts_with ''/cancel'' (said msg) then deliver env cleared (Said ''Cancelled.'') s
      else if length (strip (said msg)) < 8 then deliver env ch (Said ''Please write at least a sentence.'') s
      else or_fail ch (register env s) (\<lambda>(uid, s).
        deliver env cleared (Said ''Application received.'')
          (snd (submit_application uid kind (strip (said msg)) s))))"

definition partner_downline :: "bot_env \<Rightarrow> chat \<Rightarrow> db \<Rightarrow> bot_result" where
  "partner_downline env ch s =
     as_partner env ''reseller'' ch s (\<lambda>yes uid s.
       if \<not> yes then deliver env ch (Alert ''Not a reseller'') s
       else deliver env ch (User_list (take 20 (rev
         (filter (\<lambda>v. u_referred_by v = Some uid) (all_users s))))) s)"

definition partner_pay :: "bot_env \<Rightarrow> string \<Rightarrow> chat \<Rightarrow> db \<Rightarrow> bot_result" where
  "partner_pay env kind ch s =
     as_partner env kind ch s (\<lambda>yes uid s.
       if \<not> yes then deliver env ch (Alert (''Not a '' @ kind)) s
       else deliver env (At_payout kind, snd ch) (Said ''Send amount in INR, or /cancel.'') s)"

text \<open>What \<open>request_payout\<close> refuses is told, and the dialog goes on; \<open>pid\<close> is the fresh public id.\<close>

definition partner_got_amount ::
  "bot_env \<Rightarrow> string \<Rightarrow> string \<Rightarrow> string option \<Rightarrow> chat \<Rightarrow> db \<Rightarrow> bot_result" where
  "partner_got_amount env kind pid msg ch s =
     (if said msg = [] then (ch, Inr (Nothing, s))
      else if starts_with ''/cancel'' (said msg) then deliver env cleared (Said ''Cancelled.'') s
      else or_fail ch (typed_paise (said msg)) (\<lambda>p. case p of
          None \<Rightarrow> deliver env ch (Said ''Send a number, e.g. 500.'') s
        | Some amount \<Rightarrow> or_fail ch (register env s) (\<lambda>(uid, s).
            case request_payout (env_digest (be_orders env)) pid uid kind amount s of
              Inl (WalletError m) \<Rightarrow> deliver env ch (Said m) s
            | Inl (InsufficientFunds m) \<Rightarrow> deliver env ch (Said m) s
            | Inl e \<Rightarrow> (ch, Inl e)
            | Inr ((po, paid), s) \<Rightarrow> deliver env cleared (Said (menu_escape po)) s)))"

definition promoter_home :: "bot_env \<Rightarrow> db \<Rightarrow> bot_result" where "promoter_home env = partner_home env ''promoter''"
definition promoter_apply :: "bot_env \<Rightarrow> chat \<Rightarrow> db \<Rightarrow> bot_result" where "promoter_apply env = partner_apply env ''promoter''"
definition promoter_got_pitch :: "bot_env \<Rightarrow> string option \<Rightarrow> chat \<Rightarrow> db \<Rightarrow> bot_result" where
  "promoter_got_pitch env = partner_got_pitch env ''promoter''"
definition promoter_pay :: "bot_env \<Rightarrow> chat \<Rightarrow> db \<Rightarrow> bot_result" where "promoter_pay env = partner_pay env ''promoter''"
definition promoter_got_amount :: "bot_env \<Rightarrow> string \<Rightarrow> string option \<Rightarrow> chat \<Rightarrow> db \<Rightarrow> bot_result" where
  "promoter_got_amount env = partner_got_amount env ''promoter''"

end
