(* ===== verification/BotAdmin.thy ===== *)
theory BotAdmin
  imports BotScreens
begin

text \<open>
  The administrators' dialogs of \<open>app/bot/handlers/admin.py\<close>, around the tools of \<open>Accounts\<close>. The
  screens of providers, their health, and advertisements are left out.
\<close>

text \<open>The sender is registered; who is not staff gets \<open>refused\<close>.\<close>

definition staff_gate ::
  "bot_env \<Rightarrow> chat \<Rightarrow> db \<Rightarrow> (db \<Rightarrow> bot_result) \<Rightarrow> (int \<Rightarrow> db \<Rightarrow> bot_result) \<Rightarrow> bot_result" where
  "staff_gate env ch s refused f =
     registered env ch s (\<lambda>u s. if \<not> is_staff (be_settings env) u then refused s else f (telegram_id u) s)"

definition not_authorised :: "bot_env \<Rightarrow> chat \<Rightarrow> db \<Rightarrow> bot_result" where
  "not_authorised env ch s = deliver env ch (Alert ''Not authorised'') s"

definition quietly :: "chat \<Rightarrow> db \<Rightarrow> bot_result" where "quietly ch s = (ch, Inr (Nothing, s))"

definition cmd_admin :: "bot_env \<Rightarrow> db \<Rightarrow> bot_result" where
  "cmd_admin env s =
     staff_gate env cleared s (\<lambda>s. deliver env cleared (Said ''Not authorised.'') s)
       (\<lambda>actor s. deliver env cleared (Switches (kill_switches s)) s)"

definition cb_admin_home :: "bot_env \<Rightarrow> db \<Rightarrow> bot_result" where
  "cb_admin_home env s =
     staff_gate env cleared s (not_authorised env cleared)
       (\<lambda>actor s. deliver env cleared (Switches (kill_switches s)) s)"

definition dashboard :: "db \<Rightarrow> bot_reply" where
  "dashboard s = Dashboard
     [(''Users'', int (length (all_users s))), (''Orders'', int (length (orders s))),
      (''Open'', int (length (filter (\<lambda>r. o_status r \<in>
         set [Pending, Awaiting_provider, Processing, In_progress, Refilling]) (orders s)))),
      (''Volume'', sum_list (map o_charge_paise
         (filter (\<lambda>r. o_status r \<notin> set [Failed, Canceled, Cancelled]) (orders s)))),
      (''Pending applications'',
         int (length (filter (\<lambda>a. app_status a = ''pending'') (role_applications s))))]
     (kill_switches s)"

definition cb_dash :: "bot_env \<Rightarrow> chat \<Rightarrow> db \<Rightarrow> bot_result" where
  "cb_dash env ch s = staff_gate env ch s (not_authorised env ch) (\<lambda>actor s. deliver env ch (dashboard s) s)"

definition cb_toggle_kill :: "bot_env \<Rightarrow> string \<Rightarrow> chat \<Rightarrow> db \<Rightarrow> bot_result" where
  "cb_toggle_kill env key ch s =
     staff_gate env ch s (not_authorised env ch) (\<lambda>actor s.
       or_fail ch (toggle_kill key actor s) (\<lambda>(known, s).
         deliver env ch (if known then Switches (kill_switches s) else Alert ''Unknown switch'') s))"

section \<open>Looking up, crediting and debiting a user\<close>

definition ask_user :: "bot_env \<Rightarrow> string \<Rightarrow> chat \<Rightarrow> db \<Rightarrow> bot_result" where
  "ask_user env mode ch s =
     staff_gate env ch s (not_authorised env ch) (\<lambda>actor s.
       deliver env (Adm_user, (snd ch)\<lparr>fd_mode := Some mode\<rparr>) (Said ''Send the Telegram numeric id'') s)"

definition cb_lookup_start :: "bot_env \<Rightarrow> chat \<Rightarrow> db \<Rightarrow> bot_result" where "cb_lookup_start env = ask_user env ''lookup''"
definition cb_credit_start :: "bot_env \<Rightarrow> chat \<Rightarrow> db \<Rightarrow> bot_result" where "cb_credit_start env = ask_user env ''credit''"

definition admin_got_user :: "bot_env \<Rightarrow> string option \<Rightarrow> chat \<Rightarrow> db \<Rightarrow> bot_result" where
  "admin_got_user env msg ch s =
     (if said msg = [] then quietly ch s
      else staff_gate env ch s (quietly cleared) (\<lambda>actor s.
        or_fail ch (find_user (said msg) s) (\<lambda>found. case found of
            None \<Rightarrow> deliver env ch (Said ''User not found. They must have opened the bot at least once.'') s
          | Some u \<Rightarrow>
              if fd_mode (snd ch) = Some ''lookup'' then deliver env cleared (User_card u) s
              else deliver env (Adm_amount, (snd ch)\<lparr>fd_target := Some (telegram_id u)\<rparr>) (User_card u) s)))"

text \<open>\<open>adjust_amount\<close> asks again for what is no number and for zero.\<close>

definition admin_got_amount :: "bot_env \<Rightarrow> string option \<Rightarrow> chat \<Rightarrow> db \<Rightarrow> bot_result" where
  "admin_got_amount env msg ch s =
     (if said msg = [] then quietly ch s
      else staff_gate env ch s (quietly cleared) (\<lambda>actor s.
        or_fail ch (adjust_amount (said msg)) (\<lambda>p. case p of
            None \<Rightarrow> deliver env ch (Said ''Send a number, e.g. 250 or -50.'') s
          | Some paise \<Rightarrow> deliver env (Adm_reason, (snd ch)\<lparr>fd_amount := Some paise\<rparr>)
              (Said ''Reason is mandatory. Send a short note for the ledger.'') s)))"

definition admin_got_reason :: "bot_env \<Rightarrow> string \<Rightarrow> string option \<Rightarrow> chat \<Rightarrow> db \<Rightarrow> bot_result" where
  "admin_got_reason env adj msg ch s =
     (if said msg = [] then quietly ch s
      else staff_gate env ch s (quietly cleared) (\<lambda>actor s.
        if length (strip (said msg)) < 3
        then deliver env ch (Said ''Reason must be at least 3 characters.'') s
        else or_fail ch (required (fd_target (snd ch))) (\<lambda>target.
          if users s target = None then deliver env cleared (Said ''User disappeared.'') s
          else or_fail ch (required (fd_amount (snd ch))) (\<lambda>amount.
          or_fail ch (admin_adjust (env_digest (be_orders env)) adj actor target amount (said msg) s)
            (\<lambda>(done, s). deliver env cleared (Said (if done then ''Done'' else ''Wallet error'')) s)))))"

section \<open>Commands\<close>

definition bot_maintenance :: "bot_env \<Rightarrow> chat \<Rightarrow> db \<Rightarrow> bot_result" where
  "bot_maintenance env ch s =
     staff_gate env ch s (quietly ch) (\<lambda>actor s.
       deliver env ch (Said (if is_kill_on s KILL_MAINTENANCE then ''Maintenance off'' else ''Maintenance ON''))
         (cmd_maintenance s))"

text \<open>\<open>/confirmpay\<close>: the notification that follows is swallowed when it fails.\<close>

definition cmd_confirmpay :: "bot_env \<Rightarrow> string \<Rightarrow> chat \<Rightarrow> db \<Rightarrow> bot_result" where
  "cmd_confirmpay env args ch s =
     staff_gate env ch s (quietly ch) (\<lambda>actor s.
       let ref = upper (strip args) in
       if \<not> starts_with ''PAY-'' ref then deliver env ch (Said ''Usage: /confirmpay PAY-XXXXXXXX'') s
       else case payment_by_public_id ref s of
           None \<Rightarrow> deliver env ch (Said ''Invoice not found.'') s
         | Some p \<Rightarrow>
             if pay_method p \<noteq> ''manual''
             then deliver env ch (Said ''Only manual-gateway invoices can be confirmed by hand.'') s
             else or_fail ch (manual_confirm (env_digest (be_orders env)) (be_now env) ref (str_int actor) s)
               (\<lambda>(out, s). deliver env ch (Said (so_outcome out)) s))"

definition cmd_sync ::
  "bot_env \<Rightarrow> sync_env \<Rightarrow> (string \<Rightarrow> provider_service list res) \<Rightarrow> string list \<Rightarrow> chat \<Rightarrow> db \<Rightarrow> bot_result" where
  "cmd_sync env se answers pids ch s =
     staff_gate env ch s (quietly ch) (\<lambda>actor s.
       or_fail ch (sync_all se answers pids s) (\<lambda>(reps, s). deliver env ch (Reports reps) s))"

definition cmd_review_orders :: "bot_env \<Rightarrow> chat \<Rightarrow> db \<Rightarrow> bot_result" where
  "cmd_review_orders env ch s =
     staff_gate env ch s (quietly ch) (\<lambda>actor s.
       let rows = list_review_orders 20 s
       in deliver env ch (if rows = [] then Said ''No orders under review.'' else Order_list rows 0 False) s)"

section \<open>Applications\<close>

definition show_applications :: "bot_env \<Rightarrow> chat \<Rightarrow> db \<Rightarrow> bot_result" where
  "show_applications env ch s =
     staff_gate env ch s (not_authorised env ch) (\<lambda>actor s.
       deliver env ch (Application_list (take 20 (rev
         (filter (\<lambda>a. app_status a = ''pending'') (role_applications s))))) s)"

definition cb_app_decide :: "bot_env \<Rightarrow> bool \<Rightarrow> string \<Rightarrow> chat \<Rightarrow> db \<Rightarrow> bot_result" where
  "cb_app_decide env approve v ch s =
     staff_gate env ch s (not_authorised env ch) (\<lambda>actor s.
       case parse_int v of
         None \<Rightarrow> deliver env ch (Alert ''Bad id'') s
       | Some aid \<Rightarrow> or_fail ch (decide_application approve aid s) (\<lambda>(found, s).
           if found then show_applications env ch s else deliver env ch (Alert ''Not found'') s))"

end
