(* ===== verification/Bot.thy ===== *)
theory Bot
  imports BotAdmin RateLimit
begin

text \<open>
  The dispatcher of the bot (\<open>app/bot/main.py\<close>, \<open>app/bot/handlers/__init__.py\<close>): what happens to an
  update. The throttle drops what comes too fast; the session middleware commits what the handler
  leaves, or rolls it back when the handler raises; the access middleware stops suspended accounts
  and asks for the terms; then the first handler that matches in the order of the routers answers.
  The conversation is aiogram's and keeps what was set before an exception.

  How aiogram reads a command or unpacks the data of a button is not part of the repository: a
  message carries the command that was recognised, and \<open>x_unpack\<close> is the unpacking.
\<close>

section \<open>Updates\<close>

text \<open>The prefixes of \<open>app/bot/menus.py\<close> with their fields.\<close>

datatype callback =
    Menu string
  | Cat string
  | Svc string string
  | Ord string string
  | Wal string string
  | Adm string string
  | Rs string
  | Pr string
  | Share string string
  | Unknown

datatype update =
    Msg "string option" "(string \<times> string) option"
  | Edited "string option"
  | Press string

text \<open>What the outside answers while an update is handled: fresh ids, the panel, the gateway, the catalogues.\<close>

record outside =
  x_unpack :: "string \<Rightarrow> callback"
  x_pid :: string
  x_place :: "string res"
  x_status :: "provider_status res"
  x_adapter :: "unit res"
  x_refill :: "string res"
  x_cancel :: "unit res"
  x_post :: "(string \<times> json) list \<Rightarrow> rz_answer"
  x_fetch :: "string \<Rightarrow> gateway_status res"
  x_sync :: sync_env
  x_catalogs :: "string \<Rightarrow> provider_service list res"
  x_providers :: "string list"

section \<open>Buttons\<close>

definition on_menu :: "bot_env \<Rightarrow> string \<Rightarrow> chat \<Rightarrow> db \<Rightarrow> bot_result" where
  "on_menu env a ch s =
     (if a = ''accept_terms'' then bot_accept env ch s
      else if a = ''home'' then go_home env s
      else if a = ''terms'' \<or> a = ''privacy'' then show_policy env a ch s
      else if a = ''services'' then cb_services env ch s
      else if a = ''orders'' then render_list env 0 ch s
      else if a = ''refills'' then cb_refills env ch s
      else if a = ''balance'' then cb_balance env ch s
      else if a = ''ledger'' then cb_ledger env ch s
      else if a = ''deposit'' then cb_deposit env ch s
      else if a = ''profile'' then cb_profile env ch s
      else if a = ''settings'' then cb_settings env ch s
      else if a = ''toggle_notify'' then cb_toggle_notify env ch s
      else if a = ''support'' then cb_support env ch s
      else if a = ''stats'' then cb_stats env ch s
      else if a = ''rewards'' then cb_rewards env ch s
      else quietly ch s)"

definition on_service :: "bot_env \<Rightarrow> outside \<Rightarrow> string \<Rightarrow> string \<Rightarrow> chat \<Rightarrow> db \<Rightarrow> bot_result" where
  "on_service env x i a ch s =
     (if a = ''v'' then cb_service_view env i ch s
      else if a = ''o'' then cb_service_order env i ch s
      else if a = ''ok'' then cb_confirm_order env i (x_pid x) (x_place x) ch s
      else quietly ch s)"

definition on_order :: "bot_env \<Rightarrow> outside \<Rightarrow> string \<Rightarrow> string \<Rightarrow> chat \<Rightarrow> db \<Rightarrow> bot_result" where
  "on_order env x i a ch s =
     (if a = ''p'' then cb_orders_page env i ch s
      else if a = ''v'' then cb_order_view env i ch s
      else if a = ''r'' then cb_order_refresh env i (x_status x) ch s
      else if a = ''f'' then cb_order_refill env i (x_adapter x) (x_refill x) ch s
      else if a = ''x'' then cb_order_cancel_ask env i ch s
      else if a = ''xx'' then cb_order_cancel_go env i (x_adapter x) (x_cancel x) ch s
      else quietly ch s)"

definition on_wallet :: "bot_env \<Rightarrow> outside \<Rightarrow> string \<Rightarrow> string \<Rightarrow> chat \<Rightarrow> db \<Rightarrow> bot_result" where
  "on_wallet env x a v ch s =
     (if a = ''amt'' then cb_deposit_amount env v (x_pid x) (x_post x) ch s
      else if a = ''chk'' then cb_check_payment env v (x_fetch x) ch s
      else if a = ''pay'' then cb_mock_pay env v ch s
      else quietly ch s)"

definition on_reseller :: "bot_env \<Rightarrow> string \<Rightarrow> chat \<Rightarrow> db \<Rightarrow> bot_result" where
  "on_reseller env a ch s =
     (if a = ''home'' then partner_home env ''reseller'' s
      else if a = ''apply'' then partner_apply env ''reseller'' ch s
      else if a = ''down'' then partner_downline env ch s
      else if a = ''pay'' then partner_pay env ''reseller'' ch s
      else quietly ch s)"

definition on_promoter :: "bot_env \<Rightarrow> string \<Rightarrow> chat \<Rightarrow> db \<Rightarrow> bot_result" where
  "on_promoter env a ch s =
     (if a = ''home'' then promoter_home env s
      else if a = ''apply'' then promoter_apply env ch s
      else if a = ''pay'' then promoter_pay env ch s
      else quietly ch s)"

text \<open>The screens of providers, health and advertisements are left out: they answer nothing here.\<close>

definition on_admin :: "bot_env \<Rightarrow> string \<Rightarrow> string \<Rightarrow> chat \<Rightarrow> db \<Rightarrow> bot_result" where
  "on_admin env a v ch s =
     (if a = ''home'' then cb_admin_home env s
      else if a = ''dash'' then cb_dash env ch s
      else if a = ''k'' then cb_toggle_kill env v ch s
      else if a = ''lookup'' then cb_lookup_start env ch s
      else if a = ''credit'' then cb_credit_start env ch s
      else if a = ''apps'' then show_applications env ch s
      else if a = ''appr'' then cb_app_decide env True v ch s
      else if a = ''arej'' then cb_app_decide env False v ch s
      else quietly ch s)"

fun on_press :: "bot_env \<Rightarrow> outside \<Rightarrow> callback \<Rightarrow> chat \<Rightarrow> db \<Rightarrow> bot_result" where
  "on_press env x (Menu a) ch s = on_menu env a ch s"
| "on_press env x (Cat i) ch s = cb_category env i ch s"
| "on_press env x (Svc i a) ch s = on_service env x i a ch s"
| "on_press env x (Ord i a) ch s = on_order env x i a ch s"
| "on_press env x (Wal a v) ch s = on_wallet env x a v ch s"
| "on_press env x (Adm a v) ch s = on_admin env a v ch s"
| "on_press env x (Rs a) ch s = on_reseller env a ch s"
| "on_press env x (Pr a) ch s = on_promoter env a ch s"
| "on_press env x (Share k v) ch s =
     (if v \<in> set [''pick'', ''1'', ''2'', ''3'', ''4''] then cb_share env ch s else quietly ch s)"
| "on_press env x Unknown ch s = quietly ch s"

section \<open>Messages\<close>

definition is_cancel :: "string option \<Rightarrow> bool" where
  "is_cancel msg \<longleftrightarrow> to_dollar (\<lambda>t. t = ''/cancel'') (said msg)"

definition form_states :: "form_state list" where
  "form_states = [At_link, At_qty, At_comments, At_mentions, At_coupon]"

text \<open>
  The handlers of messages in the order of the routers: \<open>start.py\<close> answers its commands in every
  state, then come the states of the order form, \<open>/cancel\<close>, the screens, the dialogs of partners, and
  the administrators' commands and dialogs.
\<close>

definition start_command :: "string \<Rightarrow> bool" where
  "start_command c \<longleftrightarrow> c \<in> set [''start'', ''menu'', ''help'']"

definition on_start_command :: "bot_env \<Rightarrow> string \<Rightarrow> string \<Rightarrow> chat \<Rightarrow> db \<Rightarrow> bot_result" where
  "on_start_command env c args ch s =
     (if c = ''start'' then bot_start env args s
      else if c = ''menu'' then go_home env s
      else deliver env ch (Said ''help'') s)"

definition screen_command :: "string \<Rightarrow> bool" where
  "screen_command c \<longleftrightarrow> c \<in> set [''orders'', ''balance'', ''stats'', ''rewards'']"

definition on_screen_command :: "bot_env \<Rightarrow> string \<Rightarrow> chat \<Rightarrow> db \<Rightarrow> bot_result" where
  "on_screen_command env c ch s =
     (if c = ''orders'' then render_list env 0 ch s
      else if c = ''balance'' then cb_balance env ch s
      else if c = ''stats'' then cb_stats env ch s
      else cb_rewards env ch s)"

definition on_admin_command :: "bot_env \<Rightarrow> outside \<Rightarrow> string \<Rightarrow> string \<Rightarrow> chat \<Rightarrow> db \<Rightarrow> bot_result" where
  "on_admin_command env x c args ch s =
     (if c = ''maintenance'' then bot_maintenance env ch s
      else if c = ''confirmpay'' then cmd_confirmpay env args ch s
      else if c = ''sync'' then cmd_sync env (x_sync x) (x_catalogs x) (x_providers x) ch s
      else if c = ''revieworders'' then cmd_review_orders env ch s
      else quietly ch s)"

definition on_dialog :: "bot_env \<Rightarrow> outside \<Rightarrow> string option \<Rightarrow> string \<Rightarrow> string \<Rightarrow> chat \<Rightarrow> db \<Rightarrow> bot_result" where
  "on_dialog env x msg c args ch s =
     (case fst ch of
        At_pitch kind \<Rightarrow> partner_got_pitch env kind msg ch s
      | At_payout kind \<Rightarrow> partner_got_amount env kind (x_pid x) msg ch s
      | st \<Rightarrow>
          if c = ''admin'' then cmd_admin env s
          else if st = Adm_user then admin_got_user env msg ch s
          else if st = Adm_amount then admin_got_amount env msg ch s
          else if st = Adm_reason then admin_got_reason env (x_pid x) msg ch s
          else on_admin_command env x c args ch s)"

definition on_message ::
  "bot_env \<Rightarrow> outside \<Rightarrow> string option \<Rightarrow> (string \<times> string) option \<Rightarrow> chat \<Rightarrow> db \<Rightarrow> bot_result" where
  "on_message env x msg cmd ch s =
     (let c = (case cmd of None \<Rightarrow> [] | Some (c, a) \<Rightarrow> c);
          args = (case cmd of None \<Rightarrow> [] | Some (c, a) \<Rightarrow> a)
      in if start_command c then on_start_command env c args ch s
         else if fst ch \<in> set form_states then form_message env msg ch s
         else if is_cancel msg then cmd_cancel_form env ch s
         else if screen_command c then on_screen_command env c ch s
         else on_dialog env x msg c args ch s)"

fun on_update :: "bot_env \<Rightarrow> outside \<Rightarrow> update \<Rightarrow> chat \<Rightarrow> db \<Rightarrow> bot_result" where
  "on_update env x (Msg msg cmd) ch s = on_message env x msg cmd ch s"
| "on_update env x (Edited msg) ch s = quietly ch s"
| "on_update env x (Press raw) ch s = on_press env x (x_unpack x raw) ch s"

section \<open>Access\<close>

definition TERMS_FREE_CALLBACKS :: "string list" where
  "TERMS_FREE_CALLBACKS = [''m:accept_terms'', ''m:terms'', ''m:privacy'']"

fun terms_free :: "update \<Rightarrow> bool" where
  "terms_free (Msg msg cmd) = starts_with ''/start'' (said msg)"
| "terms_free (Edited msg) = starts_with ''/start'' (said msg)"
| "terms_free (Press raw) = (raw \<in> set TERMS_FREE_CALLBACKS \<or> starts_with ''m:accept_terms'' raw)"

text \<open>The alert for a suspended account may fail silently, the message may not.\<close>

definition suspended :: "bot_env \<Rightarrow> update \<Rightarrow> chat \<Rightarrow> db \<Rightarrow> bot_result" where
  "suspended env up ch s =
     (case up of Press raw \<Rightarrow> (ch, Inr (Screen Suspended, s)) | _ \<Rightarrow> deliver env ch (Screen Suspended) s)"

definition access :: "bot_env \<Rightarrow> outside \<Rightarrow> update \<Rightarrow> chat \<Rightarrow> db \<Rightarrow> bot_result" where
  "access env x up ch s =
     (case users s (be_uid env) of
        None \<Rightarrow> on_update env x up ch s
      | Some u \<Rightarrow>
          if u_is_banned u then suspended env up ch s
          else if u_terms_accepted_at u = None \<and> \<not> terms_free up then deliver env ch (Screen Terms) s
          else on_update env x up ch s)"

section \<open>The bot\<close>

text \<open>The conversations by user and chat, the rows, and the throttle: 45 updates of a user in 60 seconds.\<close>

record bot_state =
  bs_chats :: "int \<times> int \<Rightarrow> chat"
  bs_db :: db
  bs_limiter :: limiter

definition new_throttle :: "rat \<Rightarrow> limiter" where "new_throttle now = new_limiter 45 60 50000 now"

definition bot_step :: "bot_env \<Rightarrow> outside \<Rightarrow> int \<Rightarrow> rat \<Rightarrow> update \<Rightarrow> bot_state \<Rightarrow> bot_state" where
  "bot_step env x cid clock up b =
     (let (ok, L) = allow (str_int (be_uid env)) clock (bs_limiter b);
          key = (be_uid env, cid)
      in if \<not> ok then b\<lparr>bs_limiter := L\<rparr>
         else let (ch, s) = session_end (access env x up (bs_chats b key) (bs_db b)) (bs_db b)
              in b\<lparr>bs_chats := (bs_chats b)(key := ch), bs_db := s, bs_limiter := L\<rparr>)"

definition new_bot :: "rat \<Rightarrow> db \<Rightarrow> bot_state" where
  "new_bot now s = \<lparr>bs_chats = (\<lambda>_. cleared), bs_db = s, bs_limiter = new_throttle now\<rparr>"

fun bot_run :: "(bot_env \<times> outside \<times> int \<times> rat \<times> update) list \<Rightarrow> bot_state \<Rightarrow> bot_state" where
  "bot_run [] b = b"
| "bot_run ((env, x, cid, clock, up) # us) b = bot_run us (bot_step env x cid clock up b)"

end
