(* ===== verification/Books.thy ===== *)
theory Books
  imports Shop
begin

text \<open>
  The invariant \<open>shop_inv\<close> for each operation under its own name, from the composition in \<open>Shop\<close>:
  what the entry points (the bot, the workers) need to carry the books through their handlers.
\<close>

lemma profile_keeps: "profile_step s t \<Longrightarrow> shop_inv H s \<Longrightarrow> shop_inv H t"
  by (rule profile_shop)

lemma order_keeps:
  assumes "order_op env q s = Inr (ids, t)" and "env_digest env = H" and "shop_inv H s"
  shows "shop_inv H t"
proof -
  have "env\<lparr>env_digest := H\<rparr> = env" using assms(2) by auto
  then have "shop_op R D H (Sh_order env q) s = Inr ((), t)" for R D
    using assms(1) by (simp add: no_result_def)
  then show ?thesis using assms(3) by (rule shop_op_inv)
qed

lemma place_keeps: "place_order env q answer s = Inr (oid, t) \<Longrightarrow> shop_inv (env_digest env) s \<Longrightarrow> shop_inv (env_digest env) t"
  using order_keeps [of env "Place q answer" s "[oid]" t "env_digest env"] by simp

lemma sync_keeps: "sync_order_status env r answer s = Inr (oid, t) \<Longrightarrow> shop_inv (env_digest env) s \<Longrightarrow> shop_inv (env_digest env) t"
  using order_keeps [of env "Sync r answer" s "[oid]" t "env_digest env"] by simp

lemma refill_keeps:
  "request_refill env r uid ad answer s = Inr (oid, t) \<Longrightarrow> shop_inv (env_digest env) s \<Longrightarrow> shop_inv (env_digest env) t"
  using order_keeps [of env "Refill r uid ad answer" s "[oid]" t "env_digest env"] by simp

lemma cancel_keeps:
  "request_cancel env r uid ad answer s = Inr (oid, t) \<Longrightarrow> shop_inv (env_digest env) s \<Longrightarrow> shop_inv (env_digest env) t"
  using order_keeps [of env "Cancel r uid ad answer" s "[oid]" t "env_digest env"] by simp

lemma payment_keeps:
  assumes "payment_op R H now q s = Inr (x, t)" and "shop_inv H s" shows "shop_inv H t"
  using shop_op_inv [of R D H "Sh_payment now q"] assms by (auto simp: no_result_Inr)

lemma deposit_keeps:
  "create_deposit R H now st post q s = Inr (p, t) \<Longrightarrow> shop_inv H s \<Longrightarrow> shop_inv H t"
  by (rule payment_keeps [of R H now "Pay_create st post q" s "()"]) (simp_all add: no_result_def)

lemma check_keeps:
  "check_payment H now st fetch pid uid s = Inr (p, t) \<Longrightarrow> shop_inv H s \<Longrightarrow> shop_inv H t"
  by (rule payment_keeps [of undefined H now "Pay_check st fetch pid uid" s "()"]) (simp_all add: no_result_def)

lemma manual_keeps:
  "manual_confirm H now pid who s = Inr (out, t) \<Longrightarrow> shop_inv H s \<Longrightarrow> shop_inv H t"
  by (rule payment_keeps [of undefined H now "Pay_manual pid who" s "()"]) (simp_all add: no_result_def)

lemma shop_pay_inv: "shop_inv H s \<Longrightarrow> pay_inv H s"
  by (simp add: shop_inv_def pay_inv_def book_inv_wallet shop_digest_good)

lemma settle_keeps:
  "settle_payment H now q s = Inr (out, t) \<Longrightarrow> shop_inv H s \<Longrightarrow> shop_inv H t"
  using payment_side_shop settle_side settle_inv shop_pay_inv pay_inv_def by metis

lemma payout_keeps:
  "request_payout H pid uid kind amount s = Inr (r, t) \<Longrightarrow> shop_inv H s \<Longrightarrow> shop_inv H t"
  using account_side_shop payout_side by (metis shop_inv_def)

lemma adjust_keeps:
  "admin_adjust H adj actor target amount why s = Inr (r, t) \<Longrightarrow> shop_inv H s \<Longrightarrow> shop_inv H t"
  using account_side_shop admin_adjust_side by (metis shop_inv_def)

lemma terms_keeps:
  "accept_terms H D now st q s = Inr (r, t) \<Longrightarrow> shop_inv H s \<Longrightarrow> shop_inv H t"
  using account_side_shop accept_terms_side by (metis shop_inv_def)

lemma toggle_keeps: "toggle_kill key actor s = Inr (k, t) \<Longrightarrow> shop_inv H s \<Longrightarrow> shop_inv H t"
  using profile_keeps toggle_kill_profile by blast

lemma decide_keeps: "decide_application approve aid s = Inr (k, t) \<Longrightarrow> shop_inv H s \<Longrightarrow> shop_inv H t"
  using profile_keeps decide_profile by blast

lemma sync_all_keeps: "sync_all se answers pids s = Inr (reps, t) \<Longrightarrow> shop_inv H s \<Longrightarrow> shop_inv H t"
  using profile_keeps sync_all_profile by blast

lemma apply_keeps: "shop_inv H s \<Longrightarrow> shop_inv H (snd (submit_application uid kind pitch s))"
  by (rule profile_keeps [OF apply_profile]) (auto simp: prod_eq_iff)

end
