(* ===== verification/BotSpec.thy ===== *)
theory BotSpec
  imports Bot Books AccountSpec
begin

text \<open>
  What the bot guarantees, whatever updates arrive, whatever Telegram, the panels and the gateway
  answer: the books of the shop stay right, nobody orders without having accepted the terms, and a
  dialog can always be left.
\<close>

named_theorems keeps_intro \<open>rules that carry an invariant through a handler\<close>

section \<open>Invariants of handlers\<close>

text \<open>What a handler leaves to be committed satisfies \<open>I\<close>.\<close>

definition keeps :: "(db \<Rightarrow> bool) \<Rightarrow> bot_result \<Rightarrow> bool" where
  "keeps I r \<longleftrightarrow> (\<forall>reply t. snd r = Inr (reply, t) \<longrightarrow> I t)"

lemma keeps_deliver [keeps_intro]: "I s \<Longrightarrow> keeps I (deliver env ch reply s)"
  by (simp add: keeps_def deliver_def)

lemma keeps_quietly [keeps_intro]: "I s \<Longrightarrow> keeps I (quietly ch s)"
  by (simp add: keeps_def quietly_def)

lemma keeps_answer [keeps_intro]: "I s \<Longrightarrow> keeps I (ch, Inr (reply, s))"
  by (simp add: keeps_def)

lemma keeps_fail [keeps_intro]: "keeps I (ch, Inl e)"
  by (simp add: keeps_def)

lemma keeps_or_fail [keeps_intro]: "(\<And>x. m = Inr x \<Longrightarrow> keeps I (f x)) \<Longrightarrow> keeps I (or_fail ch m f)"
  by (cases m) (simp_all add: keeps_fail)

lemma keeps_if [keeps_intro]: "(b \<Longrightarrow> keeps I x) \<Longrightarrow> (\<not> b \<Longrightarrow> keeps I y) \<Longrightarrow> keeps I (if b then x else y)"
  by simp

lemma keeps_option [keeps_intro]:
  "(m = None \<Longrightarrow> keeps I x) \<Longrightarrow> (\<And>y. m = Some y \<Longrightarrow> keeps I (f y)) \<Longrightarrow>
    keeps I (case m of None \<Rightarrow> x | Some y \<Rightarrow> f y)"
  by (cases m) simp_all

lemma keeps_session_end: "keeps I r \<Longrightarrow> I s \<Longrightarrow> I (snd (session_end r s))"
  by (auto simp: keeps_def session_end_def split: sum.split)

section \<open>What the bot adds to the operations\<close>

lemma dead_invoice_keeps:
  assumes "shop_inv H s" shows "shop_inv H (dead_invoice H now st q m s)"
proof -
  have "shop_inv H t" if "insert_payment (new_payment H now st q n) s = Inr t" for t n
    using payment_side_shop [OF assms insert_payment_side [OF that]]
      insert_payment_inv [OF that shop_pay_inv [OF assms]] by (simp add: new_payment_def)
  then show ?thesis using assms by (auto simp: dead_invoice_def split: sum.split)
qed

lemma register_keeps: "register env s = Inr (uid, t) \<Longrightarrow> shop_inv H s \<Longrightarrow> shop_inv H t"
  unfolding register_def using profile_keeps ensure_user_profile by blast

lemma menu_kb_keeps: "menu_kb_for env uid s = Inr t \<Longrightarrow> shop_inv H s \<Longrightarrow> shop_inv H t"
  unfolding menu_kb_for_def using profile_keeps partner_flags_profile by (auto; blast)

section \<open>The handlers keep the books\<close>

lemma keeps_registered [keeps_intro]:
  "shop_inv H s \<Longrightarrow> (\<And>u t. shop_inv H t \<Longrightarrow> keeps (shop_inv H) (f u t)) \<Longrightarrow>
    keeps (shop_inv H) (registered env ch s f)"
  unfolding registered_def by (intro keeps_or_fail) (auto intro!: keeps_or_fail dest: register_keeps)

lemma render_keeps: "render_home st uid s = Inr (scr, t) \<Longrightarrow> shop_inv H s \<Longrightarrow> shop_inv H t"
  using profile_keeps render_home_profile by blast

lemma start_keeps: "cmd_start D st q arg s = Inr (scr, t) \<Longrightarrow> shop_inv H s \<Longrightarrow> shop_inv H t"
  using profile_keeps cmd_start_profile by blast

lemma referral_code_keeps: "ensure_referral_code D uid s = Inr (c, t) \<Longrightarrow> shop_inv H s \<Longrightarrow> shop_inv H t"
  using profile_keeps referral_code_profile by blast

lemma referral_snapshot_keeps: "referral_snapshot D uid s = Inr (c, t) \<Longrightarrow> shop_inv H s \<Longrightarrow> shop_inv H t"
  unfolding referral_snapshot_def by (auto dest: referral_code_keeps)

lemma promoter_snapshot_keeps: "promoter_snapshot D uid s = Inr (c, t) \<Longrightarrow> shop_inv H s \<Longrightarrow> shop_inv H t"
  unfolding promoter_snapshot_def by (auto simp: Let_def dest!: referral_snapshot_keeps referral_code_keeps)

lemmas operation_keeps = register_keeps menu_kb_keeps render_keeps start_keeps referral_code_keeps
  referral_snapshot_keeps promoter_snapshot_keeps place_keeps sync_keeps refill_keeps cancel_keeps deposit_keeps
  check_keeps manual_keeps settle_keeps payout_keeps adjust_keeps terms_keeps

abbreviation books :: "bot_env \<Rightarrow> db \<Rightarrow> bool" where
  "books env \<equiv> shop_inv (env_digest (be_orders env))"

lemma screens_keep:
  assumes "books env s"
  shows "keeps (books env) (bot_start env arg s)"
    "keeps (books env) (bot_accept env ch s)"
    "keeps (books env) (go_home env s)"
    "keeps (books env) (render_list env pg ch s)"
    "keeps (books env) (cb_refills env ch s)"
    "keeps (books env) (cb_balance env ch s)"
    "keeps (books env) (cb_ledger env ch s)"
    "keeps (books env) (cb_deposit env ch s)"
    "keeps (books env) (cb_profile env ch s)"
    "keeps (books env) (cb_settings env ch s)"
    "keeps (books env) (cb_support env ch s)"
    "keeps (books env) (show_policy env a ch s)"
    "keeps (books env) (cb_stats env ch s)"
    "keeps (books env) (cb_rewards env ch s)"
    "keeps (books env) (cb_share env ch s)"
  using assms unfolding bot_start_def bot_accept_def go_home_def render_list_def cb_refills_def cb_balance_def
    cb_ledger_def cb_deposit_def cb_profile_def cb_settings_def cb_support_def show_policy_def setting_screen_def
    cb_stats_def cb_rewards_def cb_share_def Let_def
  by (auto intro!: keeps_intro dest: operation_keeps split: sum.split exn.split)

lemma toggle_notify_keeps: "shop_inv H s \<Longrightarrow> shop_inv H (update_user uid toggle_notify s)"
  by (rule profile_keeps [OF profile_update]) (simp add: keeps_wallet_def toggle_notify_def)

lemma toggle_screen_keeps: "books env s \<Longrightarrow> keeps (books env) (cb_toggle_notify env ch s)"
  unfolding cb_toggle_notify_def by (auto intro!: keeps_intro toggle_notify_keeps)

lemma form_keeps:
  assumes "books env s"
  shows "keeps (books env) (cb_services env ch s)"
    "keeps (books env) (cb_category env i ch s)"
    "keeps (books env) (cb_service_view env i ch s)"
    "keeps (books env) (cb_service_order env i ch s)"
    "keeps (books env) (cmd_cancel_form env ch s)"
    "keeps (books env) (form_link env msg d s)"
    "keeps (books env) (form_qty env msg d s)"
    "keeps (books env) (form_comments env msg d s)"
    "keeps (books env) (form_mentions env msg d s)"
  using assms unfolding cb_services_def cb_category_def cb_service_view_def cb_service_order_def cmd_cancel_form_def
    form_link_def form_qty_def form_comments_def form_mentions_def order_cancelled_def service_gone_def ask_next_def Let_def
  by (auto intro!: keeps_intro dest: operation_keeps split: option.split sum.split exn.split)

lemma coupon_keeps: "books env s \<Longrightarrow> keeps (books env) (form_coupon env msg d s)"
  unfolding form_coupon_def order_cancelled_def Let_def
  by (auto intro!: keeps_intro dest: operation_keeps split: option.split sum.split exn.split)

lemma confirm_keeps: "books env s \<Longrightarrow> keeps (books env) (cb_confirm_order env i pid answer ch s)"
  unfolding cb_confirm_order_def confirm_outcome_def
  by (auto intro!: keeps_intro split: sum.split exn.split) (blast dest: operation_keeps)+

lemma form_message_keeps: "books env s \<Longrightarrow> keeps (books env) (form_message env msg ch s)"
  unfolding form_message_def Let_def
  by (auto intro!: keeps_intro form_keeps coupon_keeps split: form_state.split)

lemma orders_keep:
  assumes "books env s"
  shows "keeps (books env) (cb_orders_page env i ch s)"
    "keeps (books env) (cb_order_view env i ch s)"
    "keeps (books env) (cb_order_refresh env i status ch s)"
    "keeps (books env) (cb_order_refill env i adapter answer ch s)"
    "keeps (books env) (cb_order_cancel_ask env i ch s)"
    "keeps (books env) (cb_order_cancel_go env i adapter ans ch s)"
  using assms unfolding cb_orders_page_def cb_order_view_def cb_order_refresh_def cb_order_refill_def
    cb_order_cancel_ask_def cb_order_cancel_go_def with_own_def act_outcome_def show_order_def
  by (auto intro!: keeps_intro screens_keep split: option.split sum.split exn.split) (blast dest: operation_keeps)+

lemma wallet_keeps:
  assumes "books env s"
  shows "keeps (books env) (cb_deposit_amount env v pid post ch s)"
    "keeps (books env) (cb_check_payment env pid fetch ch s)"
    "keeps (books env) (cb_mock_pay env pid ch s)"
  using assms unfolding cb_deposit_amount_def cb_check_payment_def cb_mock_pay_def show_invoice_def Let_def
  by (auto intro!: keeps_intro dead_invoice_keeps split: option.split sum.split exn.split) (blast dest: operation_keeps)+

lemma is_partner_keeps: "is_partner env kind uid s = Inr (yes, t) \<Longrightarrow> shop_inv H s \<Longrightarrow> shop_inv H t"
  using profile_keeps is_reseller_profile is_promoter_profile
  by (auto simp: is_partner_def split: if_split_asm; blast)

lemma keeps_as_partner [keeps_intro]:
  "shop_inv H s \<Longrightarrow> (\<And>yes uid t. shop_inv H t \<Longrightarrow> keeps (shop_inv H) (f yes uid t)) \<Longrightarrow>
    keeps (shop_inv H) (as_partner env kind ch s f)"
  unfolding as_partner_def by (intro keeps_or_fail) (auto intro!: keeps_or_fail dest: register_keeps is_partner_keeps)

lemma show_partner_keeps [keeps_intro]: "shop_inv H s \<Longrightarrow> keeps (shop_inv H) (show_partner env kind ch uid s)"
  unfolding show_partner_def partner_card_def
  by (auto intro!: keeps_intro dest: promoter_snapshot_keeps split: if_split_asm)

lemma partners_keep:
  assumes "books env s"
  shows "keeps (books env) (partner_home env kind s)"
    "keeps (books env) (partner_apply env kind ch s)"
    "keeps (books env) (partner_got_pitch env kind msg ch s)"
    "keeps (books env) (partner_downline env ch s)"
    "keeps (books env) (partner_pay env kind ch s)"
    "keeps (books env) (partner_got_amount env kind pid msg ch s)"
  using assms unfolding partner_home_def partner_apply_def partner_got_pitch_def partner_downline_def partner_pay_def
    partner_got_amount_def
  by (auto intro!: keeps_intro apply_keeps split: option.split sum.split exn.split) (blast dest: operation_keeps)+

lemma keeps_staff_gate [keeps_intro]:
  "shop_inv H s \<Longrightarrow> (\<And>t. shop_inv H t \<Longrightarrow> keeps (shop_inv H) (refused t)) \<Longrightarrow>
    (\<And>actor t. shop_inv H t \<Longrightarrow> keeps (shop_inv H) (f actor t)) \<Longrightarrow>
    keeps (shop_inv H) (staff_gate env ch s refused f)"
  unfolding staff_gate_def by (auto intro!: keeps_intro)

lemma keeps_not_authorised [keeps_intro]: "I s \<Longrightarrow> keeps I (not_authorised env ch s)"
  unfolding not_authorised_def by (rule keeps_deliver)

lemma maintenance_keeps: "shop_inv H s \<Longrightarrow> shop_inv H (cmd_maintenance s)"
  by (rule profile_keeps [OF profile_same_users]) (simp_all add: cmd_maintenance_def set_setting_def)

lemma admin_keeps:
  assumes "books env s"
  shows "keeps (books env) (cmd_admin env s)"
    "keeps (books env) (cb_admin_home env s)"
    "keeps (books env) (cb_dash env ch s)"
    "keeps (books env) (cb_toggle_kill env key ch s)"
    "keeps (books env) (ask_user env mode ch s)"
    "keeps (books env) (admin_got_user env msg ch s)"
    "keeps (books env) (admin_got_amount env msg ch s)"
    "keeps (books env) (admin_got_reason env adj msg ch s)"
    "keeps (books env) (bot_maintenance env ch s)"
    "keeps (books env) (cmd_confirmpay env args ch s)"
    "keeps (books env) (cmd_sync env se answers pids ch s)"
    "keeps (books env) (cmd_review_orders env ch s)"
    "keeps (books env) (show_applications env ch s)"
  using assms unfolding cmd_admin_def cb_admin_home_def cb_dash_def cb_toggle_kill_def ask_user_def admin_got_user_def
    admin_got_amount_def admin_got_reason_def bot_maintenance_def cmd_confirmpay_def cmd_sync_def
    cmd_review_orders_def show_applications_def Let_def
  by (auto intro!: keeps_intro maintenance_keeps split: option.split)
    (blast dest: operation_keeps toggle_keeps sync_all_keeps)+

lemma app_decide_keeps: "books env s \<Longrightarrow> keeps (books env) (cb_app_decide env approve v ch s)"
  unfolding cb_app_decide_def
  by (auto intro!: keeps_intro admin_keeps split: option.split) (blast dest: decide_keeps)+

section \<open>Dispatch\<close>

lemmas handlers_keep = keeps_quietly keeps_deliver screens_keep toggle_screen_keeps form_keeps form_message_keeps confirm_keeps
  orders_keep wallet_keeps partners_keep admin_keeps app_decide_keeps

lemma commands_keep:
  assumes "books env s"
  shows "keeps (books env) (on_start_command env c args ch s)"
    "keeps (books env) (on_screen_command env c ch s)"
    "keeps (books env) (on_admin_command env x c args ch s)"
  unfolding on_start_command_def on_screen_command_def on_admin_command_def
  by (intro keeps_if handlers_keep assms)+

lemma dialog_keeps: "books env s \<Longrightarrow> keeps (books env) (on_dialog env x msg c args ch s)"
  unfolding on_dialog_def
  by (cases "fst ch"; simp only: form_state.case; intro keeps_if handlers_keep commands_keep; assumption)

lemma message_keeps: "books env s \<Longrightarrow> keeps (books env) (on_message env x msg cmd ch s)"
  unfolding on_message_def Let_def by (intro keeps_if handlers_keep commands_keep dialog_keeps; assumption)

lemma buttons_keep:
  assumes "books env s"
  shows "keeps (books env) (on_menu env a ch s)"
    "keeps (books env) (on_service env x i a ch s)"
    "keeps (books env) (on_order env x i a ch s)"
    "keeps (books env) (on_wallet env x a v ch s)"
    "keeps (books env) (on_reseller env a ch s)"
    "keeps (books env) (on_promoter env a ch s)"
    "keeps (books env) (on_admin env a v ch s)"
  unfolding on_menu_def on_service_def on_order_def on_wallet_def on_reseller_def on_promoter_def on_admin_def
    promoter_home_def promoter_apply_def promoter_pay_def cb_lookup_start_def cb_credit_start_def
  by (intro keeps_if handlers_keep assms)+

lemma press_keeps: "books env s \<Longrightarrow> keeps (books env) (on_press env x cb ch s)"
  by (cases cb) (simp_all add: buttons_keep form_keeps keeps_quietly screens_keep)

lemma update_keeps: "books env s \<Longrightarrow> keeps (books env) (on_update env x up ch s)"
  by (cases up) (auto intro!: message_keeps press_keeps keeps_intro)

lemma access_keeps: "books env s \<Longrightarrow> keeps (books env) (access env x up ch s)"
  unfolding access_def suspended_def
  by (auto intro!: keeps_intro update_keeps split: option.split update.split simp del: on_update.simps)

lemma step_keeps:
  assumes "books env (bs_db b)" shows "books env (bs_db (bot_step env x cid clock up b))"
proof -
  let ?r = "access env x up (bs_chats b (be_uid env, cid)) (bs_db b)"
  have "books env (snd (session_end ?r (bs_db b)))"
    using access_keeps [OF assms] assms by (rule keeps_session_end)
  then show ?thesis using assms by (simp add: bot_step_def Let_def case_prod_beta)
qed

text \<open>
  C27: The bot keeps the books. Whatever updates arrive, from whomever, in whatever order, and
  whatever Telegram, the panels and the gateway answer: after each of them wallets agree with the
  ledger, refunds stay within charges, deposits are credited exactly once and bonuses at most once.
\<close>

theorem bot_keeps_books:
  assumes "\<forall>(env, x, cid, clock, up) \<in> set us. env_digest (be_orders env) = H" and "shop_inv H (bs_db b)"
  shows "shop_inv H (bs_db (bot_run us b))"
  using assms
proof (induction us arbitrary: b)
  case (Cons u us)
  obtain env x cid clock up where u: "u = (env, x, cid, clock, up)" by (metis prod.exhaust)
  have "shop_inv H (bs_db (bot_step env x cid clock up b))"
    using step_keeps [of env b] Cons.prems by (simp add: u)
  then show ?case using Cons.IH Cons.prems(1) by (simp add: u)
qed simp

section \<open>Suspended accounts and the terms\<close>

lemma session_end_same: "r = (ch, Inr (reply, s)) \<or> r = deliver env ch reply s \<Longrightarrow> session_end r s = (ch, s)"
  by (auto simp: session_end_def deliver_def)

definition shut_out :: "user_row \<Rightarrow> update \<Rightarrow> bool" where
  "shut_out u up \<longleftrightarrow> u_is_banned u \<or> (u_terms_accepted_at u = None \<and> \<not> terms_free up)"

lemma shut_out_step:
  assumes "users (bs_db b) (be_uid env) = Some u" and "shut_out u up"
  shows "bs_db (bot_step env x cid clock up b) = bs_db b \<and>
    bs_chats (bot_step env x cid clock up b) = bs_chats b"
proof -
  let ?ch = "bs_chats b (be_uid env, cid)" and ?s = "bs_db b"
  have "session_end (access env x up ?ch ?s) ?s = (?ch, ?s)"
    by (cases "u_is_banned u")
      (use assms in \<open>auto simp: access_def suspended_def shut_out_def intro!: session_end_same split: update.split\<close>)
  then show ?thesis by (auto simp: bot_step_def Let_def case_prod_beta)
qed

text \<open>
  C30: A suspended account is inert. Nothing that a suspended user sends or presses, and nothing but
  the start link and the terms screens for a registered user who has not accepted the terms, changes a
  row or a conversation, however long they try.
\<close>

theorem shut_out_users_change_nothing:
  assumes "users (bs_db b) uid = Some u"
    and "\<forall>(env, x, cid, clock, up) \<in> set us. be_uid env = uid \<and> shut_out u up"
  shows "bs_db (bot_run us b) = bs_db b \<and> bs_chats (bot_run us b) = bs_chats b"
  using assms
proof (induction us arbitrary: b)
  case (Cons q us)
  obtain env x cid clock up where q: "q = (env, x, cid, clock, up)" by (metis prod.exhaust)
  have step: "bs_db (bot_step env x cid clock up b) = bs_db b" "bs_chats (bot_step env x cid clock up b) = bs_chats b"
    using shut_out_step [of b env u up x cid clock] Cons.prems by (simp_all add: q)
  show ?case using Cons.IH [of "bot_step env x cid clock up b"] Cons.prems by (simp add: q step)
qed simp

section \<open>Leaving a dialog\<close>

lemma cancel_texts:
  "starts_with ''/cancel'' ''/cancel''" "starts_with ''/'' ''/cancel''"
  "strip (filter (\<lambda>c. c \<noteq> CHR '','') ''/cancel'') = ''/cancel''" "to_dollar (\<lambda>t. t = ''/cancel'') ''/cancel''"
  by code_simp+

lemma cancelled_form:
  assumes "fst ch \<in> set form_states"
  shows "form_message env (Some ''/cancel'') ch s = deliver env cleared (Said ''Order cancelled.'') s"
  using assms cancel_texts
  by (auto simp: form_states_def form_message_def Let_def said_def cancels_def order_cancelled_def form_link_def
      form_qty_def form_comments_def form_mentions_def form_coupon_def)

lemma register_profile: "register env s = Inr (uid, t) \<Longrightarrow> profile_step s t"
  by (auto simp: register_def dest: ensure_user_profile)

lemma menu_kb_profile: "menu_kb_for env uid s = Inr t \<Longrightarrow> profile_step s t"
  by (auto simp: menu_kb_for_def dest: partner_flags_profile)

lemma cmd_cancel_form_leaves:
  "fst (fst (cmd_cancel_form env ch s)) = No_form"
  "snd (cmd_cancel_form env ch s) = Inr (reply, t) \<Longrightarrow> profile_step s t"
proof -
  show "fst (fst (cmd_cancel_form env ch s)) = No_form"
    by (auto simp: cmd_cancel_form_def or_fail_def deliver_def cleared_def split: sum.split)
  show "profile_step s t" if "snd (cmd_cancel_form env ch s) = Inr (reply, t)"
    using that
    by (auto simp: cmd_cancel_form_def or_fail_def deliver_def split: sum.split_asm if_split_asm
        intro: profile_trans dest!: register_profile menu_kb_profile)
qed

lemma cancel_access:
  assumes "access env x (Msg (Some ''/cancel'') cmd) ch s = (ch', r)"
    and "\<And>u. users s (be_uid env) = Some u \<Longrightarrow> u_terms_accepted_at u \<noteq> None \<and> \<not> u_is_banned u"
    and "\<forall>c a. cmd = Some (c, a) \<longrightarrow> \<not> start_command c"
  shows "fst ch' = No_form \<and> (\<forall>reply t. r = Inr (reply, t) \<longrightarrow> profile_step s t)"
proof -
  have none: "\<not> start_command (case cmd of None \<Rightarrow> [] | Some (c, a) \<Rightarrow> c)"
    using assms(3) by (auto simp: start_command_def split: option.split)
  have e: "on_message env x (Some ''/cancel'') cmd ch s = (ch', r)"
    using assms(1,2) by (auto simp: access_def split: option.splits)
  show ?thesis
  proof (cases "fst ch \<in> set form_states")
    case True
    then have "deliver env cleared (Said ''Order cancelled.'') s = (ch', r)"
      using e none by (simp add: on_message_def Let_def cancelled_form)
    then show ?thesis by (auto simp: deliver_def cleared_def split: if_split_asm)
  next
    case False
    then have "cmd_cancel_form env ch s = (ch', r)"
      using e none cancel_texts(4) by (simp add: on_message_def Let_def is_cancel_def said_def)
    then show ?thesis using cmd_cancel_form_leaves [of env ch s] by (metis fst_conv snd_conv)
  qed
qed

text \<open>
  C31: Every dialog can be left. Whoever is served, that is anybody but a suspended account and a
  registered user who has not accepted the terms, and whose message passes the throttle: in whatever state
  the conversation of a customer, partner or administrator is, after /cancel it is in no form, even when
  Telegram or the database fail, and no wallet, order or payment has changed; other conversations stay as
  they are.
\<close>

theorem cancel_always_leaves:
  assumes "\<And>u. users (bs_db b) (be_uid env) = Some u \<Longrightarrow> u_terms_accepted_at u \<noteq> None \<and> \<not> u_is_banned u"
    and "fst (allow (str_int (be_uid env)) clock (bs_limiter b))"
    and "\<forall>c a. cmd = Some (c, a) \<longrightarrow> \<not> start_command c"
    and "b' = bot_step env x cid clock (Msg (Some ''/cancel'') cmd) b"
  shows "fst (bs_chats b' (be_uid env, cid)) = No_form \<and> profile_step (bs_db b) (bs_db b') \<and>
    (\<forall>key. key \<noteq> (be_uid env, cid) \<longrightarrow> bs_chats b' key = bs_chats b key)"
proof -
  obtain ch' r where run: "access env x (Msg (Some ''/cancel'') cmd) (bs_chats b (be_uid env, cid)) (bs_db b) = (ch', r)"
    by fastforce
  note left = cancel_access [OF run assms(1,3)]
  obtain ok L where L: "allow (str_int (be_uid env)) clock (bs_limiter b) = (ok, L)" by fastforce
  then have ok using assms(2) by simp
  then have b': "b' = b\<lparr>bs_chats := (bs_chats b)((be_uid env, cid) := ch'),
      bs_db := (case r of Inl e \<Rightarrow> bs_db b | Inr (y, t) \<Rightarrow> t), bs_limiter := L\<rparr>"
    using run L by (simp add: assms(4) bot_step_def Let_def session_end_def)
  show ?thesis
    using left by (cases r) (auto simp: b')
qed

section \<open>Only staff\<close>

text \<open>A sender who is neither the owner of the settings nor, if registered, an administrator or owner.\<close>

definition no_staff :: "bot_env \<Rightarrow> db \<Rightarrow> bool" where
  "no_staff env s \<longleftrightarrow> be_uid env \<noteq> owner_telegram_id (be_settings env) \<and>
     (\<forall>u. users s (be_uid env) = Some u \<longrightarrow> telegram_id u = be_uid env \<and> u_role u \<notin> {''admin'', ''owner''})"

text \<open>A row of a user without what Telegram tells of the user and the referral code.\<close>

definition apart_from_profile :: "user_row \<Rightarrow> user_row" where
  "apart_from_profile u = u\<lparr>u_username := None, u_first_name := None, u_last_name := None,
     u_language_code := [], u_referral_code := None\<rparr>"

text \<open>
  Nothing changes but that the sender is registered and the profile refreshed: no other row of any
  table, and in the sender's own row no role, no wallet, no acceptance, no suspension and no referrer.
\<close>

definition own_profile_only :: "bot_env \<Rightarrow> db \<Rightarrow> db \<Rightarrow> bool" where
  "own_profile_only env s t \<longleftrightarrow>
     t = s\<lparr>users := (users s)(be_uid env := users t (be_uid env)), user_ids := user_ids t\<rparr> \<and>
     (user_ids t = user_ids s \<or> users s (be_uid env) = None \<and> user_ids t = user_ids s @ [be_uid env]) \<and>
     (users t (be_uid env) = users s (be_uid env) \<or>
      map_option apart_from_profile (users t (be_uid env)) = Some (apart_from_profile
        (case users s (be_uid env) of None \<Rightarrow> new_user (be_uid env) | Some u \<Rightarrow> u)))"

definition harmless :: "bot_env \<Rightarrow> db \<Rightarrow> chat \<Rightarrow> bot_result \<Rightarrow> bool" where
  "harmless env s ch r \<longleftrightarrow> fst r \<in> {ch, cleared} \<and>
     (\<forall>reply t. snd r = Inr (reply, t) \<longrightarrow>
        reply \<in> {Nothing, Alert ''Not authorised'', Said ''Not authorised.'', Screen Suspended, Screen Terms} \<and>
        own_profile_only env s t)"

text \<open>
  The updates that go to the administrators' handlers: their buttons, and the messages that neither a start
  command, the order form, /cancel, a screen nor a partner's dialog takes.
\<close>

fun for_staff :: "outside \<Rightarrow> form_state \<Rightarrow> update \<Rightarrow> bool" where
  "for_staff x st (Press raw) = (case x_unpack x raw of Adm a v \<Rightarrow> True | _ \<Rightarrow> False)"
| "for_staff x st (Msg msg cmd) =
     (let c = (case cmd of None \<Rightarrow> [] | Some (c, a) \<Rightarrow> c)
      in \<not> start_command c \<and> st \<notin> set form_states \<and> \<not> is_cancel msg \<and> \<not> screen_command c \<and>
         (case st of At_pitch kind \<Rightarrow> False | At_payout kind \<Rightarrow> False | _ \<Rightarrow> True))"
| "for_staff x st (Edited msg) = False"

lemma own_profile_refl [simp]: "own_profile_only env s s"
  by (simp add: own_profile_only_def)

lemma apart_simps:
  "apart_from_profile (u\<lparr>u_referral_code := c\<rparr>) = apart_from_profile u"
  "owner \<noteq> Some (tu_id q) \<Longrightarrow> apart_from_profile (refresh_profile q owner u) = apart_from_profile u"
  "owner \<noteq> Some (tu_id q) \<Longrightarrow> apart_from_profile (first_row q owner) = apart_from_profile (new_user (tu_id q))"
  by (simp_all add: apart_from_profile_def refresh_profile_def first_row_def new_user_def)

lemma register_own:
  assumes "no_staff env s" and "register env s = Inr (uid, t)" and "lock_user uid t = Inr u"
  shows "own_profile_only env s t \<and> \<not> is_staff (be_settings env) u"
proof -
  let ?uid = "be_uid env" and ?o = "Some (owner_telegram_id (be_settings env))"
  have o': "?o \<noteq> Some ?uid" and me: "\<And>w. users s ?uid = Some w \<Longrightarrow> telegram_id w = ?uid \<and> u_role w \<notin> {''admin'', ''owner''}"
    using assms(1) by (auto simp: no_staff_def)
  let ?row = "case users s ?uid of None \<Rightarrow> first_row (be_user env) ?o | Some w \<Rightarrow> refresh_profile (be_user env) ?o w"
  let ?s1 = "case users s ?uid of None \<Rightarrow> s\<lparr>users := (users s)(?uid \<mapsto> ?row), user_ids := user_ids s @ [?uid]\<rparr>
      | Some w \<Rightarrow> update_user ?uid (refresh_profile (be_user env) ?o) s"
  have row1: "users ?s1 ?uid = Some ?row" by (simp add: update_user_def split: option.split)
  have role: "u_role ?row \<notin> {''admin'', ''owner''}" and tid: "telegram_id ?row = ?uid"
    using me o' by (auto simp: first_row_def refresh_profile_def new_user_def split: option.split)
  obtain c s2 where code: "ensure_referral_code (be_code env) ?uid ?s1 = Inr (c, s2)"
    and own: "ensure_owner_partners ?uid s2 = Inr t" and uid: "uid = ?uid"
    using assms(2) by (auto simp: register_def ensure_user_def get_or_create_user_def Let_def split: option.splits)
  obtain w where w: "users s2 ?uid = Some w" "apart_from_profile w = apart_from_profile ?row" "u_role w = u_role ?row"
      "telegram_id w = telegram_id ?row" and s2: "s2 = ?s1\<lparr>users := (users ?s1)(?uid \<mapsto> w)\<rparr>"
  proof -
    from code show thesis
    proof (cases rule: referral_code_update)
      case 1
      then show thesis using row1 by (intro that [of ?row]) (simp_all add: fun_upd_idem)
    next
      case (2 cd)
      then show thesis using row1 by (intro that [of "?row\<lparr>u_referral_code := Some cd\<rparr>"]) (simp_all add: update_user_def apart_simps)
    qed
  qed
  have t: "t = s2" using own w(1,3) role by (auto simp: ensure_owner_partners_def lock_user_def owner_role_def)
  have "u = w" using assms(3) w(1) by (simp add: uid t lock_user_def)
  then have "\<not> is_staff (be_settings env) u" using w(3,4) role tid o' by (auto simp: is_staff_def)
  moreover have "own_profile_only env s t"
  proof (cases "users s ?uid")
    case None
    then show ?thesis using w(2) o' by (simp add: own_profile_only_def t s2 apart_simps)
  next
    case (Some v)
    then show ?thesis using w(2) o' by (simp add: own_profile_only_def t s2 update_user_def apart_simps)
  qed
  ultimately show ?thesis by blast
qed

lemma gate_harmless:
  assumes "no_staff env s" and "ch0 \<in> {ch, cleared}"
    and "\<And>t. own_profile_only env s t \<Longrightarrow> harmless env s ch (refused t)"
  shows "harmless env s ch (staff_gate env ch0 s refused f)"
proof -
  have fail: "harmless env s ch (ch0, Inl e)" for e using assms(2) by (auto simp: harmless_def)
  show ?thesis
  proof (cases "register env s")
    case (Inl e)
    then show ?thesis using fail by (simp add: staff_gate_def registered_def)
  next
    case (Inr r)
    obtain uid t where r: "register env s = Inr (uid, t)" using Inr by (cases r) simp
    show ?thesis
    proof (cases "lock_user uid t")
      case (Inl e)
      then show ?thesis using fail r by (simp add: staff_gate_def registered_def)
    next
      case (Inr u)
      then show ?thesis using register_own [OF assms(1) r Inr] assms(3) r by (simp add: staff_gate_def registered_def)
    qed
  qed
qed

lemma harmless_quiet: "own_profile_only env s t \<Longrightarrow> ch0 \<in> {ch, cleared} \<Longrightarrow> harmless env s ch (quietly ch0 t)"
  by (auto simp: harmless_def quietly_def)

lemma harmless_deliver:
  "own_profile_only env s t \<Longrightarrow> ch0 \<in> {ch, cleared} \<Longrightarrow>
    reply \<in> {Nothing, Alert ''Not authorised'', Said ''Not authorised.'', Screen Suspended, Screen Terms} \<Longrightarrow>
    harmless env s ch (deliver env ch0 reply t)"
  by (auto simp: harmless_def deliver_def)

lemma harmless_if: "harmless env s ch x \<Longrightarrow> harmless env s ch y \<Longrightarrow> harmless env s ch (if b then x else y)"
  by simp

lemma admin_harmless:
  assumes "no_staff env s"
  shows "harmless env s ch (cmd_admin env s)" "harmless env s ch (cb_admin_home env s)"
    "harmless env s ch (cb_dash env ch s)" "harmless env s ch (cb_toggle_kill env v ch s)"
    "harmless env s ch (cb_lookup_start env ch s)" "harmless env s ch (cb_credit_start env ch s)"
    "harmless env s ch (show_applications env ch s)" "harmless env s ch (cb_app_decide env yes v ch s)"
    "harmless env s ch (bot_maintenance env ch s)" "harmless env s ch (cmd_confirmpay env args ch s)"
    "harmless env s ch (cmd_sync env se answers pids ch s)" "harmless env s ch (cmd_review_orders env ch s)"
    "harmless env s ch (quietly ch s)"
  unfolding cmd_admin_def cb_admin_home_def cb_dash_def cb_toggle_kill_def cb_lookup_start_def cb_credit_start_def ask_user_def
    show_applications_def cb_app_decide_def bot_maintenance_def cmd_confirmpay_def cmd_sync_def cmd_review_orders_def not_authorised_def
  by (rule gate_harmless [OF assms] harmless_quiet harmless_deliver own_profile_refl | simp)+

lemma admin_dialog_harmless:
  assumes "no_staff env s"
  shows "harmless env s ch (admin_got_user env msg ch s)" "harmless env s ch (admin_got_amount env msg ch s)"
    "harmless env s ch (admin_got_reason env adj msg ch s)"
  unfolding admin_got_user_def admin_got_amount_def admin_got_reason_def
  by (rule harmless_if gate_harmless [OF assms] harmless_quiet own_profile_refl | simp)+


section \<open>Sample updates\<close>

definition sample_outside :: outside where
  "sample_outside =
     \<lparr>x_unpack = (\<lambda>raw. if raw = ''m:balance'' then Menu ''balance'' else Unknown), x_pid = ''FL-9'', x_place = Inr ''77'',
      x_status = Inl (OrderError []), x_adapter = Inr (), x_refill = Inr [], x_cancel = Inr (),
      x_post = (\<lambda>_. Rz_network_error), x_fetch = (\<lambda>_. Inl (GatewayError [])),
      x_sync = sample_sync_env, x_catalogs = (\<lambda>_. Inr []), x_providers = []\<rparr>"

definition banned_buyer :: user_row where "banned_buyer = sample_buyer\<lparr>u_is_banned := True\<rparr>"

lemma bot_keeps_books_witness:
  "shop_inv sample_digest (bs_db (bot_run [(form_env, sample_outside, 7, 0, Press ''m:balance''),
     (form_env, sample_outside, 7, 1, Msg (Some ''hello'') None)] (new_bot 0 open_shop)))"
  by (rule bot_keeps_books) (simp_all add: new_bot_def open_shop_inv sample_env_def)

lemma shut_out_users_change_nothing_witness:
  "bs_db (bot_run [(form_env, sample_outside, 7, 0, Press ''m:balance''), (form_env, sample_outside, 7, 1, Msg (Some ''hello'') None)]
     (new_bot 0 (form_db\<lparr>users := [7 \<mapsto> banned_buyer]\<rparr>))) = form_db\<lparr>users := [7 \<mapsto> banned_buyer]\<rparr>"
  using shut_out_users_change_nothing [of "new_bot 0 (form_db\<lparr>users := [7 \<mapsto> banned_buyer]\<rparr>)" 7 banned_buyer
    "[(form_env, sample_outside, 7, 0, Press ''m:balance''), (form_env, sample_outside, 7, 1, Msg (Some ''hello'') None)]"]
  by (simp add: new_bot_def shut_out_def banned_buyer_def)

definition in_dialog :: bot_state where
  "in_dialog = (new_bot 0 form_db)\<lparr>bs_chats := (\<lambda>_. (At_payout ''reseller'', no_data))\<rparr>"

lemma cancel_always_leaves_witness:
  "fst (bs_chats (bot_step form_env sample_outside 7 1 (Msg (Some ''/cancel'') (Some (''cancel'', []))) in_dialog) (7, 7)) = No_form
     \<and> fst (bs_chats in_dialog (7, 7)) = At_payout ''reseller''"
proof -
  have ok: "u_terms_accepted_at u \<noteq> None \<and> \<not> u_is_banned u" if "users (bs_db in_dialog) (be_uid form_env) = Some u" for u
    using that by (auto simp: in_dialog_def new_bot_def sample_buyer_def new_user_def)
  have pass: "fst (allow (str_int (be_uid form_env)) 1 (bs_limiter in_dialog))"
    by (simp add: in_dialog_def new_bot_def new_throttle_def new_limiter_def allow_def maybe_gc_def queue_of_def Let_def)
  have "\<forall>c a. Some (''cancel'', []) = Some (c, a) \<longrightarrow> \<not> start_command c" by (simp add: start_command_def)
  from cancel_always_leaves [OF ok pass this refl, of sample_outside 7] show ?thesis
    by (simp add: in_dialog_def)
qed


end
