(* ===== verification/Workers.thy ===== *)
theory Workers
  imports Books
begin

text \<open>
  The background passes of \<open>app/workers.py\<close>: the status of open orders, orders without an outcome,
  the catalogues, and payments whose webhook was lost. Each pass is one session; what it has to tell
  users is sent after the commit and cannot fail. The loops around the passes keep what was committed
  when a pass raises, as \<open>session_run\<close> does. The lemmas show that no order can be forgotten: a pass
  asks about the 80 open orders that were touched longest ago, and every pass stamps those it asked.
\<close>

section \<open>The passes\<close>

definition NOTIFY_STATUSES :: "order_status list" where
  "NOTIFY_STATUSES = [Completed, Partial, Canceled, Failed, Refunded]"

record notice =
  nt_user :: int
  nt_order :: string
  nt_status :: order_status

text \<open>What a synced order adds to the count and to the notices.\<close>

definition status_news :: "order_row \<Rightarrow> order_row \<Rightarrow> nat \<times> notice list" where
  "status_news before after =
     (if o_status after = o_status before then (0, [])
      else (1, if o_status after \<in> set NOTIFY_STATUSES
               then [\<lparr>nt_user = o_user_id after, nt_order = o_public_id after, nt_status = o_status after\<rparr>]
               else []))"

text \<open>
  An exception for one order is logged and the loop goes on with the session as it was, because
  \<open>sync_order_status\<close> raises what the adapter raised before it writes (\<open>sync_raises_adapter_error\<close>
  below); a violated constraint makes the session unusable, and the commit fails.
\<close>

fun sync_open_loop ::
  "order_env \<Rightarrow> (int \<Rightarrow> provider_status res) \<Rightarrow> int list \<Rightarrow> db \<Rightarrow> ((nat \<times> notice list) \<times> db) res" where
  "sync_open_loop env answers [] s = Inr ((0, []), s)"
| "sync_open_loop env answers (oid # oids) s =
     with_order oid s (\<lambda>before.
       case sync_order_status env oid (answers oid) s of
         Inl (IntegrityError m) \<Rightarrow> Inl (IntegrityError m)
       | Inl e \<Rightarrow> sync_open_loop env answers oids s
       | Inr (i, t) \<Rightarrow> with_order oid t (\<lambda>after.
           e_bind (sync_open_loop env answers oids t) (\<lambda>((n, ns), u).
             let (k, new) = status_news before after in Inr ((k + n, new @ ns), u))))"

definition sync_open_orders_once ::
  "order_env \<Rightarrow> (int \<Rightarrow> provider_status res) \<Rightarrow> db \<Rightarrow> ((nat \<times> notice list) \<times> db) res" where
  "sync_open_orders_once env answers s =
     sync_open_loop env answers (map o_id (list_open_orders 80 s)) s"

text \<open>The public ids that the administrators are told.\<close>

definition flag_stuck_orders_once :: "order_env \<Rightarrow> db \<Rightarrow> string list \<times> db" where
  "flag_stuck_orders_once env s =
     (let rows = stuck_orders env 600 50 s; (ids, t) = flag_stuck_orders env 600 50 s
      in (map o_public_id rows, t))"

definition sync_catalog_once ::
  "sync_env \<Rightarrow> (string \<Rightarrow> provider_service list res) \<Rightarrow> string list \<Rightarrow> db \<Rightarrow> (string option \<times> db) res" where
  "sync_catalog_once env answers pids s =
     e_bind (sync_all env answers pids s) (\<lambda>(reps, s). Inr (render_alert (se_glyph env) 12 reps, s))"

text \<open>
  The credited payments (user, amount, invoice) and the invoices held for a mismatch; without a
  gateway there is nothing to ask.
\<close>

definition or_else :: "'a \<Rightarrow> 'a option \<Rightarrow> 'a" where
  "or_else d x = (case x of None \<Rightarrow> d | Some y \<Rightarrow> y)"

definition told_credited :: "settle_outcome list \<Rightarrow> (int \<times> int \<times> string) list" where
  "told_credited outs = List.map_filter (\<lambda>r.
     if so_outcome r = ''credited''
     then map_option (\<lambda>u. (u, or_else 0 (so_amount r), or_else [] (so_payment r))) (so_user r)
     else None) outs"

definition told_mismatches :: "settle_outcome list \<Rightarrow> string list" where
  "told_mismatches outs = List.map_filter (\<lambda>r.
     if so_outcome r = ''amount_mismatch'' then Some (or_else ''?'' (so_payment r)) else None) outs"

definition reconcile_payments_once ::
  "digest \<Rightarrow> int \<Rightarrow> settings \<Rightarrow> (string \<Rightarrow> gateway_status res) \<Rightarrow> db
    \<Rightarrow> ((nat \<times> (int \<times> int \<times> string) list \<times> string list) \<times> db) res" where
  "reconcile_payments_once H now st fetch s =
     e_bind (get_gateway st) (\<lambda>gw. case gw of
         None \<Rightarrow> Inr ((0, [], []), s)
       | Some _ \<Rightarrow> e_bind (reconcile_pending H now fetch 120 72 50 s) (\<lambda>(outs, s).
           Inr ((length outs, told_credited outs, told_mismatches outs), s)))"

text \<open>What a health check writes of a provider: status, detail and time; \<open>fmt\<close> is the format \<open>.2f\<close>.\<close>

record health_result =
  hr_ok :: bool
  hr_detail :: string
  hr_balance :: "rat option"

definition provider_health ::
  "(rat \<Rightarrow> string) \<Rightarrow> (exn \<Rightarrow> string) \<Rightarrow> health_result res \<Rightarrow> string \<times> string" where
  "provider_health fmt str answer =
     (case answer of
        Inl e \<Rightarrow> (''down'', take 255 (str e))
      | Inr r \<Rightarrow>
          (let detail = take 255 (hr_detail r)
           in (if hr_ok r then ''ok'' else ''down'',
               case hr_balance r of
                 None \<Rightarrow> detail
               | Some b \<Rightarrow> let extra = '' bal='' @ fmt b
                           in if length (detail @ extra) < 250 then detail @ extra else detail)))"

section \<open>The workers as sessions\<close>

datatype worker_job =
    Order_sync order_env "int \<Rightarrow> provider_status res"
  | Stuck_orders order_env
  | Catalog_sync sync_env "string \<Rightarrow> provider_service list res" "string list"
  | Payment_reconcile int settings "string \<Rightarrow> gateway_status res"

fun worker_step :: "digest \<Rightarrow> worker_job \<Rightarrow> db \<Rightarrow> (unit \<times> db) res" where
  "worker_step H (Order_sync env answers) s = no_result (sync_open_orders_once (env\<lparr>env_digest := H\<rparr>) answers s)"
| "worker_step H (Stuck_orders env) s = Inr ((), snd (flag_stuck_orders_once (env\<lparr>env_digest := H\<rparr>) s))"
| "worker_step H (Catalog_sync env answers pids) s = no_result (sync_catalog_once env answers pids s)"
| "worker_step H (Payment_reconcile now st fetch) s = no_result (reconcile_payments_once H now st fetch s)"

section \<open>A sync raises only what the adapter raised\<close>

definition open_order :: "order_row \<Rightarrow> bool" where
  "open_order r \<longleftrightarrow> o_status r \<in> set ACTIVE_STATUSES \<and> o_provider_order_id r \<noteq> None"

text \<open>An answer that is no exception, or the adapter's own.\<close>

definition calm :: "provider_status res \<Rightarrow> bool" where
  "calm answer \<longleftrightarrow> (case answer of Inl (ProviderError m b) \<Rightarrow> True | Inl e \<Rightarrow> False | Inr st \<Rightarrow> True)"

lemma credit_order_returns:
  assumes "wallet_inv s" and "users s (o_user_id r) \<noteq> None" and "0 < a" and "k \<noteq> []"
  shows "\<exists>e t. credit_order H r a why k s = Inr (e, t)"
  using credit_returns [OF assms(1) _ assms(3,4)] assms(2) by (auto simp: credit_order_def)

lemma partial_refund_returns:
  assumes "wallet_inv s" and "good_digest H" shows "\<exists>t. maybe_partial_refund H r n s = Inr t"
proof -
  let ?k = "new_idempotency_key H [''partial'', o_public_id r]" and ?a = "min (partial_amount r n) (owed_on r s)"
  have "\<exists>e t. credit_order H r ?a (''Partial refund '' @ o_public_id r) ?k s = Inr (e, t)"
    if "users s (o_user_id r) \<noteq> None" "\<not> ?a \<le> 0"
    using credit_order_returns [OF assms(1) that(1) _ good_digest_key [OF assms(2)]] that(2) by (metis not_le)
  then show ?thesis unfolding maybe_partial_refund_def Let_def by (auto simp del: min_less_iff_conj)
qed

lemma refund_returns:
  assumes "wallet_inv s" and "good_digest H" shows "\<exists>t. refund_if_needed H now r m s = Inr t"
proof -
  have "\<exists>e t. credit_order H r (owed_on r s) why (new_idempotency_key H ps) s = Inr (e, t)"
    if "users s (o_user_id r) \<noteq> None" "\<not> owed_on r s \<le> 0" for why ps
    using credit_order_returns [OF assms(1) that(1)] that(2) assms(2) by simp
  then show ?thesis unfolding refund_if_needed_def Let_def by auto
qed

lemma order_commission_returns:
  assumes "wallet_inv s" and "good_digest H" shows "\<exists>x t. credit_order_commission H r s = Inr (x, t)"
proof (cases "\<exists>ref u. Option.bind (users s (o_user_id r)) u_referred_by = Some ref \<and> users s ref = Some u \<and>
    0 < commission_paise (o_charge_paise r) REFERRAL_ORDER_COMMISSION_PERCENT")
  case False
  then show ?thesis by (auto simp: credit_order_commission_def Let_def not_less split: option.split)
next
  case True
  then obtain ref u where ref: "Option.bind (users s (o_user_id r)) u_referred_by = Some ref"
    and u: "users s ref = Some u" and pos: "0 < commission_paise (o_charge_paise r) REFERRAL_ORDER_COMMISSION_PERCENT"
    by blast
  have "\<exists>e t. credit H ref (commission_paise (o_charge_paise r) REFERRAL_ORDER_COMMISSION_PERCENT) why
      (Some (new_idempotency_key H ps)) refs s = Inr (e, t)" for why ps refs
    using credit_returns [OF assms(1) u pos] assms(2) by simp
  then show ?thesis using ref u pos by (auto simp: credit_order_commission_def Let_def) blast
qed

lemma transition_returns:
  assumes "book_inv s" and "good_digest (env_digest env)" and "order_by_id oid s \<noteq> None"
  shows "\<exists>t. sync_transition env oid mapped remains s = Inr t"
proof -
  let ?H = "env_digest env" and ?now = "env_now env"
  let ?s = "record_event ?now oid mapped (Some ''provider sync'') s"
  have bk: "books ?s = books s" by (simp add: frame_rules)
  have s: "book_inv ?s" using book_inv_frame [OF bk] assms(1) by simp
  obtain q where "order_by_id oid s = Some q" using assms(3) by blast
  then obtain r where r: "order_by_id oid ?s = Some r"
    by (simp add: order_by_id_def orders_record_event find_by_upd_by)
  have id: "order_ident r \<in> set (idents ?s)" using order_by_id_ident [OF r] by simp
  obtain s1 where s1: "(if mapped = Partial then (case remains of None \<Rightarrow> Inr ?s | Some n \<Rightarrow>
      maybe_partial_refund ?H r n ?s) else Inr ?s) = Inr s1" and b1: "book_inv s1" "order_ident r \<in> set (idents s1)"
    using partial_refund_returns [OF book_inv_wallet [OF s] assms(2), of r] maybe_partial_refund_book [OF _ s id] s id
    by (cases "mapped = Partial"; cases remains) (auto, metis)
  obtain s2 where s2: "(if mapped \<in> set [Canceled, Refunded, Failed] \<and> o_status r \<noteq> Refunded
      then refund_if_needed ?H ?now r mapped s1 else Inr s1) = Inr s2" and b2: "book_inv s2"
  proof (cases "mapped \<in> set [Canceled, Refunded, Failed] \<and> o_status r \<noteq> Refunded")
    case True
    obtain t where t: "refund_if_needed ?H ?now r mapped s1 = Inr t"
      using refund_returns [OF book_inv_wallet [OF b1(1)] assms(2)] by blast
    show ?thesis by (rule that [of t]) (use True t refund_if_needed_book [OF t b1] in simp_all)
  next
    case False
    show ?thesis by (rule that [of s1]) (use False b1 in auto)
  qed
  obtain x t where "credit_order_commission ?H r s2 = Inr (x, t)"
    using order_commission_returns [OF book_inv_wallet [OF b2] assms(2)] by blast
  then show ?thesis using r s1 s2 by (simp add: sync_transition_def Let_def with_order_def)
qed

lemma sync_raises_adapter_error:
  assumes "book_inv s" and "good_digest (env_digest env)" and "order_by_id oid s \<noteq> None"
  shows "sync_order_status env oid answer s = Inl e \<Longrightarrow> answer = Inl e \<and> \<not> calm answer"
    and "calm answer \<Longrightarrow> \<exists>t. sync_order_status env oid answer s = Inr (oid, t)"
proof -
  obtain r where r: "order_by_id oid s = Some r" using assms(3) by blast
  have "order_by_id oid (update_order oid (sync_counters st) s) \<noteq> None" for st
    using r by (simp add: order_by_id_def find_by_upd_by sync_counters_def)
  moreover have "book_inv (update_order oid (sync_counters st) s)" for st
    using assms(1) book_inv_frame [OF books_sync_counters] by blast
  ultimately have ok: "\<exists>t. sync_transition env oid m rem (update_order oid (sync_counters st) s) = Inr t" for m rem st
    using transition_returns assms(2) by blast
  show "answer = Inl e \<and> \<not> calm answer" if "sync_order_status env oid answer s = Inl e"
  proof (cases answer)
    case (Inl x)
    then show ?thesis using that r
      by (cases x) (auto simp: sync_order_status_def with_order_def calm_def Let_def split: if_split_asm)
  next
    case (Inr st)
    have no: "sync_transition env oid m (st_remains st) (update_order oid (sync_counters st) s) \<noteq> Inl x" for m x
      using ok [of m "st_remains st" st] by auto
    show ?thesis using that r Inr no
      by (auto simp: sync_order_status_def with_order_def Let_def e_bind_eq_Inl split: if_split_asm)
  qed
  show "\<exists>t. sync_order_status env oid answer s = Inr (oid, t)" if "calm answer"
  proof (cases answer)
    case (Inl x)
    then show ?thesis using that r by (cases x) (auto simp: sync_order_status_def with_order_def calm_def Let_def)
  next
    case (Inr st)
    then show ?thesis using r ok [of _ "st_remains st" st]
      by (auto simp: sync_order_status_def with_order_def Let_def)
  qed
qed

section \<open>What a pass touches\<close>

text \<open>
  The columns that no sync changes; \<open>touched\<close>: rows outside \<open>ids\<close> are as before; \<open>restamped\<close>: and those
  in \<open>ids\<close> carry the stamp \<open>now\<close>.
\<close>

definition order_face :: "order_row \<Rightarrow> int \<times> string \<times> int \<times> string option" where
  "order_face r = (o_id r, o_public_id r, o_user_id r, o_provider_order_id r)"

definition touched :: "int set \<Rightarrow> db \<Rightarrow> db \<Rightarrow> bool" where
  "touched ids s t \<longleftrightarrow> (\<exists>g. orders t = map g (orders s) \<and>
     (\<forall>r. order_face (g r) = order_face r \<and> (o_id r \<notin> ids \<longrightarrow> g r = r)))"

definition restamped :: "int \<Rightarrow> int set \<Rightarrow> db \<Rightarrow> db \<Rightarrow> bool" where
  "restamped now ids s t \<longleftrightarrow> (\<exists>g. orders t = map g (orders s) \<and>
     (\<forall>r. order_face (g r) = order_face r \<and> (if o_id r \<in> ids then o_updated_at (g r) = now else g r = r)))"

lemma face_id: "order_face a = order_face b \<Longrightarrow> o_id a = o_id b"
  by (simp add: order_face_def)

lemma touched_same: "orders t = orders s \<Longrightarrow> touched ids s t"
  unfolding touched_def by (intro exI [of _ id]) simp

lemma touched_trans:
  assumes "touched ids s t" and "touched ids t u" shows "touched ids s u"
proof -
  obtain g h where t: "orders t = map g (orders s)" and u: "orders u = map h (orders t)"
    and g: "\<And>r. order_face (g r) = order_face r \<and> (o_id r \<notin> ids \<longrightarrow> g r = r)"
    and h: "\<And>r. order_face (h r) = order_face r \<and> (o_id r \<notin> ids \<longrightarrow> h r = r)"
    using assms unfolding touched_def by blast
  have "order_face (h (g r)) = order_face r \<and> (o_id r \<notin> ids \<longrightarrow> h (g r) = r)" for r
    using g [of r] h [of "g r"] face_id [of "g r" r] by simp
  then show ?thesis unfolding touched_def using t u by (intro exI [of _ "h \<circ> g"]) simp
qed

lemma touched_upd:
  assumes "orders t = upd_by o_id oid f (orders s)" and "\<And>r. order_face (f r) = order_face r"
  shows "touched {oid} s t"
  unfolding touched_def by (intro exI [of _ "\<lambda>r. if o_id r = oid then f r else r"]) (simp add: assms upd_by_def)

lemma touched_event: "touched {oid} s (record_event now oid st note s)"
  by (rule touched_upd [OF orders_record_event]) (simp add: order_face_def)

lemma stamp_touched:
  assumes "touched {oid} s t" shows "restamped now {oid} s (update_order oid (stamp_sync now) t)"
proof -
  obtain g where "orders t = map g (orders s)" "\<And>r. order_face (g r) = order_face r \<and> (o_id r \<noteq> oid \<longrightarrow> g r = r)"
    using assms unfolding touched_def by blast
  then show ?thesis
    unfolding restamped_def
    by (intro exI [of _ "\<lambda>r. if o_id (g r) = oid then stamp_sync now (g r) else g r"])
      (auto simp: upd_by_def order_face_def stamp_sync_def)
qed

lemma transition_touched:
  assumes "sync_transition env oid mapped remains s = Inr t" shows "touched {oid} s t"
proof -
  let ?H = "env_digest env" and ?now = "env_now env"
  let ?s = "record_event ?now oid mapped (Some ''provider sync'') s"
  obtain r s1 s2 where r: "order_by_id oid ?s = Some r"
    and one: "s1 = ?s \<or> (\<exists>n. maybe_partial_refund ?H r n ?s = Inr s1)"
    and two: "s2 = s1 \<or> refund_if_needed ?H ?now r mapped s1 = Inr s2"
    and three: "t = s2 \<or> (\<exists>e. credit_order_commission ?H r s2 = Inr (e, t))"
    using assms by (auto simp: sync_transition_def Let_def with_order_Inr split: if_split_asm option.split_asm)
  have id: "o_id r = oid" using order_by_id_ident [OF r] by simp
  have "touched {oid} ?s s1" using one maybe_partial_refund_orders touched_same by blast
  moreover have "touched {oid} s1 s2"
    using two refund_if_needed_orders [of ?H ?now r mapped s1 s2] touched_event touched_same touched_trans
    unfolding id by metis
  moreover have "touched {oid} s2 t" using three order_commission_orders touched_same by blast
  ultimately show ?thesis using touched_event touched_trans by blast
qed

lemma sync_restamps:
  assumes "sync_order_status env oid answer s = Inr (i, t)" and "order_by_id oid s = Some r"
    and "o_status r \<notin> set TERMINAL_STATUSES" and "has_provider_id r"
  shows "restamped (env_now env) {oid} s t"
proof -
  obtain u where t: "t = update_order oid (stamp_sync (env_now env)) u" and u: "u = s \<or>
      (\<exists>st. u = update_order oid (sync_counters st) s \<or>
        (\<exists>m. sync_transition env oid m (st_remains st) (update_order oid (sync_counters st) s) = Inr u))"
    using assms
    by (cases answer) (auto simp: sync_order_status_def with_order_Inr Let_def split: exn.split_asm if_split_asm)
  have "touched {oid} s (update_order oid (sync_counters st) s)" for st
    by (rule touched_upd [OF orders_update_order]) (simp add: order_face_def sync_counters_def)
  then have "touched {oid} s u" using u transition_touched touched_trans touched_same by metis
  then show ?thesis unfolding t by (rule stamp_touched)
qed

lemma restamped_refl: "restamped now {} s s"
  unfolding restamped_def by (intro exI [of _ id]) simp

lemma restamped_trans:
  assumes "restamped now ids s t" and "restamped now js t u" shows "restamped now (ids \<union> js) s u"
proof -
  obtain g h where t: "orders t = map g (orders s)" and u: "orders u = map h (orders t)"
    and g: "\<And>r. order_face (g r) = order_face r \<and> (if o_id r \<in> ids then o_updated_at (g r) = now else g r = r)"
    and h: "\<And>r. order_face (h r) = order_face r \<and> (if o_id r \<in> js then o_updated_at (h r) = now else h r = r)"
    using assms unfolding restamped_def by blast
  have "order_face (h (g r)) = order_face r \<and>
      (if o_id r \<in> ids \<union> js then o_updated_at (h (g r)) = now else h (g r) = r)" for r
    using g [of r] h [of "g r"] face_id [of "g r" r] by (auto split: if_splits)
  then show ?thesis unfolding restamped_def using t u by (intro exI [of _ "h \<circ> g"]) simp
qed

lemma restamped_found:
  assumes "restamped now ids s t" and "order_by_id oid s = Some r" and "oid \<notin> ids"
  shows "order_by_id oid t = Some r"
proof -
  obtain g where t: "orders t = map g (orders s)"
    and g: "\<And>r. order_face (g r) = order_face r \<and> (if o_id r \<in> ids then o_updated_at (g r) = now else g r = r)"
    using assms(1) unfolding restamped_def by blast
  have "o_id (g r) = o_id r" for r using g face_id by blast
  then have "find_by o_id oid (map g rs) = map_option g (find_by o_id oid rs)" for rs
    by (induction rs) simp_all
  then show ?thesis
    using assms(2,3) g [of r] find_by_Some [of o_id oid "orders s" r] by (simp add: order_by_id_def t)
qed

text \<open>A pass over live orders whose answers are calm goes through and stamps all of them.\<close>

definition live :: "order_row \<Rightarrow> bool" where
  "live r \<longleftrightarrow> o_status r \<notin> set TERMINAL_STATUSES \<and> has_provider_id r"

lemma sync_loop_stamps:
  assumes "book_inv s" and "good_digest (env_digest env)" and "distinct oids"
    and "\<forall>oid \<in> set oids. calm (answers oid) \<and> (\<exists>r. order_by_id oid s = Some r \<and> live r)"
  shows "\<exists>news t. sync_open_loop env answers oids s = Inr (news, t) \<and> restamped (env_now env) (set oids) s t \<and> book_inv t"
  using assms
proof (induction oids arbitrary: s)
  case Nil
  then show ?case by (simp add: restamped_refl)
next
  case (Cons oid oids)
  obtain r where r: "order_by_id oid s = Some r" "live r" and calm: "calm (answers oid)" using Cons.prems(4) by auto
  obtain t where t: "sync_order_status env oid (answers oid) s = Inr (oid, t)"
    using sync_raises_adapter_error(2) [OF Cons.prems(1,2) _ calm] r(1) by auto
  have one: "restamped (env_now env) {oid} s t"
    by (rule sync_restamps [OF t r(1)]) (use r(2) in \<open>simp_all add: live_def\<close>)
  have inv: "book_inv t" using sync_order_status_book [OF t Cons.prems(1)] by simp
  have "\<exists>q. order_by_id j t = Some q \<and> live q" if "j \<in> set oids" for j
    using that Cons.prems(3,4) restamped_found [OF one, of j] by (cases "j = oid") auto
  then obtain news u where u: "sync_open_loop env answers oids t = Inr (news, u)"
      "restamped (env_now env) (set oids) t u" "book_inv u"
    using Cons.IH [OF inv Cons.prems(2)] Cons.prems(3,4) by auto
  have "\<exists>a. order_by_id oid t = Some a"
  proof -
    obtain g where g: "orders t = map g (orders s)" "\<And>r. order_face (g r) = order_face r"
      using one unfolding restamped_def by blast
    have "r \<in> set (orders s)" "o_id r = oid"
      using find_by_Some [of o_id oid "orders s" r] r(1) by (simp_all add: order_by_id_def)
    then have "g r \<in> set (orders t)" "o_id (g r) = oid" using g(1) face_id [OF g(2) [of r]] by simp_all
    then show ?thesis using find_by_None [of o_id oid "orders t"] by (force simp: order_by_id_def)
  qed
  then have "\<exists>ns. sync_open_loop env answers (oid # oids) s = Inr (ns, u)"
    using r(1) t u(1) by (auto simp: with_order_def case_prod_beta split: prod.split)
  moreover have "restamped (env_now env) (set (oid # oids)) s u"
    using restamped_trans [OF one u(2)] by simp
  ultimately show ?case using u(3) by blast
qed

section \<open>No order is forgotten\<close>

lemma length_filter_drop_sorted:
  assumes "sorted (map f xs)"
  shows "length (filter (\<lambda>x. f x < b) (drop k xs)) = length (filter (\<lambda>x. f x < b) xs) - k"
  using assms
proof (induction xs arbitrary: k)
  case (Cons x xs)
  have "filter (\<lambda>x. f x < b) xs = []" if "\<not> f x < b"
    using Cons.prems that by (force simp: filter_empty_conv)
  then show ?case using Cons by (cases k) (auto simp: filter_empty_conv dest: in_set_dropD)
qed simp

text \<open>The open orders not touched since \<open>t0\<close>.\<close>

definition stale :: "int \<Rightarrow> order_row \<Rightarrow> bool" where
  "stale t0 r \<longleftrightarrow> open_order r \<and> o_updated_at r < t0"

definition with_ids :: "db \<Rightarrow> bool" where
  "with_ids s \<longleftrightarrow> (\<forall>r \<in> set (orders s). o_provider_order_id r \<noteq> Some [])"

lemma open_live: "open_order r \<Longrightarrow> o_provider_order_id r \<noteq> Some [] \<Longrightarrow> live r"
  by (auto simp: open_order_def live_def has_provider_id_def ACTIVE_STATUSES_def TERMINAL_STATUSES_def)

lemma list_open_open: "list_open_orders n s = take n (sort_key o_updated_at (filter open_order (orders s)))"
  by (simp only: list_open_orders_def open_order_def [abs_def])

lemma filter_sorted_length: "length (filter P (sort_key f xs)) = length (filter P xs)"
  by (simp add: filter_sort)

lemma stale_after_batch:
  fixes K :: "order_row list"
  assumes "distinct (map o_id K)" and "sorted (map o_updated_at K)" and "b = o_id ` set (take k K)"
  shows "length (filter (\<lambda>r. o_updated_at r < t0 \<and> o_id r \<notin> b) K) = length (filter (\<lambda>r. o_updated_at r < t0) K) - k"
proof -
  have "o_id r \<notin> b" if "r \<in> set (drop k K)" for r
    using that assms(1,3) set_take_disj_set_drop_if_distinct [of "map o_id K" k k] by (auto simp: take_map drop_map)
  then have "filter (\<lambda>r. o_updated_at r < t0 \<and> o_id r \<notin> b) (drop k K) = filter (\<lambda>r. o_updated_at r < t0) (drop k K)"
    by (intro filter_cong) auto
  moreover have "filter (\<lambda>r. o_updated_at r < t0 \<and> o_id r \<notin> b) (take k K) = []"
    using assms(3) by (auto simp: filter_empty_conv)
  ultimately have "filter (\<lambda>r. o_updated_at r < t0 \<and> o_id r \<notin> b) K = filter (\<lambda>r. o_updated_at r < t0) (drop k K)"
    using filter_append [of "\<lambda>r. o_updated_at r < t0 \<and> o_id r \<notin> b" "take k K" "drop k K"] by simp
  then show ?thesis using length_filter_drop_sorted [OF assms(2)] by simp
qed

lemma stale_filter: "filter (stale t0) xs = filter (\<lambda>r. o_updated_at r < t0) (filter open_order xs)"
  by (simp add: stale_def [abs_def])

lemma pass_counts:
  assumes "book_inv s" and "good_digest (env_digest env)" and "with_ids s" and "t0 \<le> env_now env"
    and "\<forall>oid. calm (answers oid)"
  shows "\<exists>news t. sync_open_orders_once env answers s = Inr (news, t) \<and> book_inv t \<and> with_ids t \<and>
    length (filter (stale t0) (orders t)) \<le> length (filter (stale t0) (orders s)) - 80"
proof -
  let ?K = "sort_key o_updated_at (filter open_order (orders s))"
  let ?ids = "map o_id (list_open_orders 80 s)"
  have ids: "distinct (map o_id (orders s))" using assms(1) by (rule distinct_order_ids)
  have "distinct (map o_id (filter open_order (orders s)))" using ids by (simp add: distinct_map_filter)
  then have K: "distinct (map o_id ?K)" by (simp add: distinct_map)
  have batch: "set ?ids = o_id ` set (take 80 ?K)" "distinct ?ids"
    using K distinct_take [of "map o_id ?K" 80] by (simp_all add: list_open_open take_map)
  have "\<exists>r. order_by_id oid s = Some r \<and> live r" if in_ids: "oid \<in> set ?ids" for oid
  proof -
    obtain r where r: "r \<in> set (orders s)" "open_order r" "oid = o_id r"
      using in_ids by (auto simp: list_open_open dest!: in_set_takeD)
    then have "live r" using open_live assms(3) by (auto simp: with_ids_def)
    moreover have "order_by_id oid s = Some r" unfolding order_by_id_def r(3) using ids r(1) by (rule find_by_in)
    ultimately show ?thesis by blast
  qed
  then obtain news t where t: "sync_open_loop env answers ?ids s = Inr (news, t)"
      "restamped (env_now env) (set ?ids) s t" "book_inv t"
    using sync_loop_stamps [OF assms(1,2) batch(2)] assms(5) by blast
  obtain g where g: "orders t = map g (orders s)" "\<And>r. order_face (g r) = order_face r \<and>
      (if o_id r \<in> set ?ids then o_updated_at (g r) = env_now env else g r = r)"
    using t(2) unfolding restamped_def by blast
  have gone: "stale t0 (g r) \<longleftrightarrow> stale t0 r \<and> o_id r \<notin> set ?ids" for r
    using g(2) [of r] assms(4) by (auto simp: stale_def split: if_split_asm)
  have "length (filter (stale t0) (orders t)) = length (filter (\<lambda>r. stale t0 r \<and> o_id r \<notin> set ?ids) (orders s))"
    by (simp add: g(1) filter_map comp_def gone del: list.set_map)
  also have "\<dots> = length (filter (\<lambda>r. o_updated_at r < t0 \<and> o_id r \<notin> set ?ids) (filter open_order (orders s)))"
    by (simp add: stale_def conj_assoc del: list.set_map)
  also have "\<dots> = length (filter (\<lambda>r. o_updated_at r < t0 \<and> o_id r \<notin> set ?ids) ?K)"
    by (rule filter_sorted_length [symmetric])
  also have "\<dots> = length (filter (\<lambda>r. o_updated_at r < t0) ?K) - 80"
    by (rule stale_after_batch [OF K _ batch(1)]) (rule sorted_sort_key)
  also have "\<dots> = length (filter (stale t0) (orders s)) - 80"
    unfolding stale_filter filter_sorted_length ..
  finally have count: "length (filter (stale t0) (orders t)) \<le> length (filter (stale t0) (orders s)) - 80" by simp
  have "with_ids t" using assms(3) g by (auto simp: with_ids_def order_face_def)
  then show ?thesis using t(1,3) count by (auto simp: sync_open_orders_once_def)
qed

definition status_pass :: "order_env \<times> (int \<Rightarrow> provider_status res) \<Rightarrow> db \<Rightarrow> (unit \<times> db) res" where
  "status_pass = (\<lambda>(env, answers) s. no_result (sync_open_orders_once env answers s))"

text \<open>
  C12: No open order is forgotten. Eighty orders are asked about in one pass; if the passes since \<open>t0\<close>
  could ask about all orders that were open and untouched by then, every order still open has been
  asked about and stamped since, provided that the panels' adapters gave answers or raised provider
  errors (\<open>calm\<close>), whichever, and that no order has an empty text as its provider id (\<open>with_ids\<close>). Of an
  order whose adapter raises something else, such as a conversion error, nothing is said.
\<close>

theorem no_open_order_is_forgotten:
  assumes "book_inv s" and "with_ids s"
    and "\<forall>(env, answers) \<in> set ps. good_digest (env_digest env) \<and> t0 \<le> env_now env \<and> (\<forall>oid. calm (answers oid))"
    and "length (filter (stale t0) (orders s)) \<le> 80 * length ps"
  shows "\<forall>r \<in> set (orders (session_run status_pass ps s)). open_order r \<longrightarrow> t0 \<le> o_updated_at r"
  using assms
proof (induction ps arbitrary: s)
  case Nil
  then show ?case by (auto simp: filter_empty_conv stale_def)
next
  case (Cons p ps)
  obtain env answers where p: "p = (env, answers)" by (metis prod.exhaust)
  obtain news t where t: "sync_open_orders_once env answers s = Inr (news, t)" "book_inv t" "with_ids t"
    "length (filter (stale t0) (orders t)) \<le> length (filter (stale t0) (orders s)) - 80"
    using pass_counts [OF Cons.prems(1) _ Cons.prems(2), of env t0 answers] Cons.prems(3) by (auto simp: p)
  have "length (filter (stale t0) (orders t)) \<le> 80 * length ps" using t(4) Cons.prems(4) by simp
  then show ?case using Cons.IH [OF t(2,3)] Cons.prems(3) t(1) by (simp add: p status_pass_def no_result_def)
qed

lemma no_open_order_is_forgotten_witness:
  "filter (\<lambda>r. open_order r \<and> o_updated_at r < 100) (orders (session_run status_pass
     [(sample_env, \<lambda>_. Inl (ProviderError ''timeout'' False))] (shop_with [sample_order 7 Processing 300]))) = []"
proof -
  have "book_inv (shop_with [sample_order 7 Processing 300])"
    by (rule book_inv_shop_with) (simp_all add: sample_order_def)
  from no_open_order_is_forgotten [OF this, of "[(sample_env, \<lambda>_. Inl (ProviderError ''timeout'' False))]" 100]
  show ?thesis
    by (simp add: with_ids_def sample_order_def calm_def sample_env_def good_sample_digest stale_def
        filter_empty_conv not_less)
qed

section \<open>Notices tell what was committed\<close>

lemma touched_found:
  assumes "touched ids s t" and "oid \<notin> ids" shows "order_by_id oid t = order_by_id oid s"
proof -
  obtain g where t: "orders t = map g (orders s)"
    and g: "\<And>r. order_face (g r) = order_face r \<and> (o_id r \<notin> ids \<longrightarrow> g r = r)"
    using assms(1) unfolding touched_def by blast
  have id: "o_id (g r) = o_id r" for r using g face_id by blast
  have "find_by o_id oid (map g rs) = find_by o_id oid rs" for rs
    by (induction rs) (use g assms(2) in \<open>auto simp: id\<close>)
  then show ?thesis by (simp add: order_by_id_def t)
qed

lemma touched_mono: "touched ids s t \<Longrightarrow> ids \<subseteq> js \<Longrightarrow> touched js s t"
  unfolding touched_def by blast

lemma sync_touches:
  assumes "sync_order_status env oid answer s = Inr (i, t)" shows "touched {oid} s t"
proof -
  obtain r where r: "order_by_id oid s = Some r" using assms by (auto simp: sync_order_status_def with_order_Inr)
  show ?thesis
  proof (cases "live r")
    case True
    then have "restamped (env_now env) {oid} s t" using sync_restamps [OF assms r] by (simp add: live_def)
    then show ?thesis unfolding restamped_def touched_def by (meson singletonD)
  next
    case False
    then have "t = s" using assms r by (auto simp: sync_order_status_def with_order_Inr live_def)
    then show ?thesis by (simp add: touched_same)
  qed
qed

definition notice_of :: "order_row \<Rightarrow> notice" where
  "notice_of r = \<lparr>nt_user = o_user_id r, nt_order = o_public_id r, nt_status = o_status r\<rparr>"

definition moved_to :: "db \<Rightarrow> db \<Rightarrow> int set \<Rightarrow> order_row set" where
  "moved_to s t ids = {a. \<exists>oid \<in> ids. \<exists>b. order_by_id oid s = Some b \<and> order_by_id oid t = Some a \<and>
     o_status a \<noteq> o_status b \<and> o_status a \<in> set NOTIFY_STATUSES}"

lemma moved_split:
  assumes "touched {oid} s t" and "touched ids t u" and "oid \<notin> ids"
  shows "moved_to s u (insert oid ids) = moved_to s t {oid} \<union> moved_to t u ids"
proof -
  have "order_by_id oid u = order_by_id oid t" using touched_found assms(2,3) by blast
  moreover have "order_by_id i t = order_by_id i s" if "i \<in> ids" for i
    using touched_found [OF assms(1), of i] assms(3) that by fastforce
  ultimately show ?thesis by (auto simp: moved_to_def)
qed

lemma news_moved:
  assumes "order_by_id oid s = Some b" and "order_by_id oid t = Some a"
  shows "set (snd (status_news b a)) = notice_of ` moved_to s t {oid}"
  using assms by (auto simp: status_news_def moved_to_def notice_of_def)

lemma loop_notices:
  "sync_open_loop env answers oids s = Inr ((n, ns), t) \<Longrightarrow> distinct oids \<Longrightarrow>
    touched (set oids) s t \<and> set ns = notice_of ` moved_to s t (set oids)"
proof (induction oids arbitrary: s n ns)
  case Nil
  then show ?case by (auto simp: touched_same moved_to_def)
next
  case (Cons oid oids)
  obtain b where b: "order_by_id oid s = Some b" using Cons.prems(1) by (auto simp: with_order_Inr)
  show ?case
  proof (cases "sync_order_status env oid (answers oid) s")
    case (Inl e)
    then have e: "sync_open_loop env answers oids s = Inr ((n, ns), t)"
      using Cons.prems(1) by (cases e) (auto simp: with_order_Inr)
    have IH: "touched (set oids) s t" "set ns = notice_of ` moved_to s t (set oids)"
      using Cons.IH [OF e] Cons.prems(2) by simp_all
    have "moved_to s t (set (oid # oids)) = moved_to s t (set oids)"
      using touched_found [OF IH(1), of oid] Cons.prems(2) by (auto simp: moved_to_def)
    then show ?thesis using IH touched_mono [OF IH(1), of "set (oid # oids)"] by auto
  next
    case (Inr y)
    then obtain u a m ms where u: "sync_order_status env oid (answers oid) s = Inr (fst y, u)" and a: "order_by_id oid u = Some a"
      and l: "sync_open_loop env answers oids u = Inr ((m, ms), t)" and ns: "ns = snd (status_news b a) @ ms"
      using Cons.prems(1) b by (cases y) (auto simp: with_order_Inr case_prod_beta)
    have one: "touched {oid} s u" using u by (rule sync_touches)
    have IH: "touched (set oids) u t" "set ms = notice_of ` moved_to u t (set oids)"
      using Cons.IH [OF l] Cons.prems(2) by simp_all
    have "touched (set (oid # oids)) s t"
      by (rule touched_trans [OF touched_mono [OF one] touched_mono [OF IH(1)]]) auto
    moreover have "set ns = notice_of ` moved_to s t (set (oid # oids))"
      using moved_split [OF one IH(1)] Cons.prems(2) IH(2) news_moved [OF b a] by (simp add: ns image_Un)
    ultimately show ?thesis by blast
  qed
qed

text \<open>
  Users are told exactly what was committed. The notices of a pass are those of the orders whose
  committed status differs from the one before the pass and is worth telling, one per order and with the
  committed status, whatever the panels answered and whichever orders failed.
\<close>

theorem notices_tell_committed_changes:
  assumes "sync_open_orders_once env answers s = Inr ((n, ns), t)" and "book_inv s"
  shows "set ns = notice_of ` {a. \<exists>oid b. order_by_id oid s = Some b \<and> order_by_id oid t = Some a \<and>
    o_status a \<noteq> o_status b \<and> o_status a \<in> set NOTIFY_STATUSES}"
proof -
  let ?ids = "map o_id (list_open_orders 80 s)"
  have "distinct (map o_id (filter open_order (orders s)))"
    using distinct_order_ids [OF assms(2)] by (simp add: distinct_map_filter)
  then have "distinct (map o_id (sort_key o_updated_at (filter open_order (orders s))))" by (simp add: distinct_map)
  then have "distinct ?ids"
    using distinct_take [of "map o_id (sort_key o_updated_at (filter open_order (orders s)))" 80]
    by (simp add: list_open_open take_map)
  then have l: "touched (set ?ids) s t" "set ns = notice_of ` moved_to s t (set ?ids)"
    using loop_notices assms(1) unfolding sync_open_orders_once_def by blast+
  have "order_by_id oid t = order_by_id oid s" if "oid \<notin> set ?ids" for oid
    using touched_found [OF l(1) that] .
  then have "moved_to s t (set ?ids) = {a. \<exists>oid b. order_by_id oid s = Some b \<and> order_by_id oid t = Some a \<and>
      o_status a \<noteq> o_status b \<and> o_status a \<in> set NOTIFY_STATUSES}"
    unfolding moved_to_def by (metis (no_types, lifting) option.inject)
  then show ?thesis using l(2) by simp
qed

lemma notices_tell_committed_changes_witness:
  "\<exists>n ns t. sync_open_orders_once sample_env (\<lambda>_. Inl (ProviderError ''timeout'' False)) (shop_with [sample_order 7 Processing 300])
     = Inr ((n, ns), t) \<and> set ns \<subseteq> notice_of ` {a. order_by_id 1 t = Some a}"
proof -
  let ?s = "shop_with [sample_order 7 Processing 300]"
  have inv: "book_inv ?s" by (rule book_inv_shop_with) (simp_all add: sample_order_def)
  have row: "orders ?s = [sample_order 7 Processing 300]" by simp
  obtain n ns t where t: "sync_open_orders_once sample_env (\<lambda>_. Inl (ProviderError ''timeout'' False)) ?s = Inr ((n, ns), t)"
    using pass_counts [OF inv, of sample_env 0 "\<lambda>_. Inl (ProviderError ''timeout'' False)"]
    by (auto simp: with_ids_def sample_order_def calm_def sample_env_def good_sample_digest)
  have only: "oid = 1" if "order_by_id oid ?s = Some b" for oid b
    using that by (auto simp: order_by_id_def row sample_order_def split: if_split_asm)
  show ?thesis using t notices_tell_committed_changes [OF t inv] only by blast
qed

section \<open>The workers keep the books\<close>

lemma sync_loop_keeps:
  "sync_open_loop env answers oids s = Inr (news, t) \<Longrightarrow> shop_inv (env_digest env) s \<Longrightarrow> shop_inv (env_digest env) t"
proof (induction oids arbitrary: s news)
  case (Cons oid oids)
  show ?case
  proof (cases "sync_order_status env oid (answers oid) s")
    case (Inl e)
    then have "sync_open_loop env answers oids s = Inr (news, t)"
      using Cons.prems(1) by (cases e) (auto simp: with_order_Inr)
    then show ?thesis using Cons.IH Cons.prems(2) by (cases news) blast
  next
    case (Inr y)
    then obtain u ms where u: "sync_order_status env oid (answers oid) s = Inr (fst y, u)"
      and l: "sync_open_loop env answers oids u = Inr (ms, t)"
      using Cons.prems(1) by (cases y) (auto simp: with_order_Inr case_prod_beta)
    show ?thesis using Cons.IH [OF l] sync_keeps [OF u Cons.prems(2)] by blast
  qed
qed simp

lemma flag_keeps: "shop_inv (env_digest env) s \<Longrightarrow> shop_inv (env_digest env) (snd (flag_stuck_orders env age limit s))"
  using order_keeps [of env "Flag age limit" s "fst (flag_stuck_orders env age limit s)"] by simp

lemma reconcile_keeps:
  "reconcile_pending H now fetch age hours limit s = Inr (outs, t) \<Longrightarrow> shop_inv H s \<Longrightarrow> shop_inv H t"
  by (rule payment_keeps [of undefined H now "Pay_reconcile fetch age hours limit" s "()"]) (simp_all add: no_result_def)

lemma worker_step_inv:
  assumes "worker_step H job s = Inr (x, t)" and "shop_inv H s" shows "shop_inv H t"
proof (cases job)
  case (Order_sync env answers)
  then obtain y where "sync_open_loop (env\<lparr>env_digest := H\<rparr>) answers (map o_id (list_open_orders 80 s)) s = Inr (y, t)"
    using assms(1) by (auto simp: no_result_Inr sync_open_orders_once_def)
  from sync_loop_keeps [OF this] assms(2) show ?thesis by simp
next
  case (Stuck_orders env)
  then have "t = snd (flag_stuck_orders (env\<lparr>env_digest := H\<rparr>) 600 50 s)"
    using assms(1) by (auto simp: flag_stuck_orders_once_def Let_def case_prod_beta)
  then show ?thesis using flag_keeps [of "env\<lparr>env_digest := H\<rparr>" s] assms(2) by simp
next
  case (Catalog_sync env answers pids)
  then show ?thesis using assms by (auto simp: no_result_Inr sync_catalog_once_def intro: sync_all_keeps)
next
  case (Payment_reconcile now st fetch)
  then show ?thesis using assms
    by (auto simp: no_result_Inr reconcile_payments_once_def split: option.split_asm intro: reconcile_keeps)
qed

interpretation workers: session_steps "worker_step H" "shop_inv H" "\<lambda>_. True" for H
  by unfold_locales (rule worker_step_inv)

text \<open>
  Whatever jobs run, in whatever order and however often they fail, the books stay right.
\<close>

theorem workers_keep_books: "shop_inv H s \<Longrightarrow> shop_inv H (session_run (worker_step H) jobs s)"
  by (rule workers.run_inv) simp_all

end
