(* ===== verification/PyDecimal.thy ===== *)
theory PyDecimal
  imports PyText
begin

text \<open>
  Python's \<open>Decimal\<close> as far as the second generation uses it: a finite value is an exact rational, and
  \<open>Decimal(text)\<close> reads decimal text without rounding. Exponents of more than eighteen digits, which
  the implementation refuses, are no number here either.
\<close>

datatype py_decimal = Dec rat | Dec_inf bool | Dec_nan

definition decimal_number :: "bool \<Rightarrow> string \<Rightarrow> rat option" where
  "decimal_number neg s =
     (let ip = takeWhile is_digit s; r = dropWhile is_digit s;
          (fp, r) = (case r of c # q \<Rightarrow> if c = CHR ''.'' then (takeWhile is_digit q, dropWhile is_digit q)
                         else ([], r) | [] \<Rightarrow> ([], []))
      in if ip @ fp = [] then None
         else case parse_exponent r of
           None \<Rightarrow> None
         | Some e \<Rightarrow>
             if 10 ^ 18 \<le> \<bar>e\<bar> then None
             else let x = of_nat (val_digits (ip @ fp)) * 10 powi (e - int (length fp))
                  in Some (if neg then - x else x))"

text \<open>Underscores are dropped wherever they stand; \<open>None\<close> is the \<open>InvalidOperation\<close>.\<close>

definition parse_py_decimal :: "string \<Rightarrow> py_decimal option" where
  "parse_py_decimal text =
     (let (neg, s) = signed (filter (\<lambda>c. c \<noteq> CHR ''_'') (strip text)); l = lower s
      in if l = ''inf'' \<or> l = ''infinity'' then Some (Dec_inf neg)
         else if starts_with ''nan'' l \<and> list_all is_digit (drop 3 l)
           \<or> starts_with ''snan'' l \<and> list_all is_digit (drop 4 l) then Some Dec_nan
         else map_option Dec (decimal_number neg s))"

end
