(* ===== verification/SMMProMax.thy ===== *)
theory SMMProMax
  imports Platform Panel PyDecimal "HOL-Library.Sublist"
begin

text \<open>
  The panel adapter of the second generation: \<open>app/providers/models.py\<close>, \<open>app/providers/base.py\<close> and
  \<open>app/providers/smmpromax.py\<close>. What the HTTP client gives back is an argument, one reply per request;
  the texts of floats and containers come from \<open>R\<close>, as in \<open>Panel\<close>. The lemmas show which exceptions
  leave the adapter, how a list of ids is cut into requests of at most a hundred, and which ids the
  answer is about.
\<close>

section \<open>The adapter's data\<close>

datatype health_status = HEALTHY | DEGRADED | DOWN

datatype provider_order_state =
    PENDING | PROCESSING | IN_PROGRESS | COMPLETED | PARTIAL | CANCELLED | FAILED | REFUNDED

definition provider_words :: "(string \<times> provider_order_state) list" where
  "provider_words =
     [(''pending'', PENDING), (''in progress'', IN_PROGRESS), (''inprogress'', IN_PROGRESS),
      (''processing'', PROCESSING), (''completed'', COMPLETED), (''complete'', COMPLETED),
      (''partial'', PARTIAL), (''canceled'', CANCELLED), (''cancelled'', CANCELLED),
      (''failed'', FAILED), (''error'', FAILED), (''refunded'', REFUNDED)]"

definition from_provider_string :: "string \<Rightarrow> provider_order_state" where
  "from_provider_string raw =
     (case map_of provider_words (strip (lower raw)) of None \<Rightarrow> PROCESSING | Some st \<Rightarrow> st)"

datatype refill_state = Refill_pending | Refill_completed | Refill_rejected | Refill_failed

type_synonym json_obj = "(string \<times> json) list"

record smm_service =
  ms_id :: string
  ms_name :: string
  ms_category :: string
  ms_type :: "string option"
  ms_rate :: "py_decimal option"
  ms_min :: "int option"
  ms_max :: "int option"
  ms_refill :: bool
  ms_cancel :: bool
  ms_drip :: bool
  ms_description :: json
  ms_raw :: json_obj

record order_req =
  rq_service :: string
  rq_quantity :: int
  rq_link :: "string option"
  rq_custom :: json_obj
  rq_key :: "string option"

record smm_order_status =
  mo_id :: string
  mo_status :: provider_order_state
  mo_start_count :: "int option"
  mo_remains :: "int option"
  mo_currency :: json
  mo_charge :: "py_decimal option"
  mo_raw :: json_obj

record refill_result =
  rr_id :: string
  rr_raw :: json_obj

record smm_refill_status =
  mr_id :: string
  mr_status :: refill_state
  mr_raw :: json_obj

text \<open>The texts of errors are those of the exceptions kept here.\<close>

record cancel_result =
  cr_success :: bool
  cr_order :: string
  cr_error :: "smm_exn option"

record health_report =
  hp_status :: health_status
  hp_balance :: "py_decimal option"
  hp_error :: "smm_exn option"

section \<open>One request\<close>

text \<open>
  A response with its status and its body, if that is JSON; no answer in time; no connection; or
  another exception of the client.
\<close>

datatype http_reply = Reply int "json option" | Timed_out | Refused | Client_failure

definition post :: "http_reply \<Rightarrow> smm_exn + json" where
  "post reply =
     (case reply of
        Timed_out \<Rightarrow> Inl (raise_smm ProviderUnavailableError)
      | Refused \<Rightarrow> Inl (raise_smm ProviderUnavailableError)
      | Client_failure \<Rightarrow> Inl (raise_smm SMMProviderError)
      | Reply code body \<Rightarrow>
          if 500 \<le> code then Inl (raise_smm ProviderUnavailableError)
          else if 400 \<le> code then Inl (raise_smm ProviderResponseError)
          else case body of
              None \<Rightarrow> Inl (raise_smm ProviderResponseError)
            | Some (Jobj kvs) \<Rightarrow>
                if obj_get ''error'' kvs \<noteq> None then Inl (raise_smm ProviderResponseError)
                else Inr (Jobj kvs)
            | Some v \<Rightarrow> Inr v)"

text \<open>\<open>value.get\<close> of something that is no object.\<close>

definition as_obj :: "json \<Rightarrow> smm_exn + json_obj" where
  "as_obj v = (case v of Jobj kvs \<Rightarrow> Inr kvs | _ \<Rightarrow> Inl (Py ''AttributeError''))"

definition get_or :: "string \<Rightarrow> json \<Rightarrow> json_obj \<Rightarrow> json" where
  "get_or k d kvs = (case obj_get k kvs of None \<Rightarrow> d | Some v \<Rightarrow> v)"

definition safe_decimal :: "(json \<Rightarrow> string) \<Rightarrow> json \<Rightarrow> py_decimal option" where
  "safe_decimal R v = (if v = Jnull then None else parse_py_decimal (py_str R v))"

definition safe_int :: "json \<Rightarrow> int option" where
  "safe_int v = (case py_int_of v of Inl e \<Rightarrow> None | Inr i \<Rightarrow> Some i)"

section \<open>Operations\<close>

definition smm_service_of :: "(json \<Rightarrow> string) \<Rightarrow> json_obj \<Rightarrow> smm_service option" where
  "smm_service_of R kvs =
     (let svc_id = or_else (dict_get ''service'' kvs) (dict_get ''id'' kvs);
          name = or_else (dict_get ''name'' kvs) (get_or ''description'' (Jtext []) kvs);
          kind = py_str R (get_or ''type'' (Jtext []) kvs)
      in if \<not> truthy svc_id \<or> \<not> truthy name then None
         else Some
           \<lparr>ms_id = py_str R svc_id, ms_name = py_str R name,
            ms_category = py_str R (get_or ''category'' (Jtext ''Uncategorised'') kvs),
            ms_type = (if kind = [] then None else Some kind),
            ms_rate = safe_decimal R (dict_get ''rate'' kvs),
            ms_min = safe_int (dict_get ''min'' kvs), ms_max = safe_int (dict_get ''max'' kvs),
            ms_refill = truthy (dict_get ''refill'' kvs), ms_cancel = truthy (dict_get ''cancel'' kvs),
            ms_drip = truthy (dict_get ''dripfeed'' kvs),
            ms_description = dict_get ''description'' kvs, ms_raw = kvs\<rparr>)"

definition smm_get_services :: "(json \<Rightarrow> string) \<Rightarrow> http_reply \<Rightarrow> smm_exn + smm_service list" where
  "smm_get_services R reply =
     e_bind (post reply) (\<lambda>raw. case raw of
         Jarray items \<Rightarrow> Inr (List.map_filter
           (\<lambda>item. case item of Jobj kvs \<Rightarrow> smm_service_of R kvs | _ \<Rightarrow> None) items)
       | _ \<Rightarrow> Inl (raise_smm ProviderResponseError))"

definition smm_get_balance :: "(json \<Rightarrow> string) \<Rightarrow> http_reply \<Rightarrow> smm_exn + py_decimal" where
  "smm_get_balance R reply =
     e_bind (post reply) (\<lambda>raw. e_bind (as_obj raw) (\<lambda>kvs.
       case safe_decimal R (dict_get ''balance'' kvs) of
         None \<Rightarrow> Inl (raise_smm ProviderResponseError)
       | Some d \<Rightarrow> Inr d))"

text \<open>The form of an order; custom fields never replace one that is set.\<close>

fun add_fields :: "(json \<Rightarrow> string) \<Rightarrow> json_obj \<Rightarrow> (string \<times> string) list \<Rightarrow> (string \<times> string) list" where
  "add_fields R [] form = form"
| "add_fields R ((k, v) # custom) form =
     add_fields R custom (if k \<in> fst ` set form then form else form @ [(k, py_str R v)])"

definition smm_order_form :: "(json \<Rightarrow> string) \<Rightarrow> string \<Rightarrow> order_req \<Rightarrow> (string \<times> string) list" where
  "smm_order_form R key req =
     add_fields R (rq_custom req)
       ([(''key'', key), (''action'', ''add''), (''service'', rq_service req),
         (''quantity'', str_int (rq_quantity req))] @
        (case rq_link req of None \<Rightarrow> [] | Some l \<Rightarrow> if l = [] then [] else [(''link'', l)]))"

definition smm_create_order :: "(json \<Rightarrow> string) \<Rightarrow> http_reply \<Rightarrow> smm_exn + string" where
  "smm_create_order R reply =
     e_bind (post reply) (\<lambda>raw. e_bind (as_obj raw) (\<lambda>kvs.
       let order = dict_get ''order'' kvs
       in if \<not> truthy order then Inl (raise_smm ProviderResponseError) else Inr (py_str R order)))"

definition status_of_obj :: "(json \<Rightarrow> string) \<Rightarrow> string \<Rightarrow> json_obj \<Rightarrow> smm_order_status" where
  "status_of_obj R oid kvs =
     \<lparr>mo_id = oid, mo_status = from_provider_string (py_str R (get_or ''status'' (Jtext ''processing'') kvs)),
      mo_start_count = safe_int (dict_get ''start_count'' kvs), mo_remains = safe_int (dict_get ''remains'' kvs),
      mo_currency = dict_get ''currency'' kvs, mo_charge = safe_decimal R (dict_get ''charge'' kvs),
      mo_raw = kvs\<rparr>"

definition smm_get_order_status ::
  "(json \<Rightarrow> string) \<Rightarrow> string \<Rightarrow> http_reply \<Rightarrow> smm_exn + smm_order_status" where
  "smm_get_order_status R oid reply =
     e_bind (post reply) (\<lambda>raw. e_bind (as_obj raw) (\<lambda>kvs. Inr (status_of_obj R oid kvs)))"

text \<open>
  The ids in chunks; \<open>batch\<close> answers a request for a chunk, \<open>single\<close> one for an id. A chunk that the
  panel refuses is asked one by one, and an id that is refused again is left out.
\<close>

definition MAX_MULTI :: nat where "MAX_MULTI = 100"

function chunks :: "string list \<Rightarrow> string list list" where
  "chunks ids = (if ids = [] then [] else take MAX_MULTI ids # chunks (drop MAX_MULTI ids))"
  by pat_completeness auto
termination by (relation "measure length") (auto simp: MAX_MULTI_def)

declare chunks.simps [simp del]

definition response_error :: "smm_exn \<Rightarrow> bool" where
  "response_error e \<longleftrightarrow> catches [ProviderResponseError] e"

fun statuses_one_by_one ::
  "(json \<Rightarrow> string) \<Rightarrow> (string \<Rightarrow> http_reply) \<Rightarrow> string list \<Rightarrow> smm_exn + smm_order_status list" where
  "statuses_one_by_one R single [] = Inr []"
| "statuses_one_by_one R single (oid # ids) =
     (case smm_get_order_status R oid (single oid) of
        Inl e \<Rightarrow> if response_error e then statuses_one_by_one R single ids else Inl e
      | Inr st \<Rightarrow> e_bind (statuses_one_by_one R single ids) (\<lambda>rest. Inr (st # rest)))"

text \<open>A list is read by position, without currency and charge; an object by id, with \<open>{}\<close> for an absent one.\<close>

fun statuses_by_position ::
  "(json \<Rightarrow> string) \<Rightarrow> (string \<times> json) list \<Rightarrow> smm_exn + smm_order_status list" where
  "statuses_by_position R [] = Inr []"
| "statuses_by_position R ((oid, item) # items) =
     e_bind (as_obj item) (\<lambda>kvs. e_bind (statuses_by_position R items) (\<lambda>rest.
       Inr ((status_of_obj R oid kvs)\<lparr>mo_currency := Jnull, mo_charge := None\<rparr> # rest)))"

fun statuses_by_id ::
  "(json \<Rightarrow> string) \<Rightarrow> json_obj \<Rightarrow> string list \<Rightarrow> smm_exn + smm_order_status list" where
  "statuses_by_id R raw [] = Inr []"
| "statuses_by_id R raw (oid # ids) =
     e_bind (as_obj (or_else (dict_get oid raw) (Jobj []))) (\<lambda>kvs.
       e_bind (statuses_by_id R raw ids) (\<lambda>rest. Inr (status_of_obj R oid kvs # rest)))"

definition chunk_statuses ::
  "(json \<Rightarrow> string) \<Rightarrow> (string list \<Rightarrow> http_reply) \<Rightarrow> (string \<Rightarrow> http_reply) \<Rightarrow> string list
    \<Rightarrow> smm_exn + smm_order_status list" where
  "chunk_statuses R batch single chunk =
     (case post (batch chunk) of
        Inl e \<Rightarrow> if response_error e then statuses_one_by_one R single chunk else Inl e
      | Inr (Jobj kvs) \<Rightarrow> statuses_by_id R kvs chunk
      | Inr (Jarray items) \<Rightarrow> statuses_by_position R (zip chunk items)
      | Inr v \<Rightarrow> Inr [])"

fun over_chunks :: "('b \<Rightarrow> 'e + 'a list) \<Rightarrow> 'b list \<Rightarrow> 'e + 'a list" where
  "over_chunks f [] = Inr []"
| "over_chunks f (c # cs) = e_bind (f c) (\<lambda>xs. e_bind (over_chunks f cs) (\<lambda>rest. Inr (xs @ rest)))"

definition smm_get_multiple_order_status ::
  "(json \<Rightarrow> string) \<Rightarrow> (string list \<Rightarrow> http_reply) \<Rightarrow> (string \<Rightarrow> http_reply) \<Rightarrow> string list
    \<Rightarrow> smm_exn + smm_order_status list" where
  "smm_get_multiple_order_status R batch single ids =
     over_chunks (chunk_statuses R batch single) (chunks ids)"

section \<open>Refills and cancellations\<close>

definition smm_refill :: "(json \<Rightarrow> string) \<Rightarrow> http_reply \<Rightarrow> smm_exn + refill_result" where
  "smm_refill R reply =
     e_bind (post reply) (\<lambda>raw. e_bind (as_obj raw) (\<lambda>kvs.
       let refill = dict_get ''refill'' kvs
       in if \<not> truthy refill then Inl (raise_smm ProviderResponseError)
          else Inr \<lparr>rr_id = py_str R refill, rr_raw = kvs\<rparr>))"

definition contains :: "string \<Rightarrow> string \<Rightarrow> bool" where
  "contains w s \<longleftrightarrow> list_ex (starts_with w) (suffixes s)"

definition refill_word :: "bool \<Rightarrow> string \<Rightarrow> refill_state" where
  "refill_word errors s =
     (if contains ''complet'' s then Refill_completed
      else if contains ''reject'' s then Refill_rejected
      else if contains ''fail'' s \<or> errors \<and> contains ''error'' s then Refill_failed
      else Refill_pending)"

definition smm_get_refill_status ::
  "(json \<Rightarrow> string) \<Rightarrow> string \<Rightarrow> http_reply \<Rightarrow> smm_exn + smm_refill_status" where
  "smm_get_refill_status R rid reply =
     e_bind (post reply) (\<lambda>raw. e_bind (as_obj raw) (\<lambda>kvs. Inr
       \<lparr>mr_id = rid,
        mr_status = refill_word True (strip (lower (py_str R (get_or ''status'' (Jtext ''pending'') kvs)))),
        mr_raw = kvs\<rparr>))"

text \<open>One by one, every exception of a single request leaves its id out.\<close>

fun refills_one_by_one ::
  "(json \<Rightarrow> string) \<Rightarrow> (string \<Rightarrow> http_reply) \<Rightarrow> string list \<Rightarrow> smm_refill_status list" where
  "refills_one_by_one R single [] = []"
| "refills_one_by_one R single (rid # ids) =
     (case smm_get_refill_status R rid (single rid) of
        Inl e \<Rightarrow> refills_one_by_one R single ids
      | Inr st \<Rightarrow> st # refills_one_by_one R single ids)"

fun refills_by_id ::
  "(json \<Rightarrow> string) \<Rightarrow> json_obj \<Rightarrow> string list \<Rightarrow> smm_exn + smm_refill_status list" where
  "refills_by_id R raw [] = Inr []"
| "refills_by_id R raw (rid # ids) =
     e_bind (as_obj (or_else (dict_get rid raw) (Jobj []))) (\<lambda>kvs.
       e_bind (refills_by_id R raw ids) (\<lambda>rest. Inr
         (\<lparr>mr_id = rid,
           mr_status = refill_word False (lower (py_str R (get_or ''status'' (Jtext ''pending'') kvs))),
           mr_raw = kvs\<rparr> # rest)))"

definition chunk_refills ::
  "(json \<Rightarrow> string) \<Rightarrow> (string list \<Rightarrow> http_reply) \<Rightarrow> (string \<Rightarrow> http_reply) \<Rightarrow> string list
    \<Rightarrow> smm_exn + smm_refill_status list" where
  "chunk_refills R batch single chunk =
     (case post (batch chunk) of
        Inl e \<Rightarrow> if response_error e then Inr (refills_one_by_one R single chunk) else Inl e
      | Inr raw \<Rightarrow> e_bind (if chunk = [] then Inr [] else as_obj raw) (\<lambda>kvs. refills_by_id R kvs chunk))"

definition smm_get_multiple_refill_status ::
  "(json \<Rightarrow> string) \<Rightarrow> (string list \<Rightarrow> http_reply) \<Rightarrow> (string \<Rightarrow> http_reply) \<Rightarrow> string list
    \<Rightarrow> smm_exn + smm_refill_status list" where
  "smm_get_multiple_refill_status R batch single ids =
     over_chunks (chunk_refills R batch single) (chunks ids)"

definition says_success :: "(json \<Rightarrow> string) \<Rightarrow> json \<Rightarrow> bool" where
  "says_success R v \<longleftrightarrow> contains ''success'' (lower (py_str R v))"

text \<open>
  Of a list only the first entry is looked at; the text of an object is searched as a whole, its
  keys included.
\<close>

definition smm_cancel :: "(json \<Rightarrow> string) \<Rightarrow> string \<Rightarrow> http_reply \<Rightarrow> smm_exn + cancel_result" where
  "smm_cancel R oid reply =
     (case post reply of
        Inl e \<Rightarrow>
          if response_error e then Inr \<lparr>cr_success = False, cr_order = oid, cr_error = Some e\<rparr> else Inl e
      | Inr raw \<Rightarrow>
          e_bind
            (case raw of
               Jarray (item # _) \<Rightarrow> e_bind (as_obj item) (\<lambda>kvs. Inr
                 (case get_or ''cancel'' (Jobj []) kvs of
                    Jobj data \<Rightarrow> list_ex (says_success R) (map snd data)
                  | _ \<Rightarrow> False))
             | Jobj kvs \<Rightarrow> Inr (says_success R raw)
             | _ \<Rightarrow> Inr False)
            (\<lambda>ok. Inr \<lparr>cr_success = ok, cr_order = oid, cr_error = None\<rparr>))"

definition smm_health_check :: "(json \<Rightarrow> string) \<Rightarrow> http_reply \<Rightarrow> health_report" where
  "smm_health_check R reply =
     (case smm_get_balance R reply of
        Inr d \<Rightarrow> \<lparr>hp_status = HEALTHY, hp_balance = Some d, hp_error = None\<rparr>
      | Inl e \<Rightarrow> \<lparr>hp_status = (if catches [ProviderUnavailableError] e then DOWN else DEGRADED),
                  hp_balance = None, hp_error = Some e\<rparr>)"

section \<open>What leaves the adapter\<close>

definition adapter_exn :: "smm_exn \<Rightarrow> bool" where
  "adapter_exn e \<longleftrightarrow> catches [SMMProviderError] e \<or> e = Py ''AttributeError''"

lemma raised_provider_errors:
  "adapter_exn (raise_smm SMMProviderError)" "adapter_exn (raise_smm ProviderResponseError)"
  "adapter_exn (raise_smm ProviderUnavailableError)" "adapter_exn (Py ''AttributeError'')"
  "response_error (raise_smm ProviderResponseError)" "\<not> response_error (raise_smm ProviderUnavailableError)"
  "\<not> response_error (raise_smm SMMProviderError)" "\<not> response_error (Py n)"
  by (simp_all add: adapter_exn_def response_error_def catches_def raise_smm_def subclass_of.simps)

lemma post_raises: "post reply = Inl e \<Longrightarrow> adapter_exn e"
  by (auto simp: post_def raised_provider_errors
      split: http_reply.split_asm option.split_asm json.split_asm if_split_asm)

lemma as_obj_Inl: "as_obj v = Inl e \<Longrightarrow> adapter_exn e"
  by (auto simp: as_obj_def raised_provider_errors split: json.split_asm)

lemma as_obj_Inr: "as_obj v = Inr kvs \<longleftrightarrow> v = Jobj kvs"
  by (auto simp: as_obj_def split: json.split)

lemma get_order_status_raises: "smm_get_order_status R oid reply = Inl e \<Longrightarrow> adapter_exn e"
  by (auto simp: smm_get_order_status_def e_bind_eq_Inl intro: post_raises as_obj_Inl)

lemma one_by_one_raises: "statuses_one_by_one R single ids = Inl e \<Longrightarrow> adapter_exn e"
  by (induction ids) (auto simp: e_bind_eq_Inl split: sum.split_asm if_split_asm intro: get_order_status_raises)

lemma by_position_raises: "statuses_by_position R items = Inl e \<Longrightarrow> adapter_exn e"
  by (induction R items rule: statuses_by_position.induct) (auto simp: e_bind_eq_Inl intro: as_obj_Inl)

lemma by_id_raises: "statuses_by_id R raw ids = Inl e \<Longrightarrow> adapter_exn e"
  by (induction ids) (auto simp: e_bind_eq_Inl intro: as_obj_Inl)

lemma refills_by_id_raises: "refills_by_id R raw ids = Inl e \<Longrightarrow> adapter_exn e"
  by (induction ids) (auto simp: e_bind_eq_Inl intro: as_obj_Inl)

lemma over_chunks_raises: "over_chunks f cs = Inl e \<Longrightarrow> \<exists>c \<in> set cs. f c = Inl e"
  by (induction cs) (auto simp: e_bind_eq_Inl)

lemma chunk_statuses_raises: "chunk_statuses R batch single c = Inl e \<Longrightarrow> adapter_exn e"
  by (auto simp: chunk_statuses_def split: sum.split_asm json.split_asm if_split_asm
      intro: post_raises one_by_one_raises by_position_raises by_id_raises)

lemma chunk_refills_raises: "chunk_refills R batch single c = Inl e \<Longrightarrow> adapter_exn e"
  by (auto simp: chunk_refills_def e_bind_eq_Inl split: sum.split_asm if_split_asm
      intro: post_raises as_obj_Inl refills_by_id_raises)

lemma get_services_raises: "smm_get_services R reply = Inl e \<Longrightarrow> adapter_exn e"
  unfolding smm_get_services_def e_bind_eq_Inl
  by (elim disjE exE conjE) (auto simp: raised_provider_errors intro: post_raises split: json.split_asm)

lemma get_balance_raises: "smm_get_balance R reply = Inl e \<Longrightarrow> adapter_exn e"
  by (auto simp: smm_get_balance_def e_bind_eq_Inl raised_provider_errors intro: post_raises as_obj_Inl
      split: option.split_asm)

lemma create_order_raises: "smm_create_order R reply = Inl e \<Longrightarrow> adapter_exn e"
  by (auto simp: smm_create_order_def Let_def e_bind_eq_Inl raised_provider_errors intro: post_raises as_obj_Inl
      split: if_split_asm)

lemma multiple_status_raises: "smm_get_multiple_order_status R batch single ids = Inl e \<Longrightarrow> adapter_exn e"
  unfolding smm_get_multiple_order_status_def by (blast dest: over_chunks_raises intro: chunk_statuses_raises)

lemma refill_raises: "smm_refill R reply = Inl e \<Longrightarrow> adapter_exn e"
  by (auto simp: smm_refill_def Let_def e_bind_eq_Inl raised_provider_errors intro: post_raises as_obj_Inl
      split: if_split_asm)

lemma refill_status_raises: "smm_get_refill_status R rid reply = Inl e \<Longrightarrow> adapter_exn e"
  by (auto simp: smm_get_refill_status_def e_bind_eq_Inl intro: post_raises as_obj_Inl)

lemma multiple_refill_raises: "smm_get_multiple_refill_status R batch single ids = Inl e \<Longrightarrow> adapter_exn e"
  unfolding smm_get_multiple_refill_status_def by (blast dest: over_chunks_raises intro: chunk_refills_raises)

lemma cancel_raises: "smm_cancel R oid reply = Inl e \<Longrightarrow> adapter_exn e"
  unfolding smm_cancel_def e_bind_eq_Inl
  by (auto simp: e_bind_eq_Inl intro: post_raises as_obj_Inl
      split: sum.split_asm if_split_asm json.split_asm list.split_asm)

section \<open>Chunks\<close>

text \<open>
  A list of ids is asked about in as few requests as a hundred ids per request allow: the chunks
  are the list in order, none is empty, none is longer than a hundred, and there are as many as needed.
\<close>

theorem chunks_cover:
  "concat (chunks ids) = ids \<and> (\<forall>c. c \<in> set (chunks ids) \<longrightarrow> 0 < length c \<and> length c \<le> 100) \<and>
   length (chunks ids) = (length ids + 99) div 100"
proof (induction ids rule: chunks.induct)
  case (1 ids)
  show ?case
  proof (cases "ids = []")
    case True
    then show ?thesis by (simp add: chunks.simps)
  next
    case False
    then have "chunks ids = take 100 ids # chunks (drop 100 ids)" by (simp add: chunks.simps [of ids] MAX_MULTI_def)
    moreover have "Suc ((length ids - 100 + 99) div 100) = (length ids + 99) div 100"
      using False by (cases "100 \<le> length ids") (auto simp: neq_Nil_conv le_div_geq)
    ultimately show ?thesis using 1 [OF False] False by (auto simp: MAX_MULTI_def)
  qed
qed

lemma chunks_cover_witness:
  "map length (chunks (replicate 250 ''7'')) = [100, 100, 50] \<and> length (chunks (replicate 250 ''7'')) = 3"
proof
  show "map length (chunks (replicate 250 ''7'')) = [100, 100, 50]"
    by (simp add: chunks.simps MAX_MULTI_def)
  show "length (chunks (replicate 250 ''7'')) = 3" using chunks_cover [of "replicate 250 ''7''"] by simp
qed

section \<open>Which ids the statuses are about\<close>

lemma one_by_one_ids: "statuses_one_by_one R single ids = Inr sts \<Longrightarrow> subseq (map mo_id sts) ids"
  by (induction ids arbitrary: sts)
    (auto simp: smm_get_order_status_def e_bind_eq_Inr status_of_obj_def split: sum.split_asm if_split_asm)

lemma by_position_ids: "statuses_by_position R items = Inr sts \<Longrightarrow> map mo_id sts = map fst items"
  by (induction R items arbitrary: sts rule: statuses_by_position.induct) (auto simp: e_bind_eq_Inr status_of_obj_def)

lemma by_id_ids: "statuses_by_id R raw ids = Inr sts \<Longrightarrow> map mo_id sts = ids"
  by (induction ids arbitrary: sts) (auto simp: e_bind_eq_Inr status_of_obj_def)

lemma subseq_zip: "subseq (map fst (zip xs ys)) xs"
  by (simp add: map_fst_zip_take prefix_imp_subseq take_is_prefix)

lemma chunk_ids:
  assumes "chunk_statuses R batch single c = Inr sts"
  shows "subseq (map mo_id sts) c \<and> ((\<exists>kvs. post (batch c) = Inr (Jobj kvs)) \<longrightarrow> map mo_id sts = c)"
  using assms by_position_ids [of R "zip c _" sts] subseq_zip
  by (auto simp: chunk_statuses_def split: sum.split_asm json.split_asm if_split_asm dest: by_id_ids intro: one_by_one_ids)

lemma over_chunks_ids:
  assumes "\<And>c sts. c \<in> set cs \<Longrightarrow> f c = Inr sts \<Longrightarrow> subseq (map mo_id sts) c \<and> (full c \<longrightarrow> map mo_id sts = c)"
  shows "over_chunks f cs = Inr sts \<Longrightarrow>
    subseq (map mo_id sts) (concat cs) \<and> ((\<forall>c \<in> set cs. full c) \<longrightarrow> map mo_id sts = concat cs)"
  using assms
proof (induction cs arbitrary: sts)
  case (Cons c cs)
  then obtain xs rest where "f c = Inr xs" "over_chunks f cs = Inr rest" "sts = xs @ rest"
    by (auto simp: e_bind_eq_Inr)
  then show ?case using Cons.IH [of rest] Cons.prems(2) by (auto intro: list_emb_append_mono)
qed simp

text \<open>
  A batch of statuses is about the ids asked for, in their order and each at most once. It is about
  all of them when the panel answers every chunk with an object; an id that the panel does not mention
  is then reported as processing. A chunk the panel refuses loses the ids it refuses again.
\<close>

theorem batch_statuses_in_order:
  assumes "smm_get_multiple_order_status R batch single ids = Inr sts"
  shows "subseq (map mo_id sts) ids \<and>
    ((\<forall>c \<in> set (chunks ids). \<exists>kvs. post (batch c) = Inr (Jobj kvs)) \<longrightarrow> map mo_id sts = ids)"
proof -
  have "over_chunks (chunk_statuses R batch single) (chunks ids) = Inr sts"
    using assms unfolding smm_get_multiple_order_status_def .
  from over_chunks_ids [OF chunk_ids this] show ?thesis using chunks_cover [of ids] by simp
qed

lemma batch_statuses_in_order_witness:
  "\<exists>sts. smm_get_multiple_order_status (\<lambda>_. []) (\<lambda>_. Reply 200 (Some (Jobj []))) (\<lambda>_. Timed_out) [''7'', ''9''] = Inr sts \<and>
     map mo_id sts = [''7'', ''9''] \<and> map mo_status sts = [PROCESSING, PROCESSING]"
proof -
  let ?go = "smm_get_multiple_order_status (\<lambda>_. []) (\<lambda>_. Reply 200 (Some (Jobj []))) (\<lambda>_. Timed_out) [''7'', ''9'']"
  have empty: "post (Reply 200 (Some (Jobj []))) = Inr (Jobj [])" by (simp add: post_def obj_get_def)
  have "\<exists>sts. ?go = Inr sts \<and> map mo_status sts = [PROCESSING, PROCESSING]"
    by (simp add: smm_get_multiple_order_status_def chunks.simps MAX_MULTI_def chunk_statuses_def empty
        dict_get_def obj_get_def or_else_def as_obj_def status_of_obj_def get_or_def) code_simp
  then show ?thesis using batch_statuses_in_order empty by fastforce
qed

section \<open>A refused cancellation\<close>

text \<open>
  An answer that says that the cancellation had no success is reported as a success: the adapter
  searches the text of the whole object, its keys included.
\<close>

theorem refused_cancel_succeeds:
  assumes "contains ''success'' (lower (R (Jobj [(''success'', Jbool False)])))"
  shows "smm_cancel R oid (Reply 200 (Some (Jobj [(''success'', Jbool False)]))) =
    Inr \<lparr>cr_success = True, cr_order = oid, cr_error = None\<rparr>"
  using assms by (simp add: smm_cancel_def post_def obj_get_def says_success_def)

lemma refused_cancel_succeeds_witness:
  "smm_cancel (\<lambda>_. ''{'' @ [char_of (39 :: nat)] @ ''success'' @ [char_of (39 :: nat)] @ '': False}'') ''7''
     (Reply 200 (Some (Jobj [(''success'', Jbool False)]))) =
   Inr \<lparr>cr_success = True, cr_order = ''7'', cr_error = None\<rparr>"
  by (rule refused_cancel_succeeds) code_simp

end
