(* ===== verification/Registry.thy ===== *)
theory Registry
  imports SMMProMax
begin

text \<open>
  \<open>app/providers/registry.py\<close>: the loaded providers with their health and the circuit breaker around
  every call of an adapter. An operation gives its result and the registry as it is then, also when it
  raises. The code's lock covers loading and shutting down only; other operations may interleave where they
  wait for a provider. Each is one step here, so a call that is under way while another one opens the
  breaker is not covered. The checks of \<open>health_check_all\<close>, which run at the same time, touch one entry
  each and are taken one after the other. Times are seconds. The Redis keys are written here and read by nobody.
\<close>

section \<open>State\<close>

definition CB_DEGRADED_THRESHOLD :: int where "CB_DEGRADED_THRESHOLD = 5"
definition CB_DOWN_THRESHOLD :: int where "CB_DOWN_THRESHOLD = 10"
definition CB_AUTO_RESET_S :: int where "CB_AUTO_RESET_S = 1800"

fun health_value :: "health_status \<Rightarrow> string" where
  "health_value HEALTHY = ''healthy''"
| "health_value DEGRADED = ''degraded''"
| "health_value DOWN = ''down''"

record smm_provider_row =
  pr_id :: int
  pr_name :: string
  pr_slug :: string
  pr_endpoint :: string
  pr_currency :: string
  pr_priority :: int
  pr_is_active :: bool
  pr_credentials :: "string option"

text \<open>The adapter of an entry is built of the endpoint and the decrypted key.\<close>

record provider_entry =
  pe_id :: int
  pe_name :: string
  pe_slug :: string
  pe_endpoint :: string
  pe_currency :: string
  pe_priority :: int
  pe_key :: string
  pe_health :: health_status
  pe_failures :: int
  pe_last_failure :: int

text \<open>The providers in the order of loading, and what Redis holds: the text and when it expires.\<close>

record registry =
  rg_providers :: "provider_entry list"
  rg_breakers :: "int \<Rightarrow> (string \<times> int) option"

definition new_registry :: registry where
  "new_registry = \<lparr>rg_providers = [], rg_breakers = (\<lambda>_. None)\<rparr>"

definition entry :: "int \<Rightarrow> registry \<Rightarrow> provider_entry option" where
  "entry pid R = find_by pe_id pid (rg_providers R)"

definition set_entry :: "int \<Rightarrow> (provider_entry \<Rightarrow> provider_entry) \<Rightarrow> registry \<Rightarrow> registry" where
  "set_entry pid f R = R\<lparr>rg_providers := upd_by pe_id pid f (rg_providers R)\<rparr>"

section \<open>Loading\<close>

definition decrypt_credential :: "(string \<Rightarrow> string option) \<Rightarrow> smm_provider_row \<Rightarrow> string option" where
  "decrypt_credential decrypt p =
     (case pr_credentials p of None \<Rightarrow> None | Some c \<Rightarrow> if c = [] then None else decrypt c)"

definition load_one :: "(string \<Rightarrow> string option) \<Rightarrow> registry \<Rightarrow> smm_provider_row \<Rightarrow> provider_entry option" where
  "load_one decrypt R p =
     map_option (\<lambda>key.
       \<lparr>pe_id = pr_id p, pe_name = pr_name p, pe_slug = pr_slug p,
        pe_endpoint = pr_endpoint p, pe_currency = pr_currency p, pe_priority = pr_priority p, pe_key = key,
        pe_health = (case entry (pr_id p) R of None \<Rightarrow> HEALTHY | Some e \<Rightarrow> pe_health e),
        pe_failures = (case entry (pr_id p) R of None \<Rightarrow> 0 | Some e \<Rightarrow> pe_failures e),
        pe_last_failure = 0\<rparr>) (decrypt_credential decrypt p)"

definition load_providers ::
  "(string \<Rightarrow> string option) \<Rightarrow> smm_provider_row list \<Rightarrow> registry \<Rightarrow> nat \<times> registry" where
  "load_providers decrypt rows R =
     (let new = List.map_filter (load_one decrypt R)
                  (sort_key (\<lambda>p. - pr_priority p) (filter pr_is_active rows))
      in (length new, R\<lparr>rg_providers := new\<rparr>))"

definition shutdown :: "registry \<Rightarrow> registry" where
  "shutdown R = R\<lparr>rg_providers := []\<rparr>"

definition get_provider :: "int \<Rightarrow> registry \<Rightarrow> smm_exn + provider_entry" where
  "get_provider pid R =
     (case entry pid R of None \<Rightarrow> Inl (raise_smm ProviderUnavailableError) | Some e \<Rightarrow> Inr e)"

definition get_all_providers :: "registry \<Rightarrow> provider_entry list" where
  "get_all_providers R = sort_key (\<lambda>e. - pe_priority e) (rg_providers R)"

definition get_healthy_providers :: "registry \<Rightarrow> provider_entry list" where
  "get_healthy_providers R =
     sort_key (\<lambda>e. - pe_priority e) (filter (\<lambda>e. pe_health e \<noteq> DOWN) (rg_providers R))"

section \<open>Circuit breaker\<close>

text \<open>The clock, and the exception that Redis raises if it cannot be reached.\<close>

record breaker_env =
  be_now :: int
  be_redis :: "smm_exn option"

definition succeeded :: "provider_entry \<Rightarrow> provider_entry" where
  "succeeded e = e\<lparr>pe_failures := 0, pe_health := (if pe_health e = DEGRADED then HEALTHY else pe_health e)\<rparr>"

definition failed :: "int \<Rightarrow> provider_entry \<Rightarrow> provider_entry" where
  "failed now e =
     (let n = pe_failures e + 1
      in e\<lparr>pe_failures := n, pe_last_failure := now,
          pe_health := (if CB_DOWN_THRESHOLD \<le> n then DOWN
                        else if CB_DEGRADED_THRESHOLD \<le> n \<and> pe_health e = HEALTHY then DEGRADED
                        else pe_health e)\<rparr>)"

definition record_success :: "int \<Rightarrow> registry \<Rightarrow> registry" where
  "record_success pid R = set_entry pid succeeded R"

definition breaker_text :: "provider_entry \<Rightarrow> string" where
  "breaker_text e = str_int (pe_failures e) @ '':'' @ health_value (pe_health e)"

text \<open>The entry has counted the failure when Redis raises.\<close>

definition record_failure :: "breaker_env \<Rightarrow> int \<Rightarrow> registry \<Rightarrow> (smm_exn + unit) \<times> registry" where
  "record_failure env pid R =
     (case entry pid R of
        None \<Rightarrow> (Inr (), R)
      | Some e \<Rightarrow>
          let e = failed (be_now env) e; R = set_entry pid (failed (be_now env)) R
          in case be_redis env of
               Some x \<Rightarrow> (Inl x, R)
             | None \<Rightarrow> (Inr (), R\<lparr>rg_breakers := (rg_breakers R)
                 (pid \<mapsto> (breaker_text e, be_now env + CB_AUTO_RESET_S))\<rparr>))"

definition healed :: "provider_entry \<Rightarrow> provider_entry" where
  "healed e = e\<lparr>pe_failures := 0, pe_health := HEALTHY\<rparr>"

definition reset_circuit_breaker :: "breaker_env \<Rightarrow> int \<Rightarrow> registry \<Rightarrow> (smm_exn + unit) \<times> registry" where
  "reset_circuit_breaker env pid R =
     (case entry pid R of
        None \<Rightarrow> (Inr (), R)
      | Some e \<Rightarrow>
          let R = set_entry pid healed R
          in case be_redis env of
               Some x \<Rightarrow> (Inl x, R)
             | None \<Rightarrow> (Inr (), R\<lparr>rg_breakers := (rg_breakers R)(pid := None)\<rparr>))"

section \<open>Wrapped operations\<close>

text \<open>
  What every wrapper does with the adapter's answer: a result is a success, an exception of the
  providers' classes a failure; any other exception leaves the breaker alone.
\<close>

definition watched :: "breaker_env \<Rightarrow> int \<Rightarrow> smm_exn + 'a \<Rightarrow> registry \<Rightarrow> (smm_exn + 'a) \<times> registry" where
  "watched env pid answer R =
     (case answer of
        Inr x \<Rightarrow> (Inr x, record_success pid R)
      | Inl e \<Rightarrow>
          if catches [SMMProviderError, ProviderUnavailableError] e
          then (case record_failure env pid R of
                  (Inl x, R) \<Rightarrow> (Inl x, R) | (Inr u, R) \<Rightarrow> (Inl e, R))
          else (Inl e, R))"

definition wrapped :: "breaker_env \<Rightarrow> int \<Rightarrow> smm_exn + 'a \<Rightarrow> registry \<Rightarrow> (smm_exn + 'a) \<times> registry" where
  "wrapped env pid answer R =
     (case get_provider pid R of Inl e \<Rightarrow> (Inl e, R) | Inr p \<Rightarrow> watched env pid answer R)"

definition reg_get_services ::
  "breaker_env \<Rightarrow> (json \<Rightarrow> string) \<Rightarrow> int \<Rightarrow> http_reply \<Rightarrow> registry \<Rightarrow> (smm_exn + smm_service list) \<times> registry" where
  "reg_get_services env str pid reply R = wrapped env pid (smm_get_services str reply) R"

definition reg_get_balance ::
  "breaker_env \<Rightarrow> (json \<Rightarrow> string) \<Rightarrow> int \<Rightarrow> http_reply \<Rightarrow> registry \<Rightarrow> (smm_exn + py_decimal) \<times> registry" where
  "reg_get_balance env str pid reply R = wrapped env pid (smm_get_balance str reply) R"

definition reg_create_order ::
  "breaker_env \<Rightarrow> (json \<Rightarrow> string) \<Rightarrow> int \<Rightarrow> http_reply \<Rightarrow> registry \<Rightarrow> (smm_exn + string) \<times> registry" where
  "reg_create_order env str pid reply R =
     (case get_provider pid R of
        Inl e \<Rightarrow> (Inl e, R)
      | Inr p \<Rightarrow>
          if pe_health p = DOWN then (Inl (raise_smm ProviderUnavailableError), R)
          else watched env pid (smm_create_order str reply) R)"

definition reg_get_order_status ::
  "breaker_env \<Rightarrow> (json \<Rightarrow> string) \<Rightarrow> int \<Rightarrow> string \<Rightarrow> http_reply \<Rightarrow> registry
    \<Rightarrow> (smm_exn + smm_order_status) \<times> registry" where
  "reg_get_order_status env str pid oid reply R = wrapped env pid (smm_get_order_status str oid reply) R"

definition reg_get_multiple_order_status ::
  "breaker_env \<Rightarrow> (json \<Rightarrow> string) \<Rightarrow> int \<Rightarrow> string list \<Rightarrow> (string list \<Rightarrow> http_reply) \<Rightarrow> (string \<Rightarrow> http_reply)
    \<Rightarrow> registry \<Rightarrow> (smm_exn + smm_order_status list) \<times> registry" where
  "reg_get_multiple_order_status env str pid ids batch single R =
     wrapped env pid (smm_get_multiple_order_status str batch single ids) R"

definition reg_refill ::
  "breaker_env \<Rightarrow> (json \<Rightarrow> string) \<Rightarrow> int \<Rightarrow> http_reply \<Rightarrow> registry \<Rightarrow> (smm_exn + refill_result) \<times> registry" where
  "reg_refill env str pid reply R = wrapped env pid (smm_refill str reply) R"

definition reg_get_refill_status ::
  "breaker_env \<Rightarrow> (json \<Rightarrow> string) \<Rightarrow> int \<Rightarrow> string \<Rightarrow> http_reply \<Rightarrow> registry
    \<Rightarrow> (smm_exn + smm_refill_status) \<times> registry" where
  "reg_get_refill_status env str pid rid reply R = wrapped env pid (smm_get_refill_status str rid reply) R"

definition reg_get_multiple_refill_status ::
  "breaker_env \<Rightarrow> (json \<Rightarrow> string) \<Rightarrow> int \<Rightarrow> string list \<Rightarrow> (string list \<Rightarrow> http_reply) \<Rightarrow> (string \<Rightarrow> http_reply)
    \<Rightarrow> registry \<Rightarrow> (smm_exn + smm_refill_status list) \<times> registry" where
  "reg_get_multiple_refill_status env str pid ids batch single R =
     wrapped env pid (smm_get_multiple_refill_status str batch single ids) R"

definition reg_cancel ::
  "breaker_env \<Rightarrow> (json \<Rightarrow> string) \<Rightarrow> int \<Rightarrow> string \<Rightarrow> http_reply \<Rightarrow> registry
    \<Rightarrow> (smm_exn + cancel_result) \<times> registry" where
  "reg_cancel env str pid oid reply R = wrapped env pid (smm_cancel str oid reply) R"

definition reg_health_check ::
  "breaker_env \<Rightarrow> (json \<Rightarrow> string) \<Rightarrow> int \<Rightarrow> http_reply \<Rightarrow> registry \<Rightarrow> (smm_exn + health_report) \<times> registry" where
  "reg_health_check env str pid reply R =
     (case get_provider pid R of
        Inl e \<Rightarrow> (Inl e, R)
      | Inr p \<Rightarrow>
          let result = smm_health_check str reply
          in if hp_status result = HEALTHY then (Inr result, record_success pid R)
             else case record_failure env pid R of
                    (Inl x, R) \<Rightarrow> (Inl x, R) | (Inr u, R) \<Rightarrow> (Inr result, R))"

fun check_each ::
  "breaker_env \<Rightarrow> (json \<Rightarrow> string) \<Rightarrow> (int \<Rightarrow> http_reply) \<Rightarrow> int list \<Rightarrow> registry
    \<Rightarrow> (int \<times> health_report) list \<times> registry" where
  "check_each env str replies [] R = ([], R)"
| "check_each env str replies (pid # pids) R =
     (let (answer, R) = reg_health_check env str pid (replies pid) R;
          result = (case answer of Inr r \<Rightarrow> r
            | Inl e \<Rightarrow> \<lparr>hp_status = DOWN, hp_balance = None, hp_error = Some e\<rparr>);
          (results, R) = check_each env str replies pids R
      in ((pid, result) # results, R))"

definition health_check_all ::
  "breaker_env \<Rightarrow> (json \<Rightarrow> string) \<Rightarrow> (int \<Rightarrow> http_reply) \<Rightarrow> registry \<Rightarrow> (int \<times> health_report) list \<times> registry" where
  "health_check_all env str replies R = check_each env str replies (map pe_id (rg_providers R)) R"

section \<open>The registry in operation\<close>

datatype reg_call =
    Services int http_reply
  | Balance int http_reply
  | Create int http_reply
  | Order_state int string http_reply
  | Order_states int "string list" "string list \<Rightarrow> http_reply" "string \<Rightarrow> http_reply"
  | Refill int http_reply
  | Refill_state int string http_reply
  | Refill_states int "string list" "string list \<Rightarrow> http_reply" "string \<Rightarrow> http_reply"
  | Cancel int string http_reply
  | Health int http_reply
  | Health_all "int \<Rightarrow> http_reply"
  | Reset int
  | Reload "string \<Rightarrow> string option" "smm_provider_row list"

fun reg_step :: "(json \<Rightarrow> string) \<Rightarrow> breaker_env \<times> reg_call \<Rightarrow> registry \<Rightarrow> registry" where
  "reg_step str (env, Services pid r) R = snd (reg_get_services env str pid r R)"
| "reg_step str (env, Balance pid r) R = snd (reg_get_balance env str pid r R)"
| "reg_step str (env, Create pid r) R = snd (reg_create_order env str pid r R)"
| "reg_step str (env, Order_state pid oid r) R = snd (reg_get_order_status env str pid oid r R)"
| "reg_step str (env, Order_states pid ids b s) R = snd (reg_get_multiple_order_status env str pid ids b s R)"
| "reg_step str (env, Refill pid r) R = snd (reg_refill env str pid r R)"
| "reg_step str (env, Refill_state pid rid r) R = snd (reg_get_refill_status env str pid rid r R)"
| "reg_step str (env, Refill_states pid ids b s) R = snd (reg_get_multiple_refill_status env str pid ids b s R)"
| "reg_step str (env, Cancel pid oid r) R = snd (reg_cancel env str pid oid r R)"
| "reg_step str (env, Health pid r) R = snd (reg_health_check env str pid r R)"
| "reg_step str (env, Health_all rs) R = snd (health_check_all env str rs R)"
| "reg_step str (env, Reset pid) R = snd (reset_circuit_breaker env pid R)"
| "reg_step str (env, Reload decrypt rows) R = snd (load_providers decrypt rows R)"

fun reg_run :: "(json \<Rightarrow> string) \<Rightarrow> (breaker_env \<times> reg_call) list \<Rightarrow> registry \<Rightarrow> registry" where
  "reg_run str [] R = R"
| "reg_run str (c # cs) R = reg_run str cs (reg_step str c R)"

text \<open>What a call tells the breaker of provider \<open>pid\<close>, if anything.\<close>

datatype breaker_signal = Success | Failure | Reset_done

definition signal_of_answer :: "smm_exn + 'a \<Rightarrow> breaker_signal option" where
  "signal_of_answer answer =
     (case answer of Inr x \<Rightarrow> Some Success
      | Inl e \<Rightarrow> if catches [SMMProviderError] e then Some Failure else None)"

definition signal_of_health :: "health_report \<Rightarrow> breaker_signal option" where
  "signal_of_health r = Some (if hp_status r = HEALTHY then Success else Failure)"

fun call_signal :: "(json \<Rightarrow> string) \<Rightarrow> int \<Rightarrow> bool \<Rightarrow> reg_call \<Rightarrow> breaker_signal option" where
  "call_signal str pid down (Services q r) = (if q = pid then signal_of_answer (smm_get_services str r) else None)"
| "call_signal str pid down (Balance q r) = (if q = pid then signal_of_answer (smm_get_balance str r) else None)"
| "call_signal str pid down (Create q r) =
     (if q = pid \<and> \<not> down then signal_of_answer (smm_create_order str r) else None)"
| "call_signal str pid down (Order_state q oid r) =
     (if q = pid then signal_of_answer (smm_get_order_status str oid r) else None)"
| "call_signal str pid down (Order_states q ids b s) =
     (if q = pid then signal_of_answer (smm_get_multiple_order_status str b s ids) else None)"
| "call_signal str pid down (Refill q r) = (if q = pid then signal_of_answer (smm_refill str r) else None)"
| "call_signal str pid down (Refill_state q rid r) =
     (if q = pid then signal_of_answer (smm_get_refill_status str rid r) else None)"
| "call_signal str pid down (Refill_states q ids b s) =
     (if q = pid then signal_of_answer (smm_get_multiple_refill_status str b s ids) else None)"
| "call_signal str pid down (Cancel q oid r) = (if q = pid then signal_of_answer (smm_cancel str oid r) else None)"
| "call_signal str pid down (Health q r) = (if q = pid then signal_of_health (smm_health_check str r) else None)"
| "call_signal str pid down (Health_all rs) = signal_of_health (smm_health_check str (rs pid))"
| "call_signal str pid down (Reset q) = (if q = pid then Some Reset_done else None)"
| "call_signal str pid down (Reload decrypt rows) = None"

definition is_down :: "int \<Rightarrow> registry \<Rightarrow> bool" where
  "is_down pid R = (case entry pid R of None \<Rightarrow> False | Some e \<Rightarrow> pe_health e = DOWN)"

fun signals :: "(json \<Rightarrow> string) \<Rightarrow> int \<Rightarrow> (breaker_env \<times> reg_call) list \<Rightarrow> registry \<Rightarrow> breaker_signal list" where
  "signals str pid [] R = []"
| "signals str pid (c # cs) R =
     (case call_signal str pid (is_down pid R) (snd c) of None \<Rightarrow> [] | Some s \<Rightarrow> [s]) @
     signals str pid cs (reg_step str c R)"

fun feel :: "int \<Rightarrow> breaker_signal \<Rightarrow> provider_entry \<Rightarrow> provider_entry" where
  "feel now Success e = succeeded e"
| "feel now Failure e = failed now e"
| "feel now Reset_done e = healed e"

text \<open>A reload is in order if the ids are unique and the provider's row is active and can be decrypted.\<close>

fun keeps_loaded :: "int \<Rightarrow> reg_call \<Rightarrow> bool" where
  "keeps_loaded pid (Reload decrypt rows) \<longleftrightarrow> distinct (map pr_id rows) \<and>
     list_ex (\<lambda>p. pr_id p = pid \<and> pr_is_active p \<and> decrypt_credential decrypt p \<noteq> None) rows"
| "keeps_loaded pid call \<longleftrightarrow> True"

definition registry_ok :: "registry \<Rightarrow> bool" where
  "registry_ok R \<longleftrightarrow> distinct (map pe_id (rg_providers R))"

section \<open>One call, one signal\<close>

lemma feel_id [simp]: "pe_id (feel now s e) = pe_id e" "pe_id (failed now e) = pe_id e"
  "pe_id (succeeded e) = pe_id e" "pe_id (healed e) = pe_id e"
  by (cases s) (simp_all add: succeeded_def failed_def healed_def Let_def)

lemma entry_set_entry:
  assumes "\<And>e. pe_id (f e) = pe_id e"
  shows "entry pid (set_entry q f R) = (if q = pid then map_option f (entry pid R) else entry pid R)"
  using assms by (auto simp: entry_def set_entry_def find_by_upd_by)

lemma set_entry_ids:
  assumes "\<And>e. pe_id (f e) = pe_id e"
  shows "map pe_id (rg_providers (set_entry q f R)) = map pe_id (rg_providers R)"
  using assms by (simp add: set_entry_def)

lemma entry_breakers [simp]: "entry pid (R\<lparr>rg_breakers := b\<rparr>) = entry pid R"
  by (simp add: entry_def)

definition felt :: "breaker_env \<Rightarrow> int \<Rightarrow> breaker_signal option \<Rightarrow> registry \<Rightarrow> registry \<Rightarrow> bool" where
  "felt env q sig R S \<longleftrightarrow> map pe_id (rg_providers S) = map pe_id (rg_providers R) \<and>
     (\<forall>pid. entry pid S =
       (if q = pid then map_option (\<lambda>e. case sig of None \<Rightarrow> e | Some s \<Rightarrow> feel (be_now env) s e) (entry pid R)
        else entry pid R))"

lemma felt_none: "felt env q None R R"
  by (simp add: felt_def option.map_ident)

lemma felt_unloaded: "entry q R = None \<Longrightarrow> felt env q sig R R"
  by (auto simp: felt_def)

lemma felt_success: "felt env q (Some Success) R (record_success q R)"
  by (simp add: felt_def record_success_def entry_set_entry set_entry_ids)

lemma felt_failure: "felt env q (Some Failure) R (snd (record_failure env q R))"
  by (cases "entry q R"; cases "be_redis env")
    (auto simp: felt_def record_failure_def entry_set_entry set_entry_ids Let_def)

lemma felt_reset: "felt env q (Some Reset_done) R (snd (reset_circuit_breaker env q R))"
  by (cases "entry q R"; cases "be_redis env")
    (auto simp: felt_def reset_circuit_breaker_def entry_set_entry set_entry_ids Let_def)

lemma catches_provider:
  "catches [SMMProviderError, ProviderUnavailableError] e \<longleftrightarrow> catches [SMMProviderError] e"
proof -
  have "subclass_of c ProviderUnavailableError \<Longrightarrow> subclass_of c SMMProviderError" for c
    by (cases c) (simp_all add: subclass_of.simps)
  then show ?thesis by (auto simp: catches_def split: smm_exn.split)
qed

lemma snd_watched_failure:
  "snd (case record_failure env q R of (Inl x, R) \<Rightarrow> (Inl x, R) | (Inr u, R) \<Rightarrow> (y, R)) = snd (record_failure env q R)"
  by (simp split: prod.split sum.split)

lemma felt_watched: "felt env q (signal_of_answer answer) R (snd (watched env q answer R))"
  by (cases answer)
    (simp_all add: watched_def signal_of_answer_def felt_success felt_failure felt_none catches_provider snd_watched_failure)

lemma felt_wrapped: "felt env q (signal_of_answer answer) R (snd (wrapped env q answer R))"
  by (auto simp: wrapped_def get_provider_def felt_watched felt_unloaded split: option.split)

lemma felt_health: "felt env q (signal_of_health (smm_health_check str r)) R (snd (reg_health_check env str q r R))"
  by (auto simp: reg_health_check_def get_provider_def felt_unloaded felt_success felt_failure
      signal_of_health_def Let_def snd_watched_failure split: option.split)

lemma felt_create:
  "felt env q (if is_down q R then None else signal_of_answer (smm_create_order str r)) R
     (snd (reg_create_order env str q r R))"
  by (auto simp: reg_create_order_def get_provider_def felt_watched felt_unloaded felt_none is_down_def split: option.split)

lemma felt_entry:
  assumes "felt env q sig R S" and "entry pid R = Some e"
  shows "entry pid S = Some (case (if q = pid then sig else None) of None \<Rightarrow> e | Some s \<Rightarrow> feel (be_now env) s e)"
  using assms by (auto simp: felt_def)

lemma felt_ok: "felt env q sig R S \<Longrightarrow> registry_ok R \<Longrightarrow> registry_ok S"
  by (simp add: felt_def registry_ok_def)

lemma check_each_felt:
  "distinct pids \<Longrightarrow>
    map pe_id (rg_providers (snd (check_each env str rs pids R))) = map pe_id (rg_providers R) \<and>
    (entry pid R = Some e \<longrightarrow> entry pid (snd (check_each env str rs pids R)) =
      Some (if pid \<in> set pids then feel (be_now env) (the (signal_of_health (smm_health_check str (rs pid)))) e else e))"
proof (induction pids arbitrary: R e)
  case (Cons q pids)
  let ?S = "snd (reg_health_check env str q (rs q) R)" and ?sig = "signal_of_health (smm_health_check str (rs q))"
  have f: "felt env q ?sig R ?S" by (rule felt_health)
  have "snd (check_each env str rs (q # pids) R) = snd (check_each env str rs pids ?S)"
    by (simp add: Let_def case_prod_beta)
  then show ?case using Cons.IH [of ?S] Cons.prems f felt_entry [OF f, of pid e]
    by (auto simp: felt_def signal_of_health_def)
qed simp

lemma health_all_entry:
  assumes "registry_ok R" and "entry pid R = Some e"
  shows "entry pid (snd (health_check_all env str rs R)) =
    Some (feel (be_now env) (the (signal_of_health (smm_health_check str (rs pid)))) e)"
proof -
  have "pid \<in> set (map pe_id (rg_providers R))"
    using find_by_Some [of pe_id pid] assms(2) by (force simp: entry_def)
  then show ?thesis
    using check_each_felt [where pids = "map pe_id (rg_providers R)" and env = env and str = str and rs = rs
        and R = R and pid = pid and e = e] assms
    by (simp add: health_check_all_def registry_ok_def)
qed

definition vital :: "provider_entry \<Rightarrow> health_status \<times> int" where
  "vital e = (pe_health e, pe_failures e)"

lemma map_filter_find:
  assumes "distinct (map k xs)" and "x \<in> set xs" and "f x = Some y" and "\<And>a b. f a = Some b \<Longrightarrow> l b = k a"
  shows "find_by l (k x) (List.map_filter f xs) = Some y"
  using assms(1,2)
proof (induction xs)
  case (Cons z zs)
  then show ?case using assms(3) assms(4) [of z] assms(4) [of x y] by (cases "f z") (auto simp: map_filter_simps)
qed simp

lemma map_filter_distinct:
  assumes "\<And>a b. f a = Some b \<Longrightarrow> l b = k a"
  shows "distinct (map k xs) \<Longrightarrow> distinct (map l (List.map_filter f xs))"
proof (induction xs)
  case (Cons z zs)
  have "l ` set (List.map_filter f zs) \<subseteq> k ` set zs" using assms by (force simp: map_filter_def)
  then show ?case using Cons assms [of z] by (cases "f z") (auto simp: map_filter_simps)
qed (simp add: map_filter_simps)

lemma load_one_id: "load_one decrypt R p = Some e \<Longrightarrow> pe_id e = pr_id p"
  by (auto simp: load_one_def)

lemma reload_entry:
  assumes "keeps_loaded pid (Reload decrypt rows)" and "entry pid R = Some e"
  shows "\<exists>e'. entry pid (snd (load_providers decrypt rows R)) = Some e' \<and> vital e' = vital e"
proof -
  let ?rows = "sort_key (\<lambda>p. - pr_priority p) (filter pr_is_active rows)"
  obtain p where p: "p \<in> set ?rows" "pr_id p = pid" and d: "decrypt_credential decrypt p \<noteq> None"
    using assms(1) by (auto simp: list_ex_iff)
  obtain e' where e': "load_one decrypt R p = Some e'" "vital e' = vital e"
    using d p(2) assms(2) by (auto simp: load_one_def vital_def)
  have "distinct (map pr_id (filter pr_is_active rows))" using assms(1) by (simp add: distinct_map_filter)
  then have "distinct (map pr_id ?rows)" by (simp add: distinct_map)
  have "find_by pe_id (pr_id p) (List.map_filter (load_one decrypt R) ?rows) = Some e'"
    by (rule map_filter_find [of pr_id]) (use \<open>distinct (map pr_id ?rows)\<close> p(1) e'(1) load_one_id in auto)
  then show ?thesis using p(2) e'(2) by (auto simp: load_providers_def entry_def Let_def)
qed

lemma reload_ok:
  assumes "distinct (map pr_id rows)" shows "registry_ok (snd (load_providers decrypt rows R))"
proof -
  let ?rows = "sort_key (\<lambda>p. - pr_priority p) (filter pr_is_active rows)"
  have "distinct (map pr_id (filter pr_is_active rows))" using assms by (simp add: distinct_map_filter)
  then have "distinct (map pr_id ?rows)" by (simp add: distinct_map)
  then have "distinct (map pe_id (List.map_filter (load_one decrypt R) ?rows))"
    by (rule map_filter_distinct [rotated]) (rule load_one_id)
  then show ?thesis by (simp add: registry_ok_def load_providers_def Let_def)
qed

fun aimed_at :: "reg_call \<Rightarrow> int option" where
  "aimed_at (Health_all rs) = None"
| "aimed_at (Reload decrypt rows) = None"
| "aimed_at (Services q r) = Some q"
| "aimed_at (Balance q r) = Some q"
| "aimed_at (Create q r) = Some q"
| "aimed_at (Order_state q oid r) = Some q"
| "aimed_at (Order_states q ids b s) = Some q"
| "aimed_at (Refill q r) = Some q"
| "aimed_at (Refill_state q rid r) = Some q"
| "aimed_at (Refill_states q ids b s) = Some q"
| "aimed_at (Cancel q oid r) = Some q"
| "aimed_at (Health q r) = Some q"
| "aimed_at (Reset q) = Some q"

lemma aimed_elsewhere: "aimed_at call = Some q \<Longrightarrow> pid \<noteq> q \<Longrightarrow> call_signal str pid down call = None"
  by (cases call) auto

lemma aimed_felt:
  assumes "aimed_at call = Some q"
  shows "felt env q (call_signal str q (is_down q R) call) R (reg_step str (env, call) R)"
proof (cases call)
  case (Create p r)
  then show ?thesis using assms felt_create [of env q R str r] by (simp split: if_splits)
qed (use assms in \<open>simp_all add: reg_get_services_def reg_get_balance_def reg_get_order_status_def
    reg_get_multiple_order_status_def reg_refill_def reg_get_refill_status_def reg_get_multiple_refill_status_def
    reg_cancel_def felt_wrapped felt_health felt_reset\<close>)

lemma step_felt:
  assumes "registry_ok R" and "entry pid R = Some e" and "keeps_loaded pid (snd c)"
  shows "registry_ok (reg_step str c R) \<and> (\<exists>e' now. entry pid (reg_step str c R) = Some e' \<and>
    vital e' = vital (case call_signal str pid (is_down pid R) (snd c) of None \<Rightarrow> e | Some s \<Rightarrow> feel now s e))"
proof (cases c)
  case (Pair env call)
  show ?thesis
  proof (cases "aimed_at call")
    case (Some q)
    have f: "felt env q (call_signal str q (is_down q R) call) R (reg_step str c R)"
      unfolding Pair using Some by (rule aimed_felt)
    show ?thesis
      using felt_ok [OF f assms(1)] felt_entry [OF f assms(2)] aimed_elsewhere [OF Some, of pid str "is_down pid R"]
      by (auto simp: Pair split: if_splits)
  next
    case None
    then consider rs where "call = Health_all rs" | decrypt rows where "call = Reload decrypt rows"
      by (cases call) auto
    then show ?thesis
    proof cases
      case 1
      then show ?thesis using Pair health_all_entry [OF assms(1,2)] assms(1)
          check_each_felt [where pids = "map pe_id (rg_providers R)" and env = env and str = str and rs = rs and R = R]
        by (auto simp: health_check_all_def registry_ok_def signal_of_health_def)
    next
      case 2
      then show ?thesis using Pair reload_entry [OF _ assms(2), of decrypt rows] reload_ok [of rows] assms(3) by auto
    qed
  qed
qed


section \<open>The breaker as a function of its history\<close>

definition streak :: "breaker_signal list \<Rightarrow> nat" where
  "streak sigs = length (takeWhile (\<lambda>s. s = Failure) (rev sigs))"

definition since_reset :: "breaker_signal list \<Rightarrow> breaker_signal list" where
  "since_reset sigs = rev (takeWhile (\<lambda>s. s \<noteq> Reset_done) (rev sigs))"

definition tripped :: "breaker_signal list \<Rightarrow> bool" where
  "tripped sigs \<longleftrightarrow> sublist (replicate 10 Failure) (since_reset sigs)"

definition health_after :: "breaker_signal list \<Rightarrow> health_status" where
  "health_after sigs = (if tripped sigs then DOWN else if 5 \<le> streak sigs then DEGRADED else HEALTHY)"

lemma streak_snoc [simp]:
  "streak [] = 0" "streak (sigs @ [Failure]) = Suc (streak sigs)"
  "streak (sigs @ [Success]) = 0" "streak (sigs @ [Reset_done]) = 0"
  by (simp_all add: streak_def)

lemma since_reset_snoc [simp]:
  "since_reset [] = []" "since_reset (sigs @ [Reset_done]) = []"
  "s \<noteq> Reset_done \<Longrightarrow> since_reset (sigs @ [s]) = since_reset sigs @ [s]"
  by (simp_all add: since_reset_def)

lemma streak_since_reset: "streak (since_reset sigs) = streak sigs"
proof -
  have "takeWhile (\<lambda>s. s = Failure) (takeWhile (\<lambda>s. s \<noteq> Reset_done) xs) = takeWhile (\<lambda>s. s = Failure) xs" for xs
    by (induction xs) auto
  then show ?thesis by (simp add: streak_def since_reset_def)
qed

lemma prefix_replicate: "prefix (replicate n x) ys \<longleftrightarrow> n \<le> length (takeWhile (\<lambda>y. y = x) ys)"
proof (induction n arbitrary: ys)
  case (Suc n)
  then show ?case by (cases ys) auto
qed simp

lemma suffix_failures: "suffix (replicate n Failure) sigs \<longleftrightarrow> n \<le> streak sigs"
  using prefix_replicate [of n Failure "rev sigs"] by (simp add: streak_def suffix_to_prefix)

lemma tripped_failure: "tripped (sigs @ [Failure]) \<longleftrightarrow> tripped sigs \<or> 9 \<le> streak sigs"
proof -
  have "suffix (replicate 10 Failure) (since_reset sigs @ [Failure]) \<longleftrightarrow> 9 \<le> streak sigs"
    unfolding suffix_failures by (simp add: streak_since_reset)
  then show ?thesis unfolding tripped_def by (auto simp: sublist_snoc)
qed

lemma tripped_success: "tripped (sigs @ [Success]) \<longleftrightarrow> tripped sigs"
proof -
  have "\<not> suffix (replicate 10 Failure) (since_reset sigs @ [Success])" unfolding suffix_failures by simp
  then show ?thesis unfolding tripped_def by (auto simp: sublist_snoc)
qed

lemma tripped_reset: "\<not> tripped (sigs @ [Reset_done])" "\<not> tripped []"
  by (simp_all add: tripped_def)

lemma tripped_streak: "10 \<le> streak sigs \<Longrightarrow> tripped sigs"
  unfolding tripped_def using suffix_failures [of 10 "since_reset sigs"]
  by (simp add: streak_since_reset suffix_imp_sublist)

lemma feel_history:
  assumes "vital e = (health_after sigs, int (streak sigs))"
  shows "vital (feel now s e) = (health_after (sigs @ [s]), int (streak (sigs @ [s])))"
  using assms tripped_streak [of sigs]
  by (cases s) (auto simp: vital_def succeeded_def failed_def healed_def health_after_def Let_def tripped_failure
      tripped_success tripped_reset CB_DOWN_THRESHOLD_def CB_DEGRADED_THRESHOLD_def split: if_splits)

lemma feel_vital: "vital e = vital e' \<Longrightarrow> vital (feel now s e) = vital (feel now' s e')"
  by (cases s) (auto simp: vital_def succeeded_def failed_def healed_def Let_def)

lemma run_history:
  "registry_ok R \<Longrightarrow> entry pid R = Some e \<Longrightarrow> vital e = (health_after past, int (streak past)) \<Longrightarrow>
   \<forall>c \<in> set cs. keeps_loaded pid (snd c) \<Longrightarrow>
   \<exists>e'. entry pid (reg_run str cs R) = Some e' \<and>
     vital e' = (health_after (past @ signals str pid cs R), int (streak (past @ signals str pid cs R)))"
proof (induction cs arbitrary: R e past)
  case (Cons c cs)
  let ?sig = "call_signal str pid (is_down pid R) (snd c)"
  obtain e' now where ok: "registry_ok (reg_step str c R)" and e': "entry pid (reg_step str c R) = Some e'"
    "vital e' = vital (case ?sig of None \<Rightarrow> e | Some s \<Rightarrow> feel now s e)"
    using step_felt [OF Cons.prems(1,2)] Cons.prems(4) by (metis list.set_intros(1))
  show ?case
  proof (cases ?sig)
    case None
    then show ?thesis using Cons.IH [OF ok e'(1)] e'(2) Cons.prems(3,4) by simp
  next
    case (Some s)
    then have "vital e' = (health_after (past @ [s]), int (streak (past @ [s])))"
      using e'(2) feel_history [OF Cons.prems(3)] by simp
    from Cons.IH [OF ok e'(1) this] Some Cons.prems(4) show ?thesis by simp
  qed
qed simp

text \<open>
  C16: The circuit breaker is a function of its history. Whatever is asked of the registry, and
  whether or not Redis answers, a provider that was loaded healthy is down exactly if ten failures in
  a row were seen since the last reset by an administrator, otherwise degraded exactly if the last five
  or more calls failed, and its counter is the length of that run. A success never closes a breaker
  that is open, nor does time.
\<close>

theorem breaker_matches_history:
  assumes "registry_ok R" and "entry pid R = Some e" and "pe_health e = HEALTHY" and "pe_failures e = 0"
    and "\<forall>c \<in> set cs. keeps_loaded pid (snd c)"
  shows "\<exists>e'. entry pid (reg_run str cs R) = Some e' \<and>
    pe_health e' = health_after (signals str pid cs R) \<and> pe_failures e' = int (streak (signals str pid cs R))"
  using run_history [OF assms(1,2), of "[]" cs str] assms(3-5)
  by (auto simp: vital_def health_after_def tripped_reset)

definition sample_registry :: registry where
  "sample_registry = snd (load_providers Some
     [\<lparr>pr_id = 1, pr_name = ''P'', pr_slug = ''p'', pr_endpoint = ''https://p'', pr_currency = ''USD'',
       pr_priority = 0, pr_is_active = True, pr_credentials = Some ''k''\<rparr>] new_registry)"

definition sample_entry :: provider_entry where
  "sample_entry = \<lparr>pe_id = 1, pe_name = ''P'', pe_slug = ''p'', pe_endpoint = ''https://p'', pe_currency = ''USD'',
     pe_priority = 0, pe_key = ''k'', pe_health = HEALTHY, pe_failures = 0, pe_last_failure = 0\<rparr>"

definition sample_breaker_env :: breaker_env where
  "sample_breaker_env = \<lparr>be_now = 1000, be_redis = None\<rparr>"

lemma sample_registry_entry: "registry_ok sample_registry" "entry 1 sample_registry = Some sample_entry"
  by (simp_all add: sample_registry_def sample_entry_def load_providers_def load_one_def decrypt_credential_def
      registry_ok_def entry_def new_registry_def map_filter_simps)

lemma breaker_matches_history_witness:
  "\<exists>e'. entry 1 (reg_run (\<lambda>_. []) (replicate 6 (sample_breaker_env, Services 1 Timed_out)) sample_registry) = Some e' \<and>
     pe_health e' = DEGRADED \<and> pe_failures e' = 6"
proof -
  let ?c = "(sample_breaker_env, Services 1 Timed_out)"
  have sig: "call_signal (\<lambda>_. []) 1 d (Services 1 Timed_out) = Some Failure" for d
    by (simp add: smm_get_services_def post_def signal_of_answer_def catches_def raise_smm_def subclass_of.simps)
  have "signals (\<lambda>_. []) 1 (replicate n ?c) R = replicate n Failure" for n R
    by (induction n arbitrary: R) (simp_all add: sig del: call_signal.simps)
  moreover have "streak (replicate 6 Failure) = 6" "\<not> tripped (replicate 6 Failure)"
    by (simp_all add: streak_def tripped_def since_reset_def) code_simp
  ultimately show ?thesis
    using breaker_matches_history [OF sample_registry_entry, of "replicate 6 ?c" "\<lambda>_. []"]
    by (simp add: sample_entry_def health_after_def)
qed

text \<open>
  C17: A provider that is down gets no order until an administrator resets it. Whatever else is asked in
  between, successful calls included, and whatever the clock says, it stays down, and an order for it
  is refused without a request.
\<close>

theorem down_provider_gets_no_orders:
  assumes "registry_ok R" and "is_down pid R"
    and "\<forall>c \<in> set cs. keeps_loaded pid (snd c) \<and> snd c \<noteq> Reset pid"
  shows "is_down pid (reg_run str cs R) \<and>
    reg_create_order env str pid reply (reg_run str cs R) =
      (Inl (raise_smm ProviderUnavailableError), reg_run str cs R)"
proof -
  have "is_down pid (reg_run str cs R)"
    using assms
  proof (induction cs arbitrary: R)
    case (Cons c cs)
    obtain e where e: "entry pid R = Some e" "pe_health e = DOWN" using Cons.prems(2)
      by (auto simp: is_down_def split: option.split_asm)
    obtain e' now where ok: "registry_ok (reg_step str c R)" and e': "entry pid (reg_step str c R) = Some e'"
      "vital e' = vital (case call_signal str pid (is_down pid R) (snd c) of None \<Rightarrow> e | Some s \<Rightarrow> feel now s e)"
      using step_felt [OF Cons.prems(1) e(1)] Cons.prems(3) by (metis list.set_intros(1))
    have "call_signal str pid (is_down pid R) (snd c) \<noteq> Some Reset_done"
      using Cons.prems(3) by (cases "snd c") (auto simp: signal_of_answer_def signal_of_health_def split: sum.split_asm if_split_asm)
    then have "pe_health e' = DOWN" using e'(2) e(2)
      by (cases "the (call_signal str pid (is_down pid R) (snd c))"; cases "call_signal str pid (is_down pid R) (snd c)")
        (auto simp: vital_def succeeded_def failed_def Let_def)
    then have "is_down pid (reg_step str c R)" using e'(1) by (simp add: is_down_def)
    with ok show ?case using Cons.IH Cons.prems(3) by simp
  qed simp
  then show ?thesis by (auto simp: reg_create_order_def get_provider_def is_down_def split: option.split_asm)
qed

definition broken_registry :: registry where
  "broken_registry = sample_registry\<lparr>rg_providers := [sample_entry\<lparr>pe_health := DOWN, pe_failures := 10\<rparr>]\<rparr>"

lemma down_provider_gets_no_orders_witness:
  "reg_create_order sample_breaker_env (\<lambda>_. []) 1 Timed_out
     (reg_run (\<lambda>_. []) [(sample_breaker_env\<lparr>be_now := 10 ^ 9\<rparr>, Services 1 (Reply 200 (Some (Jarray []))))] broken_registry) =
   (Inl (raise_smm ProviderUnavailableError),
    reg_run (\<lambda>_. []) [(sample_breaker_env\<lparr>be_now := 10 ^ 9\<rparr>, Services 1 (Reply 200 (Some (Jarray []))))] broken_registry)"
  by (rule down_provider_gets_no_orders [THEN conjunct2])
    (simp_all add: registry_ok_def is_down_def entry_def broken_registry_def sample_entry_def)

text \<open>
  Ten customers can shut a provider out. An order that the panel rejects, for its link for example,
  counts as a failure of the provider, so ten rejected orders in a row open the breaker for everybody.
\<close>

theorem rejected_orders_open_breaker:
  assumes "registry_ok R" and "entry pid R = Some e" and "pe_health e = HEALTHY" and "pe_failures e = 0"
    and "length bodies = 10" and "\<forall>kvs \<in> set bodies. obj_get ''error'' kvs \<noteq> None"
  shows "is_down pid (reg_run str (map (\<lambda>kvs. (env, Create pid (Reply 200 (Some (Jobj kvs))))) bodies) R)"
proof -
  have fail: "signal_of_answer (smm_create_order str (Reply 200 (Some (Jobj kvs)))) = Some Failure"
    if "obj_get ''error'' kvs \<noteq> None" for kvs
    using that by (auto simp: smm_create_order_def post_def signal_of_answer_def catches_def raise_smm_def subclass_of.simps)
  have "is_down pid (reg_run str (map (\<lambda>kvs. (env, Create pid (Reply 200 (Some (Jobj kvs))))) bs) S)"
    if "registry_ok S" "entry pid S = Some x" "\<forall>kvs \<in> set bs. obj_get ''error'' kvs \<noteq> None"
      "pe_health x = DOWN \<or> pe_failures x < 10 \<and> 10 \<le> pe_failures x + int (length bs)" for S x bs
    using that
  proof (induction bs arbitrary: S x)
    case Nil
    then show ?case by (auto simp: is_down_def)
  next
    case (Cons kvs bs)
    let ?c = "(env, Create pid (Reply 200 (Some (Jobj kvs))))"
    obtain x' now where ok: "registry_ok (reg_step str ?c S)" and x': "entry pid (reg_step str ?c S) = Some x'"
      "vital x' = vital (case call_signal str pid (is_down pid S) (snd ?c) of None \<Rightarrow> x | Some s \<Rightarrow> feel now s x)"
      using step_felt [OF Cons.prems(1,2), of ?c str] by auto
    have "pe_health x' = DOWN \<or> pe_failures x' < 10 \<and> 10 \<le> pe_failures x' + int (length bs)"
      using x'(2) Cons.prems(2-4) fail [of kvs]
      by (auto simp: vital_def failed_def Let_def is_down_def CB_DOWN_THRESHOLD_def split: if_splits)
    from Cons.IH [OF ok x'(1) _ this] Cons.prems(3) show ?case by (simp del: reg_step.simps)
  qed
  from this [OF assms(1,2,6)] assms(4,5) show ?thesis by simp
qed

lemma rejected_orders_open_breaker_witness:
  "is_down 1 (reg_run (\<lambda>_. []) (map (\<lambda>kvs. (sample_breaker_env, Create 1 (Reply 200 (Some (Jobj kvs)))))
     (replicate 10 [(''error'', Jtext ''Incorrect link'')])) sample_registry)"
  by (rule rejected_orders_open_breaker [OF sample_registry_entry])
    (simp_all add: sample_entry_def obj_get_def)

end
