(* ===== verification/Tenants.thy ===== *)
theory Tenants
  imports AdminAuth SMMProMax
begin

text \<open>
  \<open>app/tenants/service.py\<close>: hosted bots. An operation gives its result and the rows of the session, also
  when it raises; its caller commits or drops them. Encryption, the random webhook secret, Telegram's
  \<open>getMe\<close> and what the database driver makes of a text that is to be an id are arguments. Amounts are
  exact; the sum of the orders is rounded to the cent, half to even.
\<close>

section \<open>Rows\<close>

record tenant_row =
  tn_id :: int
  tn_owner :: int
  tn_slug :: string
  tn_display_name :: string
  tn_token_enc :: "string option"
  tn_bot_username :: json
  tn_secret :: string
  tn_plan :: string
  tn_is_active :: bool
  tn_is_deleted :: bool
  tn_config :: json_obj
  tn_created_at :: int
  tn_updated_at :: int

record tenant_user_row =
  tu_id :: int
  tu_tenant :: int
  tu_telegram :: int
  tu_first_name :: string
  tu_username :: "string option"
  tu_is_active :: bool
  tu_is_banned :: bool
  tu_balance :: rat
  tu_last_activity :: "int option"
  tu_created_at :: int

text \<open>The columns of an order that the statistics read.\<close>

record tenant_order =
  to_tenant :: "int option"
  to_status :: string
  to_price :: rat

record tenant_db =
  td_tenants :: "tenant_row list"
  td_users :: "tenant_user_row list"
  td_orders :: "tenant_order list"
  td_next :: int

type_synonym 'a tenant_result = "(smm_exn + 'a) \<times> tenant_db"

record tenant_env =
  te_now :: int
  te_secret :: string
  te_encrypt :: "string \<Rightarrow> smm_exn + string"
  te_decrypt :: "string \<Rightarrow> smm_exn + string"
  te_get_me :: "string \<Rightarrow> http_reply"
  te_repr :: "string list \<Rightarrow> string"

definition MAX_TENANTS_PER_OWNER :: nat where "MAX_TENANTS_PER_OWNER = 5"

definition tn_bind :: "'a tenant_result \<Rightarrow> ('a \<Rightarrow> tenant_db \<Rightarrow> 'b tenant_result) \<Rightarrow> 'b tenant_result" where
  "tn_bind m f = (case m of (Inl e, s) \<Rightarrow> (Inl e, s) | (Inr x, s) \<Rightarrow> f x s)"

lemma tn_bind_simps [simp]: "tn_bind (Inl e, s) f = (Inl e, s)" "tn_bind (Inr x, s) f = f x s"
  by (simp_all add: tn_bind_def)

definition update_tenant_row :: "int \<Rightarrow> (tenant_row \<Rightarrow> tenant_row) \<Rightarrow> tenant_db \<Rightarrow> tenant_db" where
  "update_tenant_row tid f s = s\<lparr>td_tenants := upd_by tn_id tid f (td_tenants s)\<rparr>"

section \<open>Formats\<close>

definition token_char :: "char \<Rightarrow> bool" where
  "token_char c \<longleftrightarrow> is_digit c \<or> c = CHR ''_'' \<or> c = CHR ''-'' \<or>
     (let n = of_char c :: nat in 65 \<le> n \<and> n \<le> 90 \<or> 97 \<le> n \<and> n \<le> 122)"

text \<open>The first colon ends the digits.\<close>

definition valid_bot_token :: "string \<Rightarrow> bool" where
  "valid_bot_token = to_dollar (\<lambda>t.
     let ds = takeWhile is_digit t; rest = dropWhile is_digit t
     in 8 \<le> length ds \<and> length ds \<le> 12 \<and> starts_with '':'' rest \<and>
        length (drop 1 rest) = 35 \<and> list_all token_char (drop 1 rest))"

definition slug_letter :: "char \<Rightarrow> bool" where
  "slug_letter c \<longleftrightarrow> is_digit c \<or> (let n = of_char c :: nat in 97 \<le> n \<and> n \<le> 122)"

definition valid_slug :: "string \<Rightarrow> bool" where
  "valid_slug = to_dollar (\<lambda>s. 3 \<le> length s \<and> length s \<le> 32 \<and> slug_letter (hd s) \<and> slug_letter (last s) \<and>
     list_all (\<lambda>c. slug_letter c \<or> c = CHR ''-'') s)"

section \<open>Tenants\<close>

text \<open>Not active until the bot is verified.\<close>

definition new_tenant ::
  "tenant_env \<Rightarrow> int \<Rightarrow> string \<Rightarrow> string \<Rightarrow> string \<Rightarrow> string \<Rightarrow> int \<Rightarrow> tenant_row" where
  "new_tenant env owner enc display_name slug plan tid =
     \<lparr>tn_id = tid, tn_owner = owner, tn_slug = slug, tn_display_name = strip display_name,
      tn_token_enc = Some enc, tn_bot_username = Jnull, tn_secret = te_secret env,
      tn_plan = plan, tn_is_active = False, tn_is_deleted = False, tn_config = [],
      tn_created_at = te_now env, tn_updated_at = te_now env\<rparr>"

definition create_tenant ::
  "tenant_env \<Rightarrow> int \<Rightarrow> string \<Rightarrow> string \<Rightarrow> string \<Rightarrow> string \<Rightarrow> tenant_db \<Rightarrow> tenant_row tenant_result" where
  "create_tenant env owner token display_name slug plan s =
     (if \<not> valid_bot_token token
      then (Inl (raise_with ValidationError ''Bot token format is invalid. Expected: <id>:<token>''), s)
      else if \<not> valid_slug slug
      then (Inl (raise_with ValidationError ''Slug must be 3-32 lowercase alphanumeric characters or hyphens.''), s)
      else if list_ex (\<lambda>t. tn_slug t = slug) (td_tenants s)
      then (Inl (raise_with ValidationError (''The slug '' @ slug @ '' is already taken.'')), s)
      else if MAX_TENANTS_PER_OWNER \<le> length (filter (\<lambda>t. tn_owner t = owner \<and> \<not> tn_is_deleted t) (td_tenants s))
      then (Inl (raise_with ValidationError ''Maximum of 5 bots per account.''), s)
      else case te_encrypt env token of
          Inl e \<Rightarrow> (Inl e, s)
        | Inr enc \<Rightarrow>
            let t = new_tenant env owner enc display_name slug plan (td_next s)
            in (Inr t, s\<lparr>td_tenants := td_tenants s @ [t], td_next := td_next s + 1\<rparr>))"

text \<open>\<open>TenantNotFoundError\<close> is called with a message, which its constructor passes on already.\<close>

definition get_tenant :: "int \<Rightarrow> tenant_db \<Rightarrow> smm_exn + tenant_row" where
  "get_tenant tid s =
     (case find_by tn_id tid (td_tenants s) of
        None \<Rightarrow> Inl (raise_with TenantNotFoundError ''Tenant not found.'')
      | Some t \<Rightarrow> if tn_is_deleted t then Inl (raise_with TenantNotFoundError ''Tenant not found.'') else Inr t)"

definition get_tenant_by_slug :: "string \<Rightarrow> tenant_db \<Rightarrow> smm_exn + tenant_row" where
  "get_tenant_by_slug slug s =
     (case find (\<lambda>t. tn_slug t = slug \<and> \<not> tn_is_deleted t) (td_tenants s) of
        None \<Rightarrow> Inl (raise_with TenantNotFoundError (''Bot '' @ slug @ '' not found.'')) | Some t \<Rightarrow> Inr t)"

text \<open>A negative offset or limit is an error of the database.\<close>

definition list_tenants ::
  "int option \<Rightarrow> bool option \<Rightarrow> int \<Rightarrow> int \<Rightarrow> tenant_db \<Rightarrow> smm_exn + tenant_row list \<times> nat" where
  "list_tenants owner active page page_size s =
     (let rows = filter (\<lambda>t. \<not> tn_is_deleted t \<and> (owner = None \<or> owner = Some (tn_owner t)) \<and>
                          (active = None \<or> active = Some (tn_is_active t))) (td_tenants s);
          offset = (page - 1) * page_size
      in if offset < 0 \<or> page_size < 0 then Inl (Py ''DBAPIError'')
         else Inr (take (nat page_size) (drop (nat offset) (sort_key (\<lambda>t. - tn_created_at t) rows)), length rows))"

datatype tenant_change =
  Set_display_name string | Set_plan string | Set_config json_obj | Set_is_active bool | Set_other string

fun field_name :: "tenant_change \<Rightarrow> string" where
  "field_name (Set_display_name x) = ''display_name''"
| "field_name (Set_plan x) = ''plan''"
| "field_name (Set_config x) = ''config''"
| "field_name (Set_is_active x) = ''is_active''"
| "field_name (Set_other f) = f"

definition UPDATABLE :: "string list" where
  "UPDATABLE = [''display_name'', ''plan'', ''config'', ''is_active'']"

fun set_field :: "tenant_change \<Rightarrow> tenant_row \<Rightarrow> tenant_row" where
  "set_field (Set_display_name x) t = t\<lparr>tn_display_name := x\<rparr>"
| "set_field (Set_plan x) t = t\<lparr>tn_plan := x\<rparr>"
| "set_field (Set_config x) t = t\<lparr>tn_config := x\<rparr>"
| "set_field (Set_is_active x) t = t\<lparr>tn_is_active := x\<rparr>"
| "set_field (Set_other f) t = t"

definition fresh_row :: "int \<Rightarrow> tenant_db \<Rightarrow> smm_exn + tenant_row" where
  "fresh_row tid s = (case find_by tn_id tid (td_tenants s) of None \<Rightarrow> Inl (Py ''KeyError'') | Some t \<Rightarrow> Inr t)"

definition update_tenant :: "tenant_env \<Rightarrow> int \<Rightarrow> tenant_change list \<Rightarrow> tenant_db \<Rightarrow> tenant_row tenant_result" where
  "update_tenant env tid updates s =
     (let invalid = filter (\<lambda>f. f \<notin> set UPDATABLE) (map field_name updates)
      in if invalid \<noteq> []
         then (Inl (raise_with ValidationError (''Fields '' @ te_repr env invalid @ '' cannot be modified.'')), s)
         else case get_tenant tid s of
             Inl e \<Rightarrow> (Inl e, s)
           | Inr t \<Rightarrow>
               let s = update_tenant_row tid (\<lambda>t. (fold set_field updates t)\<lparr>tn_updated_at := te_now env\<rparr>) s
               in (fresh_row tid s, s))"

definition rotate_tenant_bot_token :: "tenant_env \<Rightarrow> int \<Rightarrow> string \<Rightarrow> tenant_db \<Rightarrow> unit tenant_result" where
  "rotate_tenant_bot_token env tid token s =
     (if \<not> valid_bot_token token then (Inl (raise_with ValidationError ''Bot token format is invalid.''), s)
      else case get_tenant tid s of
          Inl e \<Rightarrow> (Inl e, s)
        | Inr t \<Rightarrow> (case te_encrypt env token of
              Inl e \<Rightarrow> (Inl e, s)
            | Inr enc \<Rightarrow> (Inr (), update_tenant_row tid
                (\<lambda>t. t\<lparr>tn_token_enc := Some enc, tn_updated_at := te_now env\<rparr>) s)))"

text \<open>\<open>getMe\<close>: every failure is the answer \<open>None\<close>.\<close>

definition verify_bot_token :: "tenant_env \<Rightarrow> string \<Rightarrow> json option" where
  "verify_bot_token env token =
     (case te_get_me env token of
        Reply code (Some (Jobj kvs)) \<Rightarrow>
          if code = 200 \<and> truthy (dict_get ''ok'' kvs) then Some (get_or ''result'' (Jobj []) kvs) else None
      | _ \<Rightarrow> None)"

definition activate_tenant :: "tenant_env \<Rightarrow> int \<Rightarrow> tenant_db \<Rightarrow> tenant_row tenant_result" where
  "activate_tenant env tid s =
     (case get_tenant tid s of
        Inl e \<Rightarrow> (Inl e, s)
      | Inr t \<Rightarrow>
          if tn_is_active t then (Inr t, s)
          else case te_decrypt env (case tn_token_enc t of None \<Rightarrow> [] | Some c \<Rightarrow> c) of
              Inl e \<Rightarrow> (Inl e, s)
            | Inr token \<Rightarrow>
                case verify_bot_token env token of
                  None \<Rightarrow> (Inl (raise_with TenantError ''Bot token is invalid or the bot does not exist.''), s)
                | Some info \<Rightarrow>
                    if \<not> truthy info
                    then (Inl (raise_with TenantError ''Bot token is invalid or the bot does not exist.''), s)
                    else let s = update_tenant_row tid (\<lambda>t. t\<lparr>tn_is_active := True\<rparr>) s
                         in case as_obj info of
                             Inl e \<Rightarrow> (Inl e, s)
                           | Inr kvs \<Rightarrow>
                               let s = update_tenant_row tid (\<lambda>t. t\<lparr>tn_bot_username := get_or ''username'' (Jtext []) kvs,
                                         tn_updated_at := te_now env\<rparr>) s
                               in (fresh_row tid s, s))"

definition suspend_tenant :: "tenant_env \<Rightarrow> int \<Rightarrow> tenant_db \<Rightarrow> unit tenant_result" where
  "suspend_tenant env tid s =
     (case get_tenant tid s of
        Inl e \<Rightarrow> (Inl e, s)
      | Inr t \<Rightarrow> (Inr (), update_tenant_row tid (\<lambda>t. t\<lparr>tn_is_active := False, tn_updated_at := te_now env\<rparr>) s))"

definition delete_tenant :: "tenant_env \<Rightarrow> int \<Rightarrow> tenant_db \<Rightarrow> unit tenant_result" where
  "delete_tenant env tid s =
     (case get_tenant tid s of
        Inl e \<Rightarrow> (Inl e, s)
      | Inr t \<Rightarrow>
          let s = update_tenant_row tid (\<lambda>t. t\<lparr>tn_token_enc := Some [], tn_is_active := False,
                    tn_is_deleted := True, tn_updated_at := te_now env\<rparr>) s
          in (Inr (), s\<lparr>td_users := map (\<lambda>u. if tu_tenant u = tid then u\<lparr>tu_is_active := False\<rparr> else u) (td_users s)\<rparr>))"

definition get_decrypted_bot_token :: "tenant_env \<Rightarrow> tenant_row \<Rightarrow> smm_exn + string" where
  "get_decrypted_bot_token env t =
     (case tn_token_enc t of
        None \<Rightarrow> Inl (raise_with TenantError ''Bot token not configured.'')
      | Some c \<Rightarrow> if c = [] then Inl (raise_with TenantError ''Bot token not configured.'') else te_decrypt env c)"

section \<open>Users of a tenant\<close>

definition is_tenant_user :: "int \<Rightarrow> int \<Rightarrow> tenant_user_row \<Rightarrow> bool" where
  "is_tenant_user tid telegram u \<longleftrightarrow> tu_tenant u = tid \<and> tu_telegram u = telegram"

definition get_or_create_tenant_user ::
  "tenant_env \<Rightarrow> int \<Rightarrow> int \<Rightarrow> string \<Rightarrow> string option \<Rightarrow> tenant_db \<Rightarrow> tenant_user_row tenant_result" where
  "get_or_create_tenant_user env tid telegram first_name username s =
     (case filter (is_tenant_user tid telegram) (td_users s) of
        [] \<Rightarrow>
          let u = \<lparr>tu_id = td_next s, tu_tenant = tid, tu_telegram = telegram, tu_first_name = first_name,
                   tu_username = username, tu_is_active = True, tu_is_banned = False, tu_balance = 0,
                   tu_last_activity = None, tu_created_at = te_now env\<rparr>
          in (Inr u, s\<lparr>td_users := td_users s @ [u], td_next := td_next s + 1\<rparr>)
      | [u] \<Rightarrow>
          let v = u\<lparr>tu_first_name := first_name, tu_username := username\<rparr>
          in (Inr v, s\<lparr>td_users := map (\<lambda>w. if is_tenant_user tid telegram w then v else w) (td_users s)\<rparr>)
      | _ \<Rightarrow> (Inl (Py ''MultipleResultsFound''), s))"

record tenant_stats =
  ts_users :: nat
  ts_orders :: nat
  ts_revenue :: rat
  ts_active_30d :: nat

definition cents :: "rat \<Rightarrow> rat" where
  "cents x = of_int (round_half_even (x * 100)) / 100"

definition get_tenant_stats :: "int \<Rightarrow> int \<Rightarrow> tenant_db \<Rightarrow> tenant_stats" where
  "get_tenant_stats now tid s =
     \<lparr>ts_users = length (filter (\<lambda>u. tu_tenant u = tid \<and> tu_is_active u) (td_users s)),
      ts_orders = length (filter (\<lambda>x. to_tenant x = Some tid) (td_orders s)),
      ts_revenue = cents (sum_list (map to_price (filter
         (\<lambda>x. to_tenant x = Some tid \<and> to_status x \<in> set [''completed'', ''partial'']) (td_orders s)))),
      ts_active_30d = length (filter (\<lambda>u. tu_tenant u = tid \<and>
         (case tu_last_activity u of None \<Rightarrow> False | Some t \<Rightarrow> now - 30 * 86400 * 1000000 \<le> t)) (td_users s))\<rparr>"

end
