(* ===== verification/TenantBots.thy ===== *)
theory TenantBots
  imports Tenants
begin

text \<open>
  \<open>app/tenants/bot_manager.py\<close> and \<open>app/tenants/routes.py\<close>: the running bots of tenants, the
  administrators' routes and the webhook. The manager's two dictionaries are always written together and
  hold the same objects, so the second is kept as a map from slugs to ids. A request commits its session
  itself; whatever is raised before drops it. Registering and deleting a webhook and feeding an update
  to a dispatcher are arguments, which may raise. The lemmas show which bots can run, that a deleted
  tenant never comes back, and who can make a bot process an update.
\<close>

section \<open>Running bots\<close>

record bot_instance =
  bi_tenant :: int
  bi_slug :: string
  bi_token :: string
  bi_secret :: string
  bi_started_at :: int
  bi_last_update :: "int option"
  bi_updates :: nat
  bi_healthy :: bool

record bot_manager =
  bm_instances :: "bot_instance list"
  bm_by_slug :: "string \<Rightarrow> int option"

definition new_manager :: bot_manager where
  "new_manager = \<lparr>bm_instances = [], bm_by_slug = (\<lambda>_. None)\<rparr>"

text \<open>What Telegram does with a token's \<open>setWebhook\<close> and \<open>getMe\<close>, and a dispatcher with an update.\<close>

record bot_env =
  bn_now :: int
  bn_set_webhook :: "string \<Rightarrow> smm_exn option"
  bn_get_me :: "string \<Rightarrow> bool"
  bn_feed :: "int \<Rightarrow> json \<Rightarrow> smm_exn option"

definition get_instance :: "int \<Rightarrow> bot_manager \<Rightarrow> bot_instance option" where
  "get_instance tid B = find_by bi_tenant tid (bm_instances B)"

definition get_instance_by_slug :: "string \<Rightarrow> bot_manager \<Rightarrow> bot_instance option" where
  "get_instance_by_slug slug B = Option.bind (bm_by_slug B slug) (\<lambda>tid. get_instance tid B)"

definition start_bot :: "bot_env \<Rightarrow> tenant_row \<Rightarrow> string \<Rightarrow> smm_exn + bot_instance" where
  "start_bot N t token =
     (case bn_set_webhook N token of
        Some e \<Rightarrow> Inl e
      | None \<Rightarrow> Inr \<lparr>bi_tenant = tn_id t, bi_slug = tn_slug t, bi_token = token, bi_secret = tn_secret t,
                     bi_started_at = bn_now N, bi_last_update = None, bi_updates = 0, bi_healthy = True\<rparr>)"

text \<open>\<open>d[k] = v\<close>: in place, or at the end.\<close>

definition put_instance :: "bot_instance \<Rightarrow> bot_manager \<Rightarrow> bot_manager" where
  "put_instance i B =
     \<lparr>bm_instances =
        (if get_instance (bi_tenant i) B = None then bm_instances B @ [i]
         else upd_by bi_tenant (bi_tenant i) (\<lambda>_. i) (bm_instances B)),
      bm_by_slug = (bm_by_slug B)(bi_slug i \<mapsto> bi_tenant i)\<rparr>"

definition start_instance ::
  "tenant_env \<Rightarrow> bot_env \<Rightarrow> tenant_row \<Rightarrow> bot_manager \<Rightarrow> (smm_exn + bot_instance) \<times> bot_manager" where
  "start_instance env N t B =
     (case e_bind (get_decrypted_bot_token env t) (start_bot N t) of
        Inl e \<Rightarrow> (Inl e, B) | Inr i \<Rightarrow> (Inr i, put_instance i B))"

fun start_each :: "tenant_env \<Rightarrow> bot_env \<Rightarrow> tenant_row list \<Rightarrow> bot_manager \<Rightarrow> nat \<times> bot_manager" where
  "start_each env N [] B = (0, B)"
| "start_each env N (t # ts) B =
     (let (answer, B) = start_instance env N t B; (n, B) = start_each env N ts B
      in (case answer of Inl e \<Rightarrow> n | Inr i \<Rightarrow> Suc n, B))"

definition startup :: "tenant_env \<Rightarrow> bot_env \<Rightarrow> tenant_db \<Rightarrow> bot_manager \<Rightarrow> nat \<times> bot_manager" where
  "startup env N s = start_each env N (filter (\<lambda>t. tn_is_active t \<and> \<not> tn_is_deleted t) (td_tenants s))"

definition shutdown_bots :: "bot_manager \<Rightarrow> bot_manager" where
  "shutdown_bots B = new_manager"

definition start_tenant ::
  "tenant_env \<Rightarrow> bot_env \<Rightarrow> tenant_row \<Rightarrow> bot_manager \<Rightarrow> (smm_exn + bot_instance) \<times> bot_manager" where
  "start_tenant env N t B =
     (case get_instance (tn_id t) B of Some i \<Rightarrow> (Inr i, B) | None \<Rightarrow> start_instance env N t B)"

definition stop_tenant :: "int \<Rightarrow> bot_manager \<Rightarrow> bot_manager" where
  "stop_tenant tid B =
     (case get_instance tid B of
        None \<Rightarrow> B
      | Some i \<Rightarrow> \<lparr>bm_instances = filter (\<lambda>j. bi_tenant j \<noteq> tid) (bm_instances B),
                   bm_by_slug = (bm_by_slug B)(bi_slug i := None)\<rparr>)"

definition health_check_bots :: "bot_env \<Rightarrow> bot_manager \<Rightarrow> (int \<times> bool) list \<times> bot_manager" where
  "health_check_bots N B =
     (let B = B\<lparr>bm_instances := map (\<lambda>i. i\<lparr>bi_healthy := bn_get_me N (bi_token i)\<rparr>) (bm_instances B)\<rparr>
      in (map (\<lambda>i. (bi_tenant i, bi_healthy i)) (bm_instances B), B))"

definition status_summary :: "bot_manager \<Rightarrow> nat \<times> nat \<times> nat" where
  "status_summary B =
     (length (bm_instances B), length (filter bi_healthy (bm_instances B)),
      length (filter (\<lambda>i. \<not> bi_healthy i) (bm_instances B)))"

definition process_update :: "bot_env \<Rightarrow> int \<Rightarrow> json \<Rightarrow> bot_manager \<Rightarrow> (smm_exn + unit) \<times> bot_manager" where
  "process_update N tid body B =
     (case bn_feed N tid body of
        Some e \<Rightarrow> (Inl e, B)
      | None \<Rightarrow> (Inr (), B\<lparr>bm_instances := upd_by bi_tenant tid
          (\<lambda>i. i\<lparr>bi_last_update := Some (bn_now N), bi_updates := Suc (bi_updates i)\<rparr>) (bm_instances B)\<rparr>))"

section \<open>Routes\<close>

text \<open>An administrator's request, after the checks of \<open>pydantic\<close> on its types.\<close>

datatype tenant_request =
    Tenant_create string string string string
  | Tenant_list int int "int option" "bool option"
  | Tenant_get int
  | Tenant_update int "string option" "string option" "json_obj option"
  | Tenant_activate int
  | Tenant_suspend int string
  | Tenant_delete int
  | Tenant_rotate int string
  | Tenant_stats int

record tenant_out =
  ot_id :: int
  ot_slug :: string
  ot_display_name :: string
  ot_plan :: string
  ot_is_active :: bool
  ot_bot_username :: json
  ot_owner :: int
  ot_created_at :: int

datatype tenant_reply =
    One_tenant tenant_out
  | Tenant_page "tenant_out list" nat int int
  | Done
  | Stats_of tenant_stats "bot_instance option"

definition to_out :: "tenant_row \<Rightarrow> tenant_out" where
  "to_out t = \<lparr>ot_id = tn_id t, ot_slug = tn_slug t, ot_display_name = tn_display_name t, ot_plan = tn_plan t,
     ot_is_active = tn_is_active t, ot_bot_username = tn_bot_username t, ot_owner = tn_owner t,
     ot_created_at = tn_created_at t\<rparr>"

definition between :: "nat \<Rightarrow> nat \<Rightarrow> string \<Rightarrow> bool" where
  "between lo hi s \<longleftrightarrow> lo \<le> length s \<and> length s \<le> hi"

definition plan_ok :: "string \<Rightarrow> bool" where
  "plan_ok p \<longleftrightarrow> p \<in> set [''basic'', ''pro'', ''enterprise'']"

fun request_ok :: "tenant_request \<Rightarrow> bool" where
  "request_ok (Tenant_create token name slug plan) =
     (between 40 60 token \<and> between 1 128 name \<and> between 3 32 slug \<and> plan_ok plan)"
| "request_ok (Tenant_update tid name plan config) =
     ((case name of None \<Rightarrow> True | Some n \<Rightarrow> between 1 128 n) \<and> (case plan of None \<Rightarrow> True | Some p \<Rightarrow> plan_ok p))"
| "request_ok (Tenant_suspend tid reason) = between 1 255 reason"
| "request_ok (Tenant_rotate tid token) = between 40 60 token"
| "request_ok q = True"

text \<open>
  The exception of an operation as a route passes it on: the listed classes become an HTTP error. The
  session of a failed request is dropped.
\<close>

definition route_error :: "smm_class list \<Rightarrow> int \<Rightarrow> smm_exn \<Rightarrow> smm_exn" where
  "route_error cs status e =
     (case e of Smm c m \<Rightarrow> if list_ex (subclass_of c) cs then Http status m else e | _ \<Rightarrow> e)"

type_synonym tenant_world = "tenant_db \<times> bot_manager"

definition after_commit ::
  "smm_class list \<Rightarrow> int \<Rightarrow> 'a tenant_result \<Rightarrow> tenant_world
    \<Rightarrow> ('a \<Rightarrow> bot_manager \<Rightarrow> (smm_exn + tenant_reply) \<times> bot_manager) \<Rightarrow> (smm_exn + tenant_reply) \<times> tenant_world" where
  "after_commit cs status m w f =
     (case m of
        (Inl e, s) \<Rightarrow> (Inl (route_error cs status e), w)
      | (Inr x, s) \<Rightarrow>
          (case f x (snd w) of
             (Inl e, B) \<Rightarrow> (Inl (route_error cs status e), (s, B)) | (Inr r, B) \<Rightarrow> (Inr r, (s, B))))"

text \<open>
  The owner of a new tenant is the \<open>sub\<close> of the administrator's token, a text; \<open>own\<close> is what the
  database driver makes of it.
\<close>

fun tenant_route ::
  "tenant_env \<Rightarrow> bot_env \<Rightarrow> (string \<Rightarrow> smm_exn + int) \<Rightarrow> string \<Rightarrow> tenant_request \<Rightarrow> tenant_world
    \<Rightarrow> (smm_exn + tenant_reply) \<times> tenant_world" where
  "tenant_route env N own sub (Tenant_create token name slug plan) w =
     (case own sub of
        Inl e \<Rightarrow> (Inl e, w)
      | Inr owner \<Rightarrow> after_commit [ValidationError] 422 (create_tenant env owner token name slug plan (fst w)) w
          (\<lambda>t B. (Inr (One_tenant (to_out t)), B)))"
| "tenant_route env N own sub (Tenant_list page page_size owner active) w =
     (e_bind (list_tenants owner active page page_size (fst w)) (\<lambda>(rows, total).
        Inr (Tenant_page (map to_out rows) total page page_size)), w)"
| "tenant_route env N own sub (Tenant_get tid) w =
     (http_of [TenantNotFoundError] 404
        (e_bind (get_tenant tid (fst w)) (\<lambda>t. Inr (One_tenant (to_out t)))), w)"
| "tenant_route env N own sub (Tenant_update tid name plan config) w =
     after_commit [TenantNotFoundError, ValidationError] 422
       (update_tenant env tid
          ((case name of None \<Rightarrow> [] | Some n \<Rightarrow> [Set_display_name n]) @
           (case plan of None \<Rightarrow> [] | Some p \<Rightarrow> [Set_plan p]) @
           (case config of None \<Rightarrow> [] | Some c \<Rightarrow> [Set_config c])) (fst w)) w
       (\<lambda>t B. (Inr (One_tenant (to_out t)), B))"
| "tenant_route env N own sub (Tenant_activate tid) w =
     after_commit [TenantNotFoundError, TenantError, ValidationError] 422 (activate_tenant env tid (fst w)) w
       (\<lambda>t B. case start_tenant env N t B of
            (Inl e, B) \<Rightarrow> (Inl e, B) | (Inr i, B) \<Rightarrow> (Inr (One_tenant (to_out t)), B))"
| "tenant_route env N own sub (Tenant_suspend tid reason) w =
     after_commit [TenantNotFoundError] 404 (suspend_tenant env tid (fst w)) w
       (\<lambda>_ B. (Inr Done, stop_tenant tid B))"
| "tenant_route env N own sub (Tenant_delete tid) w =
     after_commit [TenantNotFoundError] 404 (delete_tenant env tid (fst w)) w
       (\<lambda>_ B. (Inr Done, stop_tenant tid B))"
| "tenant_route env N own sub (Tenant_rotate tid token) w =
     after_commit [TenantNotFoundError, ValidationError] 422 (rotate_tenant_bot_token env tid token (fst w)) w
       (\<lambda>_ B. (Inr Done, stop_tenant tid B))"
| "tenant_route env N own sub (Tenant_stats tid) w =
     (Inr (Stats_of (get_tenant_stats (te_now env) tid (fst w)) (get_instance tid (snd w))), w)"

definition admin_tenants ::
  "auth_lib \<Rightarrow> tenant_env \<Rightarrow> bot_env \<Rightarrow> (string \<Rightarrow> smm_exn + int) \<Rightarrow> string \<Rightarrow> tenant_request \<Rightarrow> tenant_world
    \<Rightarrow> (smm_exn + tenant_reply) \<times> tenant_world" where
  "admin_tenants L env N own authorization q w =
     (case require_permission L MANAGE_TENANTS (te_now env) authorization of
        Inl e \<Rightarrow> (Inl e, w)
      | Inr c \<Rightarrow> if \<not> request_ok q then (Inl (Http 422 ''Validation error''), w)
                 else tenant_route env N own (cl_sub c) q w)"

text \<open>
  The webhook: the secret is compared before the body is read, and whatever processing raises is
  answered with 200. \<open>compare_digest\<close> refuses text beyond ASCII with a \<open>TypeError\<close>.
\<close>

definition ascii :: "string \<Rightarrow> bool" where
  "ascii s \<longleftrightarrow> list_all (\<lambda>c. (of_char c :: nat) < 128) s"

definition receive_tenant_webhook ::
  "bot_env \<Rightarrow> string \<Rightarrow> string \<Rightarrow> json option \<Rightarrow> bot_manager \<Rightarrow> (smm_exn + int) \<times> bot_manager" where
  "receive_tenant_webhook N slug header body B =
     (case get_instance_by_slug slug B of
        None \<Rightarrow> (Inr 200, B)
      | Some i \<Rightarrow>
          if \<not> (ascii header \<and> ascii (bi_secret i)) then (Inl (Py ''TypeError''), B)
          else if header \<noteq> bi_secret i then (Inr 403, B)
          else case body of
              None \<Rightarrow> (Inr 200, B)
            | Some v \<Rightarrow> (case process_update N (bi_tenant i) v B of (r, B) \<Rightarrow> (Inr 200, B)))"

section \<open>Histories\<close>

datatype tenant_event =
    T_admin auth_lib string tenant_request
  | T_webhook string string "json option"
  | T_user int int string "string option"
  | T_startup
  | T_shutdown
  | T_health

record tenant_circumstance =
  tc_env :: tenant_env
  tc_bots :: bot_env
  tc_own :: "string \<Rightarrow> smm_exn + int"

fun tenant_step :: "tenant_circumstance \<times> tenant_event \<Rightarrow> tenant_world \<Rightarrow> tenant_world" where
  "tenant_step (c, T_admin L auth q) w = snd (admin_tenants L (tc_env c) (tc_bots c) (tc_own c) auth q w)"
| "tenant_step (c, T_webhook slug header body) w =
     (fst w, snd (receive_tenant_webhook (tc_bots c) slug header body (snd w)))"
| "tenant_step (c, T_user tid telegram name username) w =
     (snd (get_or_create_tenant_user (tc_env c) tid telegram name username (fst w)), snd w)"
| "tenant_step (c, T_startup) w = (fst w, snd (startup (tc_env c) (tc_bots c) (fst w) (snd w)))"
| "tenant_step (c, T_shutdown) w = (fst w, shutdown_bots (snd w))"
| "tenant_step (c, T_health) w = (fst w, snd (health_check_bots (tc_bots c) (snd w)))"

definition tenant_run :: "(tenant_circumstance \<times> tenant_event) list \<Rightarrow> tenant_world \<Rightarrow> tenant_world" where
  "tenant_run = fold tenant_step"

text \<open>A running bot is that of a row: active, not deleted, with the current slug, secret and token.\<close>

definition current_bot :: "(string \<Rightarrow> smm_exn + string) \<Rightarrow> bot_instance \<Rightarrow> tenant_row \<Rightarrow> bool" where
  "current_bot D i t \<longleftrightarrow> bi_tenant i = tn_id t \<and> bi_slug i = tn_slug t \<and> bi_secret i = tn_secret t \<and>
     tn_is_active t \<and> \<not> tn_is_deleted t \<and>
     (\<exists>c. tn_token_enc t = Some c \<and> c \<noteq> [] \<and> D c = Inr (bi_token i))"

definition tenants_ok :: "tenant_db \<Rightarrow> bool" where
  "tenants_ok s \<longleftrightarrow> distinct (map tn_id (td_tenants s)) \<and> distinct (map tn_slug (td_tenants s)) \<and>
     (\<forall>t \<in> set (td_tenants s). tn_id t < td_next s \<and>
        (tn_is_deleted t \<longrightarrow> \<not> tn_is_active t \<and> tn_token_enc t = Some []))"

definition bots_ok :: "(string \<Rightarrow> smm_exn + string) \<Rightarrow> tenant_world \<Rightarrow> bool" where
  "bots_ok D w \<longleftrightarrow> distinct (map bi_tenant (bm_instances (snd w))) \<and>
     (\<forall>i \<in> set (bm_instances (snd w)). \<exists>t \<in> set (td_tenants (fst w)). current_bot D i t) \<and>
     (\<forall>slug tid. bm_by_slug (snd w) slug = Some tid \<longleftrightarrow>
        (\<exists>i \<in> set (bm_instances (snd w)). bi_slug i = slug \<and> bi_tenant i = tid))"

definition tenant_inv :: "(string \<Rightarrow> smm_exn + string) \<Rightarrow> tenant_world \<Rightarrow> bool" where
  "tenant_inv D w \<longleftrightarrow> tenants_ok (fst w) \<and> bots_ok D w"

definition empty_world :: tenant_world where
  "empty_world = (\<lparr>td_tenants = [], td_users = [], td_orders = [], td_next = 1\<rparr>, new_manager)"

lemma tenant_inv_empty: "tenant_inv D empty_world"
  by (simp add: tenant_inv_def tenants_ok_def bots_ok_def empty_world_def new_manager_def)

section \<open>The rows\<close>

text \<open>What an operation may do to one tenant: keep its identity, and never undo a deletion.\<close>

definition tenant_change_ok :: "(tenant_row \<Rightarrow> tenant_row) \<Rightarrow> bool" where
  "tenant_change_ok f \<longleftrightarrow> (\<forall>t. tn_id (f t) = tn_id t \<and> tn_slug (f t) = tn_slug t \<and>
     tn_secret (f t) = tn_secret t \<and> tn_owner (f t) = tn_owner t)"

lemma tenants_ok_update:
  assumes "tenants_ok s" and "tenant_change_ok f"
    and "\<And>t. t \<in> set (td_tenants s) \<Longrightarrow> tn_id t = tid \<Longrightarrow>
      tn_is_deleted (f t) \<Longrightarrow> \<not> tn_is_active (f t) \<and> tn_token_enc (f t) = Some []"
  shows "tenants_ok (update_tenant_row tid f s)"
  using assms unfolding tenants_ok_def update_tenant_row_def tenant_change_ok_def
  by (auto simp: dest!: set_upd_by)

lemma get_tenant_Inr:
  "get_tenant tid s = Inr t \<longleftrightarrow> find_by tn_id tid (td_tenants s) = Some t \<and> \<not> tn_is_deleted t"
  by (auto simp: get_tenant_def split: option.split)

lemma the_tenant:
  assumes "tenants_ok s" and "get_tenant tid s = Inr t" and "u \<in> set (td_tenants s)" and "tn_id u = tid"
  shows "u = t"
  using assms find_by_in [of tn_id "td_tenants s" u] by (auto simp: tenants_ok_def get_tenant_Inr)

lemma set_fields_keep:
  "tn_id (fold set_field us t) = tn_id t \<and> tn_slug (fold set_field us t) = tn_slug t \<and>
   tn_secret (fold set_field us t) = tn_secret t \<and> tn_owner (fold set_field us t) = tn_owner t \<and>
   tn_is_deleted (fold set_field us t) = tn_is_deleted t \<and> tn_token_enc (fold set_field us t) = tn_token_enc t"
proof (induction us arbitrary: t)
  case (Cons u us)
  then show ?case by (cases u) auto
qed simp

lemma set_fields_active:
  "\<forall>u \<in> set us. field_name u \<noteq> ''is_active'' \<Longrightarrow> tn_is_active (fold set_field us t) = tn_is_active t"
proof (induction us arbitrary: t)
  case (Cons u us)
  then show ?case by (cases u) auto
qed simp

text \<open>
  A step of the rows: every tenant keeps its identity, a deletion is for good, only tenants in \<open>hit\<close> are
  suspended, deleted or given another token, and a new one comes only below its owner's limit.
\<close>

definition bots_of :: "int \<Rightarrow> tenant_db \<Rightarrow> nat" where
  "bots_of owner s = length (filter (\<lambda>t. tn_owner t = owner \<and> \<not> tn_is_deleted t) (td_tenants s))"

definition rows_step :: "int set \<Rightarrow> tenant_db \<Rightarrow> tenant_db \<Rightarrow> bool" where
  "rows_step hit s s' \<longleftrightarrow> (\<exists>g new. td_tenants s' = map g (td_tenants s) @ new \<and>
     (new = [] \<or> (\<exists>t. new = [t] \<and> bots_of (tn_owner t) s < 5)) \<and> tenant_change_ok g \<and> (\<forall>t \<in> set (td_tenants s). (tn_is_deleted t \<longrightarrow> g t = t) \<and>
       (tn_id t \<notin> hit \<longrightarrow> (tn_is_active t \<longrightarrow> tn_is_active (g t)) \<and> tn_is_deleted (g t) = tn_is_deleted t \<and>
          tn_token_enc (g t) = tn_token_enc t)))"

lemma rows_step_refl: "rows_step hit s s"
  unfolding rows_step_def by (intro exI [of _ id] exI [of _ "[]"]) (simp add: tenant_change_ok_def)

lemma rows_step_same: "td_tenants s' = td_tenants s \<Longrightarrow> rows_step hit s s'"
  unfolding rows_step_def by (intro exI [of _ id] exI [of _ "[]"]) (simp add: tenant_change_ok_def)

lemma rows_step_update:
  assumes "tenants_ok s" and "get_tenant tid s = Inr t" and "tenant_change_ok f"
    and "tid \<in> hit \<or> (tn_is_active t \<longrightarrow> tn_is_active (f t)) \<and> tn_is_deleted (f t) = tn_is_deleted t \<and>
           tn_token_enc (f t) = tn_token_enc t"
  shows "rows_step hit s (update_tenant_row tid f s)"
proof -
  let ?g = "\<lambda>u. if tn_id u = tid then f u else u"
  have "u = t" if "u \<in> set (td_tenants s)" "tn_id u = tid" for u using the_tenant assms(1,2) that .
  then have "\<forall>u \<in> set (td_tenants s). (tn_is_deleted u \<longrightarrow> ?g u = u) \<and> (tn_id u \<notin> hit \<longrightarrow>
      (tn_is_active u \<longrightarrow> tn_is_active (?g u)) \<and> tn_is_deleted (?g u) = tn_is_deleted u \<and> tn_token_enc (?g u) = tn_token_enc u)"
    using assms(2,4) by (auto simp: get_tenant_Inr)
  moreover have "tenant_change_ok ?g" using assms(3) by (simp add: tenant_change_ok_def)
  ultimately show ?thesis unfolding rows_step_def update_tenant_row_def upd_by_def
    by (intro exI [of _ ?g] exI [of _ "[]"]) simp
qed

lemma current_bot_step:
  assumes "tenants_ok s" and "rows_step hit s s'" and "t \<in> set (td_tenants s)" and "current_bot D i t"
    and "bi_tenant i \<notin> hit"
  shows "\<exists>t' \<in> set (td_tenants s'). current_bot D i t'"
proof -
  obtain g new where s': "td_tenants s' = map g (td_tenants s) @ new" "tenant_change_ok g"
    and g: "(tn_is_active t \<longrightarrow> tn_is_active (g t)) \<and> tn_is_deleted (g t) = tn_is_deleted t \<and> tn_token_enc (g t) = tn_token_enc t"
    using assms(2-5) unfolding rows_step_def current_bot_def by metis
  have "current_bot D i (g t)" using assms(4) g s'(2) by (simp add: current_bot_def tenant_change_ok_def)
  then show ?thesis using s'(1) assms(3) by auto
qed

lemma create_rows:
  assumes "create_tenant env owner token name slug plan s = (Inr t, s')" and "tenants_ok s"
  shows "tenants_ok s' \<and> rows_step {} s s'"
proof -
  obtain enc where s': "s' = s\<lparr>td_tenants := td_tenants s @ [t], td_next := td_next s + 1\<rparr>"
    and row: "t = new_tenant env owner enc name slug plan (td_next s)"
    and new: "slug \<notin> tn_slug ` set (td_tenants s)" and few: "bots_of owner s < 5"
    using assms(1) by (auto simp: create_tenant_def Let_def list_ex_iff bots_of_def MAX_TENANTS_PER_OWNER_def
        split: if_split_asm sum.split_asm)
  have t: "tn_id t = td_next s" "tn_slug t = slug" "\<not> tn_is_deleted t" "tn_owner t = owner"
    by (simp_all add: row new_tenant_def)
  have "tenants_ok s'" using assms(2) t new by (auto simp: tenants_ok_def s')
  moreover have "rows_step {} s s'" unfolding rows_step_def
    by (intro exI [of _ id] exI [of _ "[t]"]) (simp add: s' tenant_change_ok_def t(4) few)
  ultimately show ?thesis ..
qed

lemma update_rows:
  assumes "update_tenant env tid us s = (Inr t, s')" and "tenants_ok s" and "\<forall>u \<in> set us. field_name u \<noteq> ''is_active''"
  shows "tenants_ok s' \<and> rows_step {} s s'"
proof -
  let ?f = "\<lambda>t. (fold set_field us t)\<lparr>tn_updated_at := te_now env\<rparr>"
  obtain u where u: "get_tenant tid s = Inr u" and s': "s' = update_tenant_row tid ?f s"
    using assms(1) by (auto simp: update_tenant_def Let_def split: if_split_asm sum.split_asm)
  have f: "tenant_change_ok ?f" by (simp add: tenant_change_ok_def set_fields_keep)
  have "tenants_ok s'" unfolding s'
    by (rule tenants_ok_update [OF assms(2) f])
      (use the_tenant [OF assms(2) u] u in \<open>auto simp: set_fields_keep get_tenant_Inr\<close>)
  moreover have "rows_step {} s s'" unfolding s'
    by (rule rows_step_update [OF assms(2) u f]) (simp add: set_fields_keep set_fields_active [OF assms(3)])
  ultimately show ?thesis ..
qed

lemma rotate_rows:
  assumes "rotate_tenant_bot_token env tid token s = (Inr x, s')" and "tenants_ok s"
  shows "tenants_ok s' \<and> rows_step {tid} s s'"
proof -
  obtain u enc where u: "get_tenant tid s = Inr u"
    and s': "s' = update_tenant_row tid (\<lambda>t. t\<lparr>tn_token_enc := Some enc, tn_updated_at := te_now env\<rparr>) s"
    using assms(1) by (auto simp: rotate_tenant_bot_token_def split: if_split_asm sum.split_asm)
  have f: "tenant_change_ok (\<lambda>t. t\<lparr>tn_token_enc := Some enc, tn_updated_at := te_now env\<rparr>)"
    by (simp add: tenant_change_ok_def)
  have "tenants_ok s'" unfolding s'
    by (rule tenants_ok_update [OF assms(2) f]) (use the_tenant [OF assms(2) u] u in \<open>auto simp: get_tenant_Inr\<close>)
  then show ?thesis unfolding s' using rows_step_update [OF assms(2) u f] by simp
qed

lemma suspend_rows:
  assumes "suspend_tenant env tid s = (Inr x, s')" and "tenants_ok s"
  shows "tenants_ok s' \<and> rows_step {tid} s s'"
proof -
  obtain u where u: "get_tenant tid s = Inr u"
    and s': "s' = update_tenant_row tid (\<lambda>t. t\<lparr>tn_is_active := False, tn_updated_at := te_now env\<rparr>) s"
    using assms(1) by (auto simp: suspend_tenant_def split: sum.split_asm)
  have f: "tenant_change_ok (\<lambda>t. t\<lparr>tn_is_active := False, tn_updated_at := te_now env\<rparr>)"
    by (simp add: tenant_change_ok_def)
  have "tenants_ok s'" unfolding s'
    by (rule tenants_ok_update [OF assms(2) f]) (use the_tenant [OF assms(2) u] u in \<open>auto simp: get_tenant_Inr\<close>)
  then show ?thesis unfolding s' using rows_step_update [OF assms(2) u f] by simp
qed

definition erased :: "int \<Rightarrow> tenant_row \<Rightarrow> tenant_row" where
  "erased now t = t\<lparr>tn_token_enc := Some [], tn_is_active := False, tn_is_deleted := True, tn_updated_at := now\<rparr>"

lemma delete_tenants:
  "delete_tenant env tid s = (Inr x, s') \<longleftrightarrow> (\<exists>u. get_tenant tid s = Inr u) \<and>
     s' = (update_tenant_row tid (erased (te_now env)) s)\<lparr>td_users :=
       map (\<lambda>u. if tu_tenant u = tid then u\<lparr>tu_is_active := False\<rparr> else u) (td_users s)\<rparr>"
  by (auto simp: delete_tenant_def erased_def [abs_def] Let_def update_tenant_row_def split: sum.split)

lemma delete_rows:
  assumes "delete_tenant env tid s = (Inr x, s')" and "tenants_ok s"
  shows "tenants_ok s' \<and> rows_step {tid} s s'"
proof -
  obtain u where u: "get_tenant tid s = Inr u"
    and s': "td_tenants s' = td_tenants (update_tenant_row tid (erased (te_now env)) s)" "td_next s' = td_next s"
    using assms(1) by (auto simp: delete_tenants update_tenant_row_def)
  have f: "tenant_change_ok (erased now)" for now by (simp add: tenant_change_ok_def erased_def)
  have "tenants_ok (update_tenant_row tid (erased (te_now env)) s)"
    by (rule tenants_ok_update [OF assms(2) f]) (simp add: erased_def)
  then have "tenants_ok s'" by (simp add: tenants_ok_def s' update_tenant_row_def)
  moreover have "rows_step {tid} s (update_tenant_row tid (erased (te_now env)) s)"
    by (rule rows_step_update [OF assms(2) u f]) simp
  ultimately show ?thesis by (simp add: rows_step_def s'(1))
qed

lemma activate_rows:
  assumes "activate_tenant env tid s = (Inr t, s')" and "tenants_ok s"
  shows "tenants_ok s' \<and> rows_step {} s s' \<and> t \<in> set (td_tenants s') \<and> tn_id t = tid \<and> tn_is_active t \<and> \<not> tn_is_deleted t"
proof -
  obtain u where u: "get_tenant tid s = Inr u" using assms(1) by (auto simp: activate_tenant_def split: sum.split_asm)
  have in_s: "u \<in> set (td_tenants s) \<and> tn_id u = tid" using u by (auto simp: get_tenant_Inr dest: find_by_Some)
  show ?thesis
  proof (cases "tn_is_active u")
    case True
    then show ?thesis using assms u in_s by (auto simp: activate_tenant_def rows_step_refl get_tenant_Inr)
  next
    case False
    then obtain name where s': "s' = update_tenant_row tid (\<lambda>t. t\<lparr>tn_is_active := True, tn_bot_username := name, tn_updated_at := te_now env\<rparr>) s"
      and t: "fresh_row tid s' = Inr t"
      using assms(1) u
      by (auto simp: activate_tenant_def Let_def update_tenant_row_def upd_by_def comp_def
          split: sum.split_asm option.split_asm if_split_asm) (auto simp: if_distrib cong: if_cong)
    let ?f = "\<lambda>t. t\<lparr>tn_is_active := True, tn_bot_username := name, tn_updated_at := te_now env\<rparr>"
    have f: "tenant_change_ok ?f" by (simp add: tenant_change_ok_def)
    have "tenants_ok s'" unfolding s'
      by (rule tenants_ok_update [OF assms(2) f]) (use the_tenant [OF assms(2) u] u in \<open>auto simp: get_tenant_Inr\<close>)
    moreover have "rows_step {} s s'" unfolding s' by (rule rows_step_update [OF assms(2) u f]) simp
    moreover have "t = ?f u"
      using t u by (auto simp: fresh_row_def s' update_tenant_row_def find_by_upd_by get_tenant_Inr split: option.split_asm)
    moreover have "?f u \<in> set (td_tenants s')" using in_s by (auto simp: s' update_tenant_row_def upd_by_def image_iff)
    ultimately show ?thesis using in_s u by (auto simp: get_tenant_Inr)
  qed
qed

section \<open>The bots\<close>

lemma bots_ok_rows:
  assumes "bots_ok D (s, B)" and "tenants_ok s" and "rows_step hit s s'"
    and "\<forall>i \<in> set (bm_instances B). bi_tenant i \<notin> hit"
  shows "bots_ok D (s', B)"
  using assms current_bot_step [OF assms(2,3)] unfolding bots_ok_def by (simp, meson)

lemma slug_owner:
  assumes "tenants_ok s" and "t \<in> set (td_tenants s)" and "u \<in> set (td_tenants s)" and "tn_slug t = tn_slug u"
  shows "t = u"
  using assms by (auto simp: tenants_ok_def distinct_map dest: inj_onD)

lemma bot_of_tenant:
  assumes "bots_ok D (s, B)" and "i \<in> set (bm_instances B)"
  obtains t where "t \<in> set (td_tenants s)" and "current_bot D i t"
  using assms unfolding bots_ok_def by fastforce

lemma one_bot:
  assumes "bots_ok D (s, B)" and "i \<in> set (bm_instances B)" and "j \<in> set (bm_instances B)"
    and "bi_tenant i = bi_tenant j"
  shows "i = j"
  using assms by (auto simp: bots_ok_def distinct_map dest: inj_onD)

lemma same_slug:
  assumes "tenants_ok s" and "bots_ok D (s, B)" and "i \<in> set (bm_instances B)" and "j \<in> set (bm_instances B)"
    and "bi_slug i = bi_slug j"
  shows "i = j"
proof -
  obtain t where t: "t \<in> set (td_tenants s)" "current_bot D i t" using assms(2,3) by (rule bot_of_tenant)
  obtain u where u: "u \<in> set (td_tenants s)" "current_bot D j u" using assms(2,4) by (rule bot_of_tenant)
  have "t = u" by (rule slug_owner [OF assms(1) t(1) u(1)]) (use t(2) u(2) assms(5) in \<open>simp add: current_bot_def\<close>)
  then show ?thesis using one_bot [OF assms(2-4)] t(2) u(2) by (simp add: current_bot_def)
qed

lemma bots_ok_stop:
  assumes "bots_ok D (s, B)" and "tenants_ok s" and "rows_step {tid} s s'"
  shows "bots_ok D (s', stop_tenant tid B)"
proof (cases "get_instance tid B")
  case None
  then have "\<forall>i \<in> set (bm_instances B). bi_tenant i \<notin> {tid}" by (auto simp: get_instance_def find_by_None)
  from bots_ok_rows [OF assms this] None show ?thesis by (simp add: stop_tenant_def)
next
  case (Some i)
  have i: "i \<in> set (bm_instances B)" "bi_tenant i = tid" using Some by (auto simp: get_instance_def dest: find_by_Some)
  have only: "j = i" if "j \<in> set (bm_instances B)" "bi_slug j = bi_slug i \<or> bi_tenant j = tid" for j
    using that(2) same_slug [OF assms(2,1) that(1) i(1)] one_bot [OF assms(1) that(1) i(1)] i(2) by auto
  have "bots_ok D (s, stop_tenant tid B)"
    using assms(1) Some only i by (auto simp: bots_ok_def stop_tenant_def distinct_map_filter)
  then show ?thesis
    by (rule bots_ok_rows [OF _ assms(2,3)]) (auto simp: stop_tenant_def Some)
qed

lemma start_instance_new:
  assumes "get_instance (tn_id t) B = None" and "bots_ok D (s, B)" and "tenants_ok s" and "t \<in> set (td_tenants s)"
    and "tn_is_active t" and "\<not> tn_is_deleted t" and "te_decrypt env = D"
  shows "bots_ok D (s, snd (start_instance env N t B))"
proof (cases "e_bind (get_decrypted_bot_token env t) (start_bot N t)")
  case (Inl e)
  then show ?thesis using assms(2) by (simp add: start_instance_def)
next
  case (Inr i)
  then have i: "current_bot D i t"
    using assms(5-7) by (auto simp: get_decrypted_bot_token_def start_bot_def current_bot_def split: option.split_asm if_split_asm)
  then have free: "get_instance (bi_tenant i) B = None" using assms(1) by (simp add: current_bot_def)
  have other: "bi_slug j \<noteq> bi_slug i" if "j \<in> set (bm_instances B)" for j
  proof
    assume same: "bi_slug j = bi_slug i"
    obtain u where u: "u \<in> set (td_tenants s)" "current_bot D j u" using assms(2) \<open>j \<in> _\<close> by (rule bot_of_tenant)
    have "u = t" by (rule slug_owner [OF assms(3) u(1) assms(4)]) (use u(2) i same in \<open>simp add: current_bot_def\<close>)
    then have "bi_tenant j = bi_tenant i" using u(2) i by (simp add: current_bot_def)
    then show False using free \<open>j \<in> _\<close> unfolding get_instance_def find_by_None by (metis imageI)
  qed
  have new: "bi_tenant i \<notin> bi_tenant ` set (bm_instances B)" using free by (simp add: get_instance_def find_by_None)
  let ?B = "snd (start_instance env N t B)"
  have B: "bm_instances ?B = bm_instances B @ [i]" "bm_by_slug ?B = (bm_by_slug B)(bi_slug i \<mapsto> bi_tenant i)"
    using free unfolding start_instance_def Inr by (simp_all add: put_instance_def)
  have "bm_by_slug ?B slug = Some tid \<longleftrightarrow> (\<exists>j \<in> set (bm_instances ?B). bi_slug j = slug \<and> bi_tenant j = tid)" for slug tid
    using assms(2) other unfolding B bots_ok_def by (cases "slug = bi_slug i") auto
  moreover have "distinct (map bi_tenant (bm_instances ?B))" using assms(2) new by (simp add: B bots_ok_def)
  moreover have "\<forall>j \<in> set (bm_instances ?B). \<exists>u \<in> set (td_tenants s). current_bot D j u"
    using assms(2,4) i by (auto simp: B bots_ok_def)
  ultimately show ?thesis by (simp add: bots_ok_def)
qed

lemma bots_ok_start:
  assumes "bots_ok D (s, B)" and "tenants_ok s" and "t \<in> set (td_tenants s)"
    and "tn_is_active t" and "\<not> tn_is_deleted t" and "te_decrypt env = D"
  shows "bots_ok D (s, snd (start_tenant env N t B))"
  using start_instance_new [OF _ assms] assms(1) by (auto simp: start_tenant_def split: option.split)

text \<open>A second start replaces the bot of the tenant by one for the same row.\<close>

lemma start_instance_again:
  assumes "bots_ok D (s, B)" and "tenants_ok s" and "t \<in> set (td_tenants s)"
    and "tn_is_active t" and "\<not> tn_is_deleted t" and "te_decrypt env = D"
  shows "bots_ok D (s, snd (start_instance env N t B))"
proof (cases "get_instance (tn_id t) B")
  case None
  then show ?thesis using assms by (rule start_instance_new)
next
  case (Some old)
  have old: "old \<in> set (bm_instances B)" "bi_tenant old = tn_id t" using Some by (auto simp: get_instance_def dest: find_by_Some)
  show ?thesis
  proof (cases "e_bind (get_decrypted_bot_token env t) (start_bot N t)")
    case (Inl e)
    then show ?thesis using assms(1) by (simp add: start_instance_def)
  next
    case (Inr i)
    then have i: "current_bot D i t"
      using assms(4-6) by (auto simp: get_decrypted_bot_token_def start_bot_def current_bot_def split: option.split_asm if_split_asm)
    obtain u where u: "u \<in> set (td_tenants s)" "current_bot D old u" using assms(1) old(1) by (rule bot_of_tenant)
    have "u = t" using assms(2,3) u old(2) by (auto simp: tenants_ok_def current_bot_def distinct_map dest: inj_onD)
    then have same: "bi_tenant old = bi_tenant i" "bi_slug old = bi_slug i" using u(2) i by (simp_all add: current_bot_def)
    let ?B = "snd (start_instance env N t B)"
    have B: "bm_instances ?B = upd_by bi_tenant (bi_tenant i) (\<lambda>_. i) (bm_instances B)" "bm_by_slug ?B = bm_by_slug B"
      using Some i old same assms(1) unfolding start_instance_def Inr
      by (auto simp: put_instance_def current_bot_def bots_ok_def fun_upd_idem_iff)
    have ids: "map bi_tenant (bm_instances ?B) = map bi_tenant (bm_instances B)"
      by (simp add: B upd_by_def)
    have only: "j = old" if "j \<in> set (bm_instances B)" "bi_tenant j = bi_tenant i" for j
      using one_bot [OF assms(1) that(1) old(1)] that(2) same(1) by simp
    have "(\<lambda>j. (bi_slug j, bi_tenant j)) ` set (bm_instances ?B) = (\<lambda>j. (bi_slug j, bi_tenant j)) ` set (bm_instances B)"
      unfolding B upd_by_def list.set_map image_image
      by (rule image_cong [OF refl]) (use only same in auto)
    then have "(\<exists>j \<in> set (bm_instances ?B). bi_slug j = slug \<and> bi_tenant j = tid) \<longleftrightarrow>
        (\<exists>j \<in> set (bm_instances B). bi_slug j = slug \<and> bi_tenant j = tid)" for slug tid
      by (simp add: set_eq_iff image_iff) metis
    moreover have "\<forall>j \<in> set (bm_instances ?B). \<exists>u \<in> set (td_tenants s). current_bot D j u"
      using assms(1,3) i by (auto simp: B bots_ok_def dest!: set_upd_by)
    ultimately show ?thesis using assms(1) ids by (simp add: bots_ok_def B(2))
  qed
qed

lemma bots_ok_start_each:
  "bots_ok D (s, B) \<Longrightarrow> tenants_ok s \<Longrightarrow> te_decrypt env = D \<Longrightarrow>
    \<forall>t \<in> set ts. t \<in> set (td_tenants s) \<and> tn_is_active t \<and> \<not> tn_is_deleted t \<Longrightarrow>
    bots_ok D (s, snd (start_each env N ts B))"
proof (induction ts arbitrary: B)
  case (Cons t ts)
  have "bots_ok D (s, snd (start_instance env N t B))" using Cons.prems by (intro start_instance_again) auto
  from Cons.IH [OF this Cons.prems(2,3)] Cons.prems(4) show ?case by (simp add: Let_def case_prod_beta)
qed simp

section \<open>The invariant\<close>

lemma bots_ok_touch:
  assumes "bots_ok D (s, B)" and f: "\<And>i. bi_tenant (f i) = bi_tenant i \<and> bi_slug (f i) = bi_slug i \<and>
      bi_token (f i) = bi_token i \<and> bi_secret (f i) = bi_secret i"
  shows "bots_ok D (s, B\<lparr>bm_instances := map f (bm_instances B)\<rparr>)"
proof -
  have "current_bot D (f i) t = current_bot D i t" for i t by (simp add: current_bot_def f)
  moreover have "bi_tenant \<circ> f = bi_tenant" by (auto simp: f)
  ultimately show ?thesis using assms(1) unfolding bots_ok_def by (simp add: f)
qed

lemma after_commit_snd:
  "snd (after_commit cs status m w f) =
     (case m of (Inl e, s) \<Rightarrow> w | (Inr x, s) \<Rightarrow> (s, snd (f x (snd w))))"
  by (auto simp: after_commit_def split: prod.split sum.split)

lemma no_active_field:
  "\<forall>u \<in> set ((case name of None \<Rightarrow> [] | Some n \<Rightarrow> [Set_display_name n]) @
      (case plan of None \<Rightarrow> [] | Some p \<Rightarrow> [Set_plan p]) @ (case config of None \<Rightarrow> [] | Some c \<Rightarrow> [Set_config c])).
    field_name u \<noteq> ''is_active''"
  by (auto split: option.split)

fun hits :: "tenant_request \<Rightarrow> int set" where
  "hits (Tenant_suspend tid reason) = {tid}"
| "hits (Tenant_delete tid) = {tid}"
| "hits (Tenant_rotate tid token) = {tid}"
| "hits q = {}"

lemma tenant_route_keeps:
  assumes "tenant_inv D (s, B)" and "te_decrypt env = D" and "tenant_route env N own sub q (s, B) = (r, (s', B'))"
  shows "tenant_inv D (s', B') \<and> rows_step (hits q) s s'"
proof -
  have ok: "tenants_ok s" "bots_ok D (s, B)" using assms(1) by (simp_all add: tenant_inv_def)
  have still: "bots_ok D (u, B)" if "rows_step {} s u" for u by (rule bots_ok_rows [OF ok(2,1) that]) simp
  have stay: "rows_step h s s" "tenant_inv D (s, B)" for h using assms(1) by (simp_all add: rows_step_refl)
  have w: "(s', B') = snd (tenant_route env N own sub q (s, B))" using assms(3) by simp
  show ?thesis
  proof (cases q)
    case (Tenant_create token name slug plan)
    then show ?thesis using w stay create_rows [OF _ ok(1)] still
      by (auto simp: after_commit_snd tenant_inv_def split: sum.split_asm prod.split_asm)
  next
    case (Tenant_update tid name plan config)
    then show ?thesis using w stay update_rows [OF _ ok(1) no_active_field] still
      by (simp add: after_commit_snd tenant_inv_def split: sum.split_asm prod.split_asm)
  next
    case (Tenant_activate tid)
    show ?thesis
    proof (cases "activate_tenant env tid s")
      case (Pair a u)
      show ?thesis
      proof (cases a)
        case (Inl e)
        then show ?thesis using w stay Tenant_activate Pair by (simp add: after_commit_snd)
      next
        case (Inr t)
        have act: "tenants_ok u" "rows_step {} s u" "t \<in> set (td_tenants u)" "tn_is_active t" "\<not> tn_is_deleted t"
          using activate_rows [OF Pair [unfolded Inr] ok(1)] by simp_all
        have "bots_ok D (u, snd (start_tenant env N t B))"
          by (rule bots_ok_start [OF still [OF act(2)] act(1,3,4,5) assms(2)])
        then show ?thesis using w Tenant_activate Pair Inr act(1,2)
          by (auto simp: after_commit_snd tenant_inv_def split: sum.split_asm prod.split_asm)
      qed
    qed
  next
    case (Tenant_suspend tid reason)
    then show ?thesis using w stay suspend_rows [OF _ ok(1)] bots_ok_stop [OF ok(2,1)]
      by (simp add: after_commit_snd tenant_inv_def split: sum.split_asm prod.split_asm)
  next
    case (Tenant_delete tid)
    then show ?thesis using w stay delete_rows [OF _ ok(1)] bots_ok_stop [OF ok(2,1)]
      by (simp add: after_commit_snd tenant_inv_def split: sum.split_asm prod.split_asm)
  next
    case (Tenant_rotate tid token)
    then show ?thesis using w stay rotate_rows [OF _ ok(1)] bots_ok_stop [OF ok(2,1)]
      by (simp add: after_commit_snd tenant_inv_def split: sum.split_asm prod.split_asm)
  qed (use w stay in simp_all)
qed

fun event_hits :: "tenant_event \<Rightarrow> int set" where
  "event_hits (T_admin L auth q) = hits q"
| "event_hits ev = {}"

lemma admin_tenants_keep:
  assumes "tenant_inv D w" and "te_decrypt env = D"
  shows "tenant_inv D (snd (admin_tenants L env N own auth q w)) \<and>
    rows_step (hits q) (fst w) (fst (snd (admin_tenants L env N own auth q w)))"
  using assms(1) tenant_route_keeps [of D "fst w" "snd w" env N own _ q] assms(2)
  by (auto simp: admin_tenants_def rows_step_refl split: sum.split) (metis prod.collapse)+

lemma webhook_keeps:
  assumes "bots_ok D (s, B)" shows "bots_ok D (s, snd (receive_tenant_webhook N slug header body B))"
  using assms bots_ok_touch [OF assms, of "\<lambda>i. if bi_tenant i = _ then _ i else i"]
  by (auto simp: receive_tenant_webhook_def process_update_def upd_by_def bots_ok_touch split: option.split)

lemma tenant_step_keeps:
  assumes "tenant_inv D w" and "te_decrypt (tc_env c) = D"
  shows "tenant_inv D (tenant_step (c, ev) w) \<and> rows_step (event_hits ev) (fst w) (fst (tenant_step (c, ev) w))"
proof (cases ev)
  case (T_user tid telegram name username)
  then show ?thesis using assms(1)
    by (auto simp: tenant_inv_def tenants_ok_def bots_ok_def get_or_create_tenant_user_def Let_def
        intro: rows_step_same split: list.split)
next
  case T_startup
  then show ?thesis using assms bots_ok_start_each [of D "fst w" "snd w"]
    by (auto simp: tenant_inv_def startup_def rows_step_refl)
next
  case T_health
  then show ?thesis using assms(1) bots_ok_touch [of D "fst w" "snd w" "\<lambda>i. i\<lparr>bi_healthy := bn_get_me (tc_bots c) (bi_token i)\<rparr>"]
    by (auto simp: tenant_inv_def health_check_bots_def Let_def rows_step_refl)
next
  case (T_admin L auth q)
  then show ?thesis using admin_tenants_keep [OF assms] by simp
next
  case (T_webhook slug header body)
  then show ?thesis using assms(1) webhook_keeps [of D "fst w" "snd w"] by (simp add: tenant_inv_def rows_step_refl)
next
  case T_shutdown
  then show ?thesis using assms(1)
    by (simp add: tenant_inv_def rows_step_refl bots_ok_def shutdown_bots_def new_manager_def)
qed

lemma tenant_run_keeps:
  "tenant_inv D w \<Longrightarrow> \<forall>(c, ev) \<in> set evs. te_decrypt (tc_env c) = D \<Longrightarrow> tenant_inv D (tenant_run evs w)"
proof (induction evs arbitrary: w)
  case (Cons p evs)
  obtain c ev where p: "p = (c, ev)" by (metis prod.exhaust)
  have "tenant_inv D (tenant_step p w)" using tenant_step_keeps [of D w c ev] Cons.prems by (simp add: p)
  then show ?case using Cons.IH Cons.prems(2) by (simp add: tenant_run_def)
qed (simp add: tenant_run_def)

text \<open>
  C26: Whatever administrators, Telegram and restarts do, the bots that run are those of tenants that are
  active and not deleted, one per tenant, each with its tenant's present slug and secret and with the
  token that is stored now; a suspended, deleted or rotated tenant has no bot running on its old token.
\<close>

theorem running_bots_are_current:
  assumes "\<forall>(c, ev) \<in> set evs. te_decrypt (tc_env c) = D"
    and "tenant_run evs empty_world = (s, B)" and "i \<in> set (bm_instances B)"
  shows "\<exists>t. find_by tn_id (bi_tenant i) (td_tenants s) = Some t \<and> current_bot D i t \<and>
    get_instance (bi_tenant i) B = Some i \<and> get_instance_by_slug (tn_slug t) B = Some i"
proof -
  have "tenant_inv D (s, B)" using tenant_run_keeps [OF tenant_inv_empty assms(1)] assms(2) by simp
  then have ok: "tenants_ok s" "bots_ok D (s, B)" by (simp_all add: tenant_inv_def)
  obtain t where t: "t \<in> set (td_tenants s)" "current_bot D i t" using ok(2) assms(3) by (rule bot_of_tenant)
  have "find_by tn_id (tn_id t) (td_tenants s) = Some t"
    using ok(1) t(1) by (intro find_by_in) (simp_all add: tenants_ok_def)
  moreover have "get_instance (bi_tenant i) B = Some i"
    unfolding get_instance_def using ok(2) assms(3) by (intro find_by_in) (simp_all add: bots_ok_def)
  moreover have "bm_by_slug B (bi_slug i) = Some (bi_tenant i)" using ok(2) assms(3) by (auto simp: bots_ok_def)
  ultimately show ?thesis using t(2) by (auto simp: current_bot_def get_instance_by_slug_def)
qed

definition sample_token :: string where
  "sample_token = ''12345678:'' @ replicate 35 (CHR ''a'')"

definition sample_tenant_env :: tenant_env where
  "sample_tenant_env = \<lparr>te_now = 5, te_secret = ''sec'', te_encrypt = (\<lambda>t. Inr (CHR ''e'' # t)),
     te_decrypt = (\<lambda>c. case c of [] \<Rightarrow> Inl (Py ''InvalidTag'') | x # t \<Rightarrow> Inr t),
     te_get_me = (\<lambda>_. Reply 200 (Some (Jobj [(''ok'', Jbool True), (''result'', Jobj [(''username'', Jtext ''shop_bot'')])]))),
     te_repr = (\<lambda>_. [])\<rparr>"

definition sample_bot_env :: bot_env where
  "sample_bot_env = \<lparr>bn_now = 5, bn_set_webhook = (\<lambda>_. None), bn_get_me = (\<lambda>_. True), bn_feed = (\<lambda>_ _. None)\<rparr>"

definition sample_circumstance :: tenant_circumstance where
  "sample_circumstance = \<lparr>tc_env = sample_tenant_env, tc_bots = sample_bot_env, tc_own = (\<lambda>_. Inr 7)\<rparr>"

definition sample_admin_lib :: auth_lib where
  "sample_admin_lib = sample_lib\<lparr>al_jwt_decode := (\<lambda>_ _. Some
     \<lparr>cl_sub = ''7'', cl_usr = ''root'', cl_role = ''superadmin'', cl_partial = False, cl_iat = 0, cl_exp = 10, cl_jti = []\<rparr>)\<rparr>"

definition tenant_asks :: "tenant_request \<Rightarrow> tenant_circumstance \<times> tenant_event" where
  "tenant_asks q = (sample_circumstance, T_admin sample_admin_lib ''Bearer x'' q)"

definition sample_events :: "(tenant_circumstance \<times> tenant_event) list" where
  "sample_events = map tenant_asks [Tenant_create sample_token ''Shop'' ''shop'' ''basic'', Tenant_activate 1]"

lemma sample_tenant_run:
  "map bi_slug (bm_instances (snd (tenant_run sample_events empty_world))) = [''shop'']"
  by code_simp

lemma running_bots_are_current_witness:
  "\<exists>i t. bm_instances (snd (tenant_run sample_events empty_world)) = [i] \<and>
     current_bot (te_decrypt sample_tenant_env) i t \<and> tn_slug t = ''shop''"
proof -
  obtain s B where w: "tenant_run sample_events empty_world = (s, B)" by fastforce
  then obtain i where i: "bm_instances B = [i]" "bi_slug i = ''shop''" using sample_tenant_run by auto
  have "\<exists>t. current_bot (te_decrypt sample_tenant_env) i t"
    using running_bots_are_current [OF _ w, of "te_decrypt sample_tenant_env" i] i(1)
    by (auto simp: sample_events_def tenant_asks_def sample_circumstance_def)
  then show ?thesis using i w by (auto simp: current_bot_def)
qed

section \<open>The webhook\<close>

text \<open>
  A bot changes on a webhook request only if the request names the slug of an active tenant that is
  not deleted and carries that tenant's secret; every other request is answered and changes nothing.
\<close>

theorem webhook_needs_secret:
  assumes "\<forall>(c, ev) \<in> set evs. te_decrypt (tc_env c) = D" and "tenant_run evs empty_world = (s, B)"
    and "snd (receive_tenant_webhook N slug header body B) \<noteq> B"
  shows "\<exists>t. get_tenant_by_slug slug s = Inr t \<and> tn_is_active t \<and> tn_secret t = header \<and>
    fst (receive_tenant_webhook N slug header body B) = Inr 200"
proof -
  have "tenant_inv D (s, B)" using tenant_run_keeps [OF tenant_inv_empty assms(1)] assms(2) by simp
  then have ok: "tenants_ok s" "bots_ok D (s, B)" by (simp_all add: tenant_inv_def)
  obtain i where i: "get_instance_by_slug slug B = Some i" "header = bi_secret i"
    and r: "fst (receive_tenant_webhook N slug header body B) = Inr 200"
    using assms(3) by (auto simp: receive_tenant_webhook_def split: option.split_asm if_split_asm prod.split)
  then obtain tid where tid: "bm_by_slug B slug = Some tid" "get_instance tid B = Some i"
    by (auto simp: get_instance_by_slug_def bind_eq_Some_conv)
  then have i': "i \<in> set (bm_instances B)" "bi_tenant i = tid" by (auto simp: get_instance_def dest: find_by_Some)
  obtain j where j: "j \<in> set (bm_instances B)" "bi_slug j = slug" "bi_tenant j = tid"
    using ok(2) tid(1) unfolding bots_ok_def by auto
  have "j = i" using one_bot [OF ok(2) j(1) i'(1)] j(3) i'(2) by simp
  obtain t where t: "t \<in> set (td_tenants s)" "current_bot D i t" using ok(2) i'(1) by (rule bot_of_tenant)
  have slug: "tn_slug t = slug" "\<not> tn_is_deleted t" using t(2) j(2) \<open>j = i\<close> by (auto simp: current_bot_def)
  have "find (\<lambda>u. tn_slug u = slug \<and> \<not> tn_is_deleted u) (td_tenants s) = Some t"
  proof (cases "find (\<lambda>u. tn_slug u = slug \<and> \<not> tn_is_deleted u) (td_tenants s)")
    case None
    then show ?thesis using t(1) slug by (auto simp: find_None_iff)
  next
    case (Some u)
    then have "u \<in> set (td_tenants s)" "tn_slug u = slug" by (auto simp: find_Some_iff)
    then show ?thesis using slug_owner [OF ok(1) _ t(1)] slug Some by simp
  qed
  then show ?thesis using t(2) i(2) r by (auto simp: get_tenant_by_slug_def current_bot_def)
qed

lemma webhook_needs_secret_witness:
  "\<exists>t. get_tenant_by_slug ''shop'' (fst (tenant_run sample_events empty_world)) = Inr t \<and> tn_secret t = ''sec''"
proof -
  obtain s B where w: "tenant_run sample_events empty_world = (s, B)" by fastforce
  have moved: "map bi_updates (bm_instances (snd (receive_tenant_webhook sample_bot_env ''shop'' ''sec'' (Some Jnull)
      (snd (tenant_run sample_events empty_world))))) \<noteq> map bi_updates (bm_instances (snd (tenant_run sample_events empty_world)))"
    by code_simp
  then have "snd (receive_tenant_webhook sample_bot_env ''shop'' ''sec'' (Some Jnull) B) \<noteq> B" using w by auto
  from webhook_needs_secret [OF _ w this, of "te_decrypt sample_tenant_env"] w show ?thesis
    by (auto simp: sample_events_def tenant_asks_def sample_circumstance_def)
qed

section \<open>Deletion\<close>

lemma rows_step_deleted:
  assumes "rows_step hit s s'" and "t \<in> set (td_tenants s)" and "tn_is_deleted t"
  shows "t \<in> set (td_tenants s')"
  using assms unfolding rows_step_def by (metis Un_iff image_eqI set_append set_map)

text \<open>
  A deleted tenant never comes back: whatever happens afterwards, its row stays as the deletion left
  it, without a token, and no bot of it runs.
\<close>

theorem deletion_is_final:
  assumes "\<forall>(c, ev) \<in> set (before @ evs). te_decrypt (tc_env c) = D"
    and "t \<in> set (td_tenants (fst (tenant_run before empty_world)))" and "tn_is_deleted t"
  shows "t \<in> set (td_tenants (fst (tenant_run (before @ evs) empty_world))) \<and> tn_token_enc t = Some [] \<and>
    get_instance (tn_id t) (snd (tenant_run (before @ evs) empty_world)) = None"
proof -
  let ?w = "tenant_run before empty_world"
  have w: "tenant_inv D ?w" by (rule tenant_run_keeps [OF tenant_inv_empty]) (use assms(1) in auto)
  have "tenant_inv D (tenant_run es v) \<and> t \<in> set (td_tenants (fst (tenant_run es v)))"
    if "tenant_inv D v" "t \<in> set (td_tenants (fst v))" "\<forall>(c, ev) \<in> set es. te_decrypt (tc_env c) = D" for es v
    using that
  proof (induction es arbitrary: v)
    case (Cons p es)
    obtain c ev where p: "p = (c, ev)" by (metis prod.exhaust)
    have "tenant_inv D (tenant_step p v) \<and> rows_step (event_hits ev) (fst v) (fst (tenant_step p v))"
      using tenant_step_keeps [of D v c ev] Cons.prems by (simp add: p)
    then have "tenant_inv D (tenant_step p v)" "t \<in> set (td_tenants (fst (tenant_step p v)))"
      using rows_step_deleted [OF _ Cons.prems(2) assms(3)] by blast+
    from Cons.IH [OF this] Cons.prems(3) show ?case by (simp add: tenant_run_def)
  qed (simp add: tenant_run_def)
  from this [OF w assms(2), of evs] assms(1)
  have after: "tenant_inv D (tenant_run (before @ evs) empty_world)" "t \<in> set (td_tenants (fst (tenant_run (before @ evs) empty_world)))"
    by (simp_all add: tenant_run_def)
  obtain s B where sB: "tenant_run (before @ evs) empty_world = (s, B)" by fastforce
  have ok: "tenants_ok s" "bots_ok D (s, B)" "t \<in> set (td_tenants s)" using after sB by (simp_all add: tenant_inv_def)
  have "tn_id t \<notin> bi_tenant ` set (bm_instances B)"
  proof
    assume "tn_id t \<in> bi_tenant ` set (bm_instances B)"
    then obtain i where i: "i \<in> set (bm_instances B)" and same: "bi_tenant i = tn_id t" by force
    obtain u where u: "u \<in> set (td_tenants s)" "current_bot D i u" using ok(2) i by (rule bot_of_tenant)
    then have "u = t" using same ok(1,3) by (auto simp: tenants_ok_def current_bot_def distinct_map dest: inj_onD)
    then show False using u(2) assms(3) by (simp add: current_bot_def)
  qed
  then have "get_instance (tn_id t) B = None" by (simp add: get_instance_def find_by_None)
  moreover have "tn_token_enc t = Some []" using ok(1,3) assms(3) by (simp add: tenants_ok_def)
  ultimately show ?thesis using ok(3) sB by simp
qed

lemma deletion_is_final_witness:
  "\<exists>t. tn_slug t = ''shop'' \<and> t \<in> set (td_tenants (fst (tenant_run ((sample_events @ [tenant_asks (Tenant_delete 1)]) @
       [tenant_asks (Tenant_activate 1), (sample_circumstance, T_startup)]) empty_world))) \<and> tn_token_enc t = Some []"
proof -
  have "map (\<lambda>t. (tn_slug t, tn_is_deleted t)) (td_tenants (fst (tenant_run (sample_events @ [tenant_asks (Tenant_delete 1)]) empty_world)))
      = [(''shop'', True)]" by code_simp
  then obtain t where "t \<in> set (td_tenants (fst (tenant_run (sample_events @ [tenant_asks (Tenant_delete 1)]) empty_world)))"
    "tn_slug t = ''shop''" "tn_is_deleted t" by (auto simp: Cons_eq_map_conv)
  moreover note deletion_is_final [OF _ this(1,3), of "[tenant_asks (Tenant_activate 1), (sample_circumstance, T_startup)]"
      "te_decrypt sample_tenant_env"]
  ultimately show ?thesis by (auto simp: sample_events_def tenant_asks_def sample_circumstance_def)
qed

section \<open>The limit per owner\<close>

lemma bots_of_step:
  assumes "rows_step hit s s'" and "bots_of owner s \<le> 5"
  shows "bots_of owner s' \<le> 5"
proof -
  obtain g new where s': "td_tenants s' = map g (td_tenants s) @ new" "tenant_change_ok g"
    and new: "new = [] \<or> (\<exists>t. new = [t] \<and> bots_of (tn_owner t) s < 5)"
    and g: "\<forall>t \<in> set (td_tenants s). tn_is_deleted t \<longrightarrow> g t = t"
    using assms(1) unfolding rows_step_def by metis
  let ?P = "\<lambda>t. tn_owner t = owner \<and> \<not> tn_is_deleted t"
  have "length (filter (?P \<circ> g) ts) \<le> length (filter ?P ts)" if "\<forall>t \<in> set ts. tn_is_deleted t \<longrightarrow> g t = t" for ts
    using that s'(2) by (induction ts) (auto simp: tenant_change_ok_def)
  then have old: "length (filter (?P \<circ> g) (td_tenants s)) \<le> bots_of owner s" using g unfolding bots_of_def by blast
  show ?thesis using new old assms(2) by (auto simp: bots_of_def [of _ s'] s'(1) filter_map)
qed

text \<open>
  No owner ever has more than five bots that are not deleted, whatever requests arrive.
\<close>

theorem at_most_five_bots:
  assumes "\<forall>(c, ev) \<in> set evs. te_decrypt (tc_env c) = D"
  shows "length (filter (\<lambda>t. tn_owner t = owner \<and> \<not> tn_is_deleted t) (td_tenants (fst (tenant_run evs empty_world)))) \<le> 5"
proof -
  have "bots_of owner (fst (tenant_run es w)) \<le> 5"
    if "tenant_inv D w" "bots_of owner (fst w) \<le> 5" "\<forall>(c, ev) \<in> set es. te_decrypt (tc_env c) = D" for es w
    using that
  proof (induction es arbitrary: w)
    case (Cons p es)
    obtain c ev where p: "p = (c, ev)" by (metis prod.exhaust)
    have "tenant_inv D (tenant_step p w)" "rows_step (event_hits ev) (fst w) (fst (tenant_step p w))"
      using tenant_step_keeps [of D w c ev] Cons.prems by (simp_all add: p)
    with Cons.IH [of "tenant_step p w"] bots_of_step Cons.prems(2,3) show ?case by (simp add: tenant_run_def)
  qed (simp add: tenant_run_def)
  moreover have "bots_of owner (fst empty_world) \<le> 5" by (simp add: bots_of_def empty_world_def)
  ultimately show ?thesis using tenant_inv_empty assms unfolding bots_of_def by blast
qed

lemma at_most_five_bots_witness:
  "length (filter (\<lambda>t. tn_owner t = 7 \<and> \<not> tn_is_deleted t) (td_tenants (fst (tenant_run sample_events empty_world)))) \<le> 5"
  using at_most_five_bots [of sample_events "te_decrypt sample_tenant_env"]
  by (simp add: sample_events_def tenant_asks_def sample_circumstance_def)

section \<open>Tenants that do not exist\<close>

text \<open>
  A request about a tenant that does not exist or is deleted changes nothing, and instead of the
  promised 404 or 422 it fails with a \<open>TypeError\<close>: the exception is called with a message that its
  constructor already passes on.
\<close>

theorem missing_tenant_is_type_error:
  assumes "get_tenant tid (fst w) = Inl e" and "valid_bot_token token"
    and "q \<in> set [Tenant_get tid, Tenant_update tid name plan config, Tenant_activate tid,
      Tenant_suspend tid reason, Tenant_delete tid, Tenant_rotate tid token]"
  shows "tenant_route env N own sub q w = (Inl (Py ''TypeError''), w)"
proof -
  have e: "e = Py ''TypeError''"
    using assms(1) by (auto simp: get_tenant_def raise_with_def takes_message_def split: option.split_asm if_split_asm)
  have "set (map field_name ((case name of None \<Rightarrow> [] | Some n \<Rightarrow> [Set_display_name n]) @
      (case plan of None \<Rightarrow> [] | Some p \<Rightarrow> [Set_plan p]) @ (case config of None \<Rightarrow> [] | Some c \<Rightarrow> [Set_config c])))
      \<subseteq> set UPDATABLE" by (auto simp: UPDATABLE_def split: option.split)
  then have upd: "update_tenant env tid ((case name of None \<Rightarrow> [] | Some n \<Rightarrow> [Set_display_name n]) @
      (case plan of None \<Rightarrow> [] | Some p \<Rightarrow> [Set_plan p]) @ (case config of None \<Rightarrow> [] | Some c \<Rightarrow> [Set_config c])) (fst w)
      = (Inl (Py ''TypeError''), fst w)"
    using assms(1) by (auto simp: update_tenant_def Let_def filter_empty_conv e)
  show ?thesis using assms upd
    by (auto simp: after_commit_def route_error_def http_of_def activate_tenant_def suspend_tenant_def
        delete_tenant_def rotate_tenant_bot_token_def e)
qed

lemma missing_tenant_is_type_error_witness:
  "tenant_route sample_tenant_env sample_bot_env (\<lambda>_. Inr 7) ''7'' (Tenant_get 3) empty_world = (Inl (Py ''TypeError''), empty_world)"
proof (rule missing_tenant_is_type_error [where tid = 3 and token = sample_token])
  show "get_tenant 3 (fst empty_world) = Inl (raise_with TenantNotFoundError ''Tenant not found.'')"
    by (simp add: get_tenant_def empty_world_def)
  show "valid_bot_token sample_token" by code_simp
qed simp

section \<open>Profiles of a tenant's users\<close>

text \<open>
  A user has one profile per tenant: meeting a user keeps the profiles of others, of other tenants
  too, and the balance of the own one, and leaves exactly one for the pair.
\<close>

theorem one_profile_per_tenant:
  assumes "distinct (map (\<lambda>u. (tu_tenant u, tu_telegram u)) (td_users s))"
    and "get_or_create_tenant_user env tid telegram name username s = (r, s')"
  shows "distinct (map (\<lambda>u. (tu_tenant u, tu_telegram u)) (td_users s')) \<and>
    (\<exists>u. r = Inr u \<and> filter (is_tenant_user tid telegram) (td_users s') = [u] \<and>
       tu_first_name u = name \<and> tu_username u = username \<and>
       tu_balance u = (case filter (is_tenant_user tid telegram) (td_users s) of [] \<Rightarrow> 0 | v # vs \<Rightarrow> tu_balance v)) \<and>
    filter (\<lambda>u. \<not> is_tenant_user tid telegram u) (td_users s') = filter (\<lambda>u. \<not> is_tenant_user tid telegram u) (td_users s)"
proof -
  let ?P = "is_tenant_user tid telegram" and ?k = "\<lambda>u. (tu_tenant u, tu_telegram u)"
  have one: "filter ?P us = [] \<or> (\<exists>u. filter ?P us = [u])" if "distinct (map ?k us)" for us
    using that by (induction us) (auto simp: is_tenant_user_def filter_empty_conv image_iff)
  from one [OF assms(1)] show ?thesis
  proof (elim disjE exE)
    assume none: "filter ?P (td_users s) = []"
    then have "(tid, telegram) \<notin> ?k ` set (td_users s)" by (auto simp: filter_empty_conv is_tenant_user_def)
    then show ?thesis using assms none by (auto simp: get_or_create_tenant_user_def Let_def is_tenant_user_def)
  next
    fix u assume u: "filter ?P (td_users s) = [u]"
    let ?v = "u\<lparr>tu_first_name := name, tu_username := username\<rparr>"
    have P: "?P u" "?P ?v" using u by (auto simp: filter_eq_Cons_iff is_tenant_user_def)
    have s': "r = Inr ?v" "td_users s' = map (\<lambda>w. if ?P w then ?v else w) (td_users s)"
      using assms(2) u by (auto simp: get_or_create_tenant_user_def Let_def)
    have "map ?k (td_users s') = map ?k (td_users s)" using P by (auto simp: s' is_tenant_user_def)
    then have "distinct (map ?k (td_users s'))" using assms(1) by (simp del: distinct_map)
    moreover have "filter ?P (map (\<lambda>w. if ?P w then ?v else w) us) = map (\<lambda>_. ?v) (filter ?P us)" for us
      using P(2) by (induction us) auto
    moreover have "filter (\<lambda>w. \<not> ?P w) (map (\<lambda>w. if ?P w then ?v else w) us) = filter (\<lambda>w. \<not> ?P w) us" for us
      using P(2) by (induction us) auto
    ultimately show ?thesis using u unfolding s' by simp
  qed
qed

lemma one_profile_per_tenant_witness:
  "\<exists>u. fst (get_or_create_tenant_user sample_tenant_env 1 42 ''Ann'' None (fst empty_world)) = Inr u \<and> tu_balance u = 0"
proof -
  obtain r s' where s': "get_or_create_tenant_user sample_tenant_env 1 42 ''Ann'' None (fst empty_world) = (r, s')" by fastforce
  from one_profile_per_tenant [OF _ s'] have "\<exists>u. r = Inr u \<and> tu_balance u = 0" by (auto simp: empty_world_def)
  then show ?thesis unfolding s' by simp
qed

end
