(* ===== verification/Ledger.thy ===== *)
theory Ledger
  imports Platform
begin

text \<open>
  \<open>app/wallet/ledger.py\<close>: the wallet of the second generation, with exact decimal amounts. An operation
  gives its result and the rows of the session, also when it raises. The random ids, the clock and the
  text of an amount in an error message are arguments. The lemmas show that the transactions of a wallet
  form a chain from zero to its balance, and what the check of the daily reconciler computes.
\<close>

section \<open>Rows\<close>

datatype tx_type =
    DEPOSIT | ORDER_DEBIT | REFUND | BONUS_CREDIT | ADMIN_CREDIT | ADMIN_DEBIT | API_DEBIT
  | COUPON_CREDIT | RESELLER_CREDIT | ADJUSTMENT

record smm_wallet =
  wl_id :: int
  wl_user :: int
  wl_balance :: rat

record wallet_tx =
  tx_id :: string
  tx_wallet :: int
  tx_kind :: tx_type
  tx_amount :: rat
  tx_before :: rat
  tx_after :: rat
  tx_key :: string
  tx_reference :: "string option"
  tx_reason :: "string option"
  tx_at :: int

record ledger_db =
  lg_wallets :: "smm_wallet list"
  lg_txs :: "wallet_tx list"

type_synonym 'a ledger_result = "(smm_exn + 'a) \<times> ledger_db"

record ledger_env =
  le_now :: int
  le_uuid :: string
  le_rupees :: "rat \<Rightarrow> string"

section \<open>Operations\<close>

definition find_by_idempotency_key :: "string \<Rightarrow> ledger_db \<Rightarrow> wallet_tx option" where
  "find_by_idempotency_key key s = find_by tx_key key (lg_txs s)"

definition wallet_of :: "int \<Rightarrow> ledger_db \<Rightarrow> smm_wallet option" where
  "wallet_of uid s = find_by wl_user uid (lg_wallets s)"

text \<open>The message names the amounts unless the balance is zero.\<close>

definition insufficient :: "ledger_env \<Rightarrow> rat \<Rightarrow> rat \<Rightarrow> smm_exn" where
  "insufficient env required available =
     (if required \<noteq> 0 \<and> available \<noteq> 0
      then Smm InsufficientBalanceError (''Insufficient balance. Required: '' @ le_rupees env required @
             '', available: '' @ le_rupees env available @ ''.'')
      else raise_smm InsufficientBalanceError)"

definition execute_transaction ::
  "ledger_env \<Rightarrow> int \<Rightarrow> rat \<Rightarrow> tx_type \<Rightarrow> string \<Rightarrow> bool \<Rightarrow> string option \<Rightarrow> string option \<Rightarrow> ledger_db
    \<Rightarrow> wallet_tx ledger_result" where
  "execute_transaction env uid amount kind key is_credit reference reason s =
     (case find_by_idempotency_key key s of
        Some tx \<Rightarrow> (Inr tx, s)
      | None \<Rightarrow> (case wallet_of uid s of
          None \<Rightarrow> (Inl (raise_with SMMWalletError ''Wallet not found.''), s)
        | Some w \<Rightarrow>
            if amount \<le> 0
            then (Inl (raise_with SMMWalletError ''Transaction amount must be greater than zero.''), s)
            else
              let before = wl_balance w; after = (if is_credit then before + amount else before - amount)
              in if \<not> is_credit \<and> after < 0 then (Inl (insufficient env amount before), s)
                 else
                   let tx = \<lparr>tx_id = le_uuid env, tx_wallet = wl_id w, tx_kind = kind, tx_amount = amount,
                             tx_before = before, tx_after = after, tx_key = key, tx_reference = reference,
                             tx_reason = reason, tx_at = le_now env\<rparr>
                   in (Inr tx,
                       s\<lparr>lg_wallets := upd_by wl_user uid (\<lambda>w. w\<lparr>wl_balance := after\<rparr>) (lg_wallets s),
                         lg_txs := lg_txs s @ [tx]\<rparr>)))"

definition ledger_credit ::
  "ledger_env \<Rightarrow> int \<Rightarrow> rat \<Rightarrow> tx_type \<Rightarrow> string \<Rightarrow> string option \<Rightarrow> string option \<Rightarrow> ledger_db
    \<Rightarrow> wallet_tx ledger_result" where
  "ledger_credit env uid amount kind key reference reason s =
     execute_transaction env uid amount kind key True reference reason s"

definition ledger_debit ::
  "ledger_env \<Rightarrow> int \<Rightarrow> rat \<Rightarrow> tx_type \<Rightarrow> string \<Rightarrow> string option \<Rightarrow> string option \<Rightarrow> ledger_db
    \<Rightarrow> wallet_tx ledger_result" where
  "ledger_debit env uid amount kind key reference reason s =
     execute_transaction env uid amount kind key False reference reason s"

definition txs_of :: "int \<Rightarrow> ledger_db \<Rightarrow> wallet_tx list" where
  "txs_of wid s = filter (\<lambda>t. tx_wallet t = wid) (lg_txs s)"

text \<open>Valid or not, the balance, and the sum of the amounts of all transactions.\<close>

definition verify_ledger_invariant :: "int \<Rightarrow> ledger_db \<Rightarrow> bool \<times> rat \<times> rat" where
  "verify_ledger_invariant uid s =
     (case wallet_of uid s of
        None \<Rightarrow> (False, 0, 0)
      | Some w \<Rightarrow> let computed = sum_list (map tx_amount (txs_of (wl_id w) s))
                  in (wl_balance w = computed, wl_balance w, computed))"

section \<open>Histories\<close>

record ledger_request =
  lr_env :: ledger_env
  lr_user :: int
  lr_amount :: rat
  lr_kind :: tx_type
  lr_key :: string
  lr_credit :: bool
  lr_reference :: "string option"
  lr_reason :: "string option"

definition ledger_step :: "ledger_request \<Rightarrow> ledger_db \<Rightarrow> ledger_db" where
  "ledger_step q s = snd (execute_transaction (lr_env q) (lr_user q) (lr_amount q) (lr_kind q) (lr_key q)
     (lr_credit q) (lr_reference q) (lr_reason q) s)"

definition ledger_run :: "ledger_request list \<Rightarrow> ledger_db \<Rightarrow> ledger_db" where
  "ledger_run = fold ledger_step"

text \<open>The transactions lead from one balance to another, each by its amount up or down.\<close>

fun chain :: "rat \<Rightarrow> wallet_tx list \<Rightarrow> rat \<Rightarrow> bool" where
  "chain a [] b \<longleftrightarrow> a = b"
| "chain a (t # ts) b \<longleftrightarrow> tx_before t = a \<and> 0 < tx_amount t \<and> 0 \<le> tx_after t \<and>
     (tx_after t = a + tx_amount t \<or> tx_after t = a - tx_amount t) \<and> chain (tx_after t) ts b"

definition ledger_inv :: "ledger_db \<Rightarrow> bool" where
  "ledger_inv s \<longleftrightarrow> distinct (map wl_user (lg_wallets s)) \<and> distinct (map wl_id (lg_wallets s)) \<and>
     distinct (map tx_key (lg_txs s)) \<and>
     (\<forall>w \<in> set (lg_wallets s). 0 \<le> wl_balance w \<and> chain 0 (txs_of (wl_id w) s) (wl_balance w))"

text \<open>Wallets as they are opened: empty, and no transaction yet.\<close>

definition opened :: "int list \<Rightarrow> ledger_db" where
  "opened uids = \<lparr>lg_wallets = map (\<lambda>u. \<lparr>wl_id = u, wl_user = u, wl_balance = 0\<rparr>) uids, lg_txs = []\<rparr>"

lemma ledger_inv_opened: "distinct uids \<Longrightarrow> ledger_inv (opened uids)"
  by (auto simp: ledger_inv_def opened_def txs_of_def comp_def)

lemma chain_snoc: "chain a (ts @ [t]) b \<longleftrightarrow> (\<exists>c. chain a ts c \<and> chain c [t] b)"
  by (induction ts arbitrary: a) auto

lemma execute_cases:
  obtains (same) "snd (execute_transaction env uid amount kind key cr ref why s) = s"
  | (booked) w tx where "wallet_of uid s = Some w" "0 < amount" "find_by_idempotency_key key s = None"
      "tx_wallet tx = wl_id w" "tx_amount tx = amount" "tx_before tx = wl_balance w" "tx_key tx = key"
      "tx_after tx = (if cr then wl_balance w + amount else wl_balance w - amount)" "cr \<or> 0 \<le> tx_after tx"
      "execute_transaction env uid amount kind key cr ref why s = (Inr tx,
         s\<lparr>lg_wallets := upd_by wl_user uid (\<lambda>w. w\<lparr>wl_balance := tx_after tx\<rparr>) (lg_wallets s), lg_txs := lg_txs s @ [tx]\<rparr>)"
proof -
  show ?thesis
  proof (cases "find_by_idempotency_key key s = None \<and> (\<exists>w. wallet_of uid s = Some w \<and> 0 < amount \<and>
      (cr \<or> amount \<le> wl_balance w))")
    case True
    then obtain w where w: "wallet_of uid s = Some w" "0 < amount" "cr \<or> amount \<le> wl_balance w"
      and k: "find_by_idempotency_key key s = None" by blast
    let ?a = "if cr then wl_balance w + amount else wl_balance w - amount"
    let ?tx = "\<lparr>tx_id = le_uuid env, tx_wallet = wl_id w, tx_kind = kind, tx_amount = amount,
        tx_before = wl_balance w, tx_after = ?a, tx_key = key, tx_reference = ref, tx_reason = why, tx_at = le_now env\<rparr>"
    have "execute_transaction env uid amount kind key cr ref why s = (Inr ?tx,
         s\<lparr>lg_wallets := upd_by wl_user uid (\<lambda>w. w\<lparr>wl_balance := ?a\<rparr>) (lg_wallets s), lg_txs := lg_txs s @ [?tx]\<rparr>)"
      using w k by (auto simp: execute_transaction_def Let_def)
    then show ?thesis using w k by (intro booked [of w ?tx]) auto
  next
    case False
    then have "snd (execute_transaction env uid amount kind key cr ref why s) = s"
      by (auto simp: execute_transaction_def Let_def split: option.split)
    then show ?thesis by (rule same)
  qed
qed

lemma execute_keeps:
  assumes "ledger_inv s" shows "ledger_inv (snd (execute_transaction env uid amount kind key cr ref why s))"
proof (cases rule: execute_cases [of env uid amount kind key cr ref why s])
  case same
  then show ?thesis using assms by simp
next
  case (booked w tx)
  let ?s = "snd (execute_transaction env uid amount kind key cr ref why s)"
  have s': "lg_wallets ?s = upd_by wl_user uid (\<lambda>w. w\<lparr>wl_balance := tx_after tx\<rparr>) (lg_wallets s)" "lg_txs ?s = lg_txs s @ [tx]"
    using booked by simp_all
  have w: "w \<in> set (lg_wallets s)" "wl_user w = uid" using booked(1) by (auto simp: wallet_of_def dest: find_by_Some)
  have only: "v = w" if "v \<in> set (lg_wallets s)" "wl_user v = uid \<or> wl_id v = wl_id w" for v
    using assms that w by (auto simp: ledger_inv_def distinct_map dest: inj_onD)
  have old: "0 \<le> wl_balance v \<and> chain 0 (txs_of (wl_id v) s) (wl_balance v)" if "v \<in> set (lg_wallets s)" for v
    using assms that by (simp add: ledger_inv_def)
  have after: "0 \<le> tx_after tx" using booked old [OF w(1)] by auto
  have grown: "txs_of (wl_id w) ?s = txs_of (wl_id w) s @ [tx]" using booked by (simp add: txs_of_def s')
  have new: "chain 0 (txs_of (wl_id w) ?s) (tx_after tx)"
    unfolding grown chain_snoc using old [OF w(1)] booked after by (intro exI [of _ "wl_balance w"]) auto
  have "0 \<le> wl_balance v \<and> chain 0 (txs_of (wl_id v) ?s) (wl_balance v)" if v: "v \<in> set (lg_wallets ?s)" for v
  proof (cases "v = w\<lparr>wl_balance := tx_after tx\<rparr>")
    case True
    then show ?thesis using after new by simp
  next
    case False
    then obtain u where u: "u \<in> set (lg_wallets s)" "v = u" "wl_user u \<noteq> uid"
      using v only by (auto simp: s' upd_by_def)
    then have "wl_id u \<noteq> wl_id w" using only w by blast
    then have "txs_of (wl_id u) ?s = txs_of (wl_id u) s" using booked by (simp add: txs_of_def s')
    then show ?thesis using old u by simp
  qed
  moreover have "distinct (map tx_key (lg_txs ?s))"
    using assms booked(3,7) by (auto simp: s' ledger_inv_def find_by_idempotency_key_def find_by_None)
  ultimately show ?thesis using assms by (simp add: ledger_inv_def s')
qed

lemma ledger_run_keeps: "ledger_inv s \<Longrightarrow> ledger_inv (ledger_run qs s)"
  by (induction qs arbitrary: s) (simp_all add: ledger_run_def ledger_step_def execute_keeps)

text \<open>
  C35: Whatever credits and debits are asked for, repeated and refused ones included, no balance is
  negative, no key is booked twice, and the transactions of every wallet lead from zero to its balance,
  each starting where the one before ended.
\<close>

theorem ledger_forms_chains:
  assumes "distinct uids" and "w \<in> set (lg_wallets (ledger_run qs (opened uids)))"
  shows "0 \<le> wl_balance w \<and> chain 0 (txs_of (wl_id w) (ledger_run qs (opened uids))) (wl_balance w) \<and>
    distinct (map tx_key (lg_txs (ledger_run qs (opened uids))))"
  using ledger_run_keeps [OF ledger_inv_opened [OF assms(1)], of qs] assms(2) by (simp add: ledger_inv_def)

definition sample_ledger_env :: ledger_env where
  "sample_ledger_env = \<lparr>le_now = 0, le_uuid = ''u'', le_rupees = (\<lambda>_. [])\<rparr>"

definition ledger_ask :: "rat \<Rightarrow> string \<Rightarrow> bool \<Rightarrow> ledger_request" where
  "ledger_ask amount key cr = \<lparr>lr_env = sample_ledger_env, lr_user = 7, lr_amount = amount, lr_kind = DEPOSIT,
     lr_key = key, lr_credit = cr, lr_reference = None, lr_reason = None\<rparr>"

lemma sample_ledger_run:
  "ledger_run [ledger_ask 100 ''a'' True, ledger_ask 30 ''b'' False, ledger_ask 30 ''b'' False] (opened [7]) =
     \<lparr>lg_wallets = [\<lparr>wl_id = 7, wl_user = 7, wl_balance = 70\<rparr>],
      lg_txs = [\<lparr>tx_id = ''u'', tx_wallet = 7, tx_kind = DEPOSIT, tx_amount = 100, tx_before = 0, tx_after = 100,
                 tx_key = ''a'', tx_reference = None, tx_reason = None, tx_at = 0\<rparr>,
                \<lparr>tx_id = ''u'', tx_wallet = 7, tx_kind = DEPOSIT, tx_amount = 30, tx_before = 100, tx_after = 70,
                 tx_key = ''b'', tx_reference = None, tx_reason = None, tx_at = 0\<rparr>]\<rparr>"
  by (simp add: ledger_run_def ledger_step_def ledger_ask_def sample_ledger_env_def execute_transaction_def
      opened_def find_by_idempotency_key_def wallet_of_def Let_def)

lemma ledger_forms_chains_witness:
  "\<exists>w. lg_wallets (ledger_run [ledger_ask 100 ''a'' True, ledger_ask 30 ''b'' False, ledger_ask 30 ''b'' False] (opened [7])) = [w] \<and>
     wl_balance w = 70 \<and>
     chain 0 (txs_of (wl_id w) (ledger_run [ledger_ask 100 ''a'' True, ledger_ask 30 ''b'' False, ledger_ask 30 ''b'' False] (opened [7]))) 70"
  using ledger_forms_chains [of "[7]" "\<lparr>wl_id = 7, wl_user = 7, wl_balance = 70\<rparr>"
      "[ledger_ask 100 ''a'' True, ledger_ask 30 ''b'' False, ledger_ask 30 ''b'' False]"]
  by (simp add: sample_ledger_run)

section \<open>The reconciler's check\<close>

definition debited :: "wallet_tx list \<Rightarrow> rat" where
  "debited ts = sum_list (map tx_amount (filter (\<lambda>t. tx_after t < tx_before t) ts))"

lemma chain_sum: "chain a ts b \<Longrightarrow> sum_list (map tx_amount ts) = b - a + 2 * debited ts"
proof (induction ts arbitrary: a)
  case (Cons t ts)
  then show ?case using Cons.IH [of "tx_after t"] by (auto simp: debited_def)
qed (simp add: debited_def)

lemma chain_amounts: "chain a ts b \<Longrightarrow> t \<in> set ts \<Longrightarrow> 0 < tx_amount t"
  by (induction ts arbitrary: a) auto

text \<open>
  The check of the daily reconciler compares the balance with the sum of the amounts, which are
  positive for debits too. In every history it is off by exactly twice what was debited, so it reports a
  violation for every wallet that ever paid anything, although the books are right.
\<close>

theorem ledger_check_counts_debits_twice:
  assumes "distinct uids" and "wallet_of uid (ledger_run qs (opened uids)) = Some w"
  shows "verify_ledger_invariant uid (ledger_run qs (opened uids)) =
    (\<not> list_ex (\<lambda>t. tx_after t < tx_before t) (txs_of (wl_id w) (ledger_run qs (opened uids))), wl_balance w,
     wl_balance w + 2 * debited (txs_of (wl_id w) (ledger_run qs (opened uids))))"
proof -
  let ?s = "ledger_run qs (opened uids)" and ?ts = "txs_of (wl_id w) (ledger_run qs (opened uids))"
  have "w \<in> set (lg_wallets ?s)" using assms(2) by (auto simp: wallet_of_def dest: find_by_Some)
  then have c: "chain 0 ?ts (wl_balance w)"
    using ledger_run_keeps [OF ledger_inv_opened [OF assms(1)], of qs] by (simp add: ledger_inv_def)
  have "0 \<le> sum_list (map tx_amount (filter P ?ts))" for P
    using chain_amounts [OF c] by (intro sum_list_nonneg) (auto intro: less_imp_le)
  moreover have "debited ?ts = 0 \<longleftrightarrow> \<not> list_ex (\<lambda>t. tx_after t < tx_before t) ?ts"
    unfolding debited_def using chain_amounts [OF c]
    by (subst sum_list_nonneg_eq_0_iff) (auto simp: list_ex_iff intro: less_imp_le, metis less_irrefl)
  ultimately show ?thesis using assms(2) chain_sum [OF c] by (auto simp: verify_ledger_invariant_def Let_def)
qed

lemma ledger_check_counts_debits_twice_witness:
  "verify_ledger_invariant 7 (ledger_run [ledger_ask 100 ''a'' True, ledger_ask 30 ''b'' False, ledger_ask 30 ''b'' False] (opened [7]))
     = (False, 70, 130)"
  using ledger_check_counts_debits_twice [of "[7]" 7
      "[ledger_ask 100 ''a'' True, ledger_ask 30 ''b'' False, ledger_ask 30 ''b'' False]"]
  by (simp add: sample_ledger_run wallet_of_def txs_of_def debited_def)

end
