(* ===== verification/Quantize.thy ===== *)
theory Quantize
  imports PyFloat
begin

text \<open>
  \<open>Decimal.quantize\<close> on finite values, as the second generation rounds amounts.
\<close>

text \<open>\<open>quantize\<close> to \<open>n\<close> decimals, half to even. The products and sums in the program stay below 28 digits, so they are exact.\<close>

definition quant :: "nat \<Rightarrow> rat \<Rightarrow> rat" where
  "quant n x = of_int (round_half_even (x * 10 ^ n)) / 10 ^ n"

lemma quant_mono: "x \<le> y \<Longrightarrow> quant n x \<le> quant n y"
  unfolding quant_def by (intro divide_right_mono) (simp_all add: round_half_even_mono mult_right_mono)

lemma quant_idem: "quant n (quant n x) = quant n x"
  by (simp add: quant_def round_half_even_of_int)

lemma quant_of_int: "quant n (of_int i) = of_int i"
  using round_half_even_of_int [of "i * 10 ^ n"] by (simp add: quant_def)

lemma quant_0 [simp]: "quant n 0 = 0"
  using quant_of_int [of n 0] by simp

lemma quant_nonneg: "0 \<le> x \<Longrightarrow> 0 \<le> quant n x"
  using quant_mono [of 0 x n] by simp

lemma quant_whole: "quant n (numeral k) = numeral k" "quant n 1 = 1"
  using quant_of_int [of n "numeral k"] quant_of_int [of n 1] by simp_all

end
