(* ===== verification/PriceEngine.thy ===== *)
theory PriceEngine
  imports Platform Quantize
begin

text \<open>
  \<open>app/pricing/engine.py\<close>: the price of an order in the second generation. Amounts are exact decimals,
  rounded where the code quantizes, and not to the 28 digits of the decimal context; the exchange rate is an argument. The texts of the audit trail are
  left out. The lemmas show how far discounts can move a price, and when they move it up.
\<close>

section \<open>Rows\<close>

record smm_svc =
  sv_id :: int
  sv_public_id :: string
  sv_category :: int
  sv_custom_price :: "rat option"
  sv_profit_pct :: "rat option"
  sv_is_active :: bool
  sv_ordering :: bool
  sv_requires_premium :: bool

record smm_category =
  ct_id :: int
  ct_profit_pct :: "rat option"

record pricing_rule =
  pu_id :: int
  pu_scope :: string
  pu_value :: rat
  pu_min_margin :: rat
  pu_is_active :: bool

record pricing_db =
  pd_categories :: "smm_category list"
  pd_rules :: "pricing_rule list"

record price_result =
  pc_price :: rat
  pc_cost :: rat
  pc_floor :: rat
  pc_applied_pct :: rat
  pc_custom :: bool
  pc_reseller_capped :: bool
  pc_coupon_capped :: bool
  pc_premium_capped :: bool
  pc_standard :: rat

definition DEFAULT_MIN_MARGIN :: rat where "DEFAULT_MIN_MARGIN = 5"

section \<open>Markup\<close>

text \<open>Markup, least margin and where they come from; two active global rules are too many for the query.\<close>

definition global_markup :: "pricing_db \<Rightarrow> smm_exn + rat \<times> rat \<times> string" where
  "global_markup s =
     (case filter (\<lambda>u. pu_scope u = ''global'' \<and> pu_is_active u) (pd_rules s) of
        [] \<Rightarrow> Inr (20, DEFAULT_MIN_MARGIN, ''default'')
      | [u] \<Rightarrow> Inr (pu_value u, pu_min_margin u, ''global_rule'')
      | _ \<Rightarrow> Inl (Py ''MultipleResultsFound''))"

definition resolve_markup :: "pricing_db \<Rightarrow> smm_svc \<Rightarrow> smm_exn + rat \<times> rat \<times> string" where
  "resolve_markup s svc =
     (case sv_profit_pct svc of
        Some p \<Rightarrow> Inr (p, DEFAULT_MIN_MARGIN, ''service'')
      | None \<Rightarrow>
          (case (if sv_category svc = 0 then None
                 else Option.bind (find_by ct_id (sv_category svc) (pd_categories s)) ct_profit_pct) of
             Some p \<Rightarrow> Inr (p, DEFAULT_MIN_MARGIN, ''category'')
           | None \<Rightarrow> global_markup s))"

section \<open>Price\<close>

definition scaled :: "rat \<Rightarrow> int \<Rightarrow> rat" where
  "scaled per_1000 quantity = per_1000 * of_int quantity / 1000"

text \<open>One discount: what remains, or the floor if that is more.\<close>

definition capped :: "rat \<Rightarrow> rat \<Rightarrow> rat \<times> bool" where
  "capped floor_price after = (if after < floor_price then (floor_price, True) else (after, False))"

definition percent_off :: "rat \<Rightarrow> rat option \<Rightarrow> rat \<Rightarrow> rat \<times> bool" where
  "percent_off floor_price pct price =
     (case pct of
        Some p \<Rightarrow> if 0 < p then capped floor_price (quant 2 (price * (1 - p / 100))) else (price, False)
      | None \<Rightarrow> (price, False))"

definition flat_off :: "rat \<Rightarrow> rat option \<Rightarrow> rat \<Rightarrow> rat \<times> bool" where
  "flat_off floor_price flat price =
     (case flat of
        Some c \<Rightarrow> if 0 < c then capped floor_price (quant 2 (price - c)) else (price, False)
      | None \<Rightarrow> (price, False))"

text \<open>Premium first, then reseller, then coupon: the price, and which of them met the floor.\<close>

definition discounted :: "rat \<Rightarrow> rat option \<Rightarrow> rat option \<Rightarrow> rat option \<Rightarrow> rat \<Rightarrow> rat \<times> bool \<times> bool \<times> bool" where
  "discounted floor_price premium_pct reseller_pct coupon_flat standard =
     (let (p1, premium_capped) = percent_off floor_price premium_pct standard;
          (p2, reseller_capped) = percent_off floor_price reseller_pct p1;
          (p3, coupon_capped) = flat_off floor_price coupon_flat p2
      in (p3, premium_capped, reseller_capped, coupon_capped))"

definition cost_per_1000 :: "rat \<Rightarrow> string \<Rightarrow> rat \<Rightarrow> rat" where
  "cost_per_1000 provider_rate currency usd_to_inr =
     quant 4 (if upper currency = ''USD'' then provider_rate * usd_to_inr else provider_rate)"

definition calculate_price ::
  "pricing_db \<Rightarrow> smm_svc \<Rightarrow> int \<Rightarrow> rat \<Rightarrow> string \<Rightarrow> rat \<Rightarrow> rat option \<Rightarrow> rat option \<Rightarrow> rat option
    \<Rightarrow> smm_exn + price_result" where
  "calculate_price s svc quantity provider_rate currency usd_to_inr reseller_pct coupon_flat premium_pct =
     (if quantity \<le> 0 then Inl (raise_with ValidationError ''Quantity must be greater than zero.'')
      else
        let per_1000 = cost_per_1000 provider_rate currency usd_to_inr;
            cost = quant 4 (scaled per_1000 quantity);
            custom = (case sv_custom_price svc of None \<Rightarrow> 0 | Some c \<Rightarrow> c)
        in if 0 < custom
           then let price = quant 2 (scaled custom quantity)
                in Inr \<lparr>pc_price = price, pc_cost = cost, pc_floor = quant 2 (cost * (1 + DEFAULT_MIN_MARGIN / 100)),
                        pc_applied_pct = 0, pc_custom = True, pc_reseller_capped = False,
                        pc_coupon_capped = False, pc_premium_capped = False, pc_standard = price\<rparr>
           else e_bind (resolve_markup s svc) (\<lambda>(markup, margin, scope).
             let standard = quant 2 (scaled (quant 4 (per_1000 * (1 + markup / 100))) quantity);
                 floor_price = quant 2 (cost * (1 + margin / 100));
                 (price, premium_capped, reseller_capped, coupon_capped) =
                   discounted floor_price premium_pct reseller_pct coupon_flat standard
             in Inr \<lparr>pc_price = price, pc_cost = cost, pc_floor = floor_price, pc_applied_pct = markup,
                     pc_custom = False, pc_reseller_capped = reseller_capped, pc_coupon_capped = coupon_capped,
                     pc_premium_capped = premium_capped, pc_standard = standard\<rparr>))"

definition verify_price_unchanged :: "rat \<Rightarrow> rat \<Rightarrow> rat option \<Rightarrow> bool" where
  "verify_price_unchanged original recalculated tolerance \<longleftrightarrow>
     \<bar>original - recalculated\<bar> \<le> (case tolerance of None \<Rightarrow> 1 / 100 | Some t \<Rightarrow> t)"

section \<open>How far discounts go\<close>

definition in_cents :: "rat \<Rightarrow> bool" where
  "in_cents x \<longleftrightarrow> quant 2 x = x"

lemma capped_bounds:
  assumes "after \<le> price" and "(q, c) = capped f after"
  shows "f \<le> q \<and> q \<le> max price f \<and> (c \<longrightarrow> q = f)"
  using assms by (auto simp: capped_def split: if_split_asm)

lemma off_price:
  assumes "in_cents price" and "0 \<le> price" and "0 \<le> d"
  shows "quant 2 (price - d) \<le> price"
  using quant_mono [of "price - d" price 2] assms by (simp add: in_cents_def)

text \<open>What a discount may do: bring the price to a value between the floor and where it was, or lift it to the floor.\<close>

definition fair_step :: "rat \<Rightarrow> rat \<Rightarrow> rat \<times> bool \<Rightarrow> bool" where
  "fair_step f price r \<longleftrightarrow> in_cents (fst r) \<and> min price f \<le> fst r \<and> fst r \<le> max price f \<and> (snd r \<longrightarrow> fst r = f)"

lemma fair_percent:
  assumes "in_cents price" and "in_cents f" and "0 \<le> price" shows "fair_step f price (percent_off f pct price)"
proof (cases "\<exists>p. pct = Some p \<and> 0 < p")
  case True
  then obtain p where p: "pct = Some p" "0 < p" by blast
  have "quant 2 (price - price * p / 100) \<le> price" by (rule off_price) (use assms p in simp_all)
  then have "quant 2 (price * (1 - p / 100)) \<le> price" by (simp add: algebra_simps)
  then show ?thesis using p assms by (auto simp: fair_step_def percent_off_def capped_def in_cents_def quant_idem)
next
  case False
  then show ?thesis using assms by (auto simp: fair_step_def percent_off_def split: option.split)
qed

lemma fair_flat:
  assumes "in_cents price" and "in_cents f" and "0 \<le> price" shows "fair_step f price (flat_off f flat price)"
proof (cases "\<exists>c. flat = Some c \<and> 0 < c")
  case True
  then obtain c where c: "flat = Some c" "0 < c" by blast
  have "quant 2 (price - c) \<le> price" by (rule off_price) (use assms c in simp_all)
  then show ?thesis using c assms by (auto simp: fair_step_def flat_off_def capped_def in_cents_def quant_idem)
next
  case False
  then show ?thesis using assms by (auto simp: fair_step_def flat_off_def split: option.split)
qed

lemma fair_trans:
  assumes "fair_step f a r" and "fair_step f (fst r) t" shows "fair_step f a t"
  using assms by (auto simp: fair_step_def min_def max_def split: if_split_asm)

lemma discounted_fair:
  assumes "in_cents std" and "in_cents f" and "0 \<le> std" and "0 \<le> f"
    and "discounted f premium_pct reseller_pct coupon_flat std = (price, a, b, c)"
  shows "fair_step f std (price, c)"
proof -
  obtain p1 p2 where steps: "percent_off f premium_pct std = (p1, a)" "percent_off f reseller_pct p1 = (p2, b)"
    "flat_off f coupon_flat p2 = (price, c)"
    using assms(5) by (auto simp: discounted_def split: prod.split_asm)
  have "fair_step f std (p1, a)" using fair_percent [OF assms(1-3)] steps(1) by metis
  then have 1: "fair_step f std (p1, a)" "in_cents p1" "0 \<le> p1" using assms(3,4) by (auto simp: fair_step_def)
  have "fair_step f p1 (p2, b)" using fair_percent [OF 1(2) assms(2) 1(3)] steps(2) by metis
  then have 2: "fair_step f p1 (p2, b)" "in_cents p2" "0 \<le> p2" using 1(3) assms(4) by (auto simp: fair_step_def)
  have "fair_step f p2 (price, c)" using fair_flat [OF 2(2) assms(2) 2(3)] steps(3) by metis
  with fair_trans [OF 1(1)] fair_trans [of f p1 "(p2, b)"] 2(1) show ?thesis by simp
qed

lemma calculate_cases:
  assumes "calculate_price s svc quantity provider_rate currency usd_to_inr reseller_pct coupon_flat premium_pct = Inr r"
    and "\<not> pc_custom r"
  shows "in_cents (pc_standard r) \<and> in_cents (pc_floor r) \<and> (\<exists>a b.
    discounted (pc_floor r) premium_pct reseller_pct coupon_flat (pc_standard r) = (pc_price r, a, b, pc_coupon_capped r))"
  using assms by (auto simp: calculate_price_def Let_def in_cents_def quant_idem case_prod_beta prod_eq_iff split: if_split_asm)

text \<open>
  C36: Whatever premium, reseller and coupon discounts are combined, the price stays between the standard
  price and the margin floor: it is below neither of the two's smaller, and above neither's greater. A
  price that a discount would have taken lower is exactly the floor.
\<close>

theorem discounts_keep_floor:
  assumes "calculate_price s svc quantity provider_rate currency usd_to_inr reseller_pct coupon_flat premium_pct = Inr r"
    and "\<not> pc_custom r" and "0 \<le> pc_standard r" and "0 \<le> pc_floor r"
  shows "min (pc_standard r) (pc_floor r) \<le> pc_price r \<and> pc_price r \<le> max (pc_standard r) (pc_floor r) \<and>
    (pc_coupon_capped r \<longrightarrow> pc_price r = pc_floor r)"
proof -
  obtain a b where "discounted (pc_floor r) premium_pct reseller_pct coupon_flat (pc_standard r) = (pc_price r, a, b, pc_coupon_capped r)"
    and "in_cents (pc_standard r)" and "in_cents (pc_floor r)"
    using calculate_cases [OF assms(1,2)] by blast
  then have "fair_step (pc_floor r) (pc_standard r) (pc_price r, pc_coupon_capped r)"
    using discounted_fair assms(3,4) by blast
  then show ?thesis by (simp add: fair_step_def)
qed

definition sample_svc :: smm_svc where
  "sample_svc = \<lparr>sv_id = 1, sv_public_id = ''S1'', sv_category = 0, sv_custom_price = None, sv_profit_pct = Some 20,
     sv_is_active = True, sv_ordering = True, sv_requires_premium = False\<rparr>"

definition no_rules :: pricing_db where
  "no_rules = \<lparr>pd_categories = [], pd_rules = []\<rparr>"

lemmas price_eval = calculate_price_def resolve_markup_def cost_per_1000_def scaled_def discounted_def percent_off_def
  flat_off_def capped_def no_rules_def sample_svc_def DEFAULT_MIN_MARGIN_def upper_def upper_char_def quant_whole Let_def

lemma sample_price:
  "calculate_price no_rules sample_svc 1000 1 ''USD'' 80 None (Some 50) (Some 50) =
     Inr \<lparr>pc_price = 84, pc_cost = 80, pc_floor = 84, pc_applied_pct = 20, pc_custom = False, pc_reseller_capped = False,
          pc_coupon_capped = True, pc_premium_capped = True, pc_standard = 96\<rparr>"
  by (simp add: price_eval)

lemma discounts_keep_floor_witness:
  "\<exists>r. calculate_price no_rules sample_svc 1000 1 ''USD'' 80 None (Some 50) (Some 50) = Inr r \<and>
     pc_floor r \<le> pc_price r \<and> pc_price r \<le> pc_standard r"
  using discounts_keep_floor [OF sample_price] sample_price by simp

section \<open>Discounts that raise a price\<close>

text \<open>
  If the markup is below the least margin, a discount raises the price: with any premium discount the
  customer pays the floor, which is more than the standard price that others pay.
\<close>

theorem discount_can_raise_price:
  assumes "calculate_price s svc quantity provider_rate currency usd_to_inr None None (Some p) = Inr r"
    and "\<not> pc_custom r" and "0 < p" and "0 \<le> pc_standard r" and "pc_standard r < pc_floor r"
  shows "pc_price r = pc_floor r \<and>
    (\<exists>plain. calculate_price s svc quantity provider_rate currency usd_to_inr None None None = Inr plain \<and>
       pc_price plain = pc_standard r \<and> pc_price plain < pc_price r)"
proof -
  have cents: "in_cents (pc_standard r)"
    and step: "pc_price r = fst (percent_off (pc_floor r) (Some p) (pc_standard r))"
    using calculate_cases [OF assms(1,2)]
    by (auto simp: discounted_def percent_off_def flat_off_def split: if_split_asm prod.split_asm)
  have "quant 2 (pc_standard r - pc_standard r * p / 100) \<le> pc_standard r"
    by (rule off_price [OF cents assms(4)]) (use assms(3,4) in simp)
  then have "quant 2 (pc_standard r * (1 - p / 100)) < pc_floor r" using assms(5) by (simp add: algebra_simps)
  then have price: "pc_price r = pc_floor r" using step assms(3) by (simp add: percent_off_def capped_def)
  have "\<exists>plain. calculate_price s svc quantity provider_rate currency usd_to_inr None None None = Inr plain \<and>
      pc_price plain = pc_standard r"
    using assms(1,2)
    by (auto simp: calculate_price_def Let_def discounted_def percent_off_def flat_off_def case_prod_beta split: if_split_asm)
  then show ?thesis using price assms(5) by auto
qed

definition thin_svc :: smm_svc where
  "thin_svc = sample_svc\<lparr>sv_profit_pct := Some 2\<rparr>"

lemma thin_price:
  "calculate_price no_rules thin_svc 1000 1 ''USD'' 100 None None (Some 50) =
     Inr \<lparr>pc_price = 105, pc_cost = 100, pc_floor = 105, pc_applied_pct = 2, pc_custom = False, pc_reseller_capped = False,
          pc_coupon_capped = False, pc_premium_capped = True, pc_standard = 102\<rparr>"
  by (simp add: price_eval thin_svc_def)

lemma discount_can_raise_price_witness:
  "\<exists>plain. calculate_price no_rules thin_svc 1000 1 ''USD'' 100 None None None = Inr plain \<and> pc_price plain < 105"
  using discount_can_raise_price [OF thin_price] by auto

text \<open>
  Two active global rules stop every sale that relies on them: the rule query expects at most one row,
  so instead of taking the most recent rule the price calculation raises.
\<close>

theorem two_global_rules_stop_sales:
  assumes "length (filter (\<lambda>u. pu_scope u = ''global'' \<and> pu_is_active u) (pd_rules s)) \<ge> 2"
    and "sv_profit_pct svc = None" and "find_by ct_id (sv_category svc) (pd_categories s) = None"
    and "sv_custom_price svc = None" and "0 < quantity"
  shows "calculate_price s svc quantity provider_rate currency usd_to_inr reseller_pct coupon_flat premium_pct
    = Inl (Py ''MultipleResultsFound'')"
proof -
  have "global_markup s = Inl (Py ''MultipleResultsFound'')"
    using assms(1) by (auto simp: global_markup_def split: list.split)
  then show ?thesis using assms by (simp add: calculate_price_def resolve_markup_def Let_def)
qed

lemma two_global_rules_stop_sales_witness:
  "calculate_price (no_rules\<lparr>pd_rules := replicate 2 \<lparr>pu_id = 1, pu_scope = ''global'', pu_value = 20, pu_min_margin = 5,
      pu_is_active = True\<rparr>\<rparr>) (sample_svc\<lparr>sv_profit_pct := None\<rparr>) 100 1 ''USD'' 80 None None None
    = Inl (Py ''MultipleResultsFound'')"
  by (rule two_global_rules_stop_sales) (simp_all add: no_rules_def sample_svc_def)

end
