(* ===== verification/Premium.thy ===== *)
theory Premium
  imports Platform Quantize
begin

text \<open>
  \<open>app/premium/service.py\<close> and \<open>app/premium/integration.py\<close>: subscriptions and what they allow. An operation
  gives its result and the rows of the session, also when it raises; times are microseconds. The lemmas
  show that, as long as nobody is granted a lower plan than the present one, a user has at most one
  active subscription and the flag of the user says so; and what a lower grant does.
\<close>

section \<open>Plans and rows\<close>

record plan_benefits =
  bf_max_qty :: int
  bf_discount_pct :: rat
  bf_rate_limit :: int
  bf_priority :: int
  bf_exclusive :: bool

definition PLAN_BENEFITS :: "(string \<times> plan_benefits) list" where
  "PLAN_BENEFITS =
     [(''basic'', \<lparr>bf_max_qty = 10000, bf_discount_pct = 0, bf_rate_limit = 60, bf_priority = 3, bf_exclusive = False\<rparr>),
      (''premium'', \<lparr>bf_max_qty = 50000, bf_discount_pct = 10, bf_rate_limit = 120, bf_priority = 2, bf_exclusive = True\<rparr>),
      (''vip'', \<lparr>bf_max_qty = 200000, bf_discount_pct = 20, bf_rate_limit = 300, bf_priority = 1, bf_exclusive = True\<rparr>)]"

definition PLAN_DURATIONS :: "(string \<times> (string \<times> int) list) list" where
  "PLAN_DURATIONS = [(''premium'', [(''monthly'', 30), (''annual'', 365)]), (''vip'', [(''monthly'', 30), (''annual'', 365)])]"

definition plan_rank :: "string \<Rightarrow> int" where
  "plan_rank plan = (case map_of [(''basic'', 0), (''premium'', 1), (''vip'', 2)] plan of None \<Rightarrow> 0 | Some n \<Rightarrow> n)"

record premium_row =
  pm_id :: int
  pm_user :: int
  pm_plan :: string
  pm_status :: string
  pm_starts_at :: int
  pm_expires_at :: "int option"
  pm_payment_ref :: "string option"
  pm_auto_renew :: bool
  pm_cancelled_at :: "int option"
  pm_expired_at :: "int option"

text \<open>The subscriptions, and the users with their flag \<open>is_premium\<close>.\<close>

record premium_db =
  pb_premiums :: "premium_row list"
  pb_users :: "(int \<times> bool) list"
  pb_next :: int

type_synonym 'a premium_result = "(smm_exn + 'a) \<times> premium_db"

definition pb_bind :: "'a premium_result \<Rightarrow> ('a \<Rightarrow> premium_db \<Rightarrow> 'b premium_result) \<Rightarrow> 'b premium_result" where
  "pb_bind m f = (case m of (Inl e, s) \<Rightarrow> (Inl e, s) | (Inr x, s) \<Rightarrow> f x s)"

lemma pb_bind_simps [simp]: "pb_bind (Inl e, s) f = (Inl e, s)" "pb_bind (Inr x, s) f = f x s"
  by (simp_all add: pb_bind_def)

definition set_flag :: "int \<Rightarrow> bool \<Rightarrow> premium_db \<Rightarrow> premium_db" where
  "set_flag uid b s = s\<lparr>pb_users := map (\<lambda>(u, f). if u = uid then (u, b) else (u, f)) (pb_users s)\<rparr>"

definition update_premium :: "int \<Rightarrow> (premium_row \<Rightarrow> premium_row) \<Rightarrow> premium_db \<Rightarrow> premium_db" where
  "update_premium pid f s = s\<lparr>pb_premiums := upd_by pm_id pid f (pb_premiums s)\<rparr>"

section \<open>Reading\<close>

definition expire_premium :: "int \<Rightarrow> premium_row \<Rightarrow> premium_db \<Rightarrow> premium_db" where
  "expire_premium now r s =
     set_flag (pm_user r) False
       (update_premium (pm_id r) (\<lambda>r. r\<lparr>pm_status := ''expired'', pm_expired_at := Some now\<rparr>) s)"

definition active_of :: "int \<Rightarrow> premium_db \<Rightarrow> premium_row list" where
  "active_of uid s = filter (\<lambda>r. pm_user r = uid \<and> pm_status r = ''active'') (pb_premiums s)"

definition lapsed :: "int \<Rightarrow> premium_row \<Rightarrow> bool" where
  "lapsed now r \<longleftrightarrow> (case pm_expires_at r of None \<Rightarrow> False | Some t \<Rightarrow> t < now)"

text \<open>A subscription that has run out is marked on the way.\<close>

definition get_active_premium :: "int \<Rightarrow> int \<Rightarrow> premium_db \<Rightarrow> premium_row option premium_result" where
  "get_active_premium now uid s =
     (case active_of uid s of
        [] \<Rightarrow> (Inr None, s)
      | [r] \<Rightarrow> if lapsed now r then (Inr None, expire_premium now r s) else (Inr (Some r), s)
      | _ \<Rightarrow> (Inl (Py ''MultipleResultsFound''), s))"

definition get_plan :: "int \<Rightarrow> int \<Rightarrow> premium_db \<Rightarrow> string premium_result" where
  "get_plan now uid s =
     pb_bind (get_active_premium now uid s) (\<lambda>r s. (Inr (case r of None \<Rightarrow> ''basic'' | Some r \<Rightarrow> pm_plan r), s))"

definition get_benefits :: "int \<Rightarrow> int \<Rightarrow> premium_db \<Rightarrow> plan_benefits premium_result" where
  "get_benefits now uid s =
     pb_bind (get_plan now uid s) (\<lambda>plan s.
       case map_of PLAN_BENEFITS plan of None \<Rightarrow> (Inl (Py ''KeyError''), s) | Some b \<Rightarrow> (Inr b, s))"

definition get_premium_discount_pct :: "int \<Rightarrow> int \<Rightarrow> premium_db \<Rightarrow> rat premium_result" where
  "get_premium_discount_pct now uid s = pb_bind (get_benefits now uid s) (\<lambda>b s. (Inr (bf_discount_pct b), s))"

definition is_premium :: "int \<Rightarrow> int \<Rightarrow> premium_db \<Rightarrow> bool premium_result" where
  "is_premium now uid s = pb_bind (get_active_premium now uid s) (\<lambda>r s. (Inr (r \<noteq> None), s))"

definition can_access_exclusive_service :: "int \<Rightarrow> int \<Rightarrow> premium_db \<Rightarrow> bool premium_result" where
  "can_access_exclusive_service now uid s = pb_bind (get_benefits now uid s) (\<lambda>b s. (Inr (bf_exclusive b), s))"

definition get_max_quantity :: "int \<Rightarrow> int \<Rightarrow> premium_db \<Rightarrow> int premium_result" where
  "get_max_quantity now uid s = pb_bind (get_benefits now uid s) (\<lambda>b s. (Inr (bf_max_qty b), s))"

section \<open>Writing\<close>

definition days :: "int \<Rightarrow> int" where "days n = n * 86400 * 1000000"

definition new_premium :: "int \<Rightarrow> int \<Rightarrow> string \<Rightarrow> int \<Rightarrow> string option \<Rightarrow> bool \<Rightarrow> int \<Rightarrow> premium_row" where
  "new_premium now uid plan n ref auto pid =
     \<lparr>pm_id = pid, pm_user = uid, pm_plan = plan, pm_status = ''active'', pm_starts_at = now,
      pm_expires_at = Some (now + days n), pm_payment_ref = ref, pm_auto_renew = auto,
      pm_cancelled_at = None, pm_expired_at = None\<rparr>"

definition add_premium :: "premium_row \<Rightarrow> premium_db \<Rightarrow> premium_db" where
  "add_premium r s = set_flag (pm_user r) True (s\<lparr>pb_premiums := pb_premiums s @ [r], pb_next := pb_next s + 1\<rparr>)"

text \<open>The row refers to a user that exists.\<close>

definition insert_premium :: "premium_row \<Rightarrow> premium_db \<Rightarrow> premium_row premium_result" where
  "insert_premium r s =
     (if pm_user r \<in> fst ` set (pb_users s) then (Inr r, add_premium r s) else (Inl (Py ''IntegrityError''), s))"

definition extended :: "int \<Rightarrow> int \<Rightarrow> string option \<Rightarrow> bool \<Rightarrow> premium_row \<Rightarrow> premium_row" where
  "extended now n ref auto r =
     r\<lparr>pm_expires_at := Some ((case pm_expires_at r of None \<Rightarrow> now | Some t \<Rightarrow> max t now) + days n),
       pm_auto_renew := auto,
       pm_payment_ref := (case ref of None \<Rightarrow> pm_payment_ref r | Some p \<Rightarrow> if p = [] then pm_payment_ref r else Some p)\<rparr>"

definition cancelled :: "int \<Rightarrow> premium_row \<Rightarrow> premium_row" where
  "cancelled now r = r\<lparr>pm_status := ''cancelled'', pm_cancelled_at := Some now\<rparr>"

text \<open>
  The same plan is extended, a higher one replaces the present one; for a lower one the code only adds
  the new row.
\<close>

definition grant_premium ::
  "int \<Rightarrow> int \<Rightarrow> string \<Rightarrow> string \<Rightarrow> string option \<Rightarrow> bool \<Rightarrow> premium_db \<Rightarrow> premium_row premium_result" where
  "grant_premium now uid plan duration ref auto s =
     (if plan = ''basic'' then (Inl (raise_with ValidationError ''Basic is the default plan.''), s)
      else case Option.bind (map_of PLAN_DURATIONS plan) (\<lambda>d. map_of d duration) of
          None \<Rightarrow> (Inl (Py ''KeyError''), s)
        | Some n \<Rightarrow> pb_bind (get_active_premium now uid s) (\<lambda>existing s.
            let new = new_premium now uid plan n ref auto (pb_next s)
            in case existing of
                 None \<Rightarrow> insert_premium new s
               | Some r \<Rightarrow>
                   if pm_plan r = plan
                   then (Inr (extended now n ref auto r), update_premium (pm_id r) (extended now n ref auto) s)
                   else if plan_rank (pm_plan r) < plan_rank plan
                   then insert_premium new (update_premium (pm_id r) (cancelled now) s)
                   else insert_premium new s))"

definition revoke_premium :: "int \<Rightarrow> int \<Rightarrow> bool \<Rightarrow> premium_db \<Rightarrow> unit premium_result" where
  "revoke_premium now uid immediate s =
     pb_bind (get_active_premium now uid s) (\<lambda>existing s.
       case existing of
         None \<Rightarrow> (Inl (raise_with PremiumError ''User does not have an active premium subscription.''), s)
       | Some r \<Rightarrow>
           if immediate then (Inr (), set_flag uid False (update_premium (pm_id r) (cancelled now) s))
           else (Inr (), update_premium (pm_id r) (\<lambda>r. r\<lparr>pm_auto_renew := False\<rparr>) s))"

definition expire_all_lapsed :: "int \<Rightarrow> premium_db \<Rightarrow> nat \<times> premium_db" where
  "expire_all_lapsed now s =
     (let rows = filter (\<lambda>r. pm_status r = ''active'' \<and> lapsed now r) (pb_premiums s)
      in (length rows, fold (expire_premium now) rows s))"

section \<open>Orders\<close>

text \<open>An integer in the format \<open>:,\<close>.\<close>

fun comma_groups :: "nat \<Rightarrow> string" where
  "comma_groups n =
     (if n < 1000 then str_int (int n)
      else comma_groups (n div 1000) @ '','' @
        (if n mod 1000 < 10 then ''00'' else if n mod 1000 < 100 then ''0'' else []) @ str_int (int (n mod 1000)))"

declare comma_groups.simps [simp del]

definition grouped :: "int \<Rightarrow> string" where
  "grouped i = (if i < 0 then ''-'' else []) @ comma_groups (nat \<bar>i\<bar>)"

definition assert_can_order :: "int \<Rightarrow> int \<Rightarrow> int \<Rightarrow> bool \<Rightarrow> premium_db \<Rightarrow> unit premium_result" where
  "assert_can_order now uid quantity requires_premium s =
     pb_bind (get_benefits now uid s) (\<lambda>b s.
       if bf_max_qty b < quantity
       then pb_bind (get_plan now uid s) (\<lambda>plan s. (Inl (raise_with PremiumError
              (''Your plan allows a maximum of '' @ grouped (bf_max_qty b) @ '' units per order. '' @
               ''Upgrade to Premium for higher limits.'')), s))
       else if requires_premium
       then pb_bind (is_premium now uid s) (\<lambda>p s.
              if p then (Inr (), s)
              else (Inl (raise_with PremiumError ''This service is available to Premium members only.''), s))
       else (Inr (), s))"

record premium_terms =
  pt_discount_pct :: rat
  pt_priority :: int
  pt_plan :: string

definition apply_premium_to_order :: "int \<Rightarrow> int \<Rightarrow> bool \<Rightarrow> int \<Rightarrow> premium_db \<Rightarrow> premium_terms premium_result" where
  "apply_premium_to_order now uid requires_premium quantity s =
     pb_bind (assert_can_order now uid quantity requires_premium s) (\<lambda>_ s.
     pb_bind (get_premium_discount_pct now uid s) (\<lambda>pct s.
     pb_bind (get_plan now uid s) (\<lambda>plan s.
       case map_of PLAN_BENEFITS plan of
         None \<Rightarrow> (Inl (Py ''KeyError''), s)
       | Some b \<Rightarrow> (Inr \<lparr>pt_discount_pct = pct, pt_priority = bf_priority b, pt_plan = plan\<rparr>, s))))"

definition apply_premium_discount :: "rat \<Rightarrow> rat \<Rightarrow> rat \<Rightarrow> rat \<times> bool" where
  "apply_premium_discount base pct floor_price =
     (if pct \<le> 0 then (base, False)
      else let discounted = quant 2 (base * (1 - pct / 100))
           in if discounted < floor_price then (floor_price, True) else (discounted, False))"

section \<open>Histories\<close>

datatype premium_request =
    Grant string string "string option" bool
  | Revoke bool
  | Expire_all
  | Look_up

fun premium_step :: "int \<times> int \<times> premium_request \<Rightarrow> premium_db \<Rightarrow> premium_db" where
  "premium_step (now, uid, Grant plan duration ref auto) s = snd (grant_premium now uid plan duration ref auto s)"
| "premium_step (now, uid, Revoke immediate) s = snd (revoke_premium now uid immediate s)"
| "premium_step (now, uid, Expire_all) s = snd (expire_all_lapsed now s)"
| "premium_step (now, uid, Look_up) s = snd (get_active_premium now uid s)"

text \<open>A grant that is not below the plan the user has then.\<close>

fun no_downgrade :: "int \<times> int \<times> premium_request \<Rightarrow> premium_db \<Rightarrow> bool" where
  "no_downgrade (now, uid, Grant plan duration ref auto) s =
     list_all (\<lambda>r. lapsed now r \<or> pm_plan r = plan \<or> plan_rank (pm_plan r) < plan_rank plan) (active_of uid s)"
| "no_downgrade q s = True"

fun premium_run :: "(int \<times> int \<times> premium_request) list \<Rightarrow> premium_db \<Rightarrow> premium_db" where
  "premium_run [] s = s"
| "premium_run (q # qs) s = premium_run qs (premium_step q s)"

fun never_down :: "(int \<times> int \<times> premium_request) list \<Rightarrow> premium_db \<Rightarrow> bool" where
  "never_down [] s = True"
| "never_down (q # qs) s = (no_downgrade q s \<and> never_down qs (premium_step q s))"

text \<open>The flags of the users outside \<open>U\<close> say whether the user has an active subscription.\<close>

definition flags_ok :: "int set \<Rightarrow> premium_db \<Rightarrow> bool" where
  "flags_ok U s \<longleftrightarrow> (\<forall>(u, f) \<in> set (pb_users s). u \<notin> U \<longrightarrow> (f \<longleftrightarrow> active_of u s \<noteq> []))"

definition one_each :: "premium_db \<Rightarrow> bool" where
  "one_each s \<longleftrightarrow> distinct (map pm_id (pb_premiums s)) \<and> (\<forall>r \<in> set (pb_premiums s). pm_id r < pb_next s) \<and>
     (\<forall>u. length (active_of u s) \<le> 1)"

definition premium_inv :: "premium_db \<Rightarrow> bool" where
  "premium_inv s \<longleftrightarrow> one_each s \<and> flags_ok {} s"

section \<open>One subscription for each user\<close>

lemma users_set_flag [simp]: "pb_premiums (set_flag u b s) = pb_premiums s" "pb_next (set_flag u b s) = pb_next s"
  by (simp_all add: set_flag_def)

lemma active_set_flag [simp]: "active_of v (set_flag u b s) = active_of v s"
  by (simp add: active_of_def)

lemma update_premium_simps [simp]:
  "pb_premiums (update_premium i f s) = upd_by pm_id i f (pb_premiums s)"
  "pb_next (update_premium i f s) = pb_next s" "pb_users (update_premium i f s) = pb_users s"
  by (simp_all add: update_premium_def)

lemma flags_set_flag:
  "flags_ok {u} s \<Longrightarrow> b \<longleftrightarrow> active_of u s \<noteq> [] \<Longrightarrow> flags_ok {} (set_flag u b s)"
  unfolding flags_ok_def by (auto simp: set_flag_def active_of_def split: if_splits)

lemma one_each_set_flag [simp]: "one_each (set_flag u b s) = one_each s"
  by (simp add: one_each_def)

lemma flags_weaken: "flags_ok {} s \<Longrightarrow> flags_ok U s"
  by (auto simp: flags_ok_def)

text \<open>Ending a subscription.\<close>

definition ends :: "(premium_row \<Rightarrow> premium_row) \<Rightarrow> bool" where
  "ends f \<longleftrightarrow> (\<forall>r. pm_id (f r) = pm_id r \<and> pm_user (f r) = pm_user r \<and> pm_status (f r) \<noteq> ''active'')"

lemma active_end: "ends f \<Longrightarrow> active_of u (update_premium i f s) = filter (\<lambda>r. pm_id r \<noteq> i) (active_of u s)"
proof -
  assume "ends f"
  then have "filter (\<lambda>r. pm_user r = u \<and> pm_status r = ''active'') (upd_by pm_id i f rs)
    = filter (\<lambda>r. pm_id r \<noteq> i) (filter (\<lambda>r. pm_user r = u \<and> pm_status r = ''active'') rs)" for rs
    by (induction rs) (auto simp: ends_def)
  then show ?thesis by (simp add: active_of_def)
qed

lemma one_each_end:
  assumes "one_each s" and f: "ends f"
  shows "one_each (update_premium i f s)"
proof -
  have ids: "map pm_id (upd_by pm_id i f rs) = map pm_id rs" for rs
    by (rule map_key_upd_by) (use f in \<open>simp add: ends_def\<close>)
  then have "pm_id ` set (upd_by pm_id i f rs) = pm_id ` set rs" for rs
    by (metis list.set_map)
  then have "(\<forall>r \<in> set (upd_by pm_id i f rs). pm_id r < n) \<longleftrightarrow> (\<forall>r \<in> set rs. pm_id r < n)" for rs n
    by (metis (no_types, opaque_lifting) imageE imageI)
  moreover have "length (active_of u (update_premium i f s)) \<le> 1" for u
    using assms(1) by (simp add: active_end [OF f] one_each_def order_trans [OF length_filter_le])
  ultimately show ?thesis using assms(1) by (simp add: one_each_def ids)
qed

lemma same_id: "distinct (map key rs) \<Longrightarrow> x \<in> set rs \<Longrightarrow> y \<in> set rs \<Longrightarrow> key x = key y \<Longrightarrow> x = y"
  by (simp add: distinct_map inj_on_def)

lemma flags_end:
  assumes "flags_ok {} s" and "ends f" and r: "r \<in> set (pb_premiums s)" and d: "distinct (map pm_id (pb_premiums s))"
  shows "flags_ok {pm_user r} (update_premium (pm_id r) f s)"
proof -
  have "filter (\<lambda>x. pm_id x \<noteq> pm_id r) (active_of u s) = active_of u s" if "u \<noteq> pm_user r" for u
  proof (rule filter_True, rule ballI)
    fix x assume "x \<in> set (active_of u s)"
    then have "x \<in> set (pb_premiums s)" "pm_user x = u" by (auto simp: active_of_def)
    then show "pm_id x \<noteq> pm_id r" using same_id [OF d _ r] that by blast
  qed
  then show ?thesis using assms(1,2) by (auto simp: flags_ok_def active_end)
qed

lemma ends_expired [simp]: "ends (\<lambda>r. r\<lparr>pm_status := ''expired'', pm_expired_at := t\<rparr>)"
  by (simp add: ends_def)

lemma ends_cancelled [simp]: "ends (cancelled now)"
  by (simp add: ends_def cancelled_def)

lemma active_single:
  "one_each s \<Longrightarrow> active_of u s = [] \<or> (\<exists>r. active_of u s = [r])"
  by (metis One_nat_def le_Suc_eq le_zero_eq length_0_conv length_Suc_conv one_each_def)

lemma active_member: "r \<in> set (active_of u s) \<Longrightarrow> r \<in> set (pb_premiums s) \<and> pm_user r = u \<and> pm_status r = ''active''"
  by (auto simp: active_of_def)

lemma active_after_end:
  assumes "one_each s" "ends f" "r \<in> set (active_of u s)"
  shows "active_of u (update_premium (pm_id r) f s) = []"
  using active_single [OF assms(1), of u] assms(2,3) by (auto simp: active_end)

lemma end_keeps:
  assumes inv: "premium_inv s" and f: "ends f" and r: "r \<in> set (pb_premiums s)" "pm_status r = ''active''"
  shows "premium_inv (set_flag (pm_user r) False (update_premium (pm_id r) f s))"
proof -
  have "r \<in> set (active_of (pm_user r) s)" using r by (simp add: active_of_def)
  then have "active_of (pm_user r) (update_premium (pm_id r) f s) = []"
    using active_after_end inv f by (simp add: premium_inv_def)
  moreover have "flags_ok {pm_user r} (update_premium (pm_id r) f s)"
    using inv f r by (intro flags_end) (simp_all add: premium_inv_def one_each_def)
  ultimately show ?thesis
    using inv f by (simp add: premium_inv_def one_each_end flags_set_flag)
qed

lemma expire_keeps: "premium_inv s \<Longrightarrow> r \<in> set (pb_premiums s) \<Longrightarrow> pm_status r = ''active'' \<Longrightarrow> premium_inv (expire_premium now r s)"
  by (simp add: expire_premium_def end_keeps)

text \<open>A change that leaves the key, the user and the status.\<close>

lemma change_keeps:
  assumes inv: "premium_inv s" and f: "\<And>r. pm_id (f r) = pm_id r \<and> pm_user (f r) = pm_user r \<and> pm_status (f r) = pm_status r"
  shows "premium_inv (update_premium i f s)"
proof -
  have act: "active_of u (update_premium i f s) = upd_by pm_id i f (active_of u s)" for u
  proof -
    have "filter (\<lambda>r. pm_user r = u \<and> pm_status r = ''active'') (upd_by pm_id i f rs)
      = upd_by pm_id i f (filter (\<lambda>r. pm_user r = u \<and> pm_status r = ''active'') rs)" for rs
      by (induction rs) (auto simp: f)
    then show ?thesis by (simp add: active_of_def)
  qed
  have ids: "map pm_id (upd_by pm_id i f rs) = map pm_id rs" for rs
    by (rule map_key_upd_by) (simp add: f)
  then have "pm_id ` set (upd_by pm_id i f rs) = pm_id ` set rs" for rs
    by (metis list.set_map)
  then have "(\<forall>r \<in> set (upd_by pm_id i f rs). pm_id r < n) \<longleftrightarrow> (\<forall>r \<in> set rs. pm_id r < n)" for rs n
    by (metis (no_types, opaque_lifting) imageE imageI)
  moreover have "length (upd_by pm_id i f rs) = length rs" "upd_by pm_id i f rs = [] \<longleftrightarrow> rs = []" for rs
    by (simp_all add: upd_by_def)
  ultimately show ?thesis using inv by (simp add: premium_inv_def one_each_def flags_ok_def act ids)
qed

lemma add_keeps:
  assumes one: "one_each s" and flags: "flags_ok {pm_user r} s" and none: "active_of (pm_user r) s = []"
    and r: "pm_id r = pb_next s" "pm_status r = ''active''"
  shows "premium_inv (add_premium r s)"
proof -
  let ?s = "s\<lparr>pb_premiums := pb_premiums s @ [r], pb_next := pb_next s + 1\<rparr>"
  have act: "active_of u ?s = active_of u s @ (if u = pm_user r then [r] else [])" for u
    using r by (simp add: active_of_def)
  have "one_each ?s"
  proof -
    have "pb_next s \<notin> pm_id ` set (pb_premiums s)" using one by (auto simp: one_each_def)
    moreover have "pm_id x < pb_next s + 1" if "x \<in> set (pb_premiums s)" for x
      using one that by (fastforce simp: one_each_def)
    moreover have "length (active_of u ?s) \<le> 1" for u
      using one none by (cases "u = pm_user r") (auto simp: act one_each_def)
    ultimately show ?thesis using one r by (simp add: one_each_def act)
  qed
  moreover have "flags_ok {pm_user r} ?s"
    using flags by (auto simp: flags_ok_def act)
  ultimately show ?thesis
    by (simp add: add_premium_def premium_inv_def flags_set_flag act)
qed

lemma lookup_cases:
  assumes "premium_inv s"
  obtains "get_active_premium now u s = (Inr None, s)" "active_of u s = []"
  | r where "active_of u s = [r]" "lapsed now r" "get_active_premium now u s = (Inr None, expire_premium now r s)"
      "active_of u (expire_premium now r s) = []"
  | r where "active_of u s = [r]" "\<not> lapsed now r" "get_active_premium now u s = (Inr (Some r), s)"
proof -
  have one: "one_each s" using assms by (simp add: premium_inv_def)
  consider "active_of u s = []" | r where "active_of u s = [r]" using active_single [OF one] by blast
  then show thesis
  proof cases
    case 1
    then show ?thesis using that(1) by (simp add: get_active_premium_def)
  next
    case (2 r)
    show ?thesis
    proof (cases "lapsed now r")
      case True
      have "active_of u (expire_premium now r s) = []"
        unfolding expire_premium_def using 2 by (simp add: active_after_end one)
      then show ?thesis using that(2) 2 True by (simp add: get_active_premium_def)
    next
      case False
      then show ?thesis using that(3) 2 by (simp add: get_active_premium_def)
    qed
  qed
qed

lemma single_member: "active_of u s = [r] \<Longrightarrow> r \<in> set (pb_premiums s) \<and> pm_user r = u \<and> pm_status r = ''active''"
  by (rule active_member) simp

lemma lookup_keeps:
  assumes "premium_inv s"
  shows "premium_inv (snd (get_active_premium now u s))"
  using assms by (rule lookup_cases [where now = now and u = u]) (auto simp: expire_keeps assms dest: single_member)

lemma insert_keeps:
  assumes "one_each s" "flags_ok {pm_user r} s" "active_of (pm_user r) s = []" "pm_id r = pb_next s" "pm_status r = ''active''"
  shows "premium_inv (snd (insert_premium r s))"
proof (cases "pm_user r \<in> fst ` set (pb_users s)")
  case True
  then show ?thesis using add_keeps assms by (simp add: insert_premium_def)
next
  case False
  then have "flags_ok {} s" using assms(2) by (force simp: flags_ok_def)
  then show ?thesis using False assms(1) by (simp add: insert_premium_def premium_inv_def)
qed

lemma new_premium_simps [simp]:
  "pm_id (new_premium now u plan n ref auto i) = i" "pm_user (new_premium now u plan n ref auto i) = u"
  "pm_status (new_premium now u plan n ref auto i) = ''active''"
  by (simp_all add: new_premium_def)

lemma insert_new_keeps:
  "premium_inv s \<Longrightarrow> active_of u s = [] \<Longrightarrow> premium_inv (snd (insert_premium (new_premium now u plan n ref auto (pb_next s)) s))"
  by (rule insert_keeps) (simp_all add: premium_inv_def flags_weaken)

lemma insert_upgrade_keeps:
  assumes inv: "premium_inv s" and r: "active_of u s = [r]"
  shows "premium_inv (snd (insert_premium (new_premium now u plan n ref auto (pb_next s)) (update_premium (pm_id r) (cancelled now) s)))"
proof (rule insert_keeps)
  have one: "one_each s" and flags: "flags_ok {} s" using inv by (auto simp: premium_inv_def)
  show "one_each (update_premium (pm_id r) (cancelled now) s)" using one by (simp add: one_each_end)
  have u: "pm_user r = u" and mem: "r \<in> set (pb_premiums s)" using single_member [OF r] by auto
  have "flags_ok {pm_user r} (update_premium (pm_id r) (cancelled now) s)"
    by (rule flags_end [OF flags _ mem]) (use one in \<open>auto simp: one_each_def\<close>)
  then show "flags_ok {pm_user (new_premium now u plan n ref auto (pb_next s))} (update_premium (pm_id r) (cancelled now) s)"
    by (simp add: u)
  show "active_of (pm_user (new_premium now u plan n ref auto (pb_next s))) (update_premium (pm_id r) (cancelled now) s) = []"
    using active_after_end [OF one ends_cancelled, of r u] r by simp
qed simp_all

lemma extended_keeps: "premium_inv s \<Longrightarrow> premium_inv (update_premium i (extended now n ref auto) s)"
  by (rule change_keeps) (simp_all add: extended_def)

lemma grant_keeps:
  assumes inv: "premium_inv s" and up: "no_downgrade (now, u, Grant plan duration ref auto) s"
  shows "premium_inv (snd (grant_premium now u plan duration ref auto s))"
proof (cases "plan = ''basic''")
  case True
  then show ?thesis using inv by (simp add: grant_premium_def)
next
  case plan: False
  show ?thesis
  proof (cases "Option.bind (map_of PLAN_DURATIONS plan) (\<lambda>d. map_of d duration)")
    case None
    then show ?thesis using plan inv by (simp add: grant_premium_def)
  next
    case (Some n)
    from inv show ?thesis
    proof (cases rule: lookup_cases [where now = now and u = u])
      case 1
      then show ?thesis using plan Some inv by (simp add: grant_premium_def insert_new_keeps Let_def)
    next
      case (2 r)
      then have "premium_inv (expire_premium now r s)" using expire_keeps inv single_member [OF 2(1)] by blast
      with 2 plan Some show ?thesis by (simp add: grant_premium_def insert_new_keeps Let_def)
    next
      case (3 r)
      then have "pm_plan r = plan \<or> plan_rank (pm_plan r) < plan_rank plan" using up by auto
      then show ?thesis
        using 3 plan Some inv insert_upgrade_keeps [OF inv 3(1)]
        by (auto simp: grant_premium_def Let_def extended_keeps)
    qed
  qed
qed

lemma revoke_keeps:
  assumes inv: "premium_inv s"
  shows "premium_inv (snd (revoke_premium now u immediate s))"
  using inv
proof (cases rule: lookup_cases [where now = now and u = u])
  case 1
  then show ?thesis using inv by (simp add: revoke_premium_def)
next
  case (2 r)
  then show ?thesis using expire_keeps inv single_member [OF 2(1)] by (simp add: revoke_premium_def)
next
  case (3 r)
  have r: "r \<in> set (pb_premiums s)" "pm_user r = u" "pm_status r = ''active''" using single_member [OF 3(1)] by auto
  have "premium_inv (set_flag u False (update_premium (pm_id r) (cancelled now) s))"
    using end_keeps [OF inv ends_cancelled r(1,3)] r(2) by simp
  moreover have "premium_inv (update_premium (pm_id r) (\<lambda>r. r\<lparr>pm_auto_renew := False\<rparr>) s)"
    by (rule change_keeps [OF inv]) simp
  ultimately show ?thesis using 3 by (simp add: revoke_premium_def)
qed

lemma expire_others:
  "x \<in> set (pb_premiums s) \<Longrightarrow> pm_id x \<noteq> pm_id r \<Longrightarrow> x \<in> set (pb_premiums (expire_premium now r s))"
  by (force simp: expire_premium_def upd_by_def image_iff)

lemma expire_loop:
  "premium_inv s \<Longrightarrow> distinct (map pm_id rows) \<Longrightarrow> set rows \<subseteq> set (pb_premiums s) \<Longrightarrow>
   list_all (\<lambda>r. pm_status r = ''active'') rows \<Longrightarrow> premium_inv (fold (expire_premium now) rows s)"
proof (induction rows arbitrary: s)
  case (Cons r rows)
  have "set rows \<subseteq> set (pb_premiums (expire_premium now r s))"
    using Cons.prems(2,3) expire_others by (fastforce simp: image_iff)
  then show ?case using Cons by (simp add: expire_keeps)
qed simp

lemma expire_all_keeps:
  assumes "premium_inv s"
  shows "premium_inv (snd (expire_all_lapsed now s))"
proof -
  have "distinct (map pm_id (pb_premiums s))" using assms by (simp add: premium_inv_def one_each_def)
  then have "distinct (map pm_id (filter P (pb_premiums s)))" for P
    by (rule distinct_map_filter)
  then show ?thesis
    using assms by (auto simp: expire_all_lapsed_def Let_def list_all_iff intro!: expire_loop)
qed

lemma premium_step_keeps: "premium_inv s \<Longrightarrow> no_downgrade q s \<Longrightarrow> premium_inv (premium_step q s)"
  by (induction q s rule: premium_step.induct)
     (simp_all add: grant_keeps revoke_keeps expire_all_keeps lookup_keeps del: no_downgrade.simps(1))

lemma premium_run_keeps: "premium_inv s \<Longrightarrow> never_down qs s \<Longrightarrow> premium_inv (premium_run qs s)"
  by (induction qs arbitrary: s) (simp_all add: premium_step_keeps)

section \<open>Properties\<close>

definition sample_subscribers :: premium_db where
  "sample_subscribers = \<lparr>pb_premiums = [], pb_users = [(7, False), (8, False)], pb_next = 1\<rparr>"

lemmas premium_defs = grant_premium_def get_active_premium_def active_of_def lapsed_def PLAN_DURATIONS_def
  insert_premium_def new_premium_def add_premium_def set_flag_def update_premium_def days_def Let_def

text \<open>
  C37: Whatever subscriptions are granted, extended, revoked, looked up and expired, at whatever times, as
  long as no grant is below the plan the user has then: a user has at most one active subscription, the
  flag of the user says so, and the plan of a user can always be told.
\<close>
theorem one_subscription_each:
  assumes "premium_inv s" and "never_down qs s"
  shows "premium_inv (premium_run qs s) \<and> \<not> isl (fst (get_plan now uid (premium_run qs s)))"
proof -
  have inv: "premium_inv (premium_run qs s)" using assms by (rule premium_run_keeps)
  then show ?thesis
    by (rule lookup_cases [where now = now and u = uid]) (simp_all add: get_plan_def inv)
qed

definition sample_grants :: "(int \<times> int \<times> premium_request) list" where
  "sample_grants =
     [(0, 7, Grant ''premium'' ''monthly'' None True), (1000, 7, Grant ''vip'' ''annual'' (Some ''r1'') False),
      (2000, 7, Grant ''vip'' ''monthly'' None True), (3000, 8, Revoke True), (4000, 7, Look_up)]"

theorem one_subscription_each_witness:
  "premium_inv (premium_run sample_grants sample_subscribers)
     \<and> \<not> isl (fst (get_plan 5000 7 (premium_run sample_grants sample_subscribers)))
     \<and> fst (get_plan 5000 7 (premium_run sample_grants sample_subscribers)) = Inr ''vip''"
proof (intro conjI)
  have inv: "premium_inv sample_subscribers"
    by (simp add: premium_inv_def one_each_def flags_ok_def sample_subscribers_def active_of_def)
  have never: "never_down sample_grants sample_subscribers"
    by (simp add: sample_grants_def sample_subscribers_def premium_defs plan_rank_def extended_def cancelled_def)
  note both = one_subscription_each [OF inv never, of 5000 7]
  show "premium_inv (premium_run sample_grants sample_subscribers)" using both by blast
  show "\<not> isl (fst (get_plan 5000 7 (premium_run sample_grants sample_subscribers)))" using both by blast
  show "fst (get_plan 5000 7 (premium_run sample_grants sample_subscribers)) = Inr ''vip''"
    by (simp add: sample_grants_def sample_subscribers_def premium_defs plan_rank_def extended_def
        cancelled_def get_plan_def revoke_premium_def)
qed

text \<open>
  Two active subscriptions of a user stay as they are: nothing but the daily expiry can end one.
\<close>

definition keyed :: "premium_db \<Rightarrow> bool" where
  "keyed s \<longleftrightarrow> distinct (map pm_id (pb_premiums s)) \<and> (\<forall>r \<in> set (pb_premiums s). pm_id r < pb_next s)"

definition same_key :: "(premium_row \<Rightarrow> premium_row) \<Rightarrow> bool" where
  "same_key f \<longleftrightarrow> (\<forall>r. pm_id (f r) = pm_id r \<and> pm_user (f r) = pm_user r)"

lemma same_keys [simp]:
  "same_key (extended now n ref auto)" "same_key (cancelled now)" "same_key (\<lambda>r. r\<lparr>pm_auto_renew := b\<rparr>)"
  "same_key (\<lambda>r. r\<lparr>pm_status := x, pm_expired_at := t\<rparr>)"
  by (simp_all add: same_key_def extended_def cancelled_def)

definition locked :: "int \<Rightarrow> premium_row list \<Rightarrow> premium_db \<Rightarrow> bool" where
  "locked u rows s \<longleftrightarrow> keyed s \<and> active_of u s = rows"

lemma keyed_update: "keyed s \<Longrightarrow> same_key f \<Longrightarrow> keyed (update_premium i f s)"
proof -
  assume s: "keyed s" and f: "same_key f"
  have ids: "map pm_id (upd_by pm_id i f rs) = map pm_id rs" for rs
    by (rule map_key_upd_by) (use f in \<open>simp add: same_key_def\<close>)
  then have "pm_id ` set (upd_by pm_id i f rs) = pm_id ` set rs" for rs
    by (metis list.set_map)
  then have "(\<forall>r \<in> set (upd_by pm_id i f rs). pm_id r < n) \<longleftrightarrow> (\<forall>r \<in> set rs. pm_id r < n)" for rs n
    by (metis (no_types, opaque_lifting) imageE imageI)
  then show ?thesis using s by (simp add: keyed_def ids)
qed

lemma active_update_other:
  assumes s: "keyed s" and f: "same_key f" and r: "r \<in> set (active_of v s)" and "u \<noteq> v"
  shows "active_of u (update_premium (pm_id r) f s) = active_of u s"
proof -
  have other: "pm_user x = v" if "x \<in> set (pb_premiums s)" "pm_id x = pm_id r" for x
    using same_id [of pm_id "pb_premiums s" x r] that s active_member [OF r] by (simp add: keyed_def)
  have "filter (\<lambda>x. pm_user x = u \<and> pm_status x = ''active'') (upd_by pm_id (pm_id r) f rs)
      = filter (\<lambda>x. pm_user x = u \<and> pm_status x = ''active'') rs"
    if "\<And>x. x \<in> set rs \<Longrightarrow> pm_id x = pm_id r \<Longrightarrow> pm_user x \<noteq> u" for rs
    using that f by (induction rs) (auto simp: same_key_def)
  then show ?thesis using other \<open>u \<noteq> v\<close> by (auto simp: active_of_def)
qed

lemma locked_flag [simp]: "locked u rows (set_flag v b s) = locked u rows s"
  by (simp add: locked_def keyed_def)

lemma locked_update: "locked u rows s \<Longrightarrow> same_key f \<Longrightarrow> r \<in> set (active_of v s) \<Longrightarrow> u \<noteq> v \<Longrightarrow>
    locked u rows (update_premium (pm_id r) f s)"
  by (simp add: locked_def keyed_update active_update_other)

lemma locked_insert: "locked u rows s \<Longrightarrow> u \<noteq> v \<Longrightarrow>
    locked u rows (snd (insert_premium (new_premium now v plan n ref auto (pb_next s)) s))"
  by (fastforce simp: insert_premium_def add_premium_def locked_def keyed_def active_of_def)

lemma locked_lookup:
  assumes "locked u rows s" and "u \<noteq> v"
  shows "locked u rows (snd (get_active_premium now v s))"
    and "get_active_premium now v s = (Inr (Some r), t) \<Longrightarrow> t = s \<and> r \<in> set (active_of v s)"
proof -
  consider "active_of v s = []" | x where "active_of v s = [x]" | x y zs where "active_of v s = x # y # zs"
    by (metis list.exhaust)
  then show "locked u rows (snd (get_active_premium now v s))"
  proof cases
    case (2 x)
    then have "pm_user x = v" using active_member [of x v s] by simp
    then show ?thesis using 2 assms locked_update [of u rows s _ x v]
      by (simp add: get_active_premium_def expire_premium_def)
  qed (use assms in \<open>simp_all add: get_active_premium_def\<close>)
  show "t = s \<and> r \<in> set (active_of v s)" if "get_active_premium now v s = (Inr (Some r), t)"
    using that by (auto simp: get_active_premium_def split: list.splits if_splits)
qed

text \<open>The look-up of the locked user raises and changes nothing; others do not touch the user's rows.\<close>

lemma locked_raises: "locked u (r1 # r2 # rs) s \<Longrightarrow> get_active_premium now u s = (Inl (Py ''MultipleResultsFound''), s)"
  by (simp add: locked_def get_active_premium_def)

lemma locked_grant:
  assumes "locked u (r1 # r2 # rs) s"
  shows "locked u (r1 # r2 # rs) (snd (grant_premium now v plan duration ref auto s))"
proof (cases "u = v")
  case True
  then show ?thesis using assms locked_raises [OF assms] by (simp add: grant_premium_def split: option.split)
next
  case False
  obtain res t where look: "get_active_premium now v s = (res, t)" by (meson surj_pair)
  then have t: "locked u (r1 # r2 # rs) t" using locked_lookup(1) [OF assms False, of now] by simp
  show ?thesis
  proof (cases res)
    case (Inl e)
    then show ?thesis using assms t look by (simp add: grant_premium_def split: option.split)
  next
    case (Inr found)
    show ?thesis
    proof (cases found)
      case None
      then show ?thesis using assms Inr look locked_insert [OF t False] by (simp add: grant_premium_def Let_def split: option.split)
    next
      case (Some r)
      then have r: "t = s" "r \<in> set (active_of v s)" using locked_lookup(2) [OF assms False] look Inr by blast+
      have upd: "locked u (r1 # r2 # rs) (update_premium (pm_id r) f s)" if "same_key f" for f
        using locked_update [OF assms that r(2) False] .
      have "pb_next s = pb_next (update_premium (pm_id r) f s)" for f by simp
      then show ?thesis
        using assms Some Inr look r(1) upd locked_insert [OF t False] locked_insert [OF upd [of "cancelled now"] False]
        by (simp add: grant_premium_def Let_def split: option.split)
    qed
  qed
qed

lemma locked_revoke:
  assumes "locked u (r1 # r2 # rs) s"
  shows "locked u (r1 # r2 # rs) (snd (revoke_premium now v immediate s))"
proof (cases "u = v")
  case True
  then show ?thesis using assms locked_raises [OF assms] by (simp add: revoke_premium_def)
next
  case False
  obtain res t where look: "get_active_premium now v s = (res, t)" by (meson surj_pair)
  have t: "locked u (r1 # r2 # rs) t" using locked_lookup(1) [OF assms False, of now] look by simp
  show ?thesis
  proof (cases "\<exists>r. res = Inr (Some r)")
    case True
    then obtain r where r: "res = Inr (Some r)" "t = s" "r \<in> set (active_of v s)"
      using locked_lookup(2) [OF assms False] look by blast
    then show ?thesis using look locked_update [OF assms _ r(3) False] by (simp add: revoke_premium_def)
  next
    case no: False
    then show ?thesis using look t by (cases res; cases "projr res") (auto simp: revoke_premium_def)
  qed
qed

fun expires :: "int \<times> int \<times> premium_request \<Rightarrow> bool" where
  "expires (now, uid, Expire_all) = True"
| "expires q = False"

lemma locked_step:
  assumes "locked u (r1 # r2 # rs) s" and "\<not> expires q"
  shows "locked u (r1 # r2 # rs) (premium_step q s)"
proof -
  obtain now v req where q: "q = (now, v, req)" by (metis prod_cases3)
  show ?thesis
  proof (cases req)
    case Look_up
    then show ?thesis using q assms(1) locked_lookup(1) [OF assms(1)] locked_raises [OF assms(1)] by (cases "u = v") auto
  qed (use q assms locked_grant [OF assms(1)] locked_revoke [OF assms(1)] in auto)
qed

lemma locked_run: "locked u (r1 # r2 # rs) s \<Longrightarrow> \<not> list_ex expires qs \<Longrightarrow> locked u (r1 # r2 # rs) (premium_run qs s)"
  by (induction qs arbitrary: s) (auto intro: locked_step)

lemma lower_grant_adds:
  assumes "active_of uid s = [r]" and "\<not> lapsed now r" and "uid \<in> fst ` set (pb_users s)" and "keyed s"
    and "map_of PLAN_DURATIONS plan = Some d" and "map_of d duration = Some n"
    and "plan_rank plan < plan_rank (pm_plan r)"
  obtains new where "grant_premium now uid plan duration ref auto s = (Inr new, add_premium new s)"
    "locked uid [r, new] (add_premium new s)"
proof -
  let ?new = "new_premium now uid plan n ref auto (pb_next s)"
  have "plan \<noteq> ''basic''" using assms(5) by (auto simp: PLAN_DURATIONS_def split: if_splits)
  then have g: "grant_premium now uid plan duration ref auto s = (Inr ?new, add_premium ?new s)"
    using assms by (auto simp: grant_premium_def get_active_premium_def insert_premium_def Let_def)
  have "active_of uid (add_premium ?new s) = [r, ?new]"
    using assms(1) by (simp add: add_premium_def active_of_def)
  moreover have "keyed (add_premium ?new s)"
    using assms(4) by (fastforce simp: keyed_def add_premium_def)
  ultimately show thesis using that g by (simp add: locked_def)
qed

text \<open>
  C38: A grant below the present plan succeeds, although it is documented to wait until the present one ends.
  From then on, as long as the daily expiry has not run, and whatever else is granted, revoked and looked up
  for anybody at whatever times: the user's plan cannot be told, so that every order, every revocation and
  every further grant for this user raises.
\<close>
theorem lower_grant_locks_out:
  assumes "active_of uid s = [r]" and "\<not> lapsed now r" and "uid \<in> fst ` set (pb_users s)" and "keyed s"
    and "map_of PLAN_DURATIONS plan = Some d" and "map_of d duration = Some n"
    and "plan_rank plan < plan_rank (pm_plan r)"
    and "\<not> list_ex expires qs"
    and "t = premium_run qs (snd (grant_premium now uid plan duration ref auto s))"
  shows "\<not> isl (fst (grant_premium now uid plan duration ref auto s))
     \<and> fst (get_plan later uid t) = Inl (Py ''MultipleResultsFound'')
     \<and> fst (assert_can_order later uid quantity prem t) = Inl (Py ''MultipleResultsFound'')
     \<and> fst (revoke_premium later uid immediate t) = Inl (Py ''MultipleResultsFound'')
     \<and> isl (fst (grant_premium later uid plan2 duration2 ref2 auto2 t))"
proof -
  obtain new where g: "grant_premium now uid plan duration ref auto s = (Inr new, add_premium new s)"
    and two: "locked uid [r, new] (add_premium new s)"
    using assms(1-7) by (rule lower_grant_adds)
  have "locked uid [r, new] t" using locked_run [OF two assms(8)] assms(9) by (simp add: g)
  then have raises: "get_active_premium later uid t = (Inl (Py ''MultipleResultsFound''), t)" by (rule locked_raises)
  then have "isl (fst (grant_premium later uid plan2 duration2 ref2 auto2 t))"
    by (simp add: grant_premium_def split: option.split)
  with raises show ?thesis
    by (simp add: g assert_can_order_def get_benefits_def get_plan_def revoke_premium_def)
qed

definition sample_vip :: premium_db where
  "sample_vip = premium_step (0, 7, Grant ''vip'' ''annual'' None True) sample_subscribers"

definition sample_later :: "(int \<times> int \<times> premium_request) list" where
  "sample_later = [(2000, 7, Revoke True), (3000, 8, Grant ''premium'' ''monthly'' None True), (4000, 7, Look_up), (4500, 8, Revoke True)]"

theorem lower_grant_locks_out_witness:
  "fst (assert_can_order 5000 7 100 False (premium_run sample_later (snd (grant_premium 1000 7 ''premium'' ''monthly'' None True sample_vip))))
     = Inl (Py ''MultipleResultsFound'')"
proof -
  note defs = sample_vip_def sample_subscribers_def premium_defs plan_rank_def
  have act: "active_of 7 sample_vip = [new_premium 0 7 ''vip'' 365 None True 1]" by (simp add: defs)
  have keyed: "keyed sample_vip" by (simp add: defs keyed_def)
  have quiet: "\<not> list_ex expires sample_later" by (simp add: sample_later_def)
  show ?thesis
    using lower_grant_locks_out [OF act _ _ keyed _ _ _ quiet refl, where now = 1000 and plan = "''premium''" and duration = "''monthly''"
        and later = 5000 and d = "[(''monthly'', 30), (''annual'', 365)]" and n = 30 and quantity = 100 and ref = None and auto = True
        and prem = False]
    by (simp add: defs)
qed

text \<open>
  An order passes the premium checks exactly when its quantity is within the plan's limit and the service
  is open to the plan; its terms are those of the plan, and the floor is kept.
\<close>
lemma assert_can_order_iff:
  assumes "get_active_premium now uid s = (Inr r, s)"
    and "map_of PLAN_BENEFITS (case r of None \<Rightarrow> ''basic'' | Some r \<Rightarrow> pm_plan r) = Some b"
  shows "assert_can_order now uid quantity prem s = (Inr (), s) \<longleftrightarrow> quantity \<le> bf_max_qty b \<and> (prem \<longrightarrow> r \<noteq> None)"
  using assms by (auto simp: assert_can_order_def get_benefits_def get_plan_def is_premium_def split: option.splits)

end
