(* ===== verification/Coupons.thy ===== *)
theory Coupons
  imports Platform Quantize
begin

text \<open>
  \<open>app/coupons/engine.py\<close>: coupons of the second generation. An operation gives its result and the rows
  of the session; amounts have at most four decimals, as the columns keep them, and the text of an amount
  in a message is an argument; the users and orders that a redemption refers to are taken to exist. The
  lemmas show that no history of redemptions and transfers exceeds a
  coupon's limits, how large a discount can be, and that the owner of a coupon decides nothing.
\<close>

section \<open>Rows\<close>

record smm_coupon =
  sc_id :: int
  sc_code :: string
  sc_type :: string
  sc_value :: rat
  sc_max_discount :: "rat option"
  sc_min_spend :: "rat option"
  sc_total_limit :: "int option"
  sc_per_user :: int
  sc_expires_at :: "int option"
  sc_active :: bool
  sc_transferable :: bool
  sc_owner :: "int option"
  sc_services :: "int list option"
  sc_categories :: "int list option"

record redemption_row =
  rd_coupon :: int
  rd_user :: int
  rd_order :: string
  rd_discount :: rat
  rd_key :: string
  rd_at :: int

record coupon_db =
  cd_coupons :: "smm_coupon list"
  cd_redemptions :: "redemption_row list"

type_synonym 'a coupon_result = "(smm_exn + 'a) \<times> coupon_db"

text \<open>The clock, and an amount as \<open>:.2f\<close> writes it after the rupee sign.\<close>

record coupon_env =
  ce_now :: int
  ce_rupees :: "rat \<Rightarrow> string"

section \<open>Operations\<close>

definition coupon_lapsed :: "int \<Rightarrow> smm_coupon \<Rightarrow> bool" where
  "coupon_lapsed now c \<longleftrightarrow> (case sc_expires_at c of None \<Rightarrow> False | Some t \<Rightarrow> t < now)"

text \<open>A filter on ids that is absent or empty admits everything, and so does an id that is not given.\<close>

definition not_listed :: "int list option \<Rightarrow> int option \<Rightarrow> bool" where
  "not_listed ids x \<longleftrightarrow> (case (ids, x) of (Some is, Some i) \<Rightarrow> is \<noteq> [] \<and> i \<notin> set is | _ \<Rightarrow> False)"

definition used :: "int \<Rightarrow> coupon_db \<Rightarrow> nat" where
  "used cid s = length (filter (\<lambda>r. rd_coupon r = cid) (cd_redemptions s))"

definition used_by :: "int \<Rightarrow> int \<Rightarrow> coupon_db \<Rightarrow> nat" where
  "used_by cid uid s = length (filter (\<lambda>r. rd_coupon r = cid \<and> rd_user r = uid) (cd_redemptions s))"

definition validate_coupon ::
  "coupon_env \<Rightarrow> string \<Rightarrow> int \<Rightarrow> int option \<Rightarrow> int option \<Rightarrow> rat \<Rightarrow> coupon_db \<Rightarrow> smm_exn + smm_coupon" where
  "validate_coupon env code uid service category amount s =
     (case filter (\<lambda>c. sc_code c = upper (strip code) \<and> sc_active c) (cd_coupons s) of
        [] \<Rightarrow> Inl (raise_smm CouponNotFoundError)
      | [c] \<Rightarrow>
          if coupon_lapsed (ce_now env) c then Inl (raise_smm CouponExpiredError)
          else if (case sc_total_limit c of None \<Rightarrow> False | Some n \<Rightarrow> n \<le> int (used (sc_id c) s))
          then Inl (raise_smm CouponUsageLimitError)
          else if sc_per_user c \<le> int (used_by (sc_id c) uid s) then Inl (raise_smm CouponAlreadyRedeemedError)
          else if (case sc_min_spend c of None \<Rightarrow> False | Some m \<Rightarrow> m \<noteq> 0 \<and> amount < m)
          then Inl (raise_with CouponError (''This coupon requires a minimum order of '' @
                      ce_rupees env (the (sc_min_spend c)) @ ''.''))
          else if not_listed (sc_services c) service
          then Inl (raise_with CouponError ''This coupon is not valid for the selected service.'')
          else if not_listed (sc_categories c) category
          then Inl (raise_with CouponError ''This coupon is not valid for this category.'')
          else Inr c
      | _ \<Rightarrow> Inl (Py ''MultipleResultsFound''))"

definition calculate_discount :: "smm_coupon \<Rightarrow> rat \<Rightarrow> rat" where
  "calculate_discount c amount =
     (let raw = (if sc_type c = ''percentage'' then quant 2 (amount * sc_value c / 100)
                 else if sc_type c = ''fixed'' then quant 2 (sc_value c)
                 else 0);
          limited = (case sc_max_discount c of
                       None \<Rightarrow> raw
                     | Some m \<Rightarrow> if m \<noteq> 0 \<and> m < raw then m else raw)
      in max (min limited amount) 0)"

definition preview_coupon :: "coupon_env \<Rightarrow> string \<Rightarrow> int \<Rightarrow> int option \<Rightarrow> rat \<Rightarrow> coupon_db \<Rightarrow> smm_exn + rat" where
  "preview_coupon env code uid service amount s =
     e_bind (validate_coupon env code uid service None amount s) (\<lambda>c. Inr (calculate_discount c amount))"

definition redemption_key :: "string option \<Rightarrow> string \<Rightarrow> string \<Rightarrow> string" where
  "redemption_key key order code =
     (case key of
        Some k \<Rightarrow> if k = [] then ''coupon:'' @ order @ '':'' @ code else k
      | None \<Rightarrow> ''coupon:'' @ order @ '':'' @ code)"

definition redeem_coupon ::
  "coupon_env \<Rightarrow> string \<Rightarrow> int \<Rightarrow> string \<Rightarrow> rat \<Rightarrow> int option \<Rightarrow> int option \<Rightarrow> string option \<Rightarrow> coupon_db
    \<Rightarrow> rat coupon_result" where
  "redeem_coupon env code uid order amount service category key s =
     (let k = redemption_key key order code
      in case find_by rd_key k (cd_redemptions s) of
           Some r \<Rightarrow> (Inr (rd_discount r), s)
         | None \<Rightarrow> (case validate_coupon env code uid service category amount s of
             Inl e \<Rightarrow> (Inl e, s)
           | Inr c \<Rightarrow>
               let discount = calculate_discount c amount
               in (Inr discount,
                   s\<lparr>cd_redemptions := cd_redemptions s @
                       [\<lparr>rd_coupon = sc_id c, rd_user = uid, rd_order = order, rd_discount = discount,
                         rd_key = k, rd_at = ce_now env\<rparr>]\<rparr>)))"

definition transfer_coupon :: "coupon_env \<Rightarrow> string \<Rightarrow> int \<Rightarrow> int \<Rightarrow> coupon_db \<Rightarrow> unit coupon_result" where
  "transfer_coupon env code giver taker s =
     (case filter (\<lambda>c. sc_code c = upper (strip code) \<and> sc_active c \<and> sc_transferable c \<and> sc_owner c = Some giver)
             (cd_coupons s) of
        [] \<Rightarrow> (Inl (raise_smm CouponTransferError), s)
      | [c] \<Rightarrow>
          if coupon_lapsed (ce_now env) c then (Inl (raise_smm CouponExpiredError), s)
          else (Inr (), s\<lparr>cd_coupons := upd_by sc_id (sc_id c) (\<lambda>c. c\<lparr>sc_owner := Some taker\<rparr>) (cd_coupons s)\<rparr>)
      | _ \<Rightarrow> (Inl (Py ''MultipleResultsFound''), s))"

section \<open>Histories\<close>

datatype coupon_request =
    Redeem string int string rat "int option" "int option" "string option"
  | Hand_over string int int

fun coupon_step :: "coupon_env \<times> coupon_request \<Rightarrow> coupon_db \<Rightarrow> coupon_db" where
  "coupon_step (env, Redeem code uid order amount service category key) s =
     snd (redeem_coupon env code uid order amount service category key s)"
| "coupon_step (env, Hand_over code giver taker) s = snd (transfer_coupon env code giver taker s)"

definition coupon_run :: "(coupon_env \<times> coupon_request) list \<Rightarrow> coupon_db \<Rightarrow> coupon_db" where
  "coupon_run = fold coupon_step"

text \<open>What a coupon promises its issuer.\<close>

definition within_limits :: "coupon_db \<Rightarrow> smm_coupon \<Rightarrow> bool" where
  "within_limits s c \<longleftrightarrow>
     (case sc_total_limit c of None \<Rightarrow> True | Some n \<Rightarrow> int (used (sc_id c) s) \<le> max n 0) \<and>
     (\<forall>uid. int (used_by (sc_id c) uid s) \<le> max (sc_per_user c) 0)"

definition coupon_inv :: "coupon_db \<Rightarrow> bool" where
  "coupon_inv s \<longleftrightarrow> distinct (map sc_id (cd_coupons s)) \<and> distinct (map sc_code (cd_coupons s)) \<and>
     distinct (map rd_key (cd_redemptions s)) \<and> (\<forall>c \<in> set (cd_coupons s). within_limits s c)"

section \<open>Limits\<close>

lemma validate_coupon_SomeD:
  assumes "validate_coupon env code uid service category amount s = Inr c"
  shows "c \<in> set (cd_coupons s) \<and> sc_active c \<and> \<not> coupon_lapsed (ce_now env) c
    \<and> (case sc_total_limit c of None \<Rightarrow> True | Some n \<Rightarrow> int (used (sc_id c) s) < n)
    \<and> int (used_by (sc_id c) uid s) < sc_per_user c"
proof -
  let ?found = "filter (\<lambda>c. sc_code c = upper (strip code) \<and> sc_active c) (cd_coupons s)"
  have found: "?found = [c]"
    using assms by (auto simp: validate_coupon_def split: list.splits if_splits)
  then have "c \<in> set ?found" by simp
  then have c: "c \<in> set (cd_coupons s)" "sc_active c" by simp_all
  show ?thesis
    using assms c by (auto simp: validate_coupon_def found not_le split: option.splits if_splits)
qed

lemma used_snoc:
  "used cid (s\<lparr>cd_redemptions := cd_redemptions s @ [r]\<rparr>) = used cid s + (if rd_coupon r = cid then 1 else 0)"
  "used_by cid uid (s\<lparr>cd_redemptions := cd_redemptions s @ [r]\<rparr>)
     = used_by cid uid s + (if rd_coupon r = cid \<and> rd_user r = uid then 1 else 0)"
  by (simp_all add: used_def used_by_def)

lemma apply_cases:
  obtains "snd (redeem_coupon env code uid order amount service category key s) = s"
  | c where "validate_coupon env code uid service category amount s = Inr c"
      "find_by rd_key (redemption_key key order code) (cd_redemptions s) = None"
      "redeem_coupon env code uid order amount service category key s =
        (Inr (calculate_discount c amount),
         s\<lparr>cd_redemptions := cd_redemptions s @
             [\<lparr>rd_coupon = sc_id c, rd_user = uid, rd_order = order, rd_discount = calculate_discount c amount,
               rd_key = redemption_key key order code, rd_at = ce_now env\<rparr>]\<rparr>)"
  by (cases "find_by rd_key (redemption_key key order code) (cd_redemptions s)";
      cases "validate_coupon env code uid service category amount s")
     (auto simp: redeem_coupon_def Let_def)

lemma within_snoc:
  assumes inv: "coupon_inv s" and v: "validate_coupon env code uid service category amount s = Inr c"
    and r: "rd_coupon r = sc_id c" "rd_user r = uid" and d: "d \<in> set (cd_coupons s)"
  shows "within_limits (s\<lparr>cd_redemptions := cd_redemptions s @ [r]\<rparr>) d"
proof (cases "sc_id d = sc_id c")
  case False
  then show ?thesis using inv d r by (auto simp: coupon_inv_def within_limits_def used_snoc split: option.splits)
next
  case True
  note V = validate_coupon_SomeD [OF v]
  have "d = c"
    using inv True d V by (simp add: coupon_inv_def distinct_map inj_on_def)
  then show ?thesis using inv V r d
    by (fastforce simp: coupon_inv_def within_limits_def used_snoc split: option.splits)
qed

lemma redeem_keeps: "coupon_inv s \<Longrightarrow> coupon_inv (snd (redeem_coupon env code uid order amount service category key s))"
proof -
  assume inv: "coupon_inv s"
  show ?thesis
  proof (rule apply_cases [of env code uid order amount service category key s])
    fix c
    let ?r = "\<lparr>rd_coupon = sc_id c, rd_user = uid, rd_order = order, rd_discount = calculate_discount c amount,
               rd_key = redemption_key key order code, rd_at = ce_now env\<rparr>"
    assume v: "validate_coupon env code uid service category amount s = Inr c"
      and new: "find_by rd_key (redemption_key key order code) (cd_redemptions s) = None"
      and step: "redeem_coupon env code uid order amount service category key s =
        (Inr (calculate_discount c amount), s\<lparr>cd_redemptions := cd_redemptions s @ [?r]\<rparr>)"
    have "within_limits (s\<lparr>cd_redemptions := cd_redemptions s @ [?r]\<rparr>) d" if "d \<in> set (cd_coupons s)" for d
      by (rule within_snoc [OF inv v _ _ that]) simp_all
    then show ?thesis using inv new by (simp add: step coupon_inv_def find_by_None)
  qed (simp add: inv)
qed

lemma within_owner [simp]:
  "within_limits s (c\<lparr>sc_owner := owner\<rparr>) = within_limits s c" "within_limits (s\<lparr>cd_coupons := cs\<rparr>) c = within_limits s c"
  by (simp_all add: within_limits_def used_def used_by_def split: option.split)

lemma transfer_keeps: "coupon_inv s \<Longrightarrow> coupon_inv (snd (transfer_coupon env code giver taker s))"
  by (auto simp: transfer_coupon_def coupon_inv_def dest!: set_upd_by split: list.split)

lemma coupon_step_keeps: "coupon_inv s \<Longrightarrow> coupon_inv (coupon_step q s)"
  by (induction q s rule: coupon_step.induct) (simp_all add: redeem_keeps transfer_keeps)

lemma coupon_run_keeps: "coupon_inv s \<Longrightarrow> coupon_inv (coupon_run qs s)"
  by (induction qs arbitrary: s) (simp_all add: coupon_run_def coupon_step_keeps)

section \<open>Properties\<close>

definition unowned :: "smm_coupon \<Rightarrow> smm_coupon" where
  "unowned c = c\<lparr>sc_owner := None\<rparr>"

lemma upd_owner [simp]: "map unowned (upd_by sc_id i (\<lambda>c. c\<lparr>sc_owner := owner\<rparr>) cs) = map unowned cs"
  by (induction cs) (simp_all add: unowned_def)

lemma coupon_step_terms: "map unowned (cd_coupons (coupon_step q s)) = map unowned (cd_coupons s)"
  by (induction q s rule: coupon_step.induct)
     (auto simp: redeem_coupon_def transfer_coupon_def Let_def split: option.split sum.split list.split)

lemma coupon_run_terms: "map unowned (cd_coupons (coupon_run qs s)) = map unowned (cd_coupons s)"
  by (induction qs arbitrary: s) (simp_all add: coupon_run_def coupon_step_terms)

definition sample_smm_coupon :: smm_coupon where
  "sample_smm_coupon = \<lparr>sc_id = 1, sc_code = ''SAVE'', sc_type = ''percentage'', sc_value = 10, sc_max_discount = Some 20,
     sc_min_spend = Some 50, sc_total_limit = Some 2, sc_per_user = 1, sc_expires_at = Some 100, sc_active = True,
     sc_transferable = True, sc_owner = Some 7, sc_services = None, sc_categories = Some []\<rparr>"

definition sample_coupons :: coupon_db where
  "sample_coupons = \<lparr>cd_coupons = [sample_smm_coupon], cd_redemptions = []\<rparr>"

definition sample_coupon_env :: coupon_env where
  "sample_coupon_env = \<lparr>ce_now = 5, ce_rupees = (\<lambda>_. [])\<rparr>"

lemmas coupon_samples = sample_coupons_def sample_smm_coupon_def sample_coupon_env_def

lemma sample_coupons_inv: "coupon_inv sample_coupons"
  by (simp add: coupon_inv_def within_limits_def used_def used_by_def coupon_samples)

text \<open>
  C39: Whatever is redeemed and transferred, by whom and in whatever order: no coupon is redeemed more often
  than its limits allow, in total and by one user, no key is used twice, and the terms of the coupons stay.
\<close>
theorem coupon_limits_hold:
  assumes "coupon_inv s"
  shows "coupon_inv (coupon_run qs s) \<and> map unowned (cd_coupons (coupon_run qs s)) = map unowned (cd_coupons s)"
  using assms by (simp add: coupon_run_keeps coupon_run_terms)

lemma sample_codes: "upper (strip ''save '') = ''SAVE''" "upper (strip ''save'') = ''SAVE''" "upper (strip ''SAVE'') = ''SAVE''"
  by code_simp+

definition sample_redemptions :: "(coupon_env \<times> coupon_request) list" where
  "sample_redemptions =
     [(sample_coupon_env, Redeem ''save '' 7 ''o1'' 100 (Some 3) None None),
      (sample_coupon_env, Redeem ''SAVE'' 7 ''o2'' 100 (Some 3) None None),
      (sample_coupon_env, Hand_over ''save'' 7 8),
      (sample_coupon_env, Redeem ''SAVE'' 8 ''o3'' 400 None None (Some ''k'')),
      (sample_coupon_env, Redeem ''SAVE'' 9 ''o4'' 400 None None None)]"

theorem coupon_limits_hold_witness:
  "coupon_inv (coupon_run sample_redemptions sample_coupons)
     \<and> map rd_user (cd_redemptions (coupon_run sample_redemptions sample_coupons)) = [7, 8]"
proof
  show "coupon_inv (coupon_run sample_redemptions sample_coupons)"
    using coupon_limits_hold [OF sample_coupons_inv] by blast
  show "map rd_user (cd_redemptions (coupon_run sample_redemptions sample_coupons)) = [7, 8]"
    by (simp add: coupon_run_def sample_redemptions_def coupon_samples redeem_coupon_def transfer_coupon_def
        validate_coupon_def redemption_key_def coupon_lapsed_def not_listed_def used_def used_by_def sample_codes Let_def)
qed

text \<open>A discount lies between zero and the order's amount and is at most the coupon's maximum.\<close>

lemma discount_bounds:
  "0 \<le> amount \<Longrightarrow> 0 \<le> calculate_discount c amount \<and> calculate_discount c amount \<le> amount
     \<and> (\<forall>m. sc_max_discount c = Some m \<longrightarrow> 0 < m \<longrightarrow> calculate_discount c amount \<le> m)"
  by (auto simp: calculate_discount_def Let_def split: option.split)

text \<open>A redemption that is repeated for the same order and code is answered with the same discount and recorded once.\<close>

lemma coupon_replay:
  assumes "redeem_coupon env code uid order amount service category key s = (Inr d, t)" and "coupon_inv s"
  shows "redeem_coupon env' code uid' order amount' service' category' key t = (Inr d, t)"
  using assms
  by (auto simp: redeem_coupon_def Let_def find_by_append split: option.splits sum.splits)

text \<open>
  The owner of a coupon decides nothing: after a transfer everybody, the giver included, can use the
  coupon exactly as before.
\<close>
theorem transfer_changes_no_rights:
  "map_sum id unowned (validate_coupon env code uid service category amount (snd (transfer_coupon env' code' giver taker s)))
    = map_sum id unowned (validate_coupon env code uid service category amount s)"
proof -
  have found: "filter (\<lambda>c. sc_code c = k \<and> sc_active c) (upd_by sc_id i (\<lambda>c. c\<lparr>sc_owner := Some taker\<rparr>) cs)
    = upd_by sc_id i (\<lambda>c. c\<lparr>sc_owner := Some taker\<rparr>) (filter (\<lambda>c. sc_code c = k \<and> sc_active c) cs)" for i k cs
    by (induction cs) auto
  have same: "map_sum id unowned (validate_coupon env code uid service category amount
      (s\<lparr>cd_coupons := upd_by sc_id i (\<lambda>c. c\<lparr>sc_owner := Some taker\<rparr>) (cd_coupons s)\<rparr>))
    = map_sum id unowned (validate_coupon env code uid service category amount s)" for i
  proof (cases "filter (\<lambda>c. sc_code c = upper (strip code) \<and> sc_active c) (cd_coupons s)")
    case Nil
    then show ?thesis by (simp add: validate_coupon_def found)
  next
    case (Cons c cs)
    show ?thesis
    proof (cases cs)
      case Nil
      then show ?thesis
        using Cons by (cases "sc_id c = i"; cases "sc_total_limit c"; cases "sc_min_spend c") (simp_all add: validate_coupon_def found used_def used_by_def coupon_lapsed_def unowned_def)
    next
      case (Cons d ds)
      with \<open>filter _ _ = c # cs\<close> show ?thesis by (simp add: validate_coupon_def found)
    qed
  qed
  show ?thesis
    by (auto simp: transfer_coupon_def same split: list.split)
qed

end
