(* ===== verification/Guards.thy ===== *)
theory Guards
  imports Platform PyFloat
begin

text \<open>
  \<open>app/security/kill_switches.py\<close> and \<open>app/risk/engine.py\<close>: what may stop an order of the second
  generation before money moves. The switches are kept in a store whose operations are arguments with the
  documented behaviour \<open>store_laws\<close>; what the counters of the risk engine answer is an argument. The
  lemmas show that an order is refused exactly while a switch for it is on, and what it takes to block one.
\<close>

section \<open>Kill switches\<close>

definition VALID_SWITCHES :: "string list" where
  "VALID_SWITCHES =
     [''all_orders'', ''bot_orders'', ''api_orders'', ''miniapp_orders'', ''all_deposits'', ''razorpay_deposits'',
      ''stripe_deposits'', ''provider_sync'', ''all_refills'', ''all_cancels'']"

definition ks_key :: "string \<Rightarrow> string" where
  "ks_key name = ''ks:'' @ name"

text \<open>
  Reading at a time, writing at a time with an optional time to live in seconds, which gives \<open>None\<close> when
  the store answers an error, deleting, and the longest time to live that is accepted at a time.
\<close>

record 'r switch_store =
  st_get :: "int \<Rightarrow> string \<Rightarrow> 'r \<Rightarrow> string option"
  st_set :: "int \<Rightarrow> string \<Rightarrow> string \<Rightarrow> int option \<Rightarrow> 'r \<Rightarrow> 'r option"
  st_delete :: "string \<Rightarrow> 'r \<Rightarrow> 'r"
  st_longest :: "int \<Rightarrow> int"

record switch_payload =
  kp_reason :: string
  kp_actor :: int
  kp_at :: int
  kp_ttl :: "int option"

text \<open>
  \<open>json.dumps\<close> and \<open>json.loads\<close> are arguments: \<open>loads\<close> gives the name of the exception if the text cannot
  be read, for orders also if it is no object. A time to live of zero means none. The store is reachable;
  an error that it answers is raised, and nothing is written.
\<close>

definition activate_switch ::
  "'r switch_store \<Rightarrow> (switch_payload \<Rightarrow> string) \<Rightarrow> int \<Rightarrow> string \<Rightarrow> string \<Rightarrow> int \<Rightarrow> int option \<Rightarrow> 'r
    \<Rightarrow> (smm_exn + unit) \<times> 'r" where
  "activate_switch ops dumps now name reason actor ttl r =
     (if name \<notin> set VALID_SWITCHES then (Inl (Py ''ValueError''), r)
      else
        let payload = dumps \<lparr>kp_reason = reason, kp_actor = actor, kp_at = now, kp_ttl = ttl\<rparr>
        in case st_set ops now (ks_key name) payload (if ttl = Some 0 then None else ttl) r of
             None \<Rightarrow> (Inl (Py ''ResponseError''), r)
           | Some r' \<Rightarrow> (Inr (), r'))"

definition deactivate_switch :: "'r switch_store \<Rightarrow> string \<Rightarrow> 'r \<Rightarrow> (smm_exn + unit) \<times> 'r" where
  "deactivate_switch ops name r =
     (if name \<notin> set VALID_SWITCHES then (Inl (Py ''ValueError''), r)
      else (Inr (), st_delete ops (ks_key name) r))"

definition switch_active :: "'r switch_store \<Rightarrow> int \<Rightarrow> string \<Rightarrow> 'r \<Rightarrow> bool" where
  "switch_active ops now name r \<longleftrightarrow> st_get ops now (ks_key name) r \<noteq> None"

text \<open>The switches that are on, each with its text; the routes show it as JSON if it is.\<close>

definition get_all_active :: "'r switch_store \<Rightarrow> int \<Rightarrow> 'r \<Rightarrow> (string \<times> string) list" where
  "get_all_active ops now r =
     concat (map (\<lambda>name. case st_get ops now (ks_key name) r of
         Some raw \<Rightarrow> if raw = [] then [] else [(name, raw)] | None \<Rightarrow> []) VALID_SWITCHES)"

fun refuse_if_active ::
  "'r switch_store \<Rightarrow> (string \<Rightarrow> string option) \<Rightarrow> int \<Rightarrow> 'r \<Rightarrow> string list \<Rightarrow> smm_exn + unit" where
  "refuse_if_active ops loads now r [] = Inr ()"
| "refuse_if_active ops loads now r (name # names) =
     (case st_get ops now (ks_key name) r of
        None \<Rightarrow> refuse_if_active ops loads now r names
      | Some raw \<Rightarrow>
          if raw = [] then refuse_if_active ops loads now r names
          else case loads raw of
              Some e \<Rightarrow> Inl (Py e)
            | None \<Rightarrow> Inl (raise_smm KillSwitchError))"

definition order_switches :: "string \<Rightarrow> string list" where
  "order_switches source =
     ''all_orders'' # (if source = ''bot'' then [''bot_orders''] else if source = ''api'' then [''api_orders'']
                       else if source = ''miniapp'' then [''miniapp_orders''] else [])"

definition assert_orders_allowed ::
  "'r switch_store \<Rightarrow> (string \<Rightarrow> string option) \<Rightarrow> int \<Rightarrow> string \<Rightarrow> 'r \<Rightarrow> smm_exn + unit" where
  "assert_orders_allowed ops loads now source r = refuse_if_active ops loads now r (order_switches source)"

definition deposit_switches :: "string \<Rightarrow> string list" where
  "deposit_switches provider =
     ''all_deposits'' # (if provider = ''razorpay'' then [''razorpay_deposits'']
                         else if provider = ''stripe'' then [''stripe_deposits''] else [])"

definition assert_deposits_allowed ::
  "'r switch_store \<Rightarrow> (string \<Rightarrow> string option) \<Rightarrow> int \<Rightarrow> string \<Rightarrow> 'r \<Rightarrow> smm_exn + unit" where
  "assert_deposits_allowed ops loads now provider r = refuse_if_active ops loads now r (deposit_switches provider)"

text \<open>
  What Redis documents of \<open>GET\<close>, \<open>SET\<close> with \<open>EX\<close> and \<open>DEL\<close>: a time to live has to be positive and not too
  long, otherwise the command is an error and the key keeps its value and its time to live; without one
  the command succeeds.
\<close>

definition ttl_accepted :: "(int \<Rightarrow> int) \<Rightarrow> int \<Rightarrow> int option \<Rightarrow> bool" where
  "ttl_accepted longest now ttl \<longleftrightarrow> (case ttl of None \<Rightarrow> True | Some d \<Rightarrow> 0 < d \<and> d \<le> longest now)"

definition store_laws :: "'r switch_store \<Rightarrow> bool" where
  "store_laws ops \<longleftrightarrow>
     (\<forall>now k v ttl r. st_set ops now k v ttl r \<noteq> None \<longleftrightarrow> ttl_accepted (st_longest ops) now ttl) \<and>
     (\<forall>now t k j v ttl r r'. st_set ops now k v ttl r = Some r' \<longrightarrow> st_get ops t j r' =
        (if j = k then (case ttl of None \<Rightarrow> Some v | Some d \<Rightarrow> if t < now + d * 1000000 then Some v else None)
         else st_get ops t j r)) \<and>
     (\<forall>t k j r. st_get ops t j (st_delete ops k r) = (if j = k then None else st_get ops t j r))"

section \<open>Switches as their history tells\<close>

datatype switch_action = Switch_on string string int "int option" | Switch_off string

fun switch_step ::
  "'r switch_store \<Rightarrow> (switch_payload \<Rightarrow> string) \<Rightarrow> int \<times> switch_action \<Rightarrow> 'r \<Rightarrow> 'r" where
  "switch_step ops dumps (now, Switch_on name reason actor ttl) r =
     snd (activate_switch ops dumps now name reason actor ttl r)"
| "switch_step ops dumps (now, Switch_off name) r = snd (deactivate_switch ops name r)"

definition switch_run ::
  "'r switch_store \<Rightarrow> (switch_payload \<Rightarrow> string) \<Rightarrow> (int \<times> switch_action) list \<Rightarrow> 'r \<Rightarrow> 'r" where
  "switch_run ops dumps = fold (switch_step ops dumps)"

text \<open>
  The reference: the latest action for a switch decides, unless its time has run out. Switching on for a
  negative or for too long a time is no action: it fails, and the switch stays as it was.
\<close>

fun on_by :: "(int \<Rightarrow> int) \<Rightarrow> int \<Rightarrow> string \<Rightarrow> int \<times> switch_action \<Rightarrow> bool \<Rightarrow> bool" where
  "on_by longest t name (now, Switch_on n reason actor ttl) b =
     (if n \<noteq> name then b
      else case ttl of
          None \<Rightarrow> True
        | Some d \<Rightarrow>
            if d = 0 then True
            else if d < 0 \<or> longest now < d then b
            else t < now + d * 1000000)"
| "on_by longest t name (now, Switch_off n) b = (if n \<noteq> name then b else False)"

definition switched_on :: "(int \<Rightarrow> int) \<Rightarrow> int \<Rightarrow> string \<Rightarrow> (int \<times> switch_action) list \<Rightarrow> bool" where
  "switched_on longest t name acts = fold (on_by longest t name) acts False"

definition is_set :: "'r switch_store \<Rightarrow> int \<Rightarrow> string \<Rightarrow> 'r \<Rightarrow> bool" where
  "is_set ops t name r \<longleftrightarrow> (\<exists>raw. st_get ops t (ks_key name) r = Some raw \<and> raw \<noteq> [])"

lemma ks_key_inject [simp]: "ks_key a = ks_key b \<longleftrightarrow> a = b"
  by (simp add: ks_key_def)

lemma is_set_step:
  assumes laws: "store_laws ops" and dumps: "\<And>p. dumps p \<noteq> []" and name: "name \<in> set VALID_SWITCHES"
  shows "is_set ops t name (switch_step ops dumps a r) \<longleftrightarrow> on_by (st_longest ops) t name a (is_set ops t name r)"
proof -
  have set_some: "st_set ops now k v ttl r \<noteq> None \<longleftrightarrow> ttl_accepted (st_longest ops) now ttl"
    and set_get: "st_set ops now k v ttl r = Some r' \<Longrightarrow> st_get ops t j r' =
        (if j = k then (case ttl of None \<Rightarrow> Some v | Some d \<Rightarrow> if t < now + d * 1000000 then Some v else None)
         else st_get ops t j r)"
    and del_get: "st_get ops t j (st_delete ops k r) = (if j = k then None else st_get ops t j r)" for now k j v ttl r'
    using laws unfolding store_laws_def by blast+
  obtain now act where a: "a = (now, act)" by (cases a)
  show ?thesis
  proof (cases act)
    case (Switch_off n)
    then show ?thesis using name by (auto simp: a is_set_def deactivate_switch_def del_get)
  next
    case (Switch_on n reason actor ttl)
    let ?ttl = "if ttl = Some 0 then None else ttl"
    let ?v = "dumps \<lparr>kp_reason = reason, kp_actor = actor, kp_at = now, kp_ttl = ttl\<rparr>"
    show ?thesis
    proof (cases "n \<in> set VALID_SWITCHES")
      case False
      then show ?thesis using name by (auto simp: a Switch_on is_set_def activate_switch_def)
    next
      case valid: True
      show ?thesis
      proof (cases "st_set ops now (ks_key n) ?v ?ttl r")
        case None
        then have "\<not> ttl_accepted (st_longest ops) now ?ttl" using set_some by metis
        then show ?thesis using valid None
          by (auto simp: a Switch_on is_set_def activate_switch_def ttl_accepted_def Let_def split: option.splits if_splits)
      next
        case (Some r')
        then have "ttl_accepted (st_longest ops) now ?ttl" using set_some by (metis option.distinct(1))
        then show ?thesis using valid Some set_get [OF Some, of "ks_key name"] dumps
          by (auto simp: a Switch_on is_set_def activate_switch_def ttl_accepted_def Let_def split: option.splits if_splits)
      qed
    qed
  qed
qed

lemma is_set_run:
  assumes "store_laws ops" and "\<And>p. dumps p \<noteq> []" and "name \<in> set VALID_SWITCHES"
  shows "is_set ops t name (switch_run ops dumps acts r) \<longleftrightarrow> fold (on_by (st_longest ops) t name) acts (is_set ops t name r)"
  by (induction acts arbitrary: r) (simp_all add: switch_run_def is_set_step [OF assms])

lemma refuse_iff:
  "(\<exists>e. refuse_if_active ops loads t r names = Inl e) \<longleftrightarrow> list_ex (\<lambda>n. is_set ops t n r) names"
  by (induction names) (auto simp: is_set_def split: option.split)

lemma order_switches_valid: "set (order_switches source) \<subseteq> set VALID_SWITCHES"
  by (auto simp: order_switches_def VALID_SWITCHES_def)

lemma deposit_switches_valid: "set (deposit_switches provider) \<subseteq> set VALID_SWITCHES"
  by (auto simp: deposit_switches_def VALID_SWITCHES_def)

text \<open>
  C40: Orders are refused at a time exactly if the history of the switches says that one of the switches for
  their source is on then: switched on last, and not run out. Attempts that name no switch, or a time to
  live that Redis refuses because it is negative or too long, count for nothing; zero means without end.
\<close>
theorem switches_follow_history:
  assumes "store_laws ops" and "\<And>p. dumps p \<noteq> []" and "\<And>j. st_get ops t j r = None"
  shows "isl (assert_orders_allowed ops loads t source (switch_run ops dumps acts r))
     \<longleftrightarrow> list_ex (\<lambda>name. switched_on (st_longest ops) t name acts) (order_switches source)"
proof -
  have "is_set ops t name (switch_run ops dumps acts r) \<longleftrightarrow> switched_on (st_longest ops) t name acts"
    if "name \<in> set (order_switches source)" for name
  proof -
    have "name \<in> set VALID_SWITCHES" using that order_switches_valid by blast
    then have "is_set ops t name (switch_run ops dumps acts r) \<longleftrightarrow>
        fold (on_by (st_longest ops) t name) acts (is_set ops t name r)"
      using assms(1,2) by (intro is_set_run) auto
    then show ?thesis using assms(3) by (simp add: switched_on_def is_set_def)
  qed
  then show ?thesis
    by (auto simp: assert_orders_allowed_def isl_def refuse_iff list_ex_iff)
qed

text \<open>A store for the witness.\<close>

definition sample_store :: "(string \<Rightarrow> (string \<times> int option) option) switch_store" where
  "sample_store =
     \<lparr>st_get = (\<lambda>t k m. case m k of None \<Rightarrow> None
        | Some (v, e) \<Rightarrow> (case e of None \<Rightarrow> Some v | Some d \<Rightarrow> if t < d then Some v else None)),
      st_set = (\<lambda>now k v ttl m. if ttl_accepted (\<lambda>_. 9000000000) now ttl
        then Some (m(k \<mapsto> (v, map_option (\<lambda>d. now + d * 1000000) ttl))) else None),
      st_delete = (\<lambda>k m. m(k := None)), st_longest = (\<lambda>_. 9000000000)\<rparr>"

lemma sample_store_laws: "store_laws sample_store"
  unfolding store_laws_def by (auto simp: sample_store_def split: option.split if_splits)

definition sample_switching :: "(int \<times> switch_action) list" where
  "sample_switching =
     [(0, Switch_on ''bot_orders'' ''test'' 1 (Some 10)), (1, Switch_on ''api_orders'' ''test'' 1 None),
      (2, Switch_on ''bot_orders'' ''oops'' 1 (Some (- 1)))]"

theorem switches_follow_history_witness:
  "isl (assert_orders_allowed sample_store (\<lambda>_. None) 5000000 ''bot''
      (switch_run sample_store (\<lambda>p. ''p'') sample_switching Map.empty))
   \<and> \<not> isl (assert_orders_allowed sample_store (\<lambda>_. None) 20000000 ''bot''
      (switch_run sample_store (\<lambda>p. ''p'') sample_switching Map.empty))"
proof -
  have none: "st_get sample_store t j Map.empty = None" for t j by (simp add: sample_store_def)
  have longest: "st_longest sample_store = (\<lambda>_. 9000000000)" by (simp add: sample_store_def)
  show ?thesis
    using switches_follow_history [OF sample_store_laws _ none, where dumps = "\<lambda>p. ''p''" and loads = "\<lambda>_. None" and source = "''bot''"
        and acts = sample_switching]
    by (simp add: order_switches_def switched_on_def sample_switching_def longest)
qed

section \<open>Risk\<close>

record risk_score =
  rs_score :: int
  rs_reasons :: "string list"
  rs_action :: string

definition is_blocked :: "risk_score \<Rightarrow> bool" where
  "is_blocked s \<longleftrightarrow> rs_action s = ''block''"

definition is_flagged :: "risk_score \<Rightarrow> bool" where
  "is_flagged s \<longleftrightarrow> rs_action s \<in> {''flag'', ''restrict'', ''block''}"

text \<open>
  What the counters answer to the increments, \<open>None\<close> for a failure, and the text that the daily spend
  is kept as, if it can be read at all.
\<close>

record risk_answers =
  ra_60s :: "int option"
  ra_1h :: "int option"
  ra_24h :: "int option"
  ra_spend :: "string option option"

definition velocity :: "string \<Rightarrow> int \<Rightarrow> int \<Rightarrow> int option \<Rightarrow> int \<times> string list" where
  "velocity tag limit points count =
     (case count of
        None \<Rightarrow> (0, [])
      | Some n \<Rightarrow> if limit < n then (points, [tag @ '':'' @ str_int n]) else (0, []))"

text \<open>A float without decimals in a message.\<close>

definition float_0f :: "py_float \<Rightarrow> string" where
  "float_0f x = (case x of Fin r \<Rightarrow> str_int (round_half_even r) | Inf \<Rightarrow> ''inf'' | Neg_inf \<Rightarrow> ''-inf'' | NaN \<Rightarrow> ''nan'')"

definition new_spend :: "string option \<Rightarrow> rat \<Rightarrow> py_float option" where
  "new_spend held amount =
     map_option (\<lambda>x. case x of Fin r \<Rightarrow> Fin (f_add r amount) | y \<Rightarrow> y)
       (case held of None \<Rightarrow> Some (Fin 0) | Some t \<Rightarrow> if t = [] then Some (Fin 0) else parse_float t)"

definition above_spend_limit :: "py_float \<Rightarrow> bool" where
  "above_spend_limit x \<longleftrightarrow> (case x of Fin r \<Rightarrow> 50000 < r | Inf \<Rightarrow> True | _ \<Rightarrow> False)"

definition spend_points :: "string option option \<Rightarrow> rat \<Rightarrow> int \<times> string list" where
  "spend_points answer amount =
     (case Option.bind answer (\<lambda>held. new_spend held amount) of
        None \<Rightarrow> (0, [])
      | Some x \<Rightarrow> if above_spend_limit x then (20, [''spend_limit_24h:'' @ float_0f x]) else (0, []))"

definition risk_action :: "int \<Rightarrow> string" where
  "risk_action score =
     (if 80 \<le> score then ''block'' else if 60 \<le> score then ''restrict'' else if 30 \<le> score then ''flag'' else ''allow'')"

definition evaluate_order_risk :: "risk_answers \<Rightarrow> rat \<Rightarrow> bool \<Rightarrow> bool \<Rightarrow> risk_score" where
  "evaluate_order_risk ra amount banned prem =
     (if banned then \<lparr>rs_score = 100, rs_reasons = [''account_banned''], rs_action = ''block''\<rparr>
      else
        let signals =
              [velocity ''velocity_60s'' 5 40 (ra_60s ra), velocity ''velocity_1h'' 20 25 (ra_1h ra),
               velocity ''velocity_24h'' 100 20 (ra_24h ra),
               (if 10000 < amount \<and> \<not> prem then (15, [''large_order:'' @ float_0f (Fin amount)]) else (0, [])),
               spend_points (ra_spend ra) amount];
            score = sum_list (map fst signals)
        in \<lparr>rs_score = score, rs_reasons = concat (map snd signals), rs_action = risk_action score\<rparr>)"

definition reset_risk_keys :: "string \<Rightarrow> string \<Rightarrow> int \<Rightarrow> string list" where
  "reset_risk_keys hour day uid =
     [''risk:orders:60s:'' @ str_int uid, ''risk:orders:1h:'' @ str_int uid @ '':'' @ hour,
      ''risk:orders:24h:'' @ str_int uid @ '':'' @ day, ''risk:spend:24h:'' @ str_int uid @ '':'' @ day]"

lemma velocity_cases:
  "velocity tag limit points count = (0, []) \<or> count \<noteq> None \<and> (\<exists>r. velocity tag limit points count = (points, [r]))"
  by (auto simp: velocity_def split: option.split)

lemma spend_cases: "spend_points answer amount = (0, []) \<or> (\<exists>r. spend_points answer amount = (20, [r]))"
  by (auto simp: spend_points_def split: option.split)

text \<open>
  The risk engine blocks an order of an account that is not banned only for at least three reasons at
  once, never when its counters cannot be reached, and its score is at most 120.
\<close>
theorem blocking_needs_three_reasons:
  assumes "is_blocked (evaluate_order_risk ra amount False prem)"
  shows "3 \<le> length (rs_reasons (evaluate_order_risk ra amount False prem))
     \<and> rs_score (evaluate_order_risk ra amount False prem) \<in> {80..120}
     \<and> (ra_60s ra \<noteq> None \<or> ra_1h ra \<noteq> None \<and> ra_24h ra \<noteq> None)"
  using assms velocity_cases [of "''velocity_60s''" 5 40 "ra_60s ra"] velocity_cases [of "''velocity_1h''" 20 25 "ra_1h ra"]
    velocity_cases [of "''velocity_24h''" 100 20 "ra_24h ra"] spend_cases [of "ra_spend ra" amount]
  by (elim disjE conjE exE)
     (simp_all add: evaluate_order_risk_def is_blocked_def risk_action_def Let_def split: if_splits)

definition sample_answers :: risk_answers where
  "sample_answers = \<lparr>ra_60s = Some 6, ra_1h = Some 21, ra_24h = Some 101, ra_spend = None\<rparr>"

theorem blocking_needs_three_reasons_witness:
  "rs_reasons (evaluate_order_risk sample_answers 500 False False) = [''velocity_60s:6'', ''velocity_1h:21'', ''velocity_24h:101'']
     \<and> rs_score (evaluate_order_risk sample_answers 500 False False) \<in> {80..120}"
proof -
  have nums: "str_int 6 = ''6''" "str_int 21 = ''21''" "str_int 101 = ''101''" by code_simp+
  have blocked: "is_blocked (evaluate_order_risk sample_answers 500 False False)"
    by (simp add: evaluate_order_risk_def is_blocked_def risk_action_def sample_answers_def velocity_def spend_points_def)
  show ?thesis
    using blocking_needs_three_reasons [OF blocked]
    by (simp add: evaluate_order_risk_def sample_answers_def velocity_def spend_points_def nums)
qed

end
