(* ===== verification/FxRates.thy ===== *)
theory FxRates
  imports SMMProMax Quantize
begin

text \<open>
  \<open>app/fx/rates.py\<close>: the exchange rate of the second generation. What Redis and the sources answer is an
  argument; the arithmetic of the third source, which needs a paid key, is left out: its answer is an
  argument as a whole. The lemmas show that the rate used for prices is always in the accepted range.
\<close>

definition FALLBACK_RATE :: rat where "FALLBACK_RATE = 83"
definition MIN_VALID_RATE :: rat where "MIN_VALID_RATE = 60"
definition MAX_VALID_RATE :: rat where "MAX_VALID_RATE = 130"

text \<open>Comparing a NaN raises, and the caller goes on without the rate.\<close>

definition valid_rate :: "py_decimal \<Rightarrow> rat option" where
  "valid_rate d = (case d of
     Dec r \<Rightarrow> if MIN_VALID_RATE \<le> r \<and> r \<le> MAX_VALID_RATE then Some r else None
   | _ \<Rightarrow> None)"

section \<open>Reading\<close>

text \<open>What the cache answers: not reachable, nothing, or the text it holds.\<close>

datatype cache_answer = Unreachable | Absent | Held string

definition get_usd_to_inr_rate :: "cache_answer \<Rightarrow> rat" where
  "get_usd_to_inr_rate cached =
     (case cached of
        Held text \<Rightarrow>
          if text = [] then FALLBACK_RATE
          else (case Option.bind (parse_py_decimal text) valid_rate of Some r \<Rightarrow> r | None \<Rightarrow> FALLBACK_RATE)
      | _ \<Rightarrow> FALLBACK_RATE)"

section \<open>The sources\<close>

definition body_of :: "http_reply \<Rightarrow> json_obj option" where
  "body_of reply = (case reply of Reply status (Some (Jobj kvs)) \<Rightarrow> if status = 200 then Some kvs else None | _ \<Rightarrow> None)"

text \<open>The rows of the first source that are tried: the first entry for the dollar decides.\<close>

fun usd_item :: "(json \<Rightarrow> string) \<Rightarrow> json list \<Rightarrow> py_decimal option" where
  "usd_item str [] = None"
| "usd_item str (Jobj kvs # items) =
     (case get_or ''currency'' (Jtext []) kvs of
        Jtext t \<Rightarrow>
          if upper t = ''USD'' then Option.bind (obj_get ''rate'' kvs) (\<lambda>v. parse_py_decimal (str v))
          else usd_item str items
      | _ \<Rightarrow> None)"
| "usd_item str (_ # items) = None"

definition json_truthy :: "json \<Rightarrow> bool" where
  "json_truthy v =
     (case v of
        Jnull \<Rightarrow> False | Jbool b \<Rightarrow> b | Jint i \<Rightarrow> i \<noteq> 0 | Jfloat x \<Rightarrow> x \<noteq> Fin 0 | Jtext t \<Rightarrow> t \<noteq> []
      | Jarray vs \<Rightarrow> vs \<noteq> [] | Jobj kvs \<Rightarrow> kvs \<noteq> [])"

definition truthy_or :: "json option \<Rightarrow> json option \<Rightarrow> json option" where
  "truthy_or a b = (case a of Some v \<Rightarrow> if json_truthy v then Some v else b | None \<Rightarrow> b)"

definition fetch_rbi :: "(json \<Rightarrow> string) \<Rightarrow> http_reply \<Rightarrow> py_decimal option" where
  "fetch_rbi str reply =
     (case body_of reply of
        None \<Rightarrow> None
      | Some data \<Rightarrow> (case truthy_or (obj_get ''rates'' data) (obj_get ''data'' data) of
          Some (Jarray items) \<Rightarrow> usd_item str items
        | _ \<Rightarrow> None))"

definition quantized :: "py_decimal \<Rightarrow> py_decimal option" where
  "quantized d = (case d of Dec r \<Rightarrow> Some (Dec (quant 2 r)) | Dec_inf neg \<Rightarrow> None | Dec_nan \<Rightarrow> Some Dec_nan)"

definition fetch_exchangerate_api :: "(json \<Rightarrow> string) \<Rightarrow> http_reply \<Rightarrow> py_decimal option" where
  "fetch_exchangerate_api str reply =
     (case body_of reply of
        None \<Rightarrow> None
      | Some data \<Rightarrow> (case get_or ''rates'' (Jobj []) data of
          Jobj rates \<Rightarrow> (case obj_get ''INR'' rates of
              Some inr \<Rightarrow> if json_truthy inr then Option.bind (parse_py_decimal (str inr)) quantized else None
            | None \<Rightarrow> None)
        | _ \<Rightarrow> None))"

text \<open>A source that takes too long gives nothing, like one without a usable answer.\<close>

fun first_valid :: "py_decimal option list \<Rightarrow> rat" where
  "first_valid [] = FALLBACK_RATE"
| "first_valid (answer # rest) = (case Option.bind answer valid_rate of Some r \<Rightarrow> r | None \<Rightarrow> first_valid rest)"

definition fetch_rate_with_fallback ::
  "(json \<Rightarrow> string) \<Rightarrow> http_reply \<Rightarrow> http_reply \<Rightarrow> py_decimal option \<Rightarrow> rat" where
  "fetch_rate_with_fallback str rbi era fixer =
     first_valid [fetch_rbi str rbi, fetch_exchangerate_api str era, fixer]"

text \<open>The rate, and what the cache holds afterwards if it can be written.\<close>

definition refresh_usd_to_inr_rate ::
  "(json \<Rightarrow> string) \<Rightarrow> (rat \<Rightarrow> string) \<Rightarrow> http_reply \<Rightarrow> http_reply \<Rightarrow> py_decimal option \<Rightarrow> bool \<Rightarrow> cache_answer
    \<Rightarrow> rat \<times> cache_answer" where
  "refresh_usd_to_inr_rate str text rbi era fixer writable cached =
     (let rate = fetch_rate_with_fallback str rbi era fixer
      in (rate, if writable then Held (text rate) else cached))"

text \<open>Seconds since the rate was written, from the time to live that the cache answers.\<close>

definition get_cached_rate_age :: "int option \<Rightarrow> int option" where
  "get_cached_rate_age ttl = (case ttl of Some t \<Rightarrow> if t < 0 then None else Some (3600 - t) | None \<Rightarrow> None)"

section \<open>The accepted range\<close>

lemma valid_rate_range: "valid_rate d = Some r \<Longrightarrow> MIN_VALID_RATE \<le> r \<and> r \<le> MAX_VALID_RATE"
  by (auto simp: valid_rate_def split: py_decimal.splits if_splits)

lemma fallback_range: "MIN_VALID_RATE \<le> FALLBACK_RATE \<and> FALLBACK_RATE \<le> MAX_VALID_RATE"
  by (simp add: MIN_VALID_RATE_def FALLBACK_RATE_def MAX_VALID_RATE_def)

lemma first_valid_range: "MIN_VALID_RATE \<le> first_valid answers \<and> first_valid answers \<le> MAX_VALID_RATE"
  by (induction answers) (auto simp: fallback_range bind_eq_Some_conv dest: valid_rate_range split: option.split)

text \<open>
  Whatever the sources and the cache answer, the rate that is fetched and the rate that is used for
  prices lie between 60 and 130.
\<close>
theorem rate_in_range:
  "{get_usd_to_inr_rate cached, fst (refresh_usd_to_inr_rate str text rbi era fixer writable cached)}
     \<subseteq> {MIN_VALID_RATE..MAX_VALID_RATE}"
  using first_valid_range fallback_range
  by (auto simp: get_usd_to_inr_rate_def refresh_usd_to_inr_rate_def fetch_rate_with_fallback_def bind_eq_Some_conv
      dest: valid_rate_range split: cache_answer.split option.split)

lemma refreshed_rate_is_used:
  assumes "\<And>r. parse_py_decimal (text r) = Some (Dec r)" and "\<And>r. text r \<noteq> []"
    and "refresh_usd_to_inr_rate str text rbi era fixer True cached = (rate, cached')"
  shows "get_usd_to_inr_rate cached' = rate"
proof -
  have "valid_rate (Dec rate) = Some rate"
    using assms(3) first_valid_range
    by (auto simp: refresh_usd_to_inr_rate_def fetch_rate_with_fallback_def Let_def valid_rate_def simp del: first_valid.simps)
  then show ?thesis
    using assms by (auto simp: refresh_usd_to_inr_rate_def get_usd_to_inr_rate_def Let_def)
qed

end
