(* ===== verification/OrderEngine.thy ===== *)
theory OrderEngine
  imports Ledger PriceEngine Premium Coupons Guards FxRates
begin

text \<open>
  \<open>app/orders/engine.py\<close>: the order pipeline of the second generation, composed of the switches, the
  subscription, the price, the risk engine and the ledger. What the registry of providers would answer is
  an argument; whether it is asked at all depends on the keywords of the call. The lemmas show what a
  failed and what an accepted order does to the wallets, and that with the keywords of the code no order
  is ever accepted.
\<close>

section \<open>Rows\<close>

record provider_link =
  lk_service :: int
  lk_provider :: int
  lk_provider_svc :: string
  lk_primary :: bool

record engine_provider =
  ep_provider :: int
  ep_active :: bool
  ep_currency :: string

record engine_provider_service =
  es_provider :: int
  es_svc :: string
  es_rate :: rat
  es_min_qty :: int
  es_max_qty :: int
  es_refill :: bool
  es_cancel :: bool

record engine_order =
  en_id :: string
  en_public_ref :: string
  en_user :: int
  en_tenant :: "int option"
  en_service :: int
  en_provider :: int
  en_provider_svc :: string
  en_provider_order :: "string option"
  en_status :: string
  en_quantity :: int
  en_link :: "string option"
  en_price :: rat
  en_cost :: rat
  en_key :: string
  en_source :: string
  en_priority :: int
  en_refillable :: bool
  en_cancellable :: bool
  en_remains :: "int option"
  en_start_count :: "int option"
  en_updated_at :: int
  en_completed_at :: "int option"

record engine_db =
  eg_services :: "smm_svc list"
  eg_links :: "provider_link list"
  eg_providers :: "engine_provider list"
  eg_provider_services :: "engine_provider_service list"
  eg_pricing :: pricing_db
  eg_coupons :: coupon_db
  eg_premium :: premium_db
  eg_ledger :: ledger_db
  eg_orders :: "engine_order list"

type_synonym 'a engine_result = "(smm_exn + 'a) \<times> engine_db"

text \<open>The clock, fresh identifiers, and what Redis answers to the price and to the risk engine.\<close>

record engine_env =
  ee_now :: int
  ee_uuid :: string
  ee_order_id :: string
  ee_public_ref :: string
  ee_ledger :: ledger_env
  ee_coupon :: coupon_env
  ee_rate :: cache_answer
  ee_risk :: risk_answers

record order_ask =
  oa_user :: int
  oa_service :: int
  oa_quantity :: int
  oa_link :: "string option"
  oa_key :: "string option"
  oa_source :: string
  oa_confirmed :: "rat option"
  oa_coupon :: "string option"
  oa_tenant :: "int option"

section \<open>Steps of the pipeline\<close>

definition or_empty :: "string option \<Rightarrow> string" where
  "or_empty t = (case t of None \<Rightarrow> [] | Some x \<Rightarrow> x)"

definition order_idem_key :: "engine_env \<Rightarrow> order_ask \<Rightarrow> string" where
  "order_idem_key env ask = (if or_empty (oa_key ask) = [] then ee_uuid env else or_empty (oa_key ask))"

definition orderable_service :: "int \<Rightarrow> engine_db \<Rightarrow> smm_exn + smm_svc" where
  "orderable_service sid s =
     (case find_by sv_id sid (eg_services s) of
        None \<Rightarrow> Inl (raise_smm ServiceNotFoundError)
      | Some svc \<Rightarrow> if sv_is_active svc \<and> sv_ordering svc then Inr svc else Inl (raise_smm ServiceUnavailableError))"

definition provider_for :: "int \<Rightarrow> int \<Rightarrow> engine_db \<Rightarrow> smm_exn + provider_link \<times> engine_provider \<times> engine_provider_service" where
  "provider_for sid quantity s =
     (case filter (\<lambda>l. lk_service l = sid \<and> lk_primary l) (eg_links s) of
        [] \<Rightarrow> Inl (raise_with SMMOrderError ''Service is not currently available.'')
      | [l] \<Rightarrow> (case find_by ep_provider (lk_provider l) (eg_providers s) of
            None \<Rightarrow> Inl (raise_with SMMOrderError ''Service provider is temporarily unavailable.'')
          | Some p \<Rightarrow>
              if \<not> ep_active p then Inl (raise_with SMMOrderError ''Service provider is temporarily unavailable.'')
              else (case find (\<lambda>q. es_provider q = lk_provider l \<and> es_svc q = lk_provider_svc l) (eg_provider_services s) of
                  None \<Rightarrow> Inl (raise_with SMMOrderError ''Service is not currently available.'')
                | Some q \<Rightarrow>
                    if quantity < es_min_qty q \<or> es_max_qty q < quantity
                    then Inl (raise_with ValidationError (''Quantity must be between '' @ grouped (es_min_qty q) @
                           '' and '' @ grouped (es_max_qty q) @ ''.''))
                    else Inr (l, p, q)))
      | _ \<Rightarrow> Inl (Py ''MultipleResultsFound''))"

text \<open>The preview is asked without the order's amount; whatever it raises counts as no discount.\<close>

definition coupon_flat :: "engine_env \<Rightarrow> order_ask \<Rightarrow> engine_db \<Rightarrow> rat" where
  "coupon_flat env ask s =
     (if or_empty (oa_coupon ask) = [] then 0
      else case preview_coupon (ee_coupon env) (or_empty (oa_coupon ask)) (oa_user ask) (Some (oa_service ask)) 0 (eg_coupons s) of
          Inl e \<Rightarrow> 0
        | Inr d \<Rightarrow> d)"

definition order_price ::
  "engine_env \<Rightarrow> order_ask \<Rightarrow> smm_svc \<Rightarrow> engine_provider \<Rightarrow> engine_provider_service \<Rightarrow> rat \<Rightarrow> engine_db \<Rightarrow> smm_exn + price_result" where
  "order_price env ask svc p q premium_pct s =
     (let flat = coupon_flat env ask s
      in calculate_price (eg_pricing s) svc (oa_quantity ask) (es_rate q) (ep_currency p)
           (get_usd_to_inr_rate (ee_rate env)) None (if 0 < flat then Some flat else None) (Some premium_pct))"

definition order_risk :: "engine_env \<Rightarrow> rat \<Rightarrow> smm_exn + unit" where
  "order_risk env price =
     (if is_blocked (evaluate_order_risk (ee_risk env) (fl64 price) False False)
      then Inl (raise_with SMMOrderError
        ''Your order could not be processed. Please contact support if you believe this is an error.'')
      else Inr ())"

text \<open>
  The keywords with which the method of the registry can be called, and those of the call: an unknown or
  a missing one is a \<open>TypeError\<close>.
\<close>

definition registry_parameters :: "string list" where
  "registry_parameters = [''provider_id'', ''req'']"

definition submission_keywords :: "string list" where
  "submission_keywords = [''provider_id'', ''provider_svc_id'', ''quantity'', ''link'']"

definition called_with :: "string list \<Rightarrow> string list \<Rightarrow> smm_exn + 'a \<Rightarrow> smm_exn + 'a" where
  "called_with parameters keywords answer =
     (if set keywords = set parameters then answer else Inl (Py ''TypeError''))"

definition submit_to_provider :: "smm_exn + string \<Rightarrow> smm_exn + string" where
  "submit_to_provider answer = called_with registry_parameters submission_keywords answer"

section \<open>Orders\<close>

text \<open>The ledger's keys for the charge of an order, for what makes up for it, and for a refund.\<close>

definition debit_key :: "string \<Rightarrow> string" where "debit_key k = ''order_debit:'' @ k"
definition refund_key :: "string \<Rightarrow> string" where "refund_key k = ''order_refund:'' @ k"
definition manual_key :: "string \<Rightarrow> string" where "manual_key k = ''manual_refund:'' @ k"

lemma pipeline_keys [simp]:
  "debit_key a = debit_key b \<longleftrightarrow> a = b" "refund_key a = refund_key b \<longleftrightarrow> a = b" "manual_key a = manual_key b \<longleftrightarrow> a = b"
  "debit_key a \<noteq> refund_key b" "refund_key b \<noteq> debit_key a" "debit_key a \<noteq> manual_key b" "manual_key b \<noteq> debit_key a"
  "refund_key a \<noteq> manual_key b" "manual_key b \<noteq> refund_key a"
  by (simp_all add: debit_key_def refund_key_def manual_key_def)

definition new_engine_order ::
  "engine_env \<Rightarrow> order_ask \<Rightarrow> provider_link \<Rightarrow> engine_provider \<Rightarrow> engine_provider_service \<Rightarrow> price_result \<Rightarrow> int \<Rightarrow> engine_order" where
  "new_engine_order env ask l p q pr priority =
     \<lparr>en_id = ee_order_id env, en_public_ref = ee_public_ref env, en_user = oa_user ask, en_tenant = oa_tenant ask,
      en_service = oa_service ask, en_provider = ep_provider p, en_provider_svc = lk_provider_svc l,
      en_provider_order = None, en_status = ''pending'', en_quantity = oa_quantity ask, en_link = oa_link ask,
      en_price = pc_price pr, en_cost = pc_cost pr, en_key = order_idem_key env ask, en_source = oa_source ask,
      en_priority = priority, en_refillable = es_refill q, en_cancellable = es_cancel q, en_remains = None,
      en_start_count = None, en_updated_at = ee_now env, en_completed_at = None\<rparr>"

definition update_engine_order :: "string \<Rightarrow> (engine_order \<Rightarrow> engine_order) \<Rightarrow> engine_db \<Rightarrow> engine_db" where
  "update_engine_order oid f s = s\<lparr>eg_orders := upd_by en_id oid f (eg_orders s)\<rparr>"

text \<open>Debit, order row, submission, and the credit that makes up for a failed submission.\<close>

definition charge_and_submit ::
  "engine_env \<Rightarrow> smm_exn + string \<Rightarrow> smm_svc \<Rightarrow> engine_order \<Rightarrow> engine_db \<Rightarrow> engine_order engine_result" where
  "charge_and_submit env outcome svc o' s =
     (case ledger_debit (ee_ledger env) (en_user o') (en_price o') ORDER_DEBIT (debit_key (en_key o')) None
             (Some (''Order for service '' @ sv_public_id svc @ '' x'' @ str_int (en_quantity o'))) (eg_ledger s) of
        (Inl e, lg) \<Rightarrow> (Inl e, s\<lparr>eg_ledger := lg\<rparr>)
      | (Inr tx, lg) \<Rightarrow>
          let s = s\<lparr>eg_ledger := lg\<rparr>
          in if list_ex (\<lambda>x. en_id x = en_id o' \<or> en_public_ref x = en_public_ref o') (eg_orders s)
             then (Inl (Py ''IntegrityError''), s)
             else
               let s = s\<lparr>eg_orders := eg_orders s @ [o']\<rparr>
               in case outcome of
                    Inr provider_order \<Rightarrow>
                      let done_order = o'\<lparr>en_provider_order := Some provider_order, en_status := ''processing''\<rparr>
                      in (Inr done_order, update_engine_order (en_id o') (\<lambda>_. done_order) s)
                  | Inl e \<Rightarrow>
                      let s = update_engine_order (en_id o') (\<lambda>x. x\<lparr>en_status := ''failed''\<rparr>) s
                      in case ledger_credit (ee_ledger env) (en_user o') (en_price o') REFUND (refund_key (en_key o'))
                           (Some (en_id o')) (Some (''Auto-refund: provider error for order '' @ en_public_ref o')) (eg_ledger s) of
                        (Inl e, lg) \<Rightarrow> (Inl e, s\<lparr>eg_ledger := lg\<rparr>)
                      | (Inr tx, lg) \<Rightarrow> (Inl (raise_with SMMOrderError
                           ''Order could not be submitted. Your balance has been refunded.''), s\<lparr>eg_ledger := lg\<rparr>))"

definition create_order_with ::
  "'r switch_store \<Rightarrow> (string \<Rightarrow> string option) \<Rightarrow> 'r \<Rightarrow> engine_env \<Rightarrow> smm_exn + string \<Rightarrow> order_ask \<Rightarrow> engine_db
    \<Rightarrow> engine_order engine_result" where
  "create_order_with ops loads r env outcome ask s =
     (case assert_orders_allowed ops loads (ee_now env) (oa_source ask) r of
        Inl e \<Rightarrow> (Inl e, s)
      | Inr u \<Rightarrow> (case orderable_service (oa_service ask) s of
        Inl e \<Rightarrow> (Inl e, s)
      | Inr svc \<Rightarrow> (case apply_premium_to_order (ee_now env) (oa_user ask) (sv_requires_premium svc) (oa_quantity ask) (eg_premium s) of
        (Inl e, pm) \<Rightarrow> (Inl e, s\<lparr>eg_premium := pm\<rparr>)
      | (Inr terms, pm) \<Rightarrow>
          let s = s\<lparr>eg_premium := pm\<rparr>
          in case provider_for (oa_service ask) (oa_quantity ask) s of
        Inl e \<Rightarrow> (Inl e, s)
      | Inr (l, p, q) \<Rightarrow> (case order_price env ask svc p q (pt_discount_pct terms) s of
        Inl e \<Rightarrow> (Inl e, s)
      | Inr pr \<Rightarrow>
          if \<not> (case oa_confirmed ask of None \<Rightarrow> True | Some c \<Rightarrow> verify_price_unchanged c (pc_price pr) None)
          then (Inl (raise_smm PriceChangedError), s)
          else (case find_by en_key (order_idem_key env ask) (eg_orders s) of
              Some existing \<Rightarrow> (Inr existing, s)
            | None \<Rightarrow> (case order_risk env (pc_price pr) of
                Inl e \<Rightarrow> (Inl e, s)
              | Inr u \<Rightarrow> charge_and_submit env outcome svc (new_engine_order env ask l p q pr (pt_priority terms)) s))))))"

definition engine_create_order ::
  "'r switch_store \<Rightarrow> (string \<Rightarrow> string option) \<Rightarrow> 'r \<Rightarrow> engine_env \<Rightarrow> smm_exn + string \<Rightarrow> order_ask \<Rightarrow> engine_db
    \<Rightarrow> engine_order engine_result" where
  "engine_create_order ops loads r env answer ask s = create_order_with ops loads r env (submit_to_provider answer) ask s"

definition update_order_status ::
  "int \<Rightarrow> string \<Rightarrow> string \<Rightarrow> int option \<Rightarrow> int option \<Rightarrow> engine_db \<Rightarrow> unit engine_result" where
  "update_order_status now oid status remains start_count s =
     (case find_by en_id oid (eg_orders s) of
        None \<Rightarrow> (Inl (raise_smm OrderNotFoundError), s)
      | Some x \<Rightarrow>
          let final = status \<in> {''completed'', ''partial'', ''failed'', ''cancelled'', ''refunded''}
          in (Inr (), update_engine_order oid (\<lambda>o'. o'
               \<lparr>en_status := status, en_updated_at := now,
                en_remains := (case remains of None \<Rightarrow> en_remains o' | Some n \<Rightarrow> Some n),
                en_start_count := (case start_count of None \<Rightarrow> en_start_count o' | Some n \<Rightarrow> Some n),
                en_completed_at := (if final then Some now else en_completed_at o'),
                en_cancellable := (if final then False else en_cancellable o')\<rparr>) s))"

text \<open>The order is a row of the session.\<close>

definition refund_order :: "engine_env \<Rightarrow> string \<Rightarrow> string \<Rightarrow> engine_db \<Rightarrow> unit engine_result" where
  "refund_order env oid reason s =
     (case find_by en_id oid (eg_orders s) of
        None \<Rightarrow> (Inr (), s)
      | Some o' \<Rightarrow>
          if en_price o' \<le> 0 then (Inr (), s)
          else case ledger_credit (ee_ledger env) (en_user o') (en_price o') REFUND (manual_key (en_id o'))
                 (Some (en_id o')) (Some reason) (eg_ledger s) of
              (Inl e, lg) \<Rightarrow> (Inl e, s\<lparr>eg_ledger := lg\<rparr>)
            | (Inr tx, lg) \<Rightarrow> (Inr (), update_engine_order oid
                 (\<lambda>x. x\<lparr>en_status := ''refunded'', en_updated_at := ee_now env\<rparr>) (s\<lparr>eg_ledger := lg\<rparr>)))"

section \<open>Wallets and keys\<close>

definition balance_of :: "int \<Rightarrow> engine_db \<Rightarrow> rat option" where
  "balance_of uid s = map_option wl_balance (wallet_of uid (eg_ledger s))"

lemma balance_of_simps [simp]:
  "balance_of v (s\<lparr>eg_orders := os\<rparr>) = balance_of v s" "balance_of v (s\<lparr>eg_premium := pm\<rparr>) = balance_of v s"
  "balance_of v (update_engine_order i f s) = balance_of v s"
  by (simp_all add: balance_of_def update_engine_order_def)

definition moved :: "int \<Rightarrow> rat \<Rightarrow> ledger_db \<Rightarrow> ledger_db \<Rightarrow> bool" where
  "moved uid d s t \<longleftrightarrow>
     map_option wl_balance (wallet_of uid t) = map_option (\<lambda>w. wl_balance w + d) (wallet_of uid s) \<and>
     (\<forall>v. v \<noteq> uid \<longrightarrow> map_option wl_balance (wallet_of v t) = map_option wl_balance (wallet_of v s))"

definition accounts :: "ledger_db \<Rightarrow> (int \<times> int) set" where
  "accounts s = set (map (\<lambda>w. (wl_id w, wl_user w)) (lg_wallets s))"

text \<open>What a transaction adds to its wallet; what it takes is negative.\<close>

definition tx_step :: "wallet_tx \<Rightarrow> rat" where "tx_step tx = tx_after tx - tx_before tx"

lemma execute_success:
  assumes "execute_transaction env uid amount kind key cr ref why s = (Inr tx, t)"
    and "find_by_idempotency_key key s = None"
  shows "moved uid (if cr then amount else - amount) s t \<and> 0 < amount \<and> tx_key tx = key \<and> lg_txs t = lg_txs s @ [tx] \<and>
    tx_step tx = (if cr then amount else - amount) \<and> (tx_wallet tx, uid) \<in> accounts s \<and> accounts t = accounts s \<and>
    (\<exists>b. map_option wl_balance (wallet_of uid s) = Some b \<and> (cr \<or> amount \<le> b))"
proof -
  obtain w where w: "wallet_of uid s = Some w" "0 < amount" "cr \<or> amount \<le> wl_balance w"
    using assms by (auto simp: execute_transaction_def Let_def split: option.splits if_splits)
  then have "t = s\<lparr>lg_wallets := upd_by wl_user uid (\<lambda>u. u\<lparr>wl_balance := wl_balance w + (if cr then amount else - amount)\<rparr>) (lg_wallets s),
      lg_txs := lg_txs s @ [tx]\<rparr>" "tx_key tx = key" "tx_step tx = (if cr then amount else - amount)" "tx_wallet tx = wl_id w"
    using assms by (auto simp: execute_transaction_def tx_step_def Let_def split: if_splits)
  moreover have "(wl_id w, uid) \<in> accounts s"
    using w(1) by (auto simp: accounts_def wallet_of_def image_iff dest!: find_by_Some intro!: bexI [of _ w])
  moreover have "accounts (s\<lparr>lg_wallets := upd_by wl_user uid (\<lambda>u. u\<lparr>wl_balance := b\<rparr>) (lg_wallets s), lg_txs := txs\<rparr>) = accounts s" for b txs
    by (simp add: accounts_def)
  ultimately show ?thesis using w by (auto simp: moved_def wallet_of_def find_by_upd_by)
qed

lemma execute_failure: "execute_transaction env uid amount kind key cr ref why s = (Inl e, t) \<Longrightarrow> t = s"
  by (auto simp: execute_transaction_def Let_def split: option.splits if_splits)

lemma credit_succeeds:
  assumes "find_by_idempotency_key key s = None" and "wallet_of uid s = Some w" and "0 < amount"
  obtains tx t where "ledger_credit env uid amount kind key ref why s = (Inr tx, t)"
  using assms by (auto simp: ledger_credit_def execute_transaction_def Let_def)

lemma moved_back:
  assumes "moved uid d s t" and "moved uid (- d) t u"
  shows "map_option wl_balance (wallet_of v u) = map_option wl_balance (wallet_of v s)"
proof (cases "v = uid")
  case True
  show ?thesis
    using assms unfolding moved_def True
    by (cases "wallet_of uid s"; cases "wallet_of uid t"; cases "wallet_of uid u") auto
qed (use assms in \<open>simp add: moved_def\<close>)

text \<open>What the debit, the row, the submission and the credit amount to.\<close>

lemma charge_and_submit_cases:
  assumes debit_new: "find_by_idempotency_key (debit_key (en_key o')) (eg_ledger s) = None"
    and refund_new: "find_by_idempotency_key (refund_key (en_key o')) (eg_ledger s) = None"
    and fresh: "\<not> list_ex (\<lambda>x. en_id x = en_id o' \<or> en_public_ref x = en_public_ref o') (eg_orders s)"
  obtains (refused) e where "charge_and_submit env outcome svc o' s = (Inl e, s)"
  | (failed) e where "fst (charge_and_submit env outcome svc o' s) = Inl e" "isl outcome"
      "e = raise_with SMMOrderError ''Order could not be submitted. Your balance has been refunded.''"
      "\<And>v. balance_of v (snd (charge_and_submit env outcome svc o' s)) = balance_of v s"
  | (placed) p lg tx where "outcome = Inr p"
      "charge_and_submit env outcome svc o' s = (Inr (o'\<lparr>en_provider_order := Some p, en_status := ''processing''\<rparr>),
         s\<lparr>eg_ledger := lg, eg_orders := eg_orders s @ [o'\<lparr>en_provider_order := Some p, en_status := ''processing''\<rparr>]\<rparr>)"
      "moved (en_user o') (- en_price o') (eg_ledger s) lg" "0 < en_price o'"
      "tx_key tx = debit_key (en_key o')" "lg_txs lg = lg_txs (eg_ledger s) @ [tx]"
      "tx_step tx = - en_price o'" "(tx_wallet tx, en_user o') \<in> accounts (eg_ledger s)" "accounts lg = accounts (eg_ledger s)"
      "lg = snd (ledger_debit (ee_ledger env) (en_user o') (en_price o') ORDER_DEBIT (debit_key (en_key o')) None
         (Some (''Order for service '' @ sv_public_id svc @ '' x'' @ str_int (en_quantity o'))) (eg_ledger s))"
proof -
  let ?why = "Some (''Order for service '' @ sv_public_id svc @ '' x'' @ str_int (en_quantity o'))"
  let ?debit = "ledger_debit (ee_ledger env) (en_user o') (en_price o') ORDER_DEBIT (debit_key (en_key o')) None ?why (eg_ledger s)"
  show thesis
  proof (cases ?debit)
    case (Pair r lg)
    show thesis
    proof (cases r)
      case (Inl e)
      then have "lg = eg_ledger s" using Pair execute_failure by (simp add: ledger_debit_def)
      then show thesis using refused Pair Inl by (simp add: charge_and_submit_def)
    next
      case (Inr tx)
      have exec: "execute_transaction (ee_ledger env) (en_user o') (en_price o') ORDER_DEBIT (debit_key (en_key o'))
          False None ?why (eg_ledger s) = (Inr tx, lg)"
        using Pair Inr by (simp add: ledger_debit_def)
      note booked = execute_success [OF exec debit_new, simplified if_False]
      have lg: "lg = snd ?debit" using Pair by simp
      have moved: "moved (en_user o') (- en_price o') (eg_ledger s) lg" using booked by simp
      have ids: "x \<in> set (eg_orders s) \<Longrightarrow> en_id x \<noteq> en_id o'" for x using fresh by (auto simp: list_ex_iff)
      show thesis
      proof (cases outcome)
        case (Inr p)
        have "upd_by en_id (en_id o') f (eg_orders s) = eg_orders s" for f
          by (rule upd_by_idle) (use ids in force)
        then have "charge_and_submit env outcome svc o' s = (Inr (o'\<lparr>en_provider_order := Some p, en_status := ''processing''\<rparr>),
            s\<lparr>eg_ledger := lg, eg_orders := eg_orders s @ [o'\<lparr>en_provider_order := Some p, en_status := ''processing''\<rparr>]\<rparr>)"
          using Pair \<open>r = Inr tx\<close> Inr fresh by (simp add: charge_and_submit_def Let_def update_engine_order_def upd_by_def)
        then show thesis using placed [OF Inr _ moved _ _ _ _ _ _ lg] booked by blast
      next
        case (Inl e)
        obtain b where "map_option wl_balance (wallet_of (en_user o') (eg_ledger s)) = Some b" using booked by blast
        then obtain w where w: "wallet_of (en_user o') lg = Some w"
          using moved by (cases "wallet_of (en_user o') lg") (auto simp: moved_def)
        have unused: "find_by_idempotency_key (refund_key (en_key o')) lg = None"
          using refund_new booked by (simp add: find_by_idempotency_key_def find_by_append)
        obtain tx' lg' where credit: "ledger_credit (ee_ledger env) (en_user o') (en_price o') REFUND (refund_key (en_key o'))
            (Some (en_id o')) (Some (''Auto-refund: provider error for order '' @ en_public_ref o')) lg = (Inr tx', lg')"
          using credit_succeeds [OF unused w] booked by blast
        have undone: "moved (en_user o') (- (- en_price o')) lg lg'"
          using execute_success [OF credit [unfolded ledger_credit_def] unused] by simp
        have run: "charge_and_submit env outcome svc o' s =
            (Inl (raise_with SMMOrderError ''Order could not be submitted. Your balance has been refunded.''),
             update_engine_order (en_id o') (\<lambda>x. x\<lparr>en_status := ''failed''\<rparr>)
               (s\<lparr>eg_ledger := lg, eg_orders := eg_orders s @ [o']\<rparr>)\<lparr>eg_ledger := lg'\<rparr>)"
          using Pair \<open>r = Inr tx\<close> Inl fresh credit by (simp add: charge_and_submit_def Let_def update_engine_order_def)
        show thesis
        proof (rule failed)
          show "fst (charge_and_submit env outcome svc o' s) = Inl (raise_with SMMOrderError ''Order could not be submitted. Your balance has been refunded.'')"
            by (simp add: run)
          show "balance_of v (snd (charge_and_submit env outcome svc o' s)) = balance_of v s" for v
            using moved_back [OF moved undone] by (simp add: run balance_of_def)
        qed (use Inl in simp_all)
      qed
    qed
  qed
qed


lemma create_order_cases:
  obtains (stopped) e pm where "create_order_with ops loads r env outcome ask s = (Inl e, s\<lparr>eg_premium := pm\<rparr>)"
  | (replay) o' pm where "find_by en_key (order_idem_key env ask) (eg_orders s) = Some o'"
      "create_order_with ops loads r env outcome ask s = (Inr o', s\<lparr>eg_premium := pm\<rparr>)"
  | (charged) svc l p q pr terms pm where "find_by en_key (order_idem_key env ask) (eg_orders s) = None"
      "assert_orders_allowed ops loads (ee_now env) (oa_source ask) r = Inr ()"
      "orderable_service (oa_service ask) s = Inr svc"
      "apply_premium_to_order (ee_now env) (oa_user ask) (sv_requires_premium svc) (oa_quantity ask) (eg_premium s) = (Inr terms, pm)"
      "provider_for (oa_service ask) (oa_quantity ask) (s\<lparr>eg_premium := pm\<rparr>) = Inr (l, p, q)"
      "order_price env ask svc p q (pt_discount_pct terms) (s\<lparr>eg_premium := pm\<rparr>) = Inr pr"
      "case oa_confirmed ask of None \<Rightarrow> True | Some c \<Rightarrow> verify_price_unchanged c (pc_price pr) None"
      "create_order_with ops loads r env outcome ask s =
         charge_and_submit env outcome svc (new_engine_order env ask l p q pr (pt_priority terms)) (s\<lparr>eg_premium := pm\<rparr>)"
proof -
  have same: "s\<lparr>eg_premium := eg_premium s\<rparr> = s" by simp
  let ?run = "create_order_with ops loads r env outcome ask s"
  show thesis
  proof (cases "assert_orders_allowed ops loads (ee_now env) (oa_source ask) r")
    case (Inl e)
    then show thesis using stopped [of e "eg_premium s"] same by (simp add: create_order_with_def)
  next
    case allowed: (Inr u)
    show thesis
    proof (cases "orderable_service (oa_service ask) s")
      case (Inl e)
      then show thesis using stopped [of e "eg_premium s"] same allowed by (simp add: create_order_with_def)
    next
      case svc: (Inr svc)
      obtain pres pm where prem: "apply_premium_to_order (ee_now env) (oa_user ask) (sv_requires_premium svc) (oa_quantity ask)
          (eg_premium s) = (pres, pm)" by (meson surj_pair)
      let ?s = "s\<lparr>eg_premium := pm\<rparr>"
      show thesis
      proof (cases pres)
        case (Inl e)
        then show thesis using stopped [of e pm] allowed svc prem by (simp add: create_order_with_def)
      next
        case terms: (Inr terms)
        show thesis
        proof (cases "provider_for (oa_service ask) (oa_quantity ask) ?s")
          case (Inl e)
          then show thesis using stopped [of e pm] allowed svc prem terms by (simp add: create_order_with_def Let_def)
        next
          case prov: (Inr lpq)
          obtain l p q where lpq: "lpq = (l, p, q)" by (metis prod_cases3)
          note so_far = allowed svc prem terms prov lpq
          show thesis
          proof (cases "order_price env ask svc p q (pt_discount_pct terms) ?s")
            case (Inl e)
            then show thesis using stopped [of e pm] so_far by (simp add: create_order_with_def Let_def)
          next
            case pr: (Inr pr)
            show thesis
            proof (cases "case oa_confirmed ask of None \<Rightarrow> True | Some c \<Rightarrow> verify_price_unchanged c (pc_price pr) None")
              case False
              then show thesis using stopped [of "raise_smm PriceChangedError" pm] so_far pr
                by (simp add: create_order_with_def Let_def)
            next
              case True
              show thesis
              proof (cases "find_by en_key (order_idem_key env ask) (eg_orders s)")
                case (Some x)
                then show thesis using replay [of x pm] so_far pr True by (simp add: create_order_with_def Let_def)
              next
                case None
                show thesis
                proof (cases "order_risk env (pc_price pr)")
                  case (Inl e)
                  then show thesis using stopped [of e pm] so_far pr True None by (simp add: create_order_with_def Let_def)
                next
                  case (Inr u)
                  then show thesis using charged [of svc terms pm l p q pr] so_far pr True None
                    by (simp add: create_order_with_def Let_def)
                qed
              qed
            qed
          qed
        qed
      qed
    qed
  qed
qed

section \<open>Histories of committed sessions\<close>

text \<open>
  Placing an order with whatever comes of its submission, status updates, refunds, and other movements of
  money; a session that ends with an exception leaves nothing behind.
\<close>

datatype 'r engine_request =
    Place "'r switch_store" "string \<Rightarrow> string option" 'r engine_env "smm_exn + string" order_ask
  | Set_status int string string "int option" "int option"
  | Give_back engine_env string string
  | Move ledger_env int rat tx_type string bool

definition committed :: "engine_db \<Rightarrow> 'a engine_result \<Rightarrow> engine_db" where
  "committed s result = (case result of (Inl e, t) \<Rightarrow> s | (Inr x, t) \<Rightarrow> t)"

fun engine_step :: "'r engine_request \<Rightarrow> engine_db \<Rightarrow> engine_db" where
  "engine_step (Place ops loads r env outcome ask) s = committed s (create_order_with ops loads r env outcome ask s)"
| "engine_step (Set_status now oid status remains start_count) s =
     committed s (update_order_status now oid status remains start_count s)"
| "engine_step (Give_back env oid reason) s = committed s (refund_order env oid reason s)"
| "engine_step (Move env uid amount kind key cr) s =
     s\<lparr>eg_ledger := snd (execute_transaction env uid amount kind key cr None None (eg_ledger s))\<rparr>"

definition engine_run :: "'r engine_request list \<Rightarrow> engine_db \<Rightarrow> engine_db" where
  "engine_run = fold engine_step"

text \<open>The keys of the pipeline; other parts of the program book under keys of their own.\<close>

definition pipeline_key :: "string \<Rightarrow> bool" where
  "pipeline_key k \<longleftrightarrow> (\<exists>x. k \<in> {debit_key x, refund_key x, manual_key x})"

fun well_keyed :: "'r engine_request \<Rightarrow> bool" where
  "well_keyed (Move env uid amount kind key cr) = (\<not> pipeline_key key)"
| "well_keyed q = True"

text \<open>The transaction adds \<open>d\<close> to a wallet of the order's user.\<close>

definition booked_for :: "engine_db \<Rightarrow> engine_order \<Rightarrow> rat \<Rightarrow> wallet_tx \<Rightarrow> bool" where
  "booked_for s o' d tx \<longleftrightarrow> tx_step tx = d \<and> (tx_wallet tx, en_user o') \<in> accounts (eg_ledger s)"

definition engine_inv :: "engine_db \<Rightarrow> bool" where
  "engine_inv s \<longleftrightarrow> ledger_inv (eg_ledger s) \<and> distinct (map en_id (eg_orders s)) \<and> distinct (map en_key (eg_orders s)) \<and>
     (\<forall>tx \<in> set (lg_txs (eg_ledger s)). \<forall>k.
        (tx_key tx = debit_key k \<longrightarrow> (\<exists>o' \<in> set (eg_orders s). en_key o' = k \<and> booked_for s o' (- en_price o') tx)) \<and>
        tx_key tx \<noteq> refund_key k \<and>
        (tx_key tx = manual_key k \<longrightarrow> (\<exists>o' \<in> set (eg_orders s). en_id o' = k \<and> booked_for s o' (en_price o') tx))) \<and>
     (\<forall>o' \<in> set (eg_orders s). \<exists>tx \<in> set (lg_txs (eg_ledger s)). tx_key tx = debit_key (en_key o'))"

text \<open>What an order row keeps: its key, id, user and price.\<close>

definition identity_of :: "engine_order \<Rightarrow> string \<times> string \<times> int \<times> rat" where
  "identity_of o' = (en_key o', en_id o', en_user o', en_price o')"

definition same_orders :: "engine_db \<Rightarrow> engine_db \<Rightarrow> bool" where
  "same_orders s t \<longleftrightarrow> map identity_of (eg_orders t) = map identity_of (eg_orders s)"

lemma same_orders_member:
  "same_orders s t \<Longrightarrow> o' \<in> set (eg_orders s) \<Longrightarrow> \<exists>x \<in> set (eg_orders t). identity_of x = identity_of o'"
  unfolding same_orders_def by (metis (no_types, lifting) image_iff list.set_map)

lemma same_orders_sym: "same_orders s t \<Longrightarrow> same_orders t s"
  by (simp add: same_orders_def)

lemma same_orders_fst: "same_orders s t \<Longrightarrow> map en_key (eg_orders t) = map en_key (eg_orders s) \<and> map en_id (eg_orders t) = map en_id (eg_orders s)"
proof -
  assume "same_orders s t"
  then have "map fst (map identity_of (eg_orders t)) = map fst (map identity_of (eg_orders s))"
    "map (fst \<circ> snd) (map identity_of (eg_orders t)) = map (fst \<circ> snd) (map identity_of (eg_orders s))"
    by (simp_all add: same_orders_def)
  then show ?thesis by (simp add: identity_of_def comp_def)
qed

text \<open>Changing rows without their identity, and one more transaction that is none of the pipeline's.\<close>

lemma inv_same_orders:
  assumes inv: "engine_inv s" and same: "same_orders s t" and lg: "eg_ledger t = eg_ledger s"
  shows "engine_inv t"
proof -
  have booked: "booked_for t x d tx = booked_for s o' d tx \<and> en_price x = en_price o'" if "identity_of x = identity_of o'" for x o' d tx
    using that lg by (simp add: booked_for_def identity_of_def)
  have fwd: "\<exists>x \<in> set (eg_orders t). en_key x = en_key o' \<and> en_id x = en_id o' \<and> en_price x = en_price o' \<and>
      (\<forall>d. booked_for t x d tx = booked_for s o' d tx)"
    if "o' \<in> set (eg_orders s)" for o' tx
  proof -
    note there = same_orders_member [OF same that]
    then obtain x where "x \<in> set (eg_orders t)" "identity_of x = identity_of o'" by blast
    with booked [OF this(2)] show ?thesis by (auto simp: identity_of_def)
  qed
  have paid: "\<exists>tx \<in> set (lg_txs (eg_ledger s)). tx_key tx = debit_key (en_key x)" if "x \<in> set (eg_orders t)" for x
  proof -
    from same_orders_member [OF same_orders_sym [OF same] that]
    obtain o' where "o' \<in> set (eg_orders s)" "en_key o' = en_key x" by (auto simp: identity_of_def)
    then show ?thesis using inv by (metis engine_inv_def)
  qed
  have txs: "(tx_key tx = debit_key k \<longrightarrow> (\<exists>o' \<in> set (eg_orders t). en_key o' = k \<and> booked_for t o' (- en_price o') tx)) \<and>
      tx_key tx \<noteq> refund_key k \<and>
      (tx_key tx = manual_key k \<longrightarrow> (\<exists>o' \<in> set (eg_orders t). en_id o' = k \<and> booked_for t o' (en_price o') tx))"
    if tx: "tx \<in> set (lg_txs (eg_ledger s))" for tx k
  proof -
    have old: "(tx_key tx = debit_key k \<longrightarrow> (\<exists>o' \<in> set (eg_orders s). en_key o' = k \<and> booked_for s o' (- en_price o') tx)) \<and>
        tx_key tx \<noteq> refund_key k \<and>
        (tx_key tx = manual_key k \<longrightarrow> (\<exists>o' \<in> set (eg_orders s). en_id o' = k \<and> booked_for s o' (en_price o') tx))"
      using inv tx unfolding engine_inv_def by blast
    then show ?thesis using fwd by metis
  qed
  show ?thesis
    using inv txs paid same_orders_fst [OF same] by (simp add: engine_inv_def lg)
qed

lemma same_orders_update: "(\<And>x. identity_of (f x) = identity_of x) \<Longrightarrow> same_orders s (update_engine_order i f s)"
  by (simp add: same_orders_def update_engine_order_def)

lemma debit_key_unused:
  assumes "engine_inv s" and "find_by en_key k (eg_orders s) = None"
  shows "find_by_idempotency_key (debit_key k) (eg_ledger s) = None"
    and "find_by_idempotency_key (refund_key k) (eg_ledger s) = None"
proof -
  have "k \<notin> en_key ` set (eg_orders s)" using assms(2) by (simp add: find_by_None)
  then have "tx_key tx \<noteq> debit_key k \<and> tx_key tx \<noteq> refund_key k" if "tx \<in> set (lg_txs (eg_ledger s))" for tx
    using assms(1) that unfolding engine_inv_def by (metis imageI)
  then show "find_by_idempotency_key (debit_key k) (eg_ledger s) = None"
    and "find_by_idempotency_key (refund_key k) (eg_ledger s) = None"
    unfolding find_by_idempotency_key_def find_by_None by (metis imageE)+
qed

lemma engine_inv_premium [simp]: "engine_inv (s\<lparr>eg_premium := pm\<rparr>) = engine_inv s"
  by (simp add: engine_inv_def booked_for_def)


definition tx_fits :: "engine_db \<Rightarrow> wallet_tx \<Rightarrow> bool" where
  "tx_fits s tx \<longleftrightarrow> (\<forall>k.
     (tx_key tx = debit_key k \<longrightarrow> (\<exists>o' \<in> set (eg_orders s). en_key o' = k \<and> booked_for s o' (- en_price o') tx)) \<and>
     tx_key tx \<noteq> refund_key k \<and>
     (tx_key tx = manual_key k \<longrightarrow> (\<exists>o' \<in> set (eg_orders s). en_id o' = k \<and> booked_for s o' (en_price o') tx)))"

lemma engine_inv_iff:
  "engine_inv s \<longleftrightarrow> ledger_inv (eg_ledger s) \<and> distinct (map en_id (eg_orders s)) \<and> distinct (map en_key (eg_orders s)) \<and>
     (\<forall>tx \<in> set (lg_txs (eg_ledger s)). tx_fits s tx) \<and>
     (\<forall>o' \<in> set (eg_orders s). debit_key (en_key o') \<in> tx_key ` set (lg_txs (eg_ledger s)))"
proof -
  have ex: "(\<exists>tx \<in> A. tx_key tx = d) \<longleftrightarrow> d \<in> tx_key ` A" for A d by force
  show ?thesis by (simp only: engine_inv_def tx_fits_def ex)
qed

lemma tx_fits_more:
  assumes "tx_fits s tx" and "accounts (eg_ledger t) = accounts (eg_ledger s)" and "set (eg_orders s) \<subseteq> set (eg_orders t)"
  shows "tx_fits t tx"
proof -
  have "booked_for t o' d tx = booked_for s o' d tx" for o' d by (simp add: booked_for_def assms(2))
  then show ?thesis using assms(1,3) unfolding tx_fits_def by blast
qed

lemma inv_add_tx:
  assumes inv: "engine_inv s" and lg: "ledger_inv lg" "lg_txs lg = lg_txs (eg_ledger s) @ [tx]" "accounts lg = accounts (eg_ledger s)"
    and fits: "tx_fits s tx"
  shows "engine_inv (s\<lparr>eg_ledger := lg\<rparr>)"
proof -
  have "tx_fits (s\<lparr>eg_ledger := lg\<rparr>) x" if "x \<in> set (lg_txs lg)" for x
    using that inv fits lg by (auto simp: engine_inv_iff intro: tx_fits_more [of s])
  then show ?thesis using inv lg by (auto simp: engine_inv_iff)
qed

lemma inv_add_order:
  assumes inv: "engine_inv s" and lg: "ledger_inv lg" "lg_txs lg = lg_txs (eg_ledger s) @ [tx]" "accounts lg = accounts (eg_ledger s)"
    and tx: "tx_key tx = debit_key (en_key o')" "tx_step tx = - en_price o'" "(tx_wallet tx, en_user o') \<in> accounts (eg_ledger s)"
    and new: "en_key o' \<notin> en_key ` set (eg_orders s)" "en_id o' \<notin> en_id ` set (eg_orders s)"
  shows "engine_inv (s\<lparr>eg_ledger := lg, eg_orders := eg_orders s @ [o']\<rparr>)"
proof -
  let ?t = "s\<lparr>eg_ledger := lg, eg_orders := eg_orders s @ [o']\<rparr>"
  have "tx_fits ?t tx"
    using tx lg(3) by (simp add: tx_fits_def booked_for_def)
  moreover have "tx_fits ?t x" if "x \<in> set (lg_txs (eg_ledger s))" for x
    by (rule tx_fits_more [of s]) (use inv that lg(3) in \<open>auto simp: engine_inv_iff\<close>)
  ultimately show ?thesis using inv lg tx(1) new by (auto simp: engine_inv_iff)
qed

lemma stale_charge: "list_ex (\<lambda>x. en_id x = en_id o' \<or> en_public_ref x = en_public_ref o') (eg_orders s) \<Longrightarrow>
   isl (fst (charge_and_submit env outcome svc o' s))"
  by (auto simp: charge_and_submit_def split: prod.split sum.split)

lemma placing_keeps:
  assumes inv: "engine_inv s"
  shows "engine_inv (committed s (create_order_with ops loads r env outcome ask s))"
proof (rule create_order_cases [of ops loads r env outcome ask s])
  fix svc l p q pr terms pm
  let ?o = "new_engine_order env ask l p q pr (pt_priority terms)" and ?s = "s\<lparr>eg_premium := pm\<rparr>"
  assume none: "find_by en_key (order_idem_key env ask) (eg_orders s) = None"
    and run: "create_order_with ops loads r env outcome ask s = charge_and_submit env outcome svc ?o ?s"
  have key: "en_key ?o = order_idem_key env ask" by (simp add: new_engine_order_def)
  have inv': "engine_inv ?s" using inv by simp
  show ?thesis
  proof (cases "list_ex (\<lambda>x. en_id x = en_id ?o \<or> en_public_ref x = en_public_ref ?o) (eg_orders ?s)")
    case True
    then have "isl (fst (charge_and_submit env outcome svc ?o ?s))" by (rule stale_charge)
    then show ?thesis using inv by (auto simp: run committed_def isl_def split: prod.split sum.split)
  next
    case fresh: False
    have unused: "find_by_idempotency_key (debit_key (en_key ?o)) (eg_ledger ?s) = None"
      "find_by_idempotency_key (refund_key (en_key ?o)) (eg_ledger ?s) = None"
      using debit_key_unused [OF inv none] by (simp_all add: key)
    show ?thesis
    proof (rule charge_and_submit_cases [OF unused fresh, of env outcome svc])
      fix e assume "charge_and_submit env outcome svc ?o ?s = (Inl e, ?s)"
      then show ?thesis using inv by (simp add: run committed_def)
    next
      fix e assume "fst (charge_and_submit env outcome svc ?o ?s) = Inl e"
      then show ?thesis using inv by (auto simp: run committed_def split: prod.split)
    next
      fix pid lg tx
      let ?x = "?o\<lparr>en_provider_order := Some pid, en_status := ''processing''\<rparr>"
      assume ran: "charge_and_submit env outcome svc ?o ?s = (Inr ?x, ?s\<lparr>eg_ledger := lg, eg_orders := eg_orders ?s @ [?x]\<rparr>)"
        and tx: "tx_key tx = debit_key (en_key ?o)" "lg_txs lg = lg_txs (eg_ledger ?s) @ [tx]" "tx_step tx = - en_price ?o"
          "(tx_wallet tx, en_user ?o) \<in> accounts (eg_ledger ?s)" "accounts lg = accounts (eg_ledger ?s)"
        and lg: "lg = snd (ledger_debit (ee_ledger env) (en_user ?o) (en_price ?o) ORDER_DEBIT (debit_key (en_key ?o)) None
           (Some (''Order for service '' @ sv_public_id svc @ '' x'' @ str_int (en_quantity ?o))) (eg_ledger ?s))"
      have "ledger_inv lg" using inv by (simp add: lg ledger_debit_def execute_keeps engine_inv_iff)
      moreover have "en_key ?x \<notin> en_key ` set (eg_orders ?s)" "en_id ?x \<notin> en_id ` set (eg_orders ?s)"
        using none fresh by (auto simp: key find_by_None list_ex_iff)
      ultimately have "engine_inv (?s\<lparr>eg_ledger := lg, eg_orders := eg_orders ?s @ [?x]\<rparr>)"
        using tx by (intro inv_add_order [OF inv', of lg tx ?x]) simp_all
      then show ?thesis by (simp add: run committed_def ran)
    qed
  qed
qed (use inv in \<open>simp_all add: committed_def\<close>)


lemma status_keeps:
  assumes "engine_inv s"
  shows "engine_inv (committed s (update_order_status now oid status remains start_count s))"
proof (cases "find_by en_id oid (eg_orders s)")
  case (Some x)
  have "engine_inv (update_engine_order oid f s)" if "\<And>x. identity_of (f x) = identity_of x" for f
    by (rule inv_same_orders [OF assms same_orders_update]) (use that in \<open>simp_all add: update_engine_order_def\<close>)
  then show ?thesis using Some by (simp add: committed_def update_order_status_def Let_def identity_of_def)
qed (use assms in \<open>simp add: committed_def update_order_status_def\<close>)

lemma refund_keeps:
  assumes inv: "engine_inv s"
  shows "engine_inv (committed s (refund_order env oid reason s))"
proof (cases "find_by en_id oid (eg_orders s)")
  case None
  then show ?thesis using inv by (simp add: committed_def refund_order_def)
next
  case (Some o')
  then have o': "o' \<in> set (eg_orders s)" "en_id o' = oid" by (auto dest: find_by_Some)
  let ?credit = "ledger_credit (ee_ledger env) (en_user o') (en_price o') REFUND (manual_key (en_id o')) (Some (en_id o'))
      (Some reason) (eg_ledger s)"
  let ?f = "\<lambda>x. x\<lparr>en_status := ''refunded'', en_updated_at := ee_now env\<rparr>"
  have mark: "engine_inv (update_engine_order oid ?f t)" if "engine_inv t" for t
    by (rule inv_same_orders [OF that same_orders_update]) (simp_all add: update_engine_order_def identity_of_def)
  obtain r lg where credit: "?credit = (r, lg)" by (meson surj_pair)
  have "engine_inv (s\<lparr>eg_ledger := lg\<rparr>)" if r: "r = Inr tx" for tx
  proof (cases "find_by_idempotency_key (manual_key (en_id o')) (eg_ledger s)")
    case (Some x)
    then have "lg = eg_ledger s" using credit by (simp add: ledger_credit_def execute_transaction_def)
    then show ?thesis using inv by simp
  next
    case None
    have exec: "execute_transaction (ee_ledger env) (en_user o') (en_price o') REFUND (manual_key (en_id o')) True (Some (en_id o'))
        (Some reason) (eg_ledger s) = (Inr tx, lg)"
      using credit r by (simp add: ledger_credit_def)
    note booked = execute_success [OF exec None]
    have "ledger_inv lg" using inv execute_keeps exec by (metis engine_inv_iff snd_conv)
    moreover have "tx_fits s tx" using booked o' by (auto simp: tx_fits_def booked_for_def)
    ultimately show ?thesis using booked by (intro inv_add_tx [OF inv]) auto
  qed
  then have "engine_inv (update_engine_order oid ?f (s\<lparr>eg_ledger := lg\<rparr>))" if "r = Inr tx" for tx
    using mark that by blast
  then show ?thesis
    using inv Some credit by (cases r) (auto simp: committed_def refund_order_def)
qed

lemma move_keeps:
  assumes inv: "engine_inv s" and key: "\<not> pipeline_key key"
  shows "engine_inv (s\<lparr>eg_ledger := snd (execute_transaction env uid amount kind key cr ref why (eg_ledger s))\<rparr>)"
proof (cases "find_by_idempotency_key key (eg_ledger s)")
  case (Some tx)
  then show ?thesis using inv by (simp add: execute_transaction_def)
next
  case None
  obtain r lg where exec: "execute_transaction env uid amount kind key cr ref why (eg_ledger s) = (r, lg)" by (meson surj_pair)
  have "ledger_inv lg" using inv execute_keeps exec by (metis engine_inv_iff snd_conv)
  then show ?thesis
  proof (cases r)
    case (Inl e)
    then have "lg = eg_ledger s" using exec execute_failure by blast
    then show ?thesis using inv exec by simp
  next
    case (Inr tx)
    then have "tx_key tx = key" and more: "lg_txs lg = lg_txs (eg_ledger s) @ [tx]" "accounts lg = accounts (eg_ledger s)"
      using execute_success exec None by blast+
    then have "tx_fits s tx" using key by (auto simp: tx_fits_def pipeline_key_def debit_key_def refund_key_def manual_key_def)
    then show ?thesis using inv_add_tx [OF inv \<open>ledger_inv lg\<close> more] exec by simp
  qed
qed

lemma engine_step_keeps: "engine_inv s \<Longrightarrow> well_keyed q \<Longrightarrow> engine_inv (engine_step q s)"
  by (cases q) (simp_all add: placing_keeps status_keeps refund_keeps move_keeps)

lemma engine_run_keeps: "engine_inv s \<Longrightarrow> list_all well_keyed qs \<Longrightarrow> engine_inv (engine_run qs s)"
  by (induction qs arbitrary: s) (simp_all add: engine_run_def engine_step_keeps)


section \<open>Properties\<close>

text \<open>
  What the transactions booked for an order took from the wallets of its user, and what they gave back;
  and that no other wallet was touched for it.
\<close>

definition own_txs :: "engine_order \<Rightarrow> string set \<Rightarrow> engine_db \<Rightarrow> wallet_tx list" where
  "own_txs o' keys s = filter (\<lambda>t. tx_key t \<in> keys \<and> (tx_wallet t, en_user o') \<in> accounts (eg_ledger s)) (lg_txs (eg_ledger s))"

definition charged_for :: "engine_order \<Rightarrow> engine_db \<Rightarrow> rat" where
  "charged_for o' s = - sum_list (map tx_step (own_txs o' {debit_key (en_key o')} s))"

definition given_back_for :: "engine_order \<Rightarrow> engine_db \<Rightarrow> rat" where
  "given_back_for o' s = sum_list (map tx_step (own_txs o' {refund_key (en_key o'), manual_key (en_id o')} s))"

definition only_own_wallet :: "engine_order \<Rightarrow> engine_db \<Rightarrow> bool" where
  "only_own_wallet o' s \<longleftrightarrow> (\<forall>t \<in> set (lg_txs (eg_ledger s)).
     tx_key t \<in> {debit_key (en_key o'), refund_key (en_key o'), manual_key (en_id o')} \<longrightarrow>
     (tx_wallet t, en_user o') \<in> accounts (eg_ledger s))"

lemma filter_key:
  "distinct (map key xs) \<Longrightarrow> filter (\<lambda>t. key t = k) xs = (case find_by key k xs of None \<Rightarrow> [] | Some t \<Rightarrow> [t])"
proof (induction xs)
  case (Cons x xs)
  show ?case
  proof (cases "key x = k")
    case True
    then have "k \<notin> key ` set xs" using Cons.prems by simp
    then have "filter (\<lambda>t. key t = k) xs = []" by (auto simp: filter_empty_conv)
    then show ?thesis using True by simp
  next
    case False
    then show ?thesis using Cons by simp
  qed
qed simp

lemma by_identity:
  assumes "engine_inv s" "o' \<in> set (eg_orders s)" "x \<in> set (eg_orders s)" "en_key x = en_key o' \<or> en_id x = en_id o'"
  shows "x = o'"
  using assms same_id [of en_key "eg_orders s" x o'] same_id [of en_id "eg_orders s" x o'] by (auto simp: engine_inv_iff)

lemma settled_txs:
  assumes inv: "engine_inv s" and o': "o' \<in> set (eg_orders s)" and t: "t \<in> set (lg_txs (eg_ledger s))"
  shows "tx_key t = debit_key (en_key o') \<Longrightarrow> booked_for s o' (- en_price o') t"
    and "tx_key t = manual_key (en_id o') \<Longrightarrow> booked_for s o' (en_price o') t"
    and "tx_key t \<noteq> refund_key k"
proof -
  have fits: "tx_fits s t" using inv t by (simp add: engine_inv_iff)
  then show "tx_key t \<noteq> refund_key k" by (simp add: tx_fits_def)
  show "booked_for s o' (- en_price o') t" if k: "tx_key t = debit_key (en_key o')"
  proof -
    obtain x where "x \<in> set (eg_orders s)" "en_key x = en_key o'" "booked_for s x (- en_price x) t"
      using fits k unfolding tx_fits_def by metis
    with by_identity [OF inv o'] show ?thesis by blast
  qed
  show "booked_for s o' (en_price o') t" if k: "tx_key t = manual_key (en_id o')"
  proof -
    obtain x where "x \<in> set (eg_orders s)" "en_id x = en_id o'" "booked_for s x (en_price x) t"
      using fits k unfolding tx_fits_def by metis
    with by_identity [OF inv o'] show ?thesis by blast
  qed
qed

lemma settled_orders:
  assumes inv: "engine_inv s" and o': "o' \<in> set (eg_orders s)"
  shows "charged_for o' s = en_price o'" and "given_back_for o' s \<in> {0, en_price o'}" and "only_own_wallet o' s"
proof -
  let ?txs = "lg_txs (eg_ledger s)"
  note own = settled_txs [OF inv o']
  have keys: "distinct (map tx_key ?txs)" using inv by (simp add: engine_inv_iff ledger_inv_def)
  obtain tx where tx: "find_by tx_key (debit_key (en_key o')) ?txs = Some tx"
    using inv o' find_by_None [of tx_key "debit_key (en_key o')" ?txs] unfolding engine_inv_iff by (metis not_None_eq)
  have "own_txs o' {debit_key (en_key o')} s = filter (\<lambda>t. tx_key t = debit_key (en_key o')) ?txs"
    unfolding own_txs_def using own(1) by (intro filter_cong) (auto simp: booked_for_def)
  moreover have "tx_step tx = - en_price o'"
    using own(1) [of tx] find_by_Some [OF tx] by (simp add: booked_for_def)
  ultimately show "charged_for o' s = en_price o'" by (simp add: charged_for_def filter_key [OF keys] tx)
  have "own_txs o' {refund_key (en_key o'), manual_key (en_id o')} s = filter (\<lambda>t. tx_key t = manual_key (en_id o')) ?txs"
    unfolding own_txs_def using own(2,3) by (intro filter_cong) (auto simp: booked_for_def)
  moreover have "tx_step t = en_price o'" if "find_by tx_key (manual_key (en_id o')) ?txs = Some t" for t
    using own(2) [of t] find_by_Some [OF that] by (simp add: booked_for_def)
  ultimately show "given_back_for o' s \<in> {0, en_price o'}"
    by (cases "find_by tx_key (manual_key (en_id o')) ?txs") (simp_all add: given_back_for_def filter_key [OF keys])
  show "only_own_wallet o' s"
    unfolding only_own_wallet_def using own by (auto simp: booked_for_def)
qed

text \<open>
  C32: In every history of orders, status updates, refunds and other movements of money that are booked under
  keys of their own, whatever comes of the submissions: for every order in the books exactly its price was
  taken from its user's wallet, once; either nothing or exactly that price was put back into that wallet;
  nothing was booked for it in any other wallet; and the ledger stays sound.
\<close>
theorem orders_settle_once:
  assumes "engine_inv s" and "list_all well_keyed qs" and "o' \<in> set (eg_orders (engine_run qs s))"
  shows "charged_for o' (engine_run qs s) = en_price o' \<and> given_back_for o' (engine_run qs s) \<in> {0, en_price o'}
     \<and> only_own_wallet o' (engine_run qs s) \<and> ledger_inv (eg_ledger (engine_run qs s))"
  using engine_run_keeps [OF assms(1,2)] settled_orders [OF _ assms(3)] by (simp add: engine_inv_iff)

text \<open>
  C33: An order that fails after its price is known leaves every wallet as it was, and one that is placed takes
  exactly its price from the wallet of the one who asked.
\<close>
theorem charge_or_nothing:
  assumes "engine_inv s" and "find_by en_key (order_idem_key env ask) (eg_orders s) = None"
    and "ee_order_id env \<notin> en_id ` set (eg_orders s)" and "ee_public_ref env \<notin> en_public_ref ` set (eg_orders s)"
  shows "case create_order_with ops loads r env outcome ask s of
      (Inl e, t) \<Rightarrow> balance_of v t = balance_of v s
    | (Inr o', t) \<Rightarrow> 0 < en_price o' \<and> en_user o' = oa_user ask \<and> en_status o' = ''processing'' \<and>
        balance_of v t = (if v = oa_user ask then map_option (\<lambda>b. b - en_price o') (balance_of v s) else balance_of v s)"
proof (rule create_order_cases [of ops loads r env outcome ask s])
  fix svc l p q pr terms pm
  let ?o = "new_engine_order env ask l p q pr (pt_priority terms)" and ?s = "s\<lparr>eg_premium := pm\<rparr>"
  assume run: "create_order_with ops loads r env outcome ask s = charge_and_submit env outcome svc ?o ?s"
  have unused: "find_by_idempotency_key (debit_key (en_key ?o)) (eg_ledger ?s) = None"
    "find_by_idempotency_key (refund_key (en_key ?o)) (eg_ledger ?s) = None"
    using debit_key_unused [OF assms(1,2)] by (simp_all add: new_engine_order_def)
  have fresh: "\<not> list_ex (\<lambda>x. en_id x = en_id ?o \<or> en_public_ref x = en_public_ref ?o) (eg_orders ?s)"
    using assms(3,4) by (force simp: list_ex_iff new_engine_order_def)
  show ?thesis
  proof (rule charge_and_submit_cases [OF unused fresh, of env outcome svc])
    fix pid lg tx
    assume "charge_and_submit env outcome svc ?o ?s = (Inr (?o\<lparr>en_provider_order := Some pid, en_status := ''processing''\<rparr>),
        ?s\<lparr>eg_ledger := lg, eg_orders := eg_orders ?s @ [?o\<lparr>en_provider_order := Some pid, en_status := ''processing''\<rparr>]\<rparr>)"
      and "moved (en_user ?o) (- en_price ?o) (eg_ledger ?s) lg" and "0 < en_price ?o"
    then show ?thesis
      by (auto simp: run balance_of_def moved_def new_engine_order_def option.map_comp comp_def)
  qed (auto simp: run split: prod.split)
qed (use assms(2) in \<open>simp_all\<close>)

lemma submitting_fails: "submit_to_provider answer = Inl (Py ''TypeError'')"
proof -
  have "''quantity'' \<in> set submission_keywords - set registry_parameters"
    by (simp add: registry_parameters_def submission_keywords_def)
  then show ?thesis
    unfolding submit_to_provider_def called_with_def by (metis DiffE)
qed

lemma failed_charge: "isl (fst (charge_and_submit env (Inl e) svc x s))"
proof -
  obtain a lg where debit: "ledger_debit (ee_ledger env) (en_user x) (en_price x) ORDER_DEBIT (debit_key (en_key x)) None
      (Some (''Order for service '' @ sv_public_id svc @ '' x'' @ str_int (en_quantity x))) (eg_ledger s) = (a, lg)"
    by (meson surj_pair)
  obtain b lg' where credit: "ledger_credit (ee_ledger env) (en_user x) (en_price x) REFUND (refund_key (en_key x)) (Some (en_id x))
      (Some (''Auto-refund: provider error for order '' @ en_public_ref x)) lg = (b, lg')"
    by (meson surj_pair)
  show ?thesis
    using debit credit by (cases a; cases b) (simp_all add: charge_and_submit_def Let_def update_engine_order_def)
qed

text \<open>
  C34: With the keywords of the code the registry refuses the call before any provider is asked: no new order
  is ever accepted, whatever a provider would have answered. What is returned is an order that was there.
\<close>
theorem no_order_is_accepted:
  assumes "engine_create_order ops loads r env answer ask s = (Inr o', t)"
  shows "o' \<in> set (eg_orders s) \<and> en_key o' = order_idem_key env ask \<and> eg_orders t = eg_orders s \<and> eg_ledger t = eg_ledger s"
proof -
  note no = submitting_fails [of answer]
  show ?thesis
  proof (rule create_order_cases [of ops loads r env "Inl (Py ''TypeError'')" ask s])
    fix x pm
    assume "find_by en_key (order_idem_key env ask) (eg_orders s) = Some x"
      "create_order_with ops loads r env (Inl (Py ''TypeError'')) ask s = (Inr x, s\<lparr>eg_premium := pm\<rparr>)"
    then show ?thesis using assms by (auto simp: engine_create_order_def no dest: find_by_Some)
  next
    fix svc l p q pr terms pm
    assume "create_order_with ops loads r env (Inl (Py ''TypeError'')) ask s =
      charge_and_submit env (Inl (Py ''TypeError'')) svc (new_engine_order env ask l p q pr (pt_priority terms)) (s\<lparr>eg_premium := pm\<rparr>)"
    then show ?thesis
      using assms failed_charge [of env "Py ''TypeError''" svc "new_engine_order env ask l p q pr (pt_priority terms)" "s\<lparr>eg_premium := pm\<rparr>"]
      by (simp add: engine_create_order_def no)
  qed (use assms in \<open>simp_all add: engine_create_order_def no\<close>)
qed

lemma no_coupon_flat: "coupon_flat env ask s = 0"
  by (auto simp: coupon_flat_def preview_coupon_def calculate_discount_def Let_def split: sum.split option.split)

text \<open>
  A coupon never lowers the price of an order: it is previewed for an amount of zero, so its discount is
  always zero, and it is not redeemed.
\<close>
theorem coupons_have_no_effect:
  "engine_create_order ops loads r env answer (ask\<lparr>oa_coupon := coupon\<rparr>) s = engine_create_order ops loads r env answer (ask\<lparr>oa_coupon := None\<rparr>) s"
proof -
  have price: "order_price env (ask\<lparr>oa_coupon := c\<rparr>) svc p q pct s' = order_price env ask svc p q pct s'" for c svc p q pct s'
    unfolding order_price_def no_coupon_flat by simp
  have row: "new_engine_order env (ask\<lparr>oa_coupon := c\<rparr>) l p q pr n = new_engine_order env ask l p q pr n"
    and key: "order_idem_key env (ask\<lparr>oa_coupon := c\<rparr>) = order_idem_key env ask"
    and asked: "oa_user (ask\<lparr>oa_coupon := c\<rparr>) = oa_user ask" "oa_service (ask\<lparr>oa_coupon := c\<rparr>) = oa_service ask"
      "oa_quantity (ask\<lparr>oa_coupon := c\<rparr>) = oa_quantity ask" "oa_source (ask\<lparr>oa_coupon := c\<rparr>) = oa_source ask"
      "oa_confirmed (ask\<lparr>oa_coupon := c\<rparr>) = oa_confirmed ask" for c l p q pr n
    by (simp_all add: new_engine_order_def order_idem_key_def)
  show ?thesis
    unfolding engine_create_order_def create_order_with_def price row key asked by (rule refl)
qed

section \<open>A shop for the witnesses\<close>

definition sample_engine :: engine_db where
  "sample_engine =
     \<lparr>eg_services = [sample_svc\<lparr>sv_custom_price := Some 100\<rparr>],
      eg_links = [\<lparr>lk_service = 1, lk_provider = 3, lk_provider_svc = ''9'', lk_primary = True\<rparr>],
      eg_providers = [\<lparr>ep_provider = 3, ep_active = True, ep_currency = ''USD''\<rparr>],
      eg_provider_services = [\<lparr>es_provider = 3, es_svc = ''9'', es_rate = 1, es_min_qty = 10, es_max_qty = 5000,
        es_refill = True, es_cancel = True\<rparr>],
      eg_pricing = no_rules, eg_coupons = sample_coupons, eg_premium = sample_subscribers,
      eg_ledger = \<lparr>lg_wallets = [\<lparr>wl_id = 1, wl_user = 7, wl_balance = 500\<rparr>],
        lg_txs = [\<lparr>tx_id = ''t0'', tx_wallet = 1, tx_kind = DEPOSIT, tx_amount = 500, tx_before = 0, tx_after = 500,
                   tx_key = ''pay:1'', tx_reference = None, tx_reason = None, tx_at = 0\<rparr>]\<rparr>,
      eg_orders = []\<rparr>"

definition sample_engine_env :: engine_env where
  "sample_engine_env =
     \<lparr>ee_now = 5, ee_uuid = ''u'', ee_order_id = ''o1'', ee_public_ref = ''ORD-1'', ee_ledger = sample_ledger_env,
      ee_coupon = sample_coupon_env, ee_rate = Absent,
      ee_risk = \<lparr>ra_60s = Some 1, ra_1h = Some 1, ra_24h = None, ra_spend = Some None\<rparr>\<rparr>"

definition sample_ask :: order_ask where
  "sample_ask =
     \<lparr>oa_user = 7, oa_service = 1, oa_quantity = 1000, oa_link = Some ''l'', oa_key = Some ''k'', oa_source = ''bot'',
      oa_confirmed = Some 100, oa_coupon = Some ''SAVE'', oa_tenant = None\<rparr>"

definition sample_place ::
  "smm_exn + string \<Rightarrow> engine_db \<Rightarrow> engine_order engine_result" where
  "sample_place outcome s =
     create_order_with sample_store (\<lambda>_. None) Map.empty sample_engine_env outcome sample_ask s"

lemmas sample_engine_defs = sample_engine_def sample_engine_env_def sample_ask_def sample_svc_def sample_subscribers_def
  sample_ledger_env_def no_rules_def

lemma sample_engine_inv: "engine_inv sample_engine"
  by (simp add: engine_inv_def ledger_inv_def sample_engine_defs txs_of_def debit_key_def refund_key_def manual_key_def)

lemma sample_allowed: "assert_orders_allowed sample_store loads now source Map.empty = Inr ()"
proof -
  have "refuse_if_active sample_store loads now Map.empty names = Inr ()" for names
    by (induction names) (simp_all add: sample_store_def)
  then show ?thesis by (simp add: assert_orders_allowed_def)
qed

lemma sample_premium:
  "apply_premium_to_order now 7 False 1000 sample_subscribers =
     (Inr \<lparr>pt_discount_pct = 0, pt_priority = 3, pt_plan = ''basic''\<rparr>, sample_subscribers)"
  by (simp add: apply_premium_to_order_def assert_can_order_def get_premium_discount_pct_def get_benefits_def get_plan_def
      get_active_premium_def active_of_def sample_subscribers_def PLAN_BENEFITS_def)

lemma sample_engine_price:
  "\<exists>pr. order_price env a (sample_svc\<lparr>sv_custom_price := Some 100\<rparr>) p \<lparr>es_provider = 3, es_svc = ''9'', es_rate = 1, es_min_qty = 10,
      es_max_qty = 5000, es_refill = True, es_cancel = True\<rparr> pct s = Inr pr \<and> pc_price pr = 100"
  if "oa_quantity a = 1000"
  using that by (simp add: order_price_def calculate_price_def Let_def scaled_def quant_whole)

definition sample_after :: "ledger_db \<Rightarrow> engine_order list \<Rightarrow> engine_db" where
  "sample_after lg os = sample_engine\<lparr>eg_ledger := lg, eg_orders := os\<rparr>"

lemma sample_after_now: "sample_after (eg_ledger sample_engine) [] = sample_engine"
  by (simp add: sample_after_def sample_engine_def)

definition sample_row :: "price_result \<Rightarrow> engine_order" where
  "sample_row pr = new_engine_order sample_engine_env sample_ask (hd (eg_links sample_engine)) (hd (eg_providers sample_engine))
     (hd (eg_provider_services sample_engine)) pr 3"

lemma sample_order:
  obtains pr where "pc_price pr = 100"
    "\<And>outcome lg os. sample_place outcome (sample_after lg os) =
       (case find_by en_key ''k'' os of
          Some x \<Rightarrow> (Inr x, sample_after lg os)
        | None \<Rightarrow> charge_and_submit sample_engine_env outcome (sample_svc\<lparr>sv_custom_price := Some 100\<rparr>) (sample_row pr) (sample_after lg os))"
proof -
  let ?svc = "sample_svc\<lparr>sv_custom_price := Some 100\<rparr>" and ?p = "hd (eg_providers sample_engine)"
    and ?q = "hd (eg_provider_services sample_engine)" and ?a = "sample_after"
  have svc: "orderable_service (oa_service sample_ask) (?a lg os) = Inr ?svc" for lg os
    by (simp add: orderable_service_def sample_after_def sample_engine_defs)
  have same: "?a lg os\<lparr>eg_premium := eg_premium (?a lg os)\<rparr> = ?a lg os" for lg os by simp
  have prem: "apply_premium_to_order (ee_now sample_engine_env) (oa_user sample_ask) (sv_requires_premium sample_svc) (oa_quantity sample_ask)
      (eg_premium (?a lg os)) = (Inr \<lparr>pt_discount_pct = 0, pt_priority = 3, pt_plan = ''basic''\<rparr>, eg_premium (?a lg os))" for lg os
    using sample_premium [of 5] by (simp add: sample_after_def sample_ask_def sample_engine_def sample_engine_env_def sample_svc_def)
  have prov: "provider_for (oa_service sample_ask) (oa_quantity sample_ask) (?a lg os) = Inr (hd (eg_links sample_engine), ?p, ?q)" for lg os
    by (simp add: provider_for_def sample_after_def sample_engine_defs)
  obtain pr where pr: "order_price sample_engine_env sample_ask ?svc ?p ?q 0 sample_engine = Inr pr" "pc_price pr = 100"
    using sample_engine_price [of sample_ask sample_engine_env ?p 0 sample_engine]
    by (auto simp: sample_ask_def sample_engine_def)
  have price: "order_price sample_engine_env sample_ask ?svc ?p ?q 0 (?a lg os) = Inr pr" for lg os
    using pr(1) by (simp add: order_price_def no_coupon_flat sample_after_def)
  have risk: "order_risk sample_engine_env (pc_price pr) = Inr ()"
  proof -
    have "fl64 100 = 100" using fl64_int [of 100] by simp
    then show ?thesis
      by (simp add: order_risk_def pr evaluate_order_risk_def is_blocked_def risk_action_def sample_engine_env_def velocity_def
          spend_points_def new_spend_def f_add_def above_spend_limit_def Let_def)
  qed
  have key: "order_idem_key sample_engine_env sample_ask = ''k''" "eg_orders (?a lg os) = os" for lg os
    by (simp_all add: sample_after_def order_idem_key_def or_empty_def sample_ask_def)
  have confirmed: "oa_confirmed sample_ask = Some 100" by (simp add: sample_ask_def)
  have "sample_place outcome (?a lg os) =
       (case find_by en_key ''k'' os of
          Some x \<Rightarrow> (Inr x, ?a lg os)
        | None \<Rightarrow> charge_and_submit sample_engine_env outcome ?svc (sample_row pr) (?a lg os))" for outcome lg os
    by (cases "find_by en_key ''k'' os") (simp_all add: sample_place_def create_order_with_def sample_allowed svc prem same prov
        price pr risk [unfolded pr(2)] key confirmed verify_price_unchanged_def sample_row_def Let_def)
  then show thesis using that pr(2) by blast
qed

lemma sample_row_simps:
  "en_price (sample_row pr) = pc_price pr" "en_key (sample_row pr) = ''k''" "en_user (sample_row pr) = 7"
  "en_id (sample_row pr) = ''o1''"
  by (simp_all add: sample_row_def new_engine_order_def order_idem_key_def or_empty_def sample_ask_def sample_engine_env_def)

lemma sample_placed:
  obtains o' lg where "sample_place (Inr ''p1'') sample_engine = (Inr o', sample_after lg [o'])" "en_price o' = 100" "en_key o' = ''k''"
    "sample_place (Inl (Py ''TypeError'')) (sample_after lg [o']) = (Inr o', sample_after lg [o'])"
proof (rule sample_order)
  fix pr
  assume price: "pc_price pr = 100" and run: "\<And>outcome lg os. sample_place outcome (sample_after lg os) =
       (case find_by en_key ''k'' os of
          Some x \<Rightarrow> (Inr x, sample_after lg os)
        | None \<Rightarrow> charge_and_submit sample_engine_env outcome (sample_svc\<lparr>sv_custom_price := Some 100\<rparr>) (sample_row pr) (sample_after lg os))"
  let ?o = "sample_row pr\<lparr>en_provider_order := Some ''p1'', en_status := ''processing''\<rparr>"
  have "\<exists>lg. charge_and_submit sample_engine_env (Inr ''p1'') (sample_svc\<lparr>sv_custom_price := Some 100\<rparr>) (sample_row pr) sample_engine
      = (Inr ?o, sample_after lg [?o])"
    using price by (simp add: charge_and_submit_def ledger_debit_def execute_transaction_def find_by_idempotency_key_def wallet_of_def
        sample_row_simps sample_engine_def sample_after_def debit_key_def update_engine_order_def Let_def)
  moreover have "en_price ?o = 100" "en_key ?o = ''k''" using price by (simp_all add: sample_row_simps)
  ultimately show thesis
    using that [of ?o] run [of "Inr ''p1''" "eg_ledger sample_engine" "[]"] run [of "Inl (Py ''TypeError'')" _ "[?o]"]
    by (auto simp: sample_after_now)
qed

theorem orders_settle_once_witness:
  "\<exists>o' s. sample_place (Inr ''p1'') sample_engine = (Inr o', s) \<and> eg_orders s = [o'] \<and> charged_for o' s = 100 \<and> given_back_for o' s \<in> {0, 100}"
proof (rule sample_placed)
  fix o' lg
  assume placed: "sample_place (Inr ''p1'') sample_engine = (Inr o', sample_after lg [o'])" "en_price o' = 100"
  let ?q = "Place sample_store (\<lambda>_. None) Map.empty sample_engine_env (Inr ''p1'') sample_ask"
  have run: "engine_run [?q] sample_engine = sample_after lg [o']"
    using placed(1) by (simp add: engine_run_def committed_def sample_place_def)
  have "o' \<in> set (eg_orders (engine_run [?q] sample_engine))" by (simp add: run sample_after_def)
  then show ?thesis
    using orders_settle_once [OF sample_engine_inv, of "[?q]" o'] placed by (simp add: run sample_after_def)
qed

theorem charge_or_nothing_witness:
  "balance_of 7 (snd (sample_place (Inr ''p1'') sample_engine)) = Some 400
     \<and> balance_of 7 (snd (sample_place (Inl (Py ''TypeError'')) sample_engine)) = Some 500"
proof -
  have start: "balance_of 7 sample_engine = Some 500" by (simp add: balance_of_def wallet_of_def sample_engine_def)
  have key: "find_by en_key (order_idem_key sample_engine_env sample_ask) (eg_orders sample_engine) = None"
    "ee_order_id sample_engine_env \<notin> en_id ` set (eg_orders sample_engine)"
    "ee_public_ref sample_engine_env \<notin> en_public_ref ` set (eg_orders sample_engine)"
    by (simp_all add: sample_engine_def)
  have pays: "case sample_place outcome sample_engine of
      (Inl e, t) \<Rightarrow> balance_of 7 t = balance_of 7 sample_engine
    | (Inr o', t) \<Rightarrow> 0 < en_price o' \<and> en_user o' = oa_user sample_ask \<and> en_status o' = ''processing'' \<and>
        balance_of 7 t = (if 7 = oa_user sample_ask then map_option (\<lambda>b. b - en_price o') (balance_of 7 sample_engine)
          else balance_of 7 sample_engine)" for outcome
    unfolding sample_place_def by (rule charge_or_nothing [OF sample_engine_inv key])
  have "balance_of 7 (snd (sample_place (Inr ''p1'') sample_engine)) = Some 400"
  proof (rule sample_placed)
    fix o' lg assume "sample_place (Inr ''p1'') sample_engine = (Inr o', sample_after lg [o'])" "en_price o' = 100"
    then show ?thesis using pays [of "Inr ''p1''"] start by (simp add: sample_ask_def)
  qed
  moreover have "balance_of 7 (snd (sample_place (Inl (Py ''TypeError'')) sample_engine)) = Some 500"
  proof (rule sample_order)
    fix pr assume run: "\<And>outcome lg os. sample_place outcome (sample_after lg os) =
       (case find_by en_key ''k'' os of
          Some x \<Rightarrow> (Inr x, sample_after lg os)
        | None \<Rightarrow> charge_and_submit sample_engine_env outcome (sample_svc\<lparr>sv_custom_price := Some 100\<rparr>) (sample_row pr) (sample_after lg os))"
    have "isl (fst (sample_place (Inl (Py ''TypeError'')) sample_engine))"
      using run [of _ "eg_ledger sample_engine" "[]"] by (simp add: failed_charge sample_after_now)
    then show ?thesis using pays [of "Inl (Py ''TypeError'')"] start by (auto simp: isl_def split: prod.splits sum.splits)
  qed
  ultimately show ?thesis by blast
qed

theorem no_order_is_accepted_witness:
  "\<exists>o' s t. sample_place (Inr ''p1'') sample_engine = (Inr o', s)
     \<and> engine_create_order sample_store (\<lambda>_. None) Map.empty sample_engine_env (Inr ''p2'') sample_ask s = (Inr o', t)
     \<and> eg_orders t = [o'] \<and> en_key o' = ''k''"
proof (rule sample_placed)
  fix o' lg
  assume placed: "sample_place (Inr ''p1'') sample_engine = (Inr o', sample_after lg [o'])"
    and again: "sample_place (Inl (Py ''TypeError'')) (sample_after lg [o']) = (Inr o', sample_after lg [o'])"
  have "engine_create_order sample_store (\<lambda>_. None) Map.empty sample_engine_env (Inr ''p2'') sample_ask (sample_after lg [o'])
      = (Inr o', sample_after lg [o'])"
    using again by (simp add: engine_create_order_def sample_place_def submitting_fails)
  moreover from no_order_is_accepted [OF this] have "en_key o' = ''k''"
    by (simp add: order_idem_key_def or_empty_def sample_ask_def)
  ultimately show ?thesis using placed by (auto simp: sample_after_def)
qed

end
