(* ===== verification/Spec2Isabelle.thy ===== *)
theory Spec2Isabelle
  imports AccountSpec MiniApp AdminAuth BotSpec Workers Registry TenantBots OrderEngine
begin

text \<open>
  A verification development for a Telegram shop that resells social-media services. Customers hold a
  prepaid wallet, order services at a quoted price in a bot or in a Mini App, and the shop passes the
  orders on to provider panels. All amounts are integers of paise.

  \<^bold>\<open>The program\<close>. The shop that runs is the first generation of modules (\<open>app/wallet.py\<close>,
  \<open>app/orders.py\<close>, \<open>app/payments\<close>, \<open>app/sync.py\<close>, \<open>app/bot/main.py\<close>, \<open>app/api/routes.py\<close>). One
  database session serves one update or request; it is committed when the handler returns and rolled
  back when it raises. The wallet keeps a ledger and two cached columns per user; orders reserve, capture
  and release funds through it; deposits credit it once a gateway confirms them; the catalogue is
  mirrored from the panels. A second generation (\<open>app/core\<close>, \<open>app/admin\<close>, \<open>app/tenants\<close> and others)
  has its own schema and exact decimal amounts; of it the exceptions and permissions, the sign-in of
  administrators, the panel adapter with its registry, the hosted bots, and the order pipeline with its
  wallet, prices, subscriptions, coupons, switches and risk engine are modelled.

  \<^bold>\<open>Theories\<close>.

  \<^item> \<open>Prelude\<close>: exceptions as values with their \<open>e_bind\<close>, idempotency keys, key-indexed lists.
    \<open>PyFloat\<close>: binary64 on exact rationals with the locale \<open>rounding\<close>. \<open>PyText\<close>: string methods,
    \<open>int\<close> and \<open>float\<close> of a text.
  \<^item> \<open>Store\<close>: the rows of \<open>app/models.py\<close> as records and the database \<open>db\<close>. \<open>Contracts\<close>: the locales
    \<open>keyed_posting\<close> (a posting is done once per key) and \<open>session_steps\<close> (a step that keeps an
    invariant keeps it through every sequence of sessions, failed ones included); each component
    interprets them on its own operations.
  \<^item> \<open>PriceMath\<close>, \<open>Pricing\<close>: \<open>app/pricemath.py\<close>, \<open>app/pricing.py\<close>: markups, margin floors, coupons,
    reseller discounts; a quote keeps its margin whatever is combined.
  \<^item> \<open>Wallet\<close>: \<open>app/wallet.py\<close>; the cached columns can be recomputed from the ledger, and each operation
    refines a machine of accounts.
  \<^item> \<open>Catalog\<close>: settings and kill switches of \<open>app/catalog.py\<close>. \<open>Config\<close>: \<open>app/config.py\<close>.
  \<^item> \<open>Referrals\<close>: \<open>app/referrals.py\<close>. \<open>Panel\<close>: the adapter \<open>app/adapters/perfectpanel.py\<close>.
  \<^item> \<open>Orders\<close>: \<open>app/orders.py\<close>; \<open>OrderMoney\<close>: histories of order operations, refunds bounded by charges.
  \<^item> \<open>Razorpay\<close>, \<open>Payments\<close>: \<open>app/payments\<close>; \<open>PaymentBooks\<close>: histories of deposits, each credited once.
  \<^item> \<open>SyncNormalize\<close>, \<open>Sync\<close>: \<open>app/sync_normalize.py\<close>, \<open>app/sync.py\<close>; \<open>SyncSpec\<close>: what a
    synchronisation does to every service, field by field (\<open>sync_spec\<close>), as a specification of its own
    that the loops over rows and dictionaries implement, and what survives any number of them.
  \<^item> \<open>Accounts\<close>: users, start and terms screens, the tools of administrators and operators.
    \<open>Shop\<close>: the composition. Every request that users, providers, the gateway, administrators, the
    operator or the workers can make is one \<open>shop_request\<close>; the invariant \<open>shop_inv\<close> joins the books of
    wallets, orders, deposits and bonuses. Which tables an operation may touch is stated by the
    relations \<open>order_side\<close>, \<open>payment_side\<close>, \<open>account_side\<close> and \<open>profile_step\<close>. \<open>AccountSpec\<close>: what an
    adjustment does.
  \<^item> \<open>RateLimit\<close>: \<open>app/ratelimit.py\<close> against a sliding window. \<open>InitData\<close>: \<open>app/security.py\<close> and
    \<open>app/api/telegram_auth.py\<close>. \<open>Storefront\<close>, \<open>MiniApp\<close>: the routes of \<open>app/api\<close>, from the request to
    the committed rows; the API refines the shop.
  \<^item> \<open>Platform\<close>, \<open>AdminAuth\<close>: \<open>app/core/exceptions.py\<close>, \<open>app/auth\<close>, the sign-in of \<open>app/admin/routes.py\<close>.
  \<^item> \<open>OrderForm\<close>, \<open>BotScreens\<close>, \<open>BotAdmin\<close>: the handlers of \<open>app/bot/handlers\<close> on a conversation (state
    and data) and a session. \<open>Bot\<close>: the middlewares and the dispatch of \<open>app/bot/main.py\<close>.
    \<open>BotSpec\<close>: the bot keeps the books, access, leaving a dialog, and that only staff reaches the
    administrators' handlers. \<open>Books\<close>: each operation by itself
    keeps \<open>shop_inv\<close>, for the bot and the workers.
  \<^item> \<open>Workers\<close>: the passes of \<open>app/workers.py\<close>; no open order is forgotten, and users are told what was
    committed.

  \<^item> \<open>PyDecimal\<close>, \<open>Quantize\<close>: Python's \<open>Decimal\<close>. \<open>SMMProMax\<close>, \<open>Registry\<close>: \<open>app/providers\<close>, an adapter on
    what the HTTP client answers, and the circuit breaker as a function of the calls seen.
  \<^item> \<open>Tenants\<close>, \<open>TenantBots\<close>: \<open>app/tenants\<close>; the bots that run are those of the rows.
  \<^item> \<open>Ledger\<close>: \<open>app/wallet/ledger.py\<close>; the transactions of a wallet form a chain. \<open>PriceEngine\<close>:
    \<open>app/pricing/engine.py\<close>. \<open>FxRates\<close>: \<open>app/fx/rates.py\<close>. \<open>Premium\<close>: \<open>app/premium\<close>. \<open>Coupons\<close>:
    \<open>app/coupons/engine.py\<close>. \<open>Guards\<close>: \<open>app/security/kill_switches.py\<close> against the history of the
    switches, and \<open>app/risk/engine.py\<close>.
  \<^item> \<open>OrderEngine\<close>: \<open>app/orders/engine.py\<close>, which composes them: for every order in the books its price was
    taken from its user's wallet once and given back at most once, a failed one costs nothing, and with the keywords of its call none is accepted.

  \<^bold>\<open>Conventions\<close>. A function that may raise returns \<open>exn + result\<close>; a raised exception carries no
  state, because the session is rolled back. A handler of the bot returns the conversation beside the
  result, because aiogram does not roll that back. A function that receives a row of the session
  receives its key and reads the row. Sessions are created with \<open>autoflush=False\<close>: a query sees what
  was flushed, and where this matters the flushed database is an argument of its own. One reading of the
  clock serves one operation. In the second generation an operation gives its result and the rows of the
  session, also when it raises; a history commits only the sessions that return. Text is a list of characters with ASCII case mapping, floats are
  \<open>fl64\<close>, and amounts are unbounded integers as in Python. SHA-256 and HMAC, random identifiers, JSON,
  what panels, gateways and Telegram answer, bcrypt, TOTP and JWT are arguments; \<open>good_digest\<close> and
  \<open>shop_digest\<close> say that the digest is free of collisions on the keys the shop makes, and only theorems
  that need it assume it. Recursion is structural everywhere, over the rows, the requests or the
  bounded number of attempts; no fuel is used.

  \<^bold>\<open>Not modelled\<close>: sessions that overlap in time (the code relies on row locks and unique keys; the
  violated constraint is a branch, the interleaving inside one session is not); messages, keyboards,
  advertisements, start-up, migrations, monitoring; the platform section of the statistics and the
  screens of providers; non-ASCII case mapping; the intervals of the workers' loops, the demo adapter, and the rest of
  the second generation (its sync, catalogue, payment adapters, workers, administrators' bot and pages),
  whose packages are partly shadowed by the modules that run.
\<close>

end
